(* ===== verification/Prelude.thy ===== *)
theory Prelude
  imports
    Complex_Main
    "HOL-Library.Char_ord"
    "HOL-Library.List_Lexorder"
    "HOL-Library.Product_Lexorder"
    "HOL-Library.Sublist"
begin

section \<open>Shared vocabulary of the development\<close>

text \<open>
  What every component theory uses: the named collections, the types that stand for Python and
  PostgreSQL values (identifiers, instants, JSON, exceptions), the model of a database table as
  a list of rows, and the generic lemmas on lists, options and tables.

  Strings are \<^typ>\<open>string\<close>; the comparison of strings is Python's (lexicographic by character
  code), from the library's list and character orders.  Identifiers (\<open>uuid.UUID\<close>) are their
  128-bit integer value, so the order of identifiers is Python's order on UUIDs.  Instants and
  durations are integers counting microseconds, the resolution of \<open>datetime\<close> and of
  \<open>timestamptz\<close>.
\<close>

named_theorems table_simps \<open>lookup and update on tables\<close>
named_theorems enum_members \<open>the member lists of the closed vocabularies\<close>
named_theorems frame_simps \<open>fields an operation leaves unchanged\<close>

type_synonym uuid = nat
type_synonym instant = int
type_synonym duration = int

subsection \<open>Exceptions\<close>

text \<open>
  One constructor per exception class the modelled code raises; the string is the message or
  its leading part.
\<close>

datatype exn =
    ValueError string
  | KeyError string
  | LookupError string
  | RuntimeError string
  | IntegrityError string
  | LeaseLost string
  | LockOrderViolation string
  | StagingBudgetExceeded string int int int
  | QuestionIntakeError string
  | RuleValidationError string
  | ResolutionError string
  | CascadeError string
  | BarrierBlockedError string
  | ConfigError string
  | ProfileError string
  | TypeError string
  | NoResultFound string
  | PermissionError string
  | AssertionError string
  | LockTimeoutError string
  | AttributeError string
  | SSRFError string
  | ModeError string
  | ReassessmentWorkerError string
  | IndexError string
  | OSError string
  | HTTPError string
  | TimeoutException string
  | InvalidURL string
  | FetchError string
  | ResearchProxyError string string
  | ActivationError string
  | ActivationInFlightError string
  | DBAPIError string
  | InvalidRequestError string
  | DisputeError string
  | WakeScheduleError string
  | ReassessmentAdmissionError string
  | RepairAdmissionError string
  | NodeSessionGuardError string
  | CuriosityConfigError string
  | RepetitionConfigError string

subsection \<open>JSON values\<close>

text \<open>
  A JSON object keeps its insertion order, as a Python dict does.
\<close>

datatype json =
    JNull
  | JBool bool
  | JInt int
  | JFloat rat
  | JStr string
  | JArr "json list"
  | JObj "(string \<times> json) list"

type_synonym json_dict = "(string \<times> json) list"

text \<open>
  Assignment \<open>d[k] = v\<close> on a Python dict: an existing key keeps its position and gets the new
  value, a new key goes to the end.
\<close>

fun dict_set :: "'k \<Rightarrow> 'v \<Rightarrow> ('k \<times> 'v) list \<Rightarrow> ('k \<times> 'v) list" where
  "dict_set k v [] = [(k, v)]"
| "dict_set k v ((k', v') # d) = (if k' = k then (k, v) # d else (k', v') # dict_set k v d)"

lemma map_of_dict_set [simp]: "map_of (dict_set k v d) = (map_of d)(k \<mapsto> v)"
  by (induction d rule: dict_set.induct) auto

lemma keys_dict_set: "set (map fst (dict_set k v d)) = insert k (set (map fst d))"
  by (induction d rule: dict_set.induct) auto

lemma distinct_dict_set: "distinct (map fst d) \<Longrightarrow> distinct (map fst (dict_set k v d))"
proof (induction k v d rule: dict_set.induct)
  case (2 k v k' v' d)
  then show ?case using keys_dict_set [of k v d] by auto
qed simp

lemma dict_set_new: "k \<notin> set (map fst d) \<Longrightarrow> dict_set k v d = d @ [(k, v)]"
  by (induction k v d rule: dict_set.induct) auto

subsection \<open>Dictionaries of lists\<close>

text \<open>
  \<open>d.setdefault(k, []).append(v)\<close>, and the loop that files the values of a list under their keys.
\<close>

definition dict_append :: "'k \<Rightarrow> 'v \<Rightarrow> ('k \<times> 'v list) list \<Rightarrow> ('k \<times> 'v list) list" where
  "dict_append k v d = dict_set k ((case map_of d k of None \<Rightarrow> [] | Some vs \<Rightarrow> vs) @ [v]) d"

definition bucket :: "('a \<Rightarrow> 'k option) \<Rightarrow> ('a \<Rightarrow> 'v) \<Rightarrow> 'a list \<Rightarrow> ('k \<times> 'v list) list" where
  "bucket key f xs = fold (\<lambda>x d. case key x of None \<Rightarrow> d | Some k \<Rightarrow> dict_append k (f x) d) xs []"

lemma map_of_dict_append:
  "map_of (dict_append k v d) = (map_of d)(k \<mapsto> (case map_of d k of None \<Rightarrow> [] | Some vs \<Rightarrow> vs) @ [v])"
  by (simp add: dict_append_def)

lemma bucket_snoc:
  "bucket key f (xs @ [x]) = (case key x of None \<Rightarrow> bucket key f xs | Some k \<Rightarrow> dict_append k (f x) (bucket key f xs))"
  unfolding bucket_def by simp

lemma bucket_lookup:
  "map_of (bucket key f xs) k =
     (let ys = filter (\<lambda>x. key x = Some k) xs in if ys = [] then None else Some (map f ys))"
proof (induction xs rule: rev_induct)
  case (snoc x xs)
  then show ?case by (auto simp: bucket_snoc map_of_dict_append Let_def split: option.splits)
qed (simp add: bucket_def)

lemma bucket_distinct: "distinct (map fst (bucket key f xs))"
  by (induction xs rule: rev_induct)
    (auto simp: bucket_snoc dict_append_def distinct_dict_set split: option.splits, simp add: bucket_def)

lemma bucket_member:
  "(k, vs) \<in> set (bucket key f xs) \<longleftrightarrow> vs = map f (filter (\<lambda>x. key x = Some k) xs) \<and> vs \<noteq> []"
  using bucket_lookup [of key f xs k] map_of_eq_Some_iff [OF bucket_distinct, of key f xs k vs]
  by (auto simp: Let_def split: if_splits)

subsection \<open>Text of numbers and identifiers\<close>

definition digit_char :: "nat \<Rightarrow> char" where
  "digit_char d = (''0123456789abcdef'' ! (d mod 16))"

fun digits_width :: "nat \<Rightarrow> nat \<Rightarrow> string" where
  "digits_width 0 n = []"
| "digits_width (Suc w) n = digits_width w (n div 16) @ [digit_char n]"

text \<open>\<open>str(uuid)\<close>: 32 hexadecimal digits grouped 8-4-4-4-12.\<close>

definition uuid_str :: "uuid \<Rightarrow> string" where
  "uuid_str u = (let h = digits_width 32 u in
     take 8 h @ ''-'' @ take 4 (drop 8 h) @ ''-'' @ take 4 (drop 12 h) @ ''-''
       @ take 4 (drop 16 h) @ ''-'' @ drop 20 h)"

fun nat_str :: "nat \<Rightarrow> string" where
  "nat_str n = (if n < 10 then [digit_char n] else nat_str (n div 10) @ [digit_char (n mod 10)])"

declare nat_str.simps [simp del]

definition int_str :: "int \<Rightarrow> string" where
  "int_str i = (if i < 0 then ''-'' @ nat_str (nat (- i)) else nat_str (nat i))"

text \<open>\<open>type(exc).__name__\<close> and \<open>str(exc)\<close>.\<close>

fun exn_name :: "exn \<Rightarrow> string" where
  "exn_name (ValueError m) = ''ValueError''"
| "exn_name (KeyError m) = ''KeyError''"
| "exn_name (LookupError m) = ''LookupError''"
| "exn_name (RuntimeError m) = ''RuntimeError''"
| "exn_name (IntegrityError m) = ''IntegrityError''"
| "exn_name (LeaseLost m) = ''LeaseLost''"
| "exn_name (LockOrderViolation m) = ''LockOrderViolation''"
| "exn_name (StagingBudgetExceeded a b c e) = ''StagingBudgetExceeded''"
| "exn_name (QuestionIntakeError m) = ''QuestionIntakeError''"
| "exn_name (RuleValidationError m) = ''RuleValidationError''"
| "exn_name (ResolutionError m) = ''ResolutionError''"
| "exn_name (CascadeError m) = ''CascadeError''"
| "exn_name (BarrierBlockedError m) = ''BarrierBlockedError''"
| "exn_name (ConfigError m) = ''ConfigError''"
| "exn_name (ProfileError m) = ''ProfileError''"
| "exn_name (TypeError m) = ''TypeError''"
| "exn_name (NoResultFound m) = ''NoResultFound''"
| "exn_name (PermissionError m) = ''PermissionError''"
| "exn_name (AssertionError m) = ''AssertionError''"
| "exn_name (LockTimeoutError m) = ''LockTimeoutError''"
| "exn_name (AttributeError m) = ''AttributeError''"
| "exn_name (SSRFError m) = ''SSRFError''"
| "exn_name (ModeError m) = ''ModeError''"
| "exn_name (ReassessmentWorkerError m) = ''ReassessmentWorkerError''"
| "exn_name (IndexError m) = ''IndexError''"
| "exn_name (OSError m) = ''OSError''"
| "exn_name (HTTPError m) = ''HTTPError''"
| "exn_name (TimeoutException m) = ''TimeoutException''"
| "exn_name (InvalidURL m) = ''InvalidURL''"
| "exn_name (FetchError m) = ''FetchError''"
| "exn_name (ResearchProxyError m st) = ''ResearchProxyError''"
| "exn_name (ActivationError m) = ''ActivationError''"
| "exn_name (ActivationInFlightError m) = ''ActivationInFlightError''"
| "exn_name (DBAPIError m) = ''DBAPIError''"
| "exn_name (InvalidRequestError m) = ''InvalidRequestError''"
| "exn_name (DisputeError m) = ''DisputeError''"
| "exn_name (WakeScheduleError m) = ''WakeScheduleError''"
| "exn_name (ReassessmentAdmissionError m) = ''ReassessmentAdmissionError''"
| "exn_name (RepairAdmissionError m) = ''RepairAdmissionError''"
| "exn_name (NodeSessionGuardError m) = ''NodeSessionGuardError''"
| "exn_name (CuriosityConfigError m) = ''CuriosityConfigError''"
| "exn_name (RepetitionConfigError m) = ''RepetitionConfigError''"

fun exn_text :: "exn \<Rightarrow> string" where
  "exn_text (StagingBudgetExceeded counter cur prop lmt) =
     ''staging_budget_exceeded: '' @ counter @ '' current='' @ int_str cur @ '' proposed='' @ int_str prop
       @ '' limit='' @ int_str lmt"
| "exn_text (ValueError m) = m" | "exn_text (KeyError m) = m" | "exn_text (LookupError m) = m"
| "exn_text (RuntimeError m) = m" | "exn_text (IntegrityError m) = m" | "exn_text (LeaseLost m) = m"
| "exn_text (LockOrderViolation m) = m" | "exn_text (QuestionIntakeError m) = m"
| "exn_text (RuleValidationError m) = m" | "exn_text (ResolutionError m) = m"
| "exn_text (CascadeError m) = m" | "exn_text (BarrierBlockedError m) = m"
| "exn_text (ConfigError m) = m" | "exn_text (ProfileError m) = m" | "exn_text (TypeError m) = m"
| "exn_text (NoResultFound m) = m" | "exn_text (PermissionError m) = m"
| "exn_text (AssertionError m) = m" | "exn_text (LockTimeoutError m) = m"
| "exn_text (AttributeError m) = m"
| "exn_text (SSRFError m) = m"
| "exn_text (ModeError m) = m"
| "exn_text (ReassessmentWorkerError m) = m"
| "exn_text (IndexError m) = m"
| "exn_text (OSError m) = m"
| "exn_text (HTTPError m) = m"
| "exn_text (TimeoutException m) = m"
| "exn_text (InvalidURL m) = m"
| "exn_text (FetchError m) = m"
| "exn_text (ResearchProxyError m st) = m"
| "exn_text (ActivationError m) = m"
| "exn_text (ActivationInFlightError m) = m"
| "exn_text (DBAPIError m) = m"
| "exn_text (InvalidRequestError m) = m"
| "exn_text (DisputeError m) = m"
| "exn_text (WakeScheduleError m) = m"
| "exn_text (ReassessmentAdmissionError m) = m"
| "exn_text (RepairAdmissionError m) = m"
| "exn_text (NodeSessionGuardError m) = m"
| "exn_text (CuriosityConfigError m) = m"
| "exn_text (RepetitionConfigError m) = m"

definition opt_str :: "string option \<Rightarrow> string" where
  "opt_str o' = (case o' of None \<Rightarrow> ''None'' | Some s \<Rightarrow> s)"

definition opt_uuid_json :: "uuid option \<Rightarrow> json" where
  "opt_uuid_json u = (case u of None \<Rightarrow> JNull | Some x \<Rightarrow> JStr (uuid_str x))"

subsection \<open>Tables\<close>

text \<open>
  A table is the list of its rows in insertion order.  \<open>tbl_get\<close> is a lookup by primary key,
  \<open>tbl_update p f\<close> is \<open>UPDATE \<dots> SET f WHERE p\<close>, \<open>tbl_count\<close> is \<open>SELECT count(*) \<dots> WHERE p\<close>.
\<close>

definition tbl_get :: "('r \<Rightarrow> 'k) \<Rightarrow> 'k \<Rightarrow> 'r list \<Rightarrow> 'r option" where
  "tbl_get key k t = find (\<lambda>r. key r = k) t"

definition tbl_update :: "('r \<Rightarrow> bool) \<Rightarrow> ('r \<Rightarrow> 'r) \<Rightarrow> 'r list \<Rightarrow> 'r list" where
  "tbl_update p f t = map (\<lambda>r. if p r then f r else r) t"

definition tbl_count :: "('r \<Rightarrow> bool) \<Rightarrow> 'r list \<Rightarrow> nat" where
  "tbl_count p t = length (filter p t)"

lemma tbl_get_Nil [simp]: "tbl_get key k [] = None"
  by (simp add: tbl_get_def)

lemma tbl_get_Cons [simp]:
  "tbl_get key k (r # t) = (if key r = k then Some r else tbl_get key k t)"
  by (simp add: tbl_get_def)

lemma tbl_get_append:
  "tbl_get key k (t @ u) = (case tbl_get key k t of None \<Rightarrow> tbl_get key k u | Some r \<Rightarrow> Some r)"
  by (induction t) auto

lemma tbl_get_SomeD: "tbl_get key k t = Some r \<Longrightarrow> r \<in> set t \<and> key r = k"
  by (induction t) (auto split: if_splits)

lemma tbl_get_None_iff: "tbl_get key k t = None \<longleftrightarrow> k \<notin> key ` set t"
  by (induction t) auto

lemma tbl_get_distinct:
  "distinct (map key t) \<Longrightarrow> r \<in> set t \<Longrightarrow> tbl_get key (key r) t = Some r"
  by (induction t) auto

lemma tbl_update_Nil [simp]: "tbl_update p f [] = []"
  by (simp add: tbl_update_def)

lemma tbl_update_Cons [simp]:
  "tbl_update p f (r # t) = (if p r then f r else r) # tbl_update p f t"
  by (simp add: tbl_update_def)

lemma length_tbl_update [simp]: "length (tbl_update p f t) = length t"
  by (simp add: tbl_update_def)

lemma set_tbl_update: "set (tbl_update p f t) = (\<lambda>r. if p r then f r else r) ` set t"
  by (simp add: tbl_update_def)

lemma tbl_update_id: "(\<And>r. r \<in> set t \<Longrightarrow> p r \<Longrightarrow> f r = r) \<Longrightarrow> tbl_update p f t = t"
  by (induction t) auto

lemma tbl_update_none: "(\<And>r. r \<in> set t \<Longrightarrow> \<not> p r) \<Longrightarrow> tbl_update p f t = t"
  by (induction t) auto

lemma tbl_count_0_iff: "tbl_count p t = 0 \<longleftrightarrow> (\<forall>r\<in>set t. \<not> p r)"
  by (simp add: tbl_count_def filter_empty_conv)

lemma tbl_count_append [simp]: "tbl_count p (t @ u) = tbl_count p t + tbl_count p u"
  by (simp add: tbl_count_def)

lemma tbl_count_Nil [simp]: "tbl_count p [] = 0"
  by (simp add: tbl_count_def)

lemma tbl_count_Cons [simp]:
  "tbl_count p (r # t) = (if p r then Suc (tbl_count p t) else tbl_count p t)"
  by (simp add: tbl_count_def)

text \<open>
  The interface of an update that keeps the primary key: lookups commute with it and the keys
  of the table do not change.
\<close>

locale keyed_update =
  fixes key :: "'r \<Rightarrow> 'k" and f :: "'r \<Rightarrow> 'r"
  assumes key_kept: "key (f r) = key r"
begin

lemma keys_update: "map key (tbl_update p f t) = map key t"
  by (induction t) (auto simp: key_kept)

lemma get_update:
  "tbl_get key k (tbl_update p f t) =
     map_option (\<lambda>r. if p r then f r else r) (tbl_get key k t)"
  by (induction t) (auto simp: key_kept)

lemma get_update_key:
  "tbl_get key k (tbl_update (\<lambda>r. key r = k') f t) =
     (if k = k' then map_option f (tbl_get key k t) else tbl_get key k t)"
proof (induction t)
  case (Cons r t)
  then show ?case by (auto simp: key_kept)
qed simp

end

subsection \<open>Sorting and aggregates\<close>

text \<open>\<open>COALESCE(MAX(f), d)\<close> over the rows that satisfy the condition.\<close>

definition max_default :: "int \<Rightarrow> int list \<Rightarrow> int" where
  "max_default d xs = (if xs = [] then d else fold max (tl xs) (hd xs))"

lemma fold_max_ge: "(y :: int) \<le> fold max ys y \<and> (\<forall>z\<in>set ys. z \<le> fold max ys y)"
proof (induction ys arbitrary: y)
  case (Cons a ys)
  from Cons.IH [of "max a y"] show ?case by auto
qed simp

lemma max_default_ge: "x \<in> set xs \<Longrightarrow> x \<le> max_default d xs"
  using fold_max_ge by (cases xs) (auto simp: max_default_def)

lemma max_default_Nil [simp]: "max_default d [] = d"
  by (simp add: max_default_def)

lemma sort_key_filter_commute:
  "filter p (sort_key f xs) = sort_key f (filter p xs)"
  by (simp add: filter_sort)

end
