(* ===== verification/Enums.thy ===== *)
theory Enums
  imports Prelude
begin

section \<open>The closed vocabularies of the system\<close>

text \<open>
  The \<open>StrEnum\<close> classes of \<open>packages/domain/models/enums.py\<close>: one datatype per class with one
  constructor per member, the wire value of each member, and the member list in declaration
  order.  A constructor carries its class's short prefix, because several classes share member
  names.  Table columns that hold such a value carry a CHECK constraint built from the same
  class, so rows hold the datatype.

  The locale \<open>str_enum\<close> is the contract of a \<open>StrEnum\<close> class: the wire values are pairwise
  different, and the constructor call \<open>Cls(value)\<close> inverts \<open>.value\<close> and rejects every other
  string.  It is interpreted for every class.
\<close>

locale str_enum =
  fixes members :: "'a list" and val :: "'a \<Rightarrow> string"
  assumes all_members: "x \<in> set members"
    and distinct_values: "distinct (map val members)"
begin

definition parse :: "string \<Rightarrow> exn + 'a" where
  "parse s = (case find (\<lambda>x. val x = s) members of
     None \<Rightarrow> Inl (ValueError s) | Some x \<Rightarrow> Inr x)"

lemma val_inj: "val x = val y \<Longrightarrow> x = y"
  using distinct_values all_members [of x] all_members [of y]
  by (auto simp: distinct_map dest: inj_onD)

lemma parse_val: "parse (val x) = Inr x"
proof -
  obtain y where y: "find (\<lambda>y. val y = val x) members = Some y"
    using all_members [of x] find_None_iff [of "\<lambda>y. val y = val x" members] by fastforce
  then have "y = x" by (auto simp: find_Some_iff intro: val_inj)
  with y show ?thesis by (simp add: parse_def)
qed

lemma parse_Inr: "parse s = Inr x \<longleftrightarrow> s = val x"
  by (auto simp: parse_val) (auto simp: parse_def find_Some_iff split: option.splits)

lemma parse_rejects: "parse s = Inl e \<longleftrightarrow> e = ValueError s \<and> (\<forall>x. val x \<noteq> s)"
  using all_members by (auto simp: parse_def find_None_iff find_Some_iff split: option.splits)

end

subsection \<open>The classes\<close>

datatype session_state =
    SS_CREATED | SS_WAKING | SS_ORIENTING | SS_SELECTING_QUESTION | SS_PLANNING | SS_EXPLORING
    | SS_VERIFYING | SS_STOPPING | SS_CONSOLIDATING | SS_REPORTING | SS_COMMITTING
    | SS_RECONCILING_COMMIT | SS_ABORTING | SS_SUCCEEDED | SS_SUCCEEDED_PARTIAL | SS_FAILED
    | SS_CANCELLED

primrec session_state_value :: "session_state \<Rightarrow> string" where
  "session_state_value SS_CREATED = ''created''"
| "session_state_value SS_WAKING = ''waking''"
| "session_state_value SS_ORIENTING = ''orienting''"
| "session_state_value SS_SELECTING_QUESTION = ''selecting_question''"
| "session_state_value SS_PLANNING = ''planning''"
| "session_state_value SS_EXPLORING = ''exploring''"
| "session_state_value SS_VERIFYING = ''verifying''"
| "session_state_value SS_STOPPING = ''stopping''"
| "session_state_value SS_CONSOLIDATING = ''consolidating''"
| "session_state_value SS_REPORTING = ''reporting''"
| "session_state_value SS_COMMITTING = ''committing''"
| "session_state_value SS_RECONCILING_COMMIT = ''reconciling_commit''"
| "session_state_value SS_ABORTING = ''aborting''"
| "session_state_value SS_SUCCEEDED = ''succeeded''"
| "session_state_value SS_SUCCEEDED_PARTIAL = ''succeeded_partial''"
| "session_state_value SS_FAILED = ''failed''"
| "session_state_value SS_CANCELLED = ''cancelled''"

definition session_state_members :: "session_state list" where
  "session_state_members = [
     SS_CREATED, SS_WAKING, SS_ORIENTING, SS_SELECTING_QUESTION, SS_PLANNING, SS_EXPLORING,
     SS_VERIFYING, SS_STOPPING, SS_CONSOLIDATING, SS_REPORTING, SS_COMMITTING,
     SS_RECONCILING_COMMIT, SS_ABORTING, SS_SUCCEEDED, SS_SUCCEEDED_PARTIAL, SS_FAILED,
     SS_CANCELLED]"

datatype node_state =
    NS_SLEEPING | NS_PAUSED

primrec node_state_value :: "node_state \<Rightarrow> string" where
  "node_state_value NS_SLEEPING = ''sleeping''"
| "node_state_value NS_PAUSED = ''paused''"

definition node_state_members :: "node_state list" where
  "node_state_members = [
     NS_SLEEPING, NS_PAUSED]"

datatype decision_kind =
    DK_TOOL | DK_COMPLETE

primrec decision_kind_value :: "decision_kind \<Rightarrow> string" where
  "decision_kind_value DK_TOOL = ''tool''"
| "decision_kind_value DK_COMPLETE = ''complete''"

definition decision_kind_members :: "decision_kind list" where
  "decision_kind_members = [
     DK_TOOL, DK_COMPLETE]"

datatype complete_reason =
    CR_GOAL_REACHED | CR_BUDGET_EXHAUSTED | CR_NO_PROGRESS | CR_BLOCKED | CR_OPERATOR_STOP

primrec complete_reason_value :: "complete_reason \<Rightarrow> string" where
  "complete_reason_value CR_GOAL_REACHED = ''goal_reached''"
| "complete_reason_value CR_BUDGET_EXHAUSTED = ''budget_exhausted''"
| "complete_reason_value CR_NO_PROGRESS = ''no_progress''"
| "complete_reason_value CR_BLOCKED = ''blocked''"
| "complete_reason_value CR_OPERATOR_STOP = ''operator_stop''"

definition complete_reason_members :: "complete_reason list" where
  "complete_reason_members = [
     CR_GOAL_REACHED, CR_BUDGET_EXHAUSTED, CR_NO_PROGRESS, CR_BLOCKED, CR_OPERATOR_STOP]"

datatype policy_decision =
    PD_ALLOW | PD_DENY | PD_REQUIRE_OPERATOR

primrec policy_decision_value :: "policy_decision \<Rightarrow> string" where
  "policy_decision_value PD_ALLOW = ''allow''"
| "policy_decision_value PD_DENY = ''deny''"
| "policy_decision_value PD_REQUIRE_OPERATOR = ''require_operator''"

definition policy_decision_members :: "policy_decision list" where
  "policy_decision_members = [
     PD_ALLOW, PD_DENY, PD_REQUIRE_OPERATOR]"

datatype action_state =
    ACT_PROPOSED | ACT_POLICY_EVALUATED | ACT_ACCEPTED | ACT_STARTED | ACT_COMPLETED
    | ACT_FAILED | ACT_OUTCOME_UNKNOWN

primrec action_state_value :: "action_state \<Rightarrow> string" where
  "action_state_value ACT_PROPOSED = ''proposed''"
| "action_state_value ACT_POLICY_EVALUATED = ''policy_evaluated''"
| "action_state_value ACT_ACCEPTED = ''accepted''"
| "action_state_value ACT_STARTED = ''started''"
| "action_state_value ACT_COMPLETED = ''completed''"
| "action_state_value ACT_FAILED = ''failed''"
| "action_state_value ACT_OUTCOME_UNKNOWN = ''outcome_unknown''"

definition action_state_members :: "action_state list" where
  "action_state_members = [
     ACT_PROPOSED, ACT_POLICY_EVALUATED, ACT_ACCEPTED, ACT_STARTED, ACT_COMPLETED, ACT_FAILED,
     ACT_OUTCOME_UNKNOWN]"

datatype idempotency_class =
    IC_PURE | IC_OBSERVATION | IC_IDEMPOTENT | IC_NON_IDEMPOTENT

primrec idempotency_class_value :: "idempotency_class \<Rightarrow> string" where
  "idempotency_class_value IC_PURE = ''pure''"
| "idempotency_class_value IC_OBSERVATION = ''observation''"
| "idempotency_class_value IC_IDEMPOTENT = ''idempotent''"
| "idempotency_class_value IC_NON_IDEMPOTENT = ''non_idempotent''"

definition idempotency_class_members :: "idempotency_class list" where
  "idempotency_class_members = [
     IC_PURE, IC_OBSERVATION, IC_IDEMPOTENT, IC_NON_IDEMPOTENT]"

datatype commit_attempt_status =
    CA_PREPARED | CA_RECONCILING | CA_COMMITTED | CA_ABORTED

primrec commit_attempt_status_value :: "commit_attempt_status \<Rightarrow> string" where
  "commit_attempt_status_value CA_PREPARED = ''prepared''"
| "commit_attempt_status_value CA_RECONCILING = ''reconciling''"
| "commit_attempt_status_value CA_COMMITTED = ''committed''"
| "commit_attempt_status_value CA_ABORTED = ''aborted''"

definition commit_attempt_status_members :: "commit_attempt_status list" where
  "commit_attempt_status_members = [
     CA_PREPARED, CA_RECONCILING, CA_COMMITTED, CA_ABORTED]"

datatype staging_aggregate_type =
    SAT_QUESTION | SAT_CLAIM | SAT_EVIDENCE | SAT_CLAIM_DEPENDENCY | SAT_IDENTITY

primrec staging_aggregate_type_value :: "staging_aggregate_type \<Rightarrow> string" where
  "staging_aggregate_type_value SAT_QUESTION = ''question''"
| "staging_aggregate_type_value SAT_CLAIM = ''claim''"
| "staging_aggregate_type_value SAT_EVIDENCE = ''evidence''"
| "staging_aggregate_type_value SAT_CLAIM_DEPENDENCY = ''claim_dependency''"
| "staging_aggregate_type_value SAT_IDENTITY = ''identity''"

definition staging_aggregate_type_members :: "staging_aggregate_type list" where
  "staging_aggregate_type_members = [
     SAT_QUESTION, SAT_CLAIM, SAT_EVIDENCE, SAT_CLAIM_DEPENDENCY, SAT_IDENTITY]"

datatype staging_operation =
    SOP_CREATE | SOP_UPDATE | SOP_DELETE

primrec staging_operation_value :: "staging_operation \<Rightarrow> string" where
  "staging_operation_value SOP_CREATE = ''create''"
| "staging_operation_value SOP_UPDATE = ''update''"
| "staging_operation_value SOP_DELETE = ''delete''"

definition staging_operation_members :: "staging_operation list" where
  "staging_operation_members = [
     SOP_CREATE, SOP_UPDATE, SOP_DELETE]"

datatype staging_validation_status =
    SVS_PENDING | SVS_VALIDATED | SVS_REJECTED

primrec staging_validation_status_value :: "staging_validation_status \<Rightarrow> string" where
  "staging_validation_status_value SVS_PENDING = ''pending''"
| "staging_validation_status_value SVS_VALIDATED = ''validated''"
| "staging_validation_status_value SVS_REJECTED = ''rejected''"

definition staging_validation_status_members :: "staging_validation_status list" where
  "staging_validation_status_members = [
     SVS_PENDING, SVS_VALIDATED, SVS_REJECTED]"

datatype evidence_kind =
    EK_SOURCE_ASSERTION | EK_QUOTE_INTEGRITY | EK_EXPERIMENT_RUN | EK_COMPUTATION
    | EK_FORMAL_CHECK | EK_LOCAL_OBSERVATION

primrec evidence_kind_value :: "evidence_kind \<Rightarrow> string" where
  "evidence_kind_value EK_SOURCE_ASSERTION = ''source_assertion''"
| "evidence_kind_value EK_QUOTE_INTEGRITY = ''quote_integrity''"
| "evidence_kind_value EK_EXPERIMENT_RUN = ''experiment_run''"
| "evidence_kind_value EK_COMPUTATION = ''computation''"
| "evidence_kind_value EK_FORMAL_CHECK = ''formal_check''"
| "evidence_kind_value EK_LOCAL_OBSERVATION = ''local_observation''"

definition evidence_kind_members :: "evidence_kind list" where
  "evidence_kind_members = [
     EK_SOURCE_ASSERTION, EK_QUOTE_INTEGRITY, EK_EXPERIMENT_RUN, EK_COMPUTATION,
     EK_FORMAL_CHECK, EK_LOCAL_OBSERVATION]"

datatype evidence_relation =
    ER_SUPPORTS | ER_COUNTERS

primrec evidence_relation_value :: "evidence_relation \<Rightarrow> string" where
  "evidence_relation_value ER_SUPPORTS = ''supports''"
| "evidence_relation_value ER_COUNTERS = ''counters''"

definition evidence_relation_members :: "evidence_relation list" where
  "evidence_relation_members = [
     ER_SUPPORTS, ER_COUNTERS]"

datatype assessment_evidence_role =
    AER_SUPPORT | AER_COUNTER | AER_SCOPE_WITNESS | AER_CONTEXT

primrec assessment_evidence_role_value :: "assessment_evidence_role \<Rightarrow> string" where
  "assessment_evidence_role_value AER_SUPPORT = ''support''"
| "assessment_evidence_role_value AER_COUNTER = ''counter''"
| "assessment_evidence_role_value AER_SCOPE_WITNESS = ''scope_witness''"
| "assessment_evidence_role_value AER_CONTEXT = ''context''"

definition assessment_evidence_role_members :: "assessment_evidence_role list" where
  "assessment_evidence_role_members = [
     AER_SUPPORT, AER_COUNTER, AER_SCOPE_WITNESS, AER_CONTEXT]"

datatype effective_grade =
    E0 | E1 | E2 | E3 | E4

primrec effective_grade_value :: "effective_grade \<Rightarrow> string" where
  "effective_grade_value E0 = ''E0''"
| "effective_grade_value E1 = ''E1''"
| "effective_grade_value E2 = ''E2''"
| "effective_grade_value E3 = ''E3''"
| "effective_grade_value E4 = ''E4''"

definition effective_grade_members :: "effective_grade list" where
  "effective_grade_members = [
     E0, E1, E2, E3, E4]"

datatype epistemic_status =
    ES_HYPOTHESIS | ES_SUPPORTED | ES_DISPUTED | ES_REFUTED | ES_DEFERRED

primrec epistemic_status_value :: "epistemic_status \<Rightarrow> string" where
  "epistemic_status_value ES_HYPOTHESIS = ''hypothesis''"
| "epistemic_status_value ES_SUPPORTED = ''supported''"
| "epistemic_status_value ES_DISPUTED = ''disputed''"
| "epistemic_status_value ES_REFUTED = ''refuted''"
| "epistemic_status_value ES_DEFERRED = ''deferred''"

definition epistemic_status_members :: "epistemic_status list" where
  "epistemic_status_members = [
     ES_HYPOTHESIS, ES_SUPPORTED, ES_DISPUTED, ES_REFUTED, ES_DEFERRED]"

datatype assessment_state =
    AS_CURRENT | AS_PENDING | AS_INVALID

primrec assessment_state_value :: "assessment_state \<Rightarrow> string" where
  "assessment_state_value AS_CURRENT = ''current''"
| "assessment_state_value AS_PENDING = ''pending''"
| "assessment_state_value AS_INVALID = ''invalid''"

definition assessment_state_members :: "assessment_state list" where
  "assessment_state_members = [
     AS_CURRENT, AS_PENDING, AS_INVALID]"

datatype freshness_status =
    FS_FRESH | FS_DUE | FS_STALE | FS_UNKNOWN | FS_EVERGREEN

primrec freshness_status_value :: "freshness_status \<Rightarrow> string" where
  "freshness_status_value FS_FRESH = ''fresh''"
| "freshness_status_value FS_DUE = ''due''"
| "freshness_status_value FS_STALE = ''stale''"
| "freshness_status_value FS_UNKNOWN = ''unknown''"
| "freshness_status_value FS_EVERGREEN = ''evergreen''"

definition freshness_status_members :: "freshness_status list" where
  "freshness_status_members = [
     FS_FRESH, FS_DUE, FS_STALE, FS_UNKNOWN, FS_EVERGREEN]"

datatype claim_date_anchor =
    CDA_EXPLICIT | CDA_RELATIVE | CDA_NONE

primrec claim_date_anchor_value :: "claim_date_anchor \<Rightarrow> string" where
  "claim_date_anchor_value CDA_EXPLICIT = ''explicit''"
| "claim_date_anchor_value CDA_RELATIVE = ''relative''"
| "claim_date_anchor_value CDA_NONE = ''none''"

definition claim_date_anchor_members :: "claim_date_anchor list" where
  "claim_date_anchor_members = [
     CDA_EXPLICIT, CDA_RELATIVE, CDA_NONE]"

datatype claim_type =
    CT_LOCAL_OBSERVATION | CT_COMPUTED_RESULT | CT_FORMAL_THEOREM | CT_EMPIRICAL_CONJECTURE
    | CT_PROCEDURAL | CT_EXTERNAL_FACT | CT_TEMPORAL_FACT | CT_SELF_MODEL

primrec claim_type_value :: "claim_type \<Rightarrow> string" where
  "claim_type_value CT_LOCAL_OBSERVATION = ''local_observation''"
| "claim_type_value CT_COMPUTED_RESULT = ''computed_result''"
| "claim_type_value CT_FORMAL_THEOREM = ''formal_theorem''"
| "claim_type_value CT_EMPIRICAL_CONJECTURE = ''empirical_conjecture''"
| "claim_type_value CT_PROCEDURAL = ''procedural''"
| "claim_type_value CT_EXTERNAL_FACT = ''external_fact''"
| "claim_type_value CT_TEMPORAL_FACT = ''temporal_fact''"
| "claim_type_value CT_SELF_MODEL = ''self_model''"

definition claim_type_members :: "claim_type list" where
  "claim_type_members = [
     CT_LOCAL_OBSERVATION, CT_COMPUTED_RESULT, CT_FORMAL_THEOREM, CT_EMPIRICAL_CONJECTURE,
     CT_PROCEDURAL, CT_EXTERNAL_FACT, CT_TEMPORAL_FACT, CT_SELF_MODEL]"

datatype dependency_kind =
    DEP_EVIDENTIAL | DEP_RESEARCH

primrec dependency_kind_value :: "dependency_kind \<Rightarrow> string" where
  "dependency_kind_value DEP_EVIDENTIAL = ''evidential''"
| "dependency_kind_value DEP_RESEARCH = ''research''"

definition dependency_kind_members :: "dependency_kind list" where
  "dependency_kind_members = [
     DEP_EVIDENTIAL, DEP_RESEARCH]"

datatype barrier_status =
    BS_DISCOVERING | BS_ACTIVE | BS_CLOSING | BS_RESOLVED | BS_BLOCKED

primrec barrier_status_value :: "barrier_status \<Rightarrow> string" where
  "barrier_status_value BS_DISCOVERING = ''discovering''"
| "barrier_status_value BS_ACTIVE = ''active''"
| "barrier_status_value BS_CLOSING = ''closing''"
| "barrier_status_value BS_RESOLVED = ''resolved''"
| "barrier_status_value BS_BLOCKED = ''blocked''"

definition barrier_status_members :: "barrier_status list" where
  "barrier_status_members = [
     BS_DISCOVERING, BS_ACTIVE, BS_CLOSING, BS_RESOLVED, BS_BLOCKED]"

datatype reassessment_job_status =
    RJ_QUEUED | RJ_LEASED | RJ_RETRY | RJ_BLOCKED | RJ_COMPLETED

primrec reassessment_job_status_value :: "reassessment_job_status \<Rightarrow> string" where
  "reassessment_job_status_value RJ_QUEUED = ''queued''"
| "reassessment_job_status_value RJ_LEASED = ''leased''"
| "reassessment_job_status_value RJ_RETRY = ''retry''"
| "reassessment_job_status_value RJ_BLOCKED = ''blocked''"
| "reassessment_job_status_value RJ_COMPLETED = ''completed''"

definition reassessment_job_status_members :: "reassessment_job_status list" where
  "reassessment_job_status_members = [
     RJ_QUEUED, RJ_LEASED, RJ_RETRY, RJ_BLOCKED, RJ_COMPLETED]"

datatype question_state =
    QS_CANDIDATE | QS_SELECTED | QS_RESEARCHING | QS_PARTIALLY_ANSWERED | QS_VERIFIED
    | QS_REJECTED | QS_DEFERRED

primrec question_state_value :: "question_state \<Rightarrow> string" where
  "question_state_value QS_CANDIDATE = ''candidate''"
| "question_state_value QS_SELECTED = ''selected''"
| "question_state_value QS_RESEARCHING = ''researching''"
| "question_state_value QS_PARTIALLY_ANSWERED = ''partially_answered''"
| "question_state_value QS_VERIFIED = ''verified''"
| "question_state_value QS_REJECTED = ''rejected''"
| "question_state_value QS_DEFERRED = ''deferred''"

definition question_state_members :: "question_state list" where
  "question_state_members = [
     QS_CANDIDATE, QS_SELECTED, QS_RESEARCHING, QS_PARTIALLY_ANSWERED, QS_VERIFIED, QS_REJECTED,
     QS_DEFERRED]"

datatype question_origin =
    QO_SEEDED | QO_MESSAGE | QO_CONFLICT | QO_UNKNOWN_TERM | QO_UNVERIFIED_CLAIM
    | QO_PREVIOUS_RESULT | QO_LOCAL_CORPUS | QO_MODEL_PROPOSAL | QO_INVALID_ASSESSMENT

primrec question_origin_value :: "question_origin \<Rightarrow> string" where
  "question_origin_value QO_SEEDED = ''seeded''"
| "question_origin_value QO_MESSAGE = ''message''"
| "question_origin_value QO_CONFLICT = ''conflict''"
| "question_origin_value QO_UNKNOWN_TERM = ''unknown_term''"
| "question_origin_value QO_UNVERIFIED_CLAIM = ''unverified_claim''"
| "question_origin_value QO_PREVIOUS_RESULT = ''previous_result''"
| "question_origin_value QO_LOCAL_CORPUS = ''local_corpus''"
| "question_origin_value QO_MODEL_PROPOSAL = ''model_proposal''"
| "question_origin_value QO_INVALID_ASSESSMENT = ''invalid_assessment''"

definition question_origin_members :: "question_origin list" where
  "question_origin_members = [
     QO_SEEDED, QO_MESSAGE, QO_CONFLICT, QO_UNKNOWN_TERM, QO_UNVERIFIED_CLAIM,
     QO_PREVIOUS_RESULT, QO_LOCAL_CORPUS, QO_MODEL_PROPOSAL, QO_INVALID_ASSESSMENT]"

datatype message_state =
    MS_CREATED | MS_QUEUED | MS_DELIVERED | MS_ACKNOWLEDGED | MS_ANSWERED | MS_EXPIRED

primrec message_state_value :: "message_state \<Rightarrow> string" where
  "message_state_value MS_CREATED = ''created''"
| "message_state_value MS_QUEUED = ''queued''"
| "message_state_value MS_DELIVERED = ''delivered''"
| "message_state_value MS_ACKNOWLEDGED = ''acknowledged''"
| "message_state_value MS_ANSWERED = ''answered''"
| "message_state_value MS_EXPIRED = ''expired''"

definition message_state_members :: "message_state list" where
  "message_state_members = [
     MS_CREATED, MS_QUEUED, MS_DELIVERED, MS_ACKNOWLEDGED, MS_ANSWERED, MS_EXPIRED]"

datatype operator_command_type =
    OCT_PAUSE | OCT_RESUME | OCT_WAKE_NOW | OCT_STOP_GRACEFULLY | OCT_ABORT_SESSION
    | OCT_SET_BUDGET | OCT_SET_ACCESS_PROFILE | OCT_RESTORE_CHECKPOINT

primrec operator_command_type_value :: "operator_command_type \<Rightarrow> string" where
  "operator_command_type_value OCT_PAUSE = ''pause''"
| "operator_command_type_value OCT_RESUME = ''resume''"
| "operator_command_type_value OCT_WAKE_NOW = ''wake_now''"
| "operator_command_type_value OCT_STOP_GRACEFULLY = ''stop_gracefully''"
| "operator_command_type_value OCT_ABORT_SESSION = ''abort_session''"
| "operator_command_type_value OCT_SET_BUDGET = ''set_budget''"
| "operator_command_type_value OCT_SET_ACCESS_PROFILE = ''set_access_profile''"
| "operator_command_type_value OCT_RESTORE_CHECKPOINT = ''restore_checkpoint''"

definition operator_command_type_members :: "operator_command_type list" where
  "operator_command_type_members = [
     OCT_PAUSE, OCT_RESUME, OCT_WAKE_NOW, OCT_STOP_GRACEFULLY, OCT_ABORT_SESSION,
     OCT_SET_BUDGET, OCT_SET_ACCESS_PROFILE, OCT_RESTORE_CHECKPOINT]"

datatype operator_command_state =
    OCS_ACCEPTED | OCS_REJECTED | OCS_WAITING_SAFE_BOUNDARY | OCS_EXECUTING | OCS_COMPLETED
    | OCS_FAILED

primrec operator_command_state_value :: "operator_command_state \<Rightarrow> string" where
  "operator_command_state_value OCS_ACCEPTED = ''accepted''"
| "operator_command_state_value OCS_REJECTED = ''rejected''"
| "operator_command_state_value OCS_WAITING_SAFE_BOUNDARY = ''waiting_safe_boundary''"
| "operator_command_state_value OCS_EXECUTING = ''executing''"
| "operator_command_state_value OCS_COMPLETED = ''completed''"
| "operator_command_state_value OCS_FAILED = ''failed''"

definition operator_command_state_members :: "operator_command_state list" where
  "operator_command_state_members = [
     OCS_ACCEPTED, OCS_REJECTED, OCS_WAITING_SAFE_BOUNDARY, OCS_EXECUTING, OCS_COMPLETED,
     OCS_FAILED]"

datatype activation_mode =
    AM_BOOTSTRAP | AM_OFFLINE | AM_ONLINE

primrec activation_mode_value :: "activation_mode \<Rightarrow> string" where
  "activation_mode_value AM_BOOTSTRAP = ''bootstrap''"
| "activation_mode_value AM_OFFLINE = ''offline''"
| "activation_mode_value AM_ONLINE = ''online''"

definition activation_mode_members :: "activation_mode list" where
  "activation_mode_members = [
     AM_BOOTSTRAP, AM_OFFLINE, AM_ONLINE]"

datatype activation_state =
    AST_DRAFT | AST_PREPARING_HEADS | AST_READY | AST_PUBLISHING | AST_POST_PUBLISH
    | AST_POST_PUBLISH_BLOCKED | AST_ACTIVE | AST_SUPERSEDED | AST_FAILED

primrec activation_state_value :: "activation_state \<Rightarrow> string" where
  "activation_state_value AST_DRAFT = ''draft''"
| "activation_state_value AST_PREPARING_HEADS = ''preparing_heads''"
| "activation_state_value AST_READY = ''ready''"
| "activation_state_value AST_PUBLISHING = ''publishing''"
| "activation_state_value AST_POST_PUBLISH = ''post_publish''"
| "activation_state_value AST_POST_PUBLISH_BLOCKED = ''post_publish_blocked''"
| "activation_state_value AST_ACTIVE = ''active''"
| "activation_state_value AST_SUPERSEDED = ''superseded''"
| "activation_state_value AST_FAILED = ''failed''"

definition activation_state_members :: "activation_state list" where
  "activation_state_members = [
     AST_DRAFT, AST_PREPARING_HEADS, AST_READY, AST_PUBLISHING, AST_POST_PUBLISH,
     AST_POST_PUBLISH_BLOCKED, AST_ACTIVE, AST_SUPERSEDED, AST_FAILED]"

datatype host_transition_state =
    HT_CHECKING | HT_RETRY_WAIT | HT_READY_TO_START | HT_RESOLVED | HT_RESUME_DEGRADED
    | HT_RESUME_BLOCKED

primrec host_transition_state_value :: "host_transition_state \<Rightarrow> string" where
  "host_transition_state_value HT_CHECKING = ''checking''"
| "host_transition_state_value HT_RETRY_WAIT = ''retry_wait''"
| "host_transition_state_value HT_READY_TO_START = ''ready_to_start''"
| "host_transition_state_value HT_RESOLVED = ''resolved''"
| "host_transition_state_value HT_RESUME_DEGRADED = ''resume_degraded''"
| "host_transition_state_value HT_RESUME_BLOCKED = ''resume_blocked''"

definition host_transition_state_members :: "host_transition_state list" where
  "host_transition_state_members = [
     HT_CHECKING, HT_RETRY_WAIT, HT_READY_TO_START, HT_RESOLVED, HT_RESUME_DEGRADED,
     HT_RESUME_BLOCKED]"

datatype host_policy_change_state =
    HP_PREPARED | HP_INCONSISTENT | HP_RESOLUTION_PREPARED | HP_COMMITTED | HP_ABORTED
    | HP_RESOLVED

primrec host_policy_change_state_value :: "host_policy_change_state \<Rightarrow> string" where
  "host_policy_change_state_value HP_PREPARED = ''prepared''"
| "host_policy_change_state_value HP_INCONSISTENT = ''inconsistent''"
| "host_policy_change_state_value HP_RESOLUTION_PREPARED = ''resolution_prepared''"
| "host_policy_change_state_value HP_COMMITTED = ''committed''"
| "host_policy_change_state_value HP_ABORTED = ''aborted''"
| "host_policy_change_state_value HP_RESOLVED = ''resolved''"

definition host_policy_change_state_members :: "host_policy_change_state list" where
  "host_policy_change_state_members = [
     HP_PREPARED, HP_INCONSISTENT, HP_RESOLUTION_PREPARED, HP_COMMITTED, HP_ABORTED,
     HP_RESOLVED]"

datatype audit_visibility =
    AV_OPERATOR | AV_OWNER | AV_DIAGNOSTIC

primrec audit_visibility_value :: "audit_visibility \<Rightarrow> string" where
  "audit_visibility_value AV_OPERATOR = ''operator''"
| "audit_visibility_value AV_OWNER = ''owner''"
| "audit_visibility_value AV_DIAGNOSTIC = ''diagnostic''"

definition audit_visibility_members :: "audit_visibility list" where
  "audit_visibility_members = [
     AV_OPERATOR, AV_OWNER, AV_DIAGNOSTIC]"

subsection \<open>Derived properties of the members\<close>

definition is_terminal :: "session_state \<Rightarrow> bool" where
  "is_terminal s \<longleftrightarrow> s \<in> {SS_SUCCEEDED, SS_SUCCEEDED_PARTIAL, SS_FAILED, SS_CANCELLED}"

definition allows_stop :: "session_state \<Rightarrow> bool" where
  "allows_stop s \<longleftrightarrow> s \<in> {SS_WAKING, SS_ORIENTING, SS_SELECTING_QUESTION, SS_PLANNING,
     SS_EXPLORING, SS_VERIFYING}"

definition allows_abort :: "session_state \<Rightarrow> bool" where
  "allows_abort s \<longleftrightarrow> s \<in> {SS_CREATED, SS_WAKING, SS_ORIENTING, SS_SELECTING_QUESTION,
     SS_PLANNING, SS_EXPLORING, SS_VERIFYING, SS_STOPPING, SS_CONSOLIDATING, SS_REPORTING}"

definition attempt_is_unresolved :: "commit_attempt_status \<Rightarrow> bool" where
  "attempt_is_unresolved s \<longleftrightarrow> s \<in> {CA_PREPARED, CA_RECONCILING}"

definition barrier_is_open :: "barrier_status \<Rightarrow> bool" where
  "barrier_is_open s \<longleftrightarrow> s \<in> {BS_DISCOVERING, BS_ACTIVE, BS_CLOSING, BS_BLOCKED}"

definition job_is_active :: "reassessment_job_status \<Rightarrow> bool" where
  "job_is_active s \<longleftrightarrow> s \<in> {RJ_QUEUED, RJ_LEASED, RJ_RETRY}"

definition question_is_resolved :: "question_state \<Rightarrow> bool" where
  "question_is_resolved s \<longleftrightarrow> s \<in> {QS_VERIFIED, QS_REJECTED}"

primrec grade_level :: "effective_grade \<Rightarrow> nat" where
  "grade_level E0 = 0"
| "grade_level E1 = 1"
| "grade_level E2 = 2"
| "grade_level E3 = 3"
| "grade_level E4 = 4"

text \<open>Grades are ordered by their level.\<close>

instantiation effective_grade :: linorder
begin

definition less_eq_effective_grade :: "effective_grade \<Rightarrow> effective_grade \<Rightarrow> bool" where
  "g \<le> h \<longleftrightarrow> grade_level g \<le> grade_level h"

definition less_effective_grade :: "effective_grade \<Rightarrow> effective_grade \<Rightarrow> bool" where
  "g < h \<longleftrightarrow> grade_level g < grade_level h"

instance
proof
  fix g h k :: effective_grade
  show "g < h \<longleftrightarrow> g \<le> h \<and> \<not> h \<le> g"
    by (auto simp: less_eq_effective_grade_def less_effective_grade_def)
  show "g \<le> g" by (simp add: less_eq_effective_grade_def)
  show "g \<le> h \<Longrightarrow> h \<le> k \<Longrightarrow> g \<le> k" by (simp add: less_eq_effective_grade_def)
  show "g \<le> h \<Longrightarrow> h \<le> g \<Longrightarrow> g = h"
    by (cases g; cases h) (simp_all add: less_eq_effective_grade_def)
  show "g \<le> h \<or> h \<le> g" by (auto simp: less_eq_effective_grade_def)
qed

end

subsection \<open>Interpretations\<close>

interpretation session_state_enum: str_enum session_state_members session_state_value
proof
  fix x show "x \<in> set session_state_members" by (cases x) (simp_all add: session_state_members_def)
next
  show "distinct (map session_state_value session_state_members)" by (simp add: session_state_members_def)
qed

interpretation node_state_enum: str_enum node_state_members node_state_value
proof
  fix x show "x \<in> set node_state_members" by (cases x) (simp_all add: node_state_members_def)
next
  show "distinct (map node_state_value node_state_members)" by (simp add: node_state_members_def)
qed

interpretation decision_kind_enum: str_enum decision_kind_members decision_kind_value
proof
  fix x show "x \<in> set decision_kind_members" by (cases x) (simp_all add: decision_kind_members_def)
next
  show "distinct (map decision_kind_value decision_kind_members)" by (simp add: decision_kind_members_def)
qed

interpretation complete_reason_enum: str_enum complete_reason_members complete_reason_value
proof
  fix x show "x \<in> set complete_reason_members" by (cases x) (simp_all add: complete_reason_members_def)
next
  show "distinct (map complete_reason_value complete_reason_members)" by (simp add: complete_reason_members_def)
qed

interpretation policy_decision_enum: str_enum policy_decision_members policy_decision_value
proof
  fix x show "x \<in> set policy_decision_members" by (cases x) (simp_all add: policy_decision_members_def)
next
  show "distinct (map policy_decision_value policy_decision_members)" by (simp add: policy_decision_members_def)
qed

interpretation action_state_enum: str_enum action_state_members action_state_value
proof
  fix x show "x \<in> set action_state_members" by (cases x) (simp_all add: action_state_members_def)
next
  show "distinct (map action_state_value action_state_members)" by (simp add: action_state_members_def)
qed

interpretation idempotency_class_enum: str_enum idempotency_class_members idempotency_class_value
proof
  fix x show "x \<in> set idempotency_class_members" by (cases x) (simp_all add: idempotency_class_members_def)
next
  show "distinct (map idempotency_class_value idempotency_class_members)" by (simp add: idempotency_class_members_def)
qed

interpretation commit_attempt_status_enum: str_enum commit_attempt_status_members commit_attempt_status_value
proof
  fix x show "x \<in> set commit_attempt_status_members" by (cases x) (simp_all add: commit_attempt_status_members_def)
next
  show "distinct (map commit_attempt_status_value commit_attempt_status_members)" by (simp add: commit_attempt_status_members_def)
qed

interpretation staging_aggregate_type_enum: str_enum staging_aggregate_type_members staging_aggregate_type_value
proof
  fix x show "x \<in> set staging_aggregate_type_members" by (cases x) (simp_all add: staging_aggregate_type_members_def)
next
  show "distinct (map staging_aggregate_type_value staging_aggregate_type_members)" by (simp add: staging_aggregate_type_members_def)
qed

interpretation staging_operation_enum: str_enum staging_operation_members staging_operation_value
proof
  fix x show "x \<in> set staging_operation_members" by (cases x) (simp_all add: staging_operation_members_def)
next
  show "distinct (map staging_operation_value staging_operation_members)" by (simp add: staging_operation_members_def)
qed

interpretation staging_validation_status_enum: str_enum staging_validation_status_members staging_validation_status_value
proof
  fix x show "x \<in> set staging_validation_status_members" by (cases x) (simp_all add: staging_validation_status_members_def)
next
  show "distinct (map staging_validation_status_value staging_validation_status_members)" by (simp add: staging_validation_status_members_def)
qed

interpretation evidence_kind_enum: str_enum evidence_kind_members evidence_kind_value
proof
  fix x show "x \<in> set evidence_kind_members" by (cases x) (simp_all add: evidence_kind_members_def)
next
  show "distinct (map evidence_kind_value evidence_kind_members)" by (simp add: evidence_kind_members_def)
qed

interpretation evidence_relation_enum: str_enum evidence_relation_members evidence_relation_value
proof
  fix x show "x \<in> set evidence_relation_members" by (cases x) (simp_all add: evidence_relation_members_def)
next
  show "distinct (map evidence_relation_value evidence_relation_members)" by (simp add: evidence_relation_members_def)
qed

interpretation assessment_evidence_role_enum: str_enum assessment_evidence_role_members assessment_evidence_role_value
proof
  fix x show "x \<in> set assessment_evidence_role_members" by (cases x) (simp_all add: assessment_evidence_role_members_def)
next
  show "distinct (map assessment_evidence_role_value assessment_evidence_role_members)" by (simp add: assessment_evidence_role_members_def)
qed

interpretation effective_grade_enum: str_enum effective_grade_members effective_grade_value
proof
  fix x show "x \<in> set effective_grade_members" by (cases x) (simp_all add: effective_grade_members_def)
next
  show "distinct (map effective_grade_value effective_grade_members)" by (simp add: effective_grade_members_def)
qed

interpretation epistemic_status_enum: str_enum epistemic_status_members epistemic_status_value
proof
  fix x show "x \<in> set epistemic_status_members" by (cases x) (simp_all add: epistemic_status_members_def)
next
  show "distinct (map epistemic_status_value epistemic_status_members)" by (simp add: epistemic_status_members_def)
qed

interpretation assessment_state_enum: str_enum assessment_state_members assessment_state_value
proof
  fix x show "x \<in> set assessment_state_members" by (cases x) (simp_all add: assessment_state_members_def)
next
  show "distinct (map assessment_state_value assessment_state_members)" by (simp add: assessment_state_members_def)
qed

interpretation freshness_status_enum: str_enum freshness_status_members freshness_status_value
proof
  fix x show "x \<in> set freshness_status_members" by (cases x) (simp_all add: freshness_status_members_def)
next
  show "distinct (map freshness_status_value freshness_status_members)" by (simp add: freshness_status_members_def)
qed

interpretation claim_date_anchor_enum: str_enum claim_date_anchor_members claim_date_anchor_value
proof
  fix x show "x \<in> set claim_date_anchor_members" by (cases x) (simp_all add: claim_date_anchor_members_def)
next
  show "distinct (map claim_date_anchor_value claim_date_anchor_members)" by (simp add: claim_date_anchor_members_def)
qed

interpretation claim_type_enum: str_enum claim_type_members claim_type_value
proof
  fix x show "x \<in> set claim_type_members" by (cases x) (simp_all add: claim_type_members_def)
next
  show "distinct (map claim_type_value claim_type_members)" by (simp add: claim_type_members_def)
qed

interpretation dependency_kind_enum: str_enum dependency_kind_members dependency_kind_value
proof
  fix x show "x \<in> set dependency_kind_members" by (cases x) (simp_all add: dependency_kind_members_def)
next
  show "distinct (map dependency_kind_value dependency_kind_members)" by (simp add: dependency_kind_members_def)
qed

interpretation barrier_status_enum: str_enum barrier_status_members barrier_status_value
proof
  fix x show "x \<in> set barrier_status_members" by (cases x) (simp_all add: barrier_status_members_def)
next
  show "distinct (map barrier_status_value barrier_status_members)" by (simp add: barrier_status_members_def)
qed

interpretation reassessment_job_status_enum: str_enum reassessment_job_status_members reassessment_job_status_value
proof
  fix x show "x \<in> set reassessment_job_status_members" by (cases x) (simp_all add: reassessment_job_status_members_def)
next
  show "distinct (map reassessment_job_status_value reassessment_job_status_members)" by (simp add: reassessment_job_status_members_def)
qed

interpretation question_state_enum: str_enum question_state_members question_state_value
proof
  fix x show "x \<in> set question_state_members" by (cases x) (simp_all add: question_state_members_def)
next
  show "distinct (map question_state_value question_state_members)" by (simp add: question_state_members_def)
qed

interpretation question_origin_enum: str_enum question_origin_members question_origin_value
proof
  fix x show "x \<in> set question_origin_members" by (cases x) (simp_all add: question_origin_members_def)
next
  show "distinct (map question_origin_value question_origin_members)" by (simp add: question_origin_members_def)
qed

interpretation message_state_enum: str_enum message_state_members message_state_value
proof
  fix x show "x \<in> set message_state_members" by (cases x) (simp_all add: message_state_members_def)
next
  show "distinct (map message_state_value message_state_members)" by (simp add: message_state_members_def)
qed

interpretation operator_command_type_enum: str_enum operator_command_type_members operator_command_type_value
proof
  fix x show "x \<in> set operator_command_type_members" by (cases x) (simp_all add: operator_command_type_members_def)
next
  show "distinct (map operator_command_type_value operator_command_type_members)" by (simp add: operator_command_type_members_def)
qed

interpretation operator_command_state_enum: str_enum operator_command_state_members operator_command_state_value
proof
  fix x show "x \<in> set operator_command_state_members" by (cases x) (simp_all add: operator_command_state_members_def)
next
  show "distinct (map operator_command_state_value operator_command_state_members)" by (simp add: operator_command_state_members_def)
qed

interpretation activation_mode_enum: str_enum activation_mode_members activation_mode_value
proof
  fix x show "x \<in> set activation_mode_members" by (cases x) (simp_all add: activation_mode_members_def)
next
  show "distinct (map activation_mode_value activation_mode_members)" by (simp add: activation_mode_members_def)
qed

interpretation activation_state_enum: str_enum activation_state_members activation_state_value
proof
  fix x show "x \<in> set activation_state_members" by (cases x) (simp_all add: activation_state_members_def)
next
  show "distinct (map activation_state_value activation_state_members)" by (simp add: activation_state_members_def)
qed

interpretation host_transition_state_enum: str_enum host_transition_state_members host_transition_state_value
proof
  fix x show "x \<in> set host_transition_state_members" by (cases x) (simp_all add: host_transition_state_members_def)
next
  show "distinct (map host_transition_state_value host_transition_state_members)" by (simp add: host_transition_state_members_def)
qed

interpretation host_policy_change_state_enum: str_enum host_policy_change_state_members host_policy_change_state_value
proof
  fix x show "x \<in> set host_policy_change_state_members" by (cases x) (simp_all add: host_policy_change_state_members_def)
next
  show "distinct (map host_policy_change_state_value host_policy_change_state_members)" by (simp add: host_policy_change_state_members_def)
qed

interpretation audit_visibility_enum: str_enum audit_visibility_members audit_visibility_value
proof
  fix x show "x \<in> set audit_visibility_members" by (cases x) (simp_all add: audit_visibility_members_def)
next
  show "distinct (map audit_visibility_value audit_visibility_members)" by (simp add: audit_visibility_members_def)
qed

end
