(* ===== verification/AuditTypes.thy ===== *)
theory AuditTypes
  imports Enums
begin

section \<open>The closed registry of audit events\<close>

text \<open>
  \<open>AuditEventType\<close> of \<open>packages/domain/models/enums.py\<close>, the closed registry of event types.
  It is kept in a theory of its own because of its size.
\<close>

datatype (plugins only: code) audit_event_type =
    AE_WAKE_SKIPPED | AE_SESSION_STARTED | AE_SESSION_STATE_CHANGED | AE_SESSION_COMMITTED
    | AE_SESSION_FAILED | AE_SESSION_CANCELLED | AE_QUESTION_SELECTED | AE_CONTEXT_PACKED
    | AE_ACTION_PROPOSED | AE_POLICY_EVALUATED | AE_ACTION_ACCEPTED | AE_ACTION_STARTED
    | AE_ACTION_COMPLETED | AE_ACTION_FAILED | AE_ACTION_OUTCOME_UNKNOWN | AE_STAGING_RECORDED
    | AE_STAGING_VALIDATED | AE_STAGING_REJECTED | AE_CLAIM_CREATED | AE_CLAIM_REVISION
    | AE_CLAIM_REVERIFIED | AE_CLAIM_ASSESSED | AE_CLAIM_INVALIDATED
    | AE_DEPENDENCY_EDGE_REJECTED | AE_CASCADE_STARTED | AE_BARRIER_GENERATION_PUBLISHED
    | AE_BARRIER_BATCH_APPLIED | AE_BARRIER_RESOLVED | AE_BARRIER_BLOCKED
    | AE_REASSESSMENT_JOB_COMPLETED | AE_REASSESSMENT_JOB_RETRY | AE_REASSESSMENT_JOB_BLOCKED
    | AE_COMMIT_ATTEMPT_PREPARED | AE_COMMIT_ATTEMPT_COMMITTED | AE_COMMIT_ATTEMPT_ABORTED
    | AE_COMMIT_RECONCILED | AE_MESSAGE_CREATED | AE_MESSAGE_DELIVERED | AE_MESSAGE_ANSWERED
    | AE_MESSAGE_EXPIRED | AE_OPERATOR_COMMAND_RECEIVED | AE_OPERATOR_COMMAND_COMPLETED
    | AE_OPERATOR_COMMAND_REJECTED | AE_CONFIG_SNAPSHOT_CREATED | AE_CONFIG_ACTIVATED
    | AE_PROMPT_PIN_MISMATCH | AE_ACTIVATION_ACQUIRED | AE_ACTIVATION_TAKEOVER
    | AE_ACTIVATION_DRAIN_PUBLISHED | AE_ACTIVATION_DRAIN_CANCELLED | AE_ACTIVATION_PUBLISHED
    | AE_ACTIVATION_POST_PUBLISH_BATCH | AE_ACTIVATION_POST_PUBLISH_COMPLETED
    | AE_ACTIVATION_POST_PUBLISH_BLOCKED | AE_ACTIVATION_CLEANED_UP | AE_ACTIVATION_SUPERSEDED
    | AE_SOURCE_GRAPH_CHANGED | AE_COUNTER_RESOLUTION_CREATED | AE_PLAN_PROPOSED
    | AE_PLAN_FALLBACK | AE_VERIFICATION_COMPLETED | AE_VERIFICATION_FALLBACK
    | AE_REPEAT_CYCLE_DETECTED | AE_QUESTION_DEFERRED | AE_EXTRACTION_COMPLETED
    | AE_EXTRACTION_FALLBACK | AE_COMMIT_SNAPSHOT_DRIFT | AE_RESEARCH_FETCH_COMPLETED
    | AE_RESEARCH_FETCH_REJECTED | AE_RESEARCH_UPSTREAM_REQUEST | AE_RESEARCH_CONTENT_READ
    | AE_COUNTER_RESOLUTION_INVALIDATED | AE_ALERT_RAISED | AE_BACKUP_CREATED
    | AE_BACKUP_RESTORE_DRILL | AE_GC_SWEEP | AE_EVALUATION_RUN_STARTED
    | AE_EVALUATION_RUN_FINISHED | AE_LINK_REVOCATION_CREATED | AE_LINK_REVOCATION_CANCELLED

primrec audit_event_type_value :: "audit_event_type \<Rightarrow> string" where
  "audit_event_type_value AE_WAKE_SKIPPED = ''wake_skipped''"
| "audit_event_type_value AE_SESSION_STARTED = ''session_started''"
| "audit_event_type_value AE_SESSION_STATE_CHANGED = ''session_state_changed''"
| "audit_event_type_value AE_SESSION_COMMITTED = ''session_committed''"
| "audit_event_type_value AE_SESSION_FAILED = ''session_failed''"
| "audit_event_type_value AE_SESSION_CANCELLED = ''session_cancelled''"
| "audit_event_type_value AE_QUESTION_SELECTED = ''question_selected''"
| "audit_event_type_value AE_CONTEXT_PACKED = ''context_packed''"
| "audit_event_type_value AE_ACTION_PROPOSED = ''action_proposed''"
| "audit_event_type_value AE_POLICY_EVALUATED = ''policy_evaluated''"
| "audit_event_type_value AE_ACTION_ACCEPTED = ''action_accepted''"
| "audit_event_type_value AE_ACTION_STARTED = ''action_started''"
| "audit_event_type_value AE_ACTION_COMPLETED = ''action_completed''"
| "audit_event_type_value AE_ACTION_FAILED = ''action_failed''"
| "audit_event_type_value AE_ACTION_OUTCOME_UNKNOWN = ''action_outcome_unknown''"
| "audit_event_type_value AE_STAGING_RECORDED = ''staging_recorded''"
| "audit_event_type_value AE_STAGING_VALIDATED = ''staging_validated''"
| "audit_event_type_value AE_STAGING_REJECTED = ''staging_rejected''"
| "audit_event_type_value AE_CLAIM_CREATED = ''claim_created''"
| "audit_event_type_value AE_CLAIM_REVISION = ''claim_revision''"
| "audit_event_type_value AE_CLAIM_REVERIFIED = ''claim_reverified''"
| "audit_event_type_value AE_CLAIM_ASSESSED = ''claim_assessed''"
| "audit_event_type_value AE_CLAIM_INVALIDATED = ''claim_invalidated''"
| "audit_event_type_value AE_DEPENDENCY_EDGE_REJECTED = ''dependency_edge_rejected''"
| "audit_event_type_value AE_CASCADE_STARTED = ''cascade_started''"
| "audit_event_type_value AE_BARRIER_GENERATION_PUBLISHED = ''barrier_generation_published''"
| "audit_event_type_value AE_BARRIER_BATCH_APPLIED = ''barrier_batch_applied''"
| "audit_event_type_value AE_BARRIER_RESOLVED = ''barrier_resolved''"
| "audit_event_type_value AE_BARRIER_BLOCKED = ''barrier_blocked''"
| "audit_event_type_value AE_REASSESSMENT_JOB_COMPLETED = ''reassessment_job_completed''"
| "audit_event_type_value AE_REASSESSMENT_JOB_RETRY = ''reassessment_job_retry''"
| "audit_event_type_value AE_REASSESSMENT_JOB_BLOCKED = ''reassessment_job_blocked''"
| "audit_event_type_value AE_COMMIT_ATTEMPT_PREPARED = ''commit_attempt_prepared''"
| "audit_event_type_value AE_COMMIT_ATTEMPT_COMMITTED = ''commit_attempt_committed''"
| "audit_event_type_value AE_COMMIT_ATTEMPT_ABORTED = ''commit_attempt_aborted''"
| "audit_event_type_value AE_COMMIT_RECONCILED = ''commit_reconciled''"
| "audit_event_type_value AE_MESSAGE_CREATED = ''message_created''"
| "audit_event_type_value AE_MESSAGE_DELIVERED = ''message_delivered''"
| "audit_event_type_value AE_MESSAGE_ANSWERED = ''message_answered''"
| "audit_event_type_value AE_MESSAGE_EXPIRED = ''message_expired''"
| "audit_event_type_value AE_OPERATOR_COMMAND_RECEIVED = ''operator_command_received''"
| "audit_event_type_value AE_OPERATOR_COMMAND_COMPLETED = ''operator_command_completed''"
| "audit_event_type_value AE_OPERATOR_COMMAND_REJECTED = ''operator_command_rejected''"
| "audit_event_type_value AE_CONFIG_SNAPSHOT_CREATED = ''config_snapshot_created''"
| "audit_event_type_value AE_CONFIG_ACTIVATED = ''config_activated''"
| "audit_event_type_value AE_PROMPT_PIN_MISMATCH = ''prompt_pin_mismatch''"
| "audit_event_type_value AE_ACTIVATION_ACQUIRED = ''activation_acquired''"
| "audit_event_type_value AE_ACTIVATION_TAKEOVER = ''activation_takeover''"
| "audit_event_type_value AE_ACTIVATION_DRAIN_PUBLISHED = ''activation_drain_published''"
| "audit_event_type_value AE_ACTIVATION_DRAIN_CANCELLED = ''activation_drain_cancelled''"
| "audit_event_type_value AE_ACTIVATION_PUBLISHED = ''activation_published''"
| "audit_event_type_value AE_ACTIVATION_POST_PUBLISH_BATCH = ''activation_post_publish_batch''"
| "audit_event_type_value AE_ACTIVATION_POST_PUBLISH_COMPLETED = ''activation_post_publish_completed''"
| "audit_event_type_value AE_ACTIVATION_POST_PUBLISH_BLOCKED = ''activation_post_publish_blocked''"
| "audit_event_type_value AE_ACTIVATION_CLEANED_UP = ''activation_cleaned_up''"
| "audit_event_type_value AE_ACTIVATION_SUPERSEDED = ''activation_superseded''"
| "audit_event_type_value AE_SOURCE_GRAPH_CHANGED = ''source_graph_changed''"
| "audit_event_type_value AE_COUNTER_RESOLUTION_CREATED = ''counter_resolution_created''"
| "audit_event_type_value AE_PLAN_PROPOSED = ''plan_proposed''"
| "audit_event_type_value AE_PLAN_FALLBACK = ''plan_fallback''"
| "audit_event_type_value AE_VERIFICATION_COMPLETED = ''verification_completed''"
| "audit_event_type_value AE_VERIFICATION_FALLBACK = ''verification_fallback''"
| "audit_event_type_value AE_REPEAT_CYCLE_DETECTED = ''repeat_cycle_detected''"
| "audit_event_type_value AE_QUESTION_DEFERRED = ''question_deferred''"
| "audit_event_type_value AE_EXTRACTION_COMPLETED = ''extraction_completed''"
| "audit_event_type_value AE_EXTRACTION_FALLBACK = ''extraction_fallback''"
| "audit_event_type_value AE_COMMIT_SNAPSHOT_DRIFT = ''commit_snapshot_drift''"
| "audit_event_type_value AE_RESEARCH_FETCH_COMPLETED = ''research_fetch_completed''"
| "audit_event_type_value AE_RESEARCH_FETCH_REJECTED = ''research_fetch_rejected''"
| "audit_event_type_value AE_RESEARCH_UPSTREAM_REQUEST = ''research_upstream_request''"
| "audit_event_type_value AE_RESEARCH_CONTENT_READ = ''research_content_read''"
| "audit_event_type_value AE_COUNTER_RESOLUTION_INVALIDATED = ''counter_resolution_invalidated''"
| "audit_event_type_value AE_ALERT_RAISED = ''alert_raised''"
| "audit_event_type_value AE_BACKUP_CREATED = ''backup_created''"
| "audit_event_type_value AE_BACKUP_RESTORE_DRILL = ''backup_restore_drill''"
| "audit_event_type_value AE_GC_SWEEP = ''gc_sweep''"
| "audit_event_type_value AE_EVALUATION_RUN_STARTED = ''evaluation_run_started''"
| "audit_event_type_value AE_EVALUATION_RUN_FINISHED = ''evaluation_run_finished''"
| "audit_event_type_value AE_LINK_REVOCATION_CREATED = ''link_revocation_created''"
| "audit_event_type_value AE_LINK_REVOCATION_CANCELLED = ''link_revocation_cancelled''"

definition audit_event_type_members :: "audit_event_type list" where
  "audit_event_type_members = [
     AE_WAKE_SKIPPED, AE_SESSION_STARTED, AE_SESSION_STATE_CHANGED, AE_SESSION_COMMITTED,
     AE_SESSION_FAILED, AE_SESSION_CANCELLED, AE_QUESTION_SELECTED, AE_CONTEXT_PACKED,
     AE_ACTION_PROPOSED, AE_POLICY_EVALUATED, AE_ACTION_ACCEPTED, AE_ACTION_STARTED,
     AE_ACTION_COMPLETED, AE_ACTION_FAILED, AE_ACTION_OUTCOME_UNKNOWN, AE_STAGING_RECORDED,
     AE_STAGING_VALIDATED, AE_STAGING_REJECTED, AE_CLAIM_CREATED, AE_CLAIM_REVISION,
     AE_CLAIM_REVERIFIED, AE_CLAIM_ASSESSED, AE_CLAIM_INVALIDATED,
     AE_DEPENDENCY_EDGE_REJECTED, AE_CASCADE_STARTED, AE_BARRIER_GENERATION_PUBLISHED,
     AE_BARRIER_BATCH_APPLIED, AE_BARRIER_RESOLVED, AE_BARRIER_BLOCKED,
     AE_REASSESSMENT_JOB_COMPLETED, AE_REASSESSMENT_JOB_RETRY, AE_REASSESSMENT_JOB_BLOCKED,
     AE_COMMIT_ATTEMPT_PREPARED, AE_COMMIT_ATTEMPT_COMMITTED, AE_COMMIT_ATTEMPT_ABORTED,
     AE_COMMIT_RECONCILED, AE_MESSAGE_CREATED, AE_MESSAGE_DELIVERED, AE_MESSAGE_ANSWERED,
     AE_MESSAGE_EXPIRED, AE_OPERATOR_COMMAND_RECEIVED, AE_OPERATOR_COMMAND_COMPLETED,
     AE_OPERATOR_COMMAND_REJECTED, AE_CONFIG_SNAPSHOT_CREATED, AE_CONFIG_ACTIVATED,
     AE_PROMPT_PIN_MISMATCH, AE_ACTIVATION_ACQUIRED, AE_ACTIVATION_TAKEOVER,
     AE_ACTIVATION_DRAIN_PUBLISHED, AE_ACTIVATION_DRAIN_CANCELLED, AE_ACTIVATION_PUBLISHED,
     AE_ACTIVATION_POST_PUBLISH_BATCH, AE_ACTIVATION_POST_PUBLISH_COMPLETED,
     AE_ACTIVATION_POST_PUBLISH_BLOCKED, AE_ACTIVATION_CLEANED_UP, AE_ACTIVATION_SUPERSEDED,
     AE_SOURCE_GRAPH_CHANGED, AE_COUNTER_RESOLUTION_CREATED, AE_PLAN_PROPOSED,
     AE_PLAN_FALLBACK, AE_VERIFICATION_COMPLETED, AE_VERIFICATION_FALLBACK,
     AE_REPEAT_CYCLE_DETECTED, AE_QUESTION_DEFERRED, AE_EXTRACTION_COMPLETED,
     AE_EXTRACTION_FALLBACK, AE_COMMIT_SNAPSHOT_DRIFT, AE_RESEARCH_FETCH_COMPLETED,
     AE_RESEARCH_FETCH_REJECTED, AE_RESEARCH_UPSTREAM_REQUEST, AE_RESEARCH_CONTENT_READ,
     AE_COUNTER_RESOLUTION_INVALIDATED, AE_ALERT_RAISED, AE_BACKUP_CREATED,
     AE_BACKUP_RESTORE_DRILL, AE_GC_SWEEP, AE_EVALUATION_RUN_STARTED,
     AE_EVALUATION_RUN_FINISHED, AE_LINK_REVOCATION_CREATED, AE_LINK_REVOCATION_CANCELLED]"

interpretation audit_event_type_enum: str_enum audit_event_type_members audit_event_type_value
proof
  fix x show "x \<in> set audit_event_type_members" by (cases x) (simp_all add: audit_event_type_members_def)
next
  show "distinct (map audit_event_type_value audit_event_type_members)" by code_simp
qed

end
