(* ===== verification/Sanitization.thy ===== *)
theory Sanitization
  imports Prelude
begin

section \<open>NUL masking and canonical JSON\<close>

text \<open>
  \<open>packages/domain/sanitization.py\<close> (the visible marker that replaces a NUL byte before a text
  reaches a JSONB column) and \<open>packages/domain/canonical.py\<close> (the one canonical serialisation the
  system hashes).  The text of a float (\<open>float.__repr__\<close>) and SHA-256 are parameters.
\<close>

subsection \<open>Masking\<close>

definition NUL_MARKER :: string where
  "NUL_MARKER = [CHR 0x5C, CHR ''x'', CHR ''0'', CHR ''0'']"

definition nul_free :: "string \<Rightarrow> bool" where
  "nul_free s = list_all (\<lambda>c. c \<noteq> CHR 0x00) s"

definition mask_nul :: "string \<Rightarrow> string" where
  "mask_nul s =
     (if nul_free s then s
      else concat (map (\<lambda>c. if c = CHR 0x00 then NUL_MARKER else [c]) s))"

text \<open>A dict display or comprehension: assignments from left to right.\<close>

definition dict_of :: "('k \<times> 'v) list \<Rightarrow> ('k \<times> 'v) list" where
  "dict_of kvs = foldl (\<lambda>d kv. dict_set (fst kv) (snd kv) d) [] kvs"

fun mask_nul_deep :: "json \<Rightarrow> json" where
  "mask_nul_deep (JStr s) = JStr (mask_nul s)"
| "mask_nul_deep (JObj kvs) =
     JObj (dict_of (map (\<lambda>(k, v). (mask_nul k, mask_nul_deep v)) kvs))"
| "mask_nul_deep (JArr vs) = JArr (map mask_nul_deep vs)"
| "mask_nul_deep JNull = JNull"
| "mask_nul_deep (JBool b) = JBool b"
| "mask_nul_deep (JInt i) = JInt i"
| "mask_nul_deep (JFloat r) = JFloat r"

text \<open>No string of the value, key or text, holds a NUL; no object repeats a key.\<close>

fun json_nul_free :: "json \<Rightarrow> bool" where
  "json_nul_free (JStr s) = nul_free s"
| "json_nul_free (JObj kvs) = list_all (\<lambda>(k, v). nul_free k \<and> json_nul_free v) kvs"
| "json_nul_free (JArr vs) = list_all json_nul_free vs"
| "json_nul_free JNull = True"
| "json_nul_free (JBool b) = True"
| "json_nul_free (JInt i) = True"
| "json_nul_free (JFloat r) = True"

fun json_wf :: "json \<Rightarrow> bool" where
  "json_wf (JStr s) = True"
| "json_wf (JObj kvs) = (distinct (map fst kvs) \<and> list_all (\<lambda>(k, v). json_wf v) kvs)"
| "json_wf (JArr vs) = list_all json_wf vs"
| "json_wf JNull = True"
| "json_wf (JBool b) = True"
| "json_wf (JInt i) = True"
| "json_wf (JFloat r) = True"

text \<open>The payload of an event is a dict; masking a dict gives a dict.\<close>

definition mask_nul_dict :: "json_dict \<Rightarrow> json_dict" where
  "mask_nul_dict d = (case mask_nul_deep (JObj d) of JObj e \<Rightarrow> e | _ \<Rightarrow> [])"

subsection \<open>Canonical serialisation\<close>

text \<open>
  The escapes of \<open>json.dumps(..., ensure_ascii=False)\<close>: the quote, the backslash and the control
  characters below space.
\<close>

definition escape_char :: "char \<Rightarrow> string" where
  "escape_char c =
     (if c = CHR 0x22 then [CHR 0x5C, CHR 0x22]
      else if c = CHR 0x5C then [CHR 0x5C, CHR 0x5C]
      else if c = CHR 0x0A then [CHR 0x5C, CHR ''n'']
      else if c = CHR 0x0D then [CHR 0x5C, CHR ''r'']
      else if c = CHR 0x09 then [CHR 0x5C, CHR ''t'']
      else if c = CHR 0x0C then [CHR 0x5C, CHR ''f'']
      else if c = CHR 0x08 then [CHR 0x5C, CHR ''b'']
      else if of_char c < (32 :: nat) then [CHR 0x5C, CHR ''u''] @ digits_width 4 (of_char c)
      else [c])"

definition json_string :: "string \<Rightarrow> string" where
  "json_string s = [CHR 0x22] @ concat (map escape_char s) @ [CHR 0x22]"

fun join :: "string \<Rightarrow> string list \<Rightarrow> string" where
  "join sep [] = []"
| "join sep [x] = x"
| "join sep (x # y # ys) = x @ sep @ join sep (y # ys)"

text \<open>\<open>json.dumps(value, sort_keys=True, separators=(",", ":"))\<close>.\<close>

fun json_dumps :: "(rat \<Rightarrow> string) \<Rightarrow> json \<Rightarrow> string" where
  "json_dumps frepr JNull = ''null''"
| "json_dumps frepr (JBool b) = (if b then ''true'' else ''false'')"
| "json_dumps frepr (JInt i) = int_str i"
| "json_dumps frepr (JFloat r) = frepr r"
| "json_dumps frepr (JStr s) = json_string s"
| "json_dumps frepr (JArr vs) = ''['' @ join '','' (map (json_dumps frepr) vs) @ '']''"
| "json_dumps frepr (JObj kvs) =
     ''{'' @ join '','' (map (\<lambda>(k, t). json_string k @ '':'' @ t)
       (sort_key fst (map (\<lambda>(k, v). (k, json_dumps frepr v)) kvs))) @ ''}''"

definition utf8_char :: "char \<Rightarrow> string" where
  "utf8_char c = (let n = of_char c :: nat in
     if n < 128 then [c] else [char_of (192 + n div 64), char_of (128 + n mod 64)])"

definition canonical_json_bytes :: "(rat \<Rightarrow> string) \<Rightarrow> json \<Rightarrow> string" where
  "canonical_json_bytes frepr v = concat (map utf8_char (json_dumps frepr v))"

definition canonical_sha256 :: "(rat \<Rightarrow> string) \<Rightarrow> (string \<Rightarrow> string) \<Rightarrow> json \<Rightarrow> string" where
  "canonical_sha256 frepr sha256_hex v = sha256_hex (canonical_json_bytes frepr v)"

text \<open>
  Equality of JSON values as data: objects are equal when they bind the same keys to equal
  values, in whatever order.
\<close>

function (sequential) json_eq :: "json \<Rightarrow> json \<Rightarrow> bool" where
  "json_eq (JObj d) (JObj e) =
     (length d = length e \<and>
      list_all (\<lambda>(k, v). case map_of e k of None \<Rightarrow> False | Some w \<Rightarrow> json_eq v w) d)"
| "json_eq (JArr vs) (JArr ws) =
     (length vs = length ws \<and> list_all (\<lambda>(v, w). json_eq v w) (zip vs ws))"
| "json_eq v w = (v = w)"
  by pat_completeness auto

termination
proof (relation "measure (\<lambda>p. size (fst p))", goal_cases)
  case (2 d e z k v w)
  then have "(k, v) \<in> set d" by simp
  then show ?case
    using size_list_estimation' [of "(k, v)" d "size v" "size_prod (\<lambda>x. 0) size"] by simp
next
  case (3 vs ws z v w)
  then have "v \<in> set vs" by (auto dest: set_zip_leftD)
  then show ?case
    using size_list_estimation' [of v vs "size v" size] by simp
qed simp

subsection \<open>Facts about dicts\<close>

lemma dict_of_snoc: "dict_of (kvs @ [(k, v)]) = dict_set k v (dict_of kvs)"
  by (simp add: dict_of_def)

lemma distinct_dict_of: "distinct (map fst (dict_of kvs))"
proof (induction kvs rule: rev_induct)
  case Nil
  then show ?case by (simp add: dict_of_def)
next
  case (snoc kv kvs)
  then show ?case by (cases kv) (simp add: dict_of_snoc distinct_dict_set)
qed

lemma dict_of_distinct: "distinct (map fst kvs) \<Longrightarrow> dict_of kvs = kvs"
proof (induction kvs rule: rev_induct)
  case Nil
  then show ?case by (simp add: dict_of_def)
next
  case (snoc kv kvs)
  then show ?case by (cases kv) (simp add: dict_of_snoc dict_set_new)
qed

lemma set_dict_set: "set (dict_set k v d) \<subseteq> insert (k, v) (set d)"
  by (induction k v d rule: dict_set.induct) auto

lemma set_dict_of: "set (dict_of kvs) \<subseteq> set kvs"
proof (induction kvs rule: rev_induct)
  case Nil
  then show ?case by (simp add: dict_of_def)
next
  case (snoc kv kvs)
  obtain k v where kv: "kv = (k, v)" by (cases kv)
  have "set (dict_of (kvs @ [kv])) \<subseteq> insert (k, v) (set (dict_of kvs))"
    unfolding kv dict_of_snoc by (rule set_dict_set)
  with snoc kv show ?case by auto
qed

subsection \<open>Facts about masking\<close>

lemma nul_free_mask_nul [simp]: "nul_free (mask_nul s)"
proof -
  have "list_all (\<lambda>c. c \<noteq> CHR 0x00)
      (concat (map (\<lambda>c. if c = CHR 0x00 then NUL_MARKER else [c]) s))"
    by (induction s) (auto simp: NUL_MARKER_def)
  then show ?thesis by (simp add: mask_nul_def nul_free_def)
qed

lemma mask_nul_id: "nul_free s \<Longrightarrow> mask_nul s = s"
  by (simp add: mask_nul_def)

lemma json_nul_free_mask: "json_nul_free (mask_nul_deep v) \<and> json_wf (mask_nul_deep v)"
proof (induction v rule: mask_nul_deep.induct)
  case (2 kvs)
  let ?m = "map (\<lambda>(k, v). (mask_nul k, mask_nul_deep v)) kvs"
  have all: "nul_free (fst kv) \<and> json_nul_free (snd kv) \<and> json_wf (snd kv)" if "kv \<in> set ?m" for kv
    using that 2 by auto
  then have "\<forall>kv\<in>set (dict_of ?m). nul_free (fst kv) \<and> json_nul_free (snd kv) \<and> json_wf (snd kv)"
    using set_dict_of by blast
  then show ?case by (auto simp: list_all_iff distinct_dict_of)
qed (auto simp: list_all_iff)

lemma mask_nul_deep_id: "json_nul_free v \<Longrightarrow> json_wf v \<Longrightarrow> mask_nul_deep v = v"
proof (induction v rule: mask_nul_deep.induct)
  case (2 kvs)
  have "(mask_nul k, mask_nul_deep v) = (k, v)" if kv: "(k, v) \<in> set kvs" for k v
    using "2.IH" [OF kv refl] "2.prems" kv by (auto simp: list_all_iff mask_nul_id)
  then have "map (\<lambda>(k, v). (mask_nul k, mask_nul_deep v)) kvs = map (\<lambda>kv. kv) kvs"
    by (intro map_cong) auto
  with 2 show ?case by (simp add: dict_of_distinct)
next
  case (3 vs)
  then show ?case by (auto simp: list_all_iff intro!: map_idI)
qed (auto simp: mask_nul_id)

subsection \<open>Facts about the serialisation\<close>

lemma sort_fst_unique:
  assumes "distinct (map fst xs)" "distinct (map fst ys)" "set (xs :: (string \<times> 'b) list) = set ys"
  shows "sort_key fst xs = sort_key fst ys"
proof -
  have d: "distinct (map fst (sort_key fst xs))" "distinct (map fst (sort_key fst ys))"
    using assms by (simp_all add: distinct_map)
  have "inj_on fst (set xs)" using assms(1) by (simp add: distinct_map)
  then show ?thesis
    using d assms(3) by (intro map_sorted_distinct_set_unique [of fst]) auto
qed

lemma json_eq_dumps:
  "json_eq v w \<Longrightarrow> json_wf v \<Longrightarrow> json_wf w \<Longrightarrow> json_dumps frepr v = json_dumps frepr w"
proof (induction v w rule: json_eq.induct)
  case (1 d e)
  have len: "length d = length e" using "1.prems" by simp
  have dd: "distinct (map fst d)" and de: "distinct (map fst e)" using "1.prems" by auto
  have look: "\<exists>w. (k, w) \<in> set e \<and> json_dumps frepr v = json_dumps frepr w" if kv: "(k, v) \<in> set d" for k v
  proof -
    from "1.prems"(1) kv obtain w where w: "map_of e k = Some w" "json_eq v w"
      by (auto simp: list_all_iff split: option.splits)
    have wfs: "json_wf v" "json_wf w"
      using "1.prems"(2,3) kv map_of_SomeD [OF w(1)] by (auto simp: list_all_iff)
    from "1.IH" [OF kv refl w wfs] map_of_SomeD [OF w(1)] show ?thesis by blast
  qed
  let ?f = "\<lambda>(k, v). (k, json_dumps frepr v)"
  have sub: "set (map ?f d) \<subseteq> set (map ?f e)" using look by force
  have kd: "map fst (map ?f d) = map fst d" "map fst (map ?f e) = map fst e" by auto
  have dm: "distinct (map ?f d)" "distinct (map ?f e)"
    using dd [folded kd(1)] de [folded kd(2)] by (auto simp only: distinct_map)
  have "card (set (map ?f d)) = card (set (map ?f e))"
    using dm len by (metis distinct_card length_map)
  with sub have eq: "set (map ?f d) = set (map ?f e)"
    by (intro card_subset_eq) auto
  have "sort_key fst (map ?f d) = sort_key fst (map ?f e)"
    by (rule sort_fst_unique [OF dd [folded kd(1)] de [folded kd(2)] eq])
  then show ?case by simp
next
  case (2 vs ws)
  have "map (json_dumps frepr) vs = map (json_dumps frepr) ws"
  proof (rule nth_equalityI)
    show "length (map (json_dumps frepr) vs) = length (map (json_dumps frepr) ws)" using 2 by simp
    fix i assume "i < length (map (json_dumps frepr) vs)"
    then have i: "i < length vs" "i < length ws" using 2 by auto
    then have mem: "(vs ! i, ws ! i) \<in> set (zip vs ws)" by (auto simp: set_zip)
    have "json_eq (vs ! i) (ws ! i)" "json_wf (vs ! i)" "json_wf (ws ! i)"
      using 2 mem i by (auto simp: list_all_iff)
    with "2.IH" [OF mem refl] i show "map (json_dumps frepr) vs ! i = map (json_dumps frepr) ws ! i"
      by simp
  qed
  then show ?case by simp
qed auto

subsection \<open>Properties\<close>

text \<open>
  Masking leaves no NUL anywhere in a JSON value, keys included, gives a value whose
  objects have pairwise different keys, is idempotent, and changes nothing in a value that
  carried no NUL.
\<close>

theorem masking_removes_every_nul:
  "json_nul_free (mask_nul_deep v) \<and> json_wf (mask_nul_deep v)
   \<and> mask_nul_deep (mask_nul_deep v) = mask_nul_deep v
   \<and> (json_nul_free v \<and> json_wf v \<longrightarrow> mask_nul_deep v = v)"
  using json_nul_free_mask [of v] mask_nul_deep_id by auto

theorem masking_removes_every_nul_witness:
  "mask_nul_deep (JObj [(''k'', JStr [CHR ''a'', CHR 0x00])])
     = JObj [(''k'', JStr (CHR ''a'' # NUL_MARKER))]
   \<and> mask_nul_deep (JArr [JStr ''ok'', JNull]) = JArr [JStr ''ok'', JNull]"
  using masking_removes_every_nul [of "JArr [JStr ''ok'', JNull]"]
  by (simp add: mask_nul_def nul_free_def NUL_MARKER_def dict_of_def)

text \<open>
  The canonical bytes, and with them every hash taken of them, do not depend on the order
  in which objects list their keys: equal JSON data has equal canonical bytes.
\<close>

theorem canonical_bytes_ignore_key_order:
  assumes "json_eq v w" and "json_wf v" and "json_wf w"
  shows "canonical_json_bytes frepr v = canonical_json_bytes frepr w
     \<and> canonical_sha256 frepr sha256_hex v = canonical_sha256 frepr sha256_hex w"
  using json_eq_dumps [OF assms] by (simp add: canonical_json_bytes_def canonical_sha256_def)

theorem canonical_bytes_ignore_key_order_witness:
  "canonical_json_bytes (\<lambda>r. []) (JObj [(''b'', JInt 1), (''a'', JArr [JNull])])
     = canonical_json_bytes (\<lambda>r. []) (JObj [(''a'', JArr [JNull]), (''b'', JInt 1)])"
proof -
  let ?v = "JObj [(''b'', JInt 1), (''a'', JArr [JNull])]"
  let ?w = "JObj [(''a'', JArr [JNull]), (''b'', JInt 1)]"
  have h: "json_eq ?v ?w" "json_wf ?v" "json_wf ?w" by simp_all
  show ?thesis using canonical_bytes_ignore_key_order [OF h] by blast
qed

end
