(* ===== verification/PyStr.thy ===== *)
theory PyStr
  imports Sanitization
begin

section \<open>The Python built-ins the services use on text\<close>

text \<open>
  \<open>str.strip\<close>, \<open>str.lower\<close>, \<open>str()\<close> and \<open>repr()\<close> of JSON values, slices and
  \<open>datetime.isoformat\<close>.  Characters are the code points below 256, so the tables are those of the
  Latin-1 block.
\<close>

definition py_space :: "char \<Rightarrow> bool" where
  "py_space c = (let n = of_char c :: nat in
     (9 \<le> n \<and> n \<le> 13) \<or> (28 \<le> n \<and> n \<le> 32) \<or> n = 133 \<or> n = 160)"

definition py_strip :: "string \<Rightarrow> string" where
  "py_strip s = rev (dropWhile py_space (rev (dropWhile py_space s)))"

definition lower_char :: "char \<Rightarrow> char" where
  "lower_char c = (let n = of_char c :: nat in
     if (65 \<le> n \<and> n \<le> 90) \<or> (192 \<le> n \<and> n \<le> 222 \<and> n \<noteq> 215) then char_of (n + 32) else c)"

definition py_lower :: "string \<Rightarrow> string" where
  "py_lower s = map lower_char s"

definition printable :: "char \<Rightarrow> bool" where
  "printable c = (let n = of_char c :: nat in 32 \<le> n \<and> \<not> (127 \<le> n \<and> n \<le> 160) \<and> n \<noteq> 173)"

definition repr_char :: "char \<Rightarrow> char \<Rightarrow> string" where
  "repr_char q c =
     (if c = q \<or> c = CHR 0x5C then [CHR 0x5C, c]
      else if c = CHR 0x0A then [CHR 0x5C, CHR ''n'']
      else if c = CHR 0x0D then [CHR 0x5C, CHR ''r'']
      else if c = CHR 0x09 then [CHR 0x5C, CHR ''t'']
      else if printable c then [c]
      else [CHR 0x5C, CHR ''x''] @ digits_width 2 (of_char c))"

definition repr_str :: "string \<Rightarrow> string" where
  "repr_str s =
     (let q = (if CHR 0x27 \<in> set s \<and> CHR 0x22 \<notin> set s then CHR 0x22 else CHR 0x27) in
      [q] @ concat (map (repr_char q) s) @ [q])"

fun py_repr :: "(rat \<Rightarrow> string) \<Rightarrow> json \<Rightarrow> string" where
  "py_repr frepr JNull = ''None''"
| "py_repr frepr (JBool b) = (if b then ''True'' else ''False'')"
| "py_repr frepr (JInt i) = int_str i"
| "py_repr frepr (JFloat r) = frepr r"
| "py_repr frepr (JStr s) = repr_str s"
| "py_repr frepr (JArr vs) = ''['' @ join '', '' (map (py_repr frepr) vs) @ '']''"
| "py_repr frepr (JObj kvs) =
     ''{'' @ join '', '' (map (\<lambda>(k, v). repr_str k @ '': '' @ py_repr frepr v) kvs) @ ''}''"

definition py_str :: "(rat \<Rightarrow> string) \<Rightarrow> json \<Rightarrow> string" where
  "py_str frepr v = (case v of JStr s \<Rightarrow> s | _ \<Rightarrow> py_repr frepr v)"

text \<open>\<open>d.get(key, default)\<close>.\<close>

definition dict_get :: "json_dict \<Rightarrow> string \<Rightarrow> json \<Rightarrow> json" where
  "dict_get d k dflt = (case map_of d k of None \<Rightarrow> dflt | Some v \<Rightarrow> v)"

text \<open>
  \<open>datetime.isoformat()\<close> of a UTC instant (microseconds since the epoch): the civil date of a day
  number in the proleptic Gregorian calendar, the time, and the fraction when it is not zero.
\<close>

definition pad :: "nat \<Rightarrow> int \<Rightarrow> string" where
  "pad w i = (let s = int_str i in replicate (w - length s) (CHR ''0'') @ s)"

definition civil_from_days :: "int \<Rightarrow> int \<times> int \<times> int" where
  "civil_from_days z0 =
     (let z = z0 + 719468;
          era = z div 146097;
          doe = z mod 146097;
          yoe = (doe - doe div 1460 + doe div 36524 - doe div 146096) div 365;
          doy = doe - (365 * yoe + yoe div 4 - yoe div 100);
          mp = (5 * doy + 2) div 153;
          d = doy - (153 * mp + 2) div 5 + 1;
          m = (if mp < 10 then mp + 3 else mp - 9)
      in (yoe + era * 400 + (if m \<le> 2 then 1 else 0), m, d))"

definition isoformat :: "instant \<Rightarrow> string" where
  "isoformat t =
     (let us = t mod 1000000; secs = t div 1000000;
          day = secs div 86400; sod = secs mod 86400;
          (y, m, d) = civil_from_days day
      in pad 4 y @ ''-'' @ pad 2 m @ ''-'' @ pad 2 d @ ''T''
         @ pad 2 (sod div 3600) @ '':'' @ pad 2 (sod div 60 mod 60) @ '':'' @ pad 2 (sod mod 60)
         @ (if us = 0 then [] else ''.'' @ pad 6 us) @ ''+00:00'')"

subsection \<open>Facts about strip\<close>

lemma dropWhile_hd: "dropWhile p xs = y # ys \<Longrightarrow> \<not> p y"
  by (induction xs) (auto split: if_splits)

lemma py_strip_ends:
  "py_strip s = [] \<or> (\<not> py_space (hd (py_strip s)) \<and> \<not> py_space (last (py_strip s)))"
proof (cases "py_strip s")
  case (Cons c cs)
  let ?a = "dropWhile py_space s"
  let ?b = "dropWhile py_space (rev ?a)"
  have b: "?b \<noteq> []" using Cons by (auto simp: py_strip_def)
  have last: "\<not> py_space (hd ?b)" using b by (rule hd_dropWhile)
  obtain u where u: "rev ?a = u @ ?b" by (metis takeWhile_dropWhile_id)
  then have a: "?a = rev ?b @ rev u" by (metis rev_append rev_rev_ident)
  then have "hd ?a = hd (rev ?b)" using b by (metis hd_append2 rev_is_Nil_conv)
  moreover have "?a \<noteq> []" using b by (metis dropWhile.simps(1) rev.simps(1))
  ultimately have "\<not> py_space (hd (rev ?b))" using hd_dropWhile [of py_space s] by metis
  with last b show ?thesis by (simp add: py_strip_def last_rev)
qed simp

lemma py_strip_id: "s = [] \<or> (\<not> py_space (hd s) \<and> \<not> py_space (last s)) \<Longrightarrow> py_strip s = s"
proof (cases s)
  case (Cons c cs)
  moreover assume "s = [] \<or> (\<not> py_space (hd s) \<and> \<not> py_space (last s))"
  ultimately have a: "dropWhile py_space s = s" and l: "\<not> py_space (last s)" by auto
  have "dropWhile py_space (rev s) = rev s" using Cons l hd_rev [of s]
    by (cases "rev s") simp_all
  with a show ?thesis by (simp add: py_strip_def)
qed (simp add: py_strip_def)

lemma py_strip_idem [simp]: "py_strip (py_strip s) = py_strip s"
  using py_strip_ends [of s] by (intro py_strip_id) blast

lemma length_py_strip: "length (py_strip s) \<le> length s"
  unfolding py_strip_def length_rev
  by (rule order_trans [OF length_dropWhile_le]) (simp add: length_dropWhile_le)

end
