(* ===== verification/Store.thy ===== *)
theory Store
  imports Enums AuditTypes PyStr
begin

section \<open>The database\<close>

text \<open>
  The tables of \<open>packages/domain/models\<close> that the modelled services read and write, each a list of
  rows with the columns of its ORM class, and the record \<open>db\<close> of all of them.  \<open>db_now\<close> is the
  transaction's \<open>now()\<close>; readings of \<open>clock_timestamp()\<close> and of \<open>datetime.now(UTC)\<close> are arguments of
  the operations that make them.  \<open>db_uuid4\<close> is the sequence of identifiers \<open>uuid.uuid4\<close> will return
  and \<open>db_draws\<close> how many were drawn.  Foreign keys are not modelled.

  The last part is \<open>AuditService.record\<close> and the event repositories: every recorded event gets
  the next number of its session and an outbox twin in the same transaction.
\<close>

subsection \<open>Rows\<close>

record session_row =
  sess_id :: uuid
  sess_state :: session_state
  sess_lease_owner :: "string option"
  sess_lease_expires_at :: "instant option"
  sess_last_heartbeat_at :: "instant option"
  sess_last_progress_at :: "instant option"
  sess_phase_deadline :: "instant option"
  sess_stop_requested_at :: "instant option"
  sess_abort_requested_at :: "instant option"
  sess_commit_intent_at :: "instant option"
  sess_commit_attempt_id :: "uuid option"
  sess_question_id :: "uuid option"
  sess_base_workspace_manifest_id :: "uuid option"
  sess_committed_workspace_manifest_id :: "uuid option"
  sess_config_snapshot_id :: uuid
  sess_started_at :: "instant option"
  sess_finished_at :: "instant option"
  sess_termination_reason :: "string option"
  sess_plan :: "json_dict option"
  sess_plan_sha256 :: "string option"
  sess_verification :: "json_dict option"
  sess_verification_sha256 :: "string option"
  sess_extraction :: "json_dict option"
  sess_extraction_sha256 :: "string option"
  sess_created_at :: instant

record revision_row =
  rev_scope :: string
  rev_revision :: int
  rev_updated_at :: instant

record attempt_row =
  att_id :: uuid
  att_session_id :: uuid
  att_status :: commit_attempt_status
  att_staging_hash :: string
  att_workspace_manifest_id :: "uuid option"
  att_base_knowledge_revision :: int
  att_base_dependency_graph_revision :: int
  att_prepared_at :: instant
  att_finished_at :: "instant option"

record gate_row =
  gate_scope :: string
  gate_owner_kind :: "string option"
  gate_owner_id :: "string option"
  gate_priority :: "int option"
  gate_acquired_at :: "instant option"
  gate_lease_expires_at :: "instant option"

text \<open>The states of a staging row (the CHECK of the table).\<close>

datatype staging_row_state = ST_recorded | ST_validated | ST_rejected | ST_applied

record staging_row =
  stg_id :: uuid
  stg_session_id :: uuid
  stg_op :: string
  stg_payload :: json_dict
  stg_payload_hash :: string
  stg_schema_version :: int
  stg_seq :: int
  stg_state :: staging_row_state
  stg_created_at :: instant

record question_row =
  q_id :: uuid
  q_text :: string
  q_origin :: question_origin
  q_origin_config_snapshot_id :: "uuid option"
  q_state :: question_state
  q_priority :: int
  q_parent_id :: "uuid option"
  q_score_components :: "json_dict option"
  q_embedding_fingerprint :: "string option"
  q_created_at :: instant

record audit_event_row =
  ev_id :: uuid
  ev_session_id :: "uuid option"
  ev_sequence :: int
  ev_type :: audit_event_type
  ev_schema_version :: int
  ev_occurred_at :: instant
  ev_actor :: "string option"
  ev_public_summary :: "string option"
  ev_payload :: "json_dict option"
  ev_visibility :: audit_visibility

record outbox_row =
  ob_id :: uuid
  ob_audit_event_id :: uuid
  ob_topic :: string
  ob_payload :: json_dict
  ob_created_at :: instant
  ob_published_at :: "instant option"
  ob_attempts :: int

record config_head_row =
  rch_scope :: string
  rch_active_config_snapshot_id :: uuid
  rch_activating_config_snapshot_id :: "uuid option"
  rch_activation_fence :: int
  rch_activation_lease_owner :: "string option"
  rch_activation_lease_expires_at :: "instant option"
  rch_updated_at :: instant

record admission_row =
  adm_session_id :: uuid
  adm_node_owner :: string
  adm_config_snapshot_id :: uuid
  adm_lease_expires_at :: instant
  adm_created_at :: instant

record claim_row =
  cl_id :: uuid
  cl_statement :: string
  cl_search_statements :: json
  cl_claim_type :: claim_type
  cl_freshness_status :: freshness_status
  cl_valid_from :: "instant option"
  cl_valid_to :: "instant option"
  cl_as_of :: "instant option"
  cl_observed_at :: "instant option"
  cl_reverify_after :: "instant option"
  cl_dependency_fingerprint :: "string option"
  cl_topic :: "string option"
  cl_created_in_session :: "uuid option"
  cl_created_at :: instant

record dependency_row =
  dep_id :: uuid
  dep_from_claim_id :: uuid
  dep_to_claim_id :: uuid
  dep_kind :: dependency_kind
  dep_created_in_session :: "uuid option"
  dep_created_at :: instant

record head_row =
  hd_claim_id :: uuid
  hd_config_snapshot_id :: uuid
  hd_assessment_state :: assessment_state
  hd_current_assessment_id :: "uuid option"
  hd_epistemic_status :: "epistemic_status option"
  hd_prepared_by :: string
  hd_updated_at :: instant

record assessment_row =
  as_id :: uuid
  as_claim_id :: uuid
  as_effective_grade :: effective_grade
  as_epistemic_status :: epistemic_status
  as_rules_version :: string
  as_rules_hash :: string
  as_source_independence_snapshot_id :: "uuid option"
  as_environment_independence_snapshot_id :: "uuid option"
  as_evidence_set_hash :: string
  as_assessed_scope :: json_dict
  as_confidence :: rat
  as_valid :: bool
  as_invalidation_reason :: "string option"
  as_created_in_session :: "uuid option"
  as_created_at :: instant

record evidence_row =
  evd_id :: uuid
  evd_claim_id :: uuid
  evd_relation :: evidence_relation
  evd_evidence_kind :: evidence_kind
  evd_identity_hash :: string
  evd_scope :: json_dict
  evd_source_id :: "uuid option"
  evd_chunk_id :: "string option"
  evd_observation_artifact_id :: "uuid option"
  evd_environment_manifest_id :: "uuid option"
  evd_created_in_session :: "uuid option"
  evd_created_at :: instant

record manifest_row =
  cm_id :: uuid
  cm_root_claim_id :: uuid
  cm_graph_revision :: int
  cm_claim_ids :: "json list"
  cm_ranks :: json_dict
  cm_count :: int
  cm_sha256 :: string
  cm_created_at :: instant

record barrier_row =
  bar_id :: uuid
  bar_root_claim_id :: uuid
  bar_graph_revision :: int
  bar_generation :: int
  bar_status :: barrier_status
  bar_closure_manifest_id :: "uuid option"
  bar_member_count :: int
  bar_next_offset :: int
  bar_last_error :: "string option"
  bar_created_at :: instant
  bar_updated_at :: instant
  bar_resolved_at :: "instant option"

record job_row =
  job_id :: uuid
  job_claim_id :: uuid
  job_target_config_snapshot_id :: uuid
  job_status :: reassessment_job_status
  job_reason :: "string option"
  job_priority :: int
  job_enqueued_at :: instant
  job_attempts :: int
  job_max_attempts :: int
  job_error_class :: "string option"
  job_lease_owner :: "string option"
  job_lease_expires_at :: "instant option"
  job_next_attempt_at :: "instant option"
  job_blocked_at :: "instant option"
  job_completed_at :: "instant option"
  job_last_error :: "string option"

record db =
  db_now :: instant
  db_uuid4 :: "nat \<Rightarrow> uuid"
  db_draws :: nat
  db_sessions :: "session_row list"
  db_revisions :: "revision_row list"
  db_attempts :: "attempt_row list"
  db_gates :: "gate_row list"
  db_staging :: "staging_row list"
  db_questions :: "question_row list"
  db_events :: "audit_event_row list"
  db_outbox :: "outbox_row list"
  db_config_heads :: "config_head_row list"
  db_admissions :: "admission_row list"
  db_claims :: "claim_row list"
  db_dependencies :: "dependency_row list"
  db_heads :: "head_row list"
  db_assessments :: "assessment_row list"
  db_evidence :: "evidence_row list"
  db_manifests :: "manifest_row list"
  db_barriers :: "barrier_row list"
  db_jobs :: "job_row list"

text \<open>What the services take from the host: the text of a float and SHA-256.\<close>

record host =
  host_frepr :: "rat \<Rightarrow> string"
  host_sha256 :: "string \<Rightarrow> string"

definition host_canonical_sha256 :: "host \<Rightarrow> json \<Rightarrow> string" where
  "host_canonical_sha256 h v = canonical_sha256 (host_frepr h) (host_sha256 h) v"

subsection \<open>Statements\<close>

definition uuid4 :: "db \<Rightarrow> uuid \<times> db" where
  "uuid4 d = (db_uuid4 d (db_draws d), d\<lparr>db_draws := Suc (db_draws d)\<rparr>)"

definition get_session :: "db \<Rightarrow> uuid \<Rightarrow> session_row option" where
  "get_session d i = tbl_get sess_id i (db_sessions d)"

definition get_attempt :: "db \<Rightarrow> uuid \<Rightarrow> attempt_row option" where
  "get_attempt d i = tbl_get att_id i (db_attempts d)"

definition get_revision :: "db \<Rightarrow> string \<Rightarrow> revision_row option" where
  "get_revision d sc = tbl_get rev_scope sc (db_revisions d)"

definition update_attempt :: "uuid \<Rightarrow> (attempt_row \<Rightarrow> attempt_row) \<Rightarrow> db \<Rightarrow> db" where
  "update_attempt i f d = d\<lparr>db_attempts := tbl_update (\<lambda>r. att_id r = i) f (db_attempts d)\<rparr>"

text \<open>An UPDATE of a session row that does not name the column \<open>state\<close>.\<close>

definition update_session :: "(session_row \<Rightarrow> bool) \<Rightarrow> (session_row \<Rightarrow> session_row) \<Rightarrow> db \<Rightarrow> db" where
  "update_session p f d = d\<lparr>db_sessions := tbl_update p f (db_sessions d)\<rparr>"

text \<open>
  An UPDATE that names it: the trigger \<open>trg_session_admission_terminal\<close> deletes the admission
  record of every updated session whose new state is terminal.
\<close>

definition update_session_state :: "(session_row \<Rightarrow> bool) \<Rightarrow> (session_row \<Rightarrow> session_row) \<Rightarrow> db \<Rightarrow> db" where
  "update_session_state p f d =
     (let done = map sess_id (filter (\<lambda>r. is_terminal (sess_state r))
                   (map f (filter p (db_sessions d))))
      in d\<lparr>db_sessions := tbl_update p f (db_sessions d),
           db_admissions := filter (\<lambda>a. adm_session_id a \<notin> set done) (db_admissions d)\<rparr>)"

definition set_state :: "db \<Rightarrow> uuid \<Rightarrow> session_state \<Rightarrow> exn + db" where
  "set_state d i st =
     (case get_session d i of
        None \<Rightarrow> Inl (LookupError (''session '' @ uuid_str i @ '' not found''))
      | Some s \<Rightarrow> Inr (update_session_state (\<lambda>r. sess_id r = i) (\<lambda>r. r\<lparr>sess_state := st\<rparr>) d))"

definition list_nonterminal :: "db \<Rightarrow> session_row list" where
  "list_nonterminal d = filter (\<lambda>r. \<not> is_terminal (sess_state r)) (db_sessions d)"

subsection \<open>Audit\<close>

definition OUTBOX_TOPIC_AUDIT :: string where
  "OUTBOX_TOPIC_AUDIT = ''audit.events''"

definition next_sequence :: "db \<Rightarrow> uuid option \<Rightarrow> int" where
  "next_sequence d sid =
     max_default 0 (map ev_sequence (filter (\<lambda>e. ev_session_id e = sid) (db_events d))) + 1"

definition opt_json :: "('a \<Rightarrow> json) \<Rightarrow> 'a option \<Rightarrow> json" where
  "opt_json f x = (case x of None \<Rightarrow> JNull | Some v \<Rightarrow> f v)"

definition make_event ::
  "db \<Rightarrow> uuid \<Rightarrow> audit_event_type \<Rightarrow> uuid option \<Rightarrow> json_dict option \<Rightarrow> string option \<Rightarrow>
   string option \<Rightarrow> audit_visibility \<Rightarrow> audit_event_row" where
  "make_event d i ty sid payload actor summary vis =
     \<lparr>ev_id = i, ev_session_id = sid, ev_sequence = next_sequence d sid, ev_type = ty,
      ev_schema_version = 1, ev_occurred_at = db_now d, ev_actor = actor,
      ev_public_summary = map_option mask_nul summary,
      ev_payload = map_option mask_nul_dict payload, ev_visibility = vis\<rparr>"

definition make_outbox :: "db \<Rightarrow> uuid \<Rightarrow> audit_event_row \<Rightarrow> outbox_row" where
  "make_outbox d i e =
     \<lparr>ob_id = i, ob_audit_event_id = ev_id e, ob_topic = OUTBOX_TOPIC_AUDIT,
      ob_payload = [
        (''event_id'', JStr (uuid_str (ev_id e))),
        (''session_id'', opt_uuid_json (ev_session_id e)),
        (''sequence'', JInt (ev_sequence e)),
        (''type'', JStr (audit_event_type_value (ev_type e))),
        (''actor'', opt_json JStr (ev_actor e)),
        (''public_summary'', opt_json JStr (ev_public_summary e)),
        (''payload'', opt_json JObj (ev_payload e)),
        (''occurred_at'', JStr (isoformat (ev_occurred_at e)))],
      ob_created_at = db_now d, ob_published_at = None, ob_attempts = 0\<rparr>"

text \<open>\<open>AuditService.record\<close> with a resolved type: the event, then its outbox twin.\<close>

definition record_event ::
  "audit_event_type \<Rightarrow> uuid option \<Rightarrow> json_dict option \<Rightarrow> string option \<Rightarrow> string option \<Rightarrow>
   audit_visibility \<Rightarrow> db \<Rightarrow> db" where
  "record_event ty sid payload actor summary vis d =
     (let (i, d1) = uuid4 d;
          e = make_event d i ty sid payload actor summary vis;
          d2 = d1\<lparr>db_events := db_events d1 @ [e]\<rparr>;
          (j, d3) = uuid4 d2
      in d3\<lparr>db_outbox := db_outbox d3 @ [make_outbox d j e]\<rparr>)"

text \<open>A type given as text goes through the closed registry.\<close>

definition audit_record ::
  "audit_event_type + string \<Rightarrow> uuid option \<Rightarrow> json_dict option \<Rightarrow> string option \<Rightarrow> string option \<Rightarrow>
   audit_visibility \<Rightarrow> db \<Rightarrow> exn + db" where
  "audit_record ty sid payload actor summary vis d =
     (case ty of
        Inl t \<Rightarrow> Inr (record_event t sid payload actor summary vis d)
      | Inr s \<Rightarrow>
          (case find (\<lambda>t. audit_event_type_value t = s) audit_event_type_members of
             None \<Rightarrow> Inl (ValueError s)
           | Some t \<Rightarrow> Inr (record_event t sid payload actor summary vis d)))"

abbreviation session_event ::
  "audit_event_type \<Rightarrow> uuid \<Rightarrow> json_dict \<Rightarrow> string option \<Rightarrow> db \<Rightarrow> db" where
  "session_event ty sid payload summary \<equiv>
     record_event ty (Some sid) (Some payload) None summary AV_OPERATOR"

definition list_unpublished :: "db \<Rightarrow> nat \<Rightarrow> outbox_row list" where
  "list_unpublished d lmt =
     take lmt (sort_key ob_created_at (filter (\<lambda>o'. ob_published_at o' = None) (db_outbox d)))"

definition mark_published :: "db \<Rightarrow> uuid \<Rightarrow> exn + db" where
  "mark_published d i =
     (case tbl_get ob_id i (db_outbox d) of
        None \<Rightarrow> Inl (LookupError (''outbox event '' @ uuid_str i @ '' not found''))
      | Some r \<Rightarrow> Inr (d\<lparr>db_outbox :=
          tbl_update (\<lambda>r. ob_id r = i) (\<lambda>r. r\<lparr>ob_published_at := Some (db_now d)\<rparr>) (db_outbox d)\<rparr>))"

definition list_for_session :: "db \<Rightarrow> uuid \<Rightarrow> nat \<Rightarrow> audit_event_row list" where
  "list_for_session d sid lmt =
     take lmt (sort_key ev_sequence (filter (\<lambda>e. ev_session_id e = Some sid) (db_events d)))"

definition list_timeline :: "db \<Rightarrow> nat \<Rightarrow> audit_event_row list" where
  "list_timeline d lmt = take lmt (sort_key (\<lambda>e. (- ev_occurred_at e, ev_id e)) (db_events d))"

text \<open>The database after the migrations: the seeded singleton rows and no others.\<close>

definition empty_db :: db where
  "empty_db =
     \<lparr>db_now = 0, db_uuid4 = (\<lambda>n. n + 1000), db_draws = 0, db_sessions = [],
      db_revisions =
        [\<lparr>rev_scope = ''knowledge'', rev_revision = 0, rev_updated_at = 0\<rparr>,
         \<lparr>rev_scope = ''dependency_graph'', rev_revision = 0, rev_updated_at = 0\<rparr>],
      db_attempts = [],
      db_gates = [\<lparr>gate_scope = ''global'', gate_owner_kind = None, gate_owner_id = None,
        gate_priority = None, gate_acquired_at = None, gate_lease_expires_at = None\<rparr>],
      db_staging = [], db_questions = [], db_events = [], db_outbox = [],
      db_config_heads = [\<lparr>rch_scope = ''global'', rch_active_config_snapshot_id = 1,
        rch_activating_config_snapshot_id = None, rch_activation_fence = 0,
        rch_activation_lease_owner = None, rch_activation_lease_expires_at = None,
        rch_updated_at = 0\<rparr>],
      db_admissions = [], db_claims = [], db_dependencies = [], db_heads = [],
      db_assessments = [], db_evidence = [], db_manifests = [], db_barriers = [], db_jobs = []\<rparr>"

subsection \<open>Facts about statements\<close>

interpretation attempt_status: keyed_update att_id "\<lambda>r. r\<lparr>att_status := st, att_finished_at := t\<rparr>" for st t
  by unfold_locales simp

lemma record_event_frame [simp]:
  "db_now (record_event ty sid p a s v d) = db_now d"
  "db_uuid4 (record_event ty sid p a s v d) = db_uuid4 d"
  "db_draws (record_event ty sid p a s v d) = Suc (Suc (db_draws d))"
  "db_sessions (record_event ty sid p a s v d) = db_sessions d"
  "db_revisions (record_event ty sid p a s v d) = db_revisions d"
  "db_attempts (record_event ty sid p a s v d) = db_attempts d"
  "db_gates (record_event ty sid p a s v d) = db_gates d"
  "db_staging (record_event ty sid p a s v d) = db_staging d"
  "db_questions (record_event ty sid p a s v d) = db_questions d"
  "db_config_heads (record_event ty sid p a s v d) = db_config_heads d"
  "db_admissions (record_event ty sid p a s v d) = db_admissions d"
  "db_claims (record_event ty sid p a s v d) = db_claims d"
  "db_dependencies (record_event ty sid p a s v d) = db_dependencies d"
  "db_heads (record_event ty sid p a s v d) = db_heads d"
  "db_assessments (record_event ty sid p a s v d) = db_assessments d"
  "db_evidence (record_event ty sid p a s v d) = db_evidence d"
  "db_manifests (record_event ty sid p a s v d) = db_manifests d"
  "db_barriers (record_event ty sid p a s v d) = db_barriers d"
  "db_jobs (record_event ty sid p a s v d) = db_jobs d"
  by (simp_all add: record_event_def uuid4_def Let_def)

lemma db_events_record_event:
  "db_events (record_event ty sid p a s v d) =
     db_events d @ [make_event d (db_uuid4 d (db_draws d)) ty sid p a s v]"
  by (simp add: record_event_def uuid4_def Let_def)

lemma db_outbox_record_event:
  "db_outbox (record_event ty sid p a s v d) =
     db_outbox d @ [make_outbox d (db_uuid4 d (Suc (db_draws d)))
       (make_event d (db_uuid4 d (db_draws d)) ty sid p a s v)]"
  by (simp add: record_event_def uuid4_def Let_def)

lemma get_record_event [simp]:
  "get_session (record_event ty sid p a s v d) i = get_session d i"
  "get_attempt (record_event ty sid p a s v d) i = get_attempt d i"
  "get_revision (record_event ty sid p a s v d) sc = get_revision d sc"
  by (simp_all add: get_session_def get_attempt_def get_revision_def)

lemma update_attempt_frame [simp]:
  "db_now (update_attempt i f d) = db_now d"
  "db_uuid4 (update_attempt i f d) = db_uuid4 d"
  "db_draws (update_attempt i f d) = db_draws d"
  "db_sessions (update_attempt i f d) = db_sessions d"
  "db_revisions (update_attempt i f d) = db_revisions d"
  "db_gates (update_attempt i f d) = db_gates d"
  "db_staging (update_attempt i f d) = db_staging d"
  "db_questions (update_attempt i f d) = db_questions d"
  "db_events (update_attempt i f d) = db_events d"
  "db_outbox (update_attempt i f d) = db_outbox d"
  "db_config_heads (update_attempt i f d) = db_config_heads d"
  "db_admissions (update_attempt i f d) = db_admissions d"
  "db_claims (update_attempt i f d) = db_claims d"
  "db_heads (update_attempt i f d) = db_heads d"
  "db_jobs (update_attempt i f d) = db_jobs d"
  "get_session (update_attempt i f d) k = get_session d k"
  "get_revision (update_attempt i f d) sc = get_revision d sc"
  by (simp_all add: update_attempt_def get_session_def get_revision_def)

lemma update_session_state_frame [simp]:
  "db_now (update_session_state p f d) = db_now d"
  "db_uuid4 (update_session_state p f d) = db_uuid4 d"
  "db_draws (update_session_state p f d) = db_draws d"
  "db_attempts (update_session_state p f d) = db_attempts d"
  "db_revisions (update_session_state p f d) = db_revisions d"
  "db_gates (update_session_state p f d) = db_gates d"
  "db_staging (update_session_state p f d) = db_staging d"
  "db_questions (update_session_state p f d) = db_questions d"
  "db_events (update_session_state p f d) = db_events d"
  "db_outbox (update_session_state p f d) = db_outbox d"
  "db_config_heads (update_session_state p f d) = db_config_heads d"
  "db_claims (update_session_state p f d) = db_claims d"
  "db_heads (update_session_state p f d) = db_heads d"
  "db_jobs (update_session_state p f d) = db_jobs d"
  "db_sessions (update_session_state p f d) = tbl_update p f (db_sessions d)"
  "get_attempt (update_session_state p f d) k = get_attempt d k"
  "get_revision (update_session_state p f d) sc = get_revision d sc"
  by (simp_all add: update_session_state_def get_attempt_def get_revision_def Let_def)

lemma update_session_frame [simp]:
  "db_now (update_session p f d) = db_now d"
  "db_attempts (update_session p f d) = db_attempts d"
  "db_revisions (update_session p f d) = db_revisions d"
  "db_staging (update_session p f d) = db_staging d"
  "db_admissions (update_session p f d) = db_admissions d"
  "db_events (update_session p f d) = db_events d"
  "db_outbox (update_session p f d) = db_outbox d"
  "db_sessions (update_session p f d) = tbl_update p f (db_sessions d)"
  "get_attempt (update_session p f d) k = get_attempt d k"
  "get_revision (update_session p f d) sc = get_revision d sc"
  by (simp_all add: update_session_def get_attempt_def get_revision_def)

subsection \<open>The audit trail\<close>

text \<open>
  Every scope (a session, or no session) is numbered from one without gaps, in insertion order,
  and the outbox lists the twins of the events in the same order.
\<close>

definition scope_events :: "db \<Rightarrow> uuid option \<Rightarrow> audit_event_row list" where
  "scope_events d sid = filter (\<lambda>e. ev_session_id e = sid) (db_events d)"

definition audit_wf :: "db \<Rightarrow> bool" where
  "audit_wf d \<longleftrightarrow>
     map ob_audit_event_id (db_outbox d) = map ev_id (db_events d) \<and>
     list_all (\<lambda>e. let es = scope_events d (ev_session_id e) in
       map ev_sequence es = map (\<lambda>n. int n + 1) [0..<length es]) (db_events d)"

lemma audit_wf_scope:
  assumes "audit_wf d"
  shows "map ev_sequence (scope_events d sid) = map (\<lambda>n. int n + 1) [0..<length (scope_events d sid)]"
proof (cases "scope_events d sid")
  case (Cons e es)
  then have "e \<in> set (scope_events d sid)" by simp
  then have "e \<in> set (db_events d)" "ev_session_id e = sid" by (simp_all add: scope_events_def)
  with assms show ?thesis by (auto simp: audit_wf_def list_all_iff Let_def)
qed simp

lemma max_default_upt: "max_default 0 (map (\<lambda>n. int n + 1) [0..<m]) = int m"
proof (cases m)
  case (Suc k)
  have "fold max (map (\<lambda>n. int n + 1) [1..<Suc j]) 1 = int j + 1" for j
    by (induction j) (auto simp: upt_conv_Cons)
  then show ?thesis using Suc by (simp add: max_default_def upt_conv_Cons del: upt_Suc)
qed simp

lemma next_sequence_wf: "audit_wf d \<Longrightarrow> next_sequence d sid = int (length (scope_events d sid)) + 1"
  using audit_wf_scope [of d sid] by (simp add: next_sequence_def scope_events_def max_default_upt)

lemma scope_events_record_event:
  "scope_events (record_event ty sid p a s v d) sid' =
     (if sid' = sid
      then scope_events d sid @ [make_event d (db_uuid4 d (db_draws d)) ty sid p a s v]
      else scope_events d sid')"
  by (auto simp: scope_events_def db_events_record_event make_event_def)

lemma audit_wf_record_event:
  assumes wf: "audit_wf d"
  shows "audit_wf (record_event ty sid p a s v d)"
proof -
  let ?d = "record_event ty sid p a s v d"
  have "map ev_sequence (scope_events ?d sid') = map (\<lambda>n. int n + 1) [0..<length (scope_events ?d sid')]"
    for sid'
    using audit_wf_scope [OF wf, of sid'] next_sequence_wf [OF wf, of sid]
    by (auto simp: scope_events_record_event make_event_def)
  moreover have "map ob_audit_event_id (db_outbox ?d) = map ev_id (db_events ?d)"
    using wf by (simp add: audit_wf_def db_events_record_event db_outbox_record_event make_outbox_def)
  ultimately show ?thesis by (simp add: audit_wf_def list_all_iff Let_def)
qed

lemma audit_wf_cong:
  "db_events d' = db_events d \<Longrightarrow> map ob_audit_event_id (db_outbox d') = map ob_audit_event_id (db_outbox d)
   \<Longrightarrow> audit_wf d' = audit_wf d"
  by (simp add: audit_wf_def scope_events_def)

lemma mask_nul_dict_wf: "json_nul_free (JObj (mask_nul_dict p)) \<and> json_wf (JObj (mask_nul_dict p))"
  using json_nul_free_mask [of "JObj p"] by (simp add: mask_nul_dict_def)

subsection \<open>Properties\<close>

text \<open>
  C40.  The audit trail stays complete: recording an event appends exactly one event, whose
  number is one more than the number of events its session already had and whose payload is
  free of NUL, together with its outbox twin; the events of every session stay numbered from
  one without gaps and publishing an outbox row keeps it so; a type outside the closed
  registry is rejected with ValueError and records nothing.
\<close>

theorem audit_trail_is_gap_free:
  assumes "audit_wf d"
  shows "audit_wf (record_event ty sid p a s v d)
     \<and> (\<exists>e. db_events (record_event ty sid p a s v d) = db_events d @ [e]
          \<and> ev_type e = ty \<and> ev_session_id e = sid
          \<and> ev_sequence e = int (length (scope_events d sid)) + 1
          \<and> (case ev_payload e of None \<Rightarrow> p = None | Some q \<Rightarrow> json_nul_free (JObj q)))
     \<and> (\<forall>i d'. mark_published d i = Inr d' \<longrightarrow> audit_wf d')
     \<and> (\<forall>w. (\<forall>t. audit_event_type_value t \<noteq> w) \<longrightarrow>
          audit_record (Inr w) sid p a s v d = Inl (ValueError w))"
proof (intro conjI allI impI)
  show "audit_wf (record_event ty sid p a s v d)" using assms by (rule audit_wf_record_event)
  show "\<exists>e. db_events (record_event ty sid p a s v d) = db_events d @ [e]
          \<and> ev_type e = ty \<and> ev_session_id e = sid
          \<and> ev_sequence e = int (length (scope_events d sid)) + 1
          \<and> (case ev_payload e of None \<Rightarrow> p = None | Some q \<Rightarrow> json_nul_free (JObj q))"
    using next_sequence_wf [OF assms, of sid] mask_nul_dict_wf
    by (auto simp: db_events_record_event make_event_def split: option.splits)
  fix i d' assume "mark_published d i = Inr d'"
  then show "audit_wf d'"
    using assms by (auto simp: mark_published_def audit_wf_def scope_events_def tbl_update_def comp_def
        if_distrib [of ob_audit_event_id] split: option.splits cong: if_cong)
next
  fix w assume "\<forall>t. audit_event_type_value t \<noteq> w"
  then have "find (\<lambda>t. audit_event_type_value t = w) audit_event_type_members = None"
    by (simp add: find_None_iff)
  then show "audit_record (Inr w) sid p a s v d = Inl (ValueError w)" by (simp add: audit_record_def)
qed

theorem audit_trail_is_gap_free_witness:
  "audit_wf (record_event AE_ALERT_RAISED None (Some [(''kind'', JStr ''x'')]) None None AV_OPERATOR empty_db)
   \<and> audit_record (Inr ''no_such_type'') None None None None AV_OPERATOR empty_db
       = Inl (ValueError ''no_such_type'')"
proof -
  have wf: "audit_wf empty_db" by (simp add: audit_wf_def empty_db_def)
  have "list_all (\<lambda>t. audit_event_type_value t \<noteq> ''no_such_type'') audit_event_type_members"
    by (simp add: audit_event_type_members_def)
  then have no: "\<forall>t. audit_event_type_value t \<noteq> ''no_such_type''"
    using audit_event_type_enum.all_members unfolding list_all_iff by blast
  show ?thesis
    using audit_trail_is_gap_free [OF wf, of AE_ALERT_RAISED None "Some [(''kind'', JStr ''x'')]"]
      audit_trail_is_gap_free [OF wf, of AE_ALERT_RAISED None None] no by blast
qed

end
