(* ===== verification/Locks.thy ===== *)
theory Locks
  imports Store
begin

section \<open>The canonical lock order\<close>

text \<open>
  \<open>packages/domain/services/locks.py\<close>: the order, its validation, and the lock set of a session
  commit.  The locale \<open>ordered_locks\<close> is the contract the order exists for: transactions that
  take row locks along a rank cannot deadlock.  It is interpreted on the plans that
  \<open>validate_lock_order\<close> accepts.
\<close>

type_synonym lock_token = "string \<times> string"

definition CANONICAL_ORDER :: "lock_token list" where
  "CANONICAL_ORDER = [
     (''runtime_config_heads'', ''scope''),
     (''sessions'', ''''),
     (''domain_revisions'', ''knowledge''),
     (''domain_revisions'', ''dependency_graph''),
     (''commit_attempts'', '''')]"

definition position :: "lock_token \<Rightarrow> int option" where
  "position tok = map_of (zip CANONICAL_ORDER (map int [0..<length CANONICAL_ORDER])) tok"

definition token_repr :: "lock_token \<Rightarrow> string" where
  "token_repr t = ''('' @ repr_str (fst t) @ '', '' @ repr_str (snd t) @ '')''"

fun check_locks :: "int \<Rightarrow> lock_token list \<Rightarrow> exn + unit" where
  "check_locks lst [] = Inr ()"
| "check_locks lst (want # rest) =
     (case position want of
        None \<Rightarrow> Inl (LockOrderViolation
          (''lock '' @ token_repr want @ '' is not in the canonical order''))
      | Some p \<Rightarrow>
          if p < lst then Inl (LockOrderViolation
            (''lock '' @ token_repr want @ '' is out of canonical order''))
          else check_locks p rest)"

definition validate_lock_order :: "lock_token list \<Rightarrow> exn + unit" where
  "validate_lock_order locks = check_locks (- 1) locks"

subsection \<open>The lock set of a commit\<close>

record commit_locks =
  cl_session_id :: uuid
  cl_attempt_id :: uuid
  cl_touches_dependency_graph :: bool

definition commit_lock_plan :: "bool \<Rightarrow> lock_token list" where
  "commit_lock_plan touches =
     (if touches then
        [(''sessions'', ''''), (''domain_revisions'', ''knowledge''),
         (''domain_revisions'', ''dependency_graph''), (''commit_attempts'', '''')]
      else
        [(''sessions'', ''''), (''domain_revisions'', ''knowledge''), (''commit_attempts'', '''')])"

definition lock_commit_set :: "db \<Rightarrow> uuid \<Rightarrow> uuid \<Rightarrow> bool \<Rightarrow> exn + commit_locks" where
  "lock_commit_set d session_id attempt_id touches =
     (case validate_lock_order (commit_lock_plan touches) of
        Inl e \<Rightarrow> Inl e
      | Inr _ \<Rightarrow>
          if get_session d session_id = None
          then Inl (LookupError (''session '' @ uuid_str session_id @ '' vanished under lock''))
          else if get_revision d ''knowledge'' = None
          then Inl (LookupError ''knowledge revision row missing'')
          else if touches \<and> get_revision d ''dependency_graph'' = None
          then Inl (LookupError ''dependency_graph revision row missing'')
          else if get_attempt d attempt_id = None
          then Inl (LookupError (''commit attempt '' @ uuid_str attempt_id @ '' vanished under lock''))
          else Inr \<lparr>cl_session_id = session_id, cl_attempt_id = attempt_id,
                    cl_touches_dependency_graph = touches\<rparr>)"

text \<open>
  The row locks the other writers take, in the order of their statements: the cascade's declared
  plan, the reconciler, and a change of the source graph.
\<close>

definition cascade_lock_plan :: "lock_token list" where
  "cascade_lock_plan = [
     (''runtime_config_heads'', ''scope''),
     (''domain_revisions'', ''knowledge''),
     (''domain_revisions'', ''dependency_graph'')]"

definition reconcile_lock_plan :: "lock_token list" where
  "reconcile_lock_plan = [(''sessions'', ''''), (''commit_attempts'', '''')]"

definition source_graph_lock_plan :: "lock_token list" where
  "source_graph_lock_plan =
     [(''domain_revisions'', ''source_graph''), (''runtime_config_heads'', ''scope'')]"

subsection \<open>Transactions that take locks\<close>

text \<open>A transaction holds some row locks and still has to take others.\<close>

record 'l txn =
  tx_held :: "'l list"
  tx_todo :: "'l list"

text \<open>
  One step of a set of concurrent transactions: a transaction takes its next lock when no other
  transaction holds it, or a transaction that needs no more locks ends and releases all.
\<close>

inductive lock_step :: "'l txn list \<Rightarrow> 'l txn list \<Rightarrow> bool" where
  take: "\<lbrakk> i < length sys; tx_todo (sys ! i) = l # ls;
     \<And>j. j < length sys \<Longrightarrow> j \<noteq> i \<Longrightarrow> l \<notin> set (tx_held (sys ! j)) \<rbrakk>
     \<Longrightarrow> lock_step sys (sys[i := \<lparr>tx_held = tx_held (sys ! i) @ [l], tx_todo = ls\<rparr>])"
| finish: "\<lbrakk> i < length sys; tx_todo (sys ! i) = []; tx_held (sys ! i) \<noteq> [] \<rbrakk>
     \<Longrightarrow> lock_step sys (sys[i := \<lparr>tx_held = [], tx_todo = []\<rparr>])"

inductive_cases lock_stepE: "lock_step sys sys'"

definition all_finished :: "'l txn list \<Rightarrow> bool" where
  "all_finished sys \<longleftrightarrow> list_all (\<lambda>t. tx_held t = [] \<and> tx_todo t = []) sys"

text \<open>No lock is held by two transactions.\<close>

definition exclusive :: "'l txn list \<Rightarrow> bool" where
  "exclusive sys \<longleftrightarrow>
     (\<forall>i<length sys. \<forall>j<length sys. i \<noteq> j \<longrightarrow>
        set (tx_held (sys ! i)) \<inter> set (tx_held (sys ! j)) = {})"

locale ordered_locks =
  fixes rank :: "'l \<Rightarrow> int" and follows :: "'l list \<Rightarrow> bool"
  assumes follows_sorted: "follows ls \<Longrightarrow> sorted (map rank ls)"
    and one_per_rank: "\<lbrakk> follows ls; a \<in> set ls; b \<in> set ls; rank a = rank b \<rbrakk> \<Longrightarrow> a = b"
    and follows_Nil: "follows []"
begin

definition disciplined :: "'l txn list \<Rightarrow> bool" where
  "disciplined sys \<longleftrightarrow> (\<forall>t\<in>set sys. follows (tx_held t @ tx_todo t))"

lemma disciplined_step: "lock_step sys sys' \<Longrightarrow> disciplined sys \<Longrightarrow> disciplined sys'"
proof (induction rule: lock_step.induct)
  case (take i sys l ls)
  have "follows (tx_held (sys ! i) @ l # ls)"
    using take.prems take.hyps(1,2) by (auto simp: disciplined_def dest!: nth_mem)
  then show ?case
    using take.prems set_update_subset_insert [of sys i] by (fastforce simp: disciplined_def)
next
  case (finish i sys)
  then show ?case
    using set_update_subset_insert [of sys i] follows_Nil by (fastforce simp: disciplined_def)
qed

lemma disciplined_run: "lock_step\<^sup>*\<^sup>* sys sys' \<Longrightarrow> disciplined sys \<Longrightarrow> disciplined sys'"
  by (induction rule: rtranclp_induct) (auto intro: disciplined_step)

text \<open>A transaction that holds the lock another one waits for is itself further along the order.\<close>

lemma holder_is_ahead:
  assumes "follows (held @ m # todo)" and "l \<in> set held" and "l \<noteq> m"
  shows "rank l < rank m"
proof -
  have "rank l \<le> rank m"
    using follows_sorted [OF assms(1)] assms(2) by (auto simp: sorted_append)
  moreover have "rank l \<noteq> rank m"
    using one_per_rank [OF assms(1), of l m] assms(2,3) by auto
  ultimately show ?thesis by simp
qed

lemma exclusive_step: "lock_step sys sys' \<Longrightarrow> exclusive sys \<Longrightarrow> exclusive sys'"
proof (induction rule: lock_step.induct)
  case (take i sys l ls)
  then show ?case by (auto simp: exclusive_def nth_list_update)
next
  case (finish i sys)
  then show ?case by (auto simp: exclusive_def nth_list_update)
qed

lemma exclusive_run: "lock_step\<^sup>*\<^sup>* sys sys' \<Longrightarrow> exclusive sys \<Longrightarrow> exclusive sys'"
  by (induction rule: rtranclp_induct) (auto intro: exclusive_step)

lemma waiting_max_can_move:
  assumes disc: "disciplined sys" and excl: "exclusive sys"
    and i: "i < length sys" and next_i: "tx_todo (sys ! i) = l # ls"
    and max: "\<And>j m ms. j < length sys \<Longrightarrow> tx_todo (sys ! j) = m # ms \<Longrightarrow> rank m \<le> rank l"
    and busy: "\<And>j. j < length sys \<Longrightarrow> tx_todo (sys ! j) = [] \<Longrightarrow> tx_held (sys ! j) = []"
  shows "\<exists>sys'. lock_step sys sys'"
proof (cases "\<exists>j<length sys. j \<noteq> i \<and> l \<in> set (tx_held (sys ! j))")
  case False
  with i next_i show ?thesis using lock_step.take [of i sys l ls] by blast
next
  case True
  then obtain j where j: "j < length sys" "l \<in> set (tx_held (sys ! j))" by blast
  then obtain m ms where todo: "tx_todo (sys ! j) = m # ms"
    using busy [OF j(1)] by (cases "tx_todo (sys ! j)") auto
  have f: "follows (tx_held (sys ! j) @ m # ms)"
    using disc j(1) todo by (auto simp: disciplined_def dest!: nth_mem)
  have "l = m" using holder_is_ahead [OF f j(2)] max [OF j(1) todo] by fastforce
  moreover have "l \<notin> set (tx_held (sys ! k))" if "k < length sys" "k \<noteq> j" for k
    using excl that j by (auto simp: exclusive_def)
  ultimately show ?thesis using lock_step.take [OF j(1) todo] by blast
qed

lemma no_deadlock:
  assumes disc: "disciplined sys" and excl: "exclusive sys" and busy: "\<not> all_finished sys"
  shows "\<exists>sys'. lock_step sys sys'"
proof (cases "\<exists>i<length sys. tx_todo (sys ! i) = [] \<and> tx_held (sys ! i) \<noteq> []")
  case True
  then show ?thesis using lock_step.finish by blast
next
  case False
  let ?A = "{i. i < length sys \<and> tx_todo (sys ! i) \<noteq> []}"
  let ?R = "(\<lambda>i. rank (hd (tx_todo (sys ! i)))) ` ?A"
  have fin: "finite ?R" by simp
  have "?A \<noteq> {}" using busy False by (auto simp: all_finished_def list_all_length)
  then have "Max ?R \<in> ?R" using fin by (intro Max_in) auto
  then obtain i where i: "i \<in> ?A" "rank (hd (tx_todo (sys ! i))) = Max ?R" by auto
  then obtain l ls where ls: "i < length sys" "tx_todo (sys ! i) = l # ls"
    by (cases "tx_todo (sys ! i)") auto
  show ?thesis
  proof (rule waiting_max_can_move [OF disc excl ls])
    fix j m ms assume "j < length sys" "tx_todo (sys ! j) = m # ms"
    then have "rank m \<in> ?R" by force
    then show "rank m \<le> rank l" using Max_ge [OF fin] i(2) ls by simp
  next
    fix j assume "j < length sys" "tx_todo (sys ! j) = []"
    then show "tx_held (sys ! j) = []" using False by blast
  qed
qed

end

subsection \<open>The canonical order is such an order\<close>

text \<open>
  A row lock is a token with the row it names.  A transaction follows the order when its tokens
  pass the validation and it names one row per token.
\<close>

type_synonym row_lock = "lock_token \<times> uuid"

definition row_rank :: "row_lock \<Rightarrow> int" where
  "row_rank l = (case position (fst l) of None \<Rightarrow> - 1 | Some p \<Rightarrow> p)"

definition follows_order :: "row_lock list \<Rightarrow> bool" where
  "follows_order ls \<longleftrightarrow>
     validate_lock_order (map fst ls) = Inr () \<and>
     list_all (\<lambda>a. list_all (\<lambda>b. fst a = fst b \<longrightarrow> a = b) ls) ls"

lemma position_eq:
  "position t =
     (if t = (''runtime_config_heads'', ''scope'') then Some 0
      else if t = (''sessions'', '''') then Some 1
      else if t = (''domain_revisions'', ''knowledge'') then Some 2
      else if t = (''domain_revisions'', ''dependency_graph'') then Some 3
      else if t = (''commit_attempts'', '''') then Some 4 else None)"
  unfolding position_def CANONICAL_ORDER_def by (simp add: upt_rec eq_commute [of t])

lemma position_inj: "position s = Some p \<Longrightarrow> position t = Some p \<Longrightarrow> s = t"
  unfolding position_eq by (simp split: if_splits)

lemma position_nonneg: "position t = Some p \<Longrightarrow> 0 \<le> p"
  unfolding position_eq by (simp split: if_splits)

lemma position_None_iff: "position t = None \<longleftrightarrow> t \<notin> set CANONICAL_ORDER"
  unfolding position_eq CANONICAL_ORDER_def by simp

lemma check_locks_Inr_iff:
  "check_locks lst ts = Inr () \<longleftrightarrow>
     (\<forall>t\<in>set ts. position t \<noteq> None) \<and> sorted (lst # map (the \<circ> position) ts)"
proof (induction lst ts rule: check_locks.induct)
  case (2 lst want rest)
  show ?case
  proof (cases "position want")
    case (Some p)
    show ?thesis
    proof (cases "p < lst")
      case True
      with Some show ?thesis by auto
    next
      case False
      with 2 [OF Some False] Some show ?thesis by (auto simp: not_less intro: order_trans [of lst p])
    qed
  qed simp
qed simp

lemma validate_lock_order_Inr_iff:
  "validate_lock_order ts = Inr () \<longleftrightarrow>
     (\<forall>t\<in>set ts. position t \<noteq> None) \<and> sorted (map (the \<circ> position) ts)"
  using position_nonneg by (fastforce simp: validate_lock_order_def check_locks_Inr_iff)

interpretation canonical_locks: ordered_locks row_rank follows_order
proof
  fix ls assume f: "follows_order ls"
  then have pos: "\<forall>l\<in>set ls. position (fst l) \<noteq> None"
    and srt: "sorted (map (the \<circ> position) (map fst ls))"
    unfolding follows_order_def validate_lock_order_Inr_iff by simp_all
  have eq: "map row_rank ls = map (the \<circ> position) (map fst ls)"
    using pos by (auto simp: row_rank_def)
  then show "sorted (map row_rank ls)" using srt by metis
  fix a b assume ab: "a \<in> set ls" "b \<in> set ls" "row_rank a = row_rank b"
  then have "fst a = fst b"
    using pos by (auto simp: row_rank_def split: option.splits intro: position_inj)
  then show "a = b" using f ab by (auto simp: follows_order_def list_all_iff)
next
  show "follows_order []" by (simp add: follows_order_def validate_lock_order_def)
qed

lemma sorted_map_remdups_adj: "sorted (map f (remdups_adj xs)) = sorted (map f xs)"
  by (induction xs rule: remdups_adj.induct) auto

lemma distinct_remdups_adj_sorted:
  "sorted (map f xs) \<Longrightarrow> inj_on f (set xs) \<Longrightarrow> distinct (remdups_adj xs)"
proof (induction xs rule: remdups_adj.induct)
  case (3 x y xs)
  have le: "f x \<le> f y" "\<forall>z\<in>set (y # xs). f y \<le> f z" using "3.prems"(1) by auto
  show ?case
  proof (cases "x = y")
    case False
    then have "f x \<noteq> f y" using "3.prems"(2) by (auto simp: inj_on_def)
    with le have "x \<notin> set (y # xs)" by fastforce
    with False 3 show ?thesis by (auto simp: inj_on_def)
  qed (use 3 in auto)
qed auto

lemma canonical_positions: "sorted (map (the \<circ> position) CANONICAL_ORDER)" "distinct CANONICAL_ORDER"
  "inj_on (the \<circ> position) (set CANONICAL_ORDER)"
  by (simp_all add: CANONICAL_ORDER_def position_eq)

subsection \<open>Properties\<close>

text \<open>
  \<open>validate_lock_order\<close> accepts exactly the sequences that, once a lock repeated in place is
  counted once, form a subsequence of the canonical order.
\<close>

theorem lock_order_accepts_subsequences:
  "validate_lock_order ts = Inr () \<longleftrightarrow> subseq (remdups_adj ts) CANONICAL_ORDER"
proof -
  let ?f = "the \<circ> position" and ?xs = "remdups_adj ts"
  have "validate_lock_order ts = Inr () \<longleftrightarrow> set ?xs \<subseteq> set CANONICAL_ORDER \<and> sorted (map ?f ?xs)"
    unfolding validate_lock_order_Inr_iff sorted_map_remdups_adj
    using position_None_iff by auto
  also have "\<dots> \<longleftrightarrow> subseq ?xs CANONICAL_ORDER"
  proof (intro iffI conjI)
    assume a: "set ?xs \<subseteq> set CANONICAL_ORDER \<and> sorted (map ?f ?xs)"
    have inj: "inj_on ?f (set ?xs)" using canonical_positions(3) a inj_on_subset by blast
    have dis: "distinct ?xs"
      using a inj distinct_remdups_adj_sorted [of ?f ts] by (simp add: sorted_map_remdups_adj)
    let ?ys = "filter (\<lambda>t. t \<in> set ?xs) CANONICAL_ORDER"
    have "sorted (map ?f ?ys)" using canonical_positions(1) by (rule sorted_filter)
    moreover have "set ?ys = set ?xs" using a by auto
    moreover have "distinct (map ?f ?ys)"
      using canonical_positions inj_on_subset by (fastforce simp: distinct_map)
    ultimately have "?xs = ?ys"
      using a dis inj
      by (intro map_sorted_distinct_set_unique [of ?f]) (auto simp: distinct_map)
    then show "subseq ?xs CANONICAL_ORDER" by (metis subseq_filter_left)
  next
    assume s: "subseq ?xs CANONICAL_ORDER"
    show "set ?xs \<subseteq> set CANONICAL_ORDER"
    proof
      fix t assume "t \<in> set ?xs"
      then show "t \<in> set CANONICAL_ORDER" using list_emb_set [OF s] by blast
    qed
    have "subseq (map ?f ?xs) (map ?f CANONICAL_ORDER)" using s by (rule subseq_map)
    then show "sorted (map ?f ?xs)"
      using canonical_positions(1) by (auto simp: subseq_conv_nths intro: sorted_nths)
  qed
  finally show ?thesis .
qed

text \<open>
  The validation compares tokens only.  Two plans that take the rows of two sessions in opposite orders
  pass it, and their transactions can block each other for good.
\<close>

lemma two_rows_of_a_token_deadlock:
  fixes a b :: "'k"
  assumes "a \<noteq> b"
  defines "tok \<equiv> (''sessions'', '''')"
  defines "sys \<equiv> [\<lparr>tx_held = [], tx_todo = [(tok, a), (tok, b)]\<rparr>, \<lparr>tx_held = [], tx_todo = [(tok, b), (tok, a)]\<rparr>]"
  shows "(\<forall>t\<in>set sys. validate_lock_order (map fst (tx_todo t)) = Inr ())
    \<and> (\<exists>sys'. lock_step\<^sup>*\<^sup>* sys sys' \<and> \<not> all_finished sys' \<and> \<not> (\<exists>sys''. lock_step sys' sys''))"
proof
  show "\<forall>t\<in>set sys. validate_lock_order (map fst (tx_todo t)) = Inr ()"
    by (simp add: sys_def tok_def validate_lock_order_def position_eq)
  let ?s1 = "[\<lparr>tx_held = [(tok, a)], tx_todo = [(tok, b)]\<rparr>, \<lparr>tx_held = [], tx_todo = [(tok, b), (tok, a)]\<rparr>]"
  let ?s2 = "[\<lparr>tx_held = [(tok, a)], tx_todo = [(tok, b)]\<rparr>, \<lparr>tx_held = [(tok, b)], tx_todo = [(tok, a)]\<rparr>]"
  have "lock_step sys ?s1"
    using lock_step.take [of 0 sys "(tok, a)" "[(tok, b)]"] by (auto simp: sys_def less_Suc_eq)
  moreover have "lock_step ?s1 ?s2"
    using lock_step.take [of 1 ?s1 "(tok, b)" "[(tok, a)]"] assms(1) by (auto simp: less_Suc_eq)
  ultimately have "lock_step\<^sup>*\<^sup>* sys ?s2" by (meson converse_rtranclp_into_rtranclp r_into_rtranclp)
  moreover have "\<not> lock_step ?s2 sys''" for sys''
  proof
    assume "lock_step ?s2 sys''"
    then obtain i where i: "i < length ?s2"
      and t: "(\<exists>l ls. tx_todo (?s2 ! i) = l # ls \<and> (\<forall>j<length ?s2. j \<noteq> i \<longrightarrow> l \<notin> set (tx_held (?s2 ! j)))) \<or> tx_todo (?s2 ! i) = []"
      by (elim lock_stepE) blast+
    from i have "i = 0 \<or> i = 1" by auto
    then show False
    proof
      assume "i = 0"
      with t have "(tok, b) \<notin> set (tx_held (?s2 ! 1))" by auto
      then show False by simp
    next
      assume "i = 1"
      with t have "(tok, a) \<notin> set (tx_held (?s2 ! 0))" by auto
      then show False by simp
    qed
  qed
  ultimately show "\<exists>sys'. lock_step\<^sup>*\<^sup>* sys sys' \<and> \<not> all_finished sys' \<and> \<not> (\<exists>sys''. lock_step sys' sys'')"
    by (intro exI [of _ ?s2]) (simp add: all_finished_def)
qed

text \<open>
  C37.  Transactions that start without a lock, whose lock plans pass the validation and name at most
  one row for each token (one session, one attempt), never deadlock: whatever steps were taken, either
  all transactions are done or some transaction can take its next lock or end; and no lock is ever held
  twice.  The condition on the rows is needed, because the validation does not see them.
\<close>

theorem canonical_order_never_deadlocks:
  assumes "\<forall>t\<in>set sys. tx_held t = [] \<and> follows_order (tx_todo t)"
    and "lock_step\<^sup>*\<^sup>* sys sys'"
  shows "(all_finished sys' \<or> (\<exists>sys''. lock_step sys' sys'')) \<and> exclusive sys'"
proof -
  have d: "canonical_locks.disciplined sys" using assms(1) by (auto simp: canonical_locks.disciplined_def)
  have e: "exclusive sys" using assms(1) by (auto simp: exclusive_def dest!: nth_mem)
  show ?thesis
    using canonical_locks.no_deadlock canonical_locks.disciplined_run [OF assms(2) d]
      canonical_locks.exclusive_run [OF assms(2) e] by blast
qed

theorem canonical_order_never_deadlocks_witness:
  "\<exists>sys''. lock_step
     [\<lparr>tx_held = [], tx_todo = [((''sessions'', ''''), 7), ((''commit_attempts'', ''''), 8)]\<rparr>,
      \<lparr>tx_held = [], tx_todo = [((''sessions'', ''''), 7), ((''domain_revisions'', ''knowledge''), 0)]\<rparr>]
     (sys'' :: row_lock txn list)"
proof -
  let ?sys = "[\<lparr>tx_held = [], tx_todo = [((''sessions'', ''''), 7), ((''commit_attempts'', ''''), 8)]\<rparr>,
      \<lparr>tx_held = [], tx_todo = [((''sessions'', ''''), 7), ((''domain_revisions'', ''knowledge''), 0)]\<rparr>]
      :: row_lock txn list"
  have "\<forall>t\<in>set ?sys. tx_held t = [] \<and> follows_order (tx_todo t)"
    by (simp add: follows_order_def validate_lock_order_def position_eq)
  from canonical_order_never_deadlocks [OF this rtranclp.rtrancl_refl]
  show ?thesis by (simp add: all_finished_def)
qed

text \<open>
  The lock plans of the code against the order: a session commit (with and without the
  dependency graph), the cascade and the reconciler follow it; the change of the source graph
  does not (its first row is not in the order and the head row comes after it).  The commit set
  is taken exactly when all its rows exist.
\<close>

theorem lock_plans_of_the_code:
  "validate_lock_order (commit_lock_plan b) = Inr ()
   \<and> validate_lock_order cascade_lock_plan = Inr ()
   \<and> validate_lock_order reconcile_lock_plan = Inr ()
   \<and> (\<exists>m. validate_lock_order source_graph_lock_plan = Inl (LockOrderViolation m))
   \<and> ((\<exists>l. lock_commit_set d s a b = Inr l) \<longleftrightarrow>
        get_session d s \<noteq> None \<and> get_revision d ''knowledge'' \<noteq> None \<and>
        (if b then get_revision d ''dependency_graph'' \<noteq> None else True) \<and> get_attempt d a \<noteq> None)"
proof -
  have plan: "validate_lock_order (commit_lock_plan b) = Inr ()"
    by (auto simp: commit_lock_plan_def validate_lock_order_def position_eq)
  then show ?thesis
    by (auto simp: lock_commit_set_def cascade_lock_plan_def reconcile_lock_plan_def
        source_graph_lock_plan_def validate_lock_order_def position_eq)
qed

end
