(* ===== verification/Lease.thy ===== *)
theory Lease
  imports Store
begin

section \<open>The session lease\<close>

text \<open>
  \<open>packages/domain/services/lease.py\<close>: the lease is a conditional UPDATE of the session row, the
  heartbeat renews it while it is live and before the phase deadline, and the heartbeat guard
  renews it in the background of a long operation.

  \<open>clock_timestamp()\<close> is volatile: each evaluation inside one statement is a reading of its own.  A
  \<open>clock\<close> gives the readings of one statement in the order of evaluation, the condition first;
  time does not run backwards in a \<open>steady\<close> one.  \<open>is_live\<close> reads \<open>now()\<close>, the start of the
  transaction.

  The locales \<open>exclusive_holder\<close> and \<open>renewable_holder\<close> are the contract of a lease: at most one
  live holder, tenure until expiry, and requests of others without effect while it lasts.  The
  session lease and the knowledge writer gate interpret them.
\<close>

type_synonym clock = "nat \<Rightarrow> instant"

definition steady :: "clock \<Rightarrow> bool" where
  "steady c \<longleftrightarrow> (\<forall>n. c 0 \<le> c n)"

text \<open>Comparison with a nullable timestamp: an SQL condition on NULL does not select the row.\<close>

definition is_before :: "instant option \<Rightarrow> instant \<Rightarrow> bool" where
  "is_before x t = (case x of None \<Rightarrow> False | Some y \<Rightarrow> y < t)"

definition is_after :: "instant option \<Rightarrow> instant \<Rightarrow> bool" where
  "is_after x t = (case x of None \<Rightarrow> False | Some y \<Rightarrow> t < y)"

definition DEFAULT_LEASE_TTL :: duration where
  "DEFAULT_LEASE_TTL = 30 * 1000000"

definition DEFAULT_PHASE_DEADLINE :: duration where
  "DEFAULT_PHASE_DEADLINE = 600 * 1000000"

subsection \<open>Operations\<close>

definition acquire_where :: "string \<Rightarrow> clock \<Rightarrow> session_row \<Rightarrow> bool" where
  "acquire_where owner c s \<longleftrightarrow>
     sess_state s \<notin> {SS_SUCCEEDED, SS_SUCCEEDED_PARTIAL, SS_FAILED, SS_CANCELLED, SS_RECONCILING_COMMIT} \<and>
     (sess_lease_owner s = None \<or> is_before (sess_lease_expires_at s) (c 0) \<or>
      sess_lease_owner s = Some owner)"

definition acquire_set :: "duration \<Rightarrow> duration \<Rightarrow> string \<Rightarrow> clock \<Rightarrow> session_row \<Rightarrow> session_row" where
  "acquire_set ttl deadline owner c s =
     s\<lparr>sess_lease_owner := Some owner,
       sess_lease_expires_at := Some (c 1 + ttl),
       sess_last_heartbeat_at := Some (c 2),
       sess_last_progress_at := Some (c 3),
       sess_phase_deadline := Some (c 4 + deadline)\<rparr>"

definition lease_acquire ::
  "duration \<Rightarrow> duration \<Rightarrow> clock \<Rightarrow> uuid \<Rightarrow> string \<Rightarrow> db \<Rightarrow> exn + db" where
  "lease_acquire ttl deadline c session_id owner d =
     (let sel = (\<lambda>s. sess_id s = session_id \<and> acquire_where owner c s) in
      if list_ex sel (db_sessions d)
      then Inr (update_session sel (acquire_set ttl deadline owner c) d)
      else Inl (LeaseLost (''cannot acquire lease for session '' @ uuid_str session_id)))"

definition heartbeat_where :: "string \<Rightarrow> clock \<Rightarrow> session_row \<Rightarrow> bool" where
  "heartbeat_where owner c s \<longleftrightarrow>
     sess_lease_owner s = Some owner \<and> is_after (sess_lease_expires_at s) (c 0) \<and>
     (sess_phase_deadline s = None \<or> is_after (sess_phase_deadline s) (c 1))"

definition heartbeat_set :: "duration \<Rightarrow> bool \<Rightarrow> clock \<Rightarrow> session_row \<Rightarrow> session_row" where
  "heartbeat_set ttl progress c s =
     (let s1 = s\<lparr>sess_lease_expires_at := Some (c 2 + ttl), sess_last_heartbeat_at := Some (c 3)\<rparr>
      in if progress then s1\<lparr>sess_last_progress_at := Some (c 4)\<rparr> else s1)"

definition lease_heartbeat ::
  "duration \<Rightarrow> bool \<Rightarrow> clock \<Rightarrow> uuid \<Rightarrow> string \<Rightarrow> db \<Rightarrow> exn + db" where
  "lease_heartbeat ttl progress c session_id owner d =
     (let sel = (\<lambda>s. sess_id s = session_id \<and> heartbeat_where owner c s) in
      if list_ex sel (db_sessions d)
      then Inr (update_session sel (heartbeat_set ttl progress c) d)
      else Inl (LeaseLost (''heartbeat refused for session '' @ uuid_str session_id)))"

definition release_set :: "session_row \<Rightarrow> session_row" where
  "release_set s = s\<lparr>sess_lease_owner := None, sess_lease_expires_at := None\<rparr>"

definition lease_release :: "uuid \<Rightarrow> string \<Rightarrow> db \<Rightarrow> db" where
  "lease_release session_id owner d =
     update_session (\<lambda>s. sess_id s = session_id \<and> sess_lease_owner s = Some owner) release_set d"

definition is_live :: "db \<Rightarrow> uuid \<Rightarrow> string \<Rightarrow> bool" where
  "is_live d session_id owner =
     list_ex (\<lambda>s. sess_id s = session_id \<and> sess_lease_owner s = Some owner \<and>
       is_after (sess_lease_expires_at s) (db_now d)) (db_sessions d)"

record lease_state =
  ls_owner :: "string option"
  ls_expires_at :: "instant option"
  ls_last_heartbeat_at :: "instant option"
  ls_last_progress_at :: "instant option"
  ls_phase_deadline :: "instant option"

definition lease_state_of :: "db \<Rightarrow> uuid \<Rightarrow> lease_state option" where
  "lease_state_of d session_id =
     (case get_session d session_id of
        None \<Rightarrow> None
      | Some s \<Rightarrow> Some \<lparr>ls_owner = sess_lease_owner s, ls_expires_at = sess_lease_expires_at s,
          ls_last_heartbeat_at = sess_last_heartbeat_at s,
          ls_last_progress_at = sess_last_progress_at s,
          ls_phase_deadline = sess_phase_deadline s\<rparr>)"

subsection \<open>The heartbeat guard\<close>

text \<open>
  The renewals of the guard, each on the caller's transaction: a renewal runs with the readings of
  its clock, or fails on infrastructure (\<open>None\<close>) and is retried at the next interval.  The loop
  ends at a refused renewal.  At exit the renewal in flight, if any, is drained.
\<close>

fun renew_loop :: "duration \<Rightarrow> uuid \<Rightarrow> string \<Rightarrow> clock option list \<Rightarrow> db \<Rightarrow> bool \<times> db" where
  "renew_loop ttl sid owner [] d = (False, d)"
| "renew_loop ttl sid owner (None # rs) d = renew_loop ttl sid owner rs d"
| "renew_loop ttl sid owner (Some c # rs) d =
     (case lease_heartbeat ttl False c sid owner d of
        Inl e \<Rightarrow> (True, d)
      | Inr d' \<Rightarrow> renew_loop ttl sid owner rs d')"

definition guard_exit ::
  "duration \<Rightarrow> uuid \<Rightarrow> string \<Rightarrow> clock option list \<Rightarrow> clock option option \<Rightarrow> db \<Rightarrow> exn option \<times> db" where
  "guard_exit ttl sid owner renewals inflight d =
     (let (lost, d1) = renew_loop ttl sid owner renewals d;
          (lost', d2) = (if lost then (True, d1)
             else case inflight of None \<Rightarrow> (False, d1) | Some r \<Rightarrow> renew_loop ttl sid owner [r] d1)
      in (if lost'
          then Some (LeaseLost (''lease lost during long operation for session '' @ uuid_str sid))
          else None, d2))"

subsection \<open>The contract of a lease\<close>

datatype ('o, 'c) holder_call = Acquire 'o duration 'c | Release 'o

primrec caller :: "('o, 'c) holder_call \<Rightarrow> 'o" where
  "caller (Acquire p ttl c) = p"
| "caller (Release p) = p"

locale exclusive_holder =
  fixes acquire :: "'o \<Rightarrow> duration \<Rightarrow> 'c \<Rightarrow> 's \<Rightarrow> 's option"
    and release :: "'o \<Rightarrow> 's \<Rightarrow> 's"
    and holder :: "'s \<Rightarrow> instant \<Rightarrow> 'o option"
    and time :: "'c \<Rightarrow> instant"
    and clock_ok :: "'c \<Rightarrow> bool"
  assumes no_theft: "\<lbrakk> holder s (time c) = Some p; p \<noteq> q \<rbrakk> \<Longrightarrow> acquire q ttl c s = None"
    and acquired: "\<lbrakk> acquire q ttl c s = Some s'; clock_ok c; u < time c + ttl \<rbrakk> \<Longrightarrow> holder s' u = Some q"
    and released: "holder (release q s) t \<noteq> Some q"
    and release_foreign: "\<lbrakk> holder s t = Some p; p \<noteq> q \<rbrakk> \<Longrightarrow> release q s = s"
begin

definition serve :: "('o, 'c) holder_call \<Rightarrow> 's \<Rightarrow> 's" where
  "serve call s = (case call of
     Acquire p ttl c \<Rightarrow> (case acquire p ttl c s of None \<Rightarrow> s | Some s' \<Rightarrow> s')
   | Release p \<Rightarrow> release p s)"

definition call_before :: "instant \<Rightarrow> ('o, 'c) holder_call \<Rightarrow> bool" where
  "call_before e call = (case call of Acquire p ttl c \<Rightarrow> time c < e | Release p \<Rightarrow> True)"

text \<open>While a holder is live, the calls of others change nothing.\<close>

lemma foreign_calls_idle:
  assumes "\<And>u. u < e \<Longrightarrow> holder s u = Some p"
    and "\<forall>call\<in>set calls. caller call \<noteq> p \<and> call_before e call"
  shows "fold serve calls s = s"
  using assms(2)
proof (induction calls)
  case (Cons call calls)
  have "serve call s = s"
  proof (cases call)
    case (Acquire q ttl c)
    then have "acquire q ttl c s = None"
      using Cons.prems assms(1) by (intro no_theft [of s c p]) (auto simp: call_before_def)
    with Acquire show ?thesis by (simp add: serve_def)
  next
    case (Release q)
    have "holder s (e - 1) = Some p" using assms(1) by simp
    with Release Cons.prems show ?thesis by (auto simp: serve_def intro: release_foreign)
  qed
  with Cons show ?case by simp
qed simp

lemma tenure:
  assumes "acquire p ttl c s = Some s'" and "clock_ok c"
    and "\<forall>call\<in>set calls. caller call \<noteq> p \<and> call_before (time c + ttl) call"
    and "u < time c + ttl"
  shows "holder (fold serve calls s') u = Some p"
proof -
  have h: "holder s' v = Some p" if "v < time c + ttl" for v
    using acquired [OF assms(1,2) that] .
  with foreign_calls_idle [OF h assms(3)] assms(4) show ?thesis by simp
qed

end

locale renewable_holder =
  exclusive_holder acquire release holder time clock_ok
  for acquire :: "'o \<Rightarrow> duration \<Rightarrow> 'c \<Rightarrow> 's \<Rightarrow> 's option"
    and release :: "'o \<Rightarrow> 's \<Rightarrow> 's"
    and holder :: "'s \<Rightarrow> instant \<Rightarrow> 'o option"
    and time :: "'c \<Rightarrow> instant"
    and clock_ok :: "'c \<Rightarrow> bool" +
  fixes renew :: "'o \<Rightarrow> duration \<Rightarrow> 'c \<Rightarrow> 's \<Rightarrow> 's option"
  assumes renew_holder: "renew q ttl c s = Some s' \<Longrightarrow> holder s (time c) = Some q"
    and renewed: "\<lbrakk> renew q ttl c s = Some s'; clock_ok c; u < time c + ttl \<rbrakk> \<Longrightarrow> holder s' u = Some q"
begin

lemma renew_refused: "holder s (time c) \<noteq> Some q \<Longrightarrow> renew q ttl c s = None"
  using renew_holder by (cases "renew q ttl c s") auto

end

subsection \<open>The session lease keeps the contract\<close>

text \<open>The operations on the one row they select.\<close>

definition acquire_row :: "duration \<Rightarrow> string \<Rightarrow> duration \<Rightarrow> clock \<Rightarrow> session_row \<Rightarrow> session_row option" where
  "acquire_row deadline p ttl c s =
     (if acquire_where p c s then Some (acquire_set ttl deadline p c s) else None)"

definition heartbeat_row :: "bool \<Rightarrow> string \<Rightarrow> duration \<Rightarrow> clock \<Rightarrow> session_row \<Rightarrow> session_row option" where
  "heartbeat_row progress p ttl c s =
     (if heartbeat_where p c s then Some (heartbeat_set ttl progress c s) else None)"

definition release_row :: "string \<Rightarrow> session_row \<Rightarrow> session_row" where
  "release_row p s = (if sess_lease_owner s = Some p then release_set s else s)"

definition lease_holder :: "session_row \<Rightarrow> instant \<Rightarrow> string option" where
  "lease_holder s t = (if is_after (sess_lease_expires_at s) t then sess_lease_owner s else None)"

lemmas lease_row_defs =
  acquire_row_def acquire_where_def acquire_set_def heartbeat_row_def heartbeat_where_def
  heartbeat_set_def release_row_def release_set_def lease_holder_def is_before_def is_after_def

lemma steadyD: "steady c \<Longrightarrow> c 0 \<le> c n"
  by (simp add: steady_def)

interpretation session_lease:
  renewable_holder "acquire_row deadline" release_row lease_holder "\<lambda>c. c 0" steady
    "heartbeat_row progress" for deadline progress
proof
  fix s c p q ttl s' u t
  show "lease_holder s (c 0) = Some p \<Longrightarrow> p \<noteq> q \<Longrightarrow> acquire_row deadline q ttl c s = None"
    by (auto simp: lease_row_defs split: if_splits option.splits)
  show "acquire_row deadline q ttl c s = Some s' \<Longrightarrow> steady c \<Longrightarrow> u < c 0 + ttl \<Longrightarrow>
      lease_holder s' u = Some q"
    using steadyD [of c 1] by (auto simp: lease_row_defs split: if_splits)
  show "lease_holder (release_row q s) t \<noteq> Some q"
    by (auto simp: lease_row_defs split: if_splits)
  show "lease_holder s t = Some p \<Longrightarrow> p \<noteq> q \<Longrightarrow> release_row q s = s"
    by (auto simp: lease_row_defs split: if_splits)
  show "heartbeat_row progress q ttl c s = Some s' \<Longrightarrow> lease_holder s (c 0) = Some q"
    by (auto simp: lease_row_defs split: if_splits option.splits)
  show "heartbeat_row progress q ttl c s = Some s' \<Longrightarrow> steady c \<Longrightarrow> u < c 0 + ttl \<Longrightarrow>
      lease_holder s' u = Some q"
    using steadyD [of c 2] by (auto simp: lease_row_defs Let_def split: if_splits)
qed

subsection \<open>From rows to the table\<close>

text \<open>Replacing the row of a session.\<close>

definition put_session :: "session_row \<Rightarrow> db \<Rightarrow> db" where
  "put_session s d = update_session (\<lambda>r. sess_id r = sess_id s) (\<lambda>_. s) d"

definition unique_sessions :: "db \<Rightarrow> bool" where
  "unique_sessions d \<longleftrightarrow> distinct (map sess_id (db_sessions d))"

lemma get_session_SomeD: "get_session d i = Some s \<Longrightarrow> s \<in> set (db_sessions d) \<and> sess_id s = i"
  unfolding get_session_def by (rule tbl_get_SomeD)

lemma unique_session_eq:
  "unique_sessions d \<Longrightarrow> get_session d i = Some s \<Longrightarrow> r \<in> set (db_sessions d) \<Longrightarrow> sess_id r = i \<Longrightarrow> r = s"
  unfolding unique_sessions_def get_session_def using tbl_get_distinct [of sess_id] by fastforce

lemma list_ex_session:
  assumes "unique_sessions d"
  shows "list_ex (\<lambda>s. sess_id s = i \<and> P s) (db_sessions d) \<longleftrightarrow>
     (case get_session d i of None \<Rightarrow> False | Some s \<Rightarrow> P s)"
proof (cases "get_session d i")
  case None
  then have "\<forall>s\<in>set (db_sessions d). sess_id s \<noteq> i" by (auto simp: get_session_def tbl_get_None_iff)
  with None show ?thesis by (auto simp: list_ex_iff)
next
  case (Some s)
  then show ?thesis
    using unique_session_eq [OF assms Some] get_session_SomeD [OF Some] by (auto simp: list_ex_iff)
qed

lemma update_session_one:
  assumes "unique_sessions d" and "get_session d i = Some s"
  shows "update_session (\<lambda>r. sess_id r = i \<and> P r) f d =
     (if P s then update_session (\<lambda>r. sess_id r = i) (\<lambda>_. f s) d else d)"
proof (cases "P s")
  case True
  have "tbl_update (\<lambda>r. sess_id r = i \<and> P r) f (db_sessions d)
      = tbl_update (\<lambda>r. sess_id r = i) (\<lambda>_. f s) (db_sessions d)"
    unfolding tbl_update_def using unique_session_eq [OF assms] True by (intro map_cong) auto
  with True show ?thesis by (simp add: update_session_def)
next
  case False
  have "tbl_update (\<lambda>r. sess_id r = i \<and> P r) f (db_sessions d) = db_sessions d"
    using unique_session_eq [OF assms] False by (intro tbl_update_none) auto
  with False show ?thesis by (simp add: update_session_def)
qed

lemma get_put_session:
  "get_session (put_session s d) i =
     (if i = sess_id s then map_option (\<lambda>_. s) (get_session d i) else get_session d i)"
proof -
  have "tbl_get sess_id i (tbl_update (\<lambda>r. sess_id r = sess_id s) (\<lambda>_. s) t) =
      (if i = sess_id s then map_option (\<lambda>_. s) (tbl_get sess_id i t) else tbl_get sess_id i t)" for t
    by (induction t) auto
  then show ?thesis by (simp add: put_session_def get_session_def)
qed

lemma unique_put_session: "unique_sessions d \<Longrightarrow> unique_sessions (put_session s d)"
proof -
  have "map sess_id (tbl_update (\<lambda>r. sess_id r = sess_id s) (\<lambda>_. s) t) = map sess_id t" for t
    by (induction t) auto
  then show "unique_sessions d \<Longrightarrow> unique_sessions (put_session s d)"
    by (simp add: unique_sessions_def put_session_def)
qed

lemma db_now_put_session [simp]: "db_now (put_session s d) = db_now d"
  by (simp add: put_session_def)

lemma lease_acquire_row:
  assumes "unique_sessions d"
  shows "lease_acquire ttl deadline c i p d =
     (case get_session d i of None \<Rightarrow> Inl (LeaseLost (''cannot acquire lease for session '' @ uuid_str i))
      | Some s \<Rightarrow> (case acquire_row deadline p ttl c s of
          None \<Rightarrow> Inl (LeaseLost (''cannot acquire lease for session '' @ uuid_str i))
        | Some s' \<Rightarrow> Inr (put_session s' d)))"
  unfolding lease_acquire_def Let_def list_ex_session [OF assms]
  by (auto simp: update_session_one [OF assms] acquire_row_def put_session_def acquire_set_def
      get_session_def dest: tbl_get_SomeD split: option.splits)

lemma lease_heartbeat_row:
  assumes "unique_sessions d"
  shows "lease_heartbeat ttl progress c i p d =
     (case get_session d i of None \<Rightarrow> Inl (LeaseLost (''heartbeat refused for session '' @ uuid_str i))
      | Some s \<Rightarrow> (case heartbeat_row progress p ttl c s of
          None \<Rightarrow> Inl (LeaseLost (''heartbeat refused for session '' @ uuid_str i))
        | Some s' \<Rightarrow> Inr (put_session s' d)))"
  unfolding lease_heartbeat_def Let_def list_ex_session [OF assms]
  by (auto simp: update_session_one [OF assms] heartbeat_row_def put_session_def heartbeat_set_def
      Let_def get_session_def dest: tbl_get_SomeD split: option.splits)

lemma lease_release_row:
  assumes "unique_sessions d" and "get_session d i = Some s"
  shows "lease_release i p d = (if sess_lease_owner s = Some p then put_session (release_row p s) d else d)"
  unfolding lease_release_def update_session_one [OF assms]
  using get_session_SomeD [OF assms(2)]
  by (auto simp: put_session_def release_row_def release_set_def)

lemma is_live_row:
  "unique_sessions d \<Longrightarrow> is_live d i p \<longleftrightarrow>
     (case get_session d i of None \<Rightarrow> False | Some s \<Rightarrow> lease_holder s (db_now d) = Some p)"
  unfolding is_live_def list_ex_session
  by (auto simp: lease_holder_def split: option.splits)

subsection \<open>Calls of several owners\<close>

text \<open>
  A call on one session; a refused call leaves the database unchanged.
\<close>

datatype lease_call =
    LAcquire string duration duration clock
  | LHeartbeat string duration bool clock
  | LRelease string

primrec lease_caller :: "lease_call \<Rightarrow> string" where
  "lease_caller (LAcquire p ttl deadline c) = p"
| "lease_caller (LHeartbeat p ttl progress c) = p"
| "lease_caller (LRelease p) = p"

primrec lease_call_before :: "instant \<Rightarrow> lease_call \<Rightarrow> bool" where
  "lease_call_before e (LAcquire p ttl deadline c) = (c 0 < e)"
| "lease_call_before e (LHeartbeat p ttl progress c) = (c 0 < e)"
| "lease_call_before e (LRelease p) = True"

primrec lease_serve :: "uuid \<Rightarrow> lease_call \<Rightarrow> db \<Rightarrow> exn + db" where
  "lease_serve i (LAcquire p ttl deadline c) d = lease_acquire ttl deadline c i p d"
| "lease_serve i (LHeartbeat p ttl progress c) d = lease_heartbeat ttl progress c i p d"
| "lease_serve i (LRelease p) d = Inr (lease_release i p d)"

fun lease_run :: "uuid \<Rightarrow> lease_call list \<Rightarrow> db \<Rightarrow> db" where
  "lease_run i [] d = d"
| "lease_run i (call # calls) d =
     lease_run i calls (case lease_serve i call d of Inl e \<Rightarrow> d | Inr d' \<Rightarrow> d')"

lemma foreign_lease_call:
  assumes u: "unique_sessions d" and s: "get_session d i = Some s"
    and h: "\<And>v. v < e \<Longrightarrow> lease_holder s v = Some p"
    and q: "lease_caller call \<noteq> p" and b: "lease_call_before e call"
  shows "lease_serve i call d = Inr d \<or> (\<exists>m. lease_serve i call d = Inl (LeaseLost m))"
proof (cases call)
  case (LAcquire q ttl deadline c)
  then have "acquire_row deadline q ttl c s = None"
    using h b q by (intro session_lease.no_theft [of s c p]) auto
  with LAcquire s show ?thesis by (simp add: lease_acquire_row [OF u])
next
  case (LHeartbeat q ttl progress c)
  then have "heartbeat_row progress q ttl c s = None"
    using h b q by (intro session_lease.renew_refused) auto
  with LHeartbeat s show ?thesis by (simp add: lease_heartbeat_row [OF u])
next
  case (LRelease q)
  have "lease_holder s (e - 1) = Some p" using h by simp
  with LRelease q have "sess_lease_owner s \<noteq> Some q" by (auto simp: lease_holder_def split: if_splits)
  with LRelease show ?thesis by (simp add: lease_release_row [OF u s])
qed

lemma foreign_lease_run:
  assumes u: "unique_sessions d" and s: "get_session d i = Some s"
    and h: "\<And>v. v < e \<Longrightarrow> lease_holder s v = Some p"
    and "\<forall>call\<in>set calls. lease_caller call \<noteq> p \<and> lease_call_before e call"
  shows "lease_run i calls d = d"
  using assms(4)
proof (induction calls)
  case (Cons call calls)
  then have "lease_serve i call d = Inr d \<or> (\<exists>m. lease_serve i call d = Inl (LeaseLost m))"
    using foreign_lease_call [OF u s h] by auto
  with Cons show ?case by auto
qed simp

lemma acquire_row_id: "acquire_row deadline p ttl c s = Some s' \<Longrightarrow> sess_id s' = sess_id s"
  by (auto simp: acquire_row_def acquire_set_def split: if_splits)

lemma heartbeat_row_fields:
  "heartbeat_row progress p ttl c s = Some s' \<Longrightarrow>
     sess_id s' = sess_id s \<and> sess_phase_deadline s' = sess_phase_deadline s
     \<and> sess_lease_expires_at s' = Some (c 2 + ttl) \<and> sess_lease_owner s' = Some p
     \<and> (sess_phase_deadline s = None \<or> is_after (sess_phase_deadline s) (c 1))"
  by (auto simp: heartbeat_row_def heartbeat_where_def heartbeat_set_def Let_def split: if_splits)

lemma lease_acquireE:
  assumes "unique_sessions d" and "lease_acquire ttl deadline c i p d = Inr d1"
  obtains s s' where "get_session d i = Some s" "acquire_row deadline p ttl c s = Some s'"
    "d1 = put_session s' d" "get_session d1 i = Some s'" "unique_sessions d1"
proof -
  from assms obtain s s' where s: "get_session d i = Some s" "acquire_row deadline p ttl c s = Some s'"
    "d1 = put_session s' d"
    by (auto simp: lease_acquire_row split: option.splits)
  moreover have "get_session d1 i = Some s'"
    using s get_session_SomeD [OF s(1)] acquire_row_id [OF s(2)] by (simp add: get_put_session)
  ultimately show ?thesis using that unique_put_session [OF assms(1)] by blast
qed

subsection \<open>Facts about the guard\<close>

lemma renew_loop_bound:
  assumes "unique_sessions d" and "get_session d i = Some s" and "sess_phase_deadline s = Some dl"
    and "\<forall>c. Some c \<in> set rs \<longrightarrow> c 2 \<le> c 1 + jitter"
    and "renew_loop ttl i p rs d = (lost, d')"
  shows "\<exists>s'. get_session d' i = Some s' \<and> unique_sessions d' \<and> sess_phase_deadline s' = Some dl
     \<and> (sess_lease_expires_at s' = sess_lease_expires_at s
        \<or> (\<exists>x. sess_lease_expires_at s' = Some x \<and> x < dl + ttl + jitter))
     \<and> ((\<exists>c. Some c \<in> set rs \<and> dl \<le> c 1) \<longrightarrow> lost)"
  using assms
proof (induction ttl i p rs d arbitrary: s rule: renew_loop.induct)
  case (2 ttl sid owner rs d)
  then show ?case by auto
next
  case (3 ttl sid owner c rs d)
  show ?case
  proof (cases "heartbeat_row False owner ttl c s")
    case None
    then have "lease_heartbeat ttl False c sid owner d \<noteq> Inr x" for x
      using 3 by (simp add: lease_heartbeat_row)
    with "3.prems" show ?thesis by (auto split: sum.splits)
  next
    case (Some s1)
    let ?d1 = "put_session s1 d"
    have f: "sess_id s1 = sess_id s" "sess_phase_deadline s1 = Some dl"
      "sess_lease_expires_at s1 = Some (c 2 + ttl)" "c 1 < dl"
      using heartbeat_row_fields [OF Some] "3.prems"(3) by (auto simp: is_after_def)
    have hb: "lease_heartbeat ttl False c sid owner d = Inr ?d1"
      using "3.prems" Some by (simp add: lease_heartbeat_row)
    have g: "get_session ?d1 sid = Some s1"
      using "3.prems"(2) get_session_SomeD [OF "3.prems"(2)] f(1) by (simp add: get_put_session)
    have x: "c 2 + ttl < dl + ttl + jitter" using "3.prems"(4) f(4) by fastforce
    have r: "renew_loop ttl sid owner rs ?d1 = (lost, d')" using "3.prems"(5) hb by simp
    have jit: "\<forall>c. Some c \<in> set rs \<longrightarrow> c 2 \<le> c 1 + jitter" using "3.prems"(4) by simp
    from "3.IH" [OF hb unique_put_session [OF "3.prems"(1)] g f(2) jit r] f(3,4) x
    show ?thesis by auto
  qed
qed auto

lemma guard_exit_None_iff:
  "(\<exists>d'. guard_exit ttl i p rs fl d = (None, d')) \<longleftrightarrow>
     \<not> fst (renew_loop ttl i p (rs @ (case fl of None \<Rightarrow> [] | Some r \<Rightarrow> [r])) d)"
proof -
  have app: "renew_loop ttl i p (rs @ qs) d =
      (if fst (renew_loop ttl i p rs d) then renew_loop ttl i p rs d
       else renew_loop ttl i p qs (snd (renew_loop ttl i p rs d)))" for qs
    by (induction ttl i p rs d rule: renew_loop.induct) (auto split: sum.splits)
  show ?thesis
    by (auto simp: guard_exit_def app Let_def split: prod.splits option.splits)
qed

text \<open>A session row as \<open>ORMSession(config_snapshot_id=...)\<close> creates it.\<close>

definition new_session :: "uuid \<Rightarrow> uuid \<Rightarrow> instant \<Rightarrow> session_row" where
  "new_session i snap t =
     \<lparr>sess_id = i, sess_state = SS_CREATED, sess_lease_owner = None, sess_lease_expires_at = None,
      sess_last_heartbeat_at = None, sess_last_progress_at = None, sess_phase_deadline = None,
      sess_stop_requested_at = None, sess_abort_requested_at = None, sess_commit_intent_at = None,
      sess_commit_attempt_id = None, sess_question_id = None,
      sess_base_workspace_manifest_id = None, sess_committed_workspace_manifest_id = None,
      sess_config_snapshot_id = snap, sess_started_at = None, sess_finished_at = None,
      sess_termination_reason = None, sess_plan = None, sess_plan_sha256 = None,
      sess_verification = None, sess_verification_sha256 = None, sess_extraction = None,
      sess_extraction_sha256 = None, sess_created_at = t\<rparr>"

subsection \<open>Properties\<close>

text \<open>
  C38.  The lease is exclusive: once an owner acquired it, any sequence of acquire, heartbeat and
  release calls of other owners made before it expires leaves the database exactly as it was, and
  every such acquire or heartbeat is refused with LeaseLost; until then the lease reads as live for
  its owner.
\<close>

theorem lease_is_exclusive:
  assumes "unique_sessions d" and "lease_acquire ttl deadline c i p d = Inr d1" and "steady c"
    and "\<forall>call\<in>set calls. lease_caller call \<noteq> p \<and> lease_call_before (c 0 + ttl) call"
    and "t < c 0 + ttl"
  shows "lease_run i calls d1 = d1
     \<and> is_live (d1\<lparr>db_now := t\<rparr>) i p
     \<and> (\<forall>call\<in>set calls. (\<forall>q. call \<noteq> LRelease q) \<longrightarrow> (\<exists>m. lease_serve i call d1 = Inl (LeaseLost m)))"
proof -
  from assms(1,2) obtain s s' where s': "acquire_row deadline p ttl c s = Some s'"
    "get_session d1 i = Some s'" "unique_sessions d1" by (rule lease_acquireE) blast
  have h: "lease_holder s' v = Some p" if "v < c 0 + ttl" for v
    by (rule session_lease.acquired [OF s'(1) assms(3) that])
  have "lease_run i calls d1 = d1" by (rule foreign_lease_run [OF s'(3,2) h assms(4)])
  moreover have "is_live (d1\<lparr>db_now := t\<rparr>) i p"
    using s'(2,3) h [OF assms(5)] by (simp add: is_live_row unique_sessions_def get_session_def)
  moreover have "\<exists>m. lease_serve i call d1 = Inl (LeaseLost m)"
    if call: "call \<in> set calls" "\<forall>q. call \<noteq> LRelease q" for call
  proof (cases call)
    case (LAcquire q ttl' dl' c')
    then have "acquire_row dl' q ttl' c' s' = None"
      using h call assms(4) by (intro session_lease.no_theft [of s' c' p]) auto
    with LAcquire s'(2) show ?thesis by (simp add: lease_acquire_row [OF s'(3)])
  next
    case (LHeartbeat q ttl' progress c')
    then have "heartbeat_row progress q ttl' c' s' = None"
      using h call assms(4) by (intro session_lease.renew_refused) auto
    with LHeartbeat s'(2) show ?thesis by (simp add: lease_heartbeat_row [OF s'(3)])
  qed (use call in auto)
  ultimately show ?thesis by blast
qed

theorem lease_is_exclusive_witness:
  "\<exists>d1. lease_acquire DEFAULT_LEASE_TTL DEFAULT_PHASE_DEADLINE (\<lambda>_. 5) 7 ''a''
       (empty_db\<lparr>db_sessions := [new_session 7 1 0]\<rparr>) = Inr d1
     \<and> lease_run 7 [LAcquire ''b'' 1 1 (\<lambda>_. 6), LRelease ''b''] d1 = d1
     \<and> is_live (d1\<lparr>db_now := 6\<rparr>) 7 ''a''"
proof -
  let ?d = "empty_db\<lparr>db_sessions := [new_session 7 1 0]\<rparr>"
  let ?calls = "[LAcquire ''b'' 1 1 (\<lambda>_. 6), LRelease ''b'']"
  have u: "unique_sessions ?d" by (simp add: unique_sessions_def empty_db_def)
  have sel: "list_ex (\<lambda>s. sess_id s = 7 \<and> acquire_where ''a'' (\<lambda>_. 5) s) (db_sessions ?d)"
    by (simp add: empty_db_def new_session_def acquire_where_def)
  then obtain d1 where a: "lease_acquire DEFAULT_LEASE_TTL DEFAULT_PHASE_DEADLINE (\<lambda>_. 5) 7 ''a'' ?d = Inr d1"
    by (auto simp: lease_acquire_def)
  have st: "steady (\<lambda>_. 5)" by (simp add: steady_def)
  have c: "\<forall>call\<in>set ?calls. lease_caller call \<noteq> ''a'' \<and> lease_call_before (5 + DEFAULT_LEASE_TTL) call"
    by (simp add: DEFAULT_LEASE_TTL_def)
  have t: "6 < 5 + DEFAULT_LEASE_TTL" by (simp add: DEFAULT_LEASE_TTL_def)
  show ?thesis using lease_is_exclusive [OF u a st c t] a by blast
qed

text \<open>
  The watchdog bounds a stuck session: whatever renewals the guard made, the phase deadline
  stays, the lease ends before the deadline plus one TTL (plus the delay between two readings of
  one statement) unless it was never renewed, and a renewal at or after the deadline is refused, so
  that leaving the guard raises LeaseLost.
\<close>

theorem stuck_session_loses_the_lease:
  assumes "unique_sessions d" and "get_session d i = Some s" and "sess_phase_deadline s = Some dl"
    and "\<forall>c\<in>set cs. c 2 \<le> c 1 + jitter"
    and "guard_exit ttl i p (map Some cs) None d = (out, d')"
  shows "(\<exists>s'. get_session d' i = Some s' \<and> sess_phase_deadline s' = Some dl
        \<and> (sess_lease_expires_at s' = sess_lease_expires_at s
           \<or> (\<exists>x. sess_lease_expires_at s' = Some x \<and> x < dl + ttl + jitter)))
     \<and> ((\<exists>c\<in>set cs. dl \<le> c 1) \<longrightarrow>
          out = Some (LeaseLost (''lease lost during long operation for session '' @ uuid_str i)))"
proof -
  obtain lost d1 where r: "renew_loop ttl i p (map Some cs) d = (lost, d1)" by fastforce
  have o: "d' = d1" "out = (if lost
      then Some (LeaseLost (''lease lost during long operation for session '' @ uuid_str i)) else None)"
    using assms(5) r by (auto simp: guard_exit_def split: if_splits)
  have "\<forall>c. Some c \<in> set (map Some cs) \<longrightarrow> c 2 \<le> c 1 + jitter" using assms(4) by auto
  from renew_loop_bound [OF assms(1-3) this r] o show ?thesis by force
qed

theorem stuck_session_loses_the_lease_witness:
  "fst (guard_exit 30 7 ''a'' [Some (\<lambda>_. 50), Some (\<lambda>_. 120)] None
      (empty_db\<lparr>db_sessions := [(new_session 7 1 0)\<lparr>sess_lease_owner := Some ''a'',
         sess_lease_expires_at := Some 60, sess_phase_deadline := Some 100\<rparr>]\<rparr>))
     = Some (LeaseLost (''lease lost during long operation for session '' @ uuid_str 7))"
proof -
  let ?s = "(new_session 7 1 0)\<lparr>sess_lease_owner := Some ''a'',
      sess_lease_expires_at := Some 60, sess_phase_deadline := Some 100\<rparr>"
  let ?d = "empty_db\<lparr>db_sessions := [?s]\<rparr>"
  let ?cs = "[\<lambda>_. 50, \<lambda>_. 120] :: clock list"
  have u: "unique_sessions ?d" by (simp add: unique_sessions_def empty_db_def)
  have g: "get_session ?d 7 = Some ?s" by (simp add: get_session_def empty_db_def new_session_def)
  have dl: "sess_phase_deadline ?s = Some 100" by simp
  have j: "\<forall>c\<in>set ?cs. c 2 \<le> c 1 + 0" by simp
  obtain out d' where e: "guard_exit 30 7 ''a'' (map Some ?cs) None ?d = (out, d')" by fastforce
  show ?thesis using stuck_session_loses_the_lease [OF u g dl j e] e by simp
qed

end
