(* ===== verification/PyData.thy ===== *)
theory PyData
  imports PyStr "HOL-Library.Log_Nat"
begin

section \<open>Python numbers, equality and truth\<close>

text \<open>
  Floating point numbers are the rational numbers they denote.  \<open>fl\<close> rounds a rational to the
  nearest IEEE binary64 number, ties to even, subnormal numbers included; a float operation is the
  exact operation followed by \<open>fl\<close>.  The modelled code stays far below the largest finite float,
  so no infinity and no NaN occurs.  \<open>round(x, n)\<close> is Python's correctly rounded decimal rounding.
  \<open>py_eq\<close> is \<open>==\<close> on JSON values (booleans and numbers compare as numbers, dicts without order),
  \<open>truthy\<close> is the truth value.
\<close>

subsection \<open>Floats\<close>

definition round_half_even :: "rat \<Rightarrow> int" where
  "round_half_even x =
     (let f = \<lfloor>x\<rfloor>; d = x - of_int f in
      if d < 1 / 2 then f else if d > 1 / 2 then f + 1 else if even f then f else f + 1)"

definition pow2 :: "int \<Rightarrow> rat" where
  "pow2 e = (if 0 \<le> e then 2 ^ nat e else 1 / 2 ^ nat (- e))"

text \<open>The binary exponent: \<open>pow2 (log2 x) \<le> x < pow2 (log2 x + 1)\<close> for positive \<open>x\<close>.\<close>

definition log2_rat :: "rat \<Rightarrow> int" where
  "log2_rat x =
     (let (p, q) = quotient_of x;
          e = int (floorlog 2 (nat p)) - int (floorlog 2 (nat q))
      in if pow2 e \<le> x then e else e - 1)"

definition fl_pos :: "rat \<Rightarrow> rat" where
  "fl_pos x = (let e = max (- 1074) (log2_rat x - 52) in of_int (round_half_even (x / pow2 e)) * pow2 e)"

definition fl :: "rat \<Rightarrow> rat" where
  "fl x = (if x = 0 then 0 else if x < 0 then - fl_pos (- x) else fl_pos x)"

definition round_digits :: "nat \<Rightarrow> rat \<Rightarrow> rat" where
  "round_digits n x = fl (of_int (round_half_even (x * 10 ^ n)) / 10 ^ n)"

subsection \<open>Equality and truth\<close>

fun number_of :: "json \<Rightarrow> rat option" where
  "number_of (JBool b) = Some (if b then 1 else 0)"
| "number_of (JInt i) = Some (of_int i)"
| "number_of (JFloat r) = Some r"
| "number_of _ = None"

function (sequential) py_eq :: "json \<Rightarrow> json \<Rightarrow> bool" where
  "py_eq (JObj d) (JObj e) =
     (length d = length e \<and>
      list_all (\<lambda>(k, v). case map_of e k of None \<Rightarrow> False | Some w \<Rightarrow> py_eq v w) d)"
| "py_eq (JArr vs) (JArr ws) =
     (length vs = length ws \<and> list_all (\<lambda>(v, w). py_eq v w) (zip vs ws))"
| "py_eq v w = (case (number_of v, number_of w) of (Some a, Some b) \<Rightarrow> a = b | _ \<Rightarrow> v = w)"
  by pat_completeness auto

termination
proof (relation "measure (\<lambda>p. size (fst p))", goal_cases)
  case (2 d e z k v w)
  then have "(k, v) \<in> set d" by simp
  then show ?case
    using size_list_estimation' [of "(k, v)" d "size v" "size_prod (\<lambda>x. 0) size"] by simp
next
  case (3 vs ws z v w)
  then have "v \<in> set vs" by (auto dest: set_zip_leftD)
  then show ?case
    using size_list_estimation' [of v vs "size v" size] by simp
qed simp

fun truthy :: "json \<Rightarrow> bool" where
  "truthy JNull = False"
| "truthy (JBool b) = b"
| "truthy (JInt i) = (i \<noteq> 0)"
| "truthy (JFloat r) = (r \<noteq> 0)"
| "truthy (JStr s) = (s \<noteq> [])"
| "truthy (JArr vs) = (vs \<noteq> [])"
| "truthy (JObj d) = (d \<noteq> [])"

subsection \<open>Conversions\<close>

text \<open>\<open>int(x)\<close> of a JSON value.\<close>

fun digits_value :: "int \<Rightarrow> string \<Rightarrow> int option" where
  "digits_value acc [] = Some acc"
| "digits_value acc (c # cs) =
     (let n = of_char c :: nat in
      if 48 \<le> n \<and> n \<le> 57 then digits_value (10 * acc + int (n - 48)) cs
      else if c = CHR ''_'' \<and> cs \<noteq> [] \<and> hd cs \<noteq> CHR ''_'' then digits_value acc cs
      else None)"

definition int_of_text :: "string \<Rightarrow> exn + int" where
  "int_of_text s =
     (let t = py_strip s;
          (sgn, body) = (case t of [] \<Rightarrow> (1, [])
             | c # cs \<Rightarrow> if c = CHR ''-'' then (- 1, cs) else if c = CHR ''+'' then (1, cs) else (1, t));
          bad = Inl (ValueError (''invalid literal for int() with base 10: '' @ repr_str s))
      in if body = [] \<or> hd body = CHR ''_'' then bad
         else case digits_value 0 body of None \<Rightarrow> bad | Some v \<Rightarrow> Inr (sgn * v))"

definition py_int :: "json \<Rightarrow> exn + int" where
  "py_int v = (case v of
     JInt i \<Rightarrow> Inr i
   | JBool b \<Rightarrow> Inr (if b then 1 else 0)
   | JFloat r \<Rightarrow> Inr (if r < 0 then - \<lfloor>- r\<rfloor> else \<lfloor>r\<rfloor>)
   | JStr s \<Rightarrow> int_of_text s
   | _ \<Rightarrow> Inl (TypeError ''int() argument must be a string, a bytes-like object or a real number''))"

text \<open>\<open>x in v\<close>.\<close>

definition py_in :: "json \<Rightarrow> json \<Rightarrow> exn + bool" where
  "py_in x v = (case v of
     JArr vs \<Rightarrow> Inr (list_ex (py_eq x) vs)
   | JStr s \<Rightarrow> (case x of JStr t \<Rightarrow> Inr (t \<in> set (sublists s))
       | _ \<Rightarrow> Inl (TypeError ''in <string> requires string as left operand''))
   | JObj d \<Rightarrow> (case x of JStr t \<Rightarrow> Inr (t \<in> set (map fst d))
       | JArr _ \<Rightarrow> Inl (TypeError ''unhashable type'') | JObj _ \<Rightarrow> Inl (TypeError ''unhashable type'')
       | _ \<Rightarrow> Inr False)
   | _ \<Rightarrow> Inl (TypeError ''argument is not iterable''))"

text \<open>The elements of \<open>set(v)\<close> and of \<open>tuple(v)\<close>, in order.\<close>

definition hashable :: "json \<Rightarrow> bool" where
  "hashable v = (case v of JArr _ \<Rightarrow> False | JObj _ \<Rightarrow> False | _ \<Rightarrow> True)"

definition py_frozenset :: "json \<Rightarrow> exn + json list" where
  "py_frozenset v = (case v of
     JArr vs \<Rightarrow> if list_all hashable vs then Inr vs else Inl (TypeError ''unhashable type'')
   | JStr s \<Rightarrow> Inr (map (\<lambda>c. JStr [c]) s)
   | JObj d \<Rightarrow> Inr (map (\<lambda>(k, _). JStr k) d)
   | _ \<Rightarrow> Inl (TypeError ''object is not iterable''))"

definition py_tuple :: "json \<Rightarrow> exn + json list" where
  "py_tuple v = (case v of
     JArr vs \<Rightarrow> Inr vs
   | JStr s \<Rightarrow> Inr (map (\<lambda>c. JStr [c]) s)
   | JObj d \<Rightarrow> Inr (map (\<lambda>(k, _). JStr k) d)
   | _ \<Rightarrow> Inl (TypeError ''object is not iterable''))"

text \<open>\<open>all(f(x) for x in xs)\<close> of a function that may raise.\<close>

fun try_all :: "('a \<Rightarrow> exn + bool) \<Rightarrow> 'a list \<Rightarrow> exn + bool" where
  "try_all f [] = Inr True"
| "try_all f (x # xs) = (case f x of Inl e \<Rightarrow> Inl e | Inr b \<Rightarrow> if b then try_all f xs else Inr False)"

text \<open>
  \<open>uuid.UUID(text)\<close>: the urn prefix, braces and hyphens are dropped and 32 characters must remain
  that \<open>int(\<dots>, 16)\<close> reads as a number that is not negative.
\<close>

fun remove_all :: "string \<Rightarrow> string \<Rightarrow> nat \<Rightarrow> string" where
  "remove_all p [] n = []"
| "remove_all p (c # cs) (Suc n) = remove_all p cs n"
| "remove_all p (c # cs) 0 = (if prefix p (c # cs) then remove_all p cs (length p - 1) else c # remove_all p cs 0)"

fun hex_value :: "char \<Rightarrow> int option" where
  "hex_value c = (let n = of_char c :: nat in
     if 48 \<le> n \<and> n \<le> 57 then Some (int (n - 48))
     else if 65 \<le> n \<and> n \<le> 70 then Some (int (n - 55))
     else if 97 \<le> n \<and> n \<le> 102 then Some (int (n - 87)) else None)"

fun hex_digits :: "int \<Rightarrow> string \<Rightarrow> int option" where
  "hex_digits acc [] = Some acc"
| "hex_digits acc (c # cs) =
     (case hex_value c of Some v \<Rightarrow> hex_digits (16 * acc + v) cs
      | None \<Rightarrow> if c = CHR ''_'' \<and> cs \<noteq> [] \<and> hd cs \<noteq> CHR ''_'' then hex_digits acc cs else None)"

definition int_of_hex :: "string \<Rightarrow> int option" where
  "int_of_hex s =
     (let t = py_strip s;
          (sgn, body) = (case t of [] \<Rightarrow> (1, [])
             | c # cs \<Rightarrow> if c = CHR ''-'' then (- 1, cs) else if c = CHR ''+'' then (1, cs) else (1, t));
          pre = prefix ''0x'' body \<or> prefix ''0X'' body;
          rest = (if pre then drop 2 body else body);
          digits = (if pre \<and> rest \<noteq> [] \<and> hd rest = CHR ''_'' then tl rest else rest)
      in if digits = [] \<or> hd digits = CHR ''_'' then None
         else map_option (\<lambda>v. sgn * v) (hex_digits 0 digits))"

definition uuid_parse :: "string \<Rightarrow> exn + uuid" where
  "uuid_parse s =
     (let a = remove_all ''uuid:'' (remove_all ''urn:'' s 0) 0;
          brace = (\<lambda>c. c = CHR ''{'' \<or> c = CHR ''}'');
          b = rev (dropWhile brace (rev (dropWhile brace a)));
          h = filter (\<lambda>c. c \<noteq> CHR ''-'') b
      in if length h \<noteq> 32 then Inl (ValueError ''badly formed hexadecimal UUID string'')
         else case int_of_hex h of
           None \<Rightarrow> Inl (ValueError ''invalid literal for int() with base 16'')
         | Some i \<Rightarrow> if i < 0 then Inl (ValueError ''int is out of range (need a 128-bit value)'') else Inr (nat i))"

subsection \<open>Facts about rounding\<close>

lemma round_half_even_int [simp]: "round_half_even (of_int i) = i"
  by (simp add: round_half_even_def)

lemma round_half_even_literal [simp]:
  "round_half_even (numeral n) = numeral n" "round_half_even 0 = 0" "round_half_even 1 = 1"
  using round_half_even_int [of "numeral n"] round_half_even_int [of 0] round_half_even_int [of 1]
  by (simp_all del: round_half_even_int)

lemma round_half_even_bounds: "\<lfloor>x\<rfloor> \<le> round_half_even x" "round_half_even x \<le> \<lfloor>x\<rfloor> + 1"
  by (simp_all add: round_half_even_def Let_def)

lemma round_half_even_mono:
  assumes "x \<le> y"
  shows "round_half_even x \<le> round_half_even y"
proof (cases "\<lfloor>x\<rfloor> = \<lfloor>y\<rfloor>")
  case True
  then show ?thesis using assms by (auto simp: round_half_even_def Let_def)
next
  case False
  then have "\<lfloor>x\<rfloor> + 1 \<le> \<lfloor>y\<rfloor>" using floor_mono [OF assms] by linarith
  then show ?thesis using round_half_even_bounds [of x] round_half_even_bounds [of y] by linarith
qed

lemma pow2_pos [simp]: "0 < pow2 e"
  by (simp add: pow2_def)

lemma pow2_Suc: "pow2 (e + 1) = 2 * pow2 e"
proof -
  consider "0 \<le> e" | "e = -1" | "e < -1" by linarith
  then show ?thesis
  proof cases
    case 1
    then have "nat (e + 1) = Suc (nat e)" by simp
    with 1 show ?thesis by (simp add: pow2_def)
  next
    case 3
    then have "nat (- e) = Suc (nat (- (e + 1)))" by simp
    with 3 show ?thesis by (simp add: pow2_def)
  qed (simp add: pow2_def)
qed

lemma pow2_add_nat: "pow2 (e + int n) = 2 ^ n * pow2 e"
proof (induction n)
  case (Suc n)
  have "e + int (Suc n) = (e + int n) + 1" by simp
  then show ?case using Suc by (simp only: pow2_Suc) simp
qed simp

lemma pow2_diff:
  assumes "a \<le> b"
  shows "pow2 b = 2 ^ nat (b - a) * pow2 a"
  using pow2_add_nat [of a "nat (b - a)"] assms by simp

lemma pow2_mono: "a \<le> b \<Longrightarrow> pow2 a \<le> pow2 b"
  using pow2_diff [of a b] by simp

lemma pow2_0 [simp]: "pow2 0 = 1"
  by (simp add: pow2_def)

lemma log2_rat:
  assumes "0 < x"
  shows "pow2 (log2_rat x) \<le> x" "x < pow2 (log2_rat x + 1)"
proof -
  obtain p q where pq: "quotient_of x = (p, q)" by fastforce
  then have q: "0 < q" and x: "x = of_int p / of_int q"
    using quotient_of_denom_pos quotient_of_div by auto
  with assms have p: "0 < p" by (simp add: zero_less_divide_iff)
  let ?P = "floorlog 2 (nat p)" and ?Q = "floorlog 2 (nat q)"
  have lo: "(2 :: rat) ^ (floorlog 2 (nat n) - 1) \<le> of_int n" and hi: "of_int n < (2 :: rat) ^ floorlog 2 (nat n)"
    and ge: "1 \<le> floorlog 2 (nat n)" if "0 < n" for n :: int
  proof -
    have b: "2 ^ (floorlog 2 (nat n) - 1) \<le> nat n \<and> nat n < 2 ^ floorlog 2 (nat n)"
      using floorlog_bounds [of "nat n" 2] that by simp
    then have "(2 :: int) ^ (floorlog 2 (nat n) - 1) \<le> n" "n < (2 :: int) ^ floorlog 2 (nat n)"
      using that by (simp_all add: le_nat_iff nat_less_iff)
    then show "(2 :: rat) ^ (floorlog 2 (nat n) - 1) \<le> of_int n" "of_int n < (2 :: rat) ^ floorlog 2 (nat n)"
      by (metis of_int_le_iff of_int_numeral of_int_power) (metis \<open>n < 2 ^ floorlog 2 (nat n)\<close> of_int_less_iff of_int_numeral of_int_power)
    show "1 \<le> floorlog 2 (nat n)" using that by (simp add: floorlog_def)
  qed
  let ?e = "int ?P - int ?Q"
  have pw: "pow2 (int n) = 2 ^ n" for n by (simp add: pow2_def)
  have split: "pow2 (a - int n) * 2 ^ n = pow2 a" for a n
    using pow2_add_nat [of "a - int n" n] by (simp add: mult.commute)
  have up: "x < pow2 (?e + 1)"
  proof -
    have "of_int p < pow2 (int ?P)" using hi [OF p] by (simp add: pw)
    also have "\<dots> = pow2 (int ?P - int (?Q - 1)) * 2 ^ (?Q - 1)" by (simp only: split)
    also have "\<dots> \<le> pow2 (int ?P - int (?Q - 1)) * of_int q" using lo [OF q] pow2_pos by (simp add: less_imp_le)
    finally have "x < pow2 (int ?P - int (?Q - 1))" using q by (simp add: x pos_divide_less_eq)
    moreover have "int ?P - int (?Q - 1) = ?e + 1" using ge [OF q] by (simp add: of_nat_diff)
    ultimately show ?thesis by (simp only:)
  qed
  have dn: "pow2 (?e - 1) \<le> x"
  proof -
    have "pow2 (?e - 1) * of_int q \<le> pow2 (?e - 1) * 2 ^ ?Q" using hi [OF q] pow2_pos by (simp add: less_imp_le)
    also have "\<dots> = pow2 (int (?P - 1))"
      using split [of "int (?P - 1)" ?Q] ge [OF p] by (simp add: of_nat_diff algebra_simps)
    also have "\<dots> \<le> of_int p" using lo [OF p] by (simp add: pw)
    finally show ?thesis using q by (simp add: x pos_le_divide_eq)
  qed
  show "pow2 (log2_rat x) \<le> x" "x < pow2 (log2_rat x + 1)"
    using up dn by (auto simp: log2_rat_def pq Let_def)
qed

lemma log2_rat_mono:
  assumes "0 < x" and "x \<le> y"
  shows "log2_rat x \<le> log2_rat y"
proof (rule ccontr)
  assume "\<not> log2_rat x \<le> log2_rat y"
  then have "pow2 (log2_rat y + 1) \<le> pow2 (log2_rat x)" by (intro pow2_mono) simp
  with log2_rat [of x] log2_rat [of y] assms show False by force
qed

lemma fl_pos_mono:
  assumes "0 < x" and "x \<le> y"
  shows "fl_pos x \<le> fl_pos y"
proof -
  let ?ex = "max (- 1074) (log2_rat x - 52)" and ?ey = "max (- 1074) (log2_rat y - 52)"
  have le: "?ex \<le> ?ey" using log2_rat_mono [OF assms] by simp
  show ?thesis
  proof (cases "?ex = ?ey")
    case True
    have "x / pow2 ?ey \<le> y / pow2 ?ey" using assms by (simp add: divide_right_mono less_imp_le)
    then show ?thesis using True by (simp add: fl_pos_def Let_def round_half_even_mono less_imp_le)
  next
    case False
    with le have lt: "?ex + 1 \<le> ?ey" and ey: "?ey = log2_rat y - 52" by auto
    have "log2_rat x + 1 \<le> ?ex + 53" by simp
    then have "x < pow2 (?ex + 53)" using log2_rat(2) [of x] assms(1) pow2_mono by (meson order_less_le_trans)
    then have "x / pow2 ?ex < 2 ^ 53"
      using pow2_add_nat [of ?ex 53] by (simp add: pos_divide_less_eq)
    then have "round_half_even (x / pow2 ?ex) \<le> 2 ^ 53"
      using round_half_even_mono [of "x / pow2 ?ex" "of_int (2 ^ 53)"] by simp
    then have a: "fl_pos x \<le> 2 ^ 53 * pow2 ?ex"
      using of_int_le_iff [of "round_half_even (x / pow2 ?ex)" "2 ^ 53", where ?'a = rat]
      by (simp add: fl_pos_def Let_def mult_right_mono less_imp_le)
    have "pow2 (?ey + 52) \<le> y" using log2_rat(1) [of y] assms ey by simp
    then have "2 ^ 52 \<le> y / pow2 ?ey" using pow2_add_nat [of ?ey 52] by (simp add: pos_le_divide_eq)
    then have "2 ^ 52 \<le> round_half_even (y / pow2 ?ey)"
      using round_half_even_mono [of "of_int (2 ^ 52)" "y / pow2 ?ey"] by simp
    then have b: "2 ^ 52 * pow2 ?ey \<le> fl_pos y"
      using of_int_le_iff [of "2 ^ 52" "round_half_even (y / pow2 ?ey)", where ?'a = rat]
      by (simp add: fl_pos_def Let_def mult_right_mono less_imp_le)
    have "2 ^ 53 * pow2 ?ex \<le> 2 ^ 52 * pow2 ?ey" using pow2_mono [OF lt] by (simp add: pow2_Suc)
    with a b show ?thesis by linarith
  qed
qed

lemma fl_pos_nonneg:
  assumes "0 < x"
  shows "0 \<le> fl_pos x"
proof -
  have "0 \<le> round_half_even (x / pow2 e)" for e
    using round_half_even_mono [of "of_int 0" "x / pow2 e"] assms by (simp only: round_half_even_int) (simp add: less_imp_le)
  then show ?thesis by (simp add: fl_pos_def Let_def less_imp_le)
qed

lemma fl_pos_exact:
  assumes "0 < m" and "m < 2 ^ 53" and "- 1074 \<le> e"
  shows "fl_pos (of_int m * pow2 e) = of_int m * pow2 e"
proof -
  let ?x = "of_int m * pow2 e :: rat"
  define E where "E = max (- 1074) (log2_rat ?x - 52)"
  have pos: "0 < ?x" using assms(1) by simp
  have "(of_int m :: rat) < of_int (2 ^ 53)" using assms(2) by (simp only: of_int_less_iff)
  then have "?x < pow2 (e + 53)" using pow2_add_nat [of e 53] by (simp add: mult_strict_right_mono)
  then have "log2_rat ?x < e + 53"
    using log2_rat(1) [OF pos] pow2_mono [of "e + 53" "log2_rat ?x"] by (meson leD le_less_trans not_le_imp_less order_trans)
  then have E: "E \<le> e" using assms(3) by (simp add: E_def)
  have "?x / pow2 E = of_int (m * 2 ^ nat (e - E))"
    unfolding pow2_diff [OF E] using pow2_pos [of E, THEN less_imp_neq] by simp
  then have "fl_pos ?x = of_int (m * 2 ^ nat (e - E)) * pow2 E"
    unfolding fl_pos_def Let_def E_def [symmetric] by (simp only: round_half_even_int)
  also have "\<dots> = ?x" unfolding pow2_diff [OF E] by simp
  finally show ?thesis .
qed

lemma fl_pos_shape:
  assumes "0 < x"
  shows "\<exists>m e. fl_pos x = of_int m * pow2 e \<and> 0 \<le> m \<and> m < 2 ^ 53 \<and> - 1074 \<le> e"
proof -
  let ?e = "max (- 1074) (log2_rat x - 52)"
  let ?m = "round_half_even (x / pow2 ?e)"
  have "log2_rat x + 1 \<le> ?e + 53" by simp
  then have "x < pow2 (?e + 53)" using log2_rat(2) [OF assms] pow2_mono by (meson order_less_le_trans)
  then have "x / pow2 ?e \<le> of_int (2 ^ 53)" using pow2_add_nat [of ?e 53] by (simp add: pos_divide_le_eq)
  then have hi: "?m \<le> 2 ^ 53" using round_half_even_mono [of "x / pow2 ?e" "of_int (2 ^ 53)"] by (simp only: round_half_even_int)
  have "of_int 0 \<le> x / pow2 ?e" using assms by (simp add: less_imp_le)
  then have lo: "0 \<le> ?m" using round_half_even_mono [of "of_int 0" "x / pow2 ?e"] by (simp only: round_half_even_int)
  have fx: "fl_pos x = of_int ?m * pow2 ?e" by (simp add: fl_pos_def Let_def)
  show ?thesis
  proof (cases "?m < 2 ^ 53")
    case True
    with lo fx show ?thesis by (intro exI [of _ ?m] exI [of _ ?e]) simp
  next
    case False
    with hi have m: "?m = 2 ^ 53" by simp
    have "fl_pos x = of_int (2 ^ 52) * pow2 (?e + 1)" unfolding fx m by (simp add: pow2_Suc)
    then show ?thesis by (intro exI [of _ "2 ^ 52"] exI [of _ "?e + 1"]) simp
  qed
qed

lemma fl_0 [simp]: "fl 0 = 0"
  by (simp add: fl_def)

lemma fl_pos_idem: "0 < x \<Longrightarrow> fl (fl_pos x) = fl_pos x"
  using fl_pos_shape [of x] fl_pos_exact
  by (metis (no_types, lifting) fl_def fl_0 fl_pos_nonneg leD mult_eq_0_iff of_int_0 order_le_less)

lemma fl_idem [simp]: "fl (fl x) = fl x"
proof -
  consider "x = 0" | "0 < x" | "x < 0" by linarith
  then show ?thesis
  proof cases
    case 3
    then have i: "fl (fl_pos (- x)) = fl_pos (- x)" "0 \<le> fl_pos (- x)" by (simp_all add: fl_pos_idem fl_pos_nonneg)
    have "fl (- y) = - fl y" for y by (simp add: fl_def)
    with i 3 show ?thesis by (simp add: fl_def [of x])
  qed (simp_all add: fl_pos_idem fl_def [of x])
qed

lemma fl_mono: "x \<le> y \<Longrightarrow> fl x \<le> fl y"
  using fl_pos_mono [of x y] fl_pos_mono [of "- y" "- x"] fl_pos_nonneg [of y] fl_pos_nonneg [of "- x"]
  by (auto simp: fl_def)

lemma fl_nonneg: "0 \<le> x \<Longrightarrow> 0 \<le> fl x"
  using fl_mono [of 0 x] by simp

lemma fl_1 [simp]: "fl 1 = 1"
  by code_simp

lemma fl_le_1: "x \<le> 1 \<Longrightarrow> fl x \<le> 1"
  using fl_mono [of x 1] by simp

lemma round_digits_mono: "x \<le> y \<Longrightarrow> round_digits n x \<le> round_digits n y"
  unfolding round_digits_def
  by (intro fl_mono divide_right_mono) (simp_all add: round_half_even_mono mult_right_mono)

lemma round_digits_0 [simp]: "round_digits n 0 = 0"
  using round_half_even_int [of 0] by (simp add: round_digits_def del: round_half_even_int)

lemma round_digits_1 [simp]: "round_digits n 1 = 1"
proof -
  have "round_half_even (1 * 10 ^ n) = 10 ^ n" using round_half_even_int [of "10 ^ n"] by simp
  then show ?thesis by (simp add: round_digits_def)
qed

lemma round_digits_unit: "0 \<le> x \<Longrightarrow> x \<le> 1 \<Longrightarrow> 0 \<le> round_digits n x \<and> round_digits n x \<le> 1"
  using round_digits_mono [of 0 x n] round_digits_mono [of x 1 n] by simp

end
