(* ===== verification/Staging.thy ===== *)
theory Staging
  imports Lease PyData
begin

section \<open>Session staging and its budget\<close>

text \<open>
  \<open>packages/domain/services/reserve.py\<close> (the limits of the config snapshot and the check before a
  write), \<open>packages/domain/services/staging.py\<close> (record, reject and apply the operations a model
  proposes) and the part of \<open>QuestionRepository\<close> the application uses.
\<close>

subsection \<open>The reserve\<close>

record reserve_limits =
  max_claims_assessed_per_session :: int
  max_new_claims_per_session :: int
  max_evidence_items_per_session :: int
  max_new_questions_per_session :: int

definition limit_of :: "json_dict \<Rightarrow> string \<Rightarrow> int \<Rightarrow> exn + int" where
  "limit_of lim_section key dflt = py_int (dict_get lim_section key (JInt dflt))"

definition limits_from_snapshot :: "json_dict \<Rightarrow> exn + reserve_limits" where
  "limits_from_snapshot sl =
     (case limit_of sl ''max_claims_assessed_per_session'' 32 of Inl e \<Rightarrow> Inl e | Inr a \<Rightarrow>
      case limit_of sl ''max_new_claims_per_session'' 16 of Inl e \<Rightarrow> Inl e | Inr c \<Rightarrow>
      case limit_of sl ''max_evidence_items_per_session'' 64 of Inl e \<Rightarrow> Inl e | Inr v \<Rightarrow>
      case limit_of sl ''max_new_questions_per_session'' 4 of Inl e \<Rightarrow> Inl e | Inr q \<Rightarrow>
      Inr \<lparr>max_claims_assessed_per_session = a, max_new_claims_per_session = c,
           max_evidence_items_per_session = v, max_new_questions_per_session = q\<rparr>)"

definition reserve_count :: "db \<Rightarrow> uuid \<Rightarrow> string \<Rightarrow> int" where
  "reserve_count d sid op =
     int (tbl_count (\<lambda>r. stg_session_id r = sid \<and> stg_op r = op \<and>
       stg_state r \<in> {ST_recorded, ST_validated}) (db_staging d))"

definition reserve_check ::
  "reserve_limits \<Rightarrow> db \<Rightarrow> uuid \<Rightarrow> int \<Rightarrow> int \<Rightarrow> int \<Rightarrow> exn + unit" where
  "reserve_check limits d sid proposed_claims proposed_evidence proposed_questions =
     (let claims = reserve_count d sid ''claim'' in
      if claims + proposed_claims > max_new_claims_per_session limits
      then Inl (StagingBudgetExceeded ''max_new_claims_per_session'' claims proposed_claims
        (max_new_claims_per_session limits))
      else let evidence = reserve_count d sid ''evidence'' in
      if evidence + proposed_evidence > max_evidence_items_per_session limits
      then Inl (StagingBudgetExceeded ''max_evidence_items_per_session'' evidence proposed_evidence
        (max_evidence_items_per_session limits))
      else let questions = reserve_count d sid ''question'' in
      if questions + proposed_questions > max_new_questions_per_session limits
      then Inl (StagingBudgetExceeded ''max_new_questions_per_session'' questions proposed_questions
        (max_new_questions_per_session limits))
      else Inr ())"

subsection \<open>Recording and rejecting\<close>

definition STAGING_SCHEMA_VERSION :: int where
  "STAGING_SCHEMA_VERSION = 1"

definition VALID_OPS :: "string list" where
  "VALID_OPS = [''claim'', ''evidence'', ''question'', ''identity'']"

definition next_seq :: "db \<Rightarrow> uuid \<Rightarrow> int" where
  "next_seq d sid =
     max_default (- 1) (map stg_seq (filter (\<lambda>r. stg_session_id r = sid) (db_staging d))) + 1"

definition staging_record ::
  "host \<Rightarrow> reserve_limits \<Rightarrow> uuid \<Rightarrow> string \<Rightarrow> json_dict \<Rightarrow> int \<Rightarrow> int \<Rightarrow> int \<Rightarrow> db \<Rightarrow>
   exn + (staging_row \<times> db)" where
  "staging_record h limits sid op payload proposed_claims proposed_evidence proposed_questions d =
     (if op \<notin> set VALID_OPS then Inl (ValueError (''invalid staging op: '' @ op))
      else case reserve_check limits d sid proposed_claims proposed_evidence proposed_questions of
        Inl e \<Rightarrow> Inl e
      | Inr _ \<Rightarrow>
          let seq = next_seq d sid;
              masked = mask_nul_dict payload;
              (i, d1) = uuid4 d;
              row = \<lparr>stg_id = i, stg_session_id = sid, stg_op = op, stg_payload = masked,
                stg_payload_hash = host_canonical_sha256 h (JObj masked),
                stg_schema_version = STAGING_SCHEMA_VERSION, stg_seq = seq,
                stg_state = ST_recorded, stg_created_at = db_now d\<rparr>;
              d2 = d1\<lparr>db_staging := db_staging d1 @ [row]\<rparr>
          in Inr (row, session_event AE_STAGING_RECORDED sid
               [(''staging_id'', JStr (uuid_str i)), (''op'', JStr op),
                (''payload_hash'', JStr (stg_payload_hash row)),
                (''schema_version'', JInt (stg_schema_version row))] None d2))"

definition set_staging_state :: "uuid \<Rightarrow> staging_row_state \<Rightarrow> db \<Rightarrow> db" where
  "set_staging_state i st d =
     d\<lparr>db_staging := tbl_update (\<lambda>r. stg_id r = i) (\<lambda>r. r\<lparr>stg_state := st\<rparr>) (db_staging d)\<rparr>"

definition staging_reject :: "uuid \<Rightarrow> string \<Rightarrow> db \<Rightarrow> db" where
  "staging_reject i reason d =
     (case tbl_get stg_id i (db_staging d) of
        None \<Rightarrow> d
      | Some row \<Rightarrow>
          if stg_state row \<noteq> ST_recorded then d
          else session_event AE_STAGING_REJECTED (stg_session_id row)
            [(''staging_id'', JStr (uuid_str i)), (''reason'', JStr (take 500 reason))] None
            (set_staging_state i ST_rejected d))"

subsection \<open>Applying\<close>

text \<open>\<open>QuestionRepository.create\<close>: the CHECK of the table on the origin.\<close>

definition question_origin_of :: "string \<Rightarrow> question_origin option" where
  "question_origin_of s = find (\<lambda>o'. question_origin_value o' = s) question_origin_members"

definition create_question ::
  "string \<Rightarrow> string \<Rightarrow> uuid option \<Rightarrow> question_state \<Rightarrow> int \<Rightarrow> uuid option \<Rightarrow> db \<Rightarrow>
   exn + (question_row \<times> db)" where
  "create_question text origin snap st priority parent d =
     (case question_origin_of origin of
        None \<Rightarrow> Inl (IntegrityError ''questions_origin_check'')
      | Some og \<Rightarrow>
          let (i, d1) = uuid4 d;
              q = \<lparr>q_id = i, q_text = text, q_origin = og, q_origin_config_snapshot_id = snap,
                q_state = st, q_priority = priority, q_parent_id = parent,
                q_score_components = None, q_embedding_fingerprint = None, q_created_at = db_now d\<rparr>
          in Inr (q, d1\<lparr>db_questions := db_questions d1 @ [q]\<rparr>))"

definition recorded_rows :: "db \<Rightarrow> uuid \<Rightarrow> staging_row list" where
  "recorded_rows d sid =
     sort_key stg_seq (filter (\<lambda>r. stg_session_id r = sid \<and> stg_state r = ST_recorded) (db_staging d))"

definition question_text :: "host \<Rightarrow> staging_row \<Rightarrow> string" where
  "question_text h row = py_strip (py_str (host_frepr h) (dict_get (stg_payload row) ''text'' (JStr [])))"

definition question_origin_text :: "host \<Rightarrow> staging_row \<Rightarrow> string" where
  "question_origin_text h row =
     py_str (host_frepr h) (dict_get (stg_payload row) ''origin'' (JStr ''model_proposal''))"

fun apply_rows ::
  "host \<Rightarrow> session_row \<Rightarrow> staging_row list \<Rightarrow> nat \<Rightarrow> nat \<Rightarrow> db \<Rightarrow> exn + (nat \<times> nat \<times> db)" where
  "apply_rows h s [] claims questions d = Inr (claims, questions, d)"
| "apply_rows h s (row # rows) claims questions d =
     (if stg_op row = ''question'' then
        if question_text h row \<noteq> [] then
          (case create_question (take 2000 (question_text h row)) (question_origin_text h row)
                  (Some (sess_config_snapshot_id s)) QS_CANDIDATE 0 (sess_question_id s) d of
             Inl e \<Rightarrow> Inl e
           | Inr (q, d1) \<Rightarrow> apply_rows h s rows claims (Suc questions)
               (set_staging_state (stg_id row) ST_applied d1))
        else apply_rows h s rows claims questions (set_staging_state (stg_id row) ST_applied d)
      else if stg_op row \<in> {''claim'', ''evidence'', ''identity''} then
        apply_rows h s rows (if stg_op row = ''claim'' then Suc claims else claims) questions
          (set_staging_state (stg_id row) ST_applied d)
      else apply_rows h s rows claims questions d)"

definition apply_recorded :: "host \<Rightarrow> session_row \<Rightarrow> db \<Rightarrow> exn + (nat \<times> nat \<times> db)" where
  "apply_recorded h s d =
     (let rows = recorded_rows d (sess_id s) in
      case apply_rows h s rows 0 0 d of
        Inl e \<Rightarrow> Inl e
      | Inr (claims, questions, d1) \<Rightarrow>
          Inr (claims, questions,
            if rows = [] then d1
            else session_event AE_STAGING_VALIDATED (sess_id s)
              [(''applied'', JInt (int (length rows))), (''claims'', JInt (int claims)),
               (''questions'', JInt (int questions))] None d1))"

subsection \<open>Facts about the budget\<close>

lemma staging_record_Inr:
  assumes "staging_record h limits sid op payload pc pe pq d = Inr (row, d')"
  shows "op \<in> set VALID_OPS"
    and "reserve_check limits d sid pc pe pq = Inr ()"
    and "db_staging d' = db_staging d @ [row]"
    and "stg_session_id row = sid" and "stg_op row = op" and "stg_state row = ST_recorded"
    and "stg_seq row = next_seq d sid" and "stg_payload row = mask_nul_dict payload"
    and "stg_payload_hash row = host_canonical_sha256 h (JObj (mask_nul_dict payload))"
    and "stg_id row = db_uuid4 d (db_draws d)"
  using assms by (auto simp: staging_record_def uuid4_def Let_def split: if_splits sum.splits)

lemma reserve_check_Inr:
  "reserve_check limits d sid pc pe pq = Inr u \<longleftrightarrow>
     reserve_count d sid ''claim'' + pc \<le> max_new_claims_per_session limits \<and>
     reserve_count d sid ''evidence'' + pe \<le> max_evidence_items_per_session limits \<and>
     reserve_count d sid ''question'' + pq \<le> max_new_questions_per_session limits"
  by (auto simp: reserve_check_def Let_def)

lemma reserve_count_record:
  assumes "staging_record h limits sid op payload pc pe pq d = Inr (row, d')"
  shows "reserve_count d' sid' op' = reserve_count d sid' op' + (if sid' = sid \<and> op' = op then 1 else 0)"
  using staging_record_Inr [OF assms] by (auto simp: reserve_count_def)

definition within_budget :: "reserve_limits \<Rightarrow> db \<Rightarrow> uuid \<Rightarrow> bool" where
  "within_budget limits d sid \<longleftrightarrow>
     reserve_count d sid ''claim'' \<le> max_new_claims_per_session limits \<and>
     reserve_count d sid ''evidence'' \<le> max_evidence_items_per_session limits \<and>
     reserve_count d sid ''question'' \<le> max_new_questions_per_session limits"

text \<open>The counter of the operation is raised by at least one; the others are not lowered.\<close>

definition announces :: "string \<Rightarrow> int \<Rightarrow> int \<Rightarrow> int \<Rightarrow> bool" where
  "announces op pc pe pq \<longleftrightarrow>
     pc \<ge> (if op = ''claim'' then 1 else 0) \<and> pe \<ge> (if op = ''evidence'' then 1 else 0) \<and>
     pq \<ge> (if op = ''question'' then 1 else 0)"

lemma next_seq_fresh: "r \<in> set (db_staging d) \<Longrightarrow> stg_session_id r = sid \<Longrightarrow> stg_seq r < next_seq d sid"
  using max_default_ge [of "stg_seq r" "map stg_seq (filter (\<lambda>r. stg_session_id r = sid) (db_staging d))" "- 1"]
  by (auto simp: next_seq_def)

subsection \<open>Facts about applying\<close>

definition unique_staging :: "db \<Rightarrow> bool" where
  "unique_staging d \<longleftrightarrow> distinct (map stg_id (db_staging d))"

definition valid_staging :: "db \<Rightarrow> bool" where
  "valid_staging d \<longleftrightarrow> list_all (\<lambda>r. stg_op r \<in> set VALID_OPS) (db_staging d)"

lemma create_question_frame:
  assumes "create_question t og snap st pr par d = Inr (q, d')"
  shows "db_staging d' = db_staging d" "db_sessions d' = db_sessions d" "db_attempts d' = db_attempts d"
    "db_revisions d' = db_revisions d" "db_now d' = db_now d" "db_events d' = db_events d"
    "db_outbox d' = db_outbox d" "db_admissions d' = db_admissions d" "db_heads d' = db_heads d"
    "db_jobs d' = db_jobs d" "db_claims d' = db_claims d" "db_config_heads d' = db_config_heads d"
    "db_questions d' = db_questions d @ [q]" "q_text q = t" "q_state q = st" "q_priority q = pr"
    "q_parent_id q = par"
  using assms by (auto simp: create_question_def uuid4_def Let_def split: option.splits)

lemma set_staging_state_frame [simp]:
  "db_staging (set_staging_state i st d) =
     tbl_update (\<lambda>r. stg_id r = i) (\<lambda>r. r\<lparr>stg_state := st\<rparr>) (db_staging d)"
  "db_sessions (set_staging_state i st d) = db_sessions d"
  "db_attempts (set_staging_state i st d) = db_attempts d"
  "db_revisions (set_staging_state i st d) = db_revisions d"
  "db_now (set_staging_state i st d) = db_now d"
  "db_events (set_staging_state i st d) = db_events d"
  "db_outbox (set_staging_state i st d) = db_outbox d"
  "db_admissions (set_staging_state i st d) = db_admissions d"
  "db_heads (set_staging_state i st d) = db_heads d"
  "db_jobs (set_staging_state i st d) = db_jobs d"
  "db_claims (set_staging_state i st d) = db_claims d"
  "db_config_heads (set_staging_state i st d) = db_config_heads d"
  "db_questions (set_staging_state i st d) = db_questions d"
  by (simp_all add: set_staging_state_def)

lemma apply_rows_frame:
  assumes "apply_rows h s rows c q d = Inr (c', q', d')"
  shows "db_sessions d' = db_sessions d \<and> db_attempts d' = db_attempts d \<and> db_revisions d' = db_revisions d
    \<and> db_now d' = db_now d \<and> db_events d' = db_events d \<and> db_outbox d' = db_outbox d
    \<and> db_admissions d' = db_admissions d \<and> db_heads d' = db_heads d \<and> db_jobs d' = db_jobs d
    \<and> db_claims d' = db_claims d \<and> db_config_heads d' = db_config_heads d
    \<and> map stg_id (db_staging d') = map stg_id (db_staging d)"
  using assms
proof (induction h s rows c q d rule: apply_rows.induct)
  case (2 h s row rows claims questions d)
  have ids: "map stg_id (tbl_update p (\<lambda>r. r\<lparr>stg_state := st\<rparr>) t) = map stg_id t" for p st t
    by (induction t) auto
  from 2 show ?case
    by (auto split: if_splits sum.splits prod.splits simp: create_question_frame ids)
qed simp

lemma tbl_update_ids:
  "tbl_update (\<lambda>r. stg_id r \<in> A) (\<lambda>r. r\<lparr>stg_state := st\<rparr>)
     (tbl_update (\<lambda>r. stg_id r = i) (\<lambda>r. r\<lparr>stg_state := st\<rparr>) t)
   = tbl_update (\<lambda>r. stg_id r \<in> insert i A) (\<lambda>r. r\<lparr>stg_state := st\<rparr>) t"
  by (induction t) auto

lemma apply_rows_result:
  assumes "apply_rows h s rows c q d = Inr (c', q', d')" and "\<forall>r\<in>set rows. stg_op r \<in> set VALID_OPS"
  shows "db_staging d' = tbl_update (\<lambda>r. stg_id r \<in> stg_id ` set rows) (\<lambda>r. r\<lparr>stg_state := ST_applied\<rparr>) (db_staging d)
    \<and> c' = c + length (filter (\<lambda>r. stg_op r = ''claim'') rows)
    \<and> q' = q + length (filter (\<lambda>r. stg_op r = ''question'' \<and> question_text h r \<noteq> []) rows)
    \<and> (\<exists>qs. db_questions d' = db_questions d @ qs \<and> length qs = q' - q
        \<and> (\<forall>x\<in>set qs. q_state x = QS_CANDIDATE \<and> q_parent_id x = sess_question_id s \<and> length (q_text x) \<le> 2000))"
  using assms
proof (induction h s rows c q d rule: apply_rows.induct)
  case (1 h s claims questions d)
  then show ?case by (simp add: tbl_update_id)
next
  case (2 h s row rows claims questions d)
  consider (question) "stg_op row = ''question''" "question_text h row \<noteq> []"
    | (blank) "stg_op row = ''question''" "question_text h row = []"
    | (other) "stg_op row \<in> {''claim'', ''evidence'', ''identity''}" "stg_op row \<noteq> ''question''"
    using "2.prems"(2) by (auto simp: VALID_OPS_def)
  then show ?case
  proof cases
    case question
    then obtain x d1 where x: "create_question (take 2000 (question_text h row)) (question_origin_text h row)
        (Some (sess_config_snapshot_id s)) QS_CANDIDATE 0 (sess_question_id s) d = Inr (x, d1)"
      and r: "apply_rows h s rows claims (Suc questions) (set_staging_state (stg_id row) ST_applied d1)
        = Inr (c', q', d')"
      using "2.prems"(1) by (auto split: sum.splits prod.splits)
    note f = create_question_frame [OF x]
    have v: "\<forall>r\<in>set rows. stg_op r \<in> set VALID_OPS" using "2.prems"(2) by simp
    from "2.IH"(1) [OF question x refl r v] obtain qs where
      "db_staging d' = tbl_update (\<lambda>r. stg_id r \<in> stg_id ` set (row # rows)) (\<lambda>r. r\<lparr>stg_state := ST_applied\<rparr>) (db_staging d)"
      "c' = claims + length (filter (\<lambda>r. stg_op r = ''claim'') rows)"
      "q' = Suc questions + length (filter (\<lambda>r. stg_op r = ''question'' \<and> question_text h r \<noteq> []) rows)"
      "db_questions d' = (db_questions d @ [x]) @ qs" "length qs = q' - Suc questions"
      "\<forall>x\<in>set qs. q_state x = QS_CANDIDATE \<and> q_parent_id x = sess_question_id s \<and> length (q_text x) \<le> 2000"
      using f by (auto simp: tbl_update_ids)
    then show ?thesis using question f by (intro conjI exI [of _ "x # qs"]) auto
  next
    case blank
    then show ?thesis using "2.prems" "2.IH"(2) by (auto simp: tbl_update_ids)
  next
    case other
    then show ?thesis using "2.prems" "2.IH"(3) by (auto simp: tbl_update_ids)
  qed
qed

lemma recorded_rows_set:
  "set (recorded_rows d sid) = {r \<in> set (db_staging d). stg_session_id r = sid \<and> stg_state r = ST_recorded}"
  by (auto simp: recorded_rows_def)

lemma unique_staging_eq:
  "unique_staging d \<Longrightarrow> r \<in> set (db_staging d) \<Longrightarrow> r' \<in> set (db_staging d) \<Longrightarrow> stg_id r = stg_id r' \<Longrightarrow> r = r'"
  by (auto simp: unique_staging_def distinct_map dest: inj_onD)

lemma apply_recordedE:
  assumes "apply_recorded h s d = Inr (c, q, d')"
  obtains d1 where "apply_rows h s (recorded_rows d (sess_id s)) 0 0 d = Inr (c, q, d1)"
    "db_staging d' = db_staging d1" "db_questions d' = db_questions d1" "db_sessions d' = db_sessions d"
    "db_attempts d' = db_attempts d" "db_revisions d' = db_revisions d" "db_now d' = db_now d"
    "db_admissions d' = db_admissions d" "db_heads d' = db_heads d" "db_jobs d' = db_jobs d"
    "db_claims d' = db_claims d" "db_config_heads d' = db_config_heads d"
    "audit_wf d \<Longrightarrow> audit_wf d'"
proof -
  from assms obtain d1 where r: "apply_rows h s (recorded_rows d (sess_id s)) 0 0 d = Inr (c, q, d1)"
    and d': "d' = (if recorded_rows d (sess_id s) = [] then d1
      else session_event AE_STAGING_VALIDATED (sess_id s)
        [(''applied'', JInt (int (length (recorded_rows d (sess_id s))))), (''claims'', JInt (int c)),
         (''questions'', JInt (int q))] None d1)"
    by (auto simp: apply_recorded_def Let_def split: sum.splits)
  note f = apply_rows_frame [OF r]
  have "audit_wf d'" if "audit_wf d"
    using that audit_wf_cong [of d1 d] f d' by (simp add: audit_wf_record_event)
  with r d' f show ?thesis by (intro that [of d1]) simp_all
qed

lemma apply_recorded_staging:
  assumes "apply_recorded h s d = Inr (c, q, d')" and "unique_staging d" and "valid_staging d"
  shows "db_staging d' = tbl_update (\<lambda>r. stg_session_id r = sess_id s \<and> stg_state r = ST_recorded)
    (\<lambda>r. r\<lparr>stg_state := ST_applied\<rparr>) (db_staging d)"
proof -
  let ?rows = "recorded_rows d (sess_id s)"
  from assms(1) obtain d1 where r: "apply_rows h s ?rows 0 0 d = Inr (c, q, d1)" "db_staging d' = db_staging d1"
    by (rule apply_recordedE)
  have v: "\<forall>r\<in>set ?rows. stg_op r \<in> set VALID_OPS"
    using assms(3) unfolding recorded_rows_set valid_staging_def list_all_iff by blast
  have "stg_id x \<in> stg_id ` set ?rows \<longleftrightarrow> stg_session_id x = sess_id s \<and> stg_state x = ST_recorded"
    if "x \<in> set (db_staging d)" for x
    unfolding recorded_rows_set using unique_staging_eq [OF assms(2) that] that by blast
  then have "tbl_update (\<lambda>r. stg_id r \<in> stg_id ` set ?rows) (\<lambda>r. r\<lparr>stg_state := ST_applied\<rparr>) (db_staging d)
      = tbl_update (\<lambda>r. stg_session_id r = sess_id s \<and> stg_state r = ST_recorded)
          (\<lambda>r. r\<lparr>stg_state := ST_applied\<rparr>) (db_staging d)"
    unfolding tbl_update_def by (intro map_cong) simp_all
  with apply_rows_result [OF r(1) v] r(2) show ?thesis by simp
qed

lemma apply_recorded_counts:
  assumes "apply_recorded h s d = Inr (c, q, d')" and "valid_staging d"
  shows "c = tbl_count (\<lambda>r. stg_session_id r = sess_id s \<and> stg_state r = ST_recorded \<and> stg_op r = ''claim'') (db_staging d)"
proof -
  let ?rows = "recorded_rows d (sess_id s)"
  from assms(1) obtain d1 where r: "apply_rows h s ?rows 0 0 d = Inr (c, q, d1)" by (rule apply_recordedE)
  have v: "\<forall>r\<in>set ?rows. stg_op r \<in> set VALID_OPS"
    using assms(2) unfolding recorded_rows_set valid_staging_def list_all_iff by blast
  have "c = length (filter (\<lambda>r. stg_op r = ''claim'') ?rows)"
    using apply_rows_result [OF r v] by simp
  also have "\<dots> = tbl_count (\<lambda>r. stg_session_id r = sess_id s \<and> stg_state r = ST_recorded \<and> stg_op r = ''claim'') (db_staging d)"
    by (simp add: recorded_rows_def tbl_count_def sort_key_filter_commute conj_ac)
  finally show ?thesis .
qed

subsection \<open>Properties\<close>

text \<open>
  C35.  The staging budget holds: a successful record that announces its own operation appends exactly
  one row, leaves every other row untouched, stays within all three limits of the session, numbers
  the row after all rows of the session, and stores a payload free of NUL under the hash of what it
  stores; an unknown operation and an exceeded limit are the only refusals, and they write nothing.
\<close>

theorem staging_stays_within_budget:
  assumes "announces op pc pe pq"
  shows "(case staging_record h limits sid op payload pc pe pq d of
      Inr (row, d') \<Rightarrow>
        db_staging d' = db_staging d @ [row] \<and> within_budget limits d' sid
        \<and> (\<forall>r\<in>set (db_staging d). stg_session_id r = sid \<longrightarrow> stg_seq r < stg_seq row)
        \<and> json_nul_free (JObj (stg_payload row))
        \<and> stg_payload_hash row = host_canonical_sha256 h (JObj (stg_payload row))
    | Inl e \<Rightarrow> (e = ValueError (''invalid staging op: '' @ op) \<and> op \<notin> set VALID_OPS)
        \<or> (\<exists>counter cur prop lmt. e = StagingBudgetExceeded counter cur prop lmt \<and> cur + prop > lmt))"
proof (cases "staging_record h limits sid op payload pc pe pq d")
  case (Inl e)
  then show ?thesis
    by (auto simp: staging_record_def reserve_check_def uuid4_def Let_def split: if_splits)
next
  case (Inr p)
  obtain row d' where p: "p = (row, d')" by (cases p)
  have ok: "staging_record h limits sid op payload pc pe pq d = Inr (row, d')" using Inr p by simp
  note f = staging_record_Inr [OF ok]
  have "within_budget limits d' sid"
    using f(2) assms unfolding reserve_check_Inr within_budget_def announces_def reserve_count_record [OF ok]
    by (auto split: if_splits)
  with f mask_nul_dict_wf [of payload] next_seq_fresh show ?thesis unfolding Inr p by simp
qed

theorem staging_stays_within_budget_witness:
  "\<exists>row d'. staging_record \<lparr>host_frepr = (\<lambda>_. []), host_sha256 = (\<lambda>x. x)\<rparr>
     \<lparr>max_claims_assessed_per_session = 32, max_new_claims_per_session = 1,
      max_evidence_items_per_session = 64, max_new_questions_per_session = 4\<rparr>
     7 ''claim'' [] 1 0 0 empty_db = Inr (row, d') \<and> db_staging d' = [row]"
proof -
  let ?h = "\<lparr>host_frepr = (\<lambda>_. []), host_sha256 = (\<lambda>x. x)\<rparr>"
  let ?l = "\<lparr>max_claims_assessed_per_session = 32, max_new_claims_per_session = 1,
      max_evidence_items_per_session = 64, max_new_questions_per_session = 4\<rparr>"
  have a: "announces ''claim'' 1 0 0" by (simp add: announces_def)
  have "\<exists>x. staging_record ?h ?l 7 ''claim'' [] 1 0 0 empty_db = Inr x"
    by (simp add: staging_record_def VALID_OPS_def reserve_check_def reserve_count_def empty_db_def
        uuid4_def Let_def)
  then obtain row d' where r: "staging_record ?h ?l 7 ''claim'' [] 1 0 0 empty_db = Inr (row, d')" by auto
  have "db_staging empty_db = []" by (simp add: empty_db_def)
  with staging_stays_within_budget [OF a, where h = ?h and limits = ?l and sid = 7 and payload = "[]" and d = empty_db] r show ?thesis by simp
qed

text \<open>
  Applying the staging of a session applies each recorded operation exactly once: the recorded
  rows of the session become applied and nothing else in the table changes, the returned claim count
  is the number of recorded claim operations, every question operation with a text adds one candidate
  question under the session's question, and a second application finds nothing to do.
\<close>

theorem staging_applied_exactly_once:
  assumes "apply_recorded h s d = Inr (c, q, d')" and "unique_staging d" and "valid_staging d"
  shows "db_staging d' = tbl_update (\<lambda>r. stg_session_id r = sess_id s \<and> stg_state r = ST_recorded)
      (\<lambda>r. r\<lparr>stg_state := ST_applied\<rparr>) (db_staging d)
    \<and> c = tbl_count (\<lambda>r. stg_session_id r = sess_id s \<and> stg_state r = ST_recorded \<and> stg_op r = ''claim'') (db_staging d)
    \<and> (\<exists>qs. db_questions d' = db_questions d @ qs \<and> length qs = q
        \<and> list_all (\<lambda>x. q_state x = QS_CANDIDATE \<and> q_parent_id x = sess_question_id s) qs)
    \<and> apply_recorded h s d' = Inr (0, 0, d')"
proof -
  let ?rows = "recorded_rows d (sess_id s)"
  note st = apply_recorded_staging [OF assms]
  from assms(1) obtain d1 where r: "apply_rows h s ?rows 0 0 d = Inr (c, q, d1)" "db_questions d' = db_questions d1"
    by (rule apply_recordedE)
  have v: "\<forall>r\<in>set ?rows. stg_op r \<in> set VALID_OPS"
    using assms(3) unfolding recorded_rows_set valid_staging_def list_all_iff by blast
  from apply_rows_result [OF r(1) v] obtain qs where "db_questions d1 = db_questions d @ qs" "length qs = q"
    "\<forall>x\<in>set qs. q_state x = QS_CANDIDATE \<and> q_parent_id x = sess_question_id s \<and> length (q_text x) \<le> 2000"
    by auto
  then have q: "\<exists>qs. db_questions d' = db_questions d @ qs \<and> length qs = q
        \<and> list_all (\<lambda>x. q_state x = QS_CANDIDATE \<and> q_parent_id x = sess_question_id s) qs"
    using r(2) by (auto simp: list_all_iff)
  have "filter (\<lambda>r. stg_session_id r = sess_id s \<and> stg_state r = ST_recorded) (db_staging d') = []"
    unfolding st by (auto simp: filter_empty_conv set_tbl_update split: if_splits)
  then have "recorded_rows d' (sess_id s) = []" by (simp add: recorded_rows_def)
  then have "apply_recorded h s d' = Inr (0, 0, d')" by (simp add: apply_recorded_def)
  with st q apply_recorded_counts [OF assms(1,3)] show ?thesis by blast
qed

theorem staging_applied_exactly_once_witness:
  "\<exists>d'. apply_recorded \<lparr>host_frepr = (\<lambda>_. []), host_sha256 = (\<lambda>x. x)\<rparr> (new_session 7 1 0)
     (empty_db\<lparr>db_staging := [\<lparr>stg_id = 3, stg_session_id = 7, stg_op = ''claim'', stg_payload = [],
        stg_payload_hash = [], stg_schema_version = 1, stg_seq = 0, stg_state = ST_recorded,
        stg_created_at = 0\<rparr>]\<rparr>) = Inr (1, 0, d')
     \<and> map stg_state (db_staging d') = [ST_applied]"
proof -
  let ?h = "\<lparr>host_frepr = (\<lambda>_. []), host_sha256 = (\<lambda>x. x)\<rparr>"
  let ?d = "empty_db\<lparr>db_staging := [\<lparr>stg_id = 3, stg_session_id = 7, stg_op = ''claim'', stg_payload = [],
        stg_payload_hash = [], stg_schema_version = 1, stg_seq = 0, stg_state = ST_recorded,
        stg_created_at = 0\<rparr>]\<rparr>"
  have "\<exists>d'. apply_recorded ?h (new_session 7 1 0) ?d = Inr (1, 0, d')"
    by (simp add: apply_recorded_def recorded_rows_def new_session_def)
  then obtain d' where a: "apply_recorded ?h (new_session 7 1 0) ?d = Inr (1, 0, d')" ..
  have u: "unique_staging ?d" "valid_staging ?d"
    by (simp_all add: unique_staging_def valid_staging_def VALID_OPS_def)
  have "db_staging d' = tbl_update (\<lambda>r. stg_session_id r = sess_id (new_session 7 1 0) \<and> stg_state r = ST_recorded)
      (\<lambda>r. r\<lparr>stg_state := ST_applied\<rparr>) (db_staging ?d)"
    using staging_applied_exactly_once [OF a u] by (rule conjunct1)
  with a show ?thesis by (simp add: new_session_def)
qed

end
