(* ===== verification/Commit.thy ===== *)
theory Commit
  imports Locks Staging
begin

section \<open>The commit boundary\<close>

text \<open>
  \<open>packages/domain/services/commit.py\<close>: \<open>prepare\<close> writes the durable prepared attempt, \<open>finalize\<close> runs the
  fenced final transaction.  Both work inside the caller's transaction: an error value stands for an
  exception, after which the caller rolls back.  The memory application is the callback
  \<open>apply_memory\<close> of the code, an argument here too.  Readings of \<open>datetime.now(UTC)\<close> are arguments.
\<close>

subsection \<open>Prepare\<close>

definition staging_hash :: "host \<Rightarrow> db \<Rightarrow> uuid \<Rightarrow> string" where
  "staging_hash h d sid =
     host_canonical_sha256 h (JArr (map (\<lambda>r. JObj
       [(''op'', JStr (stg_op r)), (''payload_hash'', JStr (stg_payload_hash r)),
        (''schema_version'', JInt (stg_schema_version r))]) (recorded_rows d sid)))"

definition revision_of :: "db \<Rightarrow> string \<Rightarrow> exn + int" where
  "revision_of d sc =
     (case get_revision d sc of
        None \<Rightarrow> Inl (NoResultFound ''No row was found when one was required'')
      | Some r \<Rightarrow> Inr (rev_revision r))"

definition prepare ::
  "host \<Rightarrow> instant \<Rightarrow> uuid \<Rightarrow> uuid option \<Rightarrow> db \<Rightarrow> exn + (attempt_row \<times> db)" where
  "prepare h utc sid manifest_id d =
     (case revision_of d ''knowledge'' of Inl e \<Rightarrow> Inl e | Inr k \<Rightarrow>
      case revision_of d ''dependency_graph'' of Inl e \<Rightarrow> Inl e | Inr g \<Rightarrow>
        let (i, d1) = uuid4 d;
            attempt = \<lparr>att_id = i, att_session_id = sid, att_status = CA_PREPARED,
              att_staging_hash = staging_hash h d sid, att_workspace_manifest_id = manifest_id,
              att_base_knowledge_revision = k, att_base_dependency_graph_revision = g,
              att_prepared_at = db_now d, att_finished_at = None\<rparr>;
            d2 = d1\<lparr>db_attempts := db_attempts d1 @ [attempt]\<rparr>;
            d3 = update_session (\<lambda>s. sess_id s = sid)
              (\<lambda>s. s\<lparr>sess_commit_attempt_id := Some i, sess_commit_intent_at := Some utc\<rparr>) d2
        in Inr (attempt, session_event AE_COMMIT_ATTEMPT_PREPARED sid
             [(''attempt_id'', JStr (uuid_str i)),
              (''staging_hash'', JStr (att_staging_hash attempt)),
              (''workspace_manifest_id'', opt_uuid_json manifest_id),
              (''base_knowledge_revision'', JInt k),
              (''base_dependency_graph_revision'', JInt g)] None d3))"

subsection \<open>The fence\<close>

datatype finalize_outcome = FO_committed | FO_fencing_conflict | FO_lease_lost | FO_attempt_missing

record finalize_result =
  fr_outcome :: finalize_outcome
  fr_attempt_id :: uuid
  fr_knowledge_revision :: "int option"
  fr_applied_claims :: nat
  fr_applied_questions :: nat

definition plain_result :: "finalize_outcome \<Rightarrow> uuid \<Rightarrow> finalize_result" where
  "plain_result out aid =
     \<lparr>fr_outcome = out, fr_attempt_id = aid, fr_knowledge_revision = None,
      fr_applied_claims = 0, fr_applied_questions = 0\<rparr>"

record finalize_args =
  fa_terminal :: session_state
  fa_steps :: int
  fa_evidence_count :: int
  fa_claims :: int
  fa_questions_created :: int
  fa_termination_reason :: "string option"
  fa_question_id :: "uuid option"
  fa_question_terminal :: "question_state option"

type_synonym memory_callback = "session_row \<Rightarrow> db \<Rightarrow> exn + (json_dict \<times> db)"

text \<open>\<open>COALESCE(d->>'kind', 'evidential') = 'evidential'\<close> for an element of the dependencies.\<close>

definition is_evidential :: "json \<Rightarrow> bool" where
  "is_evidential v = (case v of
     JObj kvs \<Rightarrow> (case map_of kvs ''kind'' of
         None \<Rightarrow> True | Some JNull \<Rightarrow> True | Some (JStr s) \<Rightarrow> s = ''evidential'' | Some _ \<Rightarrow> False)
   | _ \<Rightarrow> True)"

definition touches_dependency_graph :: "db \<Rightarrow> uuid \<Rightarrow> bool" where
  "touches_dependency_graph d sid =
     list_ex (\<lambda>r. stg_session_id r = sid \<and> stg_op r = ''claim'' \<and> stg_state r = ST_recorded \<and>
       (case map_of (stg_payload r) ''dependencies'' of
          Some (JArr deps) \<Rightarrow> list_ex is_evidential deps | _ \<Rightarrow> False)) (db_staging d)"

text \<open>The outcome the fence decides, \<open>None\<close> when every condition holds.\<close>

definition fence :: "db \<Rightarrow> session_row \<Rightarrow> attempt_row \<Rightarrow> string \<Rightarrow> bool \<Rightarrow> finalize_outcome option" where
  "fence d s attempt owner touches =
     (case get_session d (sess_id s) of None \<Rightarrow> Some FO_attempt_missing | Some srow \<Rightarrow>
      case get_revision d ''knowledge'' of None \<Rightarrow> Some FO_attempt_missing | Some k \<Rightarrow>
      case sess_commit_attempt_id srow of None \<Rightarrow> Some FO_attempt_missing | Some aid \<Rightarrow>
      case get_attempt d aid of None \<Rightarrow> Some FO_attempt_missing | Some a \<Rightarrow>
        if sess_state srow \<noteq> SS_COMMITTING then Some FO_fencing_conflict
        else if \<not> (sess_lease_owner srow = Some owner \<and> is_after (sess_lease_expires_at srow) (db_now d))
        then Some FO_lease_lost
        else if rev_revision k \<noteq> att_base_knowledge_revision attempt then Some FO_fencing_conflict
        else if touches \<and> map_option rev_revision (get_revision d ''dependency_graph'')
                  \<noteq> Some (att_base_dependency_graph_revision attempt)
        then Some FO_fencing_conflict
        else if att_status a \<noteq> CA_PREPARED then Some FO_fencing_conflict
        else None)"

subsection \<open>The fenced abort\<close>

definition close_session ::
  "uuid \<Rightarrow> session_state \<Rightarrow> string option \<Rightarrow> instant \<Rightarrow> db \<Rightarrow> db" where
  "close_session sid terminal reason utc d =
     update_session_state (\<lambda>s. sess_id s = sid)
       (\<lambda>s. s\<lparr>sess_state := terminal, sess_termination_reason := reason,
              sess_finished_at := Some utc, sess_lease_owner := None,
              sess_lease_expires_at := None, sess_commit_intent_at := None\<rparr>) d"

definition settle_attempt :: "uuid \<Rightarrow> commit_attempt_status \<Rightarrow> instant \<Rightarrow> db \<Rightarrow> db" where
  "settle_attempt aid st utc d =
     update_attempt aid (\<lambda>a. a\<lparr>att_status := st, att_finished_at := Some utc\<rparr>) d"

definition fenced_abort ::
  "instant \<Rightarrow> instant \<Rightarrow> session_row \<Rightarrow> attempt_row \<Rightarrow> finalize_args \<Rightarrow> db \<Rightarrow> db" where
  "fenced_abort utc1 utc2 s attempt fa d =
     (let reason = fa_termination_reason fa;
          d1 = settle_attempt (att_id attempt) CA_ABORTED utc1 d;
          d2 = close_session (sess_id s) (fa_terminal fa) reason utc2 d1;
          d3 = session_event AE_SESSION_FAILED (sess_id s)
            [(''attempt_id'', JStr (uuid_str (att_id attempt))), (''reason'', opt_json JStr reason),
             (''steps'', JInt (fa_steps fa)), (''evidence'', JInt (fa_evidence_count fa))]
            (Some (''session failed at the commit boundary ('' @ opt_str reason @ '')'')) d2
      in session_event AE_COMMIT_ATTEMPT_ABORTED (sess_id s)
           [(''attempt_id'', JStr (uuid_str (att_id attempt))), (''reason'', opt_json JStr reason)]
           None d3)"

subsection \<open>The pointer-drift backstop\<close>

definition carry_head :: "uuid \<Rightarrow> uuid \<Rightarrow> db \<Rightarrow> db" where
  "carry_head snap c d =
     (if list_ex (\<lambda>r. hd_claim_id r = c \<and> hd_config_snapshot_id r = snap) (db_heads d) then d
      else d\<lparr>db_heads := db_heads d @
        [\<lparr>hd_claim_id = c, hd_config_snapshot_id = snap, hd_assessment_state = AS_PENDING,
          hd_current_assessment_id = None, hd_epistemic_status = None,
          hd_prepared_by = ''commit_carryover'', hd_updated_at = db_now d\<rparr>]\<rparr>)"

definition has_active_job :: "uuid \<Rightarrow> uuid \<Rightarrow> db \<Rightarrow> bool" where
  "has_active_job c snap d =
     list_ex (\<lambda>j. job_claim_id j = c \<and> job_target_config_snapshot_id j = snap \<and>
       job_is_active (job_status j)) (db_jobs d)"

text \<open>A queued job as \<open>ORMReassessmentJob(...)\<close> creates it.\<close>

definition queued_job :: "uuid \<Rightarrow> uuid \<Rightarrow> uuid \<Rightarrow> string \<Rightarrow> instant \<Rightarrow> job_row" where
  "queued_job i c snap reason now =
     \<lparr>job_id = i, job_claim_id = c, job_target_config_snapshot_id = snap, job_status = RJ_QUEUED,
      job_reason = Some reason, job_priority = 0, job_enqueued_at = now, job_attempts = 0,
      job_max_attempts = 78, job_error_class = None, job_lease_owner = None,
      job_lease_expires_at = None, job_next_attempt_at = None, job_blocked_at = None,
      job_completed_at = None, job_last_error = None\<rparr>"

definition carry_job :: "uuid \<Rightarrow> uuid \<Rightarrow> db \<Rightarrow> db" where
  "carry_job snap c d =
     (if has_active_job c snap d then d
      else let (i, d1) = uuid4 d
           in d1\<lparr>db_jobs := db_jobs d1 @ [queued_job i c snap ''commit_carryover'' (db_now d)]\<rparr>)"

definition carry_over :: "session_row \<Rightarrow> attempt_row \<Rightarrow> db \<Rightarrow> exn + db" where
  "carry_over s attempt d =
     (case tbl_get rch_scope ''global'' (db_config_heads d) of
        None \<Rightarrow> Inl (NoResultFound ''No row was found when one was required'')
      | Some hrow \<Rightarrow>
          let ptr = rch_active_config_snapshot_id hrow in
          if sess_config_snapshot_id s = ptr then Inr d
          else
            let new_claims = sort (map cl_id (filter (\<lambda>c. cl_created_in_session c = Some (sess_id s))
                  (db_claims d)));
                d1 = fold (\<lambda>c. carry_job ptr c \<circ> carry_head ptr c) new_claims d
            in Inr (if new_claims = [] then d1
               else session_event AE_COMMIT_SNAPSHOT_DRIFT (sess_id s)
                 [(''attempt_id'', JStr (uuid_str (att_id attempt))),
                  (''session_snapshot'', JStr (uuid_str (sess_config_snapshot_id s))),
                  (''active_snapshot'', JStr (uuid_str ptr)),
                  (''carried_claims'', JArr (map (JStr \<circ> uuid_str) new_claims))]
                 (Some (nat_str (length new_claims) @ '' claims carried over to the active snapshot (commit under superseded ''
                    @ uuid_str (sess_config_snapshot_id s) @ '')'')) d1))"

subsection \<open>The final transaction\<close>

definition bump_revision :: "string \<Rightarrow> int \<Rightarrow> db \<Rightarrow> bool \<times> db" where
  "bump_revision sc base d =
     (let sel = (\<lambda>r. rev_scope r = sc \<and> rev_revision r = base)
      in (list_ex sel (db_revisions d),
          d\<lparr>db_revisions := tbl_update sel
            (\<lambda>r. r\<lparr>rev_revision := base + 1, rev_updated_at := db_now d\<rparr>) (db_revisions d)\<rparr>))"

definition written_question_state :: "finalize_args \<Rightarrow> nat \<Rightarrow> question_state option" where
  "written_question_state fa applied_claims =
     (case (fa_question_id fa, fa_question_terminal fa) of
        (Some q, Some t) \<Rightarrow>
          Some (if t = QS_VERIFIED \<and> applied_claims \<le> 0 then QS_PARTIALLY_ANSWERED else t)
      | _ \<Rightarrow> None)"

definition write_question :: "finalize_args \<Rightarrow> nat \<Rightarrow> db \<Rightarrow> db" where
  "write_question fa applied_claims d =
     (case (fa_question_id fa, written_question_state fa applied_claims) of
        (Some q, Some st) \<Rightarrow>
          d\<lparr>db_questions := tbl_update (\<lambda>r. q_id r = q) (\<lambda>r. r\<lparr>q_state := st\<rparr>) (db_questions d)\<rparr>
      | _ \<Rightarrow> d)"

definition set_workspace_pointer :: "session_row \<Rightarrow> attempt_row \<Rightarrow> db \<Rightarrow> db" where
  "set_workspace_pointer s attempt d =
     (case att_workspace_manifest_id attempt of
        None \<Rightarrow> d
      | Some m \<Rightarrow> update_session (\<lambda>r. sess_id r = sess_id s)
          (\<lambda>r. r\<lparr>sess_committed_workspace_manifest_id := Some m\<rparr>) d)"

text \<open>The dependency graph revision: the new value when an evidential edge was written.\<close>

definition bump_graph :: "attempt_row \<Rightarrow> bool \<Rightarrow> json_dict \<Rightarrow> db \<Rightarrow> exn + (int option \<times> db)" where
  "bump_graph attempt touches memory d =
     (if \<not> touches then Inr (None, d)
      else case py_int (dict_get memory ''dependencies_evidential_added'' (JInt 0)) of
        Inl e \<Rightarrow> Inl e
      | Inr n \<Rightarrow>
          if n \<le> 0 then Inr (None, d)
          else let (hit, d1) = bump_revision ''dependency_graph'' (att_base_dependency_graph_revision attempt) d
               in if hit then Inr (Some (att_base_dependency_graph_revision attempt + 1), d1)
                  else Inl (RuntimeError ''dependency_graph revision CAS failed''))"

definition commit_events ::
  "session_row \<Rightarrow> attempt_row \<Rightarrow> finalize_args \<Rightarrow> int \<Rightarrow> int option \<Rightarrow> json_dict \<Rightarrow> nat \<Rightarrow> db \<Rightarrow> db" where
  "commit_events s attempt fa new_rev new_graph_rev memory applied_claims d =
     (let ev = (if fa_terminal fa = SS_SUCCEEDED then AE_SESSION_COMMITTED else AE_SESSION_STATE_CHANGED);
          tv = session_state_value (fa_terminal fa);
          d1 = session_event ev (sess_id s)
            [(''attempt_id'', JStr (uuid_str (att_id attempt))), (''terminal'', JStr tv),
             (''steps'', JInt (fa_steps fa)), (''evidence'', JInt (fa_evidence_count fa)),
             (''claims'', JInt (fa_claims fa)), (''questions_created'', JInt (fa_questions_created fa))]
            (Some (''session '' @ tv @ '' (fenced commit)'')) d
      in session_event AE_COMMIT_ATTEMPT_COMMITTED (sess_id s)
           [(''attempt_id'', JStr (uuid_str (att_id attempt))), (''knowledge_revision'', JInt new_rev),
            (''dependency_graph_revision'', opt_json JInt new_graph_rev), (''memory'', JObj memory),
            (''question_state'', opt_json (JStr \<circ> question_state_value)
               (written_question_state fa applied_claims))] None d1)"

text \<open>Steps 3b to 6, after the memory was applied.\<close>

definition finish_commit ::
  "host \<Rightarrow> instant \<Rightarrow> instant \<Rightarrow> session_row \<Rightarrow> attempt_row \<Rightarrow> bool \<Rightarrow> finalize_args \<Rightarrow> json_dict \<Rightarrow> db \<Rightarrow>
   exn + (finalize_result \<times> db)" where
  "finish_commit h utc1 utc2 s attempt touches fa memory d =
     (case apply_recorded h s d of Inl e \<Rightarrow> Inl e | Inr (claims, questions, d1) \<Rightarrow>
        let d2 = set_workspace_pointer s attempt d1;
            new_rev = att_base_knowledge_revision attempt + 1;
            d3 = snd (bump_revision ''knowledge'' (att_base_knowledge_revision attempt) d2)
        in case bump_graph attempt touches memory d3 of Inl e \<Rightarrow> Inl e | Inr (graph_rev, d4) \<Rightarrow>
          let d5 = settle_attempt (att_id attempt) CA_COMMITTED utc1 d4;
              d6 = write_question fa claims d5;
              d7 = close_session (sess_id s) (fa_terminal fa) (fa_termination_reason fa) utc2 d6
          in Inr (\<lparr>fr_outcome = FO_committed, fr_attempt_id = att_id attempt,
                   fr_knowledge_revision = Some new_rev, fr_applied_claims = claims,
                   fr_applied_questions = questions\<rparr>,
                  commit_events s attempt fa new_rev graph_rev memory claims d7))"

definition run_memory :: "memory_callback option \<Rightarrow> session_row \<Rightarrow> attempt_row \<Rightarrow> db \<Rightarrow> exn + (json_dict \<times> db)" where
  "run_memory apply_memory s attempt d =
     (case apply_memory of
        None \<Rightarrow> Inr ([], d)
      | Some f \<Rightarrow> (case f s d of Inl e \<Rightarrow> Inl e | Inr (memory, d1) \<Rightarrow>
          (case carry_over s attempt d1 of Inl e \<Rightarrow> Inl e | Inr d2 \<Rightarrow> Inr (memory, d2))))"

definition finalize ::
  "host \<Rightarrow> instant \<Rightarrow> instant \<Rightarrow> session_row \<Rightarrow> attempt_row \<Rightarrow> string \<Rightarrow> finalize_args \<Rightarrow>
   memory_callback option \<Rightarrow> db \<Rightarrow> exn + (finalize_result \<times> db)" where
  "finalize h utc1 utc2 s attempt owner fa apply_memory d =
     (let touches = touches_dependency_graph d (sess_id s) in
      case lock_commit_set d (sess_id s) (att_id attempt) touches of Inl e \<Rightarrow> Inl e | Inr _ \<Rightarrow>
      case fence d s attempt owner touches of
        Some out \<Rightarrow> Inr (plain_result out (att_id attempt), d)
      | None \<Rightarrow>
          if fa_terminal fa = SS_FAILED
          then Inr (plain_result FO_committed (att_id attempt), fenced_abort utc1 utc2 s attempt fa d)
          else case run_memory apply_memory s attempt d of Inl e \<Rightarrow> Inl e | Inr (memory, d1) \<Rightarrow>
            finish_commit h utc1 utc2 s attempt touches fa memory d1)"

subsection \<open>What the memory callback may touch\<close>

text \<open>
  The memory service writes claims, evidence, dependencies, assessments, heads and audit events, and
  none of the rows the commit protocol relies on.
\<close>

definition commit_rows :: "db \<Rightarrow> session_row list \<times> attempt_row list \<times> revision_row list \<times>
    staging_row list \<times> question_row list \<times> admission_row list \<times> instant \<times> (nat \<Rightarrow> uuid)" where
  "commit_rows d = (db_sessions d, db_attempts d, db_revisions d, db_staging d, db_questions d,
     db_admissions d, db_now d, db_uuid4 d)"

definition memory_keeps :: "memory_callback option \<Rightarrow> bool" where
  "memory_keeps apply_memory \<longleftrightarrow>
     (\<forall>f s d m d'. apply_memory = Some f \<and> f s d = Inr (m, d') \<longrightarrow>
        commit_rows d' = commit_rows d \<and> db_draws d \<le> db_draws d' \<and> (audit_wf d \<longrightarrow> audit_wf d'))"

lemma commit_rows_eq:
  "commit_rows d' = commit_rows d \<longleftrightarrow>
     db_sessions d' = db_sessions d \<and> db_attempts d' = db_attempts d \<and> db_revisions d' = db_revisions d
     \<and> db_staging d' = db_staging d \<and> db_questions d' = db_questions d \<and> db_admissions d' = db_admissions d
     \<and> db_now d' = db_now d \<and> db_uuid4 d' = db_uuid4 d"
  by (auto simp: commit_rows_def)

lemma commit_rows_record_event [simp]: "commit_rows (record_event ty sid p a s v d) = commit_rows d"
  by (simp add: commit_rows_def)

lemma carry_step_keeps:
  "commit_rows (carry_job snap c (carry_head snap c d)) = commit_rows d
   \<and> db_draws d \<le> db_draws (carry_job snap c (carry_head snap c d))
   \<and> db_events (carry_job snap c (carry_head snap c d)) = db_events d
   \<and> db_outbox (carry_job snap c (carry_head snap c d)) = db_outbox d"
  by (auto simp: carry_job_def carry_head_def uuid4_def Let_def commit_rows_def)

lemma carry_fold_keeps:
  "commit_rows (fold (\<lambda>c. carry_job snap c \<circ> carry_head snap c) cs d) = commit_rows d
   \<and> db_draws d \<le> db_draws (fold (\<lambda>c. carry_job snap c \<circ> carry_head snap c) cs d)
   \<and> db_events (fold (\<lambda>c. carry_job snap c \<circ> carry_head snap c) cs d) = db_events d
   \<and> db_outbox (fold (\<lambda>c. carry_job snap c \<circ> carry_head snap c) cs d) = db_outbox d"
proof (induction cs arbitrary: d)
  case (Cons c cs)
  from Cons [of "carry_job snap c (carry_head snap c d)"] carry_step_keeps [of snap c d]
  show ?case by simp
qed simp

lemma carry_over_keeps:
  assumes "carry_over s attempt d = Inr d'"
  shows "commit_rows d' = commit_rows d \<and> db_draws d \<le> db_draws d' \<and> (audit_wf d \<longrightarrow> audit_wf d')"
proof -
  let ?F = "\<lambda>ptr cs. fold (\<lambda>c. carry_job ptr c \<circ> carry_head ptr c) cs d"
  have "audit_wf (?F ptr cs) = audit_wf d" for ptr cs
    using carry_fold_keeps [of ptr cs d] by (intro audit_wf_cong) simp_all
  moreover have "db_draws d \<le> Suc (Suc (db_draws (?F ptr cs)))" for ptr cs
    using carry_fold_keeps [of ptr cs d] by simp
  ultimately show ?thesis
    using assms carry_fold_keeps
    by (auto simp: carry_over_def Let_def audit_wf_record_event split: option.splits if_splits)
qed

lemma run_memory_keeps:
  assumes "memory_keeps am" and "run_memory am s attempt d = Inr (m, d')"
  shows "commit_rows d' = commit_rows d \<and> db_draws d \<le> db_draws d' \<and> (audit_wf d \<longrightarrow> audit_wf d')"
proof (cases am)
  case None
  with assms(2) show ?thesis by (simp add: run_memory_def)
next
  case (Some f)
  then obtain d1 where f: "f s d = Inr (m, d1)" and c: "carry_over s attempt d1 = Inr d'"
    using assms(2) by (auto simp: run_memory_def split: sum.splits)
  have "commit_rows d1 = commit_rows d \<and> db_draws d \<le> db_draws d1 \<and> (audit_wf d \<longrightarrow> audit_wf d1)"
    using assms(1) Some f unfolding memory_keeps_def by blast
  with carry_over_keeps [OF c] show ?thesis by auto
qed

subsection \<open>Facts about the steps of the final transaction\<close>

lemma close_session_frame [simp]:
  "db_now (close_session i t r u d) = db_now d"
  "db_uuid4 (close_session i t r u d) = db_uuid4 d"
  "db_draws (close_session i t r u d) = db_draws d"
  "db_attempts (close_session i t r u d) = db_attempts d"
  "db_revisions (close_session i t r u d) = db_revisions d"
  "db_staging (close_session i t r u d) = db_staging d"
  "db_questions (close_session i t r u d) = db_questions d"
  "db_events (close_session i t r u d) = db_events d"
  "db_outbox (close_session i t r u d) = db_outbox d"
  by (simp_all add: close_session_def)

lemma settle_attempt_frame [simp]:
  "db_now (settle_attempt i st u d) = db_now d"
  "db_uuid4 (settle_attempt i st u d) = db_uuid4 d"
  "db_draws (settle_attempt i st u d) = db_draws d"
  "db_sessions (settle_attempt i st u d) = db_sessions d"
  "db_revisions (settle_attempt i st u d) = db_revisions d"
  "db_staging (settle_attempt i st u d) = db_staging d"
  "db_questions (settle_attempt i st u d) = db_questions d"
  "db_admissions (settle_attempt i st u d) = db_admissions d"
  "db_events (settle_attempt i st u d) = db_events d"
  "db_outbox (settle_attempt i st u d) = db_outbox d"
  "db_attempts (settle_attempt i st u d) =
     tbl_update (\<lambda>r. att_id r = i) (\<lambda>a. a\<lparr>att_status := st, att_finished_at := Some u\<rparr>) (db_attempts d)"
  by (simp_all add: settle_attempt_def) (simp add: update_attempt_def)

lemma write_question_frame [simp]:
  "db_now (write_question fa n d) = db_now d"
  "db_uuid4 (write_question fa n d) = db_uuid4 d"
  "db_draws (write_question fa n d) = db_draws d"
  "db_sessions (write_question fa n d) = db_sessions d"
  "db_attempts (write_question fa n d) = db_attempts d"
  "db_revisions (write_question fa n d) = db_revisions d"
  "db_staging (write_question fa n d) = db_staging d"
  "db_admissions (write_question fa n d) = db_admissions d"
  "db_events (write_question fa n d) = db_events d"
  "db_outbox (write_question fa n d) = db_outbox d"
  by (auto simp: write_question_def split: option.splits prod.splits)

lemma set_workspace_pointer_frame [simp]:
  "db_now (set_workspace_pointer s a d) = db_now d"
  "db_uuid4 (set_workspace_pointer s a d) = db_uuid4 d"
  "db_draws (set_workspace_pointer s a d) = db_draws d"
  "db_attempts (set_workspace_pointer s a d) = db_attempts d"
  "db_revisions (set_workspace_pointer s a d) = db_revisions d"
  "db_staging (set_workspace_pointer s a d) = db_staging d"
  "db_questions (set_workspace_pointer s a d) = db_questions d"
  "db_admissions (set_workspace_pointer s a d) = db_admissions d"
  "db_events (set_workspace_pointer s a d) = db_events d"
  "db_outbox (set_workspace_pointer s a d) = db_outbox d"
  by (auto simp: set_workspace_pointer_def update_session_def split: option.splits)

lemma bump_revision_frame [simp]:
  "db_now (snd (bump_revision sc b d)) = db_now d"
  "db_uuid4 (snd (bump_revision sc b d)) = db_uuid4 d"
  "db_draws (snd (bump_revision sc b d)) = db_draws d"
  "db_sessions (snd (bump_revision sc b d)) = db_sessions d"
  "db_attempts (snd (bump_revision sc b d)) = db_attempts d"
  "db_staging (snd (bump_revision sc b d)) = db_staging d"
  "db_questions (snd (bump_revision sc b d)) = db_questions d"
  "db_admissions (snd (bump_revision sc b d)) = db_admissions d"
  "db_events (snd (bump_revision sc b d)) = db_events d"
  "db_outbox (snd (bump_revision sc b d)) = db_outbox d"
  by (simp_all add: bump_revision_def Let_def)

lemma bump_graph_frame:
  assumes "bump_graph a t m d = Inr (g, d')"
  shows "db_now d' = db_now d" "db_uuid4 d' = db_uuid4 d" "db_draws d' = db_draws d"
    "db_sessions d' = db_sessions d" "db_attempts d' = db_attempts d" "db_staging d' = db_staging d"
    "db_questions d' = db_questions d" "db_admissions d' = db_admissions d" "db_events d' = db_events d"
    "db_outbox d' = db_outbox d" "get_revision d' ''knowledge'' = get_revision d ''knowledge''"
proof -
  have "tbl_get rev_scope ''knowledge'' (tbl_update (\<lambda>r. rev_scope r = ''dependency_graph'' \<and> rev_revision r = b)
      (\<lambda>r. r\<lparr>rev_revision := b + 1, rev_updated_at := t\<rparr>) rs) = tbl_get rev_scope ''knowledge'' rs" for b t rs
    by (induction rs) auto
  with assms show "get_revision d' ''knowledge'' = get_revision d ''knowledge''"
    by (auto simp: bump_graph_def bump_revision_def get_revision_def Let_def split: if_splits sum.splits)
qed (use assms in \<open>auto simp: bump_graph_def bump_revision_def Let_def split: if_splits sum.splits\<close>)

lemma commit_events_frame [simp]:
  "commit_rows (commit_events s a fa n g m k d) = commit_rows d"
  "get_session (commit_events s a fa n g m k d) i = get_session d i"
  "get_revision (commit_events s a fa n g m k d) sc = get_revision d sc"
  "db_draws (commit_events s a fa n g m k d) = db_draws d + 4"
  by (simp_all add: commit_events_def Let_def)

lemma knowledge_bumped:
  "get_revision d ''knowledge'' = Some k \<Longrightarrow> rev_revision k = b \<Longrightarrow>
   map_option rev_revision (get_revision (snd (bump_revision ''knowledge'' b d)) ''knowledge'') = Some (b + 1)"
proof -
  have "tbl_get rev_scope ''knowledge'' rs = Some k \<Longrightarrow> rev_revision k = b \<Longrightarrow>
      map_option rev_revision (tbl_get rev_scope ''knowledge''
        (tbl_update (\<lambda>r. rev_scope r = ''knowledge'' \<and> rev_revision r = b)
          (\<lambda>r. r\<lparr>rev_revision := b + 1, rev_updated_at := t\<rparr>) rs)) = Some (b + 1)" for t rs
    by (induction rs) (auto split: if_splits)
  then show "get_revision d ''knowledge'' = Some k \<Longrightarrow> rev_revision k = b \<Longrightarrow> ?thesis"
    by (simp add: bump_revision_def get_revision_def Let_def)
qed

lemma tbl_get_update_id:
  assumes "\<And>r. key (f r) = key r"
  shows "tbl_get key k (tbl_update (\<lambda>r. key r = i) f t) =
    (if k = i then map_option f (tbl_get key k t) else tbl_get key k t)"
  using assms by (induction t) auto

text \<open>A row update that ends a session.\<close>

definition closes :: "session_state \<Rightarrow> (session_row \<Rightarrow> session_row) \<Rightarrow> bool" where
  "closes t f \<longleftrightarrow> (\<forall>r. sess_id (f r) = sess_id r \<and> sess_state (f r) = t \<and>
     sess_lease_owner (f r) = None \<and> sess_lease_expires_at (f r) = None \<and>
     sess_commit_intent_at (f r) = None \<and> sess_commit_attempt_id (f r) = sess_commit_attempt_id r)"

lemma closesD:
  assumes "closes t f"
  shows "sess_id (f r) = sess_id r" "sess_state (f r) = t" "sess_lease_owner (f r) = None"
    "sess_lease_expires_at (f r) = None" "sess_commit_intent_at (f r) = None"
    "sess_commit_attempt_id (f r) = sess_commit_attempt_id r"
  using assms by (simp_all add: closes_def)

lemma close_session_closes:
  "\<exists>f. closes t f \<and> db_sessions (close_session i t reason u d) =
     tbl_update (\<lambda>s. sess_id s = i) f (db_sessions d)"
  unfolding close_session_def update_session_state_frame
  by (intro exI conjI) (auto simp: closes_def)

lemma close_session_admissions:
  assumes "get_session d i = Some s" and "is_terminal t"
  shows "a \<in> set (db_admissions (close_session i t reason u d)) \<Longrightarrow> adm_session_id a \<noteq> i"
  using assms get_session_SomeD [OF assms(1)]
  by (force simp: close_session_def update_session_state_def Let_def)

lemma tbl_update_compose:
  "(\<And>r. p (g r) = p r) \<Longrightarrow> tbl_update p f (tbl_update p g t) = tbl_update p (f \<circ> g) t"
  by (induction t) auto

lemma workspace_then_close:
  assumes "closes t f"
  shows "\<exists>g. closes t g \<and>
    tbl_update (\<lambda>r. sess_id r = sess_id s) f (db_sessions (set_workspace_pointer s a d)) =
    tbl_update (\<lambda>r. sess_id r = sess_id s) g (db_sessions d)"
proof (cases "att_workspace_manifest_id a")
  case None
  with assms show ?thesis by (auto simp: set_workspace_pointer_def)
next
  case (Some m)
  let ?w = "\<lambda>r. r\<lparr>sess_committed_workspace_manifest_id := Some m\<rparr>"
  have "closes t (f \<circ> ?w)" using assms by (simp add: closes_def)
  moreover have "tbl_update (\<lambda>r. sess_id r = sess_id s) f (db_sessions (set_workspace_pointer s a d)) =
      tbl_update (\<lambda>r. sess_id r = sess_id s) (f \<circ> ?w) (db_sessions d)"
    using Some by (simp add: set_workspace_pointer_def tbl_update_compose)
  ultimately show ?thesis by blast
qed

lemma workspace_pointer_ids:
  "sess_id ` set (db_sessions (set_workspace_pointer s a d)) = sess_id ` set (db_sessions d)"
proof (cases "att_workspace_manifest_id a")
  case (Some m)
  have ids: "map sess_id (tbl_update p (\<lambda>r. r\<lparr>sess_committed_workspace_manifest_id := Some m\<rparr>) t)
      = map sess_id t" for p t by (induction t) auto
  have "db_sessions (set_workspace_pointer s a d) = tbl_update (\<lambda>r. sess_id r = sess_id s)
      (\<lambda>r. r\<lparr>sess_committed_workspace_manifest_id := Some m\<rparr>) (db_sessions d)"
    using Some by (simp add: set_workspace_pointer_def)
  then have "map sess_id (db_sessions (set_workspace_pointer s a d)) = map sess_id (db_sessions d)"
    by (simp only: ids)
  then show ?thesis by (metis list.set_map)
qed (simp add: set_workspace_pointer_def)

lemma finish_commit_result:
  assumes "finish_commit h u1 u2 s attempt touches fa m d = Inr (res, d')"
  obtains c q d1 f where
    "apply_recorded h s d = Inr (c, q, d1)"
    "res = \<lparr>fr_outcome = FO_committed, fr_attempt_id = att_id attempt,
       fr_knowledge_revision = Some (att_base_knowledge_revision attempt + 1),
       fr_applied_claims = c, fr_applied_questions = q\<rparr>"
    "closes (fa_terminal fa) f"
    "db_sessions d' = tbl_update (\<lambda>r. sess_id r = sess_id s) f (db_sessions d)"
    "db_attempts d' = tbl_update (\<lambda>r. att_id r = att_id attempt)
       (\<lambda>a. a\<lparr>att_status := CA_COMMITTED, att_finished_at := Some u1\<rparr>) (db_attempts d)"
    "db_staging d' = db_staging d1"
    "get_revision d' ''knowledge'' =
       get_revision (snd (bump_revision ''knowledge'' (att_base_knowledge_revision attempt) d)) ''knowledge''"
    "db_questions d' = db_questions (write_question fa c d1)"
    "\<And>a r. is_terminal (fa_terminal fa) \<Longrightarrow> get_session d (sess_id s) = Some r \<Longrightarrow>
        a \<in> set (db_admissions d') \<Longrightarrow> adm_session_id a \<noteq> sess_id s"
    "db_now d' = db_now d"
proof -
  from assms obtain c q d1 where ap: "apply_recorded h s d = Inr (c, q, d1)"
    by (auto simp: finish_commit_def split: sum.splits)
  let ?d2 = "set_workspace_pointer s attempt d1"
  let ?d3 = "snd (bump_revision ''knowledge'' (att_base_knowledge_revision attempt) ?d2)"
  from assms ap obtain g d4 where bg: "bump_graph attempt touches m ?d3 = Inr (g, d4)"
    by (auto simp: finish_commit_def Let_def split: sum.splits)
  let ?d6 = "write_question fa c (settle_attempt (att_id attempt) CA_COMMITTED u1 d4)"
  let ?d7 = "close_session (sess_id s) (fa_terminal fa) (fa_termination_reason fa) u2 ?d6"
  have res: "res = \<lparr>fr_outcome = FO_committed, fr_attempt_id = att_id attempt,
       fr_knowledge_revision = Some (att_base_knowledge_revision attempt + 1),
       fr_applied_claims = c, fr_applied_questions = q\<rparr>"
    and d': "d' = commit_events s attempt fa (att_base_knowledge_revision attempt + 1) g m c ?d7"
    using assms ap bg by (auto simp: finish_commit_def Let_def)
  note fr = bump_graph_frame [OF bg]
  have ce: "commit_rows d' = commit_rows ?d7" using d' by simp
  note rows = ce [unfolded commit_rows_eq]
  from ap have ar: "db_sessions d1 = db_sessions d" "db_attempts d1 = db_attempts d"
    "db_revisions d1 = db_revisions d" "db_now d1 = db_now d"
    by (auto elim: apply_recordedE)
  obtain f0 where f0: "closes (fa_terminal fa) f0"
    "db_sessions ?d7 = tbl_update (\<lambda>r. sess_id r = sess_id s) f0 (db_sessions ?d6)"
    using close_session_closes by blast
  have s6: "db_sessions ?d6 = db_sessions ?d2" using fr by simp
  from workspace_then_close [OF f0(1), of s attempt d1] obtain f where f: "closes (fa_terminal fa) f"
    "tbl_update (\<lambda>r. sess_id r = sess_id s) f0 (db_sessions ?d2) = tbl_update (\<lambda>r. sess_id r = sess_id s) f (db_sessions d1)"
    by blast
  have kd: "get_revision d' ''knowledge'' =
      get_revision (snd (bump_revision ''knowledge'' (att_base_knowledge_revision attempt) d)) ''knowledge''"
  proof -
    have "get_revision d' ''knowledge'' = get_revision d4 ''knowledge''"
      using rows by (simp add: get_revision_def)
    also have "\<dots> = get_revision ?d3 ''knowledge''" using fr by simp
    also have "\<dots> = get_revision (snd (bump_revision ''knowledge'' (att_base_knowledge_revision attempt) d)) ''knowledge''"
      using ar by (simp add: get_revision_def bump_revision_def Let_def)
    finally show ?thesis .
  qed
  have adm: "adm_session_id a \<noteq> sess_id s"
    if "is_terminal (fa_terminal fa)" "get_session d (sess_id s) = Some r" "a \<in> set (db_admissions d')" for a r
  proof -
    have "sess_id s \<in> sess_id ` set (db_sessions d1)"
      unfolding ar(1) using get_session_SomeD [OF that(2)] by (metis imageI)
    then have "sess_id s \<in> sess_id ` set (db_sessions ?d6)"
      unfolding s6 workspace_pointer_ids .
    then obtain r' where "get_session ?d6 (sess_id s) = Some r'"
      using tbl_get_None_iff [of sess_id "sess_id s" "db_sessions ?d6"]
      by (auto simp: get_session_def)
    from close_session_admissions [OF this that(1)] that(3) rows show ?thesis by simp
  qed
  show ?thesis
    using that [OF ap res f(1)] rows f0 f s6 ar fr kd adm
    by (simp add: write_question_def split: option.splits prod.splits)
qed

subsection \<open>Facts about the outcomes\<close>

text \<open>The fencing predicate as one condition on the database.\<close>

definition fence_holds :: "db \<Rightarrow> session_row \<Rightarrow> attempt_row \<Rightarrow> string \<Rightarrow> bool" where
  "fence_holds d s attempt owner \<longleftrightarrow>
     (\<exists>srow k aid a. get_session d (sess_id s) = Some srow \<and> sess_state srow = SS_COMMITTING
        \<and> sess_lease_owner srow = Some owner \<and> is_after (sess_lease_expires_at srow) (db_now d)
        \<and> get_revision d ''knowledge'' = Some k \<and> rev_revision k = att_base_knowledge_revision attempt
        \<and> (touches_dependency_graph d (sess_id s) \<longrightarrow>
             map_option rev_revision (get_revision d ''dependency_graph'')
               = Some (att_base_dependency_graph_revision attempt))
        \<and> sess_commit_attempt_id srow = Some aid \<and> get_attempt d aid = Some a \<and> att_status a = CA_PREPARED)"

lemma fence_None_iff:
  "fence d s attempt owner (touches_dependency_graph d (sess_id s)) = None \<longleftrightarrow> fence_holds d s attempt owner"
  by (auto simp: fence_def fence_holds_def split: option.splits)

lemma fence_not_committed: "fence d s attempt owner t = Some out \<Longrightarrow> out \<noteq> FO_committed"
  by (auto simp: fence_def split: option.splits if_splits)

lemma finalizeE:
  assumes "finalize h u1 u2 s attempt owner fa am d = Inr (res, d')"
  obtains (refused) out where "fence d s attempt owner (touches_dependency_graph d (sess_id s)) = Some out"
      "res = plain_result out (att_id attempt)" "d' = d"
    | (aborted) "fence_holds d s attempt owner" "fa_terminal fa = SS_FAILED"
      "res = plain_result FO_committed (att_id attempt)" "d' = fenced_abort u1 u2 s attempt fa d"
    | (committed) m d1 where "fence_holds d s attempt owner" "fa_terminal fa \<noteq> SS_FAILED"
      "run_memory am s attempt d = Inr (m, d1)"
      "finish_commit h u1 u2 s attempt (touches_dependency_graph d (sess_id s)) fa m d1 = Inr (res, d')"
  using assms fence_None_iff [of d s attempt owner]
  by (auto simp: finalize_def Let_def split: sum.splits option.splits if_splits)

lemma fenced_abort_result:
  "\<exists>f. closes (fa_terminal fa) f
     \<and> db_sessions (fenced_abort u1 u2 s attempt fa d) = tbl_update (\<lambda>r. sess_id r = sess_id s) f (db_sessions d)
     \<and> db_attempts (fenced_abort u1 u2 s attempt fa d) = tbl_update (\<lambda>r. att_id r = att_id attempt)
         (\<lambda>a. a\<lparr>att_status := CA_ABORTED, att_finished_at := Some u1\<rparr>) (db_attempts d)
     \<and> db_revisions (fenced_abort u1 u2 s attempt fa d) = db_revisions d
     \<and> db_staging (fenced_abort u1 u2 s attempt fa d) = db_staging d
     \<and> db_questions (fenced_abort u1 u2 s attempt fa d) = db_questions d"
proof -
  obtain f where "closes (fa_terminal fa) f"
    "db_sessions (close_session (sess_id s) (fa_terminal fa) (fa_termination_reason fa) u2
        (settle_attempt (att_id attempt) CA_ABORTED u1 d)) =
      tbl_update (\<lambda>r. sess_id r = sess_id s) f (db_sessions d)"
    using close_session_closes [of "fa_terminal fa" "sess_id s" "fa_termination_reason fa" u2
        "settle_attempt (att_id attempt) CA_ABORTED u1 d"] by auto
  then show ?thesis by (auto simp: fenced_abort_def Let_def)
qed

lemma closed_session:
  assumes "closes t f" and "db_sessions d' = tbl_update (\<lambda>r. sess_id r = i) f (db_sessions d)"
    and "get_session d i = Some s"
  shows "get_session d' i = Some (f s)"
  using assms(2,3) closesD(1) [OF assms(1)]
  by (simp add: get_session_def tbl_get_update_id [of sess_id f])

lemma settled_attempt:
  assumes "db_attempts d' = tbl_update (\<lambda>r. att_id r = i)
      (\<lambda>a. a\<lparr>att_status := st, att_finished_at := u\<rparr>) (db_attempts d)"
    and "get_attempt d i = Some a"
  shows "get_attempt d' i = Some (a\<lparr>att_status := st, att_finished_at := u\<rparr>)"
  using assms by (simp add: get_attempt_def attempt_status.get_update_key)

lemma commit_rows_getters:
  assumes "commit_rows d' = commit_rows d"
  shows "get_session d' i = get_session d i" "get_attempt d' i = get_attempt d i"
    "get_revision d' sc = get_revision d sc" "unique_staging d' = unique_staging d"
    "valid_staging d' = valid_staging d"
  using assms by (simp_all add: commit_rows_eq get_session_def get_attempt_def get_revision_def
      unique_staging_def valid_staging_def)

lemma knowledge_after_commit:
  assumes "fence_holds d s attempt owner" and "commit_rows d1 = commit_rows d"
    and "get_revision d' ''knowledge'' =
      get_revision (snd (bump_revision ''knowledge'' (att_base_knowledge_revision attempt) d1)) ''knowledge''"
  shows "map_option rev_revision (get_revision d' ''knowledge'') = Some (att_base_knowledge_revision attempt + 1)"
proof -
  from assms(1) obtain k where "get_revision d ''knowledge'' = Some k"
    "rev_revision k = att_base_knowledge_revision attempt" unfolding fence_holds_def by blast
  with commit_rows_getters(3) [OF assms(2), of "''knowledge''"] assms(3) knowledge_bumped show ?thesis by simp
qed

lemma commit_knowledge:
  assumes "memory_keeps am" and "finalize h u1 u2 s attempt owner fa am d = Inr (res, d')"
    and "fr_outcome res = FO_committed" and "fa_terminal fa \<noteq> SS_FAILED"
  shows "map_option rev_revision (get_revision d' ''knowledge'') = Some (att_base_knowledge_revision attempt + 1)"
  using assms(2)
proof (cases rule: finalizeE)
  case (refused out)
  then show ?thesis using assms(3) fence_not_committed by (auto simp: plain_result_def)
next
  case (committed m d1)
  have kr: "commit_rows d1 = commit_rows d" using run_memory_keeps [OF assms(1) committed(3)] by blast
  from committed(4) show ?thesis
    by (rule finish_commit_result) (rule knowledge_after_commit [OF committed(1) kr])
qed (use assms(4) in simp)

lemma updated_question_state:
  "\<forall>r\<in>set (tbl_update (\<lambda>r. q_id r = q) (\<lambda>r. r\<lparr>q_state := st\<rparr>) t). q_id r = q \<longrightarrow> q_state r = st"
  by (induction t) auto

subsection \<open>Properties\<close>

text \<open>
  C1.  A commit happens only inside the fence: when the final transaction reports \<open>committed\<close>, then
  when it began the session was \<open>committing\<close> under a live lease of this owner, the knowledge
  revision was the one the attempt was prepared at (and the graph revision too, when the staging
  touches the graph) and the attempt was \<open>prepared\<close>.  Afterwards the session is in the planned
  terminal state without lease or intent and has no admission record.  The attempt is \<open>committed\<close>,
  the knowledge revision is one higher and, on a staging table that satisfies its constraints
  (distinct ids, known operations), exactly the recorded rows of this session became \<open>applied\<close>; or,
  for a planned failure, the attempt is \<open>aborted\<close> with revision and staging untouched.
\<close>

theorem commit_only_inside_the_fence:
  assumes "memory_keeps am" and "finalize h u1 u2 s attempt owner fa am d = Inr (res, d')"
    and "fr_outcome res = FO_committed" and "get_attempt d (att_id attempt) = Some a"
  shows "fence_holds d s attempt owner
    \<and> (\<exists>r. get_session d' (sess_id s) = Some r \<and> sess_state r = fa_terminal fa
         \<and> sess_lease_owner r = None \<and> sess_lease_expires_at r = None \<and> sess_commit_intent_at r = None)
    \<and> map_option att_status (get_attempt d' (att_id attempt))
        = Some (if fa_terminal fa = SS_FAILED then CA_ABORTED else CA_COMMITTED)
    \<and> map_option rev_revision (get_revision d' ''knowledge'')
        = Some (if fa_terminal fa = SS_FAILED then att_base_knowledge_revision attempt
                else att_base_knowledge_revision attempt + 1)
    \<and> (fa_terminal fa = SS_FAILED \<longrightarrow> db_staging d' = db_staging d)
    \<and> (fa_terminal fa \<noteq> SS_FAILED \<and> unique_staging d \<and> valid_staging d \<longrightarrow>
         db_staging d' = tbl_update (\<lambda>r. stg_session_id r = sess_id s \<and> stg_state r = ST_recorded)
           (\<lambda>r. r\<lparr>stg_state := ST_applied\<rparr>) (db_staging d))
    \<and> (fa_terminal fa \<noteq> SS_FAILED \<and> is_terminal (fa_terminal fa) \<longrightarrow>
         sess_id s \<notin> adm_session_id ` set (db_admissions d'))"
  using assms(2)
proof (cases rule: finalizeE)
  case (refused out)
  then show ?thesis using assms(3) fence_not_committed by (auto simp: plain_result_def)
next
  case aborted
  then obtain srow k where fh: "get_session d (sess_id s) = Some srow"
    "get_revision d ''knowledge'' = Some k" "rev_revision k = att_base_knowledge_revision attempt"
    unfolding fence_holds_def by blast
  from fenced_abort_result [of fa u1 u2 s attempt d] aborted(4) obtain f where f: "closes (fa_terminal fa) f"
    "db_sessions d' = tbl_update (\<lambda>r. sess_id r = sess_id s) f (db_sessions d)"
    "db_attempts d' = tbl_update (\<lambda>r. att_id r = att_id attempt)
         (\<lambda>a. a\<lparr>att_status := CA_ABORTED, att_finished_at := Some u1\<rparr>) (db_attempts d)"
    "db_revisions d' = db_revisions d" "db_staging d' = db_staging d" by blast
  show ?thesis
    using aborted closed_session [OF f(1,2) fh(1)] settled_attempt [OF f(3) assms(4)] closesD [OF f(1)] fh f(4,5)
    by (simp add: get_revision_def)
next
  case (committed m d1)
  note keep = run_memory_keeps [OF assms(1) committed(3)]
  have k: "commit_rows d1 = commit_rows d" using keep by blast
  from committed(1) obtain srow where fh: "get_session d (sess_id s) = Some srow"
    unfolding fence_holds_def by blast
  note g = commit_rows_getters [OF k]
  from committed(4) show ?thesis
  proof (rule finish_commit_result)
    fix c q d2 f
    assume ap: "apply_recorded h s d1 = Inr (c, q, d2)" and st: "db_staging d' = db_staging d2"
    assume r: "closes (fa_terminal fa) f"
      "db_sessions d' = tbl_update (\<lambda>r. sess_id r = sess_id s) f (db_sessions d1)"
      "db_attempts d' = tbl_update (\<lambda>r. att_id r = att_id attempt)
         (\<lambda>a. a\<lparr>att_status := CA_COMMITTED, att_finished_at := Some u1\<rparr>) (db_attempts d1)"
      "get_revision d' ''knowledge'' =
         get_revision (snd (bump_revision ''knowledge'' (att_base_knowledge_revision attempt) d1)) ''knowledge''"
      "\<And>a r. is_terminal (fa_terminal fa) \<Longrightarrow> get_session d1 (sess_id s) = Some r \<Longrightarrow>
        a \<in> set (db_admissions d') \<Longrightarrow> adm_session_id a \<noteq> sess_id s"
    have "sess_id s \<notin> adm_session_id ` set (db_admissions d')" if "is_terminal (fa_terminal fa)"
      using r(5) [OF that] g(1) fh by force
    moreover have "db_staging d' = tbl_update (\<lambda>r. stg_session_id r = sess_id s \<and> stg_state r = ST_recorded)
        (\<lambda>r. r\<lparr>stg_state := ST_applied\<rparr>) (db_staging d)" if "unique_staging d" "valid_staging d"
      using apply_recorded_staging [OF ap] g(4,5) that st k by (simp add: commit_rows_eq)
    moreover have "get_session d1 (sess_id s) = Some srow" "get_attempt d1 (att_id attempt) = Some a"
      using g fh assms(4) by simp_all
    ultimately show ?thesis
      using committed(1,2) closed_session [OF r(1,2)] settled_attempt [OF r(3)] closesD [OF r(1)]
        knowledge_after_commit [OF committed(1) k r(4)]
      by simp
  qed
qed

text \<open>A session at the commit boundary with one recorded claim.\<close>

definition boundary_session :: session_row where
  "boundary_session = (new_session 7 1 0)\<lparr>sess_state := SS_COMMITTING, sess_lease_owner := Some ''n'',
     sess_lease_expires_at := Some 100, sess_commit_attempt_id := Some 9, sess_question_id := Some 5\<rparr>"

definition boundary_attempt :: attempt_row where
  "boundary_attempt = \<lparr>att_id = 9, att_session_id = 7, att_status = CA_PREPARED, att_staging_hash = [],
     att_workspace_manifest_id = None, att_base_knowledge_revision = 0,
     att_base_dependency_graph_revision = 0, att_prepared_at = 0, att_finished_at = None\<rparr>"

definition boundary_db :: db where
  "boundary_db = empty_db\<lparr>db_sessions := [boundary_session], db_attempts := [boundary_attempt],
     db_questions := [\<lparr>q_id = 5, q_text = ''q'', q_origin = QO_SEEDED, q_origin_config_snapshot_id = None,
       q_state = QS_RESEARCHING, q_priority = 0, q_parent_id = None, q_score_components = None,
       q_embedding_fingerprint = None, q_created_at = 0\<rparr>],
     db_staging := [\<lparr>stg_id = 3, stg_session_id = 7, stg_op = ''claim'', stg_payload = [],
       stg_payload_hash = [], stg_schema_version = 1, stg_seq = 0, stg_state = ST_recorded,
       stg_created_at = 0\<rparr>]\<rparr>"

definition boundary_args :: finalize_args where
  "boundary_args = \<lparr>fa_terminal = SS_SUCCEEDED, fa_steps = 1, fa_evidence_count = 1, fa_claims = 1,
     fa_questions_created = 0, fa_termination_reason = None, fa_question_id = Some 5,
     fa_question_terminal = Some QS_VERIFIED\<rparr>"

definition plain_host :: host where
  "plain_host = \<lparr>host_frepr = (\<lambda>_. []), host_sha256 = (\<lambda>x. x)\<rparr>"

lemmas boundary_defs = boundary_db_def boundary_session_def boundary_attempt_def boundary_args_def
  plain_host_def empty_db_def new_session_def

lemma boundary_locks: "\<exists>l. lock_commit_set boundary_db 7 9 b = Inr l"
  by (cases b) (simp_all add: lock_commit_set_def validate_lock_order_def commit_lock_plan_def position_eq
      get_session_def get_revision_def get_attempt_def boundary_defs)

lemma boundary_fence: "fence boundary_db boundary_session boundary_attempt ''n'' b = None"
  by (simp add: fence_def get_session_def get_revision_def get_attempt_def is_after_def boundary_defs)

lemma boundary_no_graph: "\<not> touches_dependency_graph boundary_db 7"
  by (simp add: touches_dependency_graph_def boundary_defs)

lemma boundary_ids [simp]: "sess_id boundary_session = 7" "att_id boundary_attempt = 9"
  "att_base_knowledge_revision boundary_attempt = 0" "fa_terminal boundary_args = SS_SUCCEEDED"
  by (simp_all add: boundary_defs)

lemma boundary_apply:
  "\<exists>d'. apply_recorded plain_host boundary_session boundary_db = Inr (1, 0, d')"
  by (simp add: apply_recorded_def recorded_rows_def boundary_defs)

lemma boundary_finalize:
  "\<exists>d'. finalize plain_host 1 2 boundary_session boundary_attempt ''n'' boundary_args None boundary_db =
     Inr (\<lparr>fr_outcome = FO_committed, fr_attempt_id = 9, fr_knowledge_revision = Some 1,
           fr_applied_claims = 1, fr_applied_questions = 0\<rparr>, d')"
proof -
  obtain l where l: "lock_commit_set boundary_db 7 9 False = Inr l" using boundary_locks by blast
  obtain d1 where a: "apply_recorded plain_host boundary_session boundary_db = Inr (1, 0, d1)"
    using boundary_apply by blast
  show ?thesis
    using boundary_no_graph l boundary_fence [of False] a
    by (simp add: finalize_def run_memory_def finish_commit_def bump_graph_def Let_def)
qed

lemma boundary_get: "get_attempt boundary_db 9 = Some boundary_attempt"
  by (simp add: get_attempt_def boundary_defs)

theorem commit_only_inside_the_fence_witness:
  "\<exists>res d'. finalize plain_host 1 2 boundary_session boundary_attempt ''n'' boundary_args None boundary_db
       = Inr (res, d')
     \<and> map_option att_status (get_attempt d' 9) = Some CA_COMMITTED
     \<and> map_option rev_revision (get_revision d' ''knowledge'') = Some 1
     \<and> map stg_state (db_staging d') = [ST_applied]"
proof -
  obtain res d' where r: "finalize plain_host 1 2 boundary_session boundary_attempt ''n'' boundary_args None
      boundary_db = Inr (res, d')" "fr_outcome res = FO_committed"
    using boundary_finalize by force
  have m: "memory_keeps None" by (simp add: memory_keeps_def)
  have g: "get_attempt boundary_db (att_id boundary_attempt) = Some boundary_attempt"
    using boundary_get by simp
  have w: "unique_staging boundary_db" "valid_staging boundary_db"
    by (simp_all add: unique_staging_def valid_staging_def boundary_defs VALID_OPS_def)
  have st: "map stg_state (tbl_update (\<lambda>r. stg_session_id r = 7 \<and> stg_state r = ST_recorded)
      (\<lambda>r. r\<lparr>stg_state := ST_applied\<rparr>) (db_staging boundary_db)) = [ST_applied]"
    by (simp add: boundary_defs)
  show ?thesis using commit_only_inside_the_fence [OF m r g] r w st by simp
qed

text \<open>The rows the fence reads: the session, the knowledge revision and the attempt the session names.\<close>

definition fence_rows :: "db \<Rightarrow> session_row \<Rightarrow> session_row \<Rightarrow> bool" where
  "fence_rows d s r \<longleftrightarrow> get_session d (sess_id s) = Some r \<and> get_revision d ''knowledge'' \<noteq> None
     \<and> (\<exists>aid a. sess_commit_attempt_id r = Some aid \<and> get_attempt d aid = Some a)"

lemma fence_reasons:
  assumes "fence d s attempt owner (touches_dependency_graph d (sess_id s)) = Some out"
  shows "out \<in> {FO_attempt_missing, FO_lease_lost, FO_fencing_conflict}"
    and "out = FO_attempt_missing \<longleftrightarrow> (\<nexists>r. fence_rows d s r)"
    and "out = FO_lease_lost \<longleftrightarrow> (\<exists>r. fence_rows d s r \<and> sess_state r = SS_COMMITTING
           \<and> lease_holder r (db_now d) \<noteq> Some owner)"
    and "out = FO_fencing_conflict \<longleftrightarrow> (\<exists>r. fence_rows d s r \<and> (sess_state r \<noteq> SS_COMMITTING
           \<or> lease_holder r (db_now d) = Some owner))"
  using assms
  by (auto simp: fence_def fence_rows_def lease_holder_def split: option.splits if_splits)

text \<open>
  C3.  A refused commit leaves no trace: any other outcome leaves the database exactly as it was,
  and says exactly why: \<open>attempt_missing\<close> exactly when the session, the knowledge revision, the
  attempt the session names or its row is missing; with the rows there, \<open>lease_lost\<close> exactly when the
  committing session is not under a live lease of this owner, and \<open>fencing_conflict\<close> exactly when the
  session left \<open>committing\<close>, or the lease is this owner's and the fence fails otherwise (a base
  revision moved or the attempt is no longer prepared).  The outcome is \<open>committed\<close> exactly when the
  fence holds, and there is no other outcome.
\<close>

theorem refused_commit_leaves_no_trace:
  assumes "finalize h u1 u2 s attempt owner fa am d = Inr (res, d')"
  shows "(fr_outcome res = FO_committed \<longleftrightarrow> fence_holds d s attempt owner)
    \<and> (fr_outcome res \<noteq> FO_committed \<longrightarrow> d' = d)
    \<and> (fr_outcome res = FO_attempt_missing \<longleftrightarrow> (\<nexists>r. fence_rows d s r))
    \<and> (fr_outcome res = FO_lease_lost \<longleftrightarrow> (\<exists>r. fence_rows d s r \<and> sess_state r = SS_COMMITTING
         \<and> lease_holder r (db_now d) \<noteq> Some owner))
    \<and> (fr_outcome res = FO_fencing_conflict \<longleftrightarrow> (\<exists>r. fence_rows d s r \<and> (sess_state r \<noteq> SS_COMMITTING
         \<or> (lease_holder r (db_now d) = Some owner \<and> \<not> fence_holds d s attempt owner))))
    \<and> fr_outcome res \<in> {FO_committed, FO_attempt_missing, FO_lease_lost, FO_fencing_conflict}"
proof -
  have held: "fr_outcome res = FO_committed \<Longrightarrow> fence_holds d s attempt owner \<Longrightarrow> ?thesis"
    by (auto simp: fence_holds_def fence_rows_def lease_holder_def)
  from assms show ?thesis
  proof (cases rule: finalizeE)
    case (refused out)
    have nf: "\<not> fence_holds d s attempt owner" using refused(1) fence_None_iff [of d s attempt owner] by simp
    have "fr_outcome res = out" using refused(2) by (simp add: plain_result_def)
    then show ?thesis using nf refused(3) fence_reasons [OF refused(1)] by auto
  next
    case aborted
    then show ?thesis using held by (simp add: plain_result_def)
  next
    case (committed m d1)
    from committed(4) have "fr_outcome res = FO_committed" by (rule finish_commit_result) simp
    with committed(1) show ?thesis by (rule held [rotated])
  qed
qed

theorem refused_commit_leaves_no_trace_witness:
  "finalize plain_host 1 2 boundary_session boundary_attempt ''other'' boundary_args None boundary_db
     = Inr (plain_result FO_lease_lost 9, boundary_db)"
proof -
  obtain l where l: "lock_commit_set boundary_db 7 9 False = Inr l" using boundary_locks by blast
  have f: "fence boundary_db boundary_session boundary_attempt ''other'' False = Some FO_lease_lost"
    by (simp add: fence_def get_session_def get_revision_def get_attempt_def boundary_defs)
  obtain d' where r: "finalize plain_host 1 2 boundary_session boundary_attempt ''other'' boundary_args None
      boundary_db = Inr (plain_result FO_lease_lost 9, d')"
    using l f boundary_no_graph by (simp add: finalize_def)
  have "fr_outcome (plain_result FO_lease_lost 9) \<noteq> FO_committed" by (simp add: plain_result_def)
  with refused_commit_leaves_no_trace [OF r] r show ?thesis by blast
qed

text \<open>
  C4.  A question is verified only with an applied claim: the committing transaction writes the
  planned state to the question, except that \<open>verified\<close> becomes \<open>partially_answered\<close> when no claim
  operation was recorded; other questions keep their state.
\<close>

theorem verified_needs_an_applied_claim:
  assumes "memory_keeps am" and "finalize h u1 u2 s attempt owner fa am d = Inr (res, d')"
    and "fr_outcome res = FO_committed" and "fa_terminal fa \<noteq> SS_FAILED"
    and "fa_question_id fa = Some q" and "fa_question_terminal fa = Some t" and "valid_staging d"
  shows "fr_applied_claims res = tbl_count (\<lambda>r. stg_session_id r = sess_id s \<and> stg_state r = ST_recorded
            \<and> stg_op r = ''claim'') (db_staging d)
    \<and> (\<forall>r\<in>set (db_questions d'). q_id r = q \<longrightarrow>
         q_state r = (if t = QS_VERIFIED \<and> fr_applied_claims res = 0 then QS_PARTIALLY_ANSWERED else t))"
  using assms(2)
proof (cases rule: finalizeE)
  case (refused out)
  then show ?thesis using assms(3) fence_not_committed by (auto simp: plain_result_def)
next
  case (committed m d1)
  have kr: "commit_rows d1 = commit_rows d" using run_memory_keeps [OF assms(1) committed(3)] by blast
  from committed(4) show ?thesis
  proof (rule finish_commit_result)
    fix c qn d2
    assume ap: "apply_recorded h s d1 = Inr (c, qn, d2)"
      and res: "res = \<lparr>fr_outcome = FO_committed, fr_attempt_id = att_id attempt,
        fr_knowledge_revision = Some (att_base_knowledge_revision attempt + 1),
        fr_applied_claims = c, fr_applied_questions = qn\<rparr>"
      and qs: "db_questions d' = db_questions (write_question fa c d2)"
    have v: "valid_staging d1" using commit_rows_getters(5) [OF kr] assms(7) by simp
    have c: "c = tbl_count (\<lambda>r. stg_session_id r = sess_id s \<and> stg_state r = ST_recorded
        \<and> stg_op r = ''claim'') (db_staging d)"
      using apply_recorded_counts [OF ap v] kr by (simp add: commit_rows_eq)
    have "db_questions d' = tbl_update (\<lambda>r. q_id r = q)
        (\<lambda>r. r\<lparr>q_state := if t = QS_VERIFIED \<and> c = 0 then QS_PARTIALLY_ANSWERED else t\<rparr>) (db_questions d2)"
      using qs assms(5,6) by (simp add: write_question_def written_question_state_def)
    then have "q_state r = (if t = QS_VERIFIED \<and> c = 0 then QS_PARTIALLY_ANSWERED else t)"
      if "r \<in> set (db_questions d')" "q_id r = q" for r
      using that updated_question_state [of q "if t = QS_VERIFIED \<and> c = 0 then QS_PARTIALLY_ANSWERED else t"
          "db_questions d2"] by simp
    with c res show ?thesis by simp
  qed
qed (use assms(4) in simp)

theorem verified_needs_an_applied_claim_witness:
  "\<exists>res d'. finalize plain_host 1 2 boundary_session boundary_attempt ''n'' boundary_args None boundary_db
       = Inr (res, d') \<and> fr_applied_claims res = 1
     \<and> q_state ` {r \<in> set (db_questions d'). q_id r = 5} \<subseteq> {QS_VERIFIED}"
proof -
  obtain res d' where r: "finalize plain_host 1 2 boundary_session boundary_attempt ''n'' boundary_args None
      boundary_db = Inr (res, d')" "fr_outcome res = FO_committed" "fr_applied_claims res = 1"
    using boundary_finalize by force
  have m: "memory_keeps None" by (simp add: memory_keeps_def)
  have t: "fa_terminal boundary_args \<noteq> SS_FAILED" by simp
  have q: "fa_question_id boundary_args = Some 5" "fa_question_terminal boundary_args = Some QS_VERIFIED"
    by (simp_all add: boundary_args_def)
  have v: "valid_staging boundary_db" by (simp add: valid_staging_def VALID_OPS_def boundary_defs)
  from verified_needs_an_applied_claim [OF m r(1,2) t q v, THEN conjunct2] r(3)
  have "\<forall>r\<in>set (db_questions d'). q_id r = 5 \<longrightarrow> q_state r = QS_VERIFIED" by simp
  then have "q_state ` {r \<in> set (db_questions d'). q_id r = 5} \<subseteq> {QS_VERIFIED}" by blast
  with r(1,3) show ?thesis by blast
qed

end
