(* ===== verification/WriterGate.thy ===== *)
theory WriterGate
  imports Lease
begin

section \<open>The knowledge writer gate, session intent and session admission\<close>

text \<open>
  \<open>packages/memory/writer_gate.py\<close> (the singleton gate taken with one compare-and-set UPDATE, and
  the session's commit intent) and \<open>packages/memory/session_admission.py\<close> (the committed admission
  record that makes a running session visible to the activation's quiesce check).  The gate keeps
  the contract \<open>exclusive_holder\<close>; all its timestamps are the transaction's \<open>now()\<close>.
\<close>

definition GATE_SCOPE :: string where "GATE_SCOPE = ''global''"

definition GATE_PRIORITY_WORKER :: int where "GATE_PRIORITY_WORKER = 0"
definition GATE_PRIORITY_CASCADE :: int where "GATE_PRIORITY_CASCADE = 1"
definition GATE_PRIORITY_ACTIVATION :: int where "GATE_PRIORITY_ACTIVATION = 2"
definition GATE_PRIORITY_SESSION :: int where "GATE_PRIORITY_SESSION = 3"

definition OWNER_WORKER :: string where "OWNER_WORKER = ''worker''"
definition OWNER_CASCADE :: string where "OWNER_CASCADE = ''cascade''"
definition OWNER_ACTIVATION :: string where "OWNER_ACTIVATION = ''activation''"
definition OWNER_SESSION :: string where "OWNER_SESSION = ''session''"

definition seconds :: "int \<Rightarrow> duration" where
  "seconds n = n * 1000000"

subsection \<open>The gate\<close>

type_synonym gate_owner = "string \<times> string"

definition gate_where :: "gate_owner \<Rightarrow> instant \<Rightarrow> gate_row \<Rightarrow> bool" where
  "gate_where ow now g \<longleftrightarrow>
     gate_owner_kind g = None \<or> is_before (gate_lease_expires_at g) now \<or>
     (gate_owner_kind g = Some (fst ow) \<and> gate_owner_id g = Some (snd ow))"

definition gate_set :: "gate_owner \<Rightarrow> int \<Rightarrow> duration \<Rightarrow> instant \<Rightarrow> gate_row \<Rightarrow> gate_row" where
  "gate_set ow priority lease now g =
     g\<lparr>gate_owner_kind := Some (fst ow), gate_owner_id := Some (snd ow),
       gate_priority := Some priority, gate_acquired_at := Some now,
       gate_lease_expires_at := Some (now + lease)\<rparr>"

definition acquire_writer_gate :: "gate_owner \<Rightarrow> int \<Rightarrow> int \<Rightarrow> db \<Rightarrow> bool \<times> db" where
  "acquire_writer_gate ow priority lease_seconds d =
     (let sel = (\<lambda>g. gate_scope g = GATE_SCOPE \<and> gate_where ow (db_now d) g)
      in (tbl_count sel (db_gates d) = 1,
          d\<lparr>db_gates := tbl_update sel (gate_set ow priority (seconds lease_seconds) (db_now d))
             (db_gates d)\<rparr>))"

definition gate_clear :: "gate_row \<Rightarrow> gate_row" where
  "gate_clear g =
     g\<lparr>gate_owner_kind := None, gate_owner_id := None, gate_priority := None,
       gate_acquired_at := None, gate_lease_expires_at := None\<rparr>"

definition release_writer_gate :: "gate_owner \<Rightarrow> db \<Rightarrow> db" where
  "release_writer_gate ow d =
     d\<lparr>db_gates := tbl_update (\<lambda>g. gate_scope g = GATE_SCOPE \<and>
          gate_owner_kind g = Some (fst ow) \<and> gate_owner_id g = Some (snd ow)) gate_clear (db_gates d)\<rparr>"

definition writer_gate_holder :: "db \<Rightarrow> gate_row option" where
  "writer_gate_holder d =
     find (\<lambda>g. gate_scope g = GATE_SCOPE \<and> gate_owner_kind g \<noteq> None \<and>
       is_after (gate_lease_expires_at g) (db_now d)) (db_gates d)"

subsection \<open>Session intent\<close>

definition intent_where :: "instant \<Rightarrow> session_row \<Rightarrow> bool" where
  "intent_where now s \<longleftrightarrow>
     sess_state s = SS_COMMITTING \<and> sess_lease_owner s \<noteq> None \<and>
     is_after (sess_lease_expires_at s) now \<and> sess_commit_intent_at s = None"

definition register_session_intent :: "uuid \<Rightarrow> db \<Rightarrow> bool \<times> db" where
  "register_session_intent session_id d =
     (let sel = (\<lambda>s. sess_id s = session_id \<and> intent_where (db_now d) s)
      in (tbl_count sel (db_sessions d) = 1,
          update_session sel (\<lambda>s. s\<lparr>sess_commit_intent_at := Some (db_now d)\<rparr>) d))"

definition clear_session_intent :: "uuid \<Rightarrow> db \<Rightarrow> db" where
  "clear_session_intent session_id d =
     update_session (\<lambda>s. sess_id s = session_id) (\<lambda>s. s\<lparr>sess_commit_intent_at := None\<rparr>) d"

definition declares_intent :: "instant \<Rightarrow> session_row \<Rightarrow> bool" where
  "declares_intent now s \<longleftrightarrow>
     sess_state s = SS_COMMITTING \<and> sess_commit_intent_at s \<noteq> None \<and>
     sess_lease_owner s \<noteq> None \<and> is_after (sess_lease_expires_at s) now"

definition active_session_intent :: "db \<Rightarrow> bool" where
  "active_session_intent d \<longleftrightarrow> tbl_count (declares_intent (db_now d)) (db_sessions d) > 0"

subsection \<open>Admission records\<close>

definition ADMISSION_LEASE_MARGIN_SECONDS :: int where
  "ADMISSION_LEASE_MARGIN_SECONDS = 600"

text \<open>\<open>clk\<close> gives the two \<open>clock_timestamp()\<close> readings: the lease and the column default.\<close>

definition register_session_admission ::
  "clock \<Rightarrow> uuid \<Rightarrow> string \<Rightarrow> uuid \<Rightarrow> int \<Rightarrow> db \<Rightarrow> exn + db" where
  "register_session_admission clk session_id node_owner snap phase_deadline_seconds d =
     (if tbl_get adm_session_id session_id (db_admissions d) \<noteq> None
      then Inl (IntegrityError ''session_admissions_pkey'')
      else Inr (d\<lparr>db_admissions := db_admissions d @
        [\<lparr>adm_session_id = session_id, adm_node_owner = node_owner, adm_config_snapshot_id = snap,
          adm_lease_expires_at =
            clk 0 + seconds (phase_deadline_seconds + ADMISSION_LEASE_MARGIN_SECONDS),
          adm_created_at = clk 1\<rparr>]\<rparr>))"

definition count_live_admissions :: "db \<Rightarrow> nat" where
  "count_live_admissions d = tbl_count (\<lambda>a. db_now d < adm_lease_expires_at a) (db_admissions d)"

definition sweep_expired_admissions :: "db \<Rightarrow> nat \<times> db" where
  "sweep_expired_admissions d =
     (let old = (\<lambda>a. adm_lease_expires_at a \<le> db_now d)
      in (tbl_count old (db_admissions d),
          d\<lparr>db_admissions := filter (\<lambda>a. \<not> old a) (db_admissions d)\<rparr>))"

subsection \<open>The gate keeps the contract\<close>

definition gate_acquire_row :: "int \<Rightarrow> gate_owner \<Rightarrow> duration \<Rightarrow> instant \<Rightarrow> gate_row \<Rightarrow> gate_row option" where
  "gate_acquire_row priority ow lease now g =
     (if gate_where ow now g then Some (gate_set ow priority lease now g) else None)"

definition gate_release_row :: "gate_owner \<Rightarrow> gate_row \<Rightarrow> gate_row" where
  "gate_release_row ow g =
     (if gate_owner_kind g = Some (fst ow) \<and> gate_owner_id g = Some (snd ow) then gate_clear g else g)"

definition gate_holder_row :: "gate_row \<Rightarrow> instant \<Rightarrow> gate_owner option" where
  "gate_holder_row g t =
     (if is_after (gate_lease_expires_at g) t
      then (case gate_owner_kind g of None \<Rightarrow> None
            | Some k \<Rightarrow> map_option (\<lambda>i. (k, i)) (gate_owner_id g))
      else None)"

interpretation writer_gate:
  exclusive_holder "gate_acquire_row priority" gate_release_row gate_holder_row "\<lambda>t. t" "\<lambda>_. True"
  for priority
  by unfold_locales
    (auto simp: gate_acquire_row_def gate_where_def gate_set_def gate_release_row_def gate_clear_def
      gate_holder_row_def is_before_def is_after_def split: if_splits option.splits)

text \<open>The table holds the one row of the scope.\<close>

definition single_gate :: "db \<Rightarrow> gate_row \<Rightarrow> bool" where
  "single_gate d g \<longleftrightarrow> db_gates d = [g] \<and> gate_scope g = GATE_SCOPE"

lemma acquire_writer_gate_row:
  assumes "single_gate d g"
  shows "acquire_writer_gate ow priority n d =
     (case gate_acquire_row priority ow (seconds n) (db_now d) g of
        None \<Rightarrow> (False, d) | Some g' \<Rightarrow> (True, d\<lparr>db_gates := [g']\<rparr>))"
  using assms by (auto simp: acquire_writer_gate_def single_gate_def gate_acquire_row_def Let_def)

lemma release_writer_gate_row:
  assumes "single_gate d g"
  shows "release_writer_gate ow d = d\<lparr>db_gates := [gate_release_row ow g]\<rparr>"
  using assms by (auto simp: release_writer_gate_def single_gate_def gate_release_row_def)

lemma gate_set_single:
  "single_gate d g \<Longrightarrow> gate_acquire_row priority ow lease now g = Some g' \<Longrightarrow>
   single_gate (d\<lparr>db_gates := [g']\<rparr>) g'"
  by (auto simp: single_gate_def gate_acquire_row_def gate_set_def split: if_splits)

lemma intent_after_register:
  assumes "unique_sessions d" and "get_session d i = Some s" and "intent_where (db_now d) s"
  shows "fst (register_session_intent i d) \<and> active_session_intent (snd (register_session_intent i d))"
proof -
  have u: "r = s" if "r \<in> set (db_sessions d)" "sess_id r = i" for r
    using unique_session_eq [OF assms(1,2) that] .
  have s: "s \<in> set (db_sessions d)" "sess_id s = i" using get_session_SomeD [OF assms(2)] by auto
  have eq: "filter (\<lambda>r. sess_id r = i \<and> intent_where (db_now d) r) (db_sessions d)
      = filter (\<lambda>r. sess_id r = i) (db_sessions d)"
    using u assms(3) by (intro filter_cong) auto
  have "length (filter (\<lambda>r. sess_id r = i) (db_sessions d)) = 1"
  proof -
    have "distinct (filter (\<lambda>r. sess_id r = i) (db_sessions d))"
      using assms(1) by (auto simp: unique_sessions_def distinct_map)
    moreover have "set (filter (\<lambda>r. sess_id r = i) (db_sessions d)) = {s}"
      unfolding set_filter using u s by blast
    ultimately show ?thesis using distinct_card by fastforce
  qed
  with eq have "fst (register_session_intent i d)"
    by (simp add: register_session_intent_def Let_def tbl_count_def)
  moreover have "active_session_intent (snd (register_session_intent i d))"
  proof -
    have "s\<lparr>sess_commit_intent_at := Some (db_now d)\<rparr> \<in>
        set (tbl_update (\<lambda>r. sess_id r = i \<and> intent_where (db_now d) r)
          (\<lambda>r. r\<lparr>sess_commit_intent_at := Some (db_now d)\<rparr>) (db_sessions d))"
      using s assms(3) by (force simp: set_tbl_update)
    moreover have "declares_intent (db_now d) (s\<lparr>sess_commit_intent_at := Some (db_now d)\<rparr>)"
      using assms(3) by (auto simp: declares_intent_def intent_where_def)
    ultimately have "tbl_count (declares_intent (db_now d))
        (tbl_update (\<lambda>r. sess_id r = i \<and> intent_where (db_now d) r)
          (\<lambda>r. r\<lparr>sess_commit_intent_at := Some (db_now d)\<rparr>) (db_sessions d)) \<noteq> 0"
      unfolding tbl_count_0_iff by blast
    then show ?thesis by (simp add: active_session_intent_def register_session_intent_def Let_def)
  qed
  ultimately show ?thesis by blast
qed

subsection \<open>Properties\<close>

text \<open>
  C39.  The writer gate admits one writer: after a successful acquisition the holder reads back as
  the caller; before the lease ends every other owner is refused and changes nothing, by acquiring
  or by releasing; the holder may take it again; and once the lease ended another owner takes it.
\<close>

theorem writer_gate_admits_one_writer:
  assumes "single_gate d g" and "acquire_writer_gate p priority n d = (True, d1)" and "n > 0"
  shows "(\<exists>h. writer_gate_holder d1 = Some h \<and> gate_owner_kind h = Some (fst p)
         \<and> gate_owner_id h = Some (snd p) \<and> gate_priority h = Some priority)
     \<and> (\<forall>t q pr m. q \<noteq> p \<and> t < db_now d + seconds n \<longrightarrow>
          acquire_writer_gate q pr m (d1\<lparr>db_now := t\<rparr>) = (False, d1\<lparr>db_now := t\<rparr>)
          \<and> release_writer_gate q d1 = d1)
     \<and> (\<forall>t pr m. fst (acquire_writer_gate p pr m (d1\<lparr>db_now := t\<rparr>)))
     \<and> (\<forall>t q pr m. t > db_now d + seconds n \<longrightarrow> fst (acquire_writer_gate q pr m (d1\<lparr>db_now := t\<rparr>)))"
proof -
  from assms obtain g' where g': "gate_acquire_row priority p (seconds n) (db_now d) g = Some g'"
    "d1 = d\<lparr>db_gates := [g']\<rparr>"
    by (auto simp: acquire_writer_gate_row split: option.splits)
  have sg: "single_gate d1 g'" using gate_set_single [OF assms(1) g'(1)] g'(2) by simp
  have sgt: "single_gate (d1\<lparr>db_now := t\<rparr>) g'" for t using sg by (simp add: single_gate_def)
  have val: "g' = gate_set p priority (seconds n) (db_now d) g"
    using g'(1) by (auto simp: gate_acquire_row_def split: if_splits)
  have h: "gate_holder_row g' t = Some p" if "t < db_now d + seconds n" for t
    by (rule writer_gate.acquired [OF g'(1) TrueI that])
  have "\<exists>h. writer_gate_holder d1 = Some h \<and> gate_owner_kind h = Some (fst p)
         \<and> gate_owner_id h = Some (snd p) \<and> gate_priority h = Some priority"
    using sg g'(2) assms(3)
    by (auto simp: writer_gate_holder_def single_gate_def val gate_set_def is_after_def seconds_def)
  moreover have "acquire_writer_gate q pr m (d1\<lparr>db_now := t\<rparr>) = (False, d1\<lparr>db_now := t\<rparr>)
      \<and> release_writer_gate q d1 = d1"
    if q: "q \<noteq> p" "t < db_now d + seconds n" for q t pr m
  proof -
    have "gate_acquire_row pr q (seconds m) t g' = None"
      using h [OF q(2)] q(1) by (intro writer_gate.no_theft) auto
    moreover have "gate_release_row q g' = g'"
      using h [OF q(2)] q(1) by (intro writer_gate.release_foreign) auto
    moreover have "d1\<lparr>db_gates := [g']\<rparr> = d1" using g'(2) by simp
    ultimately show ?thesis
      using acquire_writer_gate_row [OF sgt] release_writer_gate_row [OF sg] by simp
  qed
  moreover have "fst (acquire_writer_gate p pr m (d1\<lparr>db_now := t\<rparr>))" for t pr m
    by (simp add: acquire_writer_gate_row [OF sgt] gate_acquire_row_def gate_where_def val gate_set_def)
  moreover have "fst (acquire_writer_gate q pr m (d1\<lparr>db_now := t\<rparr>))"
    if "t > db_now d + seconds n" for t q pr m
    using that
    by (simp add: acquire_writer_gate_row [OF sgt] gate_acquire_row_def gate_where_def val gate_set_def
        is_before_def)
  ultimately show ?thesis by blast
qed

theorem writer_gate_admits_one_writer_witness:
  "\<exists>d1. acquire_writer_gate (OWNER_WORKER, ''w1'') GATE_PRIORITY_WORKER 60 empty_db = (True, d1)
     \<and> acquire_writer_gate (OWNER_CASCADE, ''c1'') GATE_PRIORITY_CASCADE 60 (d1\<lparr>db_now := 7\<rparr>)
         = (False, d1\<lparr>db_now := 7\<rparr>)"
proof -
  obtain g where g: "single_gate empty_db g"
    by (auto simp: single_gate_def empty_db_def GATE_SCOPE_def)
  have "fst (acquire_writer_gate (OWNER_WORKER, ''w1'') GATE_PRIORITY_WORKER 60 empty_db)"
    by (simp add: acquire_writer_gate_def empty_db_def GATE_SCOPE_def gate_where_def Let_def)
  then obtain d1 where a:
    "acquire_writer_gate (OWNER_WORKER, ''w1'') GATE_PRIORITY_WORKER 60 empty_db = (True, d1)"
    by (cases "acquire_writer_gate (OWNER_WORKER, ''w1'') GATE_PRIORITY_WORKER 60 empty_db") auto
  have lt: "7 < db_now empty_db + seconds 60" by (simp add: empty_db_def seconds_def)
  have ne: "(OWNER_CASCADE, ''c1'') \<noteq> (OWNER_WORKER, ''w1'')"
    by (simp add: OWNER_CASCADE_def OWNER_WORKER_def)
  have pos: "(60 :: int) > 0" by simp
  have "acquire_writer_gate (OWNER_CASCADE, ''c1'') GATE_PRIORITY_CASCADE 60 (d1\<lparr>db_now := 7\<rparr>)
      = (False, d1\<lparr>db_now := 7\<rparr>)"
    using writer_gate_admits_one_writer [OF g a pos, THEN conjunct2, THEN conjunct1, rule_format,
        OF conjI [OF ne lt]] by (rule conjunct1)
  with a show ?thesis by blast
qed

text \<open>
  The session intent: it is registered exactly when the session is committing under a live
  lease and has none yet, and then workers see it; in particular the call the orchestrator makes
  when it enters the state \<open>consolidating\<close> never registers anything.
\<close>

theorem session_intent_only_while_committing:
  assumes "unique_sessions d" and "get_session d i = Some s"
  shows "(fst (register_session_intent i d) \<longleftrightarrow> intent_where (db_now d) s)
     \<and> (intent_where (db_now d) s \<longrightarrow> active_session_intent (snd (register_session_intent i d)))
     \<and> (sess_state s = SS_CONSOLIDATING \<longrightarrow> register_session_intent i d = (False, d))"
proof -
  have no: "register_session_intent i d = (False, d)" if n: "\<not> intent_where (db_now d) s"
  proof -
    have z: "\<forall>r\<in>set (db_sessions d). \<not> (sess_id r = i \<and> intent_where (db_now d) r)"
      using unique_session_eq [OF assms] n by auto
    then have "tbl_count (\<lambda>r. sess_id r = i \<and> intent_where (db_now d) r) (db_sessions d) = 0"
      by (simp only: tbl_count_0_iff)
    moreover have "update_session (\<lambda>r. sess_id r = i \<and> intent_where (db_now d) r)
        (\<lambda>r. r\<lparr>sess_commit_intent_at := Some (db_now d)\<rparr>) d = d"
      using update_session_one [OF assms] n by simp
    ultimately show ?thesis by (simp add: register_session_intent_def Let_def)
  qed
  have "\<not> intent_where (db_now d) s" if "sess_state s = SS_CONSOLIDATING"
    using that by (simp add: intent_where_def)
  moreover have "fst (register_session_intent i d) \<longleftrightarrow> intent_where (db_now d) s"
    using no intent_after_register [OF assms] by (cases "intent_where (db_now d) s") simp_all
  ultimately show ?thesis using no intent_after_register [OF assms] by blast
qed

theorem session_intent_only_while_committing_witness:
  "register_session_intent 7 (empty_db\<lparr>db_sessions := [(new_session 7 1 0)\<lparr>
       sess_state := SS_CONSOLIDATING, sess_lease_owner := Some ''a'',
       sess_lease_expires_at := Some 60\<rparr>]\<rparr>)
     = (False, empty_db\<lparr>db_sessions := [(new_session 7 1 0)\<lparr>
       sess_state := SS_CONSOLIDATING, sess_lease_owner := Some ''a'',
       sess_lease_expires_at := Some 60\<rparr>]\<rparr>)"
  by (rule session_intent_only_while_committing [of _ 7 "(new_session 7 1 0)\<lparr>
       sess_state := SS_CONSOLIDATING, sess_lease_owner := Some ''a'',
       sess_lease_expires_at := Some 60\<rparr>", THEN conjunct2, THEN conjunct2, rule_format])
    (simp_all add: unique_sessions_def get_session_def empty_db_def new_session_def)

end
