(* ===== verification/SessionMachine.thy ===== *)
theory SessionMachine
  imports Enums
begin

section \<open>The session state machine\<close>

text \<open>
  \<open>apps/orchestrator/state_machine.py\<close>: the closed transition table, the test and the checked
  transition.  The locale \<open>ranked_machine\<close> is the contract of a state machine in which every
  step lowers a rank: runs are bounded, terminal states are absorbing, and every state can
  still reach a terminal one.  The session machine interprets it.  The last part is the sequence of transitions the orchestrator drives between
  the exploration loop and the commit boundary.
\<close>

subsection \<open>Runs of a machine\<close>

fun chain :: "('s \<Rightarrow> 's \<Rightarrow> bool) \<Rightarrow> 's \<Rightarrow> 's list \<Rightarrow> bool" where
  "chain step s [] = True"
| "chain step s (t # ts) = (step s t \<and> chain step t ts)"

lemma chain_append: "chain step s (ts @ us) \<longleftrightarrow> chain step s ts \<and> chain step (last (s # ts)) us"
  by (induction ts arbitrary: s) auto

lemma chain_star: "chain step s ts \<Longrightarrow> step\<^sup>*\<^sup>* s (last (s # ts))"
  by (induction ts arbitrary: s) (auto intro: converse_rtranclp_into_rtranclp)

locale ranked_machine =
  fixes step :: "'s \<Rightarrow> 's \<Rightarrow> bool" and terminal :: "'s \<Rightarrow> bool" and rank :: "'s \<Rightarrow> nat"
  assumes step_rank: "step s t \<Longrightarrow> rank t < rank s"
    and terminal_stuck: "terminal s \<Longrightarrow> \<not> step s t"
    and progress: "\<not> terminal s \<Longrightarrow> \<exists>t. step s t"
begin

lemma chain_rank: "chain step s ts \<Longrightarrow> length ts + rank (last (s # ts)) \<le> rank s"
proof (induction ts arbitrary: s)
  case (Cons t ts)
  then have "length ts + rank (last (t # ts)) \<le> rank t" and "rank t < rank s"
    by (auto intro: step_rank)
  then show ?case by simp
qed simp

lemma chain_bounded: "chain step s ts \<Longrightarrow> length ts \<le> rank s"
  using chain_rank [of s ts] by simp

lemma chain_distinct:
  "chain step s ts \<Longrightarrow> distinct (s # ts) \<and> (\<forall>x\<in>set ts. rank x < rank s)"
proof (induction ts arbitrary: s)
  case (Cons t ts)
  then have "rank t < rank s" and ih: "distinct (t # ts)" "\<forall>x\<in>set ts. rank x < rank t"
    by (auto intro: step_rank)
  then have low: "\<forall>x\<in>set (t # ts). rank x < rank s" by (auto intro: less_trans)
  then have "s \<notin> set (t # ts)" by blast
  with low ih show ?case by simp
qed simp

lemma no_return: "chain step s ts \<Longrightarrow> ts \<noteq> [] \<Longrightarrow> last ts \<noteq> s"
  using chain_rank [of s ts] by (cases ts) auto

lemma terminal_absorbing: "terminal s \<Longrightarrow> chain step s ts \<Longrightarrow> ts = []"
  by (cases ts) (auto dest: terminal_stuck)

lemma reaches_terminal: "\<exists>ts. chain step s ts \<and> terminal (last (s # ts))"
proof (induction "rank s" arbitrary: s rule: less_induct)
  case less
  show ?case
  proof (cases "terminal s")
    case True
    then show ?thesis by (intro exI [of _ "[]"]) simp
  next
    case False
    then obtain t where t: "step s t" using progress by blast
    with less [OF step_rank] obtain ts where "chain step t ts" "terminal (last (t # ts))" by blast
    with t show ?thesis by (intro exI [of _ "t # ts"]) simp
  qed
qed

end

subsection \<open>The transition table\<close>

fun transitions :: "session_state \<Rightarrow> session_state set" where
  "transitions SS_CREATED = {SS_WAKING, SS_ABORTING, SS_CANCELLED, SS_FAILED}"
| "transitions SS_WAKING = {SS_ORIENTING, SS_STOPPING, SS_ABORTING, SS_CANCELLED, SS_FAILED}"
| "transitions SS_ORIENTING =
     {SS_SELECTING_QUESTION, SS_STOPPING, SS_ABORTING, SS_CANCELLED, SS_FAILED}"
| "transitions SS_SELECTING_QUESTION =
     {SS_PLANNING, SS_STOPPING, SS_ABORTING, SS_CANCELLED, SS_FAILED}"
| "transitions SS_PLANNING = {SS_EXPLORING, SS_STOPPING, SS_ABORTING, SS_CANCELLED, SS_FAILED}"
| "transitions SS_EXPLORING = {SS_VERIFYING, SS_STOPPING, SS_ABORTING, SS_CANCELLED, SS_FAILED}"
| "transitions SS_VERIFYING =
     {SS_CONSOLIDATING, SS_STOPPING, SS_ABORTING, SS_CANCELLED, SS_FAILED}"
| "transitions SS_STOPPING = {SS_CONSOLIDATING, SS_FAILED, SS_CANCELLED}"
| "transitions SS_CONSOLIDATING = {SS_REPORTING, SS_COMMITTING, SS_FAILED, SS_CANCELLED}"
| "transitions SS_REPORTING = {SS_COMMITTING, SS_FAILED, SS_CANCELLED}"
| "transitions SS_COMMITTING =
     {SS_SUCCEEDED, SS_SUCCEEDED_PARTIAL, SS_FAILED, SS_RECONCILING_COMMIT}"
| "transitions SS_RECONCILING_COMMIT =
     {SS_SUCCEEDED, SS_SUCCEEDED_PARTIAL, SS_FAILED, SS_CANCELLED}"
| "transitions SS_ABORTING = {SS_FAILED, SS_CANCELLED}"
| "transitions SS_SUCCEEDED = {}"
| "transitions SS_SUCCEEDED_PARTIAL = {}"
| "transitions SS_FAILED = {}"
| "transitions SS_CANCELLED = {}"

datatype invalid_transition = InvalidTransitionError session_state session_state

definition can_transition :: "session_state \<Rightarrow> session_state \<Rightarrow> bool" where
  "can_transition src dst \<longleftrightarrow> dst \<in> transitions src"

definition transition :: "session_state \<Rightarrow> session_state \<Rightarrow> invalid_transition + session_state" where
  "transition src dst =
     (if \<not> can_transition src dst then Inl (InvalidTransitionError src dst) else Inr dst)"

text \<open>A sequence of checked transitions stops at the first refused one.\<close>

fun run_transitions ::
  "session_state \<Rightarrow> session_state list \<Rightarrow> invalid_transition + session_state" where
  "run_transitions s [] = Inr s"
| "run_transitions s (d # ds) =
     (case transition s d of Inl e \<Rightarrow> Inl e | Inr t \<Rightarrow> run_transitions t ds)"

text \<open>
  The destinations of the \<open>_transition\<close> calls of the orchestrator's first phase from the end of
  the exploration loop to the commit boundary, in program order; \<open>stopped\<close> is the loop's
  graceful-stop flag.
\<close>

definition after_exploration :: "bool \<Rightarrow> session_state list" where
  "after_exploration stopped =
     (if stopped then [SS_STOPPING] else []) @
     [SS_VERIFYING, SS_CONSOLIDATING, SS_REPORTING, SS_COMMITTING]"

text \<open>The longest remaining run of the session machine.\<close>

fun session_rank :: "session_state \<Rightarrow> nat" where
  "session_rank SS_CREATED = 12"
| "session_rank SS_WAKING = 11"
| "session_rank SS_ORIENTING = 10"
| "session_rank SS_SELECTING_QUESTION = 9"
| "session_rank SS_PLANNING = 8"
| "session_rank SS_EXPLORING = 7"
| "session_rank SS_VERIFYING = 6"
| "session_rank SS_STOPPING = 5"
| "session_rank SS_CONSOLIDATING = 4"
| "session_rank SS_REPORTING = 3"
| "session_rank SS_COMMITTING = 2"
| "session_rank SS_RECONCILING_COMMIT = 1"
| "session_rank SS_ABORTING = 1"
| "session_rank SS_SUCCEEDED = 0"
| "session_rank SS_SUCCEEDED_PARTIAL = 0"
| "session_rank SS_FAILED = 0"
| "session_rank SS_CANCELLED = 0"

subsection \<open>The session machine is ranked\<close>

lemma transitions_rank: "t \<in> transitions s \<Longrightarrow> session_rank t < session_rank s"
  by (cases s) auto

lemma transitions_empty_iff: "transitions s = {} \<longleftrightarrow> is_terminal s"
  by (cases s) (auto simp: is_terminal_def)

interpretation session_machine: ranked_machine can_transition is_terminal session_rank
proof
  show "can_transition s t \<Longrightarrow> session_rank t < session_rank s" for s t
    by (simp add: can_transition_def transitions_rank)
  show "is_terminal s \<Longrightarrow> \<not> can_transition s t" for s t
    by (simp add: can_transition_def transitions_empty_iff [symmetric])
  show "\<not> is_terminal s \<Longrightarrow> \<exists>t. can_transition s t" for s
    by (auto simp: can_transition_def transitions_empty_iff [symmetric])
qed

lemma run_transitions_Inr_iff:
  "run_transitions s ds = Inr t \<longleftrightarrow> chain can_transition s ds \<and> t = last (s # ds)"
  by (induction ds arbitrary: s) (auto simp: transition_def)

lemma success_only_from_boundary:
  "can_transition s t \<Longrightarrow> t \<in> {SS_SUCCEEDED, SS_SUCCEEDED_PARTIAL} \<Longrightarrow>
   s \<in> {SS_COMMITTING, SS_RECONCILING_COMMIT}"
  by (cases s) (auto simp: can_transition_def)

lemma into_reconciling: "can_transition s SS_RECONCILING_COMMIT \<Longrightarrow> s = SS_COMMITTING"
  by (cases s) (auto simp: can_transition_def)

lemma boundary_chain:
  assumes "chain can_transition s ts"
    and "last (s # ts) \<in> {SS_RECONCILING_COMMIT, SS_SUCCEEDED, SS_SUCCEEDED_PARTIAL}"
    and "s \<notin> {SS_RECONCILING_COMMIT, SS_SUCCEEDED, SS_SUCCEEDED_PARTIAL}"
  shows "SS_COMMITTING \<in> set (s # ts)"
  using assms
proof (induction ts arbitrary: s)
  case (Cons t ts)
  then have step: "can_transition s t" and rest: "chain can_transition t ts" by auto
  show ?case
  proof (cases "t \<in> {SS_RECONCILING_COMMIT, SS_SUCCEEDED, SS_SUCCEEDED_PARTIAL}")
    case True
    with step Cons.prems(3) have "s = SS_COMMITTING"
      using success_only_from_boundary into_reconciling by blast
    then show ?thesis by simp
  next
    case False
    with Cons.IH [OF rest] Cons.prems(2) show ?thesis by auto
  qed
qed auto

subsection \<open>Properties\<close>

text \<open>
  C36.  A session's life is finite: a run of checked transitions from creation has at most twelve
  steps, no state is ever entered twice, a run that ended in a terminal state cannot be
  continued, and from every state some run still reaches a terminal state.
\<close>

theorem session_life_is_finite:
  "(\<forall>ds t. run_transitions SS_CREATED ds = Inr t \<longrightarrow>
      length ds \<le> 12 \<and> distinct (SS_CREATED # ds))
   \<and> (\<forall>s d ds. is_terminal s \<longrightarrow> run_transitions s (d # ds) = Inl (InvalidTransitionError s d))
   \<and> (\<forall>s. \<exists>ds t. run_transitions s ds = Inr t \<and> is_terminal t)"
proof (intro conjI allI impI)
  fix ds t assume r: "run_transitions SS_CREATED ds = Inr t"
  then have c: "chain can_transition SS_CREATED ds" by (simp add: run_transitions_Inr_iff)
  from session_machine.chain_bounded [OF c] show "length ds \<le> 12" by simp
  from session_machine.chain_distinct [OF c] show "distinct (SS_CREATED # ds)" by blast
next
  fix s d ds assume "is_terminal s"
  then show "run_transitions s (d # ds) = Inl (InvalidTransitionError s d)"
    by (simp add: transition_def session_machine.terminal_stuck)
next
  fix s
  from session_machine.reaches_terminal [of s]
  show "\<exists>ds t. run_transitions s ds = Inr t \<and> is_terminal t"
    by (auto simp: run_transitions_Inr_iff)
qed

theorem session_life_is_finite_witness:
  "length [SS_WAKING, SS_ABORTING, SS_CANCELLED] \<le> 12
   \<and> distinct [SS_CREATED, SS_WAKING, SS_ABORTING, SS_CANCELLED]
   \<and> run_transitions SS_FAILED [SS_WAKING] = Inl (InvalidTransitionError SS_FAILED SS_WAKING)"
proof -
  have r: "run_transitions SS_CREATED [SS_WAKING, SS_ABORTING, SS_CANCELLED] = Inr SS_CANCELLED"
    by (simp add: transition_def can_transition_def)
  have t: "is_terminal SS_FAILED" by (simp add: is_terminal_def)
  show ?thesis using session_life_is_finite r t by blast
qed

text \<open>
  A session that reached a successful terminal state passed the commit boundary: the run
  contains the state \<open>committing\<close>.
\<close>

theorem success_passes_the_commit_boundary:
  assumes "run_transitions SS_CREATED ds = Inr t"
    and "t \<in> {SS_SUCCEEDED, SS_SUCCEEDED_PARTIAL}"
  shows "SS_COMMITTING \<in> set ds"
  using assms boundary_chain [of SS_CREATED ds]
  by (auto simp: run_transitions_Inr_iff)

theorem success_passes_the_commit_boundary_witness:
  "SS_COMMITTING \<in> set [SS_WAKING, SS_ORIENTING, SS_SELECTING_QUESTION, SS_PLANNING,
     SS_EXPLORING, SS_VERIFYING, SS_CONSOLIDATING, SS_COMMITTING, SS_SUCCEEDED]"
  by (rule success_passes_the_commit_boundary [of _ SS_SUCCEEDED])
    (simp_all add: transition_def can_transition_def)

text \<open>
  The states in which a graceful stop is allowed are exactly those with a transition to
  \<open>stopping\<close>, and a session that may be aborted can be cancelled; but after a graceful stop the
  orchestrator asks for the transition from \<open>stopping\<close> to \<open>verifying\<close>, which the table refuses,
  while without a stop the same sequence arrives at the commit boundary.
\<close>

theorem graceful_stop_is_refused:
  "(can_transition s SS_STOPPING \<longleftrightarrow> allows_stop s)
   \<and> (allows_abort s \<longrightarrow> can_transition s SS_CANCELLED)
   \<and> run_transitions SS_EXPLORING (after_exploration False) = Inr SS_COMMITTING
   \<and> run_transitions SS_EXPLORING (after_exploration True)
       = Inl (InvalidTransitionError SS_STOPPING SS_VERIFYING)"
  by (cases s) (simp_all add: after_exploration_def transition_def can_transition_def
      allows_stop_def allows_abort_def)

theorem graceful_stop_is_refused_witness:
  "can_transition SS_EXPLORING SS_STOPPING \<and> allows_abort SS_EXPLORING
   \<and> can_transition SS_EXPLORING SS_CANCELLED"
  using graceful_stop_is_refused [of SS_EXPLORING]
  by (simp add: allows_stop_def allows_abort_def)

end
