(* ===== verification/Reconciler.thy ===== *)
theory Reconciler
  imports Commit WriterGate SessionMachine
begin

section \<open>Reconciliation and the life of a commit\<close>

text \<open>
  \<open>packages/domain/services/reconciler.py\<close>: the fenced protocol that decides the outcome of a lost
  commit, the probe loop and the tick over all stuck sessions.  Whether a row lock was obtained
  before the lock timeout is an argument (\<open>locks\<close>: the session row, the attempt row), and so is the
  fault a probe meets.

  The second part is the orchestrator's side (\<open>apps/orchestrator/orchestrator.py\<close>): the checked
  transition of a session row, the resolution of a failed final transaction, the abort after a
  failed prepare, and the outcome the run reports.  The step relation \<open>commit_step\<close> interleaves
  all of them with lease calls and other knowledge writers in any order.
\<close>

datatype reconcile_outcome =
    RO_committed_accepted | RO_aborted | RO_finalizer_in_progress
  | RO_records_inconsistent | RO_no_attempt | RO_database_unavailable

record reconcile_result =
  rr_outcome :: reconcile_outcome
  rr_detail :: string

definition fail_session_row :: "string \<Rightarrow> instant \<Rightarrow> session_row \<Rightarrow> session_row" where
  "fail_session_row reason now s =
     s\<lparr>sess_state := SS_FAILED, sess_finished_at := Some now, sess_lease_owner := None,
       sess_lease_expires_at := None, sess_termination_reason := Some reason,
       sess_commit_intent_at := None\<rparr>"

definition mark_failed :: "uuid \<Rightarrow> string \<Rightarrow> db \<Rightarrow> db" where
  "mark_failed sid reason d =
     (let d1 = update_session_state (\<lambda>s. sess_id s = sid \<and> \<not> is_terminal (sess_state s))
            (fail_session_row reason (db_now d)) d;
          d2 = session_event AE_SESSION_FAILED sid [(''reconciliation'', JStr reason)]
            (Some (''session failed by reconciliation ('' @ reason @ '')'')) d1
      in session_event AE_COMMIT_RECONCILED sid
           [(''reason'', JStr reason), (''outcome'', JStr ''aborted'')] None d2)"

text \<open>\<open>UPDATE commit_attempts SET status = 'aborted' WHERE ... AND status IN ('prepared', 'reconciling')\<close>.\<close>

definition abort_unresolved :: "(attempt_row \<Rightarrow> bool) \<Rightarrow> db \<Rightarrow> db" where
  "abort_unresolved p d =
     d\<lparr>db_attempts := tbl_update (\<lambda>a. p a \<and> attempt_is_unresolved (att_status a))
        (\<lambda>a. a\<lparr>att_status := CA_ABORTED, att_finished_at := Some (db_now d)\<rparr>) (db_attempts d)\<rparr>"

definition lock_timeout :: exn where
  "lock_timeout = LockTimeoutError ''row lock not acquired in time''"

definition reconcile_commit :: "bool \<times> bool \<Rightarrow> uuid \<Rightarrow> db \<Rightarrow> exn + (reconcile_result \<times> db)" where
  "reconcile_commit locks sid d =
     (if \<not> fst locks then Inl lock_timeout
      else case get_session d sid of
        None \<Rightarrow> Inr (\<lparr>rr_outcome = RO_no_attempt, rr_detail = ''session missing''\<rparr>, d)
      | Some s \<Rightarrow>
          if is_terminal (sess_state s) \<and> sess_state s \<noteq> SS_FAILED then
            Inr (\<lparr>rr_outcome = RO_committed_accepted,
                  rr_detail = ''terminal='' @ session_state_value (sess_state s)\<rparr>, d)
          else if sess_state s = SS_FAILED then
            Inr (\<lparr>rr_outcome = RO_no_attempt, rr_detail = ''session already failed''\<rparr>, d)
          else case sess_commit_attempt_id s of
            None \<Rightarrow> Inr (\<lparr>rr_outcome = RO_aborted,
                rr_detail = ''no prepared attempt (pre-boundary failure)''\<rparr>,
                mark_failed sid ''no_prepared_attempt'' d)
          | Some aid \<Rightarrow>
              if sess_lease_owner s \<noteq> None \<and> is_after (sess_lease_expires_at s) (db_now d) then
                Inr (\<lparr>rr_outcome = RO_finalizer_in_progress, rr_detail = ''live lease present''\<rparr>, d)
              else if \<not> snd locks then Inl lock_timeout
              else case get_attempt d aid of
                None \<Rightarrow> Inr (\<lparr>rr_outcome = RO_records_inconsistent,
                    rr_detail = ''attempt row vanished under lock''\<rparr>, d)
              | Some a \<Rightarrow>
                  (case att_status a of
                     CA_COMMITTED \<Rightarrow>
                       Inr (\<lparr>rr_outcome = RO_records_inconsistent,
                             rr_detail = ''committed attempt without terminal record''\<rparr>,
                         session_event AE_ALERT_RAISED sid
                           [(''kind'', JStr ''records_inconsistent''),
                            (''detail'', JStr ''attempt committed but session not terminal'')]
                           (Some ''SECURITY: committed attempt without terminal record'') d)
                   | CA_ABORTED \<Rightarrow>
                       Inr (\<lparr>rr_outcome = RO_aborted, rr_detail = ''attempt already aborted''\<rparr>,
                         mark_failed sid ''attempt already aborted'' d)
                   | _ \<Rightarrow>
                       Inr (\<lparr>rr_outcome = RO_aborted, rr_detail = ''unresolved attempt fenced -> aborted''\<rparr>,
                         mark_failed sid ''reconciled_abort''
                           (abort_unresolved (\<lambda>x. att_id x = aid) d))))"

subsection \<open>Probes and the tick\<close>

datatype probe_fault = No_fault | Lock_fault | Database_fault string

definition transient :: "reconcile_outcome \<Rightarrow> bool" where
  "transient out \<longleftrightarrow> out \<in> {RO_finalizer_in_progress, RO_database_unavailable}"

text \<open>One probe: its own transaction, rolled back when it raises.\<close>

definition probe_once :: "probe_fault \<Rightarrow> uuid \<Rightarrow> db \<Rightarrow> reconcile_result \<times> db" where
  "probe_once fault sid d =
     (case fault of
        Database_fault m \<Rightarrow> (\<lparr>rr_outcome = RO_database_unavailable, rr_detail = take 200 m\<rparr>, d)
      | _ \<Rightarrow> (case reconcile_commit (fault = No_fault, True) sid d of
                 Inl e \<Rightarrow> (\<lparr>rr_outcome = RO_finalizer_in_progress, rr_detail = ''row lock timeout''\<rparr>, d)
               | Inr r \<Rightarrow> r))"

text \<open>
  The probe loop.  \<open>world n\<close> is what others did to the database before probe \<open>n\<close>, \<open>faults n\<close> what
  the probe meets.
\<close>

fun probe_loop ::
  "(nat \<Rightarrow> db \<Rightarrow> db) \<Rightarrow> (nat \<Rightarrow> probe_fault) \<Rightarrow> uuid \<Rightarrow> nat \<Rightarrow> nat \<Rightarrow> reconcile_result \<Rightarrow> db \<Rightarrow>
   reconcile_result \<times> db" where
  "probe_loop world faults sid n 0 res d = (res, d)"
| "probe_loop world faults sid n (Suc k) res d =
     (let (res', d') = probe_once (faults n) sid (world n d) in
      if transient (rr_outcome res') then probe_loop world faults sid (Suc n) k res' d'
      else (res', d'))"

definition reconcile_with_retries ::
  "(nat \<Rightarrow> db \<Rightarrow> db) \<Rightarrow> (nat \<Rightarrow> probe_fault) \<Rightarrow> nat \<Rightarrow> uuid \<Rightarrow> db \<Rightarrow> reconcile_result \<times> db" where
  "reconcile_with_retries world faults max_probes sid d =
     probe_loop world faults sid 0 max_probes
       \<lparr>rr_outcome = RO_finalizer_in_progress, rr_detail = ''no probe run''\<rparr> d"

definition find_unresolved_sessions :: "db \<Rightarrow> uuid list" where
  "find_unresolved_sessions d =
     map sess_id (sort_key sess_created_at
       (filter (\<lambda>s. sess_state s \<in> {SS_COMMITTING, SS_RECONCILING_COMMIT}) (db_sessions d)))"

record tick_result =
  tk_resolved :: "(uuid \<times> reconcile_result) list"
  tk_transient :: "(uuid \<times> reconcile_result) list"
  tk_inconsistent :: "(uuid \<times> reconcile_result) list"

definition all_resolved :: "tick_result \<Rightarrow> bool" where
  "all_resolved t \<longleftrightarrow> tk_transient t = [] \<and> tk_inconsistent t = []"

fun tick_sessions ::
  "(uuid \<Rightarrow> nat \<Rightarrow> db \<Rightarrow> db) \<Rightarrow> (uuid \<Rightarrow> nat \<Rightarrow> probe_fault) \<Rightarrow> nat \<Rightarrow> uuid list \<Rightarrow> tick_result \<Rightarrow> db \<Rightarrow>
   tick_result \<times> db" where
  "tick_sessions world faults n [] t d = (t, d)"
| "tick_sessions world faults n (sid # sids) t d =
     (let (res, d') = reconcile_with_retries (world sid) (faults sid) n sid d;
          entry = (sid, res);
          t' = (if rr_outcome res \<in> {RO_committed_accepted, RO_aborted, RO_no_attempt}
                then t\<lparr>tk_resolved := tk_resolved t @ [entry]\<rparr>
                else if rr_outcome res = RO_records_inconsistent
                then t\<lparr>tk_inconsistent := tk_inconsistent t @ [entry]\<rparr>
                else t\<lparr>tk_transient := tk_transient t @ [entry]\<rparr>)
      in tick_sessions world faults n sids t' d')"

definition reconcile_tick ::
  "(uuid \<Rightarrow> nat \<Rightarrow> db \<Rightarrow> db) \<Rightarrow> (uuid \<Rightarrow> nat \<Rightarrow> probe_fault) \<Rightarrow> nat \<Rightarrow> db \<Rightarrow> tick_result \<times> db" where
  "reconcile_tick world faults max_probes d =
     tick_sessions world faults max_probes (find_unresolved_sessions d)
       \<lparr>tk_resolved = [], tk_transient = [], tk_inconsistent = []\<rparr> d"

subsection \<open>The orchestrator's side\<close>

definition orchestrator_transition :: "session_row \<Rightarrow> session_state \<Rightarrow> db \<Rightarrow> invalid_transition + db" where
  "orchestrator_transition s dst d =
     (case transition (sess_state s) dst of
        Inl e \<Rightarrow> Inl e
      | Inr _ \<Rightarrow> Inr (session_event AE_SESSION_STATE_CHANGED (sess_id s)
          [(''from'', JStr (session_state_value (sess_state s))),
           (''to'', JStr (session_state_value dst))] None
          (update_session_state (\<lambda>r. sess_id r = sess_id s) (\<lambda>r. r\<lparr>sess_state := dst\<rparr>) d)))"

definition resolve_failed_finalize ::
  "uuid \<Rightarrow> uuid \<Rightarrow> exn \<Rightarrow> finalize_args \<Rightarrow> db \<Rightarrow> db" where
  "resolve_failed_finalize sid aid e fa d =
     (let reason = ''commit_boundary_error: '' @ exn_name e;
          d1 = abort_unresolved (\<lambda>a. att_session_id a = sid \<and> att_id a = aid) d;
          d2 = update_session_state (\<lambda>s. sess_id s = sid \<and> \<not> is_terminal (sess_state s))
                 (fail_session_row reason (db_now d)) d1;
          d3 = session_event AE_SESSION_FAILED sid
            [(''attempt_id'', JStr (uuid_str aid)), (''reason'', JStr reason),
             (''error'', JStr (take 500 (exn_text e))), (''steps'', JInt (fa_steps fa)),
             (''evidence'', JInt (fa_evidence_count fa))]
            (Some (''session failed at the commit boundary ('' @ reason @ '')'')) d2
      in session_event AE_COMMIT_ATTEMPT_ABORTED sid
           [(''attempt_id'', JStr (uuid_str aid)), (''reason'', JStr reason),
            (''error'', JStr (take 500 (exn_text e)))] None d3)"

definition abort_session :: "uuid \<Rightarrow> string \<Rightarrow> db \<Rightarrow> db" where
  "abort_session sid reason d =
     (let d1 = update_session_state (\<lambda>s. sess_id s = sid \<and> sess_state s = SS_COMMITTING)
                 (fail_session_row reason (db_now d)) d;
          d2 = d1\<lparr>db_attempts := tbl_update (\<lambda>a. att_session_id a = sid \<and> att_status a = CA_PREPARED)
                 (\<lambda>a. a\<lparr>att_status := CA_ABORTED, att_finished_at := Some (db_now d)\<rparr>) (db_attempts d1)\<rparr>
      in session_event AE_SESSION_FAILED sid [(''reason'', JStr reason)]
           (Some (''session failed ('' @ reason @ '')'')) d2)"

text \<open>The state the run reports after the reconciliation of a refused commit.\<close>

definition reported_state :: "session_state \<Rightarrow> reconcile_outcome \<Rightarrow> session_state" where
  "reported_state terminal out =
     (if out \<in> {RO_aborted, RO_records_inconsistent, RO_no_attempt} then SS_FAILED else terminal)"

text \<open>
  Phase 3 of a run: the final transaction, the resolution of an exception, the reconciliation of a
  refused commit in a transaction of its own (started at \<open>now2\<close>), and the reported state.
\<close>

definition final_phase ::
  "host \<Rightarrow> instant \<Rightarrow> instant \<Rightarrow> instant \<Rightarrow> bool \<times> bool \<Rightarrow> uuid \<Rightarrow> uuid \<Rightarrow> string \<Rightarrow> finalize_args \<Rightarrow>
   memory_callback option \<Rightarrow> db \<Rightarrow> exn + (session_state \<times> db)" where
  "final_phase h u1 u2 now2 locks sid aid owner fa am d =
     (case (case (get_session d sid, get_attempt d aid) of
              (Some s, Some attempt) \<Rightarrow> finalize h u1 u2 s attempt owner fa am d
            | _ \<Rightarrow> Inl (RuntimeError ''session or attempt missing at finalize'')) of
        Inl e \<Rightarrow> Inr (SS_FAILED, resolve_failed_finalize sid aid e fa d)
      | Inr (res, d1) \<Rightarrow>
          if fr_outcome res = FO_committed then Inr (fa_terminal fa, d1)
          else (case reconcile_commit locks sid (d1\<lparr>db_now := now2\<rparr>) of
                  Inl e \<Rightarrow> Inl e
                | Inr (rr, d2) \<Rightarrow> Inr (reported_state (fa_terminal fa) (rr_outcome rr), d2)))"

subsection \<open>Interleavings\<close>

text \<open>
  The histories of a database: sessions are created and driven through checked transitions, leases
  are taken, renewed and released, commits are prepared, finalized, resolved, aborted and
  reconciled, and other knowledge writers change other tables and raise the knowledge revision.
  Every step is one transaction; they follow each other in any order.
\<close>

definition knowledge :: "db \<Rightarrow> int option" where
  "knowledge d = map_option rev_revision (get_revision d ''knowledge'')"

definition revision_grows :: "db \<Rightarrow> db \<Rightarrow> bool" where
  "revision_grows d d' \<longleftrightarrow> (\<forall>k. knowledge d = Some k \<longrightarrow> (\<exists>k'. knowledge d' = Some k' \<and> k \<le> k'))"

inductive commit_step :: "db \<Rightarrow> db \<Rightarrow> bool" where
  create: "\<lbrakk> sess_id s \<notin> sess_id ` set (db_sessions d); sess_commit_attempt_id s = None \<rbrakk>
     \<Longrightarrow> commit_step d (d\<lparr>db_sessions := db_sessions d @ [s]\<rparr>)"
| transit: "\<lbrakk> get_session d i = Some s; orchestrator_transition s dst d = Inr d' \<rbrakk> \<Longrightarrow> commit_step d d'"
| acquire: "lease_acquire ttl deadline c i owner d = Inr d' \<Longrightarrow> commit_step d d'"
| heartbeat: "lease_heartbeat ttl progress c i owner d = Inr d' \<Longrightarrow> commit_step d d'"
| release: "commit_step d (lease_release i owner d)"
| intent: "commit_step d (snd (register_session_intent i d))"
| record_op: "staging_record h limits i op payload pc pe pq d = Inr (row, d') \<Longrightarrow> commit_step d d'"
| prepare: "prepare h u i manifest d = Inr (attempt, d') \<Longrightarrow> commit_step d d'"
| finalize: "\<lbrakk> get_session d i = Some s; get_attempt d aid = Some attempt; att_session_id attempt = i;
     fa_terminal fa \<in> {SS_SUCCEEDED, SS_SUCCEEDED_PARTIAL, SS_FAILED}; memory_keeps am;
     finalize h u1 u2 s attempt owner fa am d = Inr (res, d') \<rbrakk> \<Longrightarrow> commit_step d d'"
| resolve: "commit_step d (resolve_failed_finalize i aid e fa d)"
| abort: "commit_step d (abort_session i reason d)"
| reconcile: "reconcile_commit locks i d = Inr (rr, d') \<Longrightarrow> commit_step d d'"
| other: "\<lbrakk> db_sessions d' = db_sessions d; db_attempts d' = db_attempts d; db_uuid4 d' = db_uuid4 d;
     db_draws d \<le> db_draws d'; revision_grows d d' \<rbrakk> \<Longrightarrow> commit_step d d'"

definition fresh_db :: "db \<Rightarrow> bool" where
  "fresh_db d \<longleftrightarrow> db_sessions d = [] \<and> db_attempts d = [] \<and> inj (db_uuid4 d)"

text \<open>
  The invariant.  A session's attempt exists and is its own; a committed attempt belongs to a
  session that ended successfully, was based on a revision that has passed, and shares neither its
  base nor its session with another committed attempt; identifiers are unique.
\<close>

definition commit_inv :: "db \<Rightarrow> bool" where
  "commit_inv d \<longleftrightarrow>
     unique_sessions d \<and> distinct (map att_id (db_attempts d)) \<and> inj (db_uuid4 d) \<and>
     att_id ` set (db_attempts d) \<subseteq> db_uuid4 d ` {..<db_draws d} \<and>
     (\<forall>s\<in>set (db_sessions d). \<forall>aid. sess_commit_attempt_id s = Some aid \<longrightarrow>
        (\<exists>a\<in>set (db_attempts d). att_id a = aid \<and> att_session_id a = sess_id s)) \<and>
     (\<forall>a\<in>set (db_attempts d). att_status a = CA_COMMITTED \<longrightarrow>
        (\<exists>s\<in>set (db_sessions d). sess_id s = att_session_id a \<and>
           sess_state s \<in> {SS_SUCCEEDED, SS_SUCCEEDED_PARTIAL}) \<and>
        (\<exists>k. knowledge d = Some k \<and> att_base_knowledge_revision a < k)) \<and>
     (\<forall>a\<in>set (db_attempts d). \<forall>b\<in>set (db_attempts d).
        att_status a = CA_COMMITTED \<and> att_status b = CA_COMMITTED \<and>
        (att_base_knowledge_revision a = att_base_knowledge_revision b \<or> att_session_id a = att_session_id b)
        \<longrightarrow> a = b)"

lemma commit_invD:
  assumes "commit_inv d"
  shows "unique_sessions d" "distinct (map att_id (db_attempts d))" "inj (db_uuid4 d)"
    "att_id ` set (db_attempts d) \<subseteq> db_uuid4 d ` {..<db_draws d}"
    "\<And>s aid. s \<in> set (db_sessions d) \<Longrightarrow> sess_commit_attempt_id s = Some aid \<Longrightarrow>
       \<exists>a\<in>set (db_attempts d). att_id a = aid \<and> att_session_id a = sess_id s"
    "\<And>a. a \<in> set (db_attempts d) \<Longrightarrow> att_status a = CA_COMMITTED \<Longrightarrow>
       \<exists>s\<in>set (db_sessions d). sess_id s = att_session_id a \<and>
           sess_state s \<in> {SS_SUCCEEDED, SS_SUCCEEDED_PARTIAL}"
    "\<And>a. a \<in> set (db_attempts d) \<Longrightarrow> att_status a = CA_COMMITTED \<Longrightarrow>
       \<exists>k. knowledge d = Some k \<and> att_base_knowledge_revision a < k"
    "\<And>a b. a \<in> set (db_attempts d) \<Longrightarrow> b \<in> set (db_attempts d) \<Longrightarrow> att_status a = CA_COMMITTED \<Longrightarrow>
       att_status b = CA_COMMITTED \<Longrightarrow>
       att_base_knowledge_revision a = att_base_knowledge_revision b \<or> att_session_id a = att_session_id b \<Longrightarrow> a = b"
  using assms unfolding commit_inv_def by blast+

lemma commit_invI:
  assumes "unique_sessions d" "distinct (map att_id (db_attempts d))"
    "att_id ` set (db_attempts d) \<subseteq> db_uuid4 d ` {..<db_draws d}"
    "\<And>s aid. s \<in> set (db_sessions d) \<Longrightarrow> sess_commit_attempt_id s = Some aid \<Longrightarrow>
       \<exists>a\<in>set (db_attempts d). att_id a = aid \<and> att_session_id a = sess_id s"
    "\<And>a. a \<in> set (db_attempts d) \<Longrightarrow> att_status a = CA_COMMITTED \<Longrightarrow>
       \<exists>s\<in>set (db_sessions d). sess_id s = att_session_id a \<and>
           sess_state s \<in> {SS_SUCCEEDED, SS_SUCCEEDED_PARTIAL}"
    "\<And>a. a \<in> set (db_attempts d) \<Longrightarrow> att_status a = CA_COMMITTED \<Longrightarrow>
       \<exists>k. knowledge d = Some k \<and> att_base_knowledge_revision a < k"
    "inj (db_uuid4 d)"
    "\<And>a b. a \<in> set (db_attempts d) \<Longrightarrow> b \<in> set (db_attempts d) \<Longrightarrow> att_status a = CA_COMMITTED \<Longrightarrow>
       att_status b = CA_COMMITTED \<Longrightarrow>
       att_base_knowledge_revision a = att_base_knowledge_revision b \<or> att_session_id a = att_session_id b \<Longrightarrow> a = b"
  shows "commit_inv d"
  unfolding commit_inv_def by (intro conjI ballI allI impI; (elim conjE)?) (fact assms | erule (3) assms | erule (1) assms)+

lemma commit_inv_fresh: "fresh_db d \<Longrightarrow> commit_inv d"
  by (simp add: fresh_db_def commit_inv_def unique_sessions_def)

lemma map_key_update:
  "(\<And>r. r \<in> set t \<Longrightarrow> p r \<Longrightarrow> key (f r) = key r) \<Longrightarrow> map key (tbl_update p f t) = map key t"
  by (induction t) auto

lemma commit_inv_update:
  assumes inv: "commit_inv d"
    and S: "db_sessions d' = tbl_update p f (db_sessions d)"
    and A: "db_attempts d' = tbl_update q g (db_attempts d)"
    and U: "db_uuid4 d' = db_uuid4 d" "db_draws d \<le> db_draws d'" "revision_grows d d'"
    and keepS: "\<And>r. r \<in> set (db_sessions d) \<Longrightarrow> p r \<Longrightarrow> sess_id (f r) = sess_id r
      \<and> sess_commit_attempt_id (f r) = sess_commit_attempt_id r
      \<and> (sess_state r \<in> {SS_SUCCEEDED, SS_SUCCEEDED_PARTIAL} \<longrightarrow> sess_state (f r) = sess_state r)"
    and keepA: "\<And>a. a \<in> set (db_attempts d) \<Longrightarrow> q a \<Longrightarrow> att_id (g a) = att_id a
      \<and> att_session_id (g a) = att_session_id a
      \<and> att_base_knowledge_revision (g a) = att_base_knowledge_revision a
      \<and> att_status a \<noteq> CA_COMMITTED \<and> att_status (g a) \<noteq> CA_COMMITTED"
  shows "commit_inv d'"
proof -
  let ?F = "\<lambda>r. if p r then f r else r" and ?G = "\<lambda>a. if q a then g a else a"
  note D = commit_invD [OF inv]
  have sids: "map sess_id (db_sessions d') = map sess_id (db_sessions d)"
    unfolding S using keepS by (intro map_key_update) blast
  have aids: "map att_id (db_attempts d') = map att_id (db_attempts d)"
    unfolding A using keepA by (intro map_key_update) blast
  have sset: "set (db_sessions d') = ?F ` set (db_sessions d)" unfolding S by (rule set_tbl_update)
  have aset: "set (db_attempts d') = ?G ` set (db_attempts d)" unfolding A by (rule set_tbl_update)
  have com: "b \<in> set (db_attempts d) \<and> att_status b = CA_COMMITTED"
    if b: "b \<in> set (db_attempts d')" "att_status b = CA_COMMITTED" for b
  proof -
    from b(1) [unfolded aset] obtain a where a: "b = ?G a" "a \<in> set (db_attempts d)" by (rule imageE)
    with b(2) keepA [OF a(2)] show ?thesis by (cases "q a") simp_all
  qed
  have 1: "unique_sessions d'" using D(1) sids by (simp add: unique_sessions_def)
  have 2: "distinct (map att_id (db_attempts d'))" using D(2) aids by simp
  have 3: "att_id ` set (db_attempts d') \<subseteq> db_uuid4 d' ` {..<db_draws d'}"
  proof -
    have "att_id ` set (db_attempts d') = att_id ` set (db_attempts d)" using aids by (metis list.set_map)
    then show ?thesis using D(4) U by (auto simp: lessThan_def intro: order.strict_trans2)
  qed
  have 4: "\<exists>a\<in>set (db_attempts d'). att_id a = aid \<and> att_session_id a = sess_id s"
    if "s \<in> set (db_sessions d')" "sess_commit_attempt_id s = Some aid" for s aid
  proof -
    from that(1) [unfolded sset] obtain r where r: "s = ?F r" "r \<in> set (db_sessions d)" by (rule imageE)
    have "sess_commit_attempt_id r = Some aid" "sess_id s = sess_id r"
      using that(2) r(1) keepS [OF r(2)] by (cases "p r"; simp)+
    then obtain a where a: "a \<in> set (db_attempts d)" "att_id a = aid" "att_session_id a = sess_id s"
      using D(5) [OF r(2)] by metis
    have "att_id (?G a) = aid" "att_session_id (?G a) = sess_id s" using a keepA [OF a(1)] by simp_all
    with a(1) aset show ?thesis by blast
  qed
  have 5: "(\<exists>s\<in>set (db_sessions d'). sess_id s = att_session_id a \<and> sess_state s \<in> {SS_SUCCEEDED, SS_SUCCEEDED_PARTIAL})
      \<and> (\<exists>k. knowledge d' = Some k \<and> att_base_knowledge_revision a < k)"
    if "a \<in> set (db_attempts d')" "att_status a = CA_COMMITTED" for a
  proof -
    from com [OF that] have a: "a \<in> set (db_attempts d)" "att_status a = CA_COMMITTED" by auto
    obtain r where r: "r \<in> set (db_sessions d)" "sess_id r = att_session_id a"
      "sess_state r \<in> {SS_SUCCEEDED, SS_SUCCEEDED_PARTIAL}" using D(6) [OF a] by blast
    have "sess_id (?F r) = att_session_id a" "sess_state (?F r) \<in> {SS_SUCCEEDED, SS_SUCCEEDED_PARTIAL}"
      using r keepS [OF r(1)] by auto
    moreover have "?F r \<in> set (db_sessions d')" using r(1) sset by blast
    moreover have "\<exists>k. knowledge d' = Some k \<and> att_base_knowledge_revision a < k"
      using D(7) [OF a] U(3) unfolding revision_grows_def by fastforce
    ultimately show ?thesis by blast
  qed
  show ?thesis
  proof (rule commit_invI)
    show "inj (db_uuid4 d')" using D(3) U(1) by simp
    show "a = b" if "a \<in> set (db_attempts d')" "b \<in> set (db_attempts d')" "att_status a = CA_COMMITTED"
      "att_status b = CA_COMMITTED"
      "att_base_knowledge_revision a = att_base_knowledge_revision b \<or> att_session_id a = att_session_id b" for a b
      using D(8) com [OF that(1,3)] com [OF that(2,4)] that(5) by blast
  qed (fact 1, fact 2, fact 3, fact 4, use 5 in blast, use 5 in blast)
qed

subsection \<open>Every step keeps the invariant\<close>

lemma apply_rows_draws:
  "apply_rows h s rows c q d = Inr (c', q', d') \<Longrightarrow> db_draws d \<le> db_draws d' \<and> db_uuid4 d' = db_uuid4 d"
proof (induction h s rows c q d rule: apply_rows.induct)
  case (2 h s row rows claims questions d)
  have q: "create_question t og snap st pr par e = Inr (x, e') \<Longrightarrow>
      db_draws e' = Suc (db_draws e) \<and> db_uuid4 e' = db_uuid4 e" for t og snap st pr par e x e'
    by (auto simp: create_question_def uuid4_def Let_def split: option.splits)
  have st: "db_draws (set_staging_state i x e) = db_draws e" "db_uuid4 (set_staging_state i x e) = db_uuid4 e" for i x e
    by (simp_all add: set_staging_state_def)
  from 2 show ?case
    by (auto simp: st split: if_splits sum.splits prod.splits dest!: q) force+
qed simp

lemma finish_commit_draws:
  assumes "finish_commit h u1 u2 s attempt touches fa m d = Inr (res, d')"
  shows "db_draws d \<le> db_draws d' \<and> db_uuid4 d' = db_uuid4 d"
proof -
  from assms obtain c q d1 where ap: "apply_recorded h s d = Inr (c, q, d1)"
    by (auto simp: finish_commit_def split: sum.splits)
  then obtain d0 where "apply_rows h s (recorded_rows d (sess_id s)) 0 0 d = Inr (c, q, d0)"
    "d1 = d0 \<or> (\<exists>ty p. d1 = session_event ty (sess_id s) p None d0)"
    by (fastforce simp: apply_recorded_def Let_def split: sum.splits if_splits)
  then have 1: "db_draws d \<le> db_draws d1 \<and> db_uuid4 d1 = db_uuid4 d" using apply_rows_draws by fastforce
  let ?d3 = "snd (bump_revision ''knowledge'' (att_base_knowledge_revision attempt) (set_workspace_pointer s attempt d1))"
  from assms ap obtain g d4 where bg: "bump_graph attempt touches m ?d3 = Inr (g, d4)"
    by (auto simp: finish_commit_def Let_def split: sum.splits)
  have "commit_rows d' = commit_rows (close_session (sess_id s) (fa_terminal fa) (fa_termination_reason fa) u2
      (write_question fa c (settle_attempt (att_id attempt) CA_COMMITTED u1 d4)))
    \<and> db_draws d' = db_draws d4 + 4"
    using assms ap bg by (auto simp: finish_commit_def Let_def)
  with bump_graph_frame [OF bg] 1 show ?thesis by (simp add: commit_rows_eq)
qed

lemma commit_inv_prepare:
  assumes inv: "commit_inv d" and p: "prepare h u i manifest d = Inr (attempt, d')"
  shows "commit_inv d'"
proof -
  note D = commit_invD [OF inv]
  let ?f = "\<lambda>s. s\<lparr>sess_commit_attempt_id := Some (att_id attempt), sess_commit_intent_at := Some u\<rparr>"
  have new: "att_id attempt = db_uuid4 d (db_draws d)" "att_session_id attempt = i" "att_status attempt = CA_PREPARED"
    and A: "db_attempts d' = db_attempts d @ [attempt]"
    and S: "db_sessions d' = tbl_update (\<lambda>s. sess_id s = i) ?f (db_sessions d)"
    and U: "db_uuid4 d' = db_uuid4 d" "db_draws d' = db_draws d + 3" "knowledge d' = knowledge d"
    using p by (auto simp: prepare_def uuid4_def Let_def update_session_def knowledge_def get_revision_def
        split: sum.splits)
  have sset: "set (db_sessions d') = (\<lambda>r. if sess_id r = i then ?f r else r) ` set (db_sessions d)"
    unfolding S by (rule set_tbl_update)
  have fresh: "att_id attempt \<notin> att_id ` set (db_attempts d)"
  proof
    assume "att_id attempt \<in> att_id ` set (db_attempts d)"
    then obtain x where "x < db_draws d" "db_uuid4 d x = db_uuid4 d (db_draws d)"
      using D(4) new(1) by fastforce
    then show False using injD [OF D(3)] by blast
  qed
  have sids: "map sess_id (db_sessions d') = map sess_id (db_sessions d)"
    unfolding S by (intro map_key_update) simp
  have com: "a \<in> set (db_attempts d)" if "a \<in> set (db_attempts d')" "att_status a = CA_COMMITTED" for a
    using that new(3) A by auto
  show ?thesis
  proof (rule commit_invI)
    show "unique_sessions d'" using D(1) sids by (simp add: unique_sessions_def)
    show "distinct (map att_id (db_attempts d'))" using D(2) fresh A by simp
    show "att_id ` set (db_attempts d') \<subseteq> db_uuid4 d' ` {..<db_draws d'}"
      using D(4) new(1) A U by fastforce
    show "inj (db_uuid4 d')" using D(3) U by simp
    show "\<exists>a\<in>set (db_attempts d'). att_id a = aid \<and> att_session_id a = sess_id s"
      if s: "s \<in> set (db_sessions d')" "sess_commit_attempt_id s = Some aid" for s aid
    proof -
      from s(1) [unfolded sset] obtain r where r: "s = (if sess_id r = i then ?f r else r)" "r \<in> set (db_sessions d)"
        by (rule imageE)
      show ?thesis
      proof (cases "sess_id r = i")
        case True
        with r s(2) new A show ?thesis by auto
      next
        case False
        with r s(2) D(5) [OF r(2)] A show ?thesis by auto
      qed
    qed
    show "\<exists>s\<in>set (db_sessions d'). sess_id s = att_session_id a \<and> sess_state s \<in> {SS_SUCCEEDED, SS_SUCCEEDED_PARTIAL}"
      if a: "a \<in> set (db_attempts d')" "att_status a = CA_COMMITTED" for a
    proof -
      obtain r where r: "r \<in> set (db_sessions d)" "sess_id r = att_session_id a"
        "sess_state r \<in> {SS_SUCCEEDED, SS_SUCCEEDED_PARTIAL}" using D(6) [OF com [OF a] a(2)] by blast
      let ?r = "if sess_id r = i then ?f r else r"
      have "?r \<in> set (db_sessions d')" unfolding sset using r(1) by (rule imageI)
      moreover have "sess_id ?r = att_session_id a" "sess_state ?r \<in> {SS_SUCCEEDED, SS_SUCCEEDED_PARTIAL}"
        using r by auto
      ultimately show ?thesis by blast
    qed
    show "\<exists>k. knowledge d' = Some k \<and> att_base_knowledge_revision a < k"
      if "a \<in> set (db_attempts d')" "att_status a = CA_COMMITTED" for a
      using D(7) [OF com [OF that] that(2)] U(3) by simp
    show "a = b" if "a \<in> set (db_attempts d')" "b \<in> set (db_attempts d')" "att_status a = CA_COMMITTED"
      "att_status b = CA_COMMITTED"
      "att_base_knowledge_revision a = att_base_knowledge_revision b \<or> att_session_id a = att_session_id b" for a b
      using D(8) [OF com [OF that(1,3)] com [OF that(2,4)] that(3-5)] .
  qed
qed

lemma commit_inv_committed:
  assumes inv: "commit_inv d" and s: "get_session d i = Some s" "sess_state s = SS_COMMITTING"
    and at: "get_attempt d aid = Some attempt" "att_session_id attempt = i"
    and f: "closes t f" "t \<in> {SS_SUCCEEDED, SS_SUCCEEDED_PARTIAL}"
    and k: "knowledge d = Some (att_base_knowledge_revision attempt)"
      "knowledge d' = Some (att_base_knowledge_revision attempt + 1)"
    and S: "db_sessions d' = tbl_update (\<lambda>r. sess_id r = i) f (db_sessions d)"
    and A: "db_attempts d' = tbl_update (\<lambda>r. att_id r = aid)
      (\<lambda>a. a\<lparr>att_status := CA_COMMITTED, att_finished_at := u\<rparr>) (db_attempts d)"
    and U: "db_uuid4 d' = db_uuid4 d" "db_draws d \<le> db_draws d'"
  shows "commit_inv d'"
proof -
  note D = commit_invD [OF inv]
  let ?F = "\<lambda>r. if sess_id r = i then f r else r"
  let ?g = "\<lambda>a. a\<lparr>att_status := CA_COMMITTED, att_finished_at := u\<rparr>"
  let ?G = "\<lambda>a. if att_id a = aid then ?g a else a"
  have atr: "attempt \<in> set (db_attempts d)" "att_id attempt = aid"
    using at(1) tbl_get_SomeD unfolding get_attempt_def by fast+
  have uniq: "a = attempt" if "a \<in> set (db_attempts d)" "att_id a = aid" for a
    using D(2) that atr by (auto simp: distinct_map dest: inj_onD)
  have sr: "s \<in> set (db_sessions d)" "sess_id s = i" using get_session_SomeD [OF s(1)] by auto
  have sset: "set (db_sessions d') = ?F ` set (db_sessions d)" unfolding S by (rule set_tbl_update)
  have aset: "set (db_attempts d') = ?G ` set (db_attempts d)" unfolding A by (rule set_tbl_update)
  have sids: "map sess_id (db_sessions d') = map sess_id (db_sessions d)"
    unfolding S using closesD(1) [OF f(1)] by (intro map_key_update)
  have aids: "map att_id (db_attempts d') = map att_id (db_attempts d)"
    unfolding A by (intro map_key_update) simp
  have foreign: "att_session_id a \<noteq> i" if "a \<in> set (db_attempts d)" "att_status a = CA_COMMITTED" for a
    using D(6) [OF that] unique_session_eq [OF D(1) s(1)] s(2) by fastforce
  have old: "a = ?g attempt \<or> (a \<in> set (db_attempts d) \<and> att_status a = CA_COMMITTED)"
    if a: "a \<in> set (db_attempts d')" "att_status a = CA_COMMITTED" for a
  proof -
    from a(1) [unfolded aset] obtain b where b: "a = ?G b" "b \<in> set (db_attempts d)" by (rule imageE)
    show ?thesis
    proof (cases "att_id b = aid")
      case True
      with b uniq [OF b(2)] show ?thesis by simp
    next
      case False
      with b a(2) show ?thesis by simp
    qed
  qed
  have below: "att_base_knowledge_revision a < att_base_knowledge_revision attempt"
    if "a \<in> set (db_attempts d)" "att_status a = CA_COMMITTED" for a
    using D(7) [OF that] k(1) by auto
  show ?thesis
  proof (rule commit_invI)
    show "unique_sessions d'" using D(1) sids by (simp add: unique_sessions_def)
    show "distinct (map att_id (db_attempts d'))" using D(2) aids by simp
    show "inj (db_uuid4 d')" using D(3) U by simp
    have "att_id ` set (db_attempts d') = att_id ` set (db_attempts d)" using aids by (metis list.set_map)
    then show "att_id ` set (db_attempts d') \<subseteq> db_uuid4 d' ` {..<db_draws d'}"
      using D(4) U by (auto simp: lessThan_def intro: order.strict_trans2)
    show "\<exists>a\<in>set (db_attempts d'). att_id a = x \<and> att_session_id a = sess_id r'"
      if r': "r' \<in> set (db_sessions d')" "sess_commit_attempt_id r' = Some x" for r' x
    proof -
      from r'(1) [unfolded sset] obtain r where r: "r' = ?F r" "r \<in> set (db_sessions d)" by (rule imageE)
      have "sess_commit_attempt_id r = Some x" "sess_id r' = sess_id r"
        using r(1) r'(2) closesD [OF f(1)] by (cases "sess_id r = i"; simp)+
      with D(5) [OF r(2)] obtain a where a: "a \<in> set (db_attempts d)" "att_id a = x" "att_session_id a = sess_id r'"
        by metis
      have "?G a \<in> set (db_attempts d')" unfolding aset using a(1) by (rule imageI)
      moreover have "att_id (?G a) = x" "att_session_id (?G a) = sess_id r'" using a by simp_all
      ultimately show ?thesis by blast
    qed
    show "\<exists>r\<in>set (db_sessions d'). sess_id r = att_session_id a \<and> sess_state r \<in> {SS_SUCCEEDED, SS_SUCCEEDED_PARTIAL}"
      if a: "a \<in> set (db_attempts d')" "att_status a = CA_COMMITTED" for a
    proof -
      from old [OF a] show ?thesis
      proof
        assume "a = ?g attempt"
        moreover have "?F s \<in> set (db_sessions d')" unfolding sset using sr(1) by (rule imageI)
        moreover have "sess_id (?F s) = i" "sess_state (?F s) = t" using sr(2) closesD [OF f(1)] by simp_all
        ultimately show ?thesis using f(2) at(2) by force
      next
        assume o: "a \<in> set (db_attempts d) \<and> att_status a = CA_COMMITTED"
        then obtain r where r: "r \<in> set (db_sessions d)" "sess_id r = att_session_id a"
          "sess_state r \<in> {SS_SUCCEEDED, SS_SUCCEEDED_PARTIAL}" using D(6) by blast
        have "?F r \<in> set (db_sessions d')" unfolding sset using r(1) by (rule imageI)
        moreover have "?F r = r" using r(2) foreign o by auto
        ultimately show ?thesis using r by metis
      qed
    qed
    show "\<exists>n. knowledge d' = Some n \<and> att_base_knowledge_revision a < n"
      if a: "a \<in> set (db_attempts d')" "att_status a = CA_COMMITTED" for a
      using old [OF a] below [of a] k(2) by auto
    show "a = b" if ab: "a \<in> set (db_attempts d')" "b \<in> set (db_attempts d')" "att_status a = CA_COMMITTED"
      "att_status b = CA_COMMITTED"
      "att_base_knowledge_revision a = att_base_knowledge_revision b \<or> att_session_id a = att_session_id b" for a b
      using old [OF ab(1,3)] old [OF ab(2,4)] ab(5) D(8) [of a b] below foreign at(2) by fastforce
  qed
qed

lemma grows_same: "db_revisions d' = db_revisions d \<Longrightarrow> revision_grows d d'"
  by (auto simp: revision_grows_def knowledge_def get_revision_def)

lemma commit_inv_same:
  assumes "commit_inv d" "db_sessions d' = db_sessions d" "db_attempts d' = db_attempts d"
    "db_uuid4 d' = db_uuid4 d" "db_draws d \<le> db_draws d'" "revision_grows d d'"
  shows "commit_inv d'"
  using assms by (intro commit_inv_update [OF assms(1), of d' "\<lambda>_. False" id "\<lambda>_. False" id])
    (simp_all add: tbl_update_none)

lemma commit_inv_session_only:
  assumes "commit_inv d" "db_sessions d' = tbl_update p f (db_sessions d)" "db_attempts d' = db_attempts d"
    "db_uuid4 d' = db_uuid4 d" "db_draws d \<le> db_draws d'" "db_revisions d' = db_revisions d"
    "\<And>r. r \<in> set (db_sessions d) \<Longrightarrow> p r \<Longrightarrow> sess_id (f r) = sess_id r
      \<and> sess_commit_attempt_id (f r) = sess_commit_attempt_id r
      \<and> (sess_state r \<in> {SS_SUCCEEDED, SS_SUCCEEDED_PARTIAL} \<longrightarrow> sess_state (f r) = sess_state r)"
  shows "commit_inv d'"
  using assms by (intro commit_inv_update [OF assms(1,2), of "\<lambda>_. False" id])
    (simp_all add: tbl_update_none grows_same)

lemma commit_inv_create:
  assumes inv: "commit_inv d" and "sess_id s \<notin> sess_id ` set (db_sessions d)" "sess_commit_attempt_id s = None"
  shows "commit_inv (d\<lparr>db_sessions := db_sessions d @ [s]\<rparr>)" (is "commit_inv ?d")
proof -
  note D = commit_invD [OF inv]
  have kn: "knowledge ?d = knowledge d" by (simp add: knowledge_def get_revision_def)
  show ?thesis
  proof (rule commit_invI)
    show "unique_sessions ?d" using D(1) assms(2) by (simp add: unique_sessions_def)
    show "\<exists>a\<in>set (db_attempts ?d). att_id a = aid \<and> att_session_id a = sess_id r"
      if "r \<in> set (db_sessions ?d)" "sess_commit_attempt_id r = Some aid" for r aid
      using that assms(3) D(5) [of r aid] by auto
    show "\<exists>r\<in>set (db_sessions ?d). sess_id r = att_session_id a \<and> sess_state r \<in> {SS_SUCCEEDED, SS_SUCCEEDED_PARTIAL}"
      if "a \<in> set (db_attempts ?d)" "att_status a = CA_COMMITTED" for a
      using D(6) [of a] that by auto
  qed (use D kn in simp_all)
qed

lemma not_terminal_success: "\<not> is_terminal (sess_state r) \<Longrightarrow> sess_state r \<notin> {SS_SUCCEEDED, SS_SUCCEEDED_PARTIAL}"
  by (auto simp: is_terminal_def)

lemma fail_row_keeps [simp]:
  "sess_id (fail_session_row reason t r) = sess_id r"
  "sess_commit_attempt_id (fail_session_row reason t r) = sess_commit_attempt_id r"
  "sess_state (fail_session_row reason t r) = SS_FAILED"
  "sess_lease_owner (fail_session_row reason t r) = None"
  "sess_lease_expires_at (fail_session_row reason t r) = None"
  "sess_commit_intent_at (fail_session_row reason t r) = None"
  by (simp_all add: fail_session_row_def)

lemma mark_failed_rows:
  "db_sessions (mark_failed i reason d) =
     tbl_update (\<lambda>s. sess_id s = i \<and> \<not> is_terminal (sess_state s)) (fail_session_row reason (db_now d)) (db_sessions d)"
  "db_attempts (mark_failed i reason d) = db_attempts d"
  "db_revisions (mark_failed i reason d) = db_revisions d"
  "db_staging (mark_failed i reason d) = db_staging d"
  "db_uuid4 (mark_failed i reason d) = db_uuid4 d"
  "db_now (mark_failed i reason d) = db_now d"
  "db_draws (mark_failed i reason d) = db_draws d + 4"
  by (simp_all add: mark_failed_def Let_def)

lemma abort_unresolved_rows:
  "db_sessions (abort_unresolved p d) = db_sessions d"
  "db_attempts (abort_unresolved p d) = tbl_update (\<lambda>a. p a \<and> attempt_is_unresolved (att_status a))
     (\<lambda>a. a\<lparr>att_status := CA_ABORTED, att_finished_at := Some (db_now d)\<rparr>) (db_attempts d)"
  "db_revisions (abort_unresolved p d) = db_revisions d"
  "db_staging (abort_unresolved p d) = db_staging d"
  "db_uuid4 (abort_unresolved p d) = db_uuid4 d"
  "db_now (abort_unresolved p d) = db_now d"
  "db_draws (abort_unresolved p d) = db_draws d"
  by (simp_all add: abort_unresolved_def)

lemma commit_inv_mark_failed: "commit_inv d \<Longrightarrow> commit_inv (mark_failed i reason d)"
  by (rule commit_inv_session_only [OF _ mark_failed_rows(1)])
    (use not_terminal_success in \<open>auto simp: mark_failed_rows\<close>)

lemma commit_inv_abort_unresolved: "commit_inv d \<Longrightarrow> commit_inv (abort_unresolved p d)"
  by (rule commit_inv_update [where p = "\<lambda>_. False" and f = id, OF _ _ abort_unresolved_rows(2)])
    (auto simp: abort_unresolved_rows tbl_update_none grows_same attempt_is_unresolved_def)

lemma commit_inv_record_event: "commit_inv d \<Longrightarrow> commit_inv (record_event ty sid p a s v d)"
  by (rule commit_inv_same) (auto intro: grows_same)

lemma commit_inv_fail_sessions:
  assumes "commit_inv d" and "\<And>r. p r \<Longrightarrow> \<not> is_terminal (sess_state r)"
  shows "commit_inv (update_session_state p (fail_session_row reason t) d)"
  by (rule commit_inv_session_only [OF assms(1), of _ p "fail_session_row reason t"])
    (use assms(2) not_terminal_success in auto)

lemma commit_inv_resolve: "commit_inv d \<Longrightarrow> commit_inv (resolve_failed_finalize i aid e fa d)"
  unfolding resolve_failed_finalize_def Let_def
  by (intro commit_inv_record_event commit_inv_fail_sessions commit_inv_abort_unresolved) simp_all

lemma commit_inv_abort: 
  assumes "commit_inv d"
  shows "commit_inv (abort_session i reason d)"
proof -
  let ?d1 = "update_session_state (\<lambda>s. sess_id s = i \<and> sess_state s = SS_COMMITTING) (fail_session_row reason (db_now d)) d"
  have "commit_inv ?d1" using assms by (rule commit_inv_fail_sessions) (simp add: is_terminal_def)
  then have "commit_inv (?d1\<lparr>db_attempts := tbl_update (\<lambda>a. att_session_id a = i \<and> att_status a = CA_PREPARED)
      (\<lambda>a. a\<lparr>att_status := CA_ABORTED, att_finished_at := Some (db_now d)\<rparr>) (db_attempts ?d1)\<rparr>)"
    by (rule commit_inv_update [where p = "\<lambda>_. False" and f = id
          and q = "\<lambda>a. att_session_id a = i \<and> att_status a = CA_PREPARED"
          and g = "\<lambda>a. a\<lparr>att_status := CA_ABORTED, att_finished_at := Some (db_now d)\<rparr>"])
      (auto simp: tbl_update_none grows_same)
  then show ?thesis unfolding abort_session_def Let_def by (rule commit_inv_record_event)
qed

lemma commit_inv_reconcile:
  assumes "commit_inv d" and "reconcile_commit locks i d = Inr (rr, d')"
  shows "commit_inv d'"
  using assms(2) assms(1) commit_inv_mark_failed commit_inv_abort_unresolved commit_inv_record_event
  by (auto simp: reconcile_commit_def split: if_splits option.splits commit_attempt_status.splits)

lemma commit_inv_finalize:
  assumes inv: "commit_inv d" and s: "get_session d i = Some s"
    and at: "get_attempt d aid = Some attempt" "att_session_id attempt = i"
    and t: "fa_terminal fa \<in> {SS_SUCCEEDED, SS_SUCCEEDED_PARTIAL, SS_FAILED}" and am: "memory_keeps am"
    and fin: "finalize h u1 u2 s attempt owner fa am d = Inr (res, d')"
  shows "commit_inv d'"
  using fin
proof (cases rule: finalizeE)
  case (refused out)
  then show ?thesis using inv by simp
next
  case aborted
  have i: "sess_id s = i" using get_session_SomeD [OF s] by simp
  have com: "sess_state s = SS_COMMITTING" using aborted(1) s i by (auto simp: fence_holds_def)
  have atr: "attempt \<in> set (db_attempts d)" "att_id attempt = aid"
    using at(1) tbl_get_SomeD unfolding get_attempt_def by fast+
  from fenced_abort_result [of fa u1 u2 s attempt d] aborted(4) obtain f where f: "closes (fa_terminal fa) f"
    "db_sessions d' = tbl_update (\<lambda>r. sess_id r = sess_id s) f (db_sessions d)"
    "db_attempts d' = tbl_update (\<lambda>r. att_id r = att_id attempt)
         (\<lambda>a. a\<lparr>att_status := CA_ABORTED, att_finished_at := Some u1\<rparr>) (db_attempts d)"
    "db_revisions d' = db_revisions d" by blast
  have "att_status attempt \<noteq> CA_COMMITTED"
    using commit_invD(6) [OF inv atr(1)] unique_session_eq [OF commit_invD(1) [OF inv] s] com at(2) by fastforce
  moreover have "a = attempt" if "a \<in> set (db_attempts d)" "att_id a = att_id attempt" for a
    using commit_invD(2) [OF inv] that atr by (auto simp: distinct_map dest: inj_onD)
  moreover have "sess_state r \<notin> {SS_SUCCEEDED, SS_SUCCEEDED_PARTIAL}"
    if "r \<in> set (db_sessions d)" "sess_id r = sess_id s" for r
    using unique_session_eq [OF commit_invD(1) [OF inv] s] that i com by fastforce
  moreover have "db_uuid4 d' = db_uuid4 d" "db_draws d \<le> db_draws d'"
    using aborted(4) by (simp_all add: fenced_abort_def Let_def)
  ultimately show ?thesis
    using f(4) closesD [OF f(1)] by (intro commit_inv_update [OF inv f(2,3)] grows_same) auto
next
  case (committed m d1)
  have i: "sess_id s = i" using get_session_SomeD [OF s] by simp
  have com: "sess_state s = SS_COMMITTING" using committed(1) s i by (auto simp: fence_holds_def)
  have atr: "att_id attempt = aid" using at(1) tbl_get_SomeD unfolding get_attempt_def by fast
  note keep = run_memory_keeps [OF am committed(3)]
  then have kr: "commit_rows d1 = commit_rows d" by blast
  note fd = finish_commit_draws [OF committed(4)]
  have kd: "knowledge d = Some (att_base_knowledge_revision attempt)"
    using committed(1) by (auto simp: fence_holds_def knowledge_def)
  have t': "fa_terminal fa \<in> {SS_SUCCEEDED, SS_SUCCEEDED_PARTIAL}" using t committed(2) by simp
  from committed(4) show ?thesis
  proof (rule finish_commit_result)
    fix c q d2 f
    assume r: "closes (fa_terminal fa) f"
      "db_sessions d' = tbl_update (\<lambda>r. sess_id r = sess_id s) f (db_sessions d1)"
      "db_attempts d' = tbl_update (\<lambda>r. att_id r = att_id attempt)
         (\<lambda>a. a\<lparr>att_status := CA_COMMITTED, att_finished_at := Some u1\<rparr>) (db_attempts d1)"
      "get_revision d' ''knowledge'' =
         get_revision (snd (bump_revision ''knowledge'' (att_base_knowledge_revision attempt) d1)) ''knowledge''"
    have kd': "knowledge d' = Some (att_base_knowledge_revision attempt + 1)"
      unfolding knowledge_def by (rule knowledge_after_commit [OF committed(1) kr r(4)])
    have S: "db_sessions d' = tbl_update (\<lambda>r. sess_id r = i) f (db_sessions d)"
      and A: "db_attempts d' = tbl_update (\<lambda>r. att_id r = aid)
         (\<lambda>a. a\<lparr>att_status := CA_COMMITTED, att_finished_at := Some u1\<rparr>) (db_attempts d)"
      and U: "db_uuid4 d' = db_uuid4 d" "db_draws d \<le> db_draws d'"
      using r(2,3) kr fd keep i atr by (auto simp: commit_rows_eq)
    show ?thesis by (rule commit_inv_committed [OF inv s com at r(1) t' kd kd' S A U])
  qed
qed

theorem commit_inv_step: "commit_step d d' \<Longrightarrow> commit_inv d \<Longrightarrow> commit_inv d'"
proof (induction rule: commit_step.induct)
  case (create s d)
  show ?case by (rule commit_inv_create [OF create.prems create.hyps])
next
  case (transit d i s dst d')
  have id: "sess_id s = i" using get_session_SomeD [OF transit(1)] by simp
  have "\<not> is_terminal (sess_state s)"
    using transit(2) session_machine.terminal_stuck by (auto simp: orchestrator_transition_def transition_def split: if_splits)
  then have ns: "sess_state s \<notin> {SS_SUCCEEDED, SS_SUCCEEDED_PARTIAL}" by (rule not_terminal_success)
  have eq: "r = s" if "r \<in> set (db_sessions d)" "sess_id r = i" for r
    using unique_session_eq [OF commit_invD(1) [OF transit.prems] transit(1) that] .
  show ?case
    using transit(2) eq ns id
    by (intro commit_inv_session_only [OF transit.prems, of d' "\<lambda>r. sess_id r = i" "\<lambda>r. r\<lparr>sess_state := dst\<rparr>"])
      (auto simp: orchestrator_transition_def split: sum.splits)
next
  case (acquire ttl deadline c i owner d d')
  then show ?case
    by (intro commit_inv_session_only [OF acquire.prems,
        of d' "\<lambda>s. sess_id s = i \<and> acquire_where owner c s" "acquire_set ttl deadline owner c"])
      (auto simp: lease_acquire_def acquire_set_def update_session_def Let_def split: if_splits)
next
  case (heartbeat ttl progress c i owner d d')
  then show ?case
    by (intro commit_inv_session_only [OF heartbeat.prems,
        of d' "\<lambda>s. sess_id s = i \<and> heartbeat_where owner c s" "heartbeat_set ttl progress c"])
      (auto simp: lease_heartbeat_def heartbeat_set_def update_session_def Let_def split: if_splits)
next
  case (release d i owner)
  then show ?case
    by (intro commit_inv_session_only [OF release,
        of _ "\<lambda>s. sess_id s = i \<and> sess_lease_owner s = Some owner" release_set])
      (auto simp: lease_release_def release_set_def update_session_def)
next
  case (intent d i)
  then show ?case
    by (intro commit_inv_session_only [OF intent,
        of _ "\<lambda>s. sess_id s = i \<and> intent_where (db_now d) s" "\<lambda>s. s\<lparr>sess_commit_intent_at := Some (db_now d)\<rparr>"])
      (auto simp: register_session_intent_def update_session_def Let_def)
next
  case (record_op h limits i op payload pc pe pq d row d')
  then show ?case
    by (intro commit_inv_same [OF record_op.prems])
      (auto simp: staging_record_def uuid4_def Let_def grows_same split: if_splits sum.splits)
next
  case (prepare h u i manifest d attempt d')
  then show ?case by (rule commit_inv_prepare [rotated])
next
  case (finalize d i s aid attempt fa am h u1 u2 owner res d')
  show ?case by (rule commit_inv_finalize [OF finalize.prems finalize.hyps])
next
  case (resolve d i aid e fa)
  then show ?case by (rule commit_inv_resolve)
next
  case (abort d i reason)
  then show ?case by (rule commit_inv_abort)
next
  case (reconcile locks i d rr d')
  show ?case by (rule commit_inv_reconcile [OF reconcile.prems reconcile.hyps])
next
  case (other d' d)
  show ?case by (rule commit_inv_same [OF other.prems other.hyps])
qed

lemma commit_inv_run: "commit_step\<^sup>*\<^sup>* d d' \<Longrightarrow> commit_inv d \<Longrightarrow> commit_inv d'"
  by (induction rule: rtranclp_induct) (auto intro: commit_inv_step)

subsection \<open>Facts about one reconciliation\<close>

lemma reconcileE:
  assumes "reconcile_commit locks i d = Inr (rr, d')" and "get_session d i = Some s"
  obtains (accepted) "is_terminal (sess_state s)" "sess_state s \<noteq> SS_FAILED" "rr_outcome rr = RO_committed_accepted" "d' = d"
    | (failed) "sess_state s = SS_FAILED" "rr_outcome rr = RO_no_attempt" "d' = d"
    | (early) "\<not> is_terminal (sess_state s)" "sess_commit_attempt_id s = None" "rr_outcome rr = RO_aborted"
      "d' = mark_failed i ''no_prepared_attempt'' d"
    | (live) "\<not> is_terminal (sess_state s)" "sess_commit_attempt_id s \<noteq> None" "lease_holder s (db_now d) \<noteq> None"
      "rr_outcome rr = RO_finalizer_in_progress" "d' = d"
    | (vanished) aid where "\<not> is_terminal (sess_state s)" "sess_commit_attempt_id s = Some aid" "get_attempt d aid = None"
      "rr_outcome rr = RO_records_inconsistent"
    | (broken) aid a where "\<not> is_terminal (sess_state s)" "sess_commit_attempt_id s = Some aid" "get_attempt d aid = Some a"
      "att_status a = CA_COMMITTED" "rr_outcome rr = RO_records_inconsistent"
    | (settled) aid a where "\<not> is_terminal (sess_state s)" "lease_holder s (db_now d) = None"
      "sess_commit_attempt_id s = Some aid" "get_attempt d aid = Some a" "att_status a = CA_ABORTED"
      "rr_outcome rr = RO_aborted" "d' = mark_failed i ''attempt already aborted'' d"
    | (unresolved) aid a where "\<not> is_terminal (sess_state s)" "lease_holder s (db_now d) = None"
      "sess_commit_attempt_id s = Some aid" "get_attempt d aid = Some a" "attempt_is_unresolved (att_status a)"
      "rr_outcome rr = RO_aborted"
      "d' = mark_failed i ''reconciled_abort'' (abort_unresolved (\<lambda>x. att_id x = aid) d)"
proof (cases "is_terminal (sess_state s)")
  case True
  show ?thesis
  proof (cases "sess_state s = SS_FAILED")
    case f: True
    show ?thesis using assms f True by (intro failed) (auto simp: reconcile_commit_def split: if_splits)
  next
    case f: False
    show ?thesis using assms f True by (intro accepted) (auto simp: reconcile_commit_def split: if_splits)
  qed
next
  case nt: False
  then have nf: "sess_state s \<noteq> SS_FAILED" by (auto simp: is_terminal_def)
  show ?thesis
  proof (cases "sess_commit_attempt_id s")
    case None
    then show ?thesis using assms nt nf by (intro early) (auto simp: reconcile_commit_def split: if_splits)
  next
    case (Some aid)
    show ?thesis
    proof (cases "sess_lease_owner s \<noteq> None \<and> is_after (sess_lease_expires_at s) (db_now d)")
      case True
      then show ?thesis using assms nt nf Some
        by (intro live) (auto simp: reconcile_commit_def lease_holder_def split: if_splits)
    next
      case dead: False
      then have h: "lease_holder s (db_now d) = None" by (auto simp: lease_holder_def)
      show ?thesis
      proof (cases "get_attempt d aid")
        case None
        then show ?thesis using assms nt nf Some dead
          by (intro vanished) (auto simp: reconcile_commit_def split: if_splits)
      next
        case a: (Some a)
        note facts = assms nt nf Some dead a
        show ?thesis
        proof (cases "att_status a")
          case CA_COMMITTED
          then show ?thesis using facts by (intro broken) (auto simp: reconcile_commit_def split: if_splits)
        next
          case CA_ABORTED
          then show ?thesis using facts h by (intro settled) (auto simp: reconcile_commit_def split: if_splits)
        qed (use facts h in \<open>(intro unresolved, auto simp: reconcile_commit_def attempt_is_unresolved_def split: if_splits)+\<close>)
      qed
    qed
  qed
qed

lemma marked_failed:
  assumes "get_session d i = Some s" and "unique_sessions d"
  shows "\<exists>s'. get_session (mark_failed j reason d) i = Some s' \<and> sess_id s' = sess_id s
    \<and> (if i = j \<and> \<not> is_terminal (sess_state s) then s' = fail_session_row reason (db_now d) s else s' = s)"
proof -
  have "tbl_get sess_id i (tbl_update (\<lambda>s. sess_id s = j \<and> \<not> is_terminal (sess_state s))
      (fail_session_row reason (db_now d)) t) =
    map_option (\<lambda>s. if sess_id s = j \<and> \<not> is_terminal (sess_state s) then fail_session_row reason (db_now d) s else s)
      (tbl_get sess_id i t)" for t
    by (induction t) auto
  then show ?thesis
    using assms get_session_SomeD [OF assms(1)]
    by (auto simp: get_session_def mark_failed_rows)
qed

lemma aborted_attempt:
  assumes "get_attempt d aid = Some a" and "attempt_is_unresolved (att_status a)"
  shows "\<exists>a'. get_attempt (abort_unresolved (\<lambda>x. att_id x = aid) d) aid = Some a' \<and> att_status a' = CA_ABORTED"
proof -
  have "tbl_get att_id aid t = Some a \<Longrightarrow>
      \<exists>a'. tbl_get att_id aid (tbl_update (\<lambda>x. att_id x = aid \<and> attempt_is_unresolved (att_status x))
        (\<lambda>x. x\<lparr>att_status := CA_ABORTED, att_finished_at := Some (db_now d)\<rparr>) t) = Some a' \<and> att_status a' = CA_ABORTED" for t
    using assms(2) by (induction t) (auto split: if_splits)
  with assms(1) show ?thesis by (simp add: get_attempt_def abort_unresolved_rows)
qed

lemma inv_attempt:
  assumes "commit_inv d" and "get_session d i = Some s" and "sess_commit_attempt_id s = Some aid"
  shows "\<exists>a. get_attempt d aid = Some a \<and> att_session_id a = sess_id s
    \<and> (att_status a = CA_COMMITTED \<longrightarrow> is_terminal (sess_state s))"
proof -
  have s: "s \<in> set (db_sessions d)" "sess_id s = i" using get_session_SomeD [OF assms(2)] by auto
  obtain a where a: "a \<in> set (db_attempts d)" "att_id a = aid" "att_session_id a = sess_id s"
    using commit_invD(5) [OF assms(1) s(1) assms(3)] by blast
  have "get_attempt d aid = Some a"
    using commit_invD(2) [OF assms(1)] a tbl_get_distinct [of att_id] unfolding get_attempt_def by blast
  moreover have "is_terminal (sess_state s)" if c: "att_status a = CA_COMMITTED"
  proof -
    obtain r where r: "r \<in> set (db_sessions d)" "sess_id r = att_session_id a"
      "sess_state r \<in> {SS_SUCCEEDED, SS_SUCCEEDED_PARTIAL}"
      using commit_invD(6) [OF assms(1) a(1) c] by blast
    have "r = s" using unique_session_eq [OF commit_invD(1) [OF assms(1)] assms(2) r(1)] r(2) a(3) s(2) by simp
    with r(3) show ?thesis by (auto simp: is_terminal_def)
  qed
  ultimately show ?thesis using a(3) by blast
qed

lemma reconcile_consistent:
  assumes "commit_inv d" and "reconcile_commit locks i d = Inr (rr, d')"
  shows "rr_outcome rr \<noteq> RO_records_inconsistent"
proof (cases "get_session d i")
  case None
  with assms(2) show ?thesis by (auto simp: reconcile_commit_def split: if_splits)
next
  case (Some s)
  from assms(2) Some show ?thesis
    by (cases rule: reconcileE) (use inv_attempt [OF assms(1) Some] in auto)
qed

subsection \<open>Properties\<close>

text \<open>
  C2.  In every history of the system, however its transactions interleave: a committed attempt's
  session ended \<open>succeeded\<close> or \<open>succeeded_partial\<close>; no two commits share a base revision or a
  session, and every base lies below the current knowledge revision (commits are serialised); and
  the reconciler never finds inconsistent records.
\<close>

theorem commit_history_is_consistent:
  assumes "fresh_db d0" and "commit_step\<^sup>*\<^sup>* d0 d"
  shows "(\<forall>a\<in>set (db_attempts d). att_status a = CA_COMMITTED \<longrightarrow>
        (\<exists>s\<in>set (db_sessions d). sess_id s = att_session_id a \<and> sess_state s \<in> {SS_SUCCEEDED, SS_SUCCEEDED_PARTIAL})
        \<and> (\<exists>k. knowledge d = Some k \<and> att_base_knowledge_revision a < k)
        \<and> (\<forall>b\<in>set (db_attempts d). att_status b = CA_COMMITTED \<and> b \<noteq> a \<longrightarrow>
             att_base_knowledge_revision b \<noteq> att_base_knowledge_revision a \<and> att_session_id b \<noteq> att_session_id a))
    \<and> (\<forall>locks i rr d'. reconcile_commit locks i d = Inr (rr, d') \<longrightarrow> rr_outcome rr \<noteq> RO_records_inconsistent)"
proof -
  have inv: "commit_inv d" by (rule commit_inv_run [OF assms(2) commit_inv_fresh [OF assms(1)]])
  show ?thesis
    using commit_invD(6-8) [OF inv] reconcile_consistent [OF inv] by blast
qed

theorem commit_history_is_consistent_witness:
  "fresh_db empty_db \<and> commit_step\<^sup>*\<^sup>* empty_db (empty_db\<lparr>db_sessions := [new_session 7 1 0]\<rparr>)
   \<and> (\<exists>rr d'. reconcile_commit (True, True) 7 (empty_db\<lparr>db_sessions := [new_session 7 1 0]\<rparr>) = Inr (rr, d')
        \<and> rr_outcome rr \<noteq> RO_records_inconsistent)"
proof -
  have f: "fresh_db empty_db" by (simp add: fresh_db_def empty_db_def inj_def)
  have "commit_step empty_db (empty_db\<lparr>db_sessions := db_sessions empty_db @ [new_session 7 1 0]\<rparr>)"
    by (rule commit_step.create) (simp_all add: empty_db_def new_session_def)
  then have s: "commit_step\<^sup>*\<^sup>* empty_db (empty_db\<lparr>db_sessions := [new_session 7 1 0]\<rparr>)"
    by (simp add: empty_db_def)
  have r: "\<exists>rr d'. reconcile_commit (True, True) 7 (empty_db\<lparr>db_sessions := [new_session 7 1 0]\<rparr>) = Inr (rr, d')"
    by (simp add: reconcile_commit_def get_session_def new_session_def is_terminal_def)
  from commit_history_is_consistent [OF f s] f s r show ?thesis by blast
qed

text \<open>
  C31.  The reconciler's abort is safe and final: when it aborts a session that has an attempt, no
  lease was live, the attempt was not committed and is aborted afterwards, the session is failed,
  and neither the knowledge revision nor any staging row changed; and after any decision other than
  a transient one a second reconciliation changes nothing.
\<close>

theorem reconciler_abort_is_safe_and_final:
  assumes "unique_sessions d" and "get_session d i = Some s" and "sess_commit_attempt_id s = Some aid"
    and "reconcile_commit locks i d = Inr (rr, d')" and "rr_outcome rr = RO_aborted"
  shows "lease_holder s (db_now d) = None
    \<and> (\<exists>a a'. get_attempt d aid = Some a \<and> att_status a \<noteq> CA_COMMITTED
         \<and> get_attempt d' aid = Some a' \<and> att_status a' = CA_ABORTED)
    \<and> (\<exists>s'. get_session d' i = Some s' \<and> sess_state s' = SS_FAILED \<and> sess_lease_owner s' = None)
    \<and> db_revisions d' = db_revisions d \<and> db_staging d' = db_staging d
    \<and> reconcile_commit (True, True) i d' =
        Inr (\<lparr>rr_outcome = RO_no_attempt, rr_detail = ''session already failed''\<rparr>, d')"
proof -
  have again: "reconcile_commit (True, True) i d' =
      Inr (\<lparr>rr_outcome = RO_no_attempt, rr_detail = ''session already failed''\<rparr>, d')"
    if "get_session d' i = Some s'" "sess_state s' = SS_FAILED" for s'
    using that by (simp add: reconcile_commit_def)
  from assms(4,2) show ?thesis
  proof (cases rule: reconcileE)
    case (settled aid' a)
    from marked_failed [OF assms(2,1), of i "''attempt already aborted''"] settled(1,7) obtain s' where
      "get_session d' i = Some s'" "sess_state s' = SS_FAILED" "sess_lease_owner s' = None" by auto
    moreover have "get_attempt d' aid' = Some a" using settled by (simp add: get_attempt_def mark_failed_rows)
    ultimately show ?thesis using settled assms(3) again by (auto simp: mark_failed_rows)
  next
    case (unresolved aid' a)
    let ?d1 = "abort_unresolved (\<lambda>x. att_id x = aid') d"
    have "get_session ?d1 i = Some s" "unique_sessions ?d1"
      using assms(1,2) by (simp_all add: get_session_def unique_sessions_def abort_unresolved_rows)
    from marked_failed [OF this, of i "''reconciled_abort''"] unresolved(1,7) obtain s' where
      "get_session d' i = Some s'" "sess_state s' = SS_FAILED" "sess_lease_owner s' = None" by auto
    moreover obtain a' where "get_attempt d' aid' = Some a'" "att_status a' = CA_ABORTED"
      using aborted_attempt [OF unresolved(4,5)] unresolved(7) by (auto simp: get_attempt_def mark_failed_rows)
    moreover have "att_status a \<noteq> CA_COMMITTED" using unresolved(5) by (auto simp: attempt_is_unresolved_def)
    ultimately show ?thesis
      using unresolved assms(3) again by (auto simp: mark_failed_rows abort_unresolved_rows)
  qed (use assms(3,5) in simp_all)
qed

theorem reconciler_abort_is_safe_and_final_witness:
  "\<exists>rr d'. reconcile_commit (True, True) 7 (boundary_db\<lparr>db_now := 200\<rparr>) = Inr (rr, d')
     \<and> rr_outcome rr = RO_aborted \<and> db_staging d' = db_staging boundary_db"
proof -
  let ?d = "boundary_db\<lparr>db_now := 200\<rparr>"
  have u: "unique_sessions ?d" by (simp add: unique_sessions_def boundary_defs)
  have g: "get_session ?d 7 = Some boundary_session" by (simp add: get_session_def boundary_defs)
  have c: "sess_commit_attempt_id boundary_session = Some 9" by (simp add: boundary_defs)
  have a: "get_attempt ?d 9 = Some boundary_attempt" by (simp add: get_attempt_def boundary_defs)
  have l: "\<not> is_terminal (sess_state boundary_session)" "sess_state boundary_session \<noteq> SS_FAILED"
    "\<not> (sess_lease_owner boundary_session \<noteq> None \<and> is_after (sess_lease_expires_at boundary_session) 200)"
    "att_status boundary_attempt = CA_PREPARED"
    by (simp_all add: boundary_defs is_terminal_def is_after_def)
  have "reconcile_commit (True, True) 7 ?d =
      Inr (\<lparr>rr_outcome = RO_aborted, rr_detail = ''unresolved attempt fenced -> aborted''\<rparr>,
        mark_failed 7 ''reconciled_abort'' (abort_unresolved (\<lambda>x. att_id x = 9) ?d))"
    using l by (simp add: reconcile_commit_def g c a)
  then obtain rr d' where r: "reconcile_commit (True, True) 7 ?d = Inr (rr, d')" "rr_outcome rr = RO_aborted"
    by simp
  have "db_staging d' = db_staging ?d"
    using reconciler_abort_is_safe_and_final [OF u g c r] by blast
  with r show ?thesis by auto
qed

lemma probe_once_ok:
  "probe_once No_fault i d = (case reconcile_commit (True, True) i d of
     Inl e \<Rightarrow> (\<lparr>rr_outcome = RO_finalizer_in_progress, rr_detail = ''row lock timeout''\<rparr>, d) | Inr r \<Rightarrow> r)"
  by (simp add: probe_once_def)

definition stuck :: "db \<Rightarrow> uuid \<Rightarrow> bool" where
  "stuck d i \<longleftrightarrow> (\<exists>s. get_session d i = Some s \<and> sess_state s \<in> {SS_COMMITTING, SS_RECONCILING_COMMIT}
     \<and> \<not> (sess_commit_attempt_id s \<noteq> None \<and> lease_holder s (db_now d) \<noteq> None))"

lemma reconcile_total: "\<exists>rr d'. reconcile_commit (True, True) i d = Inr (rr, d')"
  by (auto simp: reconcile_commit_def split: option.splits commit_attempt_status.splits)

lemma reconcile_unsticks:
  assumes inv: "commit_inv d" and r: "reconcile_commit locks i d = Inr (rr, d')"
  shows "commit_inv d' \<and> db_now d' = db_now d \<and> \<not> stuck d' i
    \<and> (\<forall>j. j \<noteq> i \<longrightarrow> get_session d' j = get_session d j)
    \<and> (transient (rr_outcome rr) \<longrightarrow> d' = d) \<and> rr_outcome rr \<noteq> RO_records_inconsistent"
proof (cases "get_session d i")
  case None
  with r have "d' = d" "\<not> transient (rr_outcome rr)" "rr_outcome rr = RO_no_attempt"
    by (auto simp: reconcile_commit_def transient_def split: if_splits)
  with inv None show ?thesis by (auto simp: stuck_def)
next
  case (Some s)
  note u = commit_invD(1) [OF inv]
  have other: "get_session (mark_failed i reason e) j = get_session e j" if "j \<noteq> i" for j e reason
  proof -
    have "tbl_get sess_id j (tbl_update (\<lambda>s. sess_id s = i \<and> \<not> is_terminal (sess_state s)) (fail_session_row reason t) rs)
        = tbl_get sess_id j rs" for t rs using that by (induction rs) auto
    then show ?thesis by (simp add: get_session_def mark_failed_rows)
  qed
  have ended: "\<not> stuck (mark_failed i reason e) i"
    if e: "get_session e i = Some s" "unique_sessions e" "\<not> is_terminal (sess_state s)" for e reason
    using marked_failed [OF e(1,2), of i reason] e(3) by (auto simp: stuck_def)
  have ab: "get_session (abort_unresolved p d) j = get_session d j" "unique_sessions (abort_unresolved p d)" for p j
    using u by (simp_all add: get_session_def unique_sessions_def abort_unresolved_rows)
  have inv': "commit_inv d'" by (rule commit_inv_reconcile [OF inv r])
  from r Some show ?thesis
  proof (cases rule: reconcileE)
    case accepted
    then show ?thesis using Some inv by (auto simp: stuck_def is_terminal_def transient_def)
  next
    case failed
    then show ?thesis using Some inv by (auto simp: stuck_def transient_def)
  next
    case early
    then show ?thesis using inv' ended [OF Some u] other by (auto simp: mark_failed_rows transient_def)
  next
    case live
    then show ?thesis using Some inv by (auto simp: stuck_def)
  next
    case settled
    then show ?thesis using inv' ended [OF Some u] other by (auto simp: mark_failed_rows transient_def)
  next
    case (unresolved aid a)
    then show ?thesis
      using inv' ended [of "abort_unresolved (\<lambda>x. att_id x = aid) d"] ab other Some
      by (auto simp: mark_failed_rows abort_unresolved_rows transient_def)
  qed (use inv_attempt [OF inv Some] in auto)
qed

lemma probe_loop_unsticks:
  assumes "commit_inv d" and "n > 0"
  shows "\<exists>res d'. probe_loop (\<lambda>_ e. e) (\<lambda>_. No_fault) i m n r0 d = (res, d') \<and> commit_inv d' \<and> db_now d' = db_now d
    \<and> \<not> stuck d' i \<and> (\<forall>j. j \<noteq> i \<longrightarrow> get_session d' j = get_session d j) \<and> rr_outcome res \<noteq> RO_records_inconsistent"
  using assms
proof (induction n arbitrary: m r0)
  case (Suc n)
  obtain rr d1 where r: "reconcile_commit (True, True) i d = Inr (rr, d1)" using reconcile_total by blast
  note ru = reconcile_unsticks [OF Suc.prems(1) r]
  show ?case
  proof (cases "transient (rr_outcome rr) \<and> n > 0")
    case True
    then have "d1 = d" using ru by blast
    with True Suc.IH [OF Suc.prems(1), of "Suc m" rr] r show ?thesis by (simp add: probe_once_ok)
  next
    case False
    then show ?thesis using ru r by (cases n) (auto simp: probe_once_ok)
  qed
qed simp

lemma tick_sessions_unsticks:
  assumes "commit_inv d" and "n > 0" and "tk_inconsistent t = []"
    and "tick_sessions (\<lambda>_ _ e. e) (\<lambda>_ _. No_fault) n sids t d = (t', d')"
  shows "tk_inconsistent t' = [] \<and> commit_inv d' \<and> db_now d' = db_now d
    \<and> (\<forall>i. stuck d' i \<longrightarrow> stuck d i \<and> i \<notin> set sids)"
  using assms
proof (induction sids arbitrary: t d)
  case (Cons i sids)
  let ?r0 = "\<lparr>rr_outcome = RO_finalizer_in_progress, rr_detail = ''no probe run''\<rparr>"
  obtain res d1 where p: "probe_loop (\<lambda>_ e. e) (\<lambda>_. No_fault) i 0 n ?r0 d = (res, d1)"
    and q: "commit_inv d1" "db_now d1 = db_now d" "\<not> stuck d1 i"
      "\<forall>j. j \<noteq> i \<longrightarrow> get_session d1 j = get_session d j" "rr_outcome res \<noteq> RO_records_inconsistent"
    using probe_loop_unsticks [OF Cons.prems(1,2)] by blast
  have s: "stuck d1 j \<Longrightarrow> stuck d j \<and> j \<noteq> i" for j using q by (cases "j = i") (auto simp: stuck_def)
  from Cons.prems(4) p q(5) obtain t1 where
    "tick_sessions (\<lambda>_ _ e. e) (\<lambda>_ _. No_fault) n sids t1 d1 = (t', d')" "tk_inconsistent t1 = []"
    using Cons.prems(3) by (auto simp: reconcile_with_retries_def Let_def split: if_splits)
  from Cons.IH [OF q(1) Cons.prems(2) this(2,1)] q s show ?case by auto
qed auto

text \<open>
  A tick resolves every stuck session whose lease is not live: on consistent records, without
  faults and with at least one probe per session, nothing is reported inconsistent, and afterwards
  every session still at the boundary has an attempt and a live lease.
\<close>

theorem tick_resolves_stuck_sessions:
  assumes "commit_inv d" and "max_probes > 0"
    and "reconcile_tick (\<lambda>_ _ e. e) (\<lambda>_ _. No_fault) max_probes d = (t, d')"
  shows "tk_inconsistent t = []
    \<and> (\<forall>s\<in>set (db_sessions d'). sess_state s \<in> {SS_COMMITTING, SS_RECONCILING_COMMIT} \<longrightarrow>
         sess_commit_attempt_id s \<noteq> None \<and> lease_holder s (db_now d') \<noteq> None)"
proof -
  have t: "tk_inconsistent t = [] \<and> commit_inv d' \<and> db_now d' = db_now d
      \<and> (\<forall>i. stuck d' i \<longrightarrow> stuck d i \<and> i \<notin> set (find_unresolved_sessions d))"
    using tick_sessions_unsticks [OF assms(1,2) _ assms(3) [unfolded reconcile_tick_def]] by simp
  have "stuck d i \<Longrightarrow> i \<in> set (find_unresolved_sessions d)" for i
    using get_session_SomeD by (fastforce simp: stuck_def find_unresolved_sessions_def)
  with t have ns: "\<not> stuck d' i" for i by blast
  have "get_session d' (sess_id s) = Some s" if "s \<in> set (db_sessions d')" for s
    using t commit_invD(1) that tbl_get_distinct [of sess_id] unfolding unique_sessions_def get_session_def by blast
  with t ns show ?thesis unfolding stuck_def by blast
qed

theorem tick_resolves_stuck_sessions_witness:
  "\<exists>t d'. reconcile_tick (\<lambda>_ _ e. e) (\<lambda>_ _. No_fault) 5 empty_db = (t, d') \<and> tk_inconsistent t = []"
proof -
  have i: "commit_inv empty_db" by (rule commit_inv_fresh) (simp add: fresh_db_def empty_db_def inj_def)
  obtain t d' where r: "reconcile_tick (\<lambda>_ _ e. e) (\<lambda>_ _. No_fault) 5 empty_db = (t, d')" by fastforce
  have "(5::nat) > 0" by simp
  from tick_resolves_stuck_sessions [OF i this r] r show ?thesis by blast
qed

text \<open>
  A session that has not written its attempt yet is aborted even under a live lease: the
  reconciler fails a session without an attempt before it looks at the lease, so a tick that falls
  between the two transactions of a live session (its arrival at \<open>committing\<close> and its \<open>prepare\<close>)
  fails it, and its later final transaction is refused.
\<close>

theorem reconciler_fails_live_session_before_prepare:
  assumes "unique_sessions d" and "get_session d i = Some s" and "sess_state s = SS_COMMITTING"
    and "sess_commit_attempt_id s = None"
  shows "\<exists>rr d' s'. reconcile_commit (True, True) i d = Inr (rr, d') \<and> rr_outcome rr = RO_aborted
    \<and> get_session d' i = Some s' \<and> sess_state s' = SS_FAILED
    \<and> (\<forall>h u m attempt d2 owner fa am u1 u2 res d3. prepare h u i m d' = Inr (attempt, d2)
         \<and> finalize h u1 u2 s' attempt owner fa am d2 = Inr (res, d3) \<longrightarrow> fr_outcome res = FO_fencing_conflict)"
proof -
  let ?d' = "mark_failed i ''no_prepared_attempt'' d"
  have r: "reconcile_commit (True, True) i d =
      Inr (\<lparr>rr_outcome = RO_aborted, rr_detail = ''no prepared attempt (pre-boundary failure)''\<rparr>, ?d')"
    using assms by (simp add: reconcile_commit_def is_terminal_def)
  obtain s' where s': "get_session ?d' i = Some s'" "sess_state s' = SS_FAILED" "sess_id s' = i"
    using marked_failed [OF assms(2,1), of i "''no_prepared_attempt''"] assms(3) get_session_SomeD [OF assms(2)]
    by (auto simp: is_terminal_def)
  have "fr_outcome res = FO_fencing_conflict"
    if p: "prepare h u i m ?d' = Inr (attempt, d2)" and f: "finalize h u1 u2 s' attempt owner fa am d2 = Inr (res, d3)"
    for h u m attempt d2 owner fa am u1 u2 res d3
  proof -
    let ?g = "\<lambda>s. s\<lparr>sess_commit_attempt_id := Some (att_id attempt), sess_commit_intent_at := Some u\<rparr>"
    have A: "db_attempts d2 = db_attempts ?d' @ [attempt]"
      and S: "db_sessions d2 = tbl_update (\<lambda>s. sess_id s = i) ?g (db_sessions ?d')"
      and R: "db_revisions d2 = db_revisions ?d'" "get_revision ?d' ''knowledge'' \<noteq> None"
      using p by (auto simp: prepare_def revision_of_def uuid4_def Let_def update_session_def split: sum.splits option.splits)
    have g: "get_session d2 i = Some (?g s')"
      using s'(1) S by (simp add: get_session_def tbl_get_update_id)
    obtain k where k: "get_revision d2 ''knowledge'' = Some k" using R by (auto simp: get_revision_def)
    obtain a where a: "get_attempt d2 (att_id attempt) = Some a"
      using A by (cases "get_attempt d2 (att_id attempt)") (auto simp: get_attempt_def tbl_get_None_iff)
    have "fence d2 s' attempt owner t = Some FO_fencing_conflict" for t
      using g k a s'(2,3) by (simp add: fence_def)
    moreover from this have "\<not> fence_holds d2 s' attempt owner"
      using fence_None_iff [of d2 s' attempt owner] by simp
    ultimately show ?thesis using f by (auto elim!: finalizeE simp: plain_result_def)
  qed
  then have later: "\<forall>h u m attempt d2 owner fa am u1 u2 res d3. prepare h u i m ?d' = Inr (attempt, d2)
      \<and> finalize h u1 u2 s' attempt owner fa am d2 = Inr (res, d3) \<longrightarrow> fr_outcome res = FO_fencing_conflict"
    by blast
  show ?thesis
    by (rule exI, rule exI [of _ ?d'], rule exI [of _ s'], intro conjI, rule r) (simp_all add: s' later)
qed

theorem reconciler_fails_live_session_before_prepare_witness:
  "\<exists>d rr d'. lease_holder (boundary_session\<lparr>sess_commit_attempt_id := None\<rparr>) (db_now d) = Some ''n''
     \<and> reconcile_commit (True, True) 7 d = Inr (rr, d') \<and> rr_outcome rr = RO_aborted"
proof -
  let ?s = "boundary_session\<lparr>sess_commit_attempt_id := None\<rparr>"
  let ?d = "boundary_db\<lparr>db_sessions := [?s]\<rparr>"
  have "unique_sessions ?d" "get_session ?d 7 = Some ?s" "sess_state ?s = SS_COMMITTING"
      "sess_commit_attempt_id ?s = None"
    by (simp_all add: unique_sessions_def get_session_def boundary_defs)
  from reconciler_fails_live_session_before_prepare [OF this] obtain rr d' where
    "reconcile_commit (True, True) 7 ?d = Inr (rr, d')" "rr_outcome rr = RO_aborted" by blast
  moreover have "lease_holder ?s (db_now ?d) = Some ''n''"
    by (simp add: lease_holder_def is_after_def boundary_defs)
  ultimately show ?thesis by blast
qed

text \<open>
  C32.  A refused commit can be reported as a success: when another writer raised the knowledge
  revision since the attempt was prepared and the session still holds its lease, the final
  transaction changes nothing, the reconciler answers that a finalizer is in progress (it is the
  session itself), and the run reports the terminal state it had planned while the session is
  still committing; the first reconciliation after the lease ended fails the session.
\<close>

theorem outdated_commit_is_reported_as_success:
  assumes "unique_sessions d" and "get_session d sid = Some s" and "sess_state s = SS_COMMITTING"
    and "sess_commit_attempt_id s = Some aid" and "get_attempt d aid = Some attempt" and "att_status attempt = CA_PREPARED"
    and "lease_holder s (db_now d) = Some owner" and "lease_holder s now2 = Some owner"
    and "get_revision d ''knowledge'' = Some k" and "rev_revision k \<noteq> att_base_knowledge_revision attempt"
    and "get_revision d ''dependency_graph'' \<noteq> None"
  shows "final_phase h u1 u2 now2 (True, True) sid aid owner fa am d = Inr (fa_terminal fa, d\<lparr>db_now := now2\<rparr>)
    \<and> (\<forall>t. lease_holder s t = None \<longrightarrow> (\<exists>rr d' s'. reconcile_commit (True, True) sid (d\<lparr>db_now := t\<rparr>) = Inr (rr, d')
         \<and> get_session d' sid = Some s' \<and> sess_state s' = SS_FAILED))"
proof -
  have ids: "sess_id s = sid" "att_id attempt = aid"
    using get_session_SomeD [OF assms(2)] tbl_get_SomeD [OF assms(5) [unfolded get_attempt_def]] by auto
  have f: "fence d s attempt owner b = Some FO_fencing_conflict" for b
    using assms by (simp add: fence_def ids lease_holder_def split: if_splits)
  have "validate_lock_order (commit_lock_plan b) = Inr ()" for b
    by (cases b) (simp_all add: validate_lock_order_def commit_lock_plan_def position_eq)
  then have "finalize h u1 u2 s attempt owner fa am d = Inr (plain_result FO_fencing_conflict aid, d)"
    using assms by (simp add: finalize_def Let_def f lock_commit_set_def ids)
  moreover have "reconcile_commit (True, True) sid (d\<lparr>db_now := now2\<rparr>) =
      Inr (\<lparr>rr_outcome = RO_finalizer_in_progress, rr_detail = ''live lease present''\<rparr>, d\<lparr>db_now := now2\<rparr>)"
    using assms by (simp add: reconcile_commit_def get_session_def is_terminal_def lease_holder_def split: if_splits)
  ultimately have "final_phase h u1 u2 now2 (True, True) sid aid owner fa am d = Inr (fa_terminal fa, d\<lparr>db_now := now2\<rparr>)"
    using assms(2,5) by (simp add: final_phase_def plain_result_def reported_state_def)
  moreover have "\<exists>rr d' s'. reconcile_commit (True, True) sid (d\<lparr>db_now := t\<rparr>) = Inr (rr, d')
      \<and> get_session d' sid = Some s' \<and> sess_state s' = SS_FAILED" if "lease_holder s t = None" for t
  proof -
    let ?d = "abort_unresolved (\<lambda>x. att_id x = aid) (d\<lparr>db_now := t\<rparr>)"
    have e: "get_session ?d sid = Some s" "unique_sessions ?d"
      using assms(1,2) by (simp_all add: get_session_def unique_sessions_def abort_unresolved_rows)
    have "reconcile_commit (True, True) sid (d\<lparr>db_now := t\<rparr>) =
        Inr (\<lparr>rr_outcome = RO_aborted, rr_detail = ''unresolved attempt fenced -> aborted''\<rparr>,
          mark_failed sid ''reconciled_abort'' ?d)"
      using assms that by (auto simp: reconcile_commit_def get_session_def get_attempt_def is_terminal_def lease_holder_def split: if_splits)
    with marked_failed [OF e, of sid] assms(3) show ?thesis by (auto simp: is_terminal_def)
  qed
  ultimately show ?thesis by blast
qed

theorem outdated_commit_is_reported_as_success_witness:
  "\<exists>d. final_phase plain_host 1 2 50 (True, True) 7 9 ''n'' boundary_args None d = Inr (SS_SUCCEEDED, d\<lparr>db_now := 50\<rparr>)
     \<and> get_session d 7 = Some boundary_session"
proof -
  let ?rs = "[\<lparr>rev_scope = ''knowledge'', rev_revision = 1, rev_updated_at = 0\<rparr>, \<lparr>rev_scope = ''dependency_graph'', rev_revision = 0, rev_updated_at = 0\<rparr>]"
  let ?d = "boundary_db\<lparr>db_revisions := ?rs\<rparr>"
  have g: "get_session ?d 7 = Some boundary_session" by (simp add: get_session_def boundary_defs)
  have "unique_sessions ?d" by (simp add: unique_sessions_def boundary_defs)
  note r = outdated_commit_is_reported_as_success [OF this g, of 9 boundary_attempt "''n''" 50 "hd ?rs" plain_host 1 2 boundary_args None]
  have "final_phase plain_host 1 2 50 (True, True) 7 9 ''n'' boundary_args None ?d =
      Inr (fa_terminal boundary_args, ?d\<lparr>db_now := 50\<rparr>)"
    by (rule conjunct1 [OF r])
      (simp_all add: boundary_defs get_attempt_def get_revision_def lease_holder_def is_after_def)
  with g show ?thesis by (intro exI [of _ ?d]) simp
qed

end
