(* ===== verification/Closure.thy ===== *)
theory Closure
  imports Prelude
begin

section \<open>The reverse closure of a claim\<close>

text \<open>
  \<open>compute_reverse_closure\<close> of \<open>packages/memory/cascade.py\<close>: from the evidential edges (dependent,
  dependency), the claims that depend on a root directly or through others, with their breadth-first
  depth, in the order of (depth, identifier).  The loop is modelled with its own state (the seen set,
  the depths, the frontier) and its termination is proved; the theorem relates it to the transitive
  dependents of the root.
\<close>

subsection \<open>The walk\<close>

record closure_result =
  cr_root :: uuid
  cr_graph_revision :: int
  cr_claim_ids :: "uuid list"
  cr_ranks :: "(string \<times> nat) list"

definition closure_count :: "closure_result \<Rightarrow> nat" where
  "closure_count c = length (cr_claim_ids c)"

text \<open>The slice \<open>claim_ids[offset : offset + size]\<close>.\<close>

definition closure_batch :: "closure_result \<Rightarrow> nat \<Rightarrow> nat \<Rightarrow> uuid list" where
  "closure_batch c offset sz = take sz (drop offset (cr_claim_ids c))"

type_synonym dependents = "(uuid \<times> uuid list) list"

definition reverse_edges :: "(uuid \<times> uuid) list \<Rightarrow> dependents" where
  "reverse_edges edges = bucket (\<lambda>(f, t). if f = t then None else Some t) fst edges"

definition dependents_of :: "dependents \<Rightarrow> uuid \<Rightarrow> uuid list" where
  "dependents_of reverse node = (case map_of reverse node of None \<Rightarrow> [] | Some fs \<Rightarrow> fs)"

record walk =
  wk_seen :: "uuid list"
  wk_depths :: "(uuid \<times> nat) list"
  wk_next :: "uuid list"

definition visit :: "nat \<Rightarrow> uuid \<Rightarrow> walk \<Rightarrow> walk" where
  "visit depth dep w =
     (if dep \<in> set (wk_seen w) then w
      else \<lparr>wk_seen = dep # wk_seen w, wk_depths = dict_set dep depth (wk_depths w),
            wk_next = wk_next w @ [dep]\<rparr>)"

definition visit_level :: "dependents \<Rightarrow> nat \<Rightarrow> uuid list \<Rightarrow> walk \<Rightarrow> walk" where
  "visit_level reverse depth frontier w =
     fold (\<lambda>node. fold (visit depth) (dependents_of reverse node)) frontier w"

definition level_targets :: "dependents \<Rightarrow> uuid list \<Rightarrow> uuid list" where
  "level_targets reverse frontier = concat (map (dependents_of reverse) frontier)"

lemma visit_level_fold: "visit_level reverse depth frontier w = fold (visit depth) (level_targets reverse frontier) w"
  by (induction frontier arbitrary: w) (simp_all add: visit_level_def level_targets_def)

lemma visit_fold_seen: "set (wk_seen (fold (visit depth) ds w)) = set ds \<union> set (wk_seen w)"
  by (induction ds arbitrary: w) (auto simp: visit_def)

lemma visit_fold_next:
  "set (wk_next (fold (visit depth) ds w)) = set (wk_next w) \<union> (set ds - set (wk_seen w))"
  by (induction ds arbitrary: w) (auto simp: visit_def)

lemma dependents_finite: "set (dependents_of reverse node) \<subseteq> set (concat (map snd reverse))"
  by (auto simp: dependents_of_def split: option.splits) (metis map_of_SomeD snd_conv)

text \<open>
  The \<open>while\<close> loop.  Each round with a non-empty next frontier marks a claim of the edge list as
  seen, and a round with an empty one is the last.
\<close>

function walk_levels :: "dependents \<Rightarrow> uuid list \<Rightarrow> (uuid \<times> nat) list \<Rightarrow> uuid list \<Rightarrow> nat \<Rightarrow> (uuid \<times> nat) list" where
  "walk_levels reverse seen depths frontier depth =
     (if frontier = [] then depths
      else let w = visit_level reverse (Suc depth) frontier \<lparr>wk_seen = seen, wk_depths = depths, wk_next = []\<rparr>
           in walk_levels reverse (wk_seen w) (wk_depths w) (wk_next w) (Suc depth))"
  by pat_completeness auto

termination
proof (relation "measures [\<lambda>(reverse, seen, depths, frontier, depth). card (set (concat (map snd reverse)) - set seen),
    \<lambda>(reverse, seen, depths, frontier, depth). length frontier]", simp)
  fix reverse :: dependents and seen depths frontier depth w
  assume ne: "frontier \<noteq> []"
    and w: "w = visit_level reverse (Suc depth) frontier \<lparr>wk_seen = seen, wk_depths = depths, wk_next = []\<rparr>"
  let ?all = "set (concat (map snd reverse))"
  let ?ds = "set (level_targets reverse frontier)"
  have all: "?ds \<subseteq> ?all" using dependents_finite [of reverse] by (fastforce simp: level_targets_def)
  have seen: "set (wk_seen w) = ?ds \<union> set seen" and nxt: "set (wk_next w) = ?ds - set seen"
    by (simp_all add: w visit_level_fold visit_fold_seen visit_fold_next)
  show "((reverse, wk_seen w, wk_depths w, wk_next w, Suc depth), reverse, seen, depths, frontier, depth)
      \<in> measures [\<lambda>(reverse, seen, depths, frontier, depth). card (set (concat (map snd reverse)) - set seen),
          \<lambda>(reverse, seen, depths, frontier, depth). length frontier]"
  proof (cases "wk_next w = []")
    case True
    then have "?all - set (wk_seen w) = ?all - set seen" using nxt seen by auto
    with True ne show ?thesis by simp
  next
    case False
    then obtain x where "x \<in> set (wk_next w)" by (cases "wk_next w") auto
    then have "x \<in> ?all - set seen" "x \<notin> ?all - set (wk_seen w)" using nxt seen all by blast+
    moreover have "?all - set (wk_seen w) \<subseteq> ?all - set seen" using seen by blast
    ultimately have "?all - set (wk_seen w) \<subset> ?all - set seen" by blast
    then have "card (?all - set (wk_seen w)) < card (?all - set seen)" by (intro psubset_card_mono) auto
    then show ?thesis by simp
  qed
qed

declare walk_levels.simps [simp del]

definition compute_reverse_closure :: "(uuid \<times> uuid) list \<Rightarrow> uuid \<Rightarrow> int \<Rightarrow> closure_result" where
  "compute_reverse_closure edges root' graph_revision =
     (let depths = walk_levels (reverse_edges edges) [root'] [] [root'] 0;
          depth_of = (\<lambda>c. the (map_of depths c));
          ordered = sort_key (\<lambda>c. (depth_of c, c)) (map fst depths)
      in \<lparr>cr_root = root', cr_graph_revision = graph_revision, cr_claim_ids = ordered,
          cr_ranks = map (\<lambda>c. (uuid_str c, depth_of c)) ordered\<rparr>)"

subsection \<open>Distance in the dependency graph\<close>

text \<open>
  The specification: how many edges a shortest chain of dependencies from a claim to the root has.
\<close>

definition depends_in :: "(uuid \<times> uuid) list \<Rightarrow> nat \<Rightarrow> uuid \<Rightarrow> uuid \<Rightarrow> bool" where
  "depends_in edges n c r \<longleftrightarrow> (c, r) \<in> set edges ^^ n \<and> (\<forall>m<n. (c, r) \<notin> set edges ^^ m)"

lemma depends_in_unique: "depends_in edges n c r \<Longrightarrow> depends_in edges m c r \<Longrightarrow> m = n"
  by (metis depends_in_def nat_neq_iff)

lemma depends_in_0 [simp]: "depends_in edges 0 c r \<longleftrightarrow> c = r"
  by (auto simp: depends_in_def)

lemma depends_in_exists:
  assumes "(c, r) \<in> set edges ^^ n"
  shows "\<exists>m\<le>n. depends_in edges m c r"
proof (intro exI conjI)
  let ?P = "\<lambda>m. (c, r) \<in> set edges ^^ m"
  show "(LEAST m. ?P m) \<le> n" using assms by (rule Least_le)
  show "depends_in edges (LEAST m. ?P m) c r"
    unfolding depends_in_def using LeastI [of ?P, OF assms] not_less_Least [of _ ?P] by blast
qed

lemma depends_in_Suc:
  "depends_in edges (Suc n) c r \<longleftrightarrow>
     (\<exists>y. (c, y) \<in> set edges \<and> depends_in edges n y r) \<and> (\<forall>m\<le>n. \<not> depends_in edges m c r)"
proof
  assume d: "depends_in edges (Suc n) c r"
  then obtain y where y: "(c, y) \<in> set edges" "(y, r) \<in> set edges ^^ n"
    unfolding depends_in_def by (meson relpow_Suc_E2)
  have "(y, r) \<notin> set edges ^^ m" if "m < n" for m
    using d y(1) that relpow_Suc_I2 [of c y "set edges" r m] by (auto simp: depends_in_def)
  then have "depends_in edges n y r" using y(2) by (simp add: depends_in_def)
  moreover have "\<not> depends_in edges m c r" if "m \<le> n" for m
    using depends_in_unique [OF d, of m] that by auto
  ultimately show "(\<exists>y. (c, y) \<in> set edges \<and> depends_in edges n y r) \<and> (\<forall>m\<le>n. \<not> depends_in edges m c r)"
    using y(1) by blast
next
  assume a: "(\<exists>y. (c, y) \<in> set edges \<and> depends_in edges n y r) \<and> (\<forall>m\<le>n. \<not> depends_in edges m c r)"
  then obtain y where "(c, y) \<in> set edges" "(y, r) \<in> set edges ^^ n" by (auto simp: depends_in_def)
  then have "(c, r) \<in> set edges ^^ Suc n" by (rule relpow_Suc_I2)
  moreover have "(c, r) \<notin> set edges ^^ m" if "m < Suc n" for m
    using a depends_in_exists that by (metis le_trans less_Suc_eq_le)
  ultimately show "depends_in edges (Suc n) c r" by (simp add: depends_in_def)
qed

lemma depends_in_below: "depends_in edges n c r \<Longrightarrow> m \<le> n \<Longrightarrow> \<exists>x. depends_in edges m x r"
proof (induction n arbitrary: c)
  case (Suc n)
  then show ?case by (metis depends_in_Suc le_SucE)
qed auto

subsection \<open>The walk computes the distance\<close>

definition level_inv :: "(uuid \<times> uuid) list \<Rightarrow> uuid \<Rightarrow> uuid list \<Rightarrow> (uuid \<times> nat) list \<Rightarrow> uuid list \<Rightarrow> nat \<Rightarrow> bool" where
  "level_inv edges r seen depths frontier depth \<longleftrightarrow>
     set seen = {c. \<exists>n\<le>depth. depends_in edges n c r}
     \<and> set frontier = {c. depends_in edges depth c r}
     \<and> (\<forall>c n. map_of depths c = Some n \<longleftrightarrow> 0 < n \<and> n \<le> depth \<and> depends_in edges n c r)
     \<and> distinct (map fst depths)"

lemma set_dependents_of: "set (dependents_of (reverse_edges edges) y) = {c. (c, y) \<in> set edges \<and> c \<noteq> y}"
proof -
  have "set (dependents_of (reverse_edges edges) y) =
      fst ` {x \<in> set edges. (case x of (f, t) \<Rightarrow> if f = t then None else Some t) = Some y}"
    unfolding dependents_of_def reverse_edges_def bucket_lookup by (simp add: Let_def filter_empty_conv)
  then show ?thesis by (force split: if_splits)
qed

lemma visit_fold_depths:
  assumes "distinct (map fst (wk_depths w))" and "\<forall>c. c \<notin> set (wk_seen w) \<longrightarrow> map_of (wk_depths w) c = None"
  shows "distinct (map fst (wk_depths (fold (visit depth) ds w)))
    \<and> map_of (wk_depths (fold (visit depth) ds w)) =
        (\<lambda>c. if c \<in> set ds \<and> c \<notin> set (wk_seen w) then Some depth else map_of (wk_depths w) c)"
  using assms
proof (induction ds arbitrary: w)
  case (Cons d ds)
  have "distinct (map fst (wk_depths (visit depth d w)))"
    "\<forall>c. c \<notin> set (wk_seen (visit depth d w)) \<longrightarrow> map_of (wk_depths (visit depth d w)) c = None"
    using Cons.prems by (auto simp: visit_def distinct_dict_set)
  from Cons.IH [OF this] show ?case using Cons.prems by (auto simp: visit_def fun_eq_iff)
qed auto

lemma level_inv_step:
  assumes inv: "level_inv edges r seen depths frontier depth"
    and w: "w = visit_level (reverse_edges edges) (Suc depth) frontier \<lparr>wk_seen = seen, wk_depths = depths, wk_next = []\<rparr>"
  shows "level_inv edges r (wk_seen w) (wk_depths w) (wk_next w) (Suc depth)"
proof -
  let ?ds = "level_targets (reverse_edges edges) frontier"
  have seen: "set seen = {c. \<exists>n\<le>depth. depends_in edges n c r}"
    and fr: "set frontier = {c. depends_in edges depth c r}"
    and dep: "\<And>c n. map_of depths c = Some n \<longleftrightarrow> 0 < n \<and> n \<le> depth \<and> depends_in edges n c r"
    and dis: "distinct (map fst depths)" using inv by (auto simp: level_inv_def)
  have new: "set ?ds - set seen = {c. depends_in edges (Suc depth) c r}"
    unfolding depends_in_Suc by (auto simp: level_targets_def set_dependents_of fr seen)
  have none: "\<forall>c. c \<notin> set seen \<longrightarrow> map_of depths c = None"
    using dep seen by (metis (mono_tags, lifting) mem_Collect_eq not_None_eq)
  have ws: "set (wk_seen w) = {c. \<exists>n\<le>Suc depth. depends_in edges n c r}"
  proof -
    have "c \<in> set (wk_seen w) \<longleftrightarrow> c \<in> set seen \<or> c \<in> set ?ds - set seen" for c
      by (auto simp: w visit_level_fold visit_fold_seen)
    then have "c \<in> set (wk_seen w) \<longleftrightarrow> (\<exists>n\<le>depth. depends_in edges n c r) \<or> depends_in edges (Suc depth) c r" for c
      unfolding new unfolding seen by simp
    then show ?thesis by (auto simp: le_Suc_eq)
  qed
  have wn: "set (wk_next w) = {c. depends_in edges (Suc depth) c r}"
    using new by (simp add: w visit_level_fold visit_fold_next)
  have wd: "distinct (map fst (wk_depths w))"
    and wm: "map_of (wk_depths w) = (\<lambda>c. if c \<in> set ?ds \<and> c \<notin> set seen then Some (Suc depth) else map_of depths c)"
    using visit_fold_depths [of "\<lparr>wk_seen = seen, wk_depths = depths, wk_next = []\<rparr>" "Suc depth" ?ds] none dis
    by (simp_all add: w visit_level_fold fun_eq_iff)
  have "map_of (wk_depths w) c = Some n \<longleftrightarrow> 0 < n \<and> n \<le> Suc depth \<and> depends_in edges n c r" for c n
  proof (cases "depends_in edges (Suc depth) c r")
    case True
    then have "c \<in> set ?ds - set seen" using new by blast
    then show ?thesis using True depends_in_unique by (auto simp: wm)
  next
    case False
    then have "\<not> (c \<in> set ?ds \<and> c \<notin> set seen)" using new by blast
    then show ?thesis using False dep by (auto simp: wm le_Suc_eq)
  qed
  with ws wn wd show ?thesis by (simp add: level_inv_def)
qed

lemma walk_levels_depths:
  assumes "level_inv edges r seen depths frontier depth"
  shows "distinct (map fst (walk_levels (reverse_edges edges) seen depths frontier depth))
    \<and> (\<forall>c n. map_of (walk_levels (reverse_edges edges) seen depths frontier depth) c = Some n
          \<longleftrightarrow> 0 < n \<and> depends_in edges n c r)"
  using assms
proof (induction "reverse_edges edges" seen depths frontier depth rule: walk_levels.induct)
  case (1 seen depths frontier depth)
  show ?case
  proof (cases "frontier = []")
    case True
    then have "\<not> depends_in edges depth x r" for x using 1(2) by (auto simp: level_inv_def)
    then have "\<not> depends_in edges n c r" if "depth \<le> n" for n c
      using depends_in_below [OF _ that] by blast
    then have "n \<le> depth" if "depends_in edges n c r" for n c using that by (meson linorder_le_cases)
    with 1(2) True show ?thesis by (subst (1 2) walk_levels.simps) (auto simp: level_inv_def)
  next
    case False
    from 1(1) [OF False refl level_inv_step [OF 1(2) refl]] False show ?thesis
      by (subst (1 2) walk_levels.simps) (simp add: Let_def)
  qed
qed

lemma level_inv_start: "level_inv edges r [r] [] [r] 0"
  by (auto simp: level_inv_def)

lemma closure_depths:
  assumes "depths = walk_levels (reverse_edges edges) [r] [] [r] 0"
  shows "distinct (map fst depths)" and "map_of depths c = Some n \<longleftrightarrow> c \<noteq> r \<and> depends_in edges n c r"
proof -
  note d = walk_levels_depths [OF level_inv_start, of edges r, folded assms]
  show "distinct (map fst depths)" using d by blast
  have "0 < n \<longleftrightarrow> c \<noteq> r" if "depends_in edges n c r"
    using that depends_in_unique [OF that, of 0] by (cases n) auto
  then show "map_of depths c = Some n \<longleftrightarrow> c \<noteq> r \<and> depends_in edges n c r" using d by blast
qed

lemma closure_members:
  "set (cr_claim_ids (compute_reverse_closure edges r g)) = {c. c \<noteq> r \<and> (c, r) \<in> (set edges)\<^sup>+}"
proof -
  let ?depths = "walk_levels (reverse_edges edges) [r] [] [r] 0"
  have "set (cr_claim_ids (compute_reverse_closure edges r g)) = dom (map_of ?depths)"
    by (simp add: compute_reverse_closure_def Let_def dom_map_of_conv_image_fst)
  also have "\<dots> = {c. c \<noteq> r \<and> (\<exists>n. depends_in edges n c r)}" by (auto simp: closure_depths(2) [OF refl])
  also have "\<dots> = {c. c \<noteq> r \<and> (\<exists>n. (c, r) \<in> set edges ^^ n)}"
    by (metis depends_in_def depends_in_exists)
  also have "\<dots> = {c. c \<noteq> r \<and> (c, r) \<in> (set edges)\<^sup>+}"
    by (auto simp: rtrancl_power [symmetric] rtrancl_eq_or_trancl)
  finally show ?thesis .
qed

lemma distinct_closure: "distinct (cr_claim_ids (compute_reverse_closure edges r g))"
  by (simp add: compute_reverse_closure_def Let_def closure_depths(1) [OF refl] distinct_sort)

text \<open>
  C6.  \<open>compute_reverse_closure\<close> returns exactly the claims that depend on the root through some chain
  of edges, the root excluded, each once; the rank of a member is the length of a shortest such
  chain, and the members are in strictly increasing order of (rank, identifier).
\<close>

theorem closure_is_the_transitive_dependents:
  "set (cr_claim_ids (compute_reverse_closure edges r g)) = {c. c \<noteq> r \<and> (c, r) \<in> (set edges)\<^sup>+}
   \<and> cr_ranks (compute_reverse_closure edges r g) =
       map (\<lambda>c. (uuid_str c, LEAST n. (c, r) \<in> set edges ^^ n)) (cr_claim_ids (compute_reverse_closure edges r g))
   \<and> sorted_wrt (\<lambda>a b. (LEAST n. (a, r) \<in> set edges ^^ n, a) < (LEAST n. (b, r) \<in> set edges ^^ n, b))
       (cr_claim_ids (compute_reverse_closure edges r g))"
proof -
  let ?depths = "walk_levels (reverse_edges edges) [r] [] [r] 0"
  let ?ids = "cr_claim_ids (compute_reverse_closure edges r g)"
  let ?rank = "\<lambda>c. LEAST n. (c, r) \<in> set edges ^^ n"
  have rank: "the (map_of ?depths c) = ?rank c" if "c \<in> set ?ids" for c
  proof -
    from that obtain n where n: "map_of ?depths c = Some n"
      by (auto simp: compute_reverse_closure_def Let_def) (metis map_of_eq_None_iff not_None_eq fst_conv image_eqI)
    then have d: "depends_in edges n c r" by (simp add: closure_depths(2) [OF refl])
    have "?rank c = n" using d unfolding depends_in_def by (metis (mono_tags, lifting) Least_equality not_less)
    with n show ?thesis by simp
  qed
  have ids: "?ids = sort_key (\<lambda>c. (the (map_of ?depths c), c)) (map fst ?depths)"
    by (simp add: compute_reverse_closure_def Let_def)
  have "cr_ranks (compute_reverse_closure edges r g) = map (\<lambda>c. (uuid_str c, the (map_of ?depths c))) ?ids"
    by (simp add: compute_reverse_closure_def Let_def)
  also have "\<dots> = map (\<lambda>c. (uuid_str c, ?rank c)) ?ids" by (rule map_cong [OF refl]) (simp only: rank)
  finally have ranks: "cr_ranks (compute_reverse_closure edges r g) = map (\<lambda>c. (uuid_str c, ?rank c)) ?ids" .
  have "sorted (map (\<lambda>c. (the (map_of ?depths c), c)) ?ids)" unfolding ids by (rule sorted_sort_key)
  also have "map (\<lambda>c. (the (map_of ?depths c), c)) ?ids = map (\<lambda>c. (?rank c, c)) ?ids"
    by (rule map_cong [OF refl]) (simp only: rank)
  finally have "sorted (map (\<lambda>c. (?rank c, c)) ?ids)" .
  moreover have "distinct (map (\<lambda>c. (?rank c, c)) ?ids)"
    by (simp add: distinct_map distinct_closure inj_on_def)
  ultimately have "sorted_wrt (<) (map (\<lambda>c. (?rank c, c)) ?ids)" by (simp add: strict_sorted_iff)
  then have "sorted_wrt (\<lambda>a b. (?rank a, a) < (?rank b, b)) ?ids" by (simp add: sorted_wrt_map)
  with closure_members ranks show ?thesis by blast
qed

text \<open>
  The rank is a distance and not a topological rank: here claim 2 depends on 4, and comes before it.
\<close>

lemma closure_order_is_not_topological:
  "cr_claim_ids (compute_reverse_closure [(2, 1), (2, 4), (4, 3), (3, 1)] 1 0) = [2, 3, 4]
   \<and> (2, 4) \<in> set [(2, 1), (2, 4), (4, 3), (3 :: nat, 1 :: nat)]"
  by (simp add: compute_reverse_closure_def reverse_edges_def bucket_def dict_append_def
      visit_level_def dependents_of_def visit_def walk_levels.simps)

end
