(* ===== verification/UuidText.thy ===== *)
theory UuidText
  imports PyData
begin

section \<open>Identifiers as text\<close>

text \<open>
  The services write identifiers into JSON columns as \<open>str(uuid)\<close> and read them back with
  \<open>uuid.UUID(text)\<close>.  Reading returns the identifier that was written, and two identifiers never have
  the same text.
\<close>

definition hex_alphabet :: "char set" where
  "hex_alphabet = set ''0123456789abcdef''"

lemma digit_char_hex: "digit_char n \<in> hex_alphabet"
  unfolding digit_char_def hex_alphabet_def by (rule nth_mem) simp

lemma hex_alphabetD:
  assumes "c \<in> hex_alphabet"
  shows "\<not> py_space c" "hex_value c \<noteq> None"
    "c \<notin> {CHR ''-'', CHR ''+'', CHR ''_'', CHR ''x'', CHR ''X'', CHR ''u'', CHR ''{'', CHR ''}''}"
  using assms by (auto simp: hex_alphabet_def py_space_def)

lemma set_digits_width: "set (digits_width w n) \<subseteq> hex_alphabet"
proof (induction w n rule: digits_width.induct)
  case (2 w n)
  then show ?case using digit_char_hex [of n] by auto
qed simp

lemma length_digits_width [simp]: "length (digits_width w n) = w"
  by (induction w n rule: digits_width.induct) auto

lemma hex_value_digit: "hex_value (digit_char n) = Some (int (n mod 16))"
proof -
  have "n mod 16 \<in> {0, 1, 2, 3, 4, 5, 6, 7, 8, 9, 10, 11, 12, 13, 14, 15}" by (simp, presburger)
  then show ?thesis by (auto simp: digit_char_def)
qed

lemma hex_digits_snoc:
  "(\<forall>c\<in>set xs. hex_value c \<noteq> None) \<Longrightarrow>
   hex_digits acc (xs @ [digit_char n]) = map_option (\<lambda>a. 16 * a + int (n mod 16)) (hex_digits acc xs)"
proof (induction acc xs rule: hex_digits.induct)
  case (2 acc c cs)
  then obtain v where "hex_value c = Some v" by auto
  with 2 show ?case by (simp del: hex_value.simps)
qed (simp add: hex_value_digit del: hex_value.simps)

lemma hex_digits_width: "hex_digits 0 (digits_width w n) = Some (int (n mod 16 ^ w))"
proof (induction w arbitrary: n)
  case (Suc w)
  have v: "\<forall>c\<in>set (digits_width w (n div 16)). hex_value c \<noteq> None"
    using set_digits_width hex_alphabetD(2) by blast
  have "16 * int ((n div 16) mod 16 ^ w) + int (n mod 16) = int (n mod 16 ^ Suc w)"
    using mod_mult2_eq [of n 16 "16 ^ w"] by (simp add: mult.commute)
  with hex_digits_snoc [OF v, of 0 n] Suc.IH show ?case by simp
qed simp

lemma remove_all_id: "p \<noteq> [] \<Longrightarrow> hd p \<notin> set s \<Longrightarrow> remove_all p s 0 = s"
  by (induction s) (auto simp: prefix_Cons neq_Nil_conv)

lemma int_of_hex_digits:
  assumes "h = digits_width 32 u"
  shows "int_of_hex h = Some (int (u mod 16 ^ 32))"
proof -
  have set_h: "set h \<subseteq> hex_alphabet" using assms set_digits_width by simp
  have "length h = 32" using assms by simp
  then obtain a b rest where h: "h = a # b # rest"
    by (cases h; cases "tl h") auto
  have ab: "a \<in> hex_alphabet" "b \<in> hex_alphabet" "last h \<in> hex_alphabet"
    using set_h h last_in_set [of h] by auto
  then have strip: "py_strip h = h" using h by (intro py_strip_id) (simp add: hex_alphabetD(1))
  have "hex_digits 0 h = Some (int (u mod 16 ^ 32))" using assms hex_digits_width by simp
  then show ?thesis using h strip hex_alphabetD(3) [OF ab(1)] hex_alphabetD(3) [OF ab(2)]
    by (auto simp: int_of_hex_def)
qed

lemma uuid_str_digits: "filter (\<lambda>c. c \<noteq> CHR ''-'') (uuid_str u) = digits_width 32 u"
proof -
  let ?h = "digits_width 32 u"
  have "CHR ''-'' \<notin> set ?h" using set_digits_width [of 32 u] hex_alphabetD(3) by blast
  then have *: "filter (\<lambda>c. c \<noteq> CHR ''-'') (take n (drop m ?h)) = take n (drop m ?h)" for n m
    by (intro filter_True) (auto dest!: in_set_takeD in_set_dropD)
  have split: "take n (drop m ?h) @ drop (n + m) ?h = drop m ?h" for n m
    by (metis append_take_drop_id drop_drop)
  have "take 8 ?h @ take 4 (drop 8 ?h) @ take 4 (drop 12 ?h) @ take 4 (drop 16 ?h) @ drop 20 ?h = ?h"
    using split [of 8 0] split [of 4 8] split [of 4 12] split [of 4 16] by simp
  then show ?thesis
    using * [of 8 0] * [of 4 8] * [of 4 12] * [of 4 16] * [of 12 20] by (simp add: uuid_str_def Let_def)
qed

lemma uuid_parse_str:
  assumes "u < 2 ^ 128"
  shows "uuid_parse (uuid_str u) = Inr u"
proof -
  have "set (uuid_str u) \<subseteq> insert (CHR ''-'') hex_alphabet"
    using set_digits_width [of 32 u] by (auto simp: uuid_str_def Let_def dest!: in_set_takeD in_set_dropD)
  then have no: "CHR ''u'' \<notin> set (uuid_str u)" "CHR ''{'' \<notin> set (uuid_str u)" "CHR ''}'' \<notin> set (uuid_str u)"
    using hex_alphabetD(3) by blast+
  have keep: "dropWhile (\<lambda>c. c = CHR ''{'' \<or> c = CHR ''}'') xs = xs" if "set xs \<subseteq> set (uuid_str u)" for xs
    using that no by (cases xs) auto
  have "u mod 16 ^ 32 = u" using assms by simp
  then show ?thesis
    using no keep [of "uuid_str u"] keep [of "rev (uuid_str u)"] int_of_hex_digits [OF refl, of u] uuid_str_digits [of u]
    by (simp add: uuid_parse_def remove_all_id)
qed

lemma uuid_str_inj: "a < 2 ^ 128 \<Longrightarrow> b < 2 ^ 128 \<Longrightarrow> uuid_str a = uuid_str b \<longleftrightarrow> a = b"
  by (metis sum.inject(2) uuid_parse_str)

end
