(* ===== verification/Cascade.thy ===== *)
theory Cascade
  imports Closure UuidText Commit
begin

section \<open>Cascade invalidation\<close>

text \<open>
  \<open>packages/memory/cascade.py\<close>: when a claim is invalidated, the claims that depend on it lose their
  current assessment.  \<open>start_cascade\<close> invalidates the root and, when the closure is small, all of it;
  for a larger one it writes a durable barrier whose batches \<open>process_barrier\<close> applies.  Both run in
  one transaction (an error value is a rollback) under the knowledge writer gate; whether the advisory
  lock was free is the argument \<open>got\<close>.  \<open>start_cascade\<close> reads the closure before that transaction, so
  its model takes the two databases.

  \<open>uuid5\<close> and the Cyrillic prefix of the question's text are parameters (\<open>cv_uuid5\<close>, \<open>cv_reask\<close>); readings of
  \<open>clock_timestamp()\<close> are the argument \<open>clk\<close>, one for each claim whose head is written.  The CHECK and UNIQUE
  constraints of the barrier table are modelled where a row is written, because the code runs into them.
\<close>

subsection \<open>Parameters and constants\<close>

record cascade_env =
  cv_host :: host
  cv_uuid5 :: "uuid \<Rightarrow> string \<Rightarrow> uuid"
  cv_reask :: string

definition INLINE_CLOSURE_LIMIT :: nat where
  "INLINE_CLOSURE_LIMIT = 32"

definition BATCH_SIZE :: nat where
  "BATCH_SIZE = 32"

definition QUESTION_UUID5_NAMESPACE :: uuid where
  "QUESTION_UUID5_NAMESPACE = 0xc0e3d3b6dd7b557da4d86e41049f8468"

definition CLOSURE_MANIFEST_UUID5_NAMESPACE :: uuid where
  "CLOSURE_MANIFEST_UUID5_NAMESPACE = 0xb3f2a9d17c4e5a8f9e2d1c6b8a4f3e70"

definition writer_gate :: "bool \<Rightarrow> exn + 'a \<Rightarrow> exn + 'a" where
  "writer_gate got body =
     (if got then body else Inl (CascadeError ''could not acquire the knowledge writer gate''))"

subsection \<open>The closure and its manifest\<close>

definition evidential_edges :: "db \<Rightarrow> (uuid \<times> uuid) list" where
  "evidential_edges d =
     map (\<lambda>r. (dep_from_claim_id r, dep_to_claim_id r)) (filter (\<lambda>r. dep_kind r = DEP_EVIDENTIAL) (db_dependencies d))"

definition load_closure :: "db \<Rightarrow> uuid \<Rightarrow> exn + closure_result" where
  "load_closure d r =
     (case revision_of d ''dependency_graph'' of Inl e \<Rightarrow> Inl e
      | Inr revision \<Rightarrow> Inr (compute_reverse_closure (evidential_edges d) r revision))"

definition as_uuid :: "host \<Rightarrow> json \<Rightarrow> exn + uuid" where
  "as_uuid h v = uuid_parse (py_str (host_frepr h) v)"

definition manifest_body :: "uuid \<Rightarrow> int \<Rightarrow> json list \<Rightarrow> json_dict \<Rightarrow> int \<Rightarrow> json" where
  "manifest_body r revision ids ranks cnt =
     JObj [(''root'', JStr (uuid_str r)), (''graph_revision'', JInt revision),
       (''claim_ids'', JArr ids), (''ranks'', JObj ranks), (''count'', JInt cnt)]"

definition manifest_for :: "cascade_env \<Rightarrow> instant \<Rightarrow> closure_result \<Rightarrow> manifest_row" where
  "manifest_for env now c =
     (let ids = map (JStr \<circ> uuid_str) (cr_claim_ids c);
          ranks = map (\<lambda>(k, n). (k, JInt (int n))) (cr_ranks c);
          cnt = int (closure_count c);
          sha = host_canonical_sha256 (cv_host env) (manifest_body (cr_root c) (cr_graph_revision c) ids ranks cnt)
      in \<lparr>cm_id = cv_uuid5 env CLOSURE_MANIFEST_UUID5_NAMESPACE sha, cm_root_claim_id = cr_root c,
          cm_graph_revision = cr_graph_revision c, cm_claim_ids = ids, cm_ranks = ranks, cm_count = cnt,
          cm_sha256 = sha, cm_created_at = now\<rparr>)"

text \<open>The row of the closure's content and its hash; the column \<open>sha256\<close> is UNIQUE.\<close>

definition get_or_create_manifest ::
  "cascade_env \<Rightarrow> closure_result \<Rightarrow> db \<Rightarrow> exn + (manifest_row \<times> string \<times> db)" where
  "get_or_create_manifest env c d =
     (let row = manifest_for env (db_now d) c in
      case tbl_get cm_id (cm_id row) (db_manifests d) of
        Some m \<Rightarrow> Inr (m, cm_sha256 row, d)
      | None \<Rightarrow>
          if list_ex (\<lambda>m. cm_sha256 m = cm_sha256 row) (db_manifests d)
          then Inl (IntegrityError ''closure_manifests_sha256_key'')
          else Inr (row, cm_sha256 row, d\<lparr>db_manifests := db_manifests d @ [row]\<rparr>))"

definition verify_manifest :: "host \<Rightarrow> manifest_row \<Rightarrow> string option" where
  "verify_manifest h m =
     (if host_canonical_sha256 h (manifest_body (cm_root_claim_id m) (cm_graph_revision m) (cm_claim_ids m)
            (cm_ranks m) (cm_count m)) = cm_sha256 m
      then None else Some ''manifest_hash_mismatch'')"

definition effective_snapshot_id :: "db \<Rightarrow> exn + uuid" where
  "effective_snapshot_id d =
     (case tbl_get rch_scope ''global'' (db_config_heads d) of
        None \<Rightarrow> Inl (NoResultFound ''No row was found when one was required'')
      | Some r \<Rightarrow> Inr (rch_active_config_snapshot_id r))"

subsection \<open>One batch\<close>

definition is_current_head :: "uuid \<Rightarrow> uuid \<Rightarrow> head_row \<Rightarrow> bool" where
  "is_current_head snap c r \<longleftrightarrow>
     hd_claim_id r = c \<and> hd_config_snapshot_id r = snap \<and> hd_assessment_state r = AS_CURRENT"

definition invalidate_head :: "uuid \<Rightarrow> string \<Rightarrow> (uuid \<Rightarrow> instant) \<Rightarrow> uuid \<Rightarrow> db \<Rightarrow> string \<times> db" where
  "invalidate_head snap prepared_by clk c d =
     (if list_ex (is_current_head snap c) (db_heads d)
      then (''current'', d\<lparr>db_heads := tbl_update (is_current_head snap c)
        (\<lambda>r. r\<lparr>hd_assessment_state := AS_PENDING, hd_current_assessment_id := None, hd_epistemic_status := None,
               hd_prepared_by := prepared_by, hd_updated_at := clk c\<rparr>) (db_heads d)\<rparr>)
      else case find (\<lambda>r. hd_claim_id r = c \<and> hd_config_snapshot_id r = snap) (db_heads d) of
        None \<Rightarrow> (''missing'', d)
      | Some r \<Rightarrow> (assessment_state_value (hd_assessment_state r), d))"

definition enqueue_job :: "uuid \<Rightarrow> string \<Rightarrow> uuid \<Rightarrow> db \<Rightarrow> bool \<times> db" where
  "enqueue_job snap reason c d =
     (if has_active_job c snap d then (False, d)
      else let (i, d1) = uuid4 d
           in (True, d1\<lparr>db_jobs := db_jobs d1 @ [queued_job i c snap reason (db_now d)]\<rparr>))"

definition invalid_question_id :: "cascade_env \<Rightarrow> uuid \<Rightarrow> uuid \<Rightarrow> uuid" where
  "invalid_question_id env snap c =
     cv_uuid5 env QUESTION_UUID5_NAMESPACE (''cascade-invalidation:'' @ uuid_str snap @ '':'' @ uuid_str c)"

definition enqueue_invalid_question :: "cascade_env \<Rightarrow> uuid \<Rightarrow> uuid \<Rightarrow> db \<Rightarrow> bool \<times> db" where
  "enqueue_invalid_question env snap c d =
     (let qid = invalid_question_id env snap c in
      if list_ex (\<lambda>q. q_id q = qid) (db_questions d) then (False, d)
      else let stmt = (case tbl_get cl_id c (db_claims d) of
                 Some cl \<Rightarrow> cl_statement cl | None \<Rightarrow> ''claim '' @ uuid_str c)
           in (True, d\<lparr>db_questions := db_questions d @
             [\<lparr>q_id = qid, q_text = take 2000 (cv_reask env @ take 1900 stmt), q_origin = QO_INVALID_ASSESSMENT,
               q_origin_config_snapshot_id = None, q_state = QS_CANDIDATE, q_priority = 0, q_parent_id = None,
               q_score_components = None, q_embedding_fingerprint = None, q_created_at = db_now d\<rparr>]\<rparr>))"

definition invalidate_claim ::
  "cascade_env \<Rightarrow> uuid \<Rightarrow> string \<Rightarrow> string \<Rightarrow> (uuid \<Rightarrow> instant) \<Rightarrow> uuid \<Rightarrow> nat \<times> nat \<times> db \<Rightarrow> nat \<times> nat \<times> db" where
  "invalidate_claim env snap prepared_by reason clk c s =
     (case s of (invalidated, jobs, d) \<Rightarrow>
        let (prior, d1) = invalidate_head snap prepared_by clk c d in
        if prior = ''current''
        then let (created, d2) = enqueue_job snap reason c d1;
                 (asked, d3) = enqueue_invalid_question env snap c d2
             in (Suc invalidated, if created then Suc jobs else jobs, d3)
        else (invalidated, jobs, d1))"

text \<open>The barrier argument is the barrier's id and the batch offset; without one there is no event.\<close>

definition invalidate_batch ::
  "cascade_env \<Rightarrow> uuid \<Rightarrow> string \<Rightarrow> string \<Rightarrow> (uuid \<Rightarrow> instant) \<Rightarrow> uuid list \<Rightarrow> uuid option \<Rightarrow> (uuid \<times> int) option \<Rightarrow>
   db \<Rightarrow> nat \<times> nat \<times> db" where
  "invalidate_batch env snap actor reason clk claims sid barrier d =
     (let (hit, jobs, d1) = fold (invalidate_claim env snap actor reason clk) claims (0, 0, d) in
      case barrier of
        None \<Rightarrow> (hit, jobs, d1)
      | Some (bid, offset) \<Rightarrow>
          (hit, jobs, record_event AE_BARRIER_BATCH_APPLIED sid
            (Some [(''barrier_id'', JStr (uuid_str bid)), (''batch_offset'', JInt offset),
              (''claim_count'', JInt (int (length claims))), (''invalidated'', JInt (int hit)),
              (''jobs_created'', JInt (int jobs))])
            (Some actor) (Some (''barrier '' @ uuid_str bid @ '': batch at '' @ int_str offset)) AV_OPERATOR d1))"

definition bump_knowledge_revision :: "db \<Rightarrow> exn + (int \<times> db)" where
  "bump_knowledge_revision d =
     (case get_revision d ''knowledge'' of
        None \<Rightarrow> Inl (CascadeError ''knowledge revision row missing under lock'')
      | Some r \<Rightarrow> Inr (rev_revision r + 1, d\<lparr>db_revisions := tbl_update (\<lambda>r. rev_scope r = ''knowledge'')
          (\<lambda>r. r\<lparr>rev_revision := rev_revision r + 1, rev_updated_at := db_now d\<rparr>) (db_revisions d)\<rparr>))"

subsection \<open>Writing a barrier\<close>

text \<open>The constraints of \<open>dependency_invalidation_barriers\<close> on a row to be written.\<close>

definition barrier_checks :: "barrier_row \<Rightarrow> db \<Rightarrow> exn option" where
  "barrier_checks b d =
     (if (bar_closure_manifest_id b = None) \<noteq> (bar_status b = BS_DISCOVERING)
        \<or> (bar_resolved_at b = None) \<noteq> (bar_status b \<noteq> BS_RESOLVED)
        \<or> bar_generation b < 1 \<or> bar_next_offset b < 0 \<or> bar_member_count b < 0
      then Some (IntegrityError ''dependency_invalidation_barriers_check'')
      else if list_ex (\<lambda>r. bar_id r \<noteq> bar_id b \<and> bar_root_claim_id r = bar_root_claim_id b
          \<and> bar_generation r = bar_generation b) (db_barriers d)
      then Some (IntegrityError ''dependency_invalidation_barriers_root_claim_id_generation_key'')
      else None)"

definition insert_barrier :: "barrier_row \<Rightarrow> db \<Rightarrow> exn + db" where
  "insert_barrier b d =
     (case barrier_checks b d of Some e \<Rightarrow> Inl e
      | None \<Rightarrow> Inr (d\<lparr>db_barriers := db_barriers d @ [b]\<rparr>))"

definition flush_barrier :: "barrier_row \<Rightarrow> db \<Rightarrow> exn + db" where
  "flush_barrier b d =
     (case barrier_checks b d of Some e \<Rightarrow> Inl e
      | None \<Rightarrow> Inr (d\<lparr>db_barriers := tbl_update (\<lambda>r. bar_id r = bar_id b) (\<lambda>r. b) (db_barriers d)\<rparr>))"

subsection \<open>Start\<close>

datatype cascade_mode = CM_inline | CM_barrier

primrec cascade_mode_value :: "cascade_mode \<Rightarrow> string" where
  "cascade_mode_value CM_inline = ''inline''"
| "cascade_mode_value CM_barrier = ''barrier''"

record cascade_start_result =
  cs_root :: uuid
  cs_manifest_sha256 :: string
  cs_closure_count :: nat
  cs_mode :: cascade_mode
  cs_barrier_id :: "uuid option"
  cs_invalidated :: nat
  cs_jobs_created :: nat
  cs_graph_revision :: int
  cs_knowledge_revision :: "int option"

record cascade_call =
  cc_root_claim_id :: uuid
  cc_reason :: string
  cc_actor :: string
  cc_session_id :: "uuid option"

definition root_reason :: "cascade_call \<Rightarrow> string" where
  "root_reason call = ''root: '' @ cc_reason call"

text \<open>Step 5: the barrier and its first batch.\<close>

definition new_barrier :: "cascade_call \<Rightarrow> closure_result \<Rightarrow> manifest_row \<Rightarrow> uuid \<Rightarrow> instant \<Rightarrow> barrier_row" where
  "new_barrier call c m bid now =
     \<lparr>bar_id = bid, bar_root_claim_id = cc_root_claim_id call, bar_graph_revision = cr_graph_revision c,
      bar_generation = 1, bar_status = BS_ACTIVE, bar_closure_manifest_id = Some (cm_id m),
      bar_member_count = int (closure_count c), bar_next_offset = 0, bar_last_error = None,
      bar_created_at = now, bar_updated_at = now, bar_resolved_at = None\<rparr>"

definition open_barrier ::
  "cascade_env \<Rightarrow> (uuid \<Rightarrow> instant) \<Rightarrow> cascade_call \<Rightarrow> uuid \<Rightarrow> closure_result \<Rightarrow> manifest_row \<Rightarrow> db \<Rightarrow>
   exn + (nat \<times> nat \<times> uuid \<times> db)" where
  "open_barrier env clk call snap c m d =
     (let (bid, d1) = uuid4 d;
          b = new_barrier call c m bid (db_now d)
      in case insert_barrier b d1 of Inl e \<Rightarrow> Inl e | Inr d2 \<Rightarrow>
        let window = closure_batch c 0 BATCH_SIZE;
            (hit, jobs, d3) = invalidate_batch env snap (cc_actor call) (cc_reason call) clk window
              (cc_session_id call) (Some (bid, 0)) d2;
            b1 = b\<lparr>bar_next_offset := int (length window),
              bar_status := if length window < closure_count c then BS_ACTIVE else BS_CLOSING\<rparr>
        in case flush_barrier b1 d3 of Inl e \<Rightarrow> Inl e | Inr d4 \<Rightarrow> Inr (hit, jobs, bid, d4))"

definition cascade_started :: "cascade_call \<Rightarrow> cascade_start_result \<Rightarrow> db \<Rightarrow> db" where
  "cascade_started call res d =
     record_event AE_CASCADE_STARTED (cc_session_id call)
       (Some [(''root_claim_id'', JStr (uuid_str (cs_root res))), (''manifest_sha256'', JStr (cs_manifest_sha256 res)),
         (''closure_count'', JInt (int (cs_closure_count res))), (''mode'', JStr (cascade_mode_value (cs_mode res))),
         (''barrier_id'', opt_uuid_json (cs_barrier_id res)), (''invalidated'', JInt (int (cs_invalidated res))),
         (''jobs_created'', JInt (int (cs_jobs_created res))), (''graph_revision'', JInt (cs_graph_revision res)),
         (''knowledge_revision'', opt_json JInt (cs_knowledge_revision res))])
       (Some (cc_actor call))
       (Some (''cascade from '' @ uuid_str (cs_root res) @ '': closure='' @ nat_str (cs_closure_count res)
          @ '' mode='' @ cascade_mode_value (cs_mode res))) AV_OPERATOR d"

text \<open>The revision bump, the event and the result that end the transaction.\<close>

definition finish_start ::
  "cascade_call \<Rightarrow> closure_result \<Rightarrow> string \<Rightarrow> cascade_mode \<Rightarrow> uuid option \<Rightarrow> nat \<Rightarrow> nat \<Rightarrow> db \<Rightarrow>
   exn + (cascade_start_result \<times> db)" where
  "finish_start call c sha mode bid hit jobs d =
     (case (if 0 < hit then map_sum id (map_prod Some id) (bump_knowledge_revision d) else Inr (None, d)) of
        Inl e \<Rightarrow> Inl e
      | Inr (new_rev, d1) \<Rightarrow>
          let res = \<lparr>cs_root = cc_root_claim_id call, cs_manifest_sha256 = sha, cs_closure_count = closure_count c,
            cs_mode = mode, cs_barrier_id = bid, cs_invalidated = hit, cs_jobs_created = jobs,
            cs_graph_revision = cr_graph_revision c, cs_knowledge_revision = new_rev\<rparr>
          in Inr (res, cascade_started call res d1))"

text \<open>The transaction on the database \<open>d\<close>, for a closure that was computed before it.\<close>

definition run_cascade ::
  "cascade_env \<Rightarrow> (uuid \<Rightarrow> instant) \<Rightarrow> cascade_call \<Rightarrow> closure_result \<Rightarrow> db \<Rightarrow> exn + (cascade_start_result \<times> db)" where
  "run_cascade env clk call c d =
     (case effective_snapshot_id d of Inl e \<Rightarrow> Inl e | Inr snap \<Rightarrow>
      case revision_of d ''dependency_graph'' of Inl e \<Rightarrow> Inl e | Inr locked \<Rightarrow>
      if locked \<noteq> cr_graph_revision c then
        Inl (CascadeError (''graph revision moved during closure computation ('' @ int_str (cr_graph_revision c)
          @ '' -> '' @ int_str locked @ ''); retry the cascade''))
      else case get_or_create_manifest env c d of Inl e \<Rightarrow> Inl e | Inr (m, sha, d1) \<Rightarrow>
        let (hit, jobs, d2) = invalidate_batch env snap (cc_actor call) (root_reason call) clk
              [cc_root_claim_id call] (cc_session_id call) None d1
        in if closure_count c \<le> INLINE_CLOSURE_LIMIT then
             let (hit', jobs', d3) = invalidate_batch env snap (cc_actor call) (cc_reason call) clk (cr_claim_ids c)
                   (cc_session_id call) None d2
             in finish_start call c sha CM_inline None (hit + hit') (jobs + jobs') d3
           else case open_barrier env clk call snap c m d2 of Inl e \<Rightarrow> Inl e | Inr (hit', jobs', bid, d3) \<Rightarrow>
             finish_start call c sha CM_barrier (Some bid) (hit + hit') (jobs + jobs') d3)"

definition start_cascade ::
  "cascade_env \<Rightarrow> bool \<Rightarrow> (uuid \<Rightarrow> instant) \<Rightarrow> cascade_call \<Rightarrow> db \<Rightarrow> db \<Rightarrow> exn + (cascade_start_result \<times> db)" where
  "start_cascade env got clk call d0 d =
     (case load_closure d0 (cc_root_claim_id call) of Inl e \<Rightarrow> Inl e
      | Inr c \<Rightarrow> writer_gate got (run_cascade env clk call c d))"

subsection \<open>The barrier processor\<close>

record barrier_call =
  bc_actor :: string
  bc_session_id :: "uuid option"

definition block_barrier :: "barrier_call \<Rightarrow> barrier_row \<Rightarrow> string \<Rightarrow> string \<Rightarrow> db \<Rightarrow> exn + (barrier_status \<times> db)" where
  "block_barrier call b error_class message d =
     (let d1 = record_event AE_BARRIER_BLOCKED (bc_session_id call)
            (Some [(''barrier_id'', JStr (uuid_str (bar_id b))), (''root_claim_id'', JStr (uuid_str (bar_root_claim_id b))),
              (''generation'', JInt (bar_generation b)), (''error_class'', JStr error_class), (''message'', JStr message)])
            (Some (bc_actor call)) (Some (''barrier '' @ uuid_str (bar_id b) @ '' blocked: '' @ error_class)) AV_OPERATOR d
      in case flush_barrier (b\<lparr>bar_status := BS_BLOCKED, bar_last_error := Some (error_class @ '': '' @ message)\<rparr>) d1 of
        Inl e \<Rightarrow> Inl e | Inr d2 \<Rightarrow> Inr (BS_BLOCKED, d2))"

text \<open>A new generation from the closure of the present graph.\<close>

definition publish_generation ::
  "cascade_env \<Rightarrow> barrier_call \<Rightarrow> barrier_row \<Rightarrow> db \<Rightarrow> exn + (barrier_row \<times> db)" where
  "publish_generation env call b d =
     (case load_closure d (bar_root_claim_id b) of Inl e \<Rightarrow> Inl e | Inr c \<Rightarrow>
      case get_or_create_manifest env c d of Inl e \<Rightarrow> Inl e | Inr (m, sha, d1) \<Rightarrow>
        let b1 = b\<lparr>bar_generation := bar_generation b + 1, bar_graph_revision := cr_graph_revision c,
              bar_closure_manifest_id := Some (cm_id m), bar_member_count := int (closure_count c), bar_next_offset := 0,
              bar_status := if closure_count c = 0 then BS_CLOSING else BS_ACTIVE, bar_last_error := None\<rparr>
        in Inr (b1, record_event AE_BARRIER_GENERATION_PUBLISHED (bc_session_id call)
             (Some [(''barrier_id'', JStr (uuid_str (bar_id b))), (''root_claim_id'', JStr (uuid_str (bar_root_claim_id b))),
               (''generation'', JInt (bar_generation b1)), (''manifest_sha256'', JStr sha),
               (''graph_revision'', JInt (cr_graph_revision c)), (''member_count'', JInt (int (closure_count c)))])
             (Some (bc_actor call))
             (Some (''barrier '' @ uuid_str (bar_id b) @ '': generation '' @ int_str (bar_generation b1)
                @ '' (closure='' @ nat_str (closure_count c) @ '')'')) AV_OPERATOR d1))"

text \<open>
  What a step of the processor does with an active barrier: it blocks the barrier (\<open>Inl\<close>, with the
  error class and the message) or applies the next window of the manifest and moves the cursor.
\<close>

fun as_uuids :: "host \<Rightarrow> json list \<Rightarrow> exn + uuid list" where
  "as_uuids h [] = Inr []"
| "as_uuids h (v # vs) = (case as_uuid h v of Inl e \<Rightarrow> Inl e
     | Inr u \<Rightarrow> (case as_uuids h vs of Inl e \<Rightarrow> Inl e | Inr us \<Rightarrow> Inr (u # us)))"

definition apply_window ::
  "cascade_env \<Rightarrow> (uuid \<Rightarrow> instant) \<Rightarrow> barrier_call \<Rightarrow> uuid \<Rightarrow> barrier_row \<Rightarrow> db \<Rightarrow>
   exn + ((string \<times> string) + (nat \<times> barrier_row \<times> db))" where
  "apply_window env clk call snap b d =
     (case (case bar_closure_manifest_id b of None \<Rightarrow> None | Some i \<Rightarrow> tbl_get cm_id i (db_manifests d)) of
        None \<Rightarrow> Inr (Inl (''manifest_missing'', ''closure manifest row missing under lock''))
      | Some m \<Rightarrow>
        case verify_manifest (cv_host env) m of
          Some problem \<Rightarrow> Inr (Inl (problem, ''immutable manifest hash mismatch''))
        | None \<Rightarrow>
          case as_uuids (cv_host env) (cm_claim_ids m) of Inl e \<Rightarrow> Inl e | Inr ordered \<Rightarrow>
          if int (length ordered) \<noteq> cm_count m then Inl (AssertionError [])
          else if cm_count m < bar_next_offset b then
            Inr (Inl (''impossible_cursor'', ''next_offset '' @ int_str (bar_next_offset b) @ '' > count '' @ int_str (cm_count m)))
          else
            let (hit, b1, d1) =
              (if bar_next_offset b < cm_count m then
                 let window = take BATCH_SIZE (drop (nat (bar_next_offset b)) ordered);
                     (hit, jobs, d') = invalidate_batch env snap (bc_actor call) ''barrier batch'' clk window
                       (bc_session_id call) (Some (bar_id b, bar_next_offset b)) d
                 in (hit, b\<lparr>bar_next_offset := bar_next_offset b + int (length window)\<rparr>, d')
               else (0, b, d))
            in Inr (Inr (hit, if cm_count m \<le> bar_next_offset b1 then b1\<lparr>bar_status := BS_CLOSING\<rparr> else b1, d1)))"

definition live_current_descendants :: "db \<Rightarrow> uuid \<Rightarrow> uuid \<Rightarrow> exn + uuid list" where
  "live_current_descendants d r snap =
     (case revision_of d ''dependency_graph'' of Inl e \<Rightarrow> Inl e | Inr revision \<Rightarrow>
        let c = compute_reverse_closure (evidential_edges d) r revision
        in Inr (if cr_claim_ids c = [] then []
          else map hd_claim_id (filter (\<lambda>h. hd_config_snapshot_id h = snap \<and> hd_assessment_state h = AS_CURRENT
            \<and> hd_claim_id h \<in> set (cr_claim_ids c)) (db_heads d))))"

text \<open>The final scan of a closing barrier.\<close>

definition final_scan :: "barrier_call \<Rightarrow> uuid \<Rightarrow> int \<Rightarrow> barrier_row \<Rightarrow> db \<Rightarrow> exn + (barrier_row \<times> db)" where
  "final_scan call snap live b d =
     (case live_current_descendants d (bar_root_claim_id b) snap of Inl e \<Rightarrow> Inl e | Inr current \<Rightarrow>
      if live \<noteq> bar_graph_revision b \<or> current \<noteq> [] then
        Inr (b\<lparr>bar_status := BS_DISCOVERING, bar_last_error :=
          if live = bar_graph_revision b then None
          else Some (''graph revision moved: '' @ int_str (bar_graph_revision b) @ '' -> '' @ int_str live)\<rparr>, d)
      else Inr (b\<lparr>bar_status := BS_RESOLVED, bar_resolved_at := Some (db_now d)\<rparr>,
        record_event AE_BARRIER_RESOLVED (bc_session_id call)
          (Some [(''barrier_id'', JStr (uuid_str (bar_id b))), (''root_claim_id'', JStr (uuid_str (bar_root_claim_id b))),
            (''generation'', JInt (bar_generation b)),
            (''manifest_sha256'', opt_json (JStr \<circ> cm_sha256) (case bar_closure_manifest_id b of
                None \<Rightarrow> None | Some i \<Rightarrow> tbl_get cm_id i (db_manifests d))),
            (''member_count'', JInt (bar_member_count b))])
          (Some (bc_actor call)) (Some (''barrier '' @ uuid_str (bar_id b) @ '' resolved'')) AV_OPERATOR d))"

text \<open>The rest of a step, for a barrier past the generation check.\<close>

definition finish_step ::
  "barrier_call \<Rightarrow> instant \<Rightarrow> uuid \<Rightarrow> int \<Rightarrow> nat \<Rightarrow> barrier_row \<Rightarrow> db \<Rightarrow> exn + (barrier_status \<times> db)" where
  "finish_step call end_clk snap live hit b d =
     (case (if bar_status b = BS_CLOSING then final_scan call snap live b d else Inr (b, d)) of
        Inl e \<Rightarrow> Inl e
      | Inr (b1, d1) \<Rightarrow>
          case (if 0 < hit then map_sum id snd (bump_knowledge_revision d1) else Inr d1) of Inl e \<Rightarrow> Inl e
          | Inr d2 \<Rightarrow>
              case flush_barrier (b1\<lparr>bar_updated_at := end_clk\<rparr>) d2 of Inl e \<Rightarrow> Inl e
              | Inr d3 \<Rightarrow> Inr (bar_status b1, d3))"

definition step_barrier ::
  "cascade_env \<Rightarrow> (uuid \<Rightarrow> instant) \<Rightarrow> instant \<Rightarrow> barrier_call \<Rightarrow> uuid \<Rightarrow> int \<Rightarrow> barrier_row \<Rightarrow> db \<Rightarrow>
   exn + (barrier_status \<times> db)" where
  "step_barrier env clk end_clk call snap live b d =
     (if bar_status b = BS_ACTIVE then
        case apply_window env clk call snap b d of
          Inl e \<Rightarrow> Inl e
        | Inr (Inl (cls, message)) \<Rightarrow> block_barrier call b cls message d
        | Inr (Inr (hit, b1, d1)) \<Rightarrow> finish_step call end_clk snap live hit b1 d1
      else finish_step call end_clk snap live 0 b d)"

definition process_barrier ::
  "cascade_env \<Rightarrow> bool \<Rightarrow> (uuid \<Rightarrow> instant) \<Rightarrow> instant \<Rightarrow> barrier_call \<Rightarrow> uuid \<Rightarrow> db \<Rightarrow> exn + (barrier_status \<times> db)" where
  "process_barrier env got clk end_clk call bid d =
     writer_gate got
      (case tbl_get bar_id bid (db_barriers d) of
         None \<Rightarrow> Inl (LookupError (''barrier '' @ uuid_str bid @ '' not found''))
       | Some b \<Rightarrow>
           if bar_status b = BS_RESOLVED then Inr (BS_RESOLVED, d)
           else if bar_status b = BS_BLOCKED then
             Inl (BarrierBlockedError (''barrier '' @ uuid_str (bar_id b) @ '' is blocked: '' @ opt_str (bar_last_error b)))
           else case effective_snapshot_id d of Inl e \<Rightarrow> Inl e | Inr snap \<Rightarrow>
             case revision_of d ''dependency_graph'' of Inl e \<Rightarrow> Inl e | Inr live \<Rightarrow>
             case (if bar_status b = BS_DISCOVERING \<or> (bar_status b = BS_ACTIVE \<and> live \<noteq> bar_graph_revision b)
                   then publish_generation env call b d else Inr (b, d)) of
               Inl e \<Rightarrow> Inl e
             | Inr (b1, d1) \<Rightarrow> step_barrier env clk end_clk call snap live b1 d1)"

text \<open>Every claim of the manifest of an open barrier.\<close>

definition protected_claim_ids :: "cascade_env \<Rightarrow> db \<Rightarrow> exn + uuid list" where
  "protected_claim_ids env d =
     as_uuids (cv_host env) (concat (concat (map (\<lambda>m. map (\<lambda>b. cm_claim_ids m)
       (filter (\<lambda>b. bar_closure_manifest_id b = Some (cm_id m) \<and> barrier_is_open (bar_status b)) (db_barriers d)))
       (db_manifests d))))"

subsection \<open>Steps that skip what is settled\<close>

text \<open>
  The contract of one invalidation step: it settles its claim, unsettles none, and leaves the state
  alone when the claim is settled already.
\<close>

locale skip_step =
  fixes step :: "'c \<Rightarrow> 's \<Rightarrow> 's" and settled :: "'c \<Rightarrow> 's \<Rightarrow> bool"
  assumes settles: "settled c (step c s)"
    and keeps: "settled c s \<Longrightarrow> settled c (step c' s)"
    and skips: "settled c s \<Longrightarrow> step c s = s"
begin

lemma fold_keeps: "settled c s \<Longrightarrow> settled c (fold step cs s)"
  by (induction cs arbitrary: s) (simp_all add: keeps)

lemma fold_settles: "c \<in> set cs \<Longrightarrow> settled c (fold step cs s)"
proof (induction cs arbitrary: s)
  case (Cons x cs)
  then show ?case by (cases "c = x") (simp_all add: fold_keeps settles)
qed simp

lemma fold_skips: "\<forall>c\<in>set cs. settled c s \<Longrightarrow> fold step cs s = s"
  by (induction cs) (simp_all add: skips)

lemma fold_again: "fold step cs (fold step cs s) = fold step cs s"
  by (rule fold_skips) (simp add: fold_settles)

end

definition no_current_head :: "uuid \<Rightarrow> uuid \<Rightarrow> db \<Rightarrow> bool" where
  "no_current_head snap c d \<longleftrightarrow> \<not> list_ex (is_current_head snap c) (db_heads d)"

definition demote :: "string \<Rightarrow> (uuid \<Rightarrow> instant) \<Rightarrow> head_row \<Rightarrow> head_row" where
  "demote prepared_by clk r = r\<lparr>hd_assessment_state := AS_PENDING, hd_current_assessment_id := None,
     hd_epistemic_status := None, hd_prepared_by := prepared_by, hd_updated_at := clk (hd_claim_id r)\<rparr>"

lemma demote_fields [simp]:
  "hd_claim_id (demote p clk r) = hd_claim_id r" "hd_config_snapshot_id (demote p clk r) = hd_config_snapshot_id r"
  "hd_assessment_state (demote p clk r) = AS_PENDING"
  by (simp_all add: demote_def)

lemma invalidate_head_heads:
  "db_heads (snd (invalidate_head snap p clk c d)) = tbl_update (is_current_head snap c) (demote p clk) (db_heads d)"
proof (cases "list_ex (is_current_head snap c) (db_heads d)")
  case True
  then show ?thesis
    by (auto simp: invalidate_head_def tbl_update_def demote_def is_current_head_def)
next
  case False
  then show ?thesis
    by (auto simp: invalidate_head_def list_ex_iff tbl_update_none split: option.split)
qed

lemma invalidate_head_prior:
  "fst (invalidate_head snap p clk c d) = ''current'' \<longleftrightarrow> \<not> no_current_head snap c d"
proof (cases "list_ex (is_current_head snap c) (db_heads d)")
  case False
  have "fst (invalidate_head snap p clk c d) \<noteq> ''current''"
  proof (cases "find (\<lambda>r. hd_claim_id r = c \<and> hd_config_snapshot_id r = snap) (db_heads d)")
    case (Some r)
    then have "r \<in> set (db_heads d)" "hd_claim_id r = c" "hd_config_snapshot_id r = snap"
      by (auto simp: find_Some_iff)
    then have "hd_assessment_state r \<noteq> AS_CURRENT" using False by (auto simp: list_ex_iff is_current_head_def)
    then show ?thesis using False Some by (cases "hd_assessment_state r") (auto simp: invalidate_head_def)
  qed (use False in \<open>simp add: invalidate_head_def\<close>)
  with False show ?thesis by (simp add: no_current_head_def)
qed (simp add: invalidate_head_def no_current_head_def)

lemma invalidate_head_skip: "no_current_head snap c d \<Longrightarrow> snd (invalidate_head snap p clk c d) = d"
  by (auto simp: invalidate_head_def no_current_head_def split: option.split)

lemma invalidate_claim_eq:
  "invalidate_claim env snap p reason clk c (i, j, d) =
     (if no_current_head snap c d then (i, j, d)
      else let d1 = snd (invalidate_head snap p clk c d); ej = enqueue_job snap reason c d1
           in (Suc i, if fst ej then Suc j else j, snd (enqueue_invalid_question env snap c (snd ej))))"
proof -
  obtain prior d1 where h: "invalidate_head snap p clk c d = (prior, d1)" by fastforce
  obtain b d2 where j: "enqueue_job snap reason c d1 = (b, d2)" by fastforce
  obtain q d3 where q: "enqueue_invalid_question env snap c d2 = (q, d3)" by fastforce
  have prior: "(prior = ''current'') = (\<not> no_current_head snap c d)"
    using invalidate_head_prior [of snap p clk c d] unfolding h by simp
  show ?thesis
  proof (cases "no_current_head snap c d")
    case True
    then have "d1 = d" using invalidate_head_skip [of snap c d p clk] unfolding h by simp
    then show ?thesis using True prior h by (simp add: invalidate_claim_def)
  next
    case False
    then show ?thesis using prior unfolding invalidate_claim_def prod.case h Let_def snd_conv j q fst_conv by simp
  qed
qed

lemma enqueue_frame [simp]:
  "db_heads (snd (enqueue_job snap reason c d)) = db_heads d"
  "db_heads (snd (enqueue_invalid_question env snap c d)) = db_heads d"
  "db_jobs (snd (enqueue_invalid_question env snap c d)) = db_jobs d"
  by (simp add: enqueue_job_def uuid4_def, simp_all add: enqueue_invalid_question_def Let_def)

lemma invalidate_claim_heads:
  "db_heads (snd (snd (invalidate_claim env snap p reason clk c s))) =
     tbl_update (is_current_head snap c) (demote p clk) (db_heads (snd (snd s)))"
proof (cases s)
  case (fields i j d)
  show ?thesis
  proof (cases "no_current_head snap c d")
    case True
    then show ?thesis using fields
      by (simp add: invalidate_claim_eq tbl_update_none no_current_head_def list_ex_iff)
  next
    case False
    then show ?thesis unfolding fields invalidate_claim_eq
      by (simp add: Let_def invalidate_head_heads)
  qed
qed

lemma no_current_after_update:
  "no_current_head snap c (snd (snd s)) \<or> c = c' \<Longrightarrow>
   no_current_head snap c (snd (snd (invalidate_claim env snap p reason clk c' s)))"
proof -
  have "is_current_head snap c r \<and> c \<noteq> c'"
    if "is_current_head snap c (if is_current_head snap c' r then demote p clk r else r)" for r
    using that by (cases "is_current_head snap c' r") (simp_all add: is_current_head_def, auto)
  then show "no_current_head snap c (snd (snd s)) \<or> c = c' \<Longrightarrow> ?thesis"
    unfolding no_current_head_def invalidate_claim_heads list_ex_iff set_tbl_update by blast
qed

interpretation inval: skip_step "invalidate_claim env snap p reason clk" "\<lambda>c s. no_current_head snap c (snd (snd s))"
  for env snap p reason clk
proof
  fix c and s :: "nat \<times> nat \<times> db"
  assume "no_current_head snap c (snd (snd s))"
  then show "invalidate_claim env snap p reason clk c s = s" by (cases s) (simp add: invalidate_claim_eq)
qed (simp_all add: no_current_after_update)

subsection \<open>What a batch changes\<close>

text \<open>The tables an invalidation never writes.\<close>

definition graph_rows :: "db \<Rightarrow> dependency_row list \<times> revision_row list \<times> config_head_row list \<times>
    barrier_row list \<times> manifest_row list \<times> claim_row list \<times> instant" where
  "graph_rows d = (db_dependencies d, db_revisions d, db_config_heads d, db_barriers d, db_manifests d, db_claims d, db_now d)"

lemma graph_rows_eq:
  "graph_rows d' = graph_rows d \<longleftrightarrow> db_dependencies d' = db_dependencies d \<and> db_revisions d' = db_revisions d
     \<and> db_config_heads d' = db_config_heads d \<and> db_barriers d' = db_barriers d \<and> db_manifests d' = db_manifests d
     \<and> db_claims d' = db_claims d \<and> db_now d' = db_now d"
  by (auto simp: graph_rows_def)

lemma graph_rows_steps [simp]:
  "graph_rows (record_event ty sid pl a sm v d) = graph_rows d"
  "graph_rows (snd (invalidate_head snap p clk c d)) = graph_rows d"
  "graph_rows (snd (enqueue_job snap reason c d)) = graph_rows d"
  "graph_rows (snd (enqueue_invalid_question env snap c d)) = graph_rows d"
  by (simp add: graph_rows_def, simp add: graph_rows_def invalidate_head_def split: option.split,
      simp add: graph_rows_def enqueue_job_def uuid4_def, simp add: graph_rows_def enqueue_invalid_question_def Let_def)

lemma graph_rows_claim: "graph_rows (snd (snd (invalidate_claim env snap p reason clk c s))) = graph_rows (snd (snd s))"
proof (cases s)
  case (fields i j d)
  then show ?thesis by (simp add: invalidate_claim_eq Let_def)
qed

lemma graph_rows_fold:
  "graph_rows (snd (snd (fold (invalidate_claim env snap p reason clk) cs s))) = graph_rows (snd (snd s))"
  by (induction cs arbitrary: s) (simp_all add: graph_rows_claim)

lemma is_current_demote [simp]: "\<not> is_current_head snap c (demote p clk r)"
  by (simp add: is_current_head_def)

lemma fold_heads:
  "db_heads (snd (snd (fold (invalidate_claim env snap p reason clk) cs s))) =
     tbl_update (\<lambda>r. \<exists>c\<in>set cs. is_current_head snap c r) (demote p clk) (db_heads (snd (snd s)))"
proof (induction cs arbitrary: s)
  case (Cons c cs)
  show ?case by (simp add: Cons invalidate_claim_heads tbl_update_def)
qed (simp add: tbl_update_none)

definition one_active_job :: "db \<Rightarrow> bool" where
  "one_active_job d \<longleftrightarrow> (\<forall>c snap. tbl_count (\<lambda>j. job_claim_id j = c \<and> job_target_config_snapshot_id j = snap
     \<and> job_is_active (job_status j)) (db_jobs d) \<le> 1)"

lemma no_active_job_count:
  "\<not> has_active_job c snap d \<Longrightarrow> tbl_count (\<lambda>j. job_claim_id j = c \<and> job_target_config_snapshot_id j = snap
     \<and> job_is_active (job_status j)) (db_jobs d) = 0"
  by (auto simp: has_active_job_def list_ex_iff tbl_count_0_iff)

lemma enqueue_job_one: "one_active_job d \<Longrightarrow> one_active_job (snd (enqueue_job snap reason c d))"
proof (cases "has_active_job c snap d")
  case False
  assume "one_active_job d"
  then show ?thesis using False no_active_job_count [OF False]
    by (auto simp: one_active_job_def enqueue_job_def uuid4_def queued_job_def)
qed (simp add: enqueue_job_def)

lemma enqueue_job_active: "has_active_job c snap (snd (enqueue_job snap reason c d))"
  by (simp add: enqueue_job_def uuid4_def has_active_job_def queued_job_def job_is_active_def)

lemma enqueue_job_keeps: "has_active_job c' snap' d \<Longrightarrow> has_active_job c' snap' (snd (enqueue_job snap reason c d))"
  by (auto simp: enqueue_job_def uuid4_def has_active_job_def)

lemma jobs_cong:
  assumes "db_jobs d' = db_jobs d"
  shows "has_active_job c snap d' = has_active_job c snap d" "one_active_job d' = one_active_job d"
  using assms by (simp_all add: has_active_job_def one_active_job_def)

lemma invalidate_head_jobs [simp]: "db_jobs (snd (invalidate_head snap p clk c d)) = db_jobs d"
  by (simp add: invalidate_head_def split: option.split)

lemma claim_jobs:
  "\<not> no_current_head snap c (snd (snd s)) \<Longrightarrow> has_active_job c snap (snd (snd (invalidate_claim env snap p reason clk c s)))"
  "has_active_job c' snap' (snd (snd s)) \<Longrightarrow> has_active_job c' snap' (snd (snd (invalidate_claim env snap p reason clk c s)))"
  "one_active_job (snd (snd s)) \<Longrightarrow> one_active_job (snd (snd (invalidate_claim env snap p reason clk c s)))"
proof -
  obtain i j d where s: "s = (i, j, d)" by (cases s)
  let ?d1 = "snd (invalidate_head snap p clk c d)"
  let ?d2 = "snd (enqueue_job snap reason c ?d1)"
  have "snd (snd (invalidate_claim env snap p reason clk c s)) =
      (if no_current_head snap c d then d else snd (enqueue_invalid_question env snap c ?d2))"
    by (simp add: s invalidate_claim_eq Let_def)
  moreover have "db_jobs (snd (enqueue_invalid_question env snap c ?d2)) = db_jobs ?d2" "db_jobs ?d1 = db_jobs d" by simp_all
  ultimately have e: "db_jobs (snd (snd (invalidate_claim env snap p reason clk c s))) =
      (if no_current_head snap c d then db_jobs d else db_jobs ?d2)" and d1: "db_jobs ?d1 = db_jobs d" by simp_all
  show "has_active_job c snap (snd (snd (invalidate_claim env snap p reason clk c s)))"
    if "\<not> no_current_head snap c (snd (snd s))"
    using that e enqueue_job_active [of c snap reason ?d1] by (simp add: s has_active_job_def)
  show "has_active_job c' snap' (snd (snd (invalidate_claim env snap p reason clk c s)))"
    if "has_active_job c' snap' (snd (snd s))"
    using that e d1 enqueue_job_keeps [of c' snap' ?d1 snap reason c]
    by (cases "no_current_head snap c d") (simp_all add: s has_active_job_def)
  show "one_active_job (snd (snd (invalidate_claim env snap p reason clk c s)))"
    if "one_active_job (snd (snd s))"
    using that e d1 enqueue_job_one [of ?d1 snap reason c]
    by (cases "no_current_head snap c d") (simp_all add: s one_active_job_def)
qed

lemma fold_jobs:
  "has_active_job c snap' (snd (snd s)) \<Longrightarrow> has_active_job c snap' (snd (snd (fold (invalidate_claim env snap p reason clk) cs s)))"
  "one_active_job (snd (snd s)) \<Longrightarrow> one_active_job (snd (snd (fold (invalidate_claim env snap p reason clk) cs s)))"
  by (induction cs arbitrary: s) (simp_all add: claim_jobs(2,3))

lemma no_current_head_cong: "db_heads d' = db_heads d \<Longrightarrow> no_current_head snap c d' = no_current_head snap c d"
  by (simp add: no_current_head_def)

lemma fold_queues:
  "c \<in> set cs \<Longrightarrow> \<not> no_current_head snap c (snd (snd s)) \<Longrightarrow>
   has_active_job c snap (snd (snd (fold (invalidate_claim env snap p reason clk) cs s)))"
proof (induction cs arbitrary: s)
  case (Cons x cs)
  let ?s = "invalidate_claim env snap p reason clk x s"
  show ?case
  proof (cases "c = x")
    case True
    then show ?thesis using Cons.prems(2) claim_jobs(1) [of snap x s] by (simp add: fold_jobs(1))
  next
    case False
    have "\<not> no_current_head snap c (snd (snd ?s))"
    proof -
      from Cons.prems(2) obtain r where r: "r \<in> set (db_heads (snd (snd s)))" "is_current_head snap c r"
        by (auto simp: no_current_head_def list_ex_iff)
      moreover have "\<not> is_current_head snap x r" using r(2) False by (simp add: is_current_head_def)
      ultimately have "r \<in> set (db_heads (snd (snd ?s)))"
        unfolding invalidate_claim_heads set_tbl_update by force
      with r(2) show ?thesis by (auto simp: no_current_head_def list_ex_iff)
    qed
    with Cons.IH [of ?s] Cons.prems(1) False show ?thesis by simp
  qed
qed simp

lemma fold_count:
  "i \<le> fst (fold (invalidate_claim env snap p reason clk) cs (i, j, d))
   \<and> (fst (fold (invalidate_claim env snap p reason clk) cs (i, j, d)) = i \<longleftrightarrow> (\<forall>c\<in>set cs. no_current_head snap c d))"
proof (induction cs arbitrary: i j d)
  case (Cons c cs)
  show ?case
  proof (cases "no_current_head snap c d")
    case True
    then show ?thesis using Cons [of i j d] by (simp add: invalidate_claim_eq)
  next
    case False
    then obtain j' d' where s: "invalidate_claim env snap p reason clk c (i, j, d) = (Suc i, j', d')"
      by (simp add: invalidate_claim_eq Let_def)
    then show ?thesis using Cons [of "Suc i" j' d'] False by auto
  qed
qed simp

text \<open>
  What the batches of a cascade do to a database: the current heads of the claims \<open>C\<close> become pending,
  each such claim has an active job, and nothing else the cascade reads is written.
\<close>

definition invalidates :: "uuid \<Rightarrow> string \<Rightarrow> (uuid \<Rightarrow> instant) \<Rightarrow> uuid set \<Rightarrow> db \<Rightarrow> db \<Rightarrow> bool" where
  "invalidates snap p clk C d d' \<longleftrightarrow>
     db_heads d' = tbl_update (\<lambda>r. \<exists>c\<in>C. is_current_head snap c r) (demote p clk) (db_heads d)
     \<and> graph_rows d' = graph_rows d
     \<and> (\<forall>c. has_active_job c snap d \<longrightarrow> has_active_job c snap d')
     \<and> (one_active_job d \<longrightarrow> one_active_job d')
     \<and> (\<forall>c\<in>C. \<not> no_current_head snap c d \<longrightarrow> has_active_job c snap d')"

lemma invalidates_current:
  assumes "invalidates snap p clk C d d'"
  shows "no_current_head snap c d' \<longleftrightarrow> c \<in> C \<or> no_current_head snap c d"
proof -
  have "is_current_head snap c (if \<exists>c\<in>C. is_current_head snap c r then demote p clk r else r)
      \<longleftrightarrow> is_current_head snap c r \<and> c \<notin> C" for r
    by (cases "\<exists>c\<in>C. is_current_head snap c r") (auto simp: is_current_head_def)
  moreover have "set (db_heads d') = (\<lambda>r. if \<exists>c\<in>C. is_current_head snap c r then demote p clk r else r) ` set (db_heads d)"
    using assms unfolding invalidates_def by (metis set_tbl_update)
  ultimately show ?thesis unfolding no_current_head_def list_ex_iff by (simp only: bex_simps) blast
qed

lemma invalidates_trans:
  assumes "invalidates snap p clk C d d1" and "invalidates snap p clk C' d1 d2"
  shows "invalidates snap p clk (C \<union> C') d d2"
proof -
  have "db_heads d2 = tbl_update (\<lambda>r. \<exists>c\<in>C \<union> C'. is_current_head snap c r) (demote p clk) (db_heads d)"
  proof -
    have "(\<lambda>r. if \<exists>c\<in>C'. is_current_head snap c r then demote p clk r else r)
        (if \<exists>c\<in>C. is_current_head snap c r then demote p clk r else r)
      = (if \<exists>c\<in>C \<union> C'. is_current_head snap c r then demote p clk r else r)" for r
      by (cases "\<exists>c\<in>C. is_current_head snap c r") (simp_all add: bex_Un)
    then have "tbl_update (\<lambda>r. \<exists>c\<in>C'. is_current_head snap c r) (demote p clk)
        (tbl_update (\<lambda>r. \<exists>c\<in>C. is_current_head snap c r) (demote p clk) t) =
      tbl_update (\<lambda>r. \<exists>c\<in>C \<union> C'. is_current_head snap c r) (demote p clk) t" for t
      unfolding tbl_update_def by simp
    moreover have "db_heads d2 = tbl_update (\<lambda>r. \<exists>c\<in>C'. is_current_head snap c r) (demote p clk) (db_heads d1)"
      "db_heads d1 = tbl_update (\<lambda>r. \<exists>c\<in>C. is_current_head snap c r) (demote p clk) (db_heads d)"
      using assms unfolding invalidates_def by blast+
    ultimately show ?thesis by simp
  qed
  moreover have "has_active_job c snap d2" if "c \<in> C \<union> C'" "\<not> no_current_head snap c d" for c
    using that assms invalidates_current [OF assms(1), of c] unfolding invalidates_def by blast
  moreover have "graph_rows d2 = graph_rows d" "has_active_job c snap d \<Longrightarrow> has_active_job c snap d2"
    "one_active_job d \<Longrightarrow> one_active_job d2" for c using assms unfolding invalidates_def by auto
  ultimately show ?thesis unfolding invalidates_def by blast
qed

lemma invalidates_kept:
  assumes "invalidates snap p clk C d d'" and "r \<in> set (db_heads d)" and "hd_claim_id r \<notin> C"
  shows "r \<in> set (db_heads d')"
proof -
  have "\<not> (\<exists>c\<in>C. is_current_head snap c r)" using assms(3) by (auto simp: is_current_head_def)
  then show ?thesis using assms(1,2) by (force simp: invalidates_def set_tbl_update)
qed

lemma invalidate_batchD:
  assumes "invalidate_batch env snap p reason clk cs sid bar d = (hit, jobs, d')"
  shows batch_invalidates: "invalidates snap p clk (set cs) d d'"
    and batch_count: "hit = 0 \<longleftrightarrow> (\<forall>c\<in>set cs. no_current_head snap c d)"
proof -
  let ?f = "fold (invalidate_claim env snap p reason clk) cs (0, 0, d)"
  obtain h j d1 where f: "?f = (h, j, d1)" by (cases ?f)
  have same: "db_heads d' = db_heads d1" "graph_rows d' = graph_rows d1" "db_jobs d' = db_jobs d1" "hit = h"
    using assms f by (auto simp: invalidate_batch_def split: option.splits prod.splits)
  note j = jobs_cong [OF same(3)]
  have "db_heads d' = tbl_update (\<lambda>r. \<exists>c\<in>set cs. is_current_head snap c r) (demote p clk) (db_heads d)"
    using fold_heads [of env snap p reason clk cs "(0, 0, d)"] f same(1) by simp
  moreover have "graph_rows d' = graph_rows d"
    using graph_rows_fold [of env snap p reason clk cs "(0, 0, d)"] f same(2) by simp
  moreover have "has_active_job c snap d \<Longrightarrow> has_active_job c snap d'" for c
    using fold_jobs(1) [of c snap "(0, 0, d)" env snap p reason clk cs] f j by simp
  moreover have "one_active_job d \<Longrightarrow> one_active_job d'"
    using fold_jobs(2) [of "(0, 0, d)" env snap p reason clk cs] f j by simp
  moreover have "c \<in> set cs \<Longrightarrow> \<not> no_current_head snap c d \<Longrightarrow> has_active_job c snap d'" for c
    using fold_queues [of c cs snap "(0, 0, d)" env p reason clk] f j by simp
  ultimately show "invalidates snap p clk (set cs) d d'" by (simp add: invalidates_def)
  show "hit = 0 \<longleftrightarrow> (\<forall>c\<in>set cs. no_current_head snap c d)"
    using fold_count [of 0 env snap p reason clk cs 0 d] f same(4) by simp
qed

lemma batch_graph:
  "invalidate_batch env snap p reason clk cs sid bar d = (hit, jobs, d') \<Longrightarrow> graph_rows d' = graph_rows d"
  using batch_invalidates by (auto simp: invalidates_def)

lemma edges_cong: "graph_rows d' = graph_rows d \<Longrightarrow> evidential_edges d' = evidential_edges d"
  by (simp add: graph_rows_eq evidential_edges_def)

lemma snapshot_cong: "db_config_heads d' = db_config_heads d \<Longrightarrow> effective_snapshot_id d' = effective_snapshot_id d"
  by (simp add: effective_snapshot_id_def)

lemma manifest_frame:
  assumes "get_or_create_manifest env c d = Inr (m, sha, d')"
  shows "db_heads d' = db_heads d" "db_jobs d' = db_jobs d" "db_dependencies d' = db_dependencies d"
    "db_revisions d' = db_revisions d" "db_config_heads d' = db_config_heads d" "db_barriers d' = db_barriers d"
    "db_now d' = db_now d" "tbl_get cm_id (cm_id m) (db_manifests d') = Some m"
    "cm_id m = cm_id (manifest_for env (db_now d) c)" "sha = cm_sha256 (manifest_for env (db_now d) c)"
proof -
  let ?row = "manifest_for env (db_now d) c"
  have "tbl_get cm_id (cm_id ?row) (db_manifests d) = Some m \<and> sha = cm_sha256 ?row \<and> d' = d
      \<or> tbl_get cm_id (cm_id ?row) (db_manifests d) = None \<and> m = ?row \<and> sha = cm_sha256 ?row
        \<and> d' = d\<lparr>db_manifests := db_manifests d @ [?row]\<rparr>"
    using assms by (auto simp: get_or_create_manifest_def Let_def split: option.splits if_splits)
  then show "db_heads d' = db_heads d" "db_jobs d' = db_jobs d" "db_dependencies d' = db_dependencies d"
    "db_revisions d' = db_revisions d" "db_config_heads d' = db_config_heads d" "db_barriers d' = db_barriers d"
    "db_now d' = db_now d" "tbl_get cm_id (cm_id m) (db_manifests d') = Some m"
    "cm_id m = cm_id (manifest_for env (db_now d) c)" "sha = cm_sha256 (manifest_for env (db_now d) c)"
    using tbl_get_SomeD [of cm_id "cm_id ?row" "db_manifests d" m] by (auto simp: tbl_get_append)
qed

lemma bump_knowledgeE:
  assumes "bump_knowledge_revision d = Inr (k, d')"
  obtains r where "get_revision d ''knowledge'' = Some r" "k = rev_revision r + 1"
    "d' = d\<lparr>db_revisions := tbl_update (\<lambda>r. rev_scope r = ''knowledge'')
          (\<lambda>r. r\<lparr>rev_revision := rev_revision r + 1, rev_updated_at := db_now d\<rparr>) (db_revisions d)\<rparr>"
  using assms by (auto simp: bump_knowledge_revision_def split: option.splits)

interpretation rev_bump: keyed_update rev_scope "\<lambda>r. r\<lparr>rev_revision := rev_revision r + 1, rev_updated_at := t\<rparr>" for t
  by unfold_locales simp

lemma finish_startE:
  assumes "finish_start call c sha mode bid hit jobs d = Inr (res, d')"
  shows "cs_mode res = mode" "cs_invalidated res = hit" "cs_barrier_id res = bid" "cs_closure_count res = closure_count c"
    and "db_heads d' = db_heads d" "db_jobs d' = db_jobs d" "db_dependencies d' = db_dependencies d"
    "db_barriers d' = db_barriers d" "db_manifests d' = db_manifests d" "db_config_heads d' = db_config_heads d"
    and "map_option rev_revision (get_revision d' ''knowledge'') =
      (if hit = 0 then map_option rev_revision (get_revision d ''knowledge'')
       else map_option (\<lambda>r. rev_revision r + 1) (get_revision d ''knowledge''))"
    and "get_revision d' ''dependency_graph'' = get_revision d ''dependency_graph''"
proof -
  have "\<exists>k d1. (if 0 < hit then map_sum id (map_prod Some id) (bump_knowledge_revision d) else Inr (None, d)) = Inr (k, d1)
      \<and> d' = cascade_started call res d1 \<and> cs_mode res = mode \<and> cs_invalidated res = hit \<and> cs_barrier_id res = bid
      \<and> cs_closure_count res = closure_count c"
    using assms by (auto simp: finish_start_def Let_def split: sum.splits)
  then obtain k d1 where b: "(if 0 < hit then map_sum id (map_prod Some id) (bump_knowledge_revision d) else Inr (None, d)) = Inr (k, d1)"
    and d': "d' = cascade_started call res d1" and res: "cs_mode res = mode" "cs_invalidated res = hit" "cs_barrier_id res = bid"
      "cs_closure_count res = closure_count c" by blast
  show "cs_mode res = mode" "cs_invalidated res = hit" "cs_barrier_id res = bid" "cs_closure_count res = closure_count c"
    by (fact res)+
  have "d1 = d \<and> hit = 0 \<or> 0 < hit \<and> (\<exists>k'. bump_knowledge_revision d = Inr (k', d1))"
    using b by (cases "bump_knowledge_revision d") (auto split: if_splits)
  then show "db_heads d' = db_heads d" "db_jobs d' = db_jobs d" "db_dependencies d' = db_dependencies d"
    "db_barriers d' = db_barriers d" "db_manifests d' = db_manifests d" "db_config_heads d' = db_config_heads d"
    "map_option rev_revision (get_revision d' ''knowledge'') =
      (if hit = 0 then map_option rev_revision (get_revision d ''knowledge'')
       else map_option (\<lambda>r. rev_revision r + 1) (get_revision d ''knowledge''))"
    "get_revision d' ''dependency_graph'' = get_revision d ''dependency_graph''"
    unfolding d'
    by (auto simp: cascade_started_def get_revision_def rev_bump.get_update_key option.map_comp o_def elim!: bump_knowledgeE)
qed

subsection \<open>The inline cascade\<close>

lemma start_cascadeE:
  assumes "start_cascade env got clk call d0 d = Inr (res, d')"
  obtains c snap m sha d1 h1 j1 d2
  where "got" "load_closure d0 (cc_root_claim_id call) = Inr c" "effective_snapshot_id d = Inr snap"
    "revision_of d ''dependency_graph'' = Inr (cr_graph_revision c)"
    "get_or_create_manifest env c d = Inr (m, sha, d1)"
    "invalidate_batch env snap (cc_actor call) (root_reason call) clk [cc_root_claim_id call]
       (cc_session_id call) None d1 = (h1, j1, d2)"
    "(if closure_count c \<le> INLINE_CLOSURE_LIMIT then
         let (hit', jobs', d3) = invalidate_batch env snap (cc_actor call) (cc_reason call) clk (cr_claim_ids c)
               (cc_session_id call) None d2
         in finish_start call c sha CM_inline None (h1 + hit') (j1 + jobs') d3
       else case open_barrier env clk call snap c m d2 of Inl e \<Rightarrow> Inl e | Inr (hit', jobs', bid, d3) \<Rightarrow>
         finish_start call c sha CM_barrier (Some bid) (h1 + hit') (j1 + jobs') d3) = Inr (res, d')"
proof -
  obtain c where c: "load_closure d0 (cc_root_claim_id call) = Inr c" and g: got
    and run: "run_cascade env clk call c d = Inr (res, d')"
    using assms by (auto simp: start_cascade_def writer_gate_def split: sum.splits if_splits)
  obtain snap where snap: "effective_snapshot_id d = Inr snap"
    using run by (cases "effective_snapshot_id d") (auto simp: run_cascade_def)
  obtain k where k: "revision_of d ''dependency_graph'' = Inr k"
    using run snap by (cases "revision_of d ''dependency_graph''") (auto simp: run_cascade_def)
  have eq: "k = cr_graph_revision c" using run snap k by (auto simp: run_cascade_def split: if_splits)
  obtain m sha d1 where m: "get_or_create_manifest env c d = Inr (m, sha, d1)"
    using run snap k eq by (cases "get_or_create_manifest env c d") (auto simp: run_cascade_def)
  obtain h1 j1 d2 where b: "invalidate_batch env snap (cc_actor call) (root_reason call) clk
      [cc_root_claim_id call] (cc_session_id call) None d1 = (h1, j1, d2)" by (metis prod_cases3)
  show ?thesis
    by (rule that [OF g c snap k [unfolded eq] m b])
      (use run in \<open>simp add: run_cascade_def snap k eq m b\<close>)
qed

lemma load_closureD:
  assumes "load_closure d r = Inr c"
  shows "set (cr_claim_ids c) = {x. x \<noteq> r \<and> (x, r) \<in> (set (evidential_edges d))\<^sup>+}" "cr_root c = r"
    "revision_of d ''dependency_graph'' = Inr (cr_graph_revision c)"
    "c = compute_reverse_closure (evidential_edges d) r (cr_graph_revision c)"
proof -
  obtain k where k: "revision_of d ''dependency_graph'' = Inr k" "c = compute_reverse_closure (evidential_edges d) r k"
    using assms by (auto simp: load_closure_def split: sum.splits)
  then have kc: "cr_graph_revision c = k" by (simp add: compute_reverse_closure_def Let_def)
  show "set (cr_claim_ids c) = {x. x \<noteq> r \<and> (x, r) \<in> (set (evidential_edges d))\<^sup>+}" by (simp add: k(2) closure_members)
  show "cr_root c = r" by (simp add: k(2) compute_reverse_closure_def Let_def)
  show "revision_of d ''dependency_graph'' = Inr (cr_graph_revision c)" "c = compute_reverse_closure (evidential_edges d) r (cr_graph_revision c)"
    using k kc by simp_all
qed

lemma insert_barrierE:
  assumes "insert_barrier b d = Inr d'"
  shows "barrier_checks b d = None" "d' = d\<lparr>db_barriers := db_barriers d @ [b]\<rparr>"
  using assms by (auto simp: insert_barrier_def split: option.splits)

lemma flush_barrierE:
  assumes "flush_barrier b d = Inr d'"
  shows "barrier_checks b d = None" "d' = d\<lparr>db_barriers := tbl_update (\<lambda>r. bar_id r = bar_id b) (\<lambda>r. b) (db_barriers d)\<rparr>"
  using assms by (auto simp: flush_barrier_def split: option.splits)

lemma open_barrierE:
  assumes "open_barrier env clk call snap c m d = Inr (hit, jobs, bid, d')"
  obtains d1 d2 b where "b = new_barrier call c m bid (db_now d)" "bid = db_uuid4 d (db_draws d)"
    "insert_barrier b (d\<lparr>db_draws := Suc (db_draws d)\<rparr>) = Inr d1"
    "invalidate_batch env snap (cc_actor call) (cc_reason call) clk (closure_batch c 0 BATCH_SIZE)
       (cc_session_id call) (Some (bid, 0)) d1 = (hit, jobs, d2)"
    "flush_barrier (b\<lparr>bar_next_offset := int (length (closure_batch c 0 BATCH_SIZE)),
       bar_status := if length (closure_batch c 0 BATCH_SIZE) < closure_count c then BS_ACTIVE else BS_CLOSING\<rparr>) d2 = Inr d'"
proof -
  let ?bid = "db_uuid4 d (db_draws d)"
  let ?b = "new_barrier call c m ?bid (db_now d)"
  obtain d1 where i: "insert_barrier ?b (d\<lparr>db_draws := Suc (db_draws d)\<rparr>) = Inr d1"
    using assms by (cases "insert_barrier ?b (d\<lparr>db_draws := Suc (db_draws d)\<rparr>)") (simp_all add: open_barrier_def uuid4_def)
  obtain h j d2 where v: "invalidate_batch env snap (cc_actor call) (cc_reason call) clk (closure_batch c 0 BATCH_SIZE)
      (cc_session_id call) (Some (?bid, 0)) d1 = (h, j, d2)" by (metis prod_cases3)
  let ?b1 = "?b\<lparr>bar_next_offset := int (length (closure_batch c 0 BATCH_SIZE)),
      bar_status := if length (closure_batch c 0 BATCH_SIZE) < closure_count c then BS_ACTIVE else BS_CLOSING\<rparr>"
  have "(case flush_barrier ?b1 d2 of Inl e \<Rightarrow> Inl e | Inr d4 \<Rightarrow> Inr (h, j, ?bid, d4)) = Inr (hit, jobs, bid, d')"
    using assms i v unfolding open_barrier_def uuid4_def Let_def prod.case by simp
  then have "flush_barrier ?b1 d2 = Inr d'" "h = hit" "j = jobs" "?bid = bid" by (simp_all split: sum.splits split del: if_split)
  with i v show ?thesis by (intro that) auto
qed

lemma open_barrier_frame:
  assumes "open_barrier env clk call snap c m d = Inr (hit, jobs, bid, d')"
  shows "evidential_edges d' = evidential_edges d"
  using assms
proof (cases rule: open_barrierE)
  case (1 d1 d2 b)
  show ?thesis using batch_graph [OF 1(4)] insert_barrierE(2) [OF 1(3)] flush_barrierE(2) [OF 1(5)]
    by (simp add: evidential_edges_def graph_rows_eq)
qed

lemma start_edges:
  assumes "start_cascade env got clk call d0 d = Inr (res, d')"
  shows "evidential_edges d' = evidential_edges d"
  using assms
proof (cases rule: start_cascadeE)
  case (1 c snap m sha d1 h1 j1 d2)
  have "evidential_edges d1 = evidential_edges d" using manifest_frame(3) [OF 1(5)] by (simp add: evidential_edges_def)
  then have e: "evidential_edges d2 = evidential_edges d" using edges_cong [OF batch_graph [OF 1(6)]] by simp
  show ?thesis
  proof (cases "closure_count c \<le> INLINE_CLOSURE_LIMIT")
    case True
    obtain h2 j2 d3 where b: "invalidate_batch env snap (cc_actor call) (cc_reason call) clk (cr_claim_ids c)
      (cc_session_id call) None d2 = (h2, j2, d3)" by (metis prod_cases3)
    with 1(7) True have "finish_start call c sha CM_inline None (h1 + h2) (j1 + j2) d3 = Inr (res, d')" by simp
    from finish_startE(7) [OF this] batch_graph [OF b] e show ?thesis by (simp add: evidential_edges_def graph_rows_eq)
  next
    case False
    then obtain h2 j2 b d3 where o: "open_barrier env clk call snap c m d2 = Inr (h2, j2, b, d3)"
      and f: "finish_start call c sha CM_barrier (Some b) (h1 + h2) (j1 + j2) d3 = Inr (res, d')"
      using 1(7) by (auto split: sum.splits)
    from finish_startE(7) [OF f] open_barrier_frame [OF o] e show ?thesis by (simp add: evidential_edges_def)
  qed
qed

subsection \<open>What an inline cascade leaves alone\<close>

text \<open>The tables no cascade without a barrier writes.\<close>

definition outside_cascade :: "db \<Rightarrow> session_row list \<times> attempt_row list \<times> gate_row list \<times> staging_row list \<times>
    admission_row list \<times> claim_row list \<times> dependency_row list \<times> assessment_row list \<times> evidence_row list \<times>
    config_head_row list \<times> barrier_row list" where
  "outside_cascade d = (db_sessions d, db_attempts d, db_gates d, db_staging d, db_admissions d, db_claims d,
     db_dependencies d, db_assessments d, db_evidence d, db_config_heads d, db_barriers d)"

text \<open>Such a cascade only appends: queued jobs for claims of \<open>C\<close> and questions about lost assessments.\<close>

definition only_queues :: "uuid \<Rightarrow> uuid set \<Rightarrow> db \<Rightarrow> db \<Rightarrow> bool" where
  "only_queues snap C d d' \<longleftrightarrow> outside_cascade d' = outside_cascade d
     \<and> (\<exists>js. db_jobs d' = db_jobs d @ js \<and> (\<forall>j\<in>set js. job_claim_id j \<in> C
          \<and> job_target_config_snapshot_id j = snap \<and> job_status j = RJ_QUEUED))
     \<and> (\<exists>qs. db_questions d' = db_questions d @ qs \<and> (\<forall>q\<in>set qs. q_origin q = QO_INVALID_ASSESSMENT))"

lemma only_queues_same:
  assumes "outside_cascade d' = outside_cascade d" and "db_jobs d' = db_jobs d" and "db_questions d' = db_questions d"
  shows "only_queues snap C d d'"
  using assms by (simp add: only_queues_def)

lemma only_queues_trans:
  assumes "only_queues snap C d d1" and "only_queues snap C d1 d2"
  shows "only_queues snap C d d2"
proof -
  from assms(1) obtain js qs where a: "outside_cascade d1 = outside_cascade d" "db_jobs d1 = db_jobs d @ js"
    "\<forall>j\<in>set js. job_claim_id j \<in> C \<and> job_target_config_snapshot_id j = snap \<and> job_status j = RJ_QUEUED"
    "db_questions d1 = db_questions d @ qs" "\<forall>q\<in>set qs. q_origin q = QO_INVALID_ASSESSMENT"
    unfolding only_queues_def by blast
  from assms(2) obtain js' qs' where b: "outside_cascade d2 = outside_cascade d1" "db_jobs d2 = db_jobs d1 @ js'"
    "\<forall>j\<in>set js'. job_claim_id j \<in> C \<and> job_target_config_snapshot_id j = snap \<and> job_status j = RJ_QUEUED"
    "db_questions d2 = db_questions d1 @ qs'" "\<forall>q\<in>set qs'. q_origin q = QO_INVALID_ASSESSMENT"
    unfolding only_queues_def by blast
  have "db_jobs d2 = db_jobs d @ (js @ js')" "db_questions d2 = db_questions d @ (qs @ qs')"
    using a b by simp_all
  then show ?thesis unfolding only_queues_def using a(1,3,5) b(1,3,5) by (metis UnE set_append)
qed

lemma only_queues_steps:
  "only_queues snap C d (snd (invalidate_head snap p clk c d))"
  "c \<in> C \<Longrightarrow> only_queues snap C d (snd (enqueue_job snap reason c d))"
  "only_queues snap C d (snd (enqueue_invalid_question env snap c d))"
  "only_queues snap C d (record_event ty sid pl a sm v d)"
  by (simp add: only_queues_def outside_cascade_def invalidate_head_def split: option.split,
      simp add: only_queues_def outside_cascade_def enqueue_job_def uuid4_def queued_job_def,
      simp add: only_queues_def outside_cascade_def enqueue_invalid_question_def Let_def,
      simp add: only_queues_def outside_cascade_def)

lemma claim_only_queues:
  assumes "\<not> no_current_head snap c (snd (snd s)) \<Longrightarrow> c \<in> C"
  shows "only_queues snap C (snd (snd s)) (snd (snd (invalidate_claim env snap p reason clk c s)))"
proof (cases s)
  case (fields i j d)
  let ?d1 = "snd (invalidate_head snap p clk c d)"
  let ?d2 = "snd (enqueue_job snap reason c ?d1)"
  have "only_queues snap C d (snd (enqueue_invalid_question env snap c ?d2))" if "c \<in> C"
    by (rule only_queues_trans [OF only_queues_trans [OF only_queues_steps(1) only_queues_steps(2) [OF that]] only_queues_steps(3)])
  then show ?thesis using assms unfolding fields by (simp add: invalidate_claim_eq Let_def only_queues_same)
qed

lemma fold_only_queues:
  "(\<And>c. c \<in> set cs \<Longrightarrow> \<not> no_current_head snap c (snd (snd s)) \<Longrightarrow> c \<in> C) \<Longrightarrow>
   only_queues snap C (snd (snd s)) (snd (snd (fold (invalidate_claim env snap p reason clk) cs s)))"
proof (induction cs arbitrary: s)
  case (Cons c cs)
  let ?s = "invalidate_claim env snap p reason clk c s"
  have one: "only_queues snap C (snd (snd s)) (snd (snd ?s))"
    by (rule claim_only_queues) (use Cons.prems [of c] in simp)
  have rest: "x \<in> C" if "x \<in> set cs" "\<not> no_current_head snap x (snd (snd ?s))" for x
    using that Cons.prems [of x] no_current_after_update [of snap x s c env p reason clk] by auto
  show ?case using only_queues_trans [OF one Cons.IH [OF rest]] by simp
qed (simp add: only_queues_same)

lemma batch_only_queues:
  assumes "invalidate_batch env snap p reason clk cs sid None d = (hit, jobs, d')"
    and "\<And>c. c \<in> set cs \<Longrightarrow> \<not> no_current_head snap c d \<Longrightarrow> c \<in> C"
  shows "only_queues snap C d d'"
  using fold_only_queues [of cs snap "(0, 0, d)" C env p reason clk] assms
  by (simp add: invalidate_batch_def split: prod.splits)

lemma manifest_only_queues:
  assumes "get_or_create_manifest env c d = Inr (m, sha, d')"
  shows "only_queues snap C d d'"
  using assms by (intro only_queues_same)
    (auto simp: get_or_create_manifest_def outside_cascade_def Let_def split: option.splits if_splits)

lemma finish_only_queues:
  assumes "finish_start call c sha mode bid hit jobs d = Inr (res, d')"
  shows "only_queues snap C d d'"
proof -
  obtain d1 r where d1: "d' = cascade_started call r d1" "d1 = d \<or> (\<exists>k. bump_knowledge_revision d = Inr (k, d1))"
    using assms by (cases "bump_knowledge_revision d") (auto simp: finish_start_def Let_def split: if_splits)
  then have "outside_cascade d' = outside_cascade d \<and> db_jobs d' = db_jobs d \<and> db_questions d' = db_questions d"
    by (auto simp: outside_cascade_def cascade_started_def elim!: bump_knowledgeE)
  then show ?thesis by (simp add: only_queues_same)
qed

text \<open>
  C7.  A cascade small enough to run inline invalidates everything that rests on the root, and only
  that.  Assume that two databases with the same dependency graph revision have the same evidential
  edges.  After a successful inline cascade neither the root nor any claim that depends on it, directly
  or through others, has a current head under the active configuration; the heads table changed exactly
  in those current heads; every such claim that had a current head has an active reassessment job (a
  claim without one gets none).  Nothing else is touched: jobs are only added, queued for those claims
  under that configuration, and no claim gets a second active job; questions are only added; sessions,
  attempts, gates, staging, admissions, claims, edges, assessments, evidence, configuration heads and
  barriers are unchanged; and the knowledge revision moves by one exactly when some head was
  invalidated.
\<close>

theorem inline_cascade_reaches_every_dependent:
  assumes "start_cascade env got clk call d0 d = Inr (res, d')" and "cs_mode res = CM_inline"
    and "effective_snapshot_id d = Inr snap"
    and "revision_of d ''dependency_graph'' = revision_of d0 ''dependency_graph'' \<Longrightarrow>
      evidential_edges d = evidential_edges d0"
  shows "(\<forall>x. (x, cc_root_claim_id call) \<in> (set (evidential_edges d'))\<^sup>* \<longrightarrow>
        no_current_head snap x d' \<and> (\<not> no_current_head snap x d \<longrightarrow> has_active_job x snap d'))
    \<and> db_heads d' = tbl_update (\<lambda>r. is_current_head snap (hd_claim_id r) r
          \<and> (hd_claim_id r, cc_root_claim_id call) \<in> (set (evidential_edges d'))\<^sup>*) (demote (cc_actor call) clk) (db_heads d)
    \<and> only_queues snap {x. (x, cc_root_claim_id call) \<in> (set (evidential_edges d'))\<^sup>* \<and> \<not> no_current_head snap x d} d d'
    \<and> (one_active_job d \<longrightarrow> one_active_job d')
    \<and> map_option rev_revision (get_revision d' ''knowledge'') =
        map_option (\<lambda>r. rev_revision r +
          (if \<forall>x. (x, cc_root_claim_id call) \<in> (set (evidential_edges d'))\<^sup>* \<longrightarrow> no_current_head snap x d then 0 else 1))
        (get_revision d ''knowledge'')"
  using assms(1)
proof (cases rule: start_cascadeE)
  case (1 c snap' m sha d1 h1 j1 d2)
  let ?r = "cc_root_claim_id call"
  have s: "snap' = snap" using 1(3) assms(3) by simp
  note root = 1(6) [unfolded s]
  obtain h2 j2 d3 where rest: "invalidate_batch env snap (cc_actor call) (cc_reason call) clk (cr_claim_ids c)
      (cc_session_id call) None d2 = (h2, j2, d3)" by (metis prod_cases3)
  have fin: "finish_start call c sha CM_inline None (h1 + h2) (j1 + j2) d3 = Inr (res, d')"
  proof (cases "closure_count c \<le> INLINE_CLOSURE_LIMIT")
    case False
    then obtain h j b d4 where "finish_start call c sha CM_barrier (Some b) h j d4 = Inr (res, d')"
      using 1(7) by (auto split: sum.splits)
    from finish_startE(1) [OF this] assms(2) show ?thesis by simp
  qed (use 1(7) rest s in simp)
  note f = finish_startE [OF fin] and m = manifest_frame [OF 1(5)]
  let ?C = "set [?r] \<union> set (cr_claim_ids c)"
  have inv: "invalidates snap (cc_actor call) clk ?C d1 d3"
    by (rule invalidates_trans [OF batch_invalidates [OF root] batch_invalidates [OF rest]])
  have edges: "evidential_edges d' = evidential_edges d" "evidential_edges d = evidential_edges d0"
    using f(7) m(3) inv assms(4) 1(4) load_closureD(3) [OF 1(2)]
    by (simp_all add: evidential_edges_def graph_rows_eq invalidates_def)
  have C: "?C = {x. (x, ?r) \<in> (set (evidential_edges d'))\<^sup>*}"
    unfolding edges using load_closureD(1) [OF 1(2)] by (auto simp: rtrancl_eq_or_trancl)
  have "h1 + h2 = 0 \<longleftrightarrow> (\<forall>x\<in>?C. no_current_head snap x d1)"
    using batch_count [OF root] batch_count [OF rest] invalidates_current [OF batch_invalidates [OF root]] by auto
  then have K: "map_option rev_revision (get_revision d' ''knowledge'') =
      map_option (\<lambda>r. rev_revision r + (if \<forall>x\<in>?C. no_current_head snap x d1 then 0 else 1)) (get_revision d1 ''knowledge'')"
    using f(11) inv by (cases "get_revision d1 ''knowledge''") (auto simp: invalidates_def graph_rows_eq get_revision_def)
  have same: "db_heads d1 = db_heads d" "db_jobs d1 = db_jobs d" "db_revisions d1 = db_revisions d"
    "db_heads d' = db_heads d3" "db_jobs d' = db_jobs d3" using f m by simp_all
  have cur: "no_current_head snap x d1 = no_current_head snap x d" "no_current_head snap x d' = no_current_head snap x d3" for x
    using same by (simp_all add: no_current_head_def)
  have "no_current_head snap x d' \<and> (\<not> no_current_head snap x d \<longrightarrow> has_active_job x snap d')" if "x \<in> ?C" for x
    using that inv [unfolded invalidates_def] invalidates_current [OF inv, of x] cur [of x] jobs_cong(1) [OF same(5), of x snap]
    by blast
  moreover have "db_heads d' = tbl_update (\<lambda>r. is_current_head snap (hd_claim_id r) r \<and> hd_claim_id r \<in> ?C)
      (demote (cc_actor call) clk) (db_heads d)"
  proof -
    have "(\<lambda>r. \<exists>c\<in>?C. is_current_head snap c r) = (\<lambda>r. is_current_head snap (hd_claim_id r) r \<and> hd_claim_id r \<in> ?C)"
      by (auto simp: is_current_head_def fun_eq_iff)
    with inv same show ?thesis by (simp add: invalidates_def)
  qed
  moreover have "only_queues snap {x \<in> ?C. \<not> no_current_head snap x d} d d'"
  proof -
    let ?D = "{x \<in> ?C. \<not> no_current_head snap x d}"
    have a: "only_queues snap ?D d1 d2"
    proof (rule batch_only_queues [OF root])
      fix x assume x: "x \<in> set [?r]" "\<not> no_current_head snap x d1"
      from x(2) have "\<not> no_current_head snap x d" unfolding cur(1) .
      with x(1) show "x \<in> ?D" by simp
    qed
    have b: "only_queues snap ?D d2 d3"
    proof (rule batch_only_queues [OF rest])
      fix x assume x: "x \<in> set (cr_claim_ids c)" "\<not> no_current_head snap x d2"
      then have "\<not> no_current_head snap x d1" using invalidates_current [OF batch_invalidates [OF root], of x] by blast
      then have "\<not> no_current_head snap x d" unfolding cur(1) .
      with x(1) show "x \<in> ?D" by simp
    qed
    show ?thesis
      by (rule only_queues_trans [OF manifest_only_queues [OF 1(5)]
            only_queues_trans [OF a only_queues_trans [OF b finish_only_queues [OF fin]]]])
  qed
  moreover have "one_active_job d \<longrightarrow> one_active_job d'"
    using inv jobs_cong(2) [OF same(2)] jobs_cong(2) [OF same(5)] by (simp add: invalidates_def)
  moreover note K [unfolded cur get_revision_def same(3), folded get_revision_def]
  ultimately show ?thesis unfolding C by simp
qed

text \<open>A chain of three claims, all current: 4 depends on 3 and 3 on 2.\<close>

definition chain_env :: cascade_env where
  "chain_env = \<lparr>cv_host = plain_host, cv_uuid5 = (\<lambda>ns name. 500 + length name), cv_reask = ''Reassess: ''\<rparr>"

definition current_head :: "uuid \<Rightarrow> head_row" where
  "current_head c = \<lparr>hd_claim_id = c, hd_config_snapshot_id = 1, hd_assessment_state = AS_CURRENT,
     hd_current_assessment_id = Some (c + 100), hd_epistemic_status = Some ES_SUPPORTED, hd_prepared_by = ''commit'', hd_updated_at = 0\<rparr>"

definition edge :: "uuid \<Rightarrow> uuid \<Rightarrow> dependency_row" where
  "edge f t = \<lparr>dep_id = 200 + f, dep_from_claim_id = f, dep_to_claim_id = t, dep_kind = DEP_EVIDENTIAL,
     dep_created_in_session = None, dep_created_at = 0\<rparr>"

definition chain_db :: db where
  "chain_db = empty_db\<lparr>db_dependencies := [edge 3 2, edge 4 3], db_heads := [current_head 2, current_head 3, current_head 4]\<rparr>"

definition chain_call :: cascade_call where
  "chain_call = \<lparr>cc_root_claim_id = 2, cc_reason = ''retracted'', cc_actor = ''system:cascade'', cc_session_id = None\<rparr>"

lemma chain_edges: "evidential_edges chain_db = [(3, 2), (4, 3)]"
  by (simp add: evidential_edges_def chain_db_def edge_def)

lemma chain_closure:
  "load_closure chain_db 2 = Inr \<lparr>cr_root = 2, cr_graph_revision = 0, cr_claim_ids = [3, 4], cr_ranks = [(uuid_str 3, 1), (uuid_str 4, 2)]\<rparr>"
proof -
  have "walk_levels (reverse_edges [(3, 2), (4, 3)]) [2] [] [2] 0 = [(3, 1), (4, 2)]"
    by (simp add: reverse_edges_def bucket_def dict_append_def visit_level_def dependents_of_def visit_def walk_levels.simps)
  moreover have "revision_of chain_db ''dependency_graph'' = Inr 0"
    by (simp add: revision_of_def get_revision_def chain_db_def empty_db_def)
  ultimately show ?thesis by (simp add: load_closure_def chain_edges compute_reverse_closure_def)
qed

lemma chain_start:
  "\<exists>res d'. start_cascade chain_env True (\<lambda>c. 0) chain_call chain_db chain_db = Inr (res, d') \<and> cs_mode res = CM_inline"
proof -
  obtain m sha d1 where m: "get_or_create_manifest chain_env \<lparr>cr_root = 2, cr_graph_revision = 0, cr_claim_ids = [3, 4],
      cr_ranks = [(uuid_str 3, 1), (uuid_str 4, 2)]\<rparr> chain_db = Inr (m, sha, d1)"
    by (simp add: get_or_create_manifest_def Let_def chain_db_def empty_db_def)
  obtain h1 j1 d2 where b1: "invalidate_batch chain_env 1 ''system:cascade'' (root_reason chain_call) (\<lambda>c. 0) [2] None None d1 = (h1, j1, d2)"
    by (metis prod_cases3)
  obtain h2 j2 d3 where b2: "invalidate_batch chain_env 1 ''system:cascade'' ''retracted'' (\<lambda>c. 0) [3, 4] None None d2 = (h2, j2, d3)"
    by (metis prod_cases3)
  have "get_revision d3 ''knowledge'' = get_revision chain_db ''knowledge''"
    using batch_invalidates [OF b1] batch_invalidates [OF b2] manifest_frame(4) [OF m]
    by (simp add: invalidates_def graph_rows_eq get_revision_def)
  then have "\<exists>k d4. bump_knowledge_revision d3 = Inr (k, d4)"
    by (simp add: bump_knowledge_revision_def get_revision_def chain_db_def empty_db_def)
  moreover have "revision_of chain_db ''dependency_graph'' = Inr 0" "effective_snapshot_id chain_db = Inr 1"
    by (simp_all add: revision_of_def get_revision_def effective_snapshot_id_def chain_db_def empty_db_def)
  moreover have c: "cc_root_claim_id chain_call = 2" "cc_actor chain_call = ''system:cascade''" "cc_reason chain_call = ''retracted''"
    "cc_session_id chain_call = None" by (simp_all add: chain_call_def)
  ultimately show ?thesis
    using b1 b2 m by (auto simp: start_cascade_def writer_gate_def run_cascade_def chain_closure closure_count_def
        INLINE_CLOSURE_LIMIT_def finish_start_def Let_def simp del: One_nat_def)
qed

theorem inline_cascade_reaches_every_dependent_witness:
  "\<exists>res d'. start_cascade chain_env True (\<lambda>c. 0) chain_call chain_db chain_db = Inr (res, d')
     \<and> \<not> no_current_head 1 4 chain_db \<and> no_current_head 1 4 d' \<and> has_active_job 4 1 d'"
proof -
  obtain res d' where st: "start_cascade chain_env True (\<lambda>c. 0) chain_call chain_db chain_db = Inr (res, d')"
    and mode: "cs_mode res = CM_inline" using chain_start by blast
  have snap: "effective_snapshot_id chain_db = Inr 1" by (simp add: effective_snapshot_id_def chain_db_def empty_db_def)
  have cur: "\<not> no_current_head 1 4 chain_db"
    by (simp add: no_current_head_def chain_db_def current_head_def is_current_head_def)
  have edges: "evidential_edges d' = evidential_edges chain_db" using st
    by (rule start_edges)
  have c: "cc_root_claim_id chain_call = 2" by (simp add: chain_call_def)
  have "(3, 2) \<in> set (evidential_edges d')" "(4, 3) \<in> set (evidential_edges d')" by (simp_all add: edges chain_edges)
  then have "(4, cc_root_claim_id chain_call) \<in> (set (evidential_edges d'))\<^sup>*"
    by (metis c converse_rtrancl_into_rtrancl r_into_rtrancl)
  with inline_cascade_reaches_every_dependent [OF st mode snap, THEN conjunct1] cur
  have "no_current_head 1 4 d' \<and> has_active_job 4 1 d'" by blast
  with st cur show ?thesis by blast
qed

subsection \<open>The barrier\<close>

lemma revision_cong: "db_revisions d' = db_revisions d \<Longrightarrow> revision_of d' sc = revision_of d sc"
  by (simp add: revision_of_def get_revision_def)

lemma publish_generationE:
  assumes "publish_generation env call b d = Inr (b1, d1)"
  obtains c m sha d2 where "load_closure d (bar_root_claim_id b) = Inr c" "get_or_create_manifest env c d = Inr (m, sha, d2)"
    "b1 = b\<lparr>bar_generation := bar_generation b + 1, bar_graph_revision := cr_graph_revision c,
       bar_closure_manifest_id := Some (cm_id m), bar_member_count := int (closure_count c), bar_next_offset := 0,
       bar_status := if closure_count c = 0 then BS_CLOSING else BS_ACTIVE, bar_last_error := None\<rparr>"
    "graph_rows d1 = graph_rows d2" "db_heads d1 = db_heads d2"
proof -
  obtain c where c: "load_closure d (bar_root_claim_id b) = Inr c"
    using assms by (cases "load_closure d (bar_root_claim_id b)") (simp_all add: publish_generation_def)
  obtain m sha d2 where m: "get_or_create_manifest env c d = Inr (m, sha, d2)"
    using assms c by (cases "get_or_create_manifest env c d") (auto simp: publish_generation_def)
  show ?thesis by (rule that [OF c m]) (use assms c m in \<open>auto simp: publish_generation_def Let_def\<close>)
qed

lemma apply_windowE:
  assumes "apply_window env clk call snap b d = Inr (Inr (hit, b1, d1))"
  obtains m ordered where "bar_closure_manifest_id b = Some (cm_id m)" "tbl_get cm_id (cm_id m) (db_manifests d) = Some m"
    "as_uuids (cv_host env) (cm_claim_ids m) = Inr ordered" "int (length ordered) = cm_count m"
    "bar_next_offset b \<le> cm_count m" "invalidates snap (bc_actor call) clk
       (set (take BATCH_SIZE (drop (nat (bar_next_offset b)) ordered)) \<inter> {x. bar_next_offset b < cm_count m}) d d1"
    "b1 = b\<lparr>bar_next_offset := bar_next_offset b1, bar_status := bar_status b1\<rparr>"
    "bar_status b1 = (if cm_count m \<le> bar_next_offset b1 then BS_CLOSING else bar_status b)"
    "bar_next_offset b1 = (if bar_next_offset b < cm_count m
       then bar_next_offset b + int (length (take BATCH_SIZE (drop (nat (bar_next_offset b)) ordered))) else bar_next_offset b)"
proof -
  obtain i m where im: "bar_closure_manifest_id b = Some i" "tbl_get cm_id i (db_manifests d) = Some m"
    using assms by (auto simp: apply_window_def split: option.splits)
  then have id: "i = cm_id m" using tbl_get_SomeD by metis
  have v: "verify_manifest (cv_host env) m = None"
    using assms im by (cases "verify_manifest (cv_host env) m") (simp_all add: apply_window_def)
  obtain ordered where o: "as_uuids (cv_host env) (cm_claim_ids m) = Inr ordered"
    using assms im v by (cases "as_uuids (cv_host env) (cm_claim_ids m)") (simp_all add: apply_window_def)
  have ln: "int (length ordered) = cm_count m" and le: "bar_next_offset b \<le> cm_count m"
    using assms im v o by (auto simp: apply_window_def split: if_splits)
  define w where w: "w = take BATCH_SIZE (drop (nat (bar_next_offset b)) ordered)"
  obtain h j d' where bt: "invalidate_batch env snap (bc_actor call) ''barrier batch'' clk w
      (bc_session_id call) (Some (bar_id b, bar_next_offset b)) d = (h, j, d')" by (metis prod_cases3)
  have eq: "(let (hit, b1, d1) = (if bar_next_offset b < cm_count m
        then (h, b\<lparr>bar_next_offset := bar_next_offset b + int (length w)\<rparr>, d') else (0, b, d))
      in (hit, if cm_count m \<le> bar_next_offset b1 then b1\<lparr>bar_status := BS_CLOSING\<rparr> else b1, d1)) = (hit, b1, d1)"
    using assms im v o ln le bt by (simp add: apply_window_def w [symmetric] split: if_splits)
  show ?thesis
  proof (cases "bar_next_offset b < cm_count m")
    case True
    then have e: "d1 = d'" "b1 = (let b' = b\<lparr>bar_next_offset := bar_next_offset b + int (length w)\<rparr>
        in if cm_count m \<le> bar_next_offset b' then b'\<lparr>bar_status := BS_CLOSING\<rparr> else b')" using eq by (simp_all add: Let_def)
    have b1: "bar_next_offset b1 = bar_next_offset b + int (length w)"
      "bar_status b1 = (if cm_count m \<le> bar_next_offset b1 then BS_CLOSING else bar_status b)"
      "b1 = b\<lparr>bar_next_offset := bar_next_offset b1, bar_status := bar_status b1\<rparr>" by (simp_all add: e(2) Let_def)
    have c: "invalidates snap (bc_actor call) clk (set w \<inter> {x. bar_next_offset b < cm_count m}) d d1"
      "bar_next_offset b1 = (if bar_next_offset b < cm_count m then bar_next_offset b + int (length w) else bar_next_offset b)"
      using batch_invalidates [OF bt] e(1) b1(1) True by simp_all
    show ?thesis by (rule that [OF im [unfolded id] o ln le c(1) [unfolded w] b1(3,2) c(2) [unfolded w]])
  next
    case False
    then have e: "d1 = d" "b1 = b\<lparr>bar_status := BS_CLOSING\<rparr>" using eq le by (simp_all add: Let_def)
    have "invalidates snap (bc_actor call) clk {} d d" by (simp add: invalidates_def tbl_update_none)
    then show ?thesis by (intro that [of m ordered]) (use False im id o ln le e in simp_all)
  qed
qed

lemma final_scanE:
  assumes "final_scan call snap live b d = Inr (b1, d1)"
  shows "graph_rows d1 = graph_rows d" "db_heads d1 = db_heads d"
    "b1 = b\<lparr>bar_status := bar_status b1, bar_last_error := bar_last_error b1, bar_resolved_at := bar_resolved_at b1\<rparr>"
    "bar_status b1 = BS_RESOLVED \<or> bar_status b1 = BS_DISCOVERING \<and> bar_closure_manifest_id b1 = bar_closure_manifest_id b"
    "bar_status b1 = BS_RESOLVED \<Longrightarrow> live = bar_graph_revision b \<and> live_current_descendants d (bar_root_claim_id b) snap = Inr []"
  using assms by (auto simp: final_scan_def split: sum.splits if_splits)

lemma live_current_none:
  assumes "live_current_descendants d r snap = Inr []" and "x \<noteq> r" and "(x, r) \<in> (set (evidential_edges d))\<^sup>+"
  shows "no_current_head snap x d"
proof -
  obtain k where "revision_of d ''dependency_graph'' = Inr k"
    using assms(1) by (auto simp: live_current_descendants_def split: sum.splits)
  moreover have "x \<in> set (cr_claim_ids (compute_reverse_closure (evidential_edges d) r k))"
    using assms(2,3) by (simp add: closure_members)
  ultimately show ?thesis using assms(1)
    by (auto simp: live_current_descendants_def Let_def no_current_head_def list_ex_iff is_current_head_def filter_empty_conv
        split: if_splits)
qed

lemma bump_frame:
  assumes "(if 0 < hit then map_sum id snd (bump_knowledge_revision d) else Inr d) = Inr d'"
  shows "db_heads d' = db_heads d" "db_dependencies d' = db_dependencies d" "db_barriers d' = db_barriers d"
    "db_manifests d' = db_manifests d" "db_config_heads d' = db_config_heads d"
    "get_revision d' ''dependency_graph'' = get_revision d ''dependency_graph''" "db_jobs d' = db_jobs d"
proof -
  have "d' = d \<or> (\<exists>k. bump_knowledge_revision d = Inr (k, d'))"
    using assms by (cases "bump_knowledge_revision d") (auto split: if_splits)
  then show "db_heads d' = db_heads d" "db_dependencies d' = db_dependencies d" "db_barriers d' = db_barriers d"
    "db_manifests d' = db_manifests d" "db_config_heads d' = db_config_heads d"
    "get_revision d' ''dependency_graph'' = get_revision d ''dependency_graph''" "db_jobs d' = db_jobs d"
    by (auto simp: get_revision_def rev_bump.get_update_key elim!: bump_knowledgeE)
qed

lemma finish_stepE:
  assumes "finish_step call t snap live hit b d = Inr (st, d')"
  obtains b1 d1 d2 where "(if bar_status b = BS_CLOSING then final_scan call snap live b d else Inr (b, d)) = Inr (b1, d1)"
    "(if 0 < hit then map_sum id snd (bump_knowledge_revision d1) else Inr d1) = Inr d2"
    "flush_barrier (b1\<lparr>bar_updated_at := t\<rparr>) d2 = Inr d'" "st = bar_status b1"
proof -
  obtain b1 d1 where f: "(if bar_status b = BS_CLOSING then final_scan call snap live b d else Inr (b, d)) = Inr (b1, d1)"
    using assms by (cases "if bar_status b = BS_CLOSING then final_scan call snap live b d else Inr (b, d)")
      (auto simp: finish_step_def)
  obtain d2 where k: "(if 0 < hit then map_sum id snd (bump_knowledge_revision d1) else Inr d1) = Inr d2"
    using assms unfolding finish_step_def f
    by (cases "if 0 < hit then map_sum id snd (bump_knowledge_revision d1) else Inr d1") auto
  show ?thesis by (rule that [OF f k]) (use assms in \<open>auto simp: finish_step_def f k split: sum.splits\<close>)
qed

lemma process_barrierE:
  assumes "process_barrier env got clk t call bid d = Inr (st, d')" and "tbl_get bar_id bid (db_barriers d) = Some b"
    and "bar_status b \<noteq> BS_RESOLVED"
  obtains snap live b1 d1 where "bar_status b \<noteq> BS_BLOCKED" "effective_snapshot_id d = Inr snap"
    "revision_of d ''dependency_graph'' = Inr live"
    "(if bar_status b = BS_DISCOVERING \<or> (bar_status b = BS_ACTIVE \<and> live \<noteq> bar_graph_revision b)
      then publish_generation env call b d else Inr (b, d)) = Inr (b1, d1)"
    "step_barrier env clk t call snap live b1 d1 = Inr (st, d')"
proof -
  have nb: "bar_status b \<noteq> BS_BLOCKED" using assms by (auto simp: process_barrier_def writer_gate_def split: if_splits)
  obtain snap where s: "effective_snapshot_id d = Inr snap"
    using assms nb by (cases "effective_snapshot_id d") (auto simp: process_barrier_def writer_gate_def split: if_splits)
  obtain live where l: "revision_of d ''dependency_graph'' = Inr live"
    using assms nb s by (cases "revision_of d ''dependency_graph''") (auto simp: process_barrier_def writer_gate_def split: if_splits)
  let ?p = "if bar_status b = BS_DISCOVERING \<or> (bar_status b = BS_ACTIVE \<and> live \<noteq> bar_graph_revision b)
      then publish_generation env call b d else Inr (b, d)"
  have c: "(case ?p of Inl e \<Rightarrow> Inl e | Inr (b1, d1) \<Rightarrow> step_barrier env clk t call snap live b1 d1) = Inr (st, d')"
    using assms nb s l unfolding process_barrier_def writer_gate_def by (simp split: if_split_asm split del: if_split)
  then obtain b1 d1 where p: "?p = Inr (b1, d1)" by (cases ?p) auto
  show ?thesis by (rule that [OF nb s l p]) (use c p in simp)
qed

lemma generation_facts:
  assumes "(if bar_status b = BS_DISCOVERING \<or> (bar_status b = BS_ACTIVE \<and> live \<noteq> bar_graph_revision b)
      then publish_generation env call b d else Inr (b, d)) = Inr (b1, d1)" and "revision_of d ''dependency_graph'' = Inr live"
  shows "bar_id b1 = bar_id b" "bar_root_claim_id b1 = bar_root_claim_id b" "db_heads d1 = db_heads d"
    "db_dependencies d1 = db_dependencies d" "db_revisions d1 = db_revisions d" "db_barriers d1 = db_barriers d"
    "bar_status b1 = bar_status b \<or> bar_status b1 = BS_ACTIVE \<or> bar_status b1 = BS_CLOSING"
    "bar_status b1 \<noteq> BS_DISCOVERING" "bar_status b1 = BS_ACTIVE \<Longrightarrow> bar_graph_revision b1 = live"
    "bar_resolved_at b1 = bar_resolved_at b"
    "bar_closure_manifest_id b1 = None \<Longrightarrow> bar_closure_manifest_id b = None \<and> bar_status b \<noteq> BS_DISCOVERING"
proof -
  let ?p = "bar_status b = BS_DISCOVERING \<or> (bar_status b = BS_ACTIVE \<and> live \<noteq> bar_graph_revision b)"
  have "bar_id b1 = bar_id b \<and> bar_root_claim_id b1 = bar_root_claim_id b \<and> db_heads d1 = db_heads d
    \<and> db_dependencies d1 = db_dependencies d \<and> db_revisions d1 = db_revisions d \<and> db_barriers d1 = db_barriers d
    \<and> (bar_status b1 = bar_status b \<or> bar_status b1 = BS_ACTIVE \<or> bar_status b1 = BS_CLOSING)
    \<and> bar_status b1 \<noteq> BS_DISCOVERING \<and> (bar_status b1 = BS_ACTIVE \<longrightarrow> bar_graph_revision b1 = live)
    \<and> bar_resolved_at b1 = bar_resolved_at b
    \<and> (bar_closure_manifest_id b1 = None \<longrightarrow> bar_closure_manifest_id b = None \<and> bar_status b \<noteq> BS_DISCOVERING)"
  proof (cases ?p)
    case True
    with assms(1) have "publish_generation env call b d = Inr (b1, d1)" by simp
    then show ?thesis
    proof (cases rule: publish_generationE)
      case (1 c m sha d2)
      note mf = manifest_frame [OF 1(2)]
      have "cr_graph_revision c = live" using load_closureD(3) [OF 1(1)] assms(2) by simp
      then show ?thesis using 1(4,5) mf unfolding 1(3) by (simp add: graph_rows_eq)
    qed
  qed (use assms(1) in auto)
  then show "bar_id b1 = bar_id b" "bar_root_claim_id b1 = bar_root_claim_id b" "db_heads d1 = db_heads d"
    "db_dependencies d1 = db_dependencies d" "db_revisions d1 = db_revisions d" "db_barriers d1 = db_barriers d"
    "bar_status b1 = bar_status b \<or> bar_status b1 = BS_ACTIVE \<or> bar_status b1 = BS_CLOSING"
    "bar_status b1 \<noteq> BS_DISCOVERING" "bar_status b1 = BS_ACTIVE \<Longrightarrow> bar_graph_revision b1 = live"
    "bar_resolved_at b1 = bar_resolved_at b"
    "bar_closure_manifest_id b1 = None \<Longrightarrow> bar_closure_manifest_id b = None \<and> bar_status b \<noteq> BS_DISCOVERING"
    by blast+
qed

end
