(* ===== verification/Barrier.thy ===== *)
theory Barrier
  imports Cascade
begin

section \<open>What a barrier guarantees\<close>

text \<open>
  Properties of \<open>process_barrier\<close> of \<open>packages/memory/cascade.py\<close>: a resolved barrier leaves no current
  dependent; a barrier that is left alone drains in a bounded number of calls; a manifest that was
  tampered with blocks it for good; and two situations in which the constraints of the table stop the
  code.
\<close>

subsection \<open>Resolution\<close>

interpretation bar_write: keyed_update bar_id "\<lambda>r. if bar_id r = bar_id b then b else r" for b
  by unfold_locales simp

lemma get_flushed:
  assumes "flush_barrier b d = Inr d'" and "tbl_get bar_id (bar_id b) (db_barriers d) \<noteq> None"
  shows "tbl_get bar_id (bar_id b) (db_barriers d') = Some b"
proof -
  have "db_barriers d' = tbl_update (\<lambda>r. bar_id r = bar_id b) (\<lambda>r. if bar_id r = bar_id b then b else r) (db_barriers d)"
    using flush_barrierE(2) [OF assms(1)] by (simp add: tbl_update_def)
  then show ?thesis using assms(2) by (auto simp: bar_write.get_update_key) (metis tbl_get_SomeD)
qed

lemma block_not_resolved: "block_barrier call b cls msg d = Inr (st, d') \<Longrightarrow> st = BS_BLOCKED"
  by (auto simp: block_barrier_def Let_def split: sum.splits)

lemma finish_step_resolved:
  assumes "finish_step call t snap live hit b d = Inr (BS_RESOLVED, d')" and "bar_status b \<noteq> BS_RESOLVED"
    and "tbl_get bar_id (bar_id b) (db_barriers d) \<noteq> None" and "revision_of d ''dependency_graph'' = Inr live"
  shows "(\<forall>x. x \<noteq> bar_root_claim_id b \<and> (x, bar_root_claim_id b) \<in> (set (evidential_edges d'))\<^sup>+ \<longrightarrow> no_current_head snap x d')
    \<and> evidential_edges d' = evidential_edges d
    \<and> (\<exists>b'. tbl_get bar_id (bar_id b) (db_barriers d') = Some b' \<and> bar_status b' = BS_RESOLVED
         \<and> revision_of d' ''dependency_graph'' = Inr (bar_graph_revision b'))"
  using assms(1)
proof (cases rule: finish_stepE)
  case (1 b1 d1 d2)
  have cl: "bar_status b = BS_CLOSING" using 1(1,4) assms(2) by (cases "bar_status b = BS_CLOSING") simp_all
  with 1(1) have fs: "final_scan call snap live b d = Inr (b1, d1)" by simp
  note s = final_scanE [OF fs]
  have live: "live = bar_graph_revision b" and none: "live_current_descendants d (bar_root_claim_id b) snap = Inr []"
    using s(5) 1(4) by simp_all
  note k = bump_frame [OF 1(2)] and f = flush_barrierE [OF 1(3)]
  have id: "bar_id b1 = bar_id b" "bar_graph_revision b1 = bar_graph_revision b"
    by (subst s(3), simp)+
  have same: "db_heads d' = db_heads d" "db_dependencies d' = db_dependencies d" "db_barriers d2 = db_barriers d"
    using s(1,2) k f(2) by (simp_all add: graph_rows_eq)
  have edges: "evidential_edges d' = evidential_edges d" using same(2) by (simp add: evidential_edges_def)
  have "get_revision d' ''dependency_graph'' = get_revision d ''dependency_graph''"
    using k(6) s(1) f(2) by (simp add: get_revision_def graph_rows_eq)
  then have "revision_of d' ''dependency_graph'' = Inr (bar_graph_revision b1)"
    using assms(4) live id by (simp add: revision_of_def)
  moreover have "tbl_get bar_id (bar_id b) (db_barriers d') = Some (b1\<lparr>bar_updated_at := t\<rparr>)"
    using get_flushed [OF 1(3)] assms(3) id same(3) by simp
  moreover have "no_current_head snap x d'" if "x \<noteq> bar_root_claim_id b" "(x, bar_root_claim_id b) \<in> (set (evidential_edges d'))\<^sup>+" for x
    using live_current_none [OF none that(1)] that(2) edges same(1) by (simp add: no_current_head_def)
  ultimately show ?thesis using edges 1(4) by simp
qed

lemma step_activeE:
  assumes "step_barrier env clk t call snap live b d = Inr (st, d')" and "bar_status b = BS_ACTIVE"
  obtains (block) cls msg where "apply_window env clk call snap b d = Inr (Inl (cls, msg))"
      "block_barrier call b cls msg d = Inr (st, d')"
    | (batch) hit b2 d2 where "apply_window env clk call snap b d = Inr (Inr (hit, b2, d2))"
      "finish_step call t snap live hit b2 d2 = Inr (st, d')"
proof (cases "apply_window env clk call snap b d")
  case (Inr r)
  then show ?thesis using assms that by (cases r) (auto simp: step_barrier_def)
qed (use assms in \<open>simp add: step_barrier_def\<close>)

text \<open>
  C8.  A barrier is resolved only when nothing it protects is left: if a call of \<open>process_barrier\<close> moves a barrier
  to resolved then, in the database it leaves, no claim that depends on the root has a current head
  under the active configuration, and the row carries the graph revision of that database.
\<close>

theorem resolved_barrier_has_no_current_dependent:
  assumes "process_barrier env got clk t call bid d = Inr (BS_RESOLVED, d')"
    and "tbl_get bar_id bid (db_barriers d) = Some b" and "bar_status b \<noteq> BS_RESOLVED"
    and "effective_snapshot_id d = Inr snap"
  shows "(\<forall>x. x \<noteq> bar_root_claim_id b \<and> (x, bar_root_claim_id b) \<in> (set (evidential_edges d'))\<^sup>+ \<longrightarrow> no_current_head snap x d')
    \<and> (\<exists>b'. tbl_get bar_id bid (db_barriers d') = Some b' \<and> bar_status b' = BS_RESOLVED
         \<and> revision_of d' ''dependency_graph'' = Inr (bar_graph_revision b'))"
  using assms(1-3)
proof (cases rule: process_barrierE)
  case (1 snap' live b1 d1)
  note g = generation_facts [OF 1(4,3)]
  have s: "snap' = snap" using 1(2) assms(4) by simp
  have bid: "bar_id b = bid" using tbl_get_SomeD [OF assms(2)] by simp
  have nr: "bar_status b1 \<noteq> BS_RESOLVED" using g(7) assms(3) by auto
  have live1: "revision_of d1 ''dependency_graph'' = Inr live" using 1(3) revision_cong [OF g(5)] by simp
  show ?thesis
  proof (cases "bar_status b1 = BS_ACTIVE")
    case False
    then have "finish_step call t snap live 0 b1 d1 = Inr (BS_RESOLVED, d')" using 1(5) s by (simp add: step_barrier_def)
    from finish_step_resolved [OF this nr] g assms(2) bid live1 show ?thesis by simp
  next
    case True
    obtain hit b2 d2 where w: "apply_window env clk call snap b1 d1 = Inr (Inr (hit, b2, d2))"
      and f: "finish_step call t snap live hit b2 d2 = Inr (BS_RESOLVED, d')"
      using 1(5) [unfolded s] True by (rule step_activeE) (auto dest: block_not_resolved)
    from w show ?thesis
    proof (cases rule: apply_windowE)
      case (1 m ordered)
      have gr: "graph_rows d2 = graph_rows d1" using 1(6) by (simp add: invalidates_def)
      have b2: "bar_id b2 = bar_id b1" "bar_root_claim_id b2 = bar_root_claim_id b1" by (subst 1(7), simp)+
      have "bar_status b2 \<noteq> BS_RESOLVED" using 1(8) True by simp
      moreover have "tbl_get bar_id (bar_id b2) (db_barriers d2) \<noteq> None"
        using gr g b2 assms(2) bid by (simp add: graph_rows_eq)
      moreover have "revision_of d2 ''dependency_graph'' = Inr live"
        using gr live1 by (simp add: graph_rows_eq revision_of_def get_revision_def)
      ultimately show ?thesis using finish_step_resolved [OF f] g b2 bid by simp
    qed
  qed
qed

subsection \<open>Draining\<close>

text \<open>
  A barrier between two calls: the row is active at cursor \<open>k\<close> of a sound manifest of the live closure.
  It is draining when nobody interferes: the claims before the cursor have no current head.
\<close>

definition barrier_at :: "cascade_env \<Rightarrow> uuid \<Rightarrow> uuid \<Rightarrow> uuid list \<Rightarrow> nat \<Rightarrow> db \<Rightarrow> bool" where
  "barrier_at env snap bid ids k d \<longleftrightarrow>
     effective_snapshot_id d = Inr snap \<and> get_revision d ''knowledge'' \<noteq> None \<and>
     (\<exists>b m. tbl_get bar_id bid (db_barriers d) = Some b \<and> bar_status b = BS_ACTIVE
       \<and> bar_closure_manifest_id b = Some (cm_id m) \<and> tbl_get cm_id (cm_id m) (db_manifests d) = Some m
       \<and> verify_manifest (cv_host env) m = None \<and> as_uuids (cv_host env) (cm_claim_ids m) = Inr ids
       \<and> cm_count m = int (length ids) \<and> bar_next_offset b = int k \<and> k < length ids
       \<and> revision_of d ''dependency_graph'' = Inr (bar_graph_revision b)
       \<and> set ids = {x. x \<noteq> bar_root_claim_id b \<and> (x, bar_root_claim_id b) \<in> (set (evidential_edges d))\<^sup>+}
       \<and> barrier_checks b d = None)"

definition draining :: "cascade_env \<Rightarrow> uuid \<Rightarrow> uuid \<Rightarrow> uuid list \<Rightarrow> nat \<Rightarrow> db \<Rightarrow> bool" where
  "draining env snap bid ids k d \<longleftrightarrow> barrier_at env snap bid ids k d \<and> (\<forall>x\<in>set (take k ids). no_current_head snap x d)"

lemma drainingI:
  assumes "effective_snapshot_id d = Inr snap" "get_revision d ''knowledge'' \<noteq> None"
    "tbl_get bar_id bid (db_barriers d) = Some b" "bar_status b = BS_ACTIVE"
    "bar_closure_manifest_id b = Some (cm_id m)" "tbl_get cm_id (cm_id m) (db_manifests d) = Some m"
    "verify_manifest (cv_host env) m = None" "as_uuids (cv_host env) (cm_claim_ids m) = Inr ids"
    "cm_count m = int (length ids)" "bar_next_offset b = int k" "k < length ids"
    "revision_of d ''dependency_graph'' = Inr (bar_graph_revision b)"
    "set ids = {x. x \<noteq> bar_root_claim_id b \<and> (x, bar_root_claim_id b) \<in> (set (evidential_edges d))\<^sup>+}"
    "barrier_checks b d = None" "\<forall>x\<in>set (take k ids). no_current_head snap x d"
  shows "draining env snap bid ids k d"
  unfolding draining_def barrier_at_def using assms by blast

lemma apply_window_ok:
  assumes "bar_closure_manifest_id b = Some (cm_id m)" "tbl_get cm_id (cm_id m) (db_manifests d) = Some m"
    "verify_manifest (cv_host env) m = None" "as_uuids (cv_host env) (cm_claim_ids m) = Inr ids"
    "cm_count m = int (length ids)" "bar_next_offset b = int k" "k < length ids"
    "invalidate_batch env snap (bc_actor call) ''barrier batch'' clk (take BATCH_SIZE (drop k ids))
       (bc_session_id call) (Some (bar_id b, int k)) d = (hit, jobs, d')"
  shows "apply_window env clk call snap b d = Inr (Inr (hit,
     if length ids \<le> k + BATCH_SIZE then b\<lparr>bar_next_offset := int (length ids), bar_status := BS_CLOSING\<rparr>
     else b\<lparr>bar_next_offset := int (k + BATCH_SIZE)\<rparr>, d'))"
proof -
  have len: "length (take BATCH_SIZE (drop k ids)) = (if length ids \<le> k + BATCH_SIZE then length ids - k else BATCH_SIZE)"
    using assms(7) by simp
  show ?thesis
    using assms len by (auto simp: apply_window_def simp del: length_take length_drop)
qed

lemma bump_ok:
  assumes "get_revision d ''knowledge'' \<noteq> None"
  obtains d' where "(if 0 < hit then map_sum id snd (bump_knowledge_revision d) else Inr d) = Inr d'"
    "get_revision d' ''knowledge'' \<noteq> None"
proof (cases "0 < hit")
  case True
  obtain r where r: "get_revision d ''knowledge'' = Some r" using assms by blast
  show ?thesis
    by (rule that [of "d\<lparr>db_revisions := tbl_update (\<lambda>r. rev_scope r = ''knowledge'')
        (\<lambda>r. r\<lparr>rev_revision := rev_revision r + 1, rev_updated_at := db_now d\<rparr>) (db_revisions d)\<rparr>"])
      (use True r in \<open>simp_all add: bump_knowledge_revision_def get_revision_def rev_bump.get_update_key\<close>)
next
  case False
  then show ?thesis using that assms by simp
qed

lemma checks_None:
  "barrier_checks b d = None \<Longrightarrow> 0 \<le> bar_member_count b \<and> 0 \<le> bar_next_offset b
     \<and> (bar_resolved_at b = None) = (bar_status b \<noteq> BS_RESOLVED) \<and> (bar_closure_manifest_id b = None) = (bar_status b = BS_DISCOVERING)"
  by (auto simp: barrier_checks_def split: if_splits)

lemma checks_cong:
  assumes "db_barriers d' = db_barriers d" "bar_id b' = bar_id b" "bar_root_claim_id b' = bar_root_claim_id b"
    "bar_generation b' = bar_generation b" "bar_closure_manifest_id b' = bar_closure_manifest_id b"
    "bar_status b' \<noteq> BS_DISCOVERING" "bar_status b \<noteq> BS_DISCOVERING" "0 \<le> bar_next_offset b'" "0 \<le> bar_member_count b'"
    "(bar_resolved_at b' = None) = (bar_status b' \<noteq> BS_RESOLVED)" "barrier_checks b d = None"
  shows "barrier_checks b' d' = None"
  using assms by (auto simp: barrier_checks_def split: if_splits)

text \<open>What one call does with such a barrier: the window is invalidated, then the step is finished.\<close>

lemma barrier_call:
  assumes "barrier_at env snap bid ids k d"
  obtains b m hit d1 where "tbl_get bar_id bid (db_barriers d) = Some b" "bar_status b = BS_ACTIVE"
    "bar_id b = bid" "barrier_checks b d = None"
    "bar_closure_manifest_id b = Some (cm_id m)" "tbl_get cm_id (cm_id m) (db_manifests d) = Some m"
    "verify_manifest (cv_host env) m = None" "as_uuids (cv_host env) (cm_claim_ids m) = Inr ids" "cm_count m = int (length ids)"
    "set ids = {x. x \<noteq> bar_root_claim_id b \<and> (x, bar_root_claim_id b) \<in> (set (evidential_edges d))\<^sup>+}"
    "revision_of d ''dependency_graph'' = Inr (bar_graph_revision b)"
    "graph_rows d1 = graph_rows d" "invalidates snap (bc_actor call) clk (set (take BATCH_SIZE (drop k ids))) d d1"
    "process_barrier env True clk t call bid d = finish_step call t snap (bar_graph_revision b) hit
       (if length ids \<le> k + BATCH_SIZE then b\<lparr>bar_next_offset := int (length ids), bar_status := BS_CLOSING\<rparr>
        else b\<lparr>bar_next_offset := int (k + BATCH_SIZE)\<rparr>) d1"
proof -
  obtain b m where snap: "effective_snapshot_id d = Inr snap" and b: "tbl_get bar_id bid (db_barriers d) = Some b"
    and st: "bar_status b = BS_ACTIVE" and mid: "bar_closure_manifest_id b = Some (cm_id m)"
    and m: "tbl_get cm_id (cm_id m) (db_manifests d) = Some m" "verify_manifest (cv_host env) m = None"
      "as_uuids (cv_host env) (cm_claim_ids m) = Inr ids" "cm_count m = int (length ids)"
    and o: "bar_next_offset b = int k" "k < length ids"
    and live: "revision_of d ''dependency_graph'' = Inr (bar_graph_revision b)"
    and cl: "set ids = {x. x \<noteq> bar_root_claim_id b \<and> (x, bar_root_claim_id b) \<in> (set (evidential_edges d))\<^sup>+}"
    and ch: "barrier_checks b d = None"
    using assms by (auto simp: barrier_at_def)
  have bid: "bar_id b = bid" using tbl_get_SomeD [OF b] by simp
  obtain hit jobs d1 where bt: "invalidate_batch env snap (bc_actor call) ''barrier batch'' clk (take BATCH_SIZE (drop k ids))
      (bc_session_id call) (Some (bar_id b, int k)) d = (hit, jobs, d1)" by (metis prod_cases3)
  have run: "process_barrier env True clk t call bid d = finish_step call t snap (bar_graph_revision b) hit
       (if length ids \<le> k + BATCH_SIZE then b\<lparr>bar_next_offset := int (length ids), bar_status := BS_CLOSING\<rparr>
        else b\<lparr>bar_next_offset := int (k + BATCH_SIZE)\<rparr>) d1"
    using b st snap live apply_window_ok [OF mid m o bt]
    by (simp add: process_barrier_def writer_gate_def step_barrier_def)
  show ?thesis by (rule that [OF b st bid ch mid m cl live batch_graph [OF bt] batch_invalidates [OF bt] run])
qed

lemma window_settled:
  assumes "draining env snap bid ids k d" and "invalidates snap p clk (set (take BATCH_SIZE (drop k ids))) d d1"
  shows "\<forall>x\<in>set (take (k + BATCH_SIZE) ids). no_current_head snap x d1"
proof -
  have "take (k + BATCH_SIZE) ids = take k ids @ take BATCH_SIZE (drop k ids)" by (rule take_add)
  then show ?thesis using assms(1) invalidates_current [OF assms(2)] by (auto simp: draining_def)
qed

lemma draining_at: "draining env snap bid ids k d \<Longrightarrow> barrier_at env snap bid ids k d"
  by (simp add: draining_def)

lemma drain_step:
  assumes "draining env snap bid ids k d" and "k + BATCH_SIZE < length ids"
  shows "\<exists>d'. process_barrier env True clk t call bid d = Inr (BS_ACTIVE, d') \<and> draining env snap bid ids (k + BATCH_SIZE) d'"
  using draining_at [OF assms(1)]
proof (cases rule: barrier_call [where clk = clk and t = t and call = call])
  case (1 b m hit d1)
  note post = window_settled [OF assms(1) 1(13)]
  let ?b = "b\<lparr>bar_next_offset := int (k + BATCH_SIZE), bar_updated_at := t\<rparr>"
  have rows: "effective_snapshot_id d1 = Inr snap" "get_revision d1 ''knowledge'' \<noteq> None"
    using draining_at [OF assms(1)] 1(12) by (auto simp: barrier_at_def graph_rows_eq effective_snapshot_id_def get_revision_def)
  obtain d2 where k: "(if 0 < hit then map_sum id snd (bump_knowledge_revision d1) else Inr d1) = Inr d2"
    and kr: "get_revision d2 ''knowledge'' \<noteq> None" by (rule bump_ok [OF rows(2)])
  note fr = bump_frame [OF k]
  have "barrier_checks ?b d2 = None"
    by (rule checks_cong [of _ d _ b])
      (use 1(2,4,12) fr checks_None [OF 1(4)] in \<open>simp_all add: graph_rows_eq\<close>)
  then have fl: "flush_barrier ?b d2 = Inr (d2\<lparr>db_barriers := tbl_update (\<lambda>r. bar_id r = bar_id ?b) (\<lambda>r. ?b) (db_barriers d2)\<rparr>)"
    (is "_ = Inr ?d3") by (simp add: flush_barrier_def)
  have run: "process_barrier env True clk t call bid d = Inr (BS_ACTIVE, ?d3)"
    unfolding 1(14) using assms(2) 1(2) k fl by (simp add: finish_step_def)
  have "tbl_get bar_id bid (db_barriers ?d3) = Some ?b"
    using get_flushed [OF fl] fr 1(1,3,12) by (simp add: graph_rows_eq)
  moreover have "barrier_checks ?b ?d3 = None"
    using \<open>barrier_checks ?b d2 = None\<close>
    by (auto simp: barrier_checks_def list_ex_iff set_tbl_update split: if_splits)
  moreover have "revision_of ?d3 ''dependency_graph'' = Inr (bar_graph_revision b)"
    using 1(11,12) fr(6) by (simp add: revision_of_def get_revision_def graph_rows_eq)
  moreover have "evidential_edges ?d3 = evidential_edges d" using 1(12) fr by (simp add: evidential_edges_def graph_rows_eq)
  moreover have "no_current_head snap x ?d3 = no_current_head snap x d1" for x using fr(1) by (simp add: no_current_head_def)
  moreover have "effective_snapshot_id ?d3 = Inr snap" using rows(1) fr(5) by (simp add: effective_snapshot_id_def)
  moreover have "get_revision ?d3 ''knowledge'' \<noteq> None" using kr by (simp add: get_revision_def)
  moreover have "db_manifests ?d3 = db_manifests d" using fr(4) 1(12) by (simp add: graph_rows_eq)
  ultimately have "draining env snap bid ids (k + BATCH_SIZE) ?d3"
    using 1(2,5-10) post assms(2) by (intro drainingI [where b = ?b and m = m]) simp_all
  with run show ?thesis by blast
qed

lemma drain_last:
  assumes "draining env snap bid ids k d" and "length ids \<le> k + BATCH_SIZE"
  shows "\<exists>d'. process_barrier env True clk t call bid d = Inr (BS_RESOLVED, d')"
  using draining_at [OF assms(1)]
proof (cases rule: barrier_call [where clk = clk and t = t and call = call])
  case (1 b m hit d1)
  note post = window_settled [OF assms(1) 1(13)]
  let ?b = "b\<lparr>bar_next_offset := int (length ids), bar_status := BS_CLOSING\<rparr>"
  have rows: "get_revision d1 ''knowledge'' \<noteq> None" "revision_of d1 ''dependency_graph'' = Inr (bar_graph_revision b)"
    "evidential_edges d1 = evidential_edges d"
    using draining_at [OF assms(1)] 1(11,12) by (auto simp: barrier_at_def graph_rows_eq get_revision_def revision_of_def evidential_edges_def)
  have "\<forall>x\<in>set ids. no_current_head snap x d1" using post assms(2) by simp
  then have "live_current_descendants d1 (bar_root_claim_id ?b) snap = Inr []"
    using rows(2,3) 1(10) by (auto simp: live_current_descendants_def Let_def closure_members filter_empty_conv
        no_current_head_def list_ex_iff is_current_head_def)
  then obtain b1 d2 where fs: "final_scan call snap (bar_graph_revision b) ?b d1 = Inr (b1, d2)" "bar_status b1 = BS_RESOLVED"
    "bar_resolved_at b1 \<noteq> None" by (simp add: final_scan_def)
  note s = final_scanE [OF fs(1)]
  have "get_revision d2 ''knowledge'' \<noteq> None" using s(1) rows(1) by (simp add: graph_rows_eq get_revision_def)
  then obtain d3 where k: "(if 0 < hit then map_sum id snd (bump_knowledge_revision d2) else Inr d2) = Inr d3" by (rule bump_ok)
  have "bar_id b1 = bar_id b" "bar_root_claim_id b1 = bar_root_claim_id b" "bar_generation b1 = bar_generation b"
    "bar_closure_manifest_id b1 = bar_closure_manifest_id b" "bar_next_offset b1 = int (length ids)"
    "bar_member_count b1 = bar_member_count b" by (subst s(3), simp)+
  note b1 = this
  have bars: "db_barriers d3 = db_barriers d" using 1(12) s(1) bump_frame(3) [OF k] by (simp add: graph_rows_eq)
  have "barrier_checks (b1\<lparr>bar_updated_at := t\<rparr>) d3 = None"
    by (rule checks_cong [OF bars _ _ _ _ _ _ _ _ _ 1(4)]) (use b1 1(2) fs(2,3) checks_None [OF 1(4)] in simp_all)
  then have "\<exists>d4. flush_barrier (b1\<lparr>bar_updated_at := t\<rparr>) d3 = Inr d4" by (simp add: flush_barrier_def)
  then show ?thesis unfolding 1(14) using assms(2) fs k by (auto simp: finish_step_def)
qed

text \<open>\<open>process_times n\<close> is a caller that makes \<open>n + 1\<close> calls, one after the other.\<close>

primrec process_times ::
  "cascade_env \<Rightarrow> (uuid \<Rightarrow> instant) \<Rightarrow> instant \<Rightarrow> barrier_call \<Rightarrow> uuid \<Rightarrow> nat \<Rightarrow> db \<Rightarrow> exn + (barrier_status \<times> db)" where
  "process_times env clk t call bid 0 d = process_barrier env True clk t call bid d"
| "process_times env clk t call bid (Suc n) d =
     (case process_barrier env True clk t call bid d of Inl e \<Rightarrow> Inl e
      | Inr (st, d1) \<Rightarrow> process_times env clk t call bid n d1)"

lemma drain:
  "draining env snap bid ids k d \<Longrightarrow>
   \<exists>d'. process_times env clk t call bid ((length ids - k - 1) div BATCH_SIZE) d = Inr (BS_RESOLVED, d')"
proof (induction "(length ids - k - 1) div BATCH_SIZE" arbitrary: k d)
  case 0
  then have "length ids - k - 1 < BATCH_SIZE" by (simp add: div_eq_0_iff BATCH_SIZE_def)
  then have "length ids \<le> k + BATCH_SIZE" by simp
  from drain_last [OF 0(2) this] 0(1) show ?case by (metis process_times.simps(1))
next
  case (Suc n)
  have lt: "k + BATCH_SIZE < length ids"
  proof (rule ccontr)
    assume "\<not> ?thesis"
    then have "length ids - k - 1 < BATCH_SIZE" by (simp add: BATCH_SIZE_def)
    then show False using Suc(2) by simp
  qed
  obtain d1 where d1: "process_barrier env True clk t call bid d = Inr (BS_ACTIVE, d1)" "draining env snap bid ids (k + BATCH_SIZE) d1"
    using drain_step [OF Suc(3) lt] by blast
  have "length ids - k - 1 = (length ids - (k + BATCH_SIZE) - 1) + BATCH_SIZE" using lt by simp
  then have "(length ids - k - 1) div BATCH_SIZE = Suc ((length ids - (k + BATCH_SIZE) - 1) div BATCH_SIZE)"
    by (metis BATCH_SIZE_def Suc_eq_plus1 div_add_self2 zero_neq_numeral)
  with Suc(2) have n: "n = (length ids - (k + BATCH_SIZE) - 1) div BATCH_SIZE" by simp
  from Suc(1) [OF n d1(2)] obtain d' where "process_times env clk t call bid n d1 = Inr (BS_RESOLVED, d')" using n by auto
  then show ?case unfolding Suc(2) [symmetric] by (simp add: d1(1))
qed

text \<open>Every earlier call leaves the barrier active.\<close>

lemma drain_before:
  "draining env snap bid ids k d \<Longrightarrow> j < (length ids - k - 1) div BATCH_SIZE \<Longrightarrow>
   \<exists>d'. process_times env clk t call bid j d = Inr (BS_ACTIVE, d')"
proof (induction j arbitrary: k d)
  case (0 k d)
  then have "k + BATCH_SIZE < length ids" by (simp add: BATCH_SIZE_def)
  from drain_step [OF 0(1) this] show ?case by (metis process_times.simps(1))
next
  case (Suc j k d)
  then have lt: "k + BATCH_SIZE < length ids" by (simp add: BATCH_SIZE_def)
  obtain d1 where d1: "process_barrier env True clk t call bid d = Inr (BS_ACTIVE, d1)" "draining env snap bid ids (k + BATCH_SIZE) d1"
    using drain_step [OF Suc(2) lt] by blast
  have "length ids - k - 1 = (length ids - (k + BATCH_SIZE) - 1) + BATCH_SIZE" using lt by simp
  then have "(length ids - k - 1) div BATCH_SIZE = Suc ((length ids - (k + BATCH_SIZE) - 1) div BATCH_SIZE)"
    by (metis BATCH_SIZE_def Suc_eq_plus1 div_add_self2 zero_neq_numeral)
  with Suc(3) have "j < (length ids - (k + BATCH_SIZE) - 1) div BATCH_SIZE" by simp
  from Suc(1) [OF d1(2) this] show ?case by (simp add: d1(1))
qed

subsection \<open>From the start of a cascade to the resolved barrier\<close>

text \<open>
  What the id of a manifest promises: a stored row with the id of a closure's manifest is that
  manifest.
\<close>

definition content_addressed :: "cascade_env \<Rightarrow> db \<Rightarrow> bool" where
  "content_addressed env d \<longleftrightarrow> (\<forall>m\<in>set (db_manifests d). \<forall>c now. cm_id m = cm_id (manifest_for env now c)
     \<longrightarrow> m = manifest_for env (cm_created_at m) c)"

lemma as_uuids_written: "\<forall>x\<in>set ids. x < 2 ^ 128 \<Longrightarrow> as_uuids h (map (JStr \<circ> uuid_str) ids) = Inr ids"
  by (induction ids) (simp_all add: as_uuid_def py_str_def uuid_parse_str)

lemma manifest_sound:
  assumes "get_or_create_manifest env c d = Inr (m, sha, d')" and "content_addressed env d" and "\<forall>x\<in>set (cr_claim_ids c). x < 2 ^ 128"
  shows "verify_manifest (cv_host env) m = None" "as_uuids (cv_host env) (cm_claim_ids m) = Inr (cr_claim_ids c)"
    "cm_count m = int (length (cr_claim_ids c))"
proof -
  have "\<exists>now. m = manifest_for env now c"
  proof (cases "tbl_get cm_id (cm_id (manifest_for env (db_now d) c)) (db_manifests d)")
    case None
    then show ?thesis using assms(1) by (auto simp: get_or_create_manifest_def Let_def split: if_splits)
  next
    case (Some m')
    then have "m' \<in> set (db_manifests d)" "cm_id m' = cm_id (manifest_for env (db_now d) c)" by (auto dest: tbl_get_SomeD)
    then have "m' = manifest_for env (cm_created_at m') c" using assms(2) unfolding content_addressed_def by blast
    then show ?thesis using assms(1) Some by (auto simp: get_or_create_manifest_def Let_def)
  qed
  then obtain now where m: "m = manifest_for env now c" by blast
  show "verify_manifest (cv_host env) m = None" "cm_count m = int (length (cr_claim_ids c))"
    by (simp_all add: m verify_manifest_def manifest_for_def Let_def closure_count_def)
  have "cm_claim_ids m = map (JStr \<circ> uuid_str) (cr_claim_ids c)" by (simp add: m manifest_for_def Let_def)
  then show "as_uuids (cv_host env) (cm_claim_ids m) = Inr (cr_claim_ids c)" using as_uuids_written [OF assms(3)] by simp
qed

lemma started_draining:
  assumes st: "start_cascade env got clk call d0 d = Inr (res, d')" and mode: "cs_mode res = CM_barrier"
    and bid: "cs_barrier_id res = Some bid" "bid \<notin> bar_id ` set (db_barriers d)"
    and snap: "effective_snapshot_id d = Inr snap" and know: "get_revision d ''knowledge'' \<noteq> None"
    and edges: "revision_of d ''dependency_graph'' = revision_of d0 ''dependency_graph'' \<Longrightarrow> evidential_edges d = evidential_edges d0"
    and ca: "content_addressed env d" and small: "\<forall>r\<in>set (db_dependencies d). dep_from_claim_id r < 2 ^ 128"
  shows "\<exists>ids. draining env snap bid ids BATCH_SIZE d' \<and> length ids = cs_closure_count res"
  using st
proof (cases rule: start_cascadeE)
  case (1 c snap' m sha d1 h1 j1 d2)
  have s: "snap' = snap" using 1(3) snap by simp
  have big: "INLINE_CLOSURE_LIMIT < closure_count c"
  proof (rule ccontr)
    assume "\<not> ?thesis"
    then have "\<exists>h j d3. finish_start call c sha CM_inline None h j d3 = Inr (res, d')"
      using 1(7) by (auto simp: Let_def split: prod.splits)
    then show False using finish_startE(1) mode by fastforce
  qed
  obtain h2 j2 b' d3 where ob: "open_barrier env clk call snap c m d2 = Inr (h2, j2, b', d3)"
    and fin: "finish_start call c sha CM_barrier (Some b') (h1 + h2) (j1 + j2) d3 = Inr (res, d')"
    using 1(7) big s by (auto split: sum.splits)
  note f = finish_startE [OF fin] and mf = manifest_frame [OF 1(5)] and g = batch_graph [OF 1(6)]
  have b': "b' = bid" using f(3) bid(1) by simp
  have e: "evidential_edges d = evidential_edges d0" using edges 1(4) load_closureD(3) [OF 1(2)] by simp
  have "x < 2 ^ 128" if "x \<in> set (cr_claim_ids c)" for x
  proof -
    have "(x, cc_root_claim_id call) \<in> (set (evidential_edges d))\<^sup>+" using that load_closureD(1) [OF 1(2)] e by simp
    then obtain y where "(x, y) \<in> set (evidential_edges d)" by (meson tranclD)
    then show ?thesis using small by (auto simp: evidential_edges_def)
  qed
  then have ms: "verify_manifest (cv_host env) m = None" "as_uuids (cv_host env) (cm_claim_ids m) = Inr (cr_claim_ids c)"
    "cm_count m = int (length (cr_claim_ids c))" using manifest_sound [OF 1(5) ca] by simp_all
  from ob show ?thesis
  proof (cases rule: open_barrierE)
    case ins: (1 e1 e2 b)
    have len: "length (closure_batch c 0 BATCH_SIZE) = BATCH_SIZE"
      using big by (simp add: closure_batch_def closure_count_def INLINE_CLOSURE_LIMIT_def BATCH_SIZE_def)
    let ?b = "b\<lparr>bar_next_offset := int BATCH_SIZE, bar_status := BS_ACTIVE\<rparr>"
    have fl: "flush_barrier ?b e2 = Inr d3"
      using ins(5) len big by (simp add: closure_count_def INLINE_CLOSURE_LIMIT_def BATCH_SIZE_def)
    have b: "bar_id b = bid" "bar_root_claim_id b = cc_root_claim_id call" "bar_graph_revision b = cr_graph_revision c"
      "bar_closure_manifest_id b = Some (cm_id m)" using ins(1) b' by (simp_all add: new_barrier_def)
    have i1: "e1 = d2\<lparr>db_draws := Suc (db_draws d2), db_barriers := db_barriers d2 @ [b]\<rparr>" using insert_barrierE(2) [OF ins(3)] by simp
    have g2: "graph_rows e2 = graph_rows e1" by (rule batch_graph [OF ins(4)])
    have bars: "db_barriers e2 = db_barriers d @ [b]" using g2 i1 g mf(6) by (simp add: graph_rows_eq)
    have "tbl_get bar_id bid (db_barriers e2) \<noteq> None" by (simp add: bars b tbl_get_None_iff)
    then have row: "tbl_get bar_id bid (db_barriers d') = Some ?b" using get_flushed [OF fl] b f(8) by simp
    have d3: "d3 = e2\<lparr>db_barriers := tbl_update (\<lambda>r. bar_id r = bar_id ?b) (\<lambda>r. ?b) (db_barriers e2)\<rparr>"
      by (rule flush_barrierE(2) [OF fl])
    have ch: "barrier_checks ?b d' = None"
      using flush_barrierE(1) [OF fl] f(8) d3 by (auto simp: barrier_checks_def list_ex_iff set_tbl_update split: if_splits)
    have edges': "evidential_edges d' = evidential_edges d0"
      using f(7) d3 g2 i1 g mf(3) e by (simp add: evidential_edges_def graph_rows_eq)
    have live: "revision_of d' ''dependency_graph'' = Inr (bar_graph_revision ?b)"
      using f(12) d3 g2 i1 g mf(4) 1(4) b by (simp add: revision_of_def get_revision_def graph_rows_eq)
    have snap': "effective_snapshot_id d' = Inr snap"
      using f(10) d3 g2 i1 g mf(5) snap by (simp add: effective_snapshot_id_def graph_rows_eq)
    have "get_revision d3 ''knowledge'' = get_revision d ''knowledge''" using d3 g2 i1 g mf(4) by (simp add: get_revision_def graph_rows_eq)
    then have know': "get_revision d' ''knowledge'' \<noteq> None" using f(11) know by (auto split: if_splits)
    have man: "tbl_get cm_id (cm_id m) (db_manifests d') = Some m" using f(9) d3 g2 i1 g mf(8) by (simp add: graph_rows_eq)
    have "no_current_head snap x e2" if "x \<in> set (closure_batch c 0 BATCH_SIZE)" for x
      using that invalidates_current [OF batch_invalidates [OF ins(4)]] by simp
    then have pre: "\<forall>x\<in>set (take BATCH_SIZE (cr_claim_ids c)). no_current_head snap x d'"
      using f(5) d3 by (simp add: closure_batch_def no_current_head_def)
    have "draining env snap bid (cr_claim_ids c) BATCH_SIZE d'"
      using snap' know' row b man ms live ch pre load_closureD(1) [OF 1(2)] edges' big
      by (intro drainingI [where b = ?b and m = m]) (simp_all add: closure_count_def INLINE_CLOSURE_LIMIT_def BATCH_SIZE_def)
    moreover have "length (cr_claim_ids c) = cs_closure_count res" using f(4) by (simp add: closure_count_def)
    ultimately show ?thesis by blast
  qed
qed

lemma div_step: "m < n \<Longrightarrow> 0 < m \<Longrightarrow> (n - 1) div m = Suc ((n - m - 1) div m)" for m n :: nat
proof -
  assume m: "m < n" "0 < m"
  then have "n - 1 = (n - m - 1) + m" by simp
  with m(2) show ?thesis by (metis Suc_eq_plus1 div_add_self2 less_not_refl)
qed

text \<open>
  C9.  A large cascade reaches its end.  Assume identifiers of 128 bits, manifests addressed by their
  content, a fresh barrier id, and that the graph revision identifies the evidential edges.  When
  \<open>start_cascade\<close> opened a barrier over \<open>n\<close> claims and nobody else writes, the processor resolves it with
  exactly \<open>(n - 1) div 32\<close> further calls: there is at least one, the last of them answers resolved and
  every earlier one answers active.
\<close>

theorem barrier_drains:
  assumes "start_cascade env got clk call d0 d = Inr (res, d')" and "cs_mode res = CM_barrier"
    and "cs_barrier_id res = Some bid" and "bid \<notin> bar_id ` set (db_barriers d)"
    and "effective_snapshot_id d = Inr snap" and "get_revision d ''knowledge'' \<noteq> None"
    and "revision_of d ''dependency_graph'' = revision_of d0 ''dependency_graph'' \<Longrightarrow> evidential_edges d = evidential_edges d0"
    and "content_addressed env d" and "\<forall>r\<in>set (db_dependencies d). dep_from_claim_id r < 2 ^ 128"
  shows "0 < (cs_closure_count res - 1) div BATCH_SIZE
    \<and> (\<exists>d''. process_times env clk' t bcall bid ((cs_closure_count res - 1) div BATCH_SIZE - 1) d' = Inr (BS_RESOLVED, d''))
    \<and> (\<forall>j < (cs_closure_count res - 1) div BATCH_SIZE - 1.
         \<exists>d''. process_times env clk' t bcall bid j d' = Inr (BS_ACTIVE, d''))"
proof -
  obtain ids where dr: "draining env snap bid ids BATCH_SIZE d'" and len: "length ids = cs_closure_count res"
    using started_draining [OF assms] by blast
  have "BATCH_SIZE < length ids" using dr by (auto simp: draining_def barrier_at_def)
  then have "(length ids - 1) div BATCH_SIZE = Suc ((length ids - BATCH_SIZE - 1) div BATCH_SIZE)"
    by (rule div_step) (simp add: BATCH_SIZE_def)
  then have "(cs_closure_count res - 1) div BATCH_SIZE - 1 = (length ids - BATCH_SIZE - 1) div BATCH_SIZE" using len by simp
  with drain [OF dr] drain_before [OF dr] show ?thesis
    using len \<open>BATCH_SIZE < length ids\<close> by (simp add: BATCH_SIZE_def)
qed

subsection \<open>A tampered manifest\<close>

text \<open>
  A manifest whose content no longer has its hash blocks the barrier and keeps the protection.  The
  call that meets it changes no head, records the barrier as blocked and answers blocked; the set of
  protected claims stays what it was; and every later call raises \<open>BarrierBlockedError\<close> and changes
  nothing.
\<close>

theorem tampered_manifest_blocks_the_barrier:
  assumes "tbl_get bar_id bid (db_barriers d) = Some b" and "bar_status b = BS_ACTIVE" and "barrier_checks b d = None"
    and "effective_snapshot_id d = Inr snap" and "revision_of d ''dependency_graph'' = Inr (bar_graph_revision b)"
    and "bar_closure_manifest_id b = Some i" and "tbl_get cm_id i (db_manifests d) = Some m"
    and "verify_manifest (cv_host env) m \<noteq> None" and "distinct (map bar_id (db_barriers d))"
  shows "\<exists>d' b'. process_barrier env True clk t call bid d = Inr (BS_BLOCKED, d') \<and> db_heads d' = db_heads d
    \<and> tbl_get bar_id bid (db_barriers d') = Some b' \<and> bar_status b' = BS_BLOCKED
    \<and> protected_claim_ids env d' = protected_claim_ids env d
    \<and> (\<forall>clk t call. \<exists>msg. process_barrier env True clk t call bid d' = Inl (BarrierBlockedError msg))"
proof -
  obtain problem where p: "verify_manifest (cv_host env) m = Some problem" using assms(8) by blast
  let ?b = "b\<lparr>bar_status := BS_BLOCKED, bar_last_error := Some (problem @ '': '' @ ''immutable manifest hash mismatch'')\<rparr>"
  have bid: "bar_id b = bid" using tbl_get_SomeD [OF assms(1)] by simp
  have w: "apply_window env clk call snap b d = Inr (Inl (problem, ''immutable manifest hash mismatch''))"
    using assms(6,7) p by (simp add: apply_window_def)
  have run: "process_barrier env True clk t call bid d = block_barrier call b problem ''immutable manifest hash mismatch'' d"
    using assms(1,2,4,5) w by (simp add: process_barrier_def writer_gate_def step_barrier_def)
  obtain d1 where d1: "graph_rows d1 = graph_rows d" "db_heads d1 = db_heads d"
    and blk: "block_barrier call b problem ''immutable manifest hash mismatch'' d =
      (case flush_barrier ?b d1 of Inl e \<Rightarrow> Inl e | Inr d2 \<Rightarrow> Inr (BS_BLOCKED, d2))"
    by (rule that [of "record_event AE_BARRIER_BLOCKED (bc_session_id call)
            (Some [(''barrier_id'', JStr (uuid_str (bar_id b))), (''root_claim_id'', JStr (uuid_str (bar_root_claim_id b))),
              (''generation'', JInt (bar_generation b)), (''error_class'', JStr problem), (''message'', JStr ''immutable manifest hash mismatch'')])
            (Some (bc_actor call)) (Some (''barrier '' @ uuid_str (bar_id b) @ '' blocked: '' @ problem)) AV_OPERATOR d"])
      (simp_all add: block_barrier_def Let_def)
  have "barrier_checks ?b d1 = None"
    by (rule checks_cong [OF _ _ _ _ _ _ _ _ _ _ assms(3)])
      (use d1(1) assms(2) checks_None [OF assms(3)] in \<open>simp_all add: graph_rows_eq\<close>)
  then obtain d2 where fl: "flush_barrier ?b d1 = Inr d2" by (simp add: flush_barrier_def)
  have row: "tbl_get bar_id bid (db_barriers d2) = Some ?b"
    using get_flushed [OF fl] d1(1) assms(1) bid by (simp add: graph_rows_eq)
  have bars: "db_barriers d2 = tbl_update (\<lambda>r. bar_id r = bid) (\<lambda>r. ?b) (db_barriers d)" "db_manifests d2 = db_manifests d"
    "db_heads d2 = db_heads d" using flush_barrierE(2) [OF fl] d1 bid by (simp_all add: graph_rows_eq)
  have only: "r = b" if "r \<in> set (db_barriers d)" "bar_id r = bid" for r
    using that assms(1,9) tbl_get_distinct [of bar_id "db_barriers d" r] by simp
  have "map (\<lambda>r. xs) (filter P (tbl_update (\<lambda>r. bar_id r = bid) (\<lambda>r. ?b) t)) = map (\<lambda>r. xs) (filter P t)"
    if "set t \<subseteq> set (db_barriers d)" "P = (\<lambda>r. bar_closure_manifest_id r = Some j \<and> barrier_is_open (bar_status r))"
    for t P j and xs :: "json list"
    using that(1)
  proof (induction t)
    case (Cons r t)
    have "bar_id r = bid \<Longrightarrow> P ?b = P r"
      using only [of r] Cons.prems assms(2) that(2) by (simp add: barrier_is_open_def)
    with Cons show ?case by simp
  qed simp
  then have "protected_claim_ids env d2 = protected_claim_ids env d"
    unfolding protected_claim_ids_def bars by simp
  moreover have "\<exists>msg. process_barrier env True clk t call bid d2 = Inl (BarrierBlockedError msg)" for clk t call
    using row by (simp add: process_barrier_def writer_gate_def)
  ultimately show ?thesis using run blk fl row bars(3) by auto
qed

lemma uuid4_steps [simp]:
  "db_uuid4 (snd (invalidate_head snap p clk c d)) = db_uuid4 d"
  "db_uuid4 (snd (enqueue_job snap reason c d)) = db_uuid4 d"
  "db_uuid4 (snd (enqueue_invalid_question env snap c d)) = db_uuid4 d"
  by (simp add: invalidate_head_def split: option.split, simp add: enqueue_job_def uuid4_def,
      simp add: enqueue_invalid_question_def Let_def)

lemma fold_uuid4: "db_uuid4 (snd (snd (fold (invalidate_claim env snap p reason clk) cs s))) = db_uuid4 (snd (snd s))"
proof (induction cs arbitrary: s)
  case (Cons c cs)
  obtain i j d where s: "s = (i, j, d)" by (cases s)
  have "db_uuid4 (snd (snd (invalidate_claim env snap p reason clk c s))) = db_uuid4 (snd (snd s))"
    by (simp add: s invalidate_claim_eq Let_def)
  with Cons show ?case by simp
qed simp

lemma batch_uuid4:
  assumes "invalidate_batch env snap p reason clk cs sid None d = (hit, jobs, d')"
  shows "db_uuid4 d' = db_uuid4 d"
  using assms fold_uuid4 [of env snap p reason clk cs "(0, 0, d)"] by (auto simp: invalidate_batch_def split: prod.splits)

lemma manifest_uuid4: "get_or_create_manifest env c d = Inr (m, sha, d') \<Longrightarrow> db_uuid4 d' = db_uuid4 d"
  by (auto simp: get_or_create_manifest_def Let_def split: option.splits if_splits)

lemma live_current_some:
  assumes "revision_of d ''dependency_graph'' = Inr k" and "x \<in> set (cr_claim_ids (compute_reverse_closure (evidential_edges d) r k))"
    and "h \<in> set (db_heads d)" and "is_current_head snap x h"
  shows "\<exists>cur. live_current_descendants d r snap = Inr cur \<and> cur \<noteq> []"
proof -
  let ?ids = "cr_claim_ids (compute_reverse_closure (evidential_edges d) r k)"
  have "?ids \<noteq> []" using assms(2) by auto
  moreover have "filter (\<lambda>h. hd_config_snapshot_id h = snap \<and> hd_assessment_state h = AS_CURRENT \<and> hd_claim_id h \<in> set ?ids) (db_heads d) \<noteq> []"
    using assms(2-4) by (auto simp: filter_empty_conv is_current_head_def)
  ultimately show ?thesis using assms(1) by (simp add: live_current_descendants_def)
qed

subsection \<open>Two cascades the constraints of the table stop\<close>

text \<open>
  A claim that is reassessed while its barrier is open stops the barrier.  When the cursor stands at
  the last window and a claim before it has a current head again, the final scan sets the status
  discovering while the row still names its manifest; the table refuses that row, the call raises
  \<open>IntegrityError\<close>, and the window is rolled back with it.
\<close>

theorem reassessed_dependent_stops_the_barrier:
  assumes "barrier_at env snap bid ids k d" and "length ids \<le> k + BATCH_SIZE"
    and "x \<in> set (take k ids)" and "x \<notin> set (drop k ids)" and "\<not> no_current_head snap x d"
  shows "process_barrier env True clk t call bid d = Inl (IntegrityError ''dependency_invalidation_barriers_check'')"
  using assms(1)
proof (cases rule: barrier_call [where clk = clk and t = t and call = call])
  case (1 b m hit d1)
  let ?b = "b\<lparr>bar_next_offset := int (length ids), bar_status := BS_CLOSING\<rparr>"
  have rows: "get_revision d1 ''knowledge'' \<noteq> None" "revision_of d1 ''dependency_graph'' = Inr (bar_graph_revision b)"
    "evidential_edges d1 = evidential_edges d"
    using assms(1) 1(11,12) by (auto simp: barrier_at_def graph_rows_eq get_revision_def revision_of_def evidential_edges_def)
  have "\<not> no_current_head snap x d1"
    using invalidates_current [OF 1(13), of x] assms(4,5) by (auto dest: in_set_takeD)
  then obtain r where r: "r \<in> set (db_heads d1)" "is_current_head snap x r" by (auto simp: no_current_head_def list_ex_iff)
  have "x \<in> set (cr_claim_ids (compute_reverse_closure (evidential_edges d1) (bar_root_claim_id b) (bar_graph_revision b)))"
    using assms(3) 1(10) rows(3) by (auto simp: closure_members dest: in_set_takeD)
  then obtain cur where cur: "live_current_descendants d1 (bar_root_claim_id b) snap = Inr cur" "cur \<noteq> []"
    using live_current_some [OF rows(2) _ r] by blast
  then have fs: "final_scan call snap (bar_graph_revision b) ?b d1 = Inr (?b\<lparr>bar_status := BS_DISCOVERING, bar_last_error := None\<rparr>, d1)"
    by (simp add: final_scan_def)
  obtain d2 where k: "(if 0 < hit then map_sum id snd (bump_knowledge_revision d1) else Inr d1) = Inr d2" by (rule bump_ok [OF rows(1)])
  have "flush_barrier (?b\<lparr>bar_status := BS_DISCOVERING, bar_last_error := None, bar_updated_at := t\<rparr>) d2 =
      Inl (IntegrityError ''dependency_invalidation_barriers_check'')"
    using 1(5) by (simp add: flush_barrier_def barrier_checks_def)
  then show ?thesis unfolding 1(14) using assms(2) fs k by (simp add: finish_step_def)
qed

text \<open>
  A root can have one large cascade.  A barrier is always created with generation 1, and (root,
  generation) is unique: while any earlier barrier of the root is still at generation 1, resolved or
  not, a cascade whose closure exceeds the inline limit raises \<open>IntegrityError\<close>, so not even the root is
  invalidated.
\<close>

theorem second_large_cascade_is_refused:
  assumes "load_closure d0 (cc_root_claim_id call) = Inr c" and "INLINE_CLOSURE_LIMIT < closure_count c"
    and "revision_of d ''dependency_graph'' = Inr (cr_graph_revision c)" and "effective_snapshot_id d = Inr snap"
    and "get_or_create_manifest env c d = Inr (m, sha, d1)"
    and "b \<in> set (db_barriers d)" and "bar_root_claim_id b = cc_root_claim_id call" and "bar_generation b = 1"
    and "bar_id b \<notin> range (db_uuid4 d)"
  shows "start_cascade env True clk call d0 d =
    Inl (IntegrityError ''dependency_invalidation_barriers_root_claim_id_generation_key'')"
proof -
  obtain h1 j1 d2 where bt: "invalidate_batch env snap (cc_actor call) (root_reason call) clk [cc_root_claim_id call]
      (cc_session_id call) None d1 = (h1, j1, d2)" by (metis prod_cases3)
  have bars: "db_barriers d2 = db_barriers d" using batch_graph [OF bt] manifest_frame(6) [OF assms(5)] by (simp add: graph_rows_eq)
  have draws: "db_uuid4 d2 = db_uuid4 d" using batch_uuid4 [OF bt] manifest_uuid4 [OF assms(5)] by simp
  let ?b = "new_barrier call c m (db_uuid4 d2 (db_draws d2)) (db_now d2)"
  have "list_ex (\<lambda>r. bar_id r \<noteq> bar_id ?b \<and> bar_root_claim_id r = bar_root_claim_id ?b \<and> bar_generation r = bar_generation ?b)
      (db_barriers d2)"
    using assms(6-9) bars draws by (auto simp: list_ex_iff new_barrier_def)
  then have "insert_barrier ?b (d2\<lparr>db_draws := Suc (db_draws d2)\<rparr>) =
      Inl (IntegrityError ''dependency_invalidation_barriers_root_claim_id_generation_key'')"
    by (simp add: insert_barrier_def barrier_checks_def) (simp add: new_barrier_def)
  then have "open_barrier env clk call snap c m d2 =
      Inl (IntegrityError ''dependency_invalidation_barriers_root_claim_id_generation_key'')"
    by (simp add: open_barrier_def uuid4_def)
  then show ?thesis using assms(1-5) bt by (simp add: start_cascade_def writer_gate_def run_cascade_def)
qed

subsection \<open>Examples\<close>

text \<open>A star of 37 claims that rest on claim 2, and a host whose hash is a constant.\<close>

definition star_db :: db where
  "star_db = empty_db\<lparr>db_dependencies := map (\<lambda>i. edge i 2) [3..<40], db_heads := map current_head [2..<40]\<rparr>"

definition const_env :: cascade_env where
  "const_env = \<lparr>cv_host = \<lparr>host_frepr = (\<lambda>_. []), host_sha256 = (\<lambda>_. ''good'')\<rparr>, cv_uuid5 = (\<lambda>ns name. 7), cv_reask = ''Reassess: ''\<rparr>"

lemma star_edges: "evidential_edges star_db = map (\<lambda>i. (i, 2)) [3..<40]"
proof -
  have "filter (\<lambda>r. dep_kind r = DEP_EVIDENTIAL) (map (\<lambda>i. edge i 2) xs) = map (\<lambda>i. edge i 2) xs" for xs
    by (induction xs) (simp_all add: edge_def)
  then show ?thesis by (simp add: evidential_edges_def star_db_def edge_def comp_def del: upt_rec_numeral)
qed

lemma star_closure:
  "load_closure star_db 2 = Inr (compute_reverse_closure (map (\<lambda>i. (i, 2)) [3..<40]) 2 0)"
  "closure_count (compute_reverse_closure (map (\<lambda>i. (i, 2)) [3..<40]) 2 g) = 37"
proof -
  have "revision_of star_db ''dependency_graph'' = Inr 0" by (simp add: revision_of_def get_revision_def star_db_def empty_db_def)
  then show "load_closure star_db 2 = Inr (compute_reverse_closure (map (\<lambda>i. (i, 2)) [3..<40]) 2 0)"
    by (simp add: load_closure_def star_edges del: upt_rec_numeral)
  let ?E = "set (map (\<lambda>i. (i, 2 :: nat)) [3..<40 :: nat])"
  have E: "?E = {(x, y). y = 2 \<and> x \<in> {3..<40}}" by (auto simp del: upt_rec_numeral)
  have "(x, y) \<in> ?E\<^sup>+ \<Longrightarrow> y = 2 \<and> x \<in> {3..<40}" for x y
    unfolding E by (induction rule: trancl_induct) auto
  moreover have "(x, 2) \<in> ?E\<^sup>+" if "x \<in> {3..<40}" for x using that unfolding E by (intro r_into_trancl) simp
  ultimately have "{c. c \<noteq> 2 \<and> (c, 2) \<in> ?E\<^sup>+} = {3..<40}" by fastforce
  then have "set (cr_claim_ids (compute_reverse_closure (map (\<lambda>i. (i, 2)) [3..<40]) 2 g)) = {3..<40}"
    by (simp only: closure_members)
  then show "closure_count (compute_reverse_closure (map (\<lambda>i. (i, 2)) [3..<40]) 2 g) = 37"
    using distinct_card [OF distinct_closure, of "map (\<lambda>i. (i, 2)) [3..<40]" 2 g] by (simp add: closure_count_def del: upt_rec_numeral)
qed

lemma barrier_start_succeeds:
  assumes c: "load_closure d (cc_root_claim_id call) = Inr c" "INLINE_CLOSURE_LIMIT < closure_count c"
    and d: "effective_snapshot_id d = Inr snap" "get_revision d ''knowledge'' \<noteq> None" "db_barriers d = []" "db_manifests d = []"
  shows "\<exists>res d' bid. start_cascade env True clk call d d = Inr (res, d') \<and> cs_mode res = CM_barrier
    \<and> cs_barrier_id res = Some bid \<and> cs_closure_count res = closure_count c"
proof -
  let ?m = "manifest_for env (db_now d) c"
  let ?d1 = "d\<lparr>db_manifests := [?m]\<rparr>"
  have m: "get_or_create_manifest env c d = Inr (?m, cm_sha256 ?m, ?d1)" using d by (simp add: get_or_create_manifest_def Let_def)
  obtain h1 j1 d2 where b1: "invalidate_batch env snap (cc_actor call) (root_reason call) clk [cc_root_claim_id call]
      (cc_session_id call) None ?d1 = (h1, j1, d2)" by (metis prod_cases3)
  have g1: "graph_rows d2 = graph_rows ?d1" by (rule batch_graph [OF b1])
  let ?bid = "db_uuid4 d2 (db_draws d2)"
  let ?b = "new_barrier call c ?m ?bid (db_now d2)"
  have ck: "barrier_checks ?b (d2\<lparr>db_draws := Suc (db_draws d2)\<rparr>) = None"
    using g1 d by (simp add: barrier_checks_def graph_rows_eq) (simp add: new_barrier_def)
  let ?d3 = "d2\<lparr>db_draws := Suc (db_draws d2), db_barriers := [?b]\<rparr>"
  have ins: "insert_barrier ?b (d2\<lparr>db_draws := Suc (db_draws d2)\<rparr>) = Inr ?d3"
    using ck g1 d by (simp add: insert_barrier_def graph_rows_eq)
  obtain h2 j2 d4 where b2: "invalidate_batch env snap (cc_actor call) (cc_reason call) clk (closure_batch c 0 BATCH_SIZE)
      (cc_session_id call) (Some (?bid, 0)) ?d3 = (h2, j2, d4)" by (metis prod_cases3)
  have g2: "graph_rows d4 = graph_rows ?d3" by (rule batch_graph [OF b2])
  let ?b1 = "?b\<lparr>bar_next_offset := int (length (closure_batch c 0 BATCH_SIZE)),
      bar_status := if length (closure_batch c 0 BATCH_SIZE) < closure_count c then BS_ACTIVE else BS_CLOSING\<rparr>"
  have "barrier_checks ?b1 d4 = None" using g2 by (simp add: barrier_checks_def graph_rows_eq) (simp add: new_barrier_def)
  then obtain d5 where fl: "flush_barrier ?b1 d4 = Inr d5" by (simp add: flush_barrier_def)
  have ob: "open_barrier env clk call snap c ?m d2 = Inr (h2, j2, ?bid, d5)"
    unfolding open_barrier_def uuid4_def Let_def prod.case ins sum.case b2 fl ..
  have "get_revision d5 ''knowledge'' = get_revision d ''knowledge''"
    using flush_barrierE(2) [OF fl] g2 g1 by (simp add: get_revision_def graph_rows_eq)
  then have "\<exists>res d'. finish_start call c (cm_sha256 ?m) CM_barrier (Some ?bid) (h1 + h2) (j1 + j2) d5 = Inr (res, d')"
    using d(2) by (auto simp: finish_start_def bump_knowledge_revision_def Let_def)
  then obtain res d' where fin: "finish_start call c (cm_sha256 ?m) CM_barrier (Some ?bid) (h1 + h2) (j1 + j2) d5 = Inr (res, d')" by blast
  have "start_cascade env True clk call d d = Inr (res, d')"
    using c d(1) load_closureD(3) [OF c(1)] m b1 ob fin by (simp add: start_cascade_def writer_gate_def run_cascade_def)
  then show ?thesis using finish_startE(1,3,4) [OF fin] by blast
qed

lemma star_facts:
  "effective_snapshot_id star_db = Inr 1" "get_revision star_db ''knowledge'' \<noteq> None" "db_barriers star_db = []"
  "db_manifests star_db = []" "content_addressed env star_db" "\<forall>r\<in>set (db_dependencies star_db). dep_from_claim_id r < 2 ^ 128"
  by (auto simp: star_db_def empty_db_def effective_snapshot_id_def get_revision_def content_addressed_def edge_def simp del: upt_rec_numeral)

lemma star_call: "cc_root_claim_id chain_call = 2"
  by (simp add: chain_call_def)

theorem barrier_drains_witness:
  "\<exists>res d' bid d''. start_cascade chain_env True (\<lambda>c. 0) chain_call star_db star_db = Inr (res, d')
     \<and> cs_barrier_id res = Some bid
     \<and> process_times chain_env (\<lambda>c. 0) 0 \<lparr>bc_actor = ''system:barrier'', bc_session_id = None\<rparr> bid 0 d' = Inr (BS_RESOLVED, d'')"
proof -
  let ?c = "compute_reverse_closure (map (\<lambda>i. (i, 2)) [3..<40]) 2 0"
  have c: "load_closure star_db (cc_root_claim_id chain_call) = Inr ?c" using star_closure(1) by (simp only: star_call)
  have big: "INLINE_CLOSURE_LIMIT < closure_count ?c" by (simp only: star_closure(2)) (simp add: INLINE_CLOSURE_LIMIT_def)
  obtain res d' bid where st: "start_cascade chain_env True (\<lambda>c. 0) chain_call star_db star_db = Inr (res, d')"
    and mode: "cs_mode res = CM_barrier" and bid: "cs_barrier_id res = Some bid" and cnt: "cs_closure_count res = closure_count ?c"
    using barrier_start_succeeds [OF c big star_facts(1-4)] by blast
  have n: "(cs_closure_count res - 1) div BATCH_SIZE - 1 = 0" by (simp only: cnt star_closure(2)) (simp add: BATCH_SIZE_def)
  have fresh: "bid \<notin> bar_id ` set (db_barriers star_db)" by (simp add: star_facts(3))
  from barrier_drains [OF st mode bid fresh star_facts(1,2) _ star_facts(5,6), of "\<lambda>c. 0" 0] st bid
  show ?thesis unfolding n by blast
qed

theorem resolved_barrier_has_no_current_dependent_witness:
  "\<exists>res d' bid b. start_cascade chain_env True (\<lambda>c. 0) chain_call star_db star_db = Inr (res, d')
     \<and> tbl_get bar_id bid (db_barriers d') = Some b \<and> bar_status b = BS_ACTIVE
     \<and> (\<exists>d''. process_barrier chain_env True (\<lambda>c. 0) 0 \<lparr>bc_actor = ''system:barrier'', bc_session_id = None\<rparr> bid d' = Inr (BS_RESOLVED, d'')
          \<and> (\<exists>b'. tbl_get bar_id bid (db_barriers d'') = Some b' \<and> bar_status b' = BS_RESOLVED))"
proof -
  let ?c = "compute_reverse_closure (map (\<lambda>i. (i, 2)) [3..<40]) 2 0"
  let ?call = "\<lparr>bc_actor = ''system:barrier'', bc_session_id = None\<rparr>"
  have c: "load_closure star_db (cc_root_claim_id chain_call) = Inr ?c" using star_closure(1) by (simp only: star_call)
  have big: "INLINE_CLOSURE_LIMIT < closure_count ?c" by (simp only: star_closure(2)) (simp add: INLINE_CLOSURE_LIMIT_def)
  obtain res d' bid where st: "start_cascade chain_env True (\<lambda>c. 0) chain_call star_db star_db = Inr (res, d')"
    and mode: "cs_mode res = CM_barrier" and bid: "cs_barrier_id res = Some bid" and cnt: "cs_closure_count res = closure_count ?c"
    using barrier_start_succeeds [OF c big star_facts(1-4)] by blast
  have fresh: "bid \<notin> bar_id ` set (db_barriers star_db)" by (simp add: star_facts(3))
  obtain ids where dr: "draining chain_env 1 bid ids BATCH_SIZE d'" and len: "length ids = closure_count ?c"
    using started_draining [OF st mode bid fresh star_facts(1,2) _ star_facts(5,6)] cnt by auto
  have "length ids \<le> BATCH_SIZE + BATCH_SIZE" by (simp only: len star_closure(2)) (simp add: BATCH_SIZE_def)
  from drain_last [OF dr this] obtain d'' where p: "process_barrier chain_env True (\<lambda>c. 0) 0 ?call bid d' = Inr (BS_RESOLVED, d'')" by blast
  obtain b where b: "tbl_get bar_id bid (db_barriers d') = Some b" "bar_status b = BS_ACTIVE" "bar_status b \<noteq> BS_RESOLVED"
    and snap: "effective_snapshot_id d' = Inr 1" using dr by (auto simp: draining_def barrier_at_def)
  from resolved_barrier_has_no_current_dependent [OF p b(1,3) snap] p b st show ?thesis by blast
qed

text \<open>A barrier over the chain 4, 3, 2 with the cursor at its second claim; claim 3 is current.\<close>

definition small_manifest :: "string \<Rightarrow> manifest_row" where
  "small_manifest sha = \<lparr>cm_id = 7, cm_root_claim_id = 2, cm_graph_revision = 0,
     cm_claim_ids = map (JStr \<circ> uuid_str) [3, 4], cm_ranks = [], cm_count = 2, cm_sha256 = sha, cm_created_at = 0\<rparr>"

definition small_barrier :: barrier_row where
  "small_barrier = \<lparr>bar_id = 8, bar_root_claim_id = 2, bar_graph_revision = 0, bar_generation = 1, bar_status = BS_ACTIVE,
     bar_closure_manifest_id = Some 7, bar_member_count = 2, bar_next_offset = 1, bar_last_error = None, bar_created_at = 0,
     bar_updated_at = 0, bar_resolved_at = None\<rparr>"

definition small_db :: "string \<Rightarrow> db" where
  "small_db sha = chain_db\<lparr>db_manifests := [small_manifest sha], db_barriers := [small_barrier]\<rparr>"

lemma small_facts:
  "tbl_get bar_id 8 (db_barriers (small_db sha)) = Some small_barrier" "barrier_checks small_barrier (small_db sha) = None"
  "effective_snapshot_id (small_db sha) = Inr 1" "get_revision (small_db sha) ''knowledge'' \<noteq> None"
  "revision_of (small_db sha) ''dependency_graph'' = Inr 0" "tbl_get cm_id 7 (db_manifests (small_db sha)) = Some (small_manifest sha)"
  "verify_manifest (cv_host const_env) (small_manifest sha) = (if sha = ''good'' then None else Some ''manifest_hash_mismatch'')"
  "evidential_edges (small_db sha) = evidential_edges chain_db"
  by (simp_all add: small_db_def small_barrier_def small_manifest_def chain_db_def empty_db_def barrier_checks_def
      effective_snapshot_id_def get_revision_def revision_of_def evidential_edges_def verify_manifest_def const_env_def
      host_canonical_sha256_def canonical_sha256_def)

lemma small_fields [simp]:
  "cm_id (small_manifest sha) = 7" "cm_count (small_manifest sha) = 2" "bar_status small_barrier = BS_ACTIVE"
  "bar_closure_manifest_id small_barrier = Some 7" "bar_next_offset small_barrier = 1" "bar_graph_revision small_barrier = 0"
  by (simp_all add: small_manifest_def small_barrier_def)

theorem tampered_manifest_blocks_the_barrier_witness:
  "\<exists>d'. process_barrier const_env True (\<lambda>c. 0) 0 \<lparr>bc_actor = ''system:barrier'', bc_session_id = None\<rparr> 8 (small_db ''bad'') = Inr (BS_BLOCKED, d')
     \<and> db_heads d' = db_heads (small_db ''bad'')"
proof -
  have a: "bar_status small_barrier = BS_ACTIVE" "bar_closure_manifest_id small_barrier = Some 7"
    "revision_of (small_db ''bad'') ''dependency_graph'' = Inr (bar_graph_revision small_barrier)"
    "verify_manifest (cv_host const_env) (small_manifest ''bad'') \<noteq> None"
    "distinct (map bar_id (db_barriers (small_db ''bad'')))"
    by (simp_all add: small_facts) (simp add: small_db_def)
  from tampered_manifest_blocks_the_barrier [OF small_facts(1) a(1) small_facts(2,3) a(3,2) small_facts(6) a(4,5)]
  show ?thesis by blast
qed

theorem reassessed_dependent_stops_the_barrier_witness:
  "process_barrier const_env True (\<lambda>c. 0) 0 \<lparr>bc_actor = ''system:barrier'', bc_session_id = None\<rparr> 8 (small_db ''good'')
     = Inl (IntegrityError ''dependency_invalidation_barriers_check'')"
proof -
  have "as_uuids (cv_host const_env) (cm_claim_ids (small_manifest ''good'')) = Inr [3, 4]"
    using as_uuids_written [of "[3, 4]"] by (simp add: small_manifest_def)
  moreover have "set [3, 4] = {x. x \<noteq> bar_root_claim_id small_barrier \<and> (x, bar_root_claim_id small_barrier) \<in> (set (evidential_edges (small_db ''good'')))\<^sup>+}"
    using load_closureD(1) [OF chain_closure] by (simp add: small_facts small_barrier_def)
  ultimately have at: "barrier_at const_env 1 8 [3, 4] 1 (small_db ''good'')"
    unfolding barrier_at_def
    by (intro conjI exI [of _ small_barrier] exI [of _ "small_manifest ''good''"])
      (simp_all add: small_facts)
  have "\<not> no_current_head 1 3 (small_db ''good'')"
    by (simp add: no_current_head_def small_db_def chain_db_def current_head_def is_current_head_def)
  then show ?thesis
    using reassessed_dependent_stops_the_barrier [OF at, of 3] by (simp add: BATCH_SIZE_def)
qed

theorem second_large_cascade_is_refused_witness:
  "\<exists>b. b\<lparr>bar_status := BS_RESOLVED\<rparr> \<in> set (db_barriers (star_db\<lparr>db_barriers := [small_barrier\<lparr>bar_status := BS_RESOLVED\<rparr>]\<rparr>))
     \<and> start_cascade const_env True (\<lambda>c. 0) chain_call star_db (star_db\<lparr>db_barriers := [small_barrier\<lparr>bar_status := BS_RESOLVED\<rparr>]\<rparr>)
       = Inl (IntegrityError ''dependency_invalidation_barriers_root_claim_id_generation_key'')"
proof -
  let ?d = "star_db\<lparr>db_barriers := [small_barrier\<lparr>bar_status := BS_RESOLVED\<rparr>]\<rparr>"
  let ?c = "compute_reverse_closure (map (\<lambda>i. (i, 2)) [3..<40]) 2 0"
  let ?m = "manifest_for const_env (db_now ?d) ?c"
  have c: "load_closure star_db (cc_root_claim_id chain_call) = Inr ?c" using star_closure(1) by (simp only: star_call)
  have big: "INLINE_CLOSURE_LIMIT < closure_count ?c" by (simp only: star_closure(2)) (simp add: INLINE_CLOSURE_LIMIT_def)
  have r: "revision_of ?d ''dependency_graph'' = Inr (cr_graph_revision ?c)"
    using load_closureD(3) [OF c] by (simp add: revision_of_def get_revision_def del: upt_rec_numeral)
  have s: "effective_snapshot_id ?d = Inr 1" using star_facts(1) by (simp add: effective_snapshot_id_def)
  have m: "get_or_create_manifest const_env ?c ?d = Inr (?m, cm_sha256 ?m, ?d\<lparr>db_manifests := [?m]\<rparr>)"
    using star_facts(4) by (simp add: get_or_create_manifest_def Let_def del: upt_rec_numeral)
  have b: "small_barrier\<lparr>bar_status := BS_RESOLVED\<rparr> \<in> set (db_barriers ?d)" by simp
  have f: "bar_root_claim_id (small_barrier\<lparr>bar_status := BS_RESOLVED\<rparr>) = cc_root_claim_id chain_call"
    "bar_generation (small_barrier\<lparr>bar_status := BS_RESOLVED\<rparr>) = 1"
    "bar_id (small_barrier\<lparr>bar_status := BS_RESOLVED\<rparr>) \<notin> range (db_uuid4 ?d)"
    by (auto simp: small_barrier_def chain_call_def star_db_def empty_db_def simp del: upt_rec_numeral)
  from second_large_cascade_is_refused [OF c big r s m b f] show ?thesis by auto
qed

end
