(* ===== verification/UnionFind.thy ===== *)
theory UnionFind
  imports PyData
begin

section \<open>Union-find\<close>

text \<open>
  The nested functions \<open>find\<close> (with path halving) and \<open>union\<close> of \<open>packages/memory/independence.py\<close> on
  the dict \<open>parent\<close>, and the contract their clients rely on: a partition whose classes a union
  merges, refined by the parent pointers.  A lookup that does not end is the value \<open>None\<close>; a lookup
  of an unknown node is a \<open>KeyError\<close>.
\<close>

partial_function (option) uf_find ::
  "(uuid \<rightharpoonup> uuid) \<Rightarrow> uuid \<Rightarrow> (exn + uuid \<times> (uuid \<rightharpoonup> uuid)) option" where
  "uf_find parent x =
     (case parent x of
        None \<Rightarrow> Some (Inl (KeyError (uuid_str x)))
      | Some y \<Rightarrow>
          if y = x then Some (Inr (x, parent))
          else case parent y of
            None \<Rightarrow> Some (Inl (KeyError (uuid_str y)))
          | Some z \<Rightarrow> uf_find (parent(x \<mapsto> z)) z)"

definition uf_union :: "(uuid \<rightharpoonup> uuid) \<Rightarrow> uuid \<Rightarrow> uuid \<Rightarrow> (exn + (uuid \<rightharpoonup> uuid)) option" where
  "uf_union parent a b =
     (case uf_find parent a of None \<Rightarrow> None | Some (Inl e) \<Rightarrow> Some (Inl e) | Some (Inr (ra, p1)) \<Rightarrow>
      case uf_find p1 b of None \<Rightarrow> None | Some (Inl e) \<Rightarrow> Some (Inl e) | Some (Inr (rb, p2)) \<Rightarrow>
        Some (Inr (if ra \<noteq> rb then p2(ra \<mapsto> rb) else p2)))"

text \<open>A loop that unites the pairs of a list.\<close>

fun unite_all ::
  "('s \<Rightarrow> 'a \<Rightarrow> 'a \<Rightarrow> (exn + 's) option) \<Rightarrow> ('a \<times> 'a) list \<Rightarrow> 's \<Rightarrow> (exn + 's) option" where
  "unite_all unite [] s = Some (Inr s)"
| "unite_all unite ((a, b) # ps) s =
     (case unite s a b of None \<Rightarrow> None | Some (Inl e) \<Rightarrow> Some (Inl e) | Some (Inr s') \<Rightarrow> unite_all unite ps s')"

subsection \<open>The contract of a partition\<close>

locale partition_store =
  fixes inv :: "'s \<Rightarrow> bool" and elems :: "'s \<Rightarrow> 'a set" and rep :: "'s \<Rightarrow> 'a \<Rightarrow> 'a"
    and find :: "'s \<Rightarrow> 'a \<Rightarrow> (exn + 'a \<times> 's) option"
    and unite :: "'s \<Rightarrow> 'a \<Rightarrow> 'a \<Rightarrow> (exn + 's) option"
  assumes find_ok: "inv s \<Longrightarrow> a \<in> elems s \<Longrightarrow>
      \<exists>s'. find s a = Some (Inr (rep s a, s')) \<and> inv s' \<and> elems s' = elems s \<and> (\<forall>x\<in>elems s. rep s' x = rep s x)"
    and unite_ok: "inv s \<Longrightarrow> a \<in> elems s \<Longrightarrow> b \<in> elems s \<Longrightarrow>
      \<exists>s'. unite s a b = Some (Inr s') \<and> inv s' \<and> elems s' = elems s
        \<and> (\<forall>x\<in>elems s. \<forall>y\<in>elems s. rep s' x = rep s' y \<longleftrightarrow>
             rep s x = rep s y \<or> (rep s x = rep s a \<and> rep s y = rep s b) \<or> (rep s x = rep s b \<and> rep s y = rep s a))"
begin

lemma unite_all_ok:
  assumes "inv s" and "set ps \<subseteq> elems s \<times> elems s"
  shows "\<exists>s'. unite_all unite ps s = Some (Inr s') \<and> inv s' \<and> elems s' = elems s
    \<and> (\<forall>x\<in>elems s. \<forall>y\<in>elems s. rep s x = rep s y \<longrightarrow> rep s' x = rep s' y)
    \<and> (\<forall>(a, b)\<in>set ps. rep s' a = rep s' b)
    \<and> (\<forall>R. sym R \<and> set ps \<subseteq> R \<and> (\<forall>x\<in>elems s. \<forall>y\<in>elems s. rep s x = rep s y \<longrightarrow> (x, y) \<in> R\<^sup>*) \<longrightarrow>
         (\<forall>x\<in>elems s. \<forall>y\<in>elems s. rep s' x = rep s' y \<longrightarrow> (x, y) \<in> R\<^sup>*))"
  using assms
proof (induction ps arbitrary: s)
  case (Cons p ps)
  obtain a b where p: "p = (a, b)" by fastforce
  with Cons.prems have ab: "a \<in> elems s" "b \<in> elems s" by auto
  obtain s1 where u: "unite s a b = Some (Inr s1)" "inv s1" "elems s1 = elems s"
    and k: "\<forall>x\<in>elems s. \<forall>y\<in>elems s. rep s1 x = rep s1 y \<longleftrightarrow>
      rep s x = rep s y \<or> (rep s x = rep s a \<and> rep s y = rep s b) \<or> (rep s x = rep s b \<and> rep s y = rep s a)"
    using unite_ok [OF Cons.prems(1) ab] by blast
  have sub: "set ps \<subseteq> elems s1 \<times> elems s1" using Cons.prems(2) u(3) by auto
  from Cons.IH [OF u(2) sub, unfolded u(3)] obtain s2 where
    v: "unite_all unite ps s1 = Some (Inr s2)" "inv s2" "elems s2 = elems s"
    and w: "\<forall>x\<in>elems s. \<forall>y\<in>elems s. rep s1 x = rep s1 y \<longrightarrow> rep s2 x = rep s2 y"
      "\<forall>(a, b)\<in>set ps. rep s2 a = rep s2 b"
    and r: "\<forall>R. sym R \<and> set ps \<subseteq> R \<and> (\<forall>x\<in>elems s. \<forall>y\<in>elems s. rep s1 x = rep s1 y \<longrightarrow> (x, y) \<in> R\<^sup>*) \<longrightarrow>
         (\<forall>x\<in>elems s. \<forall>y\<in>elems s. rep s2 x = rep s2 y \<longrightarrow> (x, y) \<in> R\<^sup>*)" by (elim exE conjE) (rule that)
  have keep: "\<forall>x\<in>elems s. \<forall>y\<in>elems s. rep s x = rep s y \<longrightarrow> rep s2 x = rep s2 y" using k w(1) by blast
  have new: "rep s2 a = rep s2 b" using k w(1) ab by blast
  have "\<forall>x\<in>elems s. \<forall>y\<in>elems s. rep s2 x = rep s2 y \<longrightarrow> (x, y) \<in> R\<^sup>*"
    if R: "sym R" "set (p # ps) \<subseteq> R" "\<forall>x\<in>elems s. \<forall>y\<in>elems s. rep s x = rep s y \<longrightarrow> (x, y) \<in> R\<^sup>*" for R
  proof -
    have e: "(a, b) \<in> R\<^sup>*" "(b, a) \<in> R\<^sup>*" using R(1,2) p by (auto dest: symD)
    have "\<forall>x\<in>elems s. \<forall>y\<in>elems s. rep s1 x = rep s1 y \<longrightarrow> (x, y) \<in> R\<^sup>*"
    proof (intro ballI impI)
      fix x y assume xy: "x \<in> elems s" "y \<in> elems s" "rep s1 x = rep s1 y"
      then consider "rep s x = rep s y" | "rep s x = rep s a" "rep s b = rep s y" | "rep s x = rep s b" "rep s a = rep s y"
        using k by metis
      then show "(x, y) \<in> R\<^sup>*"
        by cases (use R(3) xy ab e in \<open>meson rtrancl_trans\<close>)+
    qed
    with R(1,2) show ?thesis by (intro r [THEN spec, THEN mp]) simp
  qed
  then have "\<forall>R. sym R \<and> set (p # ps) \<subseteq> R \<and> (\<forall>x\<in>elems s. \<forall>y\<in>elems s. rep s x = rep s y \<longrightarrow> (x, y) \<in> R\<^sup>*) \<longrightarrow>
      (\<forall>x\<in>elems s. \<forall>y\<in>elems s. rep s2 x = rep s2 y \<longrightarrow> (x, y) \<in> R\<^sup>*)" by blast
  moreover have "\<forall>(a, b)\<in>set (p # ps). rep s2 a = rep s2 b" using w(2) new p by simp
  moreover have "unite_all unite (p # ps) s = Some (Inr s2)" using p u(1) v(1) by simp
  ultimately show ?case using v(2,3) keep by blast
qed simp

text \<open>
  From singletons, a run of unions yields exactly the equivalence closure of the united pairs.
\<close>

lemma unite_all_closure:
  assumes "inv s" and "set ps \<subseteq> elems s \<times> elems s" and "\<forall>x\<in>elems s. rep s x = x"
  shows "\<exists>s'. unite_all unite ps s = Some (Inr s') \<and> inv s' \<and> elems s' = elems s
    \<and> (\<forall>x\<in>elems s. \<forall>y\<in>elems s. rep s' x = rep s' y \<longleftrightarrow> (x, y) \<in> (set ps \<union> (set ps)\<inverse>)\<^sup>*)"
proof -
  from unite_all_ok [OF assms(1,2)] obtain s' where s': "unite_all unite ps s = Some (Inr s')" "inv s'" "elems s' = elems s"
    and "\<forall>x\<in>elems s. \<forall>y\<in>elems s. rep s x = rep s y \<longrightarrow> rep s' x = rep s' y"
    and m: "\<forall>(a, b)\<in>set ps. rep s' a = rep s' b"
    and r: "\<forall>R. sym R \<and> set ps \<subseteq> R \<and> (\<forall>x\<in>elems s. \<forall>y\<in>elems s. rep s x = rep s y \<longrightarrow> (x, y) \<in> R\<^sup>*) \<longrightarrow>
         (\<forall>x\<in>elems s. \<forall>y\<in>elems s. rep s' x = rep s' y \<longrightarrow> (x, y) \<in> R\<^sup>*)" by (elim exE conjE) (rule that)
  let ?R = "set ps \<union> (set ps)\<inverse>"
  have sy: "sym ?R" by (auto simp: sym_def)
  have a: "\<forall>x\<in>elems s. \<forall>y\<in>elems s. rep s' x = rep s' y \<longrightarrow> (x, y) \<in> ?R\<^sup>*"
    by (rule r [THEN spec, THEN mp]) (use sy assms(3) in simp)
  have b: "rep s' x = rep s' y" if "(x, y) \<in> ?R\<^sup>*" for x y
    using that by (induction rule: rtrancl_induct) (use m in auto)
  from s' a b show ?thesis by blast
qed

end

subsection \<open>Parent pointers\<close>

text \<open>\<open>path p x n r\<close>: following the pointers from \<open>x\<close> reaches the root \<open>r\<close> after \<open>n\<close> steps.\<close>

inductive path :: "(uuid \<rightharpoonup> uuid) \<Rightarrow> uuid \<Rightarrow> nat \<Rightarrow> uuid \<Rightarrow> bool" for p where
  root: "p r = Some r \<Longrightarrow> path p r 0 r"
| step: "p x = Some y \<Longrightarrow> y \<noteq> x \<Longrightarrow> path p y n r \<Longrightarrow> path p x (Suc n) r"

inductive_cases path_rootE: "path p x 0 r"
inductive_cases path_stepE: "path p x (Suc n) r"

lemma path_root: "path p x n r \<Longrightarrow> p r = Some r"
  by (induction rule: path.induct)

lemma path_unique: "path p x n r \<Longrightarrow> path p x m s \<Longrightarrow> n = m \<and> r = s"
proof (induction arbitrary: m s rule: path.induct)
  case (root r)
  from root(2,1) show ?case by (cases rule: path.cases) auto
next
  case (step x y n r)
  from step.prems step.hyps(1,2) step.IH show ?case by (cases rule: path.cases) auto
qed

lemma path_dom: "path p x n r \<Longrightarrow> x \<in> dom p \<and> r \<in> dom p"
  by (induction rule: path.induct) auto

lemma path_next: "path p y m r \<Longrightarrow> p y = Some z \<Longrightarrow> z \<noteq> y \<Longrightarrow> \<exists>k. m = Suc k \<and> path p z k r"
  by (cases rule: path.cases) auto

definition uf_inv :: "(uuid \<rightharpoonup> uuid) \<Rightarrow> bool" where
  "uf_inv p \<longleftrightarrow> (\<forall>x\<in>dom p. \<exists>n r. path p x n r)"

definition uf_rep :: "(uuid \<rightharpoonup> uuid) \<Rightarrow> uuid \<Rightarrow> uuid" where
  "uf_rep p x = (THE r. \<exists>n. path p x n r)"

lemma uf_rep_path: "path p x n r \<Longrightarrow> uf_rep p x = r"
  unfolding uf_rep_def using path_unique by blast

lemma uf_inv_path: "uf_inv p \<Longrightarrow> x \<in> dom p \<Longrightarrow> \<exists>n. path p x n (uf_rep p x)"
  unfolding uf_inv_def using uf_rep_path by metis

text \<open>Path halving keeps every root and lengthens no path.\<close>

lemma halve_path:
  assumes "p x = Some y" and "y \<noteq> x" and "p y = Some z" and "path p u n r"
  shows "\<exists>m\<le>n. path (p(x \<mapsto> z)) u m r"
  using assms(4)
proof (induction rule: path.induct)
  case (root r)
  then have "r \<noteq> x" using assms(1,2) by auto
  with root show ?case by (auto intro!: path.root)
next
  case (step u v n r)
  then obtain m where m: "m \<le> n" "path (p(x \<mapsto> z)) v m r" by blast
  let ?q = "p(x \<mapsto> z)"
  show ?case
  proof (cases "u = x")
    case False
    then have "?q u = Some v" using step.hyps(1) by simp
    from path.step [of ?q, OF this step.hyps(2) m(2)] m(1) show ?thesis by blast
  next
    case True
    with step.hyps(1) assms(1) have v: "v = y" by simp
    show ?thesis
    proof (cases "z = y")
      case zy: True
      have "?q x = Some y" using zy by simp
      from path.step [of ?q, OF this assms(2)] m v True show ?thesis by blast
    next
      case zy: False
      have py: "?q y = Some z" using assms(2,3) by simp
      from m(2) have "path ?q y m r" using v by simp
      then obtain k where k: "m = Suc k" "path ?q z k r"
        using path_next [of ?q, OF _ py zy] by blast
      have "z \<noteq> x"
      proof
        assume zx: "z = x"
        from step.hyps(3) v obtain l where "n = Suc l" "path p z l r"
          using path_next [of p, OF _ assms(3) zy] by blast
        then have l: "n = Suc l" "path p x l r" using zx by simp_all
        have "path p x (Suc n) r" using path.step [of p, OF step.hyps(1-3)] True by simp
        from path_unique [OF l(2) this] l(1) show False by simp
      qed
      moreover have "?q x = Some z" by simp
      ultimately have "path ?q x (Suc k) r" using path.step [of ?q x z k r] k(2) by simp
      with k m(1) True show ?thesis by (intro exI [of _ "Suc k"]) (simp del: fun_upd_apply)
    qed
  qed
qed

lemma halve_keeps:
  assumes "uf_inv p" and "p x = Some y" and "y \<noteq> x" and "p y = Some z"
  shows "uf_inv (p(x \<mapsto> z)) \<and> dom (p(x \<mapsto> z)) = dom p \<and> (\<forall>u\<in>dom p. uf_rep (p(x \<mapsto> z)) u = uf_rep p u)"
proof -
  have dm: "dom (p(x \<mapsto> z)) = dom p" using assms(2) by auto
  have "\<exists>m. path (p(x \<mapsto> z)) u m (uf_rep p u)" if "u \<in> dom p" for u
    using halve_path [OF assms(2-4)] uf_inv_path [OF assms(1) that] by blast
  then show ?thesis using dm uf_rep_path unfolding uf_inv_def by metis
qed

lemma uf_find_ok:
  assumes "uf_inv p" and "path p a n r"
  shows "\<exists>p'. uf_find p a = Some (Inr (r, p')) \<and> uf_inv p' \<and> dom p' = dom p \<and> (\<forall>x\<in>dom p. uf_rep p' x = uf_rep p x)"
  using assms
proof (induction n arbitrary: p a rule: less_induct)
  case (less n)
  from less.prems(2) show ?case
  proof (cases rule: path.cases)
    case root
    then show ?thesis using less.prems(1) by (subst uf_find.simps) simp
  next
    case (step y m)
    then obtain z where z: "p y = Some z" using path_dom by blast
    let ?q = "p(a \<mapsto> z)"
    note k = halve_keeps [OF less.prems(1) step(2,3) z]
    have "\<exists>l<n. path p z l r"
    proof (cases "z = y")
      case True
      then show ?thesis using step by auto
    next
      case False
      then obtain k where "m = Suc k" "path p z k r" using path_next [OF step(4) z] by blast
      with step(1) show ?thesis by (intro exI [of _ k]) simp
    qed
    then obtain l where l: "l < n" "path ?q z l r"
      using halve_path [OF step(2,3) z] by (meson le_less_trans)
    from less.IH [OF l(1) _ l(2)] k obtain p' where "uf_find ?q z = Some (Inr (r, p'))" "uf_inv p'" "dom p' = dom p"
      "\<forall>x\<in>dom p. uf_rep p' x = uf_rep p x" by metis
    then show ?thesis using step(2,3) z by (subst uf_find.simps) simp
  qed
qed

lemma link_path:
  assumes "p ra = Some ra" and "p rb = Some rb" and "ra \<noteq> rb" and "path p u n r"
  shows "\<exists>m. path (p(ra \<mapsto> rb)) u m (if r = ra then rb else r)"
  using assms(4)
proof (induction rule: path.induct)
  case (root r)
  let ?q = "p(ra \<mapsto> rb)"
  have rb: "path ?q rb 0 rb" using assms(2,3) by (intro path.root) simp
  show ?case
  proof (cases "r = ra")
    case True
    have "path ?q ra (Suc 0) rb" using assms(3) rb by (intro path.step [of ?q ra rb]) simp_all
    with True show ?thesis by (simp del: fun_upd_apply) blast
  next
    case False
    have "path ?q r 0 r" using root False by (intro path.root) simp
    with False show ?thesis by (simp del: fun_upd_apply) blast
  qed
next
  case (step u v n r)
  let ?q = "p(ra \<mapsto> rb)"
  have "u \<noteq> ra" using step.hyps(1,2) assms(1) by auto
  then have "?q u = Some v" using step.hyps(1) by simp
  with step.IH step.hyps(2) show ?case using path.step [of ?q] by blast
qed

lemma uf_union_ok:
  assumes "uf_inv p" and "a \<in> dom p" and "b \<in> dom p"
  shows "\<exists>p'. uf_union p a b = Some (Inr p') \<and> uf_inv p' \<and> dom p' = dom p
    \<and> (\<forall>x\<in>dom p. uf_rep p' x = (if uf_rep p x = uf_rep p a then uf_rep p b else uf_rep p x))"
proof -
  let ?ra = "uf_rep p a" and ?rb = "uf_rep p b"
  obtain n where "path p a n ?ra" using uf_inv_path [OF assms(1,2)] by blast
  from uf_find_ok [OF assms(1) this] obtain p1 where
    f1: "uf_find p a = Some (Inr (?ra, p1))" "uf_inv p1" "dom p1 = dom p" "\<forall>x\<in>dom p. uf_rep p1 x = uf_rep p x" by blast
  obtain m where "path p1 b m ?rb" using uf_inv_path [OF f1(2), of b] f1(3,4) assms(3) by auto
  from uf_find_ok [OF f1(2) this] obtain p2 where
    f2: "uf_find p1 b = Some (Inr (?rb, p2))" "uf_inv p2" "dom p2 = dom p" "\<forall>x\<in>dom p. uf_rep p2 x = uf_rep p x"
    using f1(3,4) by auto
  have u: "uf_union p a b = Some (Inr (if ?ra \<noteq> ?rb then p2(?ra \<mapsto> ?rb) else p2))"
    by (simp add: uf_union_def f1(1) f2(1))
  show ?thesis
  proof (cases "?ra = ?rb")
    case True
    with u f2 show ?thesis by auto
  next
    case False
    have pa: "\<exists>n. path p2 x n (uf_rep p x)" if "x \<in> dom p" for x
      using uf_inv_path [OF f2(2), of x] f2(3,4) that by auto
    then have roots: "p2 ?ra = Some ?ra" "p2 ?rb = Some ?rb" using assms(2,3) path_root by blast+
    let ?q = "p2(?ra \<mapsto> ?rb)"
    have d: "dom ?q = dom p" using f2(3) roots(1) by auto
    have "\<exists>m. path ?q x m (if uf_rep p x = ?ra then ?rb else uf_rep p x)" if "x \<in> dom p" for x
      using link_path [OF roots False] pa [OF that] by blast
    then have "uf_inv ?q" "\<forall>x\<in>dom p. uf_rep ?q x = (if uf_rep p x = ?ra then ?rb else uf_rep p x)"
      using d uf_rep_path unfolding uf_inv_def by metis+
    with u d False show ?thesis by auto
  qed
qed

interpretation uf: partition_store uf_inv dom uf_rep uf_find uf_union
proof
  show "\<exists>s'. uf_find s a = Some (Inr (uf_rep s a, s')) \<and> uf_inv s' \<and> dom s' = dom s \<and> (\<forall>x\<in>dom s. uf_rep s' x = uf_rep s x)"
    if "uf_inv s" "a \<in> dom s" for s a
    using uf_inv_path [OF that] uf_find_ok [OF that(1)] by blast
next
  fix s a b assume i: "uf_inv s" "a \<in> dom s" "b \<in> dom s"
  from uf_union_ok [OF i] obtain s' where s': "uf_union s a b = Some (Inr s')" "uf_inv s'" "dom s' = dom s"
    "\<forall>x\<in>dom s. uf_rep s' x = (if uf_rep s x = uf_rep s a then uf_rep s b else uf_rep s x)" by blast
  then have "\<forall>x\<in>dom s. \<forall>y\<in>dom s. uf_rep s' x = uf_rep s' y \<longleftrightarrow> uf_rep s x = uf_rep s y
      \<or> (uf_rep s x = uf_rep s a \<and> uf_rep s y = uf_rep s b) \<or> (uf_rep s x = uf_rep s b \<and> uf_rep s y = uf_rep s a)"
    by (auto split: if_splits)
  with s' show "\<exists>s'. uf_union s a b = Some (Inr s') \<and> uf_inv s' \<and> dom s' = dom s
      \<and> (\<forall>x\<in>dom s. \<forall>y\<in>dom s. uf_rep s' x = uf_rep s' y \<longleftrightarrow> uf_rep s x = uf_rep s y
        \<or> (uf_rep s x = uf_rep s a \<and> uf_rep s y = uf_rep s b) \<or> (uf_rep s x = uf_rep s b \<and> uf_rep s y = uf_rep s a))"
    by blast
qed

text \<open>The initial dict \<open>{i: i for i in ids}\<close>.\<close>

definition singletons :: "uuid list \<Rightarrow> (uuid \<rightharpoonup> uuid)" where
  "singletons ids = (\<lambda>i. if i \<in> set ids then Some i else None)"

lemma singletons_ok: "uf_inv (singletons ids)" "dom (singletons ids) = set ids"
    "x \<in> set ids \<Longrightarrow> uf_rep (singletons ids) x = x"
proof -
  have p: "path (singletons ids) x 0 x" if "x \<in> set ids" for x
    using that by (intro path.root) (simp add: singletons_def)
  show d: "dom (singletons ids) = set ids" by (auto simp: singletons_def split: if_splits)
  show "uf_inv (singletons ids)" unfolding uf_inv_def d using p by blast
  show "x \<in> set ids \<Longrightarrow> uf_rep (singletons ids) x = x" using p uf_rep_path by blast
qed

end
