(* ===== verification/Independence.thy ===== *)
theory Independence
  imports UnionFind Store
begin

section \<open>Independence groups of sources\<close>

text \<open>
  \<open>packages/memory/independence.py\<close>: registrable domains, word overlap, the grouping of sources and
  the grouping over the full source graph with its parents, edges and corrections.  The parser
  \<open>urllib.parse.urlsplit\<close> is an argument.
\<close>

subsection \<open>Registrable domains\<close>

definition MULTI_PART_SUFFIXES :: "string list" where
  "MULTI_PART_SUFFIXES =
     [''co.uk'', ''org.uk'', ''gov.uk'', ''ac.uk'', ''net.uk'', ''sch.uk'',
      ''com.au'', ''net.au'', ''org.au'', ''edu.au'', ''gov.au'',
      ''com.br'', ''org.br'', ''gov.br'',
      ''com.cn'', ''org.cn'', ''gov.cn'', ''net.cn'',
      ''co.jp'', ''ne.jp'', ''or.jp'', ''ac.jp'', ''go.jp'',
      ''co.in'', ''org.in'', ''net.in'', ''ac.in'', ''gov.in'',
      ''com.mx'', ''org.mx'', ''gob.mx'',
      ''com.tr'', ''org.tr'', ''gov.tr'',
      ''com.tw'', ''org.tw'', ''gov.tw'',
      ''co.kr'', ''or.kr'',
      ''com.hk'', ''org.hk'', ''gov.hk'',
      ''com.sg'', ''org.sg'', ''gov.sg'',
      ''co.nz'', ''org.nz'',
      ''com.ar'', ''com.co'', ''com.pe'', ''com.pl'',
      ''uk.com'', ''au.com'', ''br.com'', ''cn.com'', ''jp.com'',
      ''kr.com'', ''se.com'', ''za.com'']"

definition TEXT_OVERLAP_THRESHOLD :: rat where
  "TEXT_OVERLAP_THRESHOLD = fl (8 / 10)"

definition DEFAULT_PORTS :: "(string \<times> int) list" where
  "DEFAULT_PORTS = [(''http'', 80), (''https'', 443), (''ftp'', 21)]"

definition psl_fingerprint :: "host \<Rightarrow> string" where
  "psl_fingerprint h = host_canonical_sha256 h (JArr (map JStr (sort MULTI_PART_SUFFIXES)))"

text \<open>The result of \<open>urlsplit\<close>; reading \<open>port\<close> raises on a port that is not a number in range.\<close>

record url_parts =
  url_scheme :: string
  url_hostname :: "string option"
  url_port :: "exn + int option"
  url_path :: string
  url_query :: string

type_synonym url_reader = "string \<Rightarrow> exn + url_parts"

definition normalize_uri :: "url_reader \<Rightarrow> string \<Rightarrow> exn + string" where
  "normalize_uri urlsplit uri =
     (case urlsplit (py_strip uri) of Inl e \<Rightarrow> Inl e | Inr parts \<Rightarrow>
      let scheme = py_lower (url_scheme parts);
          host0 = (case url_hostname parts of None \<Rightarrow> [] | Some hn \<Rightarrow> py_lower hn);
          host = (if prefix ''www.'' host0 then drop 4 host0 else host0)
      in case url_port parts of Inl e \<Rightarrow> Inl e | Inr port0 \<Rightarrow>
         let port = (if port0 \<noteq> None \<and> port0 = map_of DEFAULT_PORTS scheme then None else port0);
             netloc = host @ (case port of None \<Rightarrow> [] | Some n \<Rightarrow> if n = 0 then [] else '':'' @ int_str n);
             path0 = url_path parts;
             path = (if length path0 > 1 \<and> last path0 = CHR ''/''
                     then rev (dropWhile (\<lambda>c. c = CHR ''/'') (rev path0)) else path0);
             query = (if url_query parts \<noteq> [] then ''?'' @ url_query parts else [])
         in Inr (scheme @ ''://'' @ netloc @ path @ query))"

fun split_dot :: "string \<Rightarrow> string \<Rightarrow> string list" where
  "split_dot acc [] = [rev acc]"
| "split_dot acc (c # cs) = (if c = CHR ''.'' then rev acc # split_dot [] cs else split_dot (c # acc) cs)"

definition py_isdigit :: "string \<Rightarrow> bool" where
  "py_isdigit s \<longleftrightarrow> s \<noteq> [] \<and> list_all (\<lambda>c. let n = of_char c :: nat in
     (48 \<le> n \<and> n \<le> 57) \<or> n = 178 \<or> n = 179 \<or> n = 185) s"

definition suffix_domain :: "string list \<Rightarrow> string option" where
  "suffix_domain labels =
     (let tail = (\<lambda>n. join ''.'' (drop (length labels - n) labels));
          hit = (\<lambda>n. n \<le> length labels \<and> tail n \<in> set MULTI_PART_SUFFIXES);
          above = (\<lambda>n. if n < length labels then tail (Suc n) else tail n)
      in if hit 3 then Some (above 3) else if hit 2 then Some (above 2) else Some (tail 2))"

definition registrable_domain :: "url_reader \<Rightarrow> string \<Rightarrow> exn + string option" where
  "registrable_domain urlsplit uri =
     (case normalize_uri urlsplit uri of Inl e \<Rightarrow> Inl e | Inr normal \<Rightarrow>
      case urlsplit normal of Inl e \<Rightarrow> Inl e | Inr parts \<Rightarrow>
      let host = (case url_hostname parts of None \<Rightarrow> [] | Some hn \<Rightarrow> hn);
          labels = split_dot [] host
      in Inr (if host = [] then None
              else if py_isdigit (filter (\<lambda>c. c \<noteq> CHR ''.'') host) \<or> CHR '':'' \<in> set host then Some host
              else if length labels < 2 then Some host
              else suffix_domain labels))"

subsection \<open>Word overlap\<close>

text \<open>The characters of \<open>[^\W\d_]\<close>: alphanumeric but neither a decimal digit nor an underscore.\<close>

definition word_char :: "char \<Rightarrow> bool" where
  "word_char c = (let n = of_char c :: nat in
     (65 \<le> n \<and> n \<le> 90) \<or> (97 \<le> n \<and> n \<le> 122) \<or> n \<in> {170, 178, 179, 181, 185, 186, 188, 189, 190}
     \<or> (192 \<le> n \<and> n \<noteq> 215 \<and> n \<noteq> 247))"

fun words_of :: "string \<Rightarrow> string \<Rightarrow> string list" where
  "words_of acc [] = (if acc = [] then [] else [rev acc])"
| "words_of acc (c # cs) =
     (if word_char c then words_of (c # acc) cs
      else if acc = [] then words_of [] cs else rev acc # words_of [] cs)"

definition word_set :: "string \<Rightarrow> string list" where
  "word_set s = remdups (map py_lower (words_of [] s))"

definition jaccard :: "string list \<Rightarrow> string list \<Rightarrow> rat" where
  "jaccard a b =
     (if a = [] \<or> b = [] then 0
      else fl (of_nat (length (filter (\<lambda>w. w \<in> set b) a)) / of_nat (length (remdups (a @ b)))))"

definition overlaps :: "string list \<Rightarrow> string list \<Rightarrow> bool" where
  "overlaps a b \<longleftrightarrow> TEXT_OVERLAP_THRESHOLD \<le> jaccard a b"

subsection \<open>The graph\<close>

record source_input =
  si_source_id :: uuid
  si_canonical_uri :: "string option"
  si_content_hash :: "string option"
  si_sample_text :: "string option"
  si_parent_source_id :: "uuid option"

record source_edge =
  sge_edge_id :: uuid
  sge_from_id :: uuid
  sge_to_id :: uuid
  sge_kind :: string

record source_correction =
  sgc_correction_id :: uuid
  sgc_from_id :: uuid
  sgc_to_id :: uuid
  sgc_kind :: string
  sgc_valid :: bool

record independence_result =
  ir_algorithm_version :: string
  ir_text_overlap :: rat
  ir_psl_fingerprint :: string
  ir_uri_normalizer_version :: string
  ir_groups :: "(uuid \<times> string) list"
  ir_bases :: "(uuid \<times> string) list"

definition domain_of :: "url_reader \<Rightarrow> source_input \<Rightarrow> exn + string option" where
  "domain_of urlsplit s = (case si_canonical_uri s of None \<Rightarrow> Inr None
     | Some u \<Rightarrow> if u = [] then Inr None else registrable_domain urlsplit u)"

text \<open>The domain of every source, computed in the order of the input.\<close>

fun domains_of :: "url_reader \<Rightarrow> source_input list \<Rightarrow> exn + (source_input \<times> string option) list" where
  "domains_of urlsplit [] = Inr []"
| "domains_of urlsplit (s # ss) =
     (case domain_of urlsplit s of Inl e \<Rightarrow> Inl e | Inr dm \<Rightarrow>
      case domains_of urlsplit ss of Inl e \<Rightarrow> Inl e | Inr rest \<Rightarrow> Inr ((s, dm) # rest))"

definition unknown_lineage :: "source_input \<times> string option \<Rightarrow> bool" where
  "unknown_lineage sd \<longleftrightarrow> snd sd = None \<and> si_content_hash (fst sd) = None"

text \<open>The loop over the members of each list of a \<^const>\<open>bucket\<close>: every later member is tied to the first.\<close>

definition star :: "'v list \<Rightarrow> ('v \<times> 'v) list" where
  "star vs = (case vs of [] \<Rightarrow> [] | v # rest \<Rightarrow> map (Pair v) rest)"

definition sid_of :: "source_input \<times> string option \<Rightarrow> uuid" where
  "sid_of sd = si_source_id (fst sd)"

definition domain_stars :: "(source_input \<times> string option) list \<Rightarrow> (uuid \<times> uuid) list" where
  "domain_stars known = concat (map (\<lambda>(k, ids). star ids) (bucket snd sid_of known))"

definition content_stars :: "(source_input \<times> string option) list \<Rightarrow> (uuid \<times> uuid) list" where
  "content_stars known = concat (map (\<lambda>(k, ids). star ids) (bucket (\<lambda>sd. si_content_hash (fst sd)) sid_of known))"

definition sample_words :: "source_input \<Rightarrow> string list option" where
  "sample_words s = (case si_sample_text s of None \<Rightarrow> None | Some t \<Rightarrow> if t = [] then None else Some (word_set t))"

definition texts_of :: "(source_input \<times> string option) list \<Rightarrow> (uuid \<times> string list) list" where
  "texts_of known = fold (\<lambda>sd d. case sample_words (fst sd) of None \<Rightarrow> d | Some ws \<Rightarrow> dict_set (sid_of sd) ws d) known []"

fun text_pairs :: "(uuid \<times> string list) list \<Rightarrow> (uuid \<times> uuid) list" where
  "text_pairs [] = []"
| "text_pairs ((i, ws) # rest) = map (\<lambda>(j, _). (i, j)) (filter (\<lambda>(j, vs). overlaps ws vs) rest) @ text_pairs rest"

definition parent_pairs :: "source_input list \<Rightarrow> (uuid \<times> uuid) list" where
  "parent_pairs sources = List.map_filter (\<lambda>s. case si_parent_source_id s of None \<Rightarrow> None
     | Some p \<Rightarrow> if p \<in> set (map si_source_id sources) then Some (si_source_id s, p) else None) sources"

definition split_pair :: "source_correction list \<Rightarrow> uuid \<Rightarrow> uuid \<Rightarrow> bool" where
  "split_pair corrections a b \<longleftrightarrow>
     list_ex (\<lambda>c. sgc_valid c \<and> sgc_kind c = ''split'' \<and> {sgc_from_id c, sgc_to_id c} = {a, b}) corrections"

definition merges :: "source_correction list \<Rightarrow> source_correction \<Rightarrow> bool" where
  "merges corrections c \<longleftrightarrow> sgc_valid c \<and> sgc_kind c = ''merge'' \<and> \<not> split_pair corrections (sgc_from_id c) (sgc_to_id c)"

definition merge_pairs :: "source_correction list \<Rightarrow> (uuid \<times> uuid) list" where
  "merge_pairs corrections = map (\<lambda>c. (sgc_from_id c, sgc_to_id c)) (filter (merges corrections) corrections)"

definition edge_pairs :: "source_input list \<Rightarrow> source_edge list \<Rightarrow> source_correction list \<Rightarrow> (uuid \<times> uuid) list" where
  "edge_pairs sources edges corrections =
     (let nodes = set (map si_source_id sources) in
      map (\<lambda>e. (sge_from_id e, sge_to_id e))
        (filter (\<lambda>e. sge_from_id e \<in> nodes \<and> sge_to_id e \<in> nodes
           \<and> \<not> split_pair corrections (sge_from_id e) (sge_to_id e)) edges))"

text \<open>Group names in first-seen order.\<close>

fun name_groups ::
  "uuid list \<Rightarrow> (uuid \<rightharpoonup> uuid) \<Rightarrow> (uuid \<times> string) list \<Rightarrow> (uuid \<times> string) list \<Rightarrow>
   (exn + (uuid \<times> string) list) option" where
  "name_groups [] parent names groups = Some (Inr groups)"
| "name_groups (i # is) parent names groups =
     (case uf_find parent i of None \<Rightarrow> None | Some (Inl e) \<Rightarrow> Some (Inl e) | Some (Inr (rt, parent')) \<Rightarrow>
      let names' = (if map_of names rt = None then dict_set rt (''g'' @ nat_str (length names)) names else names)
      in name_groups is parent' names'
           (dict_set i (case map_of names' rt of None \<Rightarrow> [] | Some g \<Rightarrow> g) groups))"

definition INDEPENDENCE_ALGORITHM_VERSION :: string where
  "INDEPENDENCE_ALGORITHM_VERSION = ''independence-v1''"

definition SOURCE_GRAPH_ALGORITHM_VERSION :: string where
  "SOURCE_GRAPH_ALGORITHM_VERSION = ''independence-v2''"

definition URI_NORMALIZER_VERSION :: string where
  "URI_NORMALIZER_VERSION = ''uri-normalizer-v1''"

definition result_of :: "host \<Rightarrow> string \<Rightarrow> (uuid \<times> string) list \<Rightarrow> (uuid \<times> string) list \<Rightarrow> independence_result" where
  "result_of h version groups bases =
     \<lparr>ir_algorithm_version = version, ir_text_overlap = TEXT_OVERLAP_THRESHOLD,
      ir_psl_fingerprint = psl_fingerprint h, ir_uri_normalizer_version = URI_NORMALIZER_VERSION,
      ir_groups = groups, ir_bases = bases\<rparr>"

definition group_sources ::
  "url_reader \<Rightarrow> host \<Rightarrow> source_input list \<Rightarrow> (exn + independence_result) option" where
  "group_sources urlsplit h sources =
     (case domains_of urlsplit sources of Inl e \<Rightarrow> Some (Inl e) | Inr sds \<Rightarrow>
      let known = filter (\<lambda>sd. \<not> unknown_lineage sd) sds;
          unknown = map sid_of (filter unknown_lineage sds);
          ids = map si_source_id sources;
          pairs = domain_stars known @ text_pairs (texts_of known) @ star unknown
      in case unite_all uf_union pairs (singletons ids) of
           None \<Rightarrow> None | Some (Inl e) \<Rightarrow> Some (Inl e) | Some (Inr parent) \<Rightarrow>
         case name_groups ids parent [] [] of
           None \<Rightarrow> None | Some (Inl e) \<Rightarrow> Some (Inl e) | Some (Inr groups) \<Rightarrow>
         Some (Inr (result_of h INDEPENDENCE_ALGORITHM_VERSION groups
           (fold (\<lambda>sd d. dict_set (sid_of sd)
              (if sid_of sd \<in> set unknown then ''unknown_lineage''
               else case snd sd of None \<Rightarrow> ''content_cluster''
                 | Some dm \<Rightarrow> if dm = [] then ''content_cluster'' else ''domain:'' @ dm) d) sds []))))"

text \<open>The union calls of \<open>group_source_graph\<close>, in their order.\<close>

definition graph_pairs ::
  "source_input list \<Rightarrow> (source_input \<times> string option) list \<Rightarrow> source_edge list \<Rightarrow> source_correction list \<Rightarrow> (uuid \<times> uuid) list" where
  "graph_pairs sources sds edges corrections =
     (let known = filter (\<lambda>sd. \<not> unknown_lineage sd) sds;
          unknown = map sid_of (filter unknown_lineage sds)
      in domain_stars known @ content_stars known @ text_pairs (texts_of known)
         @ parent_pairs sources @ merge_pairs corrections @ edge_pairs sources edges corrections @ star unknown)"

definition short :: "string \<Rightarrow> string" where
  "short s = take 12 s"

definition content_basis :: "source_input \<times> string option \<Rightarrow> (source_input \<times> string option) list \<Rightarrow> string" where
  "content_basis sd others =
     (let s = fst sd in
      if si_content_hash s \<noteq> None \<and> list_ex (\<lambda>o'. si_content_hash (fst o') = si_content_hash s) others
      then ''content:'' @ short (case si_content_hash s of None \<Rightarrow> [] | Some c \<Rightarrow> c)
      else case sample_words s of
        None \<Rightarrow> ''single''
      | Some ws \<Rightarrow>
          if list_ex (\<lambda>o'. case sample_words (fst o') of None \<Rightarrow> False | Some vs \<Rightarrow> overlaps ws vs) others
          then ''text_overlap'' else ''single'')"

text \<open>The basis that ties a source to the other members of its group by its data.\<close>

definition data_basis :: "source_input \<times> string option \<Rightarrow> (source_input \<times> string option) list \<Rightarrow> string" where
  "data_basis sd others =
     (case snd sd of
        Some dm \<Rightarrow>
          if list_ex (\<lambda>o'. snd o' = Some dm) others then ''domain:'' @ dm else content_basis sd others
      | None \<Rightarrow> content_basis sd others)"

definition basis_of ::
  "(source_input \<times> string option) list \<Rightarrow> source_edge list \<Rightarrow> source_correction list \<Rightarrow> uuid list \<Rightarrow>
   (uuid \<times> string) list \<Rightarrow> source_input \<times> string option \<Rightarrow> string" where
  "basis_of sds edges corrections unknown groups sd =
     (let sid = sid_of sd;
          same = (\<lambda>i. i \<in> set (map sid_of sds) \<and> map_of groups i = map_of groups sid);
          others = filter (\<lambda>o'. same (sid_of o') \<and> sid_of o' \<noteq> sid) sds;
          inside = (\<lambda>a b. (same a \<or> a = sid) \<and> (same b \<or> b = sid) \<and> (sid = a \<or> sid = b));
          direct = (\<lambda>c. merges corrections c \<and> inside (sgc_from_id c) (sgc_to_id c));
          linked = (\<lambda>e. same (sge_from_id e) \<and> same (sge_to_id e) \<and> (sid = sge_from_id e \<or> sid = sge_to_id e)
             \<and> \<not> split_pair corrections (sge_from_id e) (sge_to_id e))
      in if sid \<in> set unknown then ''unknown_lineage''
         else if (case si_parent_source_id (fst sd) of None \<Rightarrow> False | Some p \<Rightarrow> same p \<and> p \<noteq> sid)
         then ''parent:'' @ short (case si_parent_source_id (fst sd) of None \<Rightarrow> [] | Some p \<Rightarrow> uuid_str p)
         else if list_ex direct corrections then ''correction:merge''
         else if list_ex linked edges
         then (case find (\<lambda>e. inside (sge_from_id e) (sge_to_id e)) edges of
                 None \<Rightarrow> [] | Some e0 \<Rightarrow> ''edge:'' @ sge_kind e0 @ '':'' @ short (uuid_str (sge_edge_id e0)))
         else data_basis sd others)"

definition group_source_graph ::
  "url_reader \<Rightarrow> host \<Rightarrow> source_input list \<Rightarrow> source_edge list \<Rightarrow> source_correction list \<Rightarrow>
   (exn + independence_result) option" where
  "group_source_graph urlsplit h sources edges corrections =
     (case domains_of urlsplit sources of Inl e \<Rightarrow> Some (Inl e) | Inr sds \<Rightarrow>
      let ids = map si_source_id sources;
          unknown = map sid_of (filter unknown_lineage sds)
      in case unite_all uf_union (graph_pairs sources sds edges corrections) (singletons ids) of
           None \<Rightarrow> None | Some (Inl e) \<Rightarrow> Some (Inl e) | Some (Inr parent) \<Rightarrow>
         case name_groups ids parent [] [] of
           None \<Rightarrow> None | Some (Inl e) \<Rightarrow> Some (Inl e) | Some (Inr groups) \<Rightarrow>
         Some (Inr (result_of h SOURCE_GRAPH_ALGORITHM_VERSION groups
           (fold (\<lambda>sd d. dict_set (sid_of sd) (basis_of sds edges corrections unknown groups sd) d) sds []))))"

subsection \<open>Facts about stars and names\<close>

definition star_pairs :: "('a \<Rightarrow> 'k option) \<Rightarrow> ('a \<Rightarrow> 'v) \<Rightarrow> 'a list \<Rightarrow> ('v \<times> 'v) list" where
  "star_pairs key f xs = concat (map (\<lambda>(k, ids). star ids) (bucket key f xs))"

lemma star_pairs_sound:
  assumes "(a, b) \<in> set (star_pairs key f xs)"
  shows "\<exists>x\<in>set xs. \<exists>y\<in>set xs. a = f x \<and> b = f y \<and> key x \<noteq> None \<and> key x = key y"
proof -
  from assms obtain k vs where kv: "(k, vs) \<in> set (bucket key f xs)" "(a, b) \<in> set (star vs)"
    by (auto simp: star_pairs_def)
  then have "a \<in> set vs" "b \<in> set vs" by (auto simp: star_def split: list.splits)
  with kv(1) show ?thesis by (auto simp: bucket_member) (metis option.distinct(1))
qed

lemma star_connects:
  assumes "a \<in> set vs" and "b \<in> set vs"
  shows "(a, b) \<in> (set (star vs) \<union> (set (star vs))\<inverse>)\<^sup>*"
proof (cases vs)
  case (Cons v rest)
  have h: "(v, c) \<in> (set (star vs) \<union> (set (star vs))\<inverse>)\<^sup>*" "(c, v) \<in> (set (star vs) \<union> (set (star vs))\<inverse>)\<^sup>*"
    if "c \<in> set vs" for c
    using that Cons by (auto simp: star_def)
  show ?thesis using h(2) [OF assms(1)] h(1) [OF assms(2)] by (rule rtrancl_trans)
qed (use assms in simp)

lemma star_pairs_complete:
  assumes "x \<in> set xs" and "y \<in> set xs" and "key x = Some k" and "key y = Some k"
  shows "(f x, f y) \<in> (set (star_pairs key f xs) \<union> (set (star_pairs key f xs))\<inverse>)\<^sup>*"
proof -
  let ?vs = "map f (filter (\<lambda>x. key x = Some k) xs)"
  have "f x \<in> set ?vs" "f y \<in> set ?vs" using assms by auto
  then have c: "(f x, f y) \<in> (set (star ?vs) \<union> (set (star ?vs))\<inverse>)\<^sup>*" by (rule star_connects)
  have "?vs \<noteq> []" using assms(1,3) by (auto simp: filter_empty_conv)
  then have "(k, ?vs) \<in> set (bucket key f xs)" by (simp add: bucket_member)
  then have "set (star ?vs) \<subseteq> set (star_pairs key f xs)" unfolding star_pairs_def by fastforce
  then have "set (star ?vs) \<union> (set (star ?vs))\<inverse> \<subseteq> set (star_pairs key f xs) \<union> (set (star_pairs key f xs))\<inverse>"
    by (simp add: sup.coboundedI1 sup.coboundedI2)
  from rtrancl_mono [OF this] c show ?thesis by (rule subsetD)
qed

lemma digit_char_inj:
  assumes "m < 10" and "n < 10" and "digit_char m = digit_char n"
  shows "m = n"
proof -
  have "list_all (\<lambda>m. list_all (\<lambda>n. digit_char m = digit_char n \<longrightarrow> m = n) [0..<10]) [0..<10]" by code_simp
  with assms show ?thesis by (auto simp: list_all_iff)
qed

lemma nat_str_nonempty: "nat_str n \<noteq> []"
  by (subst nat_str.simps) simp

lemma nat_str_inj: "nat_str m = nat_str n \<Longrightarrow> m = n"
proof (induction m arbitrary: n rule: less_induct)
  case (less m)
  note e = less.prems [unfolded nat_str.simps [of m] nat_str.simps [of n]]
  show ?case
  proof (cases "m < 10 \<or> n < 10")
    case True
    then show ?thesis using e digit_char_inj nat_str_nonempty nat_str_nonempty [THEN not_sym] by (auto split: if_splits)
  next
    case False
    then have "nat_str (m div 10) = nat_str (n div 10)" "digit_char (m mod 10) = digit_char (n mod 10)"
      using e by auto
    moreover have "m div 10 < m" using False by simp
    ultimately have "m div 10 = n div 10" "m mod 10 = n mod 10" using less.IH digit_char_inj by simp_all
    then show ?thesis by (metis div_mult_mod_eq)
  qed
qed

definition names_ok :: "(uuid \<times> string) list \<Rightarrow> bool" where
  "names_ok names \<longleftrightarrow> distinct (map fst names) \<and> map snd names = map (\<lambda>k. ''g'' @ nat_str k) [0..<length names]"

lemma names_inj:
  assumes "names_ok names" and "map_of names r = Some g" and "map_of names r' = Some g"
  shows "r = r'"
proof -
  have "inj_on (\<lambda>k. ''g'' @ nat_str k) {0..<length names}" by (auto intro!: inj_onI dest: nat_str_inj)
  then have "distinct (map snd names)" using assms(1) by (simp add: names_ok_def distinct_map)
  moreover have "(r, g) \<in> set names" "(r', g) \<in> set names" using assms(2,3) by (simp_all add: map_of_SomeD)
  ultimately show ?thesis by (metis distinct_map inj_onD prod.inject snd_conv)
qed

lemma names_extend:
  assumes "names_ok names" and "map_of names r = None"
  shows "names_ok (dict_set r (''g'' @ nat_str (length names)) names)"
proof -
  have "r \<notin> set (map fst names)" using assms(2) by (simp add: map_of_eq_None_iff)
  then have "dict_set r (''g'' @ nat_str (length names)) names = names @ [(r, ''g'' @ nat_str (length names))]"
    by (rule dict_set_new)
  with assms show ?thesis by (auto simp: names_ok_def map_of_eq_None_iff)
qed

lemma name_groups_ok:
  assumes "uf_inv p" and "set is \<subseteq> dom p" and "names_ok names"
  shows "\<exists>groups' names'. name_groups is p names groups = Some (Inr groups') \<and> names_ok names'
    \<and> (\<forall>r g. map_of names r = Some g \<longrightarrow> map_of names' r = Some g)
    \<and> (\<forall>i\<in>set is. map_of groups' i = map_of names' (uf_rep p i) \<and> map_of names' (uf_rep p i) \<noteq> None)
    \<and> (\<forall>i. i \<notin> set is \<longrightarrow> map_of groups' i = map_of groups i)"
  using assms
proof (induction "is" arbitrary: p names groups)
  case (Cons i "is")
  let ?r = "uf_rep p i"
  from Cons.prems obtain p1 where f: "uf_find p i = Some (Inr (?r, p1))" "uf_inv p1" "dom p1 = dom p"
    "\<forall>x\<in>dom p. uf_rep p1 x = uf_rep p x" using uf.find_ok [of p i] by auto
  define n1 where "n1 = (if map_of names ?r = None then dict_set ?r (''g'' @ nat_str (length names)) names else names)"
  have n1: "names_ok n1" "\<forall>r g. map_of names r = Some g \<longrightarrow> map_of n1 r = Some g"
    using names_extend [OF Cons.prems(3)] Cons.prems(3) by (auto simp: n1_def)
  obtain g where g: "map_of n1 ?r = Some g" by (cases "map_of names ?r") (auto simp: n1_def)
  have "set is \<subseteq> dom p1" using Cons.prems(2) f(3) by simp
  from Cons.IH [OF f(2) this n1(1), of "dict_set i g groups"] obtain groups' names' where
    r: "name_groups is p1 n1 (dict_set i g groups) = Some (Inr groups')" "names_ok names'"
      "\<forall>r g. map_of n1 r = Some g \<longrightarrow> map_of names' r = Some g"
      "\<forall>j\<in>set is. map_of groups' j = map_of names' (uf_rep p1 j) \<and> map_of names' (uf_rep p1 j) \<noteq> None"
      "\<forall>j. j \<notin> set is \<longrightarrow> map_of groups' j = map_of (dict_set i g groups) j" by blast
  have run: "name_groups (i # is) p names groups = Some (Inr groups')"
    using r(1) g by (simp add: f(1) Let_def n1_def [symmetric])
  have "\<forall>j\<in>set (i # is). map_of groups' j = map_of names' (uf_rep p j) \<and> map_of names' (uf_rep p j) \<noteq> None"
  proof
    fix j assume j: "j \<in> set (i # is)"
    show "map_of groups' j = map_of names' (uf_rep p j) \<and> map_of names' (uf_rep p j) \<noteq> None"
    proof (cases "j \<in> set is")
      case True
      then have "uf_rep p1 j = uf_rep p j" using f(4) Cons.prems(2) by (meson list.set_intros(2) subsetD)
      with True r(4) show ?thesis by metis
    next
      case False
      with j have "j = i" by simp
      with False r(3,5) g show ?thesis by simp
    qed
  qed
  with run r n1(2) show ?case by (intro exI [of _ groups'] exI [of _ names']) simp
next
  case Nil
  then show ?case by (intro exI [of _ groups] exI [of _ names]) simp
qed

subsection \<open>The merge bases\<close>

text \<open>
  What ties two sources together, stated on the sources: the same registrable domain, the same
  content hash or overlapping texts of sources with known lineage, unknown lineage on both sides, a
  parent link inside the graph, a merge correction or an edge that no valid split cancels.
\<close>

definition alike :: "source_input \<times> string option \<Rightarrow> source_input \<times> string option \<Rightarrow> bool" where
  "alike x y \<longleftrightarrow>
     (unknown_lineage x \<and> unknown_lineage y)
     \<or> (\<not> unknown_lineage x \<and> \<not> unknown_lineage y \<and>
         ((snd x \<noteq> None \<and> snd x = snd y)
          \<or> (si_content_hash (fst x) \<noteq> None \<and> si_content_hash (fst x) = si_content_hash (fst y))
          \<or> (\<exists>ws vs. sample_words (fst x) = Some ws \<and> sample_words (fst y) = Some vs \<and> overlaps ws vs)))"

definition merge_basis ::
  "source_input list \<Rightarrow> (source_input \<times> string option) list \<Rightarrow> source_edge list \<Rightarrow> source_correction list \<Rightarrow> (uuid \<times> uuid) set" where
  "merge_basis sources sds edges corrections =
     {(sid_of x, sid_of y) | x y. x \<in> set sds \<and> y \<in> set sds \<and> alike x y}
     \<union> {(si_source_id s, p) | s p. s \<in> set sources \<and> si_parent_source_id s = Some p \<and> p \<in> si_source_id ` set sources}
     \<union> {(sgc_from_id c, sgc_to_id c) | c. c \<in> set corrections \<and> merges corrections c}
     \<union> {(sge_from_id e, sge_to_id e) | e. e \<in> set edges \<and> sge_from_id e \<in> si_source_id ` set sources
          \<and> sge_to_id e \<in> si_source_id ` set sources \<and> \<not> split_pair corrections (sge_from_id e) (sge_to_id e)}"

definition tied :: "(uuid \<times> uuid) set \<Rightarrow> uuid \<Rightarrow> uuid \<Rightarrow> bool" where
  "tied M a b \<longleftrightarrow> (a, b) \<in> (M \<union> M\<inverse>)\<^sup>*"

lemma tied_refl [simp]: "tied M a a"
  by (simp add: tied_def)

lemma tied_sym: "tied M a b \<Longrightarrow> tied M b a"
proof -
  have "sym (M \<union> M\<inverse>)" by (auto simp: sym_def)
  then show "tied M a b \<Longrightarrow> tied M b a" unfolding tied_def by (meson sym_rtrancl symD)
qed

lemma tied_trans: "tied M a b \<Longrightarrow> tied M b c \<Longrightarrow> tied M a c"
  unfolding tied_def by (rule rtrancl_trans)

lemma tied_base: "(a, b) \<in> M \<Longrightarrow> tied M a b"
  by (auto simp: tied_def)

lemma tied_mono: "M \<subseteq> N \<Longrightarrow> tied M a b \<Longrightarrow> tied N a b"
  unfolding tied_def by (meson Un_mono converse_mono rtrancl_mono subsetD)

lemma tied_subset:
  assumes "\<And>a b. (a, b) \<in> M \<Longrightarrow> tied N a b" and "tied M x y"
  shows "tied N x y"
  using assms(2) unfolding tied_def
proof (induction rule: rtrancl_induct)
  case (step y z)
  then have "tied N y z" using assms(1) tied_sym by blast
  with step.IH show ?case unfolding tied_def by (rule rtrancl_trans)
qed simp

lemma star_pairs_tied:
  "x \<in> set xs \<Longrightarrow> y \<in> set xs \<Longrightarrow> key x = Some k \<Longrightarrow> key y = Some k \<Longrightarrow> tied (set (star_pairs key f xs)) (f x) (f y)"
  unfolding tied_def by (rule star_pairs_complete)

lemma word_set_distinct: "distinct (word_set s)"
  by (simp add: word_set_def)

lemma overlaps_sym:
  assumes "distinct a" and "distinct b"
  shows "overlaps a b = overlaps b a"
proof -
  have "length (filter (\<lambda>w. w \<in> set b) a) = card (set a \<inter> set b)"
    using distinct_card [OF distinct_filter [OF assms(1), of "\<lambda>w. w \<in> set b"]] by (simp add: Int_def)
  moreover have "length (filter (\<lambda>w. w \<in> set a) b) = card (set b \<inter> set a)"
    using distinct_card [OF distinct_filter [OF assms(2), of "\<lambda>w. w \<in> set a"]] by (simp add: Int_def)
  moreover have "length (remdups (a @ b)) = length (remdups (b @ a))"
    by (simp only: length_remdups_card_conv set_append Un_commute)
  ultimately show ?thesis by (auto simp: overlaps_def jaccard_def Int_commute)
qed

lemma in_map_filter: "y \<in> set (List.map_filter f xs) \<longleftrightarrow> (\<exists>x\<in>set xs. f x = Some y)"
  by (induction xs) (auto simp: List.map_filter_def split: option.splits)

lemma texts_of_distinct:
  assumes "distinct (map sid_of known)"
  shows "texts_of known = List.map_filter (\<lambda>sd. map_option (Pair (sid_of sd)) (sample_words (fst sd))) known"
  using assms
proof (induction known rule: rev_induct)
  case (snoc sd known)
  let ?t = "List.map_filter (\<lambda>sd. map_option (Pair (sid_of sd)) (sample_words (fst sd))) known"
  have "set (map fst ?t) \<subseteq> set (map sid_of known)" by (auto simp: List.map_filter_def)
  then have n: "sid_of sd \<notin> set (map fst ?t)" using snoc.prems by auto
  have t: "texts_of known = ?t" using snoc by simp
  have "texts_of (known @ [sd]) = (case sample_words (fst sd) of None \<Rightarrow> texts_of known | Some ws \<Rightarrow> dict_set (sid_of sd) ws (texts_of known))"
    unfolding texts_of_def by simp
  then show ?case unfolding t using dict_set_new [OF n]
    by (cases "sample_words (fst sd)") (simp_all add: List.map_filter_def)
qed (simp add: texts_of_def List.map_filter_def)

lemma texts_of_member:
  assumes "distinct (map sid_of known)"
  shows "(i, ws) \<in> set (texts_of known) \<longleftrightarrow> (\<exists>x\<in>set known. sid_of x = i \<and> sample_words (fst x) = Some ws)"
  unfolding texts_of_distinct [OF assms] by (auto simp: in_map_filter)

lemma text_pairs_sound:
  "(i, j) \<in> set (text_pairs xs) \<Longrightarrow> \<exists>ws vs. (i, ws) \<in> set xs \<and> (j, vs) \<in> set xs \<and> overlaps ws vs"
  by (induction xs rule: text_pairs.induct) auto

lemma text_pairs_complete:
  "(i, ws) \<in> set xs \<Longrightarrow> (j, vs) \<in> set xs \<Longrightarrow> i \<noteq> j \<Longrightarrow> overlaps ws vs \<Longrightarrow> overlaps vs ws \<Longrightarrow>
   (i, j) \<in> set (text_pairs xs) \<or> (j, i) \<in> set (text_pairs xs)"
  by (induction xs rule: text_pairs.induct) (auto simp: image_iff split: prod.splits)

lemma star_members: "(a, b) \<in> set (star vs) \<Longrightarrow> a \<in> set vs \<and> b \<in> set vs"
  by (auto simp: star_def split: list.splits)

lemma star_tied: "a \<in> set vs \<Longrightarrow> b \<in> set vs \<Longrightarrow> tied (set (star vs)) a b"
  unfolding tied_def by (rule star_connects)

lemma stars_eq: "domain_stars known = star_pairs snd sid_of known"
  "content_stars known = star_pairs (\<lambda>sd. si_content_hash (fst sd)) sid_of known"
  by (simp_all add: domain_stars_def content_stars_def star_pairs_def)

lemma set_graph_lists:
  "set (parent_pairs sources) =
     {(si_source_id s, p) | s p. s \<in> set sources \<and> si_parent_source_id s = Some p \<and> p \<in> si_source_id ` set sources}"
  "set (merge_pairs corrections) = {(sgc_from_id c, sgc_to_id c) | c. c \<in> set corrections \<and> merges corrections c}"
  "set (edge_pairs sources edges corrections) =
     {(sge_from_id e, sge_to_id e) | e. e \<in> set edges \<and> sge_from_id e \<in> si_source_id ` set sources
        \<and> sge_to_id e \<in> si_source_id ` set sources \<and> \<not> split_pair corrections (sge_from_id e) (sge_to_id e)}"
proof -
  show "set (parent_pairs sources) =
     {(si_source_id s, p) | s p. s \<in> set sources \<and> si_parent_source_id s = Some p \<and> p \<in> si_source_id ` set sources}"
    unfolding parent_pairs_def set_eq_iff in_map_filter by (fastforce split: option.splits if_splits)
qed (auto simp: merge_pairs_def edge_pairs_def Let_def)

lemma merge_basis_lists:
  "merge_basis sources sds edges corrections =
     {(sid_of x, sid_of y) | x y. x \<in> set sds \<and> y \<in> set sds \<and> alike x y}
     \<union> set (parent_pairs sources) \<union> set (merge_pairs corrections) \<union> set (edge_pairs sources edges corrections)"
  unfolding merge_basis_def set_graph_lists by (rule refl)

lemma merge_basis_alike:
  "x \<in> set sds \<Longrightarrow> y \<in> set sds \<Longrightarrow> alike x y \<Longrightarrow> (sid_of x, sid_of y) \<in> merge_basis sources sds edges corrections"
  unfolding merge_basis_def by blast

lemma graph_pairs_sound:
  assumes "distinct (map sid_of sds)" and "(a, b) \<in> set (graph_pairs sources sds edges corrections)"
  shows "(a, b) \<in> merge_basis sources sds edges corrections"
proof -
  let ?known = "filter (\<lambda>sd. \<not> unknown_lineage sd) sds" and ?unknown = "map sid_of (filter unknown_lineage sds)"
  have dk: "distinct (map sid_of ?known)" using assms(1) by (simp add: distinct_map_filter)
  have al: "(a, b) \<in> merge_basis sources sds edges corrections"
    if "x \<in> set sds" "y \<in> set sds" "alike x y" "a = sid_of x" "b = sid_of y" for x y
    using that unfolding merge_basis_def by blast
  from assms(2) consider
    "(a, b) \<in> set (domain_stars ?known)" | "(a, b) \<in> set (content_stars ?known)"
    | "(a, b) \<in> set (text_pairs (texts_of ?known))" | "(a, b) \<in> set (parent_pairs sources)"
    | "(a, b) \<in> set (merge_pairs corrections)" | "(a, b) \<in> set (edge_pairs sources edges corrections)"
    | "(a, b) \<in> set (star ?unknown)" unfolding graph_pairs_def Let_def by auto
  then show ?thesis
  proof cases
    case 1
    from star_pairs_sound [OF this [unfolded stars_eq]] obtain x y where
      xy: "x \<in> set ?known" "y \<in> set ?known" "a = sid_of x" "b = sid_of y"
        "snd x \<noteq> None" "snd x = snd y" by blast
    then have "alike x y" by (simp add: alike_def)
    with xy show ?thesis using al [of x y] by simp
  next
    case 2
    from star_pairs_sound [OF this [unfolded stars_eq]] obtain x y where
      xy: "x \<in> set ?known" "y \<in> set ?known" "a = sid_of x" "b = sid_of y"
        "si_content_hash (fst x) \<noteq> None" "si_content_hash (fst x) = si_content_hash (fst y)" by blast
    then have "alike x y" by (simp add: alike_def)
    with xy show ?thesis using al [of x y] by simp
  next
    case 3
    from text_pairs_sound [OF this] show ?thesis using al by (auto simp: texts_of_member [OF dk] alike_def)
  next
    case 4
    then show ?thesis by (simp add: merge_basis_lists)
  next
    case 5
    then show ?thesis by (simp add: merge_basis_lists)
  next
    case 6
    then show ?thesis by (simp add: merge_basis_lists)
  next
    case 7
    from star_members [OF this] show ?thesis using al by (auto simp: alike_def)
  qed
qed

lemma graph_pairs_complete:
  assumes "distinct (map sid_of sds)" and "(a, b) \<in> merge_basis sources sds edges corrections"
  shows "tied (set (graph_pairs sources sds edges corrections)) a b"
proof -
  let ?P = "graph_pairs sources sds edges corrections"
  let ?known = "filter (\<lambda>sd. \<not> unknown_lineage sd) sds" and ?unknown = "map sid_of (filter unknown_lineage sds)"
  have dk: "distinct (map sid_of ?known)" using assms(1) by (simp add: distinct_map_filter)
  have parts: "set (domain_stars ?known) \<subseteq> set ?P" "set (content_stars ?known) \<subseteq> set ?P"
    "set (text_pairs (texts_of ?known)) \<subseteq> set ?P" "set (parent_pairs sources) \<subseteq> set ?P"
    "set (merge_pairs corrections) \<subseteq> set ?P" "set (edge_pairs sources edges corrections) \<subseteq> set ?P"
    "set (star ?unknown) \<subseteq> set ?P" unfolding graph_pairs_def Let_def by auto
  have lists: "(a, b) \<in> set (parent_pairs sources) \<or> (a, b) \<in> set (merge_pairs corrections)
      \<or> (a, b) \<in> set (edge_pairs sources edges corrections)
      \<or> (\<exists>x y. x \<in> set sds \<and> y \<in> set sds \<and> alike x y \<and> a = sid_of x \<and> b = sid_of y)"
    using assms(2) unfolding merge_basis_lists by blast
  have al: "tied (set ?P) (sid_of x) (sid_of y)" if xy: "x \<in> set sds" "y \<in> set sds" "alike x y" for x y
  proof (cases "unknown_lineage x")
    case True
    with xy have "sid_of x \<in> set ?unknown" "sid_of y \<in> set ?unknown" by (auto simp: alike_def)
    then show ?thesis using star_tied tied_mono [OF parts(7)] by blast
  next
    case False
    with xy have k: "x \<in> set ?known" "y \<in> set ?known" by (auto simp: alike_def)
    from xy(3) False consider k where "snd x = Some k" "snd y = Some k"
      | k where "si_content_hash (fst x) = Some k" "si_content_hash (fst y) = Some k"
      | ws vs where "sample_words (fst x) = Some ws" "sample_words (fst y) = Some vs" "overlaps ws vs"
      unfolding alike_def by (metis not_None_eq)
    then show ?thesis
    proof cases
      case 1
      then show ?thesis using star_pairs_tied [OF k, of snd _ sid_of] tied_mono [OF parts(1) [unfolded stars_eq]] by blast
    next
      case 2
      then show ?thesis
        using star_pairs_tied [OF k, of "\<lambda>sd. si_content_hash (fst sd)" _ sid_of] tied_mono [OF parts(2) [unfolded stars_eq]]
        by blast
    next
      case 3
      show ?thesis
      proof (cases "sid_of x = sid_of y")
        case False
        have "overlaps vs ws" using 3 overlaps_sym word_set_distinct
          by (auto simp: sample_words_def split: option.splits if_splits)
        moreover have "(sid_of x, ws) \<in> set (texts_of ?known)" "(sid_of y, vs) \<in> set (texts_of ?known)"
          unfolding texts_of_member [OF dk] using 3 k by blast+
        ultimately have "(sid_of x, sid_of y) \<in> set ?P \<or> (sid_of y, sid_of x) \<in> set ?P"
          using text_pairs_complete [OF _ _ False 3(3)] parts(3) by blast
        then show ?thesis using tied_base tied_sym by blast
      qed simp
    qed
  qed
  from lists show ?thesis using al tied_base parts(4-6) by blast
qed

lemma graph_pairs_closure:
  assumes "distinct (map sid_of sds)"
  shows "tied (set (graph_pairs sources sds edges corrections)) a b = tied (merge_basis sources sds edges corrections) a b"
proof
  let ?P = "set (graph_pairs sources sds edges corrections)" and ?M = "merge_basis sources sds edges corrections"
  show "tied ?M a b" if "tied ?P a b"
    by (rule tied_subset [OF _ that]) (rule tied_base, rule graph_pairs_sound [OF assms])
  show "tied ?P a b" if "tied ?M a b"
    by (rule tied_subset [OF _ that]) (rule graph_pairs_complete [OF assms])
qed

lemma domains_of_fst: "domains_of urlsplit ss = Inr sds \<Longrightarrow> map fst sds = ss"
  by (induction ss arbitrary: sds) (auto split: sum.splits)

lemma graph_pairs_nodes:
  assumes "map fst sds = sources" and "\<forall>c\<in>set corrections. sgc_from_id c \<in> si_source_id ` set sources \<and> sgc_to_id c \<in> si_source_id ` set sources"
    and "distinct (map sid_of sds)"
  shows "set (graph_pairs sources sds edges corrections) \<subseteq> set (map si_source_id sources) \<times> set (map si_source_id sources)"
proof -
  have "sid_of x \<in> si_source_id ` set sources" if "x \<in> set sds" for x
    using that assms(1) by (auto simp: sid_of_def)
  then have "merge_basis sources sds edges corrections \<subseteq> set (map si_source_id sources) \<times> set (map si_source_id sources)"
    using assms(2) by (auto simp: merge_basis_def)
  moreover have "set (graph_pairs sources sds edges corrections) \<subseteq> merge_basis sources sds edges corrections"
    by (rule subrelI) (rule graph_pairs_sound [OF assms(3)])
  ultimately show ?thesis by (rule order_trans [rotated])
qed

lemma graph_components:
  assumes "domains_of urlsplit sources = Inr sds" and "distinct (map si_source_id sources)"
    and "\<forall>c\<in>set corrections. sgc_from_id c \<in> si_source_id ` set sources \<and> sgc_to_id c \<in> si_source_id ` set sources"
  shows "\<exists>res. group_source_graph urlsplit h sources edges corrections = Some (Inr res)
    \<and> (\<forall>s\<in>set sources. \<forall>t\<in>set sources.
         (map_of (ir_groups res) (si_source_id s) = map_of (ir_groups res) (si_source_id t)) =
         tied (merge_basis sources sds edges corrections) (si_source_id s) (si_source_id t))
    \<and> (\<forall>s\<in>set sources. \<exists>g. map_of (ir_groups res) (si_source_id s) = Some g)"
proof -
  have fs: "map fst sds = sources" using domains_of_fst [OF assms(1)] .
  have "map sid_of sds = map si_source_id (map fst sds)" by (simp add: sid_of_def)
  then have d: "distinct (map sid_of sds)" using assms(2) fs by simp
  let ?ids = "map si_source_id sources" and ?P = "graph_pairs sources sds edges corrections"
  have "set ?P \<subseteq> dom (singletons ?ids) \<times> dom (singletons ?ids)"
    using graph_pairs_nodes [OF fs assms(3) d] by (simp add: singletons_ok)
  from uf.unite_all_closure [OF singletons_ok(1) this] obtain p where
    u: "unite_all uf_union ?P (singletons ?ids) = Some (Inr p)" "uf_inv p" "dom p = set ?ids"
      "\<forall>x\<in>set ?ids. \<forall>y\<in>set ?ids. uf_rep p x = uf_rep p y \<longleftrightarrow> tied (set ?P) x y"
    unfolding tied_def by (auto simp: singletons_ok)
  obtain groups names where
    n: "name_groups ?ids p [] [] = Some (Inr groups)" "names_ok names"
      "\<forall>i\<in>set ?ids. map_of groups i = map_of names (uf_rep p i) \<and> map_of names (uf_rep p i) \<noteq> None"
    using name_groups_ok [OF u(2), of ?ids "[]" "[]"] u(3) by (auto simp: names_ok_def)
  have "(map_of groups x = map_of groups y) = tied (merge_basis sources sds edges corrections) x y"
    if "x \<in> set ?ids" "y \<in> set ?ids" for x y
  proof -
    have "(map_of groups x = map_of groups y) = (uf_rep p x = uf_rep p y)"
      using n(2,3) that names_inj by (metis not_None_eq)
    moreover have "(uf_rep p x = uf_rep p y) = tied (set ?P) x y" using u(4) that by blast
    ultimately show ?thesis using graph_pairs_closure [OF d, of sources edges corrections x y] by metis
  qed
  moreover have "\<exists>g. map_of groups x = Some g" if "x \<in> set ?ids" for x using n(3) that by (metis not_None_eq)
  ultimately show ?thesis
    by (simp add: group_source_graph_def assms(1) Let_def u(1) n(1) result_of_def)
qed

text \<open>
  C5.  On a graph of distinct sources whose addresses can be read and whose corrections stay inside
  it, the grouping terminates without an error, and two sources get the same group exactly when they
  are connected by the bases the code tests: the same registrable domain, the same content hash,
  overlapping texts, a parent in the graph, a merge correction or an edge without a split, and the
  one shared class of the sources without domain and without content hash.  That class is the one the
  module text names (no URI and no content hash); the docstring of \<open>group_source_graph\<close> also asks for
  no parent and no sample text, which the code does not test, and the last clause states it: sources
  of that class share a group whatever their parents and their texts are.
\<close>

theorem source_groups_are_the_connected_components:
  assumes "domains_of urlsplit sources = Inr sds" and "distinct (map si_source_id sources)"
    and "\<forall>c\<in>set corrections. sgc_from_id c \<in> si_source_id ` set sources \<and> sgc_to_id c \<in> si_source_id ` set sources"
  shows "\<exists>res. group_source_graph urlsplit h sources edges corrections = Some (Inr res)
    \<and> (\<forall>s\<in>set sources. \<forall>t\<in>set sources.
         (map_of (ir_groups res) (si_source_id s) = map_of (ir_groups res) (si_source_id t)) =
         tied (merge_basis sources sds edges corrections) (si_source_id s) (si_source_id t))
    \<and> (\<forall>s\<in>set sources. \<exists>g. map_of (ir_groups res) (si_source_id s) = Some g)
    \<and> (\<forall>s\<in>set sources. \<forall>t\<in>set sources.
         (s, None) \<in> set sds \<and> si_content_hash s = None \<and> (t, None) \<in> set sds \<and> si_content_hash t = None \<longrightarrow>
         map_of (ir_groups res) (si_source_id s) = map_of (ir_groups res) (si_source_id t))"
proof -
  have "tied (merge_basis sources sds edges corrections) (si_source_id s) (si_source_id t)"
    if "(s, None) \<in> set sds" "si_content_hash s = None" "(t, None) \<in> set sds" "si_content_hash t = None" for s t
  proof -
    have "alike (s, None) (t, None)" using that by (simp add: alike_def unknown_lineage_def)
    from merge_basis_alike [OF that(1,3) this] show ?thesis by (metis tied_base sid_of_def fst_conv)
  qed
  then show ?thesis using graph_components [OF assms, of h edges] by blast
qed

definition example_source :: "uuid \<Rightarrow> string option \<Rightarrow> source_input" where
  "example_source i content = \<lparr>si_source_id = i, si_canonical_uri = None, si_content_hash = content,
     si_sample_text = None, si_parent_source_id = None\<rparr>"

text \<open>Two mirrors of one document, and two sources without address and hash that differ in parent and text.\<close>

definition example_graph :: "source_input list" where
  "example_graph = [example_source 1 (Some ''x''), example_source 2 (Some ''x''),
     (example_source 3 None)\<lparr>si_sample_text := Some ''alpha''\<rparr>,
     (example_source 4 None)\<lparr>si_sample_text := Some ''omega'', si_parent_source_id := Some 9\<rparr>]"

theorem source_groups_are_the_connected_components_witness:
  "\<exists>res. group_source_graph (\<lambda>_. Inl (ValueError [])) \<lparr>host_frepr = (\<lambda>_. []), host_sha256 = id\<rparr> example_graph [] []
       = Some (Inr res)
     \<and> map_of (ir_groups res) 1 = map_of (ir_groups res) 2
     \<and> map_of (ir_groups res) 3 = map_of (ir_groups res) 4"
proof -
  let ?h = "\<lparr>host_frepr = (\<lambda>_. []), host_sha256 = id\<rparr>" and ?u = "\<lambda>_ :: string. Inl (ValueError []) :: exn + url_parts"
  let ?sds = "map (\<lambda>s. (s, None :: string option)) example_graph"
  have d: "domains_of ?u example_graph = Inr ?sds"
    by (simp add: example_graph_def domain_of_def example_source_def)
  have "distinct (map si_source_id example_graph)" by (simp add: example_graph_def example_source_def)
  from source_groups_are_the_connected_components [OF d this, of "[]" ?h "[]"] obtain res where
    r: "group_source_graph ?u ?h example_graph [] [] = Some (Inr res)"
    and g: "\<forall>s\<in>set example_graph. \<forall>t\<in>set example_graph.
         (map_of (ir_groups res) (si_source_id s) = map_of (ir_groups res) (si_source_id t)) =
         tied (merge_basis example_graph ?sds [] []) (si_source_id s) (si_source_id t)"
    and u: "\<forall>s\<in>set example_graph. \<forall>t\<in>set example_graph.
         (s, None) \<in> set ?sds \<and> si_content_hash s = None \<and> (t, None) \<in> set ?sds \<and> si_content_hash t = None \<longrightarrow>
         map_of (ir_groups res) (si_source_id s) = map_of (ir_groups res) (si_source_id t)" by auto
  have m: "example_graph ! i \<in> set example_graph" "(example_graph ! i, None) \<in> set ?sds" if "i < 4" for i
  proof -
    have "i < length example_graph" using that by (simp add: example_graph_def)
    then show "example_graph ! i \<in> set example_graph" "(example_graph ! i, None) \<in> set ?sds"
      by (auto intro: nth_mem)
  qed
  have ids: "si_source_id (example_graph ! 0) = 1" "si_source_id (example_graph ! 1) = 2"
    "si_source_id (example_graph ! 2) = 3" "si_source_id (example_graph ! 3) = 4"
    "si_content_hash (example_graph ! 2) = None" "si_content_hash (example_graph ! 3) = None"
    by (simp_all add: example_graph_def example_source_def)
  have "alike (example_graph ! 0, None) (example_graph ! 1, None)"
    by (simp add: alike_def unknown_lineage_def example_graph_def example_source_def)
  from merge_basis_alike [OF m(2) m(2) this]
  have "(sid_of (example_graph ! 0, None), sid_of (example_graph ! 1, None)) \<in> merge_basis example_graph ?sds [] []"
    by simp
  then have t: "tied (merge_basis example_graph ?sds [] []) 1 2" by (intro tied_base) (simp add: sid_of_def ids [simplified])
  have "map_of (ir_groups res) 1 = map_of (ir_groups res) 2"
    using bspec [OF bspec [OF g m(1) [of 0]] m(1) [of 1]] t by (simp only: ids)
  moreover have "map_of (ir_groups res) 3 = map_of (ir_groups res) 4"
    using bspec [OF bspec [OF u m(1) [of 2]] m(1) [of 3]] m(2) [of 2] m(2) [of 3] by (simp only: ids)
  ultimately show ?thesis using r by blast
qed

text \<open>
  Corrections cannot undo data, and new edges cannot create independence: whatever the edges
  and the corrections, sources that are alike and a source with its parent share their group; and
  with more edges, sources that shared a group still do.
\<close>

theorem graph_changes_cannot_undo_data:
  assumes "domains_of urlsplit sources = Inr sds" and "distinct (map si_source_id sources)"
    and "\<forall>c\<in>set corrections. sgc_from_id c \<in> si_source_id ` set sources \<and> sgc_to_id c \<in> si_source_id ` set sources"
    and "group_source_graph urlsplit h sources edges corrections = Some (Inr res)"
    and "group_source_graph urlsplit h sources edges' corrections = Some (Inr res')" and "set edges \<subseteq> set edges'"
  shows "(\<forall>x\<in>set sds. \<forall>y\<in>set sds. alike x y \<longrightarrow> map_of (ir_groups res) (sid_of x) = map_of (ir_groups res) (sid_of y))
    \<and> (\<forall>s\<in>set sources. \<forall>t\<in>set sources. si_parent_source_id s = Some (si_source_id t) \<longrightarrow>
         map_of (ir_groups res) (si_source_id s) = map_of (ir_groups res) (si_source_id t))
    \<and> (\<forall>s\<in>set sources. \<forall>t\<in>set sources.
         map_of (ir_groups res) (si_source_id s) = map_of (ir_groups res) (si_source_id t) \<longrightarrow>
         map_of (ir_groups res') (si_source_id s) = map_of (ir_groups res') (si_source_id t))"
proof -
  let ?M = "\<lambda>es. merge_basis sources sds es corrections"
  have g: "(map_of (ir_groups res) (si_source_id s) = map_of (ir_groups res) (si_source_id t)) = tied (?M edges) (si_source_id s) (si_source_id t)"
    "(map_of (ir_groups res') (si_source_id s) = map_of (ir_groups res') (si_source_id t)) = tied (?M edges') (si_source_id s) (si_source_id t)"
    if "s \<in> set sources" "t \<in> set sources" for s t
    using graph_components [OF assms(1-3), of h edges] graph_components [OF assms(1-3), of h edges'] assms(4,5) that by auto
  have fs: "fst x \<in> set sources" if "x \<in> set sds" for x using domains_of_fst [OF assms(1)] that by auto
  have m: "?M edges \<subseteq> ?M edges'" using assms(6) unfolding merge_basis_def by blast
  have a: "tied (?M edges) (sid_of x) (sid_of y)" if "x \<in> set sds" "y \<in> set sds" "alike x y" for x y
    using that by (intro tied_base merge_basis_alike)
  have p: "tied (?M edges) (si_source_id s) (si_source_id t)"
    if "s \<in> set sources" "t \<in> set sources" "si_parent_source_id s = Some (si_source_id t)" for s t
    using that unfolding merge_basis_def by (intro tied_base) blast
  show ?thesis using a p g fs tied_mono [OF m] unfolding sid_of_def by simp
qed

theorem graph_changes_cannot_undo_data_witness:
  "let ss = [example_source 1 (Some ''x''), example_source 2 (Some ''x'')];
       h = \<lparr>host_frepr = (\<lambda>_. []), host_sha256 = id\<rparr>;
       c = [\<lparr>sgc_correction_id = 5, sgc_from_id = 1, sgc_to_id = 2, sgc_kind = ''split'', sgc_valid = True\<rparr>]
   in \<exists>res. group_source_graph (\<lambda>_. Inl (ValueError [])) h ss [] c = Some (Inr res)
     \<and> map_of (ir_groups res) 1 = map_of (ir_groups res) 2"
proof -
  let ?ss = "[example_source 1 (Some ''x''), example_source 2 (Some ''x'')]"
  let ?h = "\<lparr>host_frepr = (\<lambda>_. []), host_sha256 = id\<rparr>" and ?u = "\<lambda>_ :: string. Inl (ValueError []) :: exn + url_parts"
  let ?c = "[\<lparr>sgc_correction_id = 5, sgc_from_id = 1, sgc_to_id = 2, sgc_kind = ''split'', sgc_valid = True\<rparr>]"
  let ?sds = "map (\<lambda>s. (s, None)) ?ss"
  have d: "domains_of ?u ?ss = Inr ?sds" by (simp add: domain_of_def example_source_def)
  have n: "distinct (map si_source_id ?ss)" by (simp add: example_source_def)
  have c: "\<forall>c\<in>set ?c. sgc_from_id c \<in> si_source_id ` set ?ss \<and> sgc_to_id c \<in> si_source_id ` set ?ss"
    by (simp add: example_source_def)
  obtain res where r: "group_source_graph ?u ?h ?ss [] ?c = Some (Inr res)"
    using graph_components [OF d n c] by blast
  have al: "alike (?ss ! 0, None) (?ss ! 1, None)" by (simp add: alike_def unknown_lineage_def example_source_def)
  have "map_of (ir_groups res) (sid_of (?ss ! 0, None)) = map_of (ir_groups res) (sid_of (?ss ! 1, None))"
    by (rule graph_changes_cannot_undo_data [OF d n c r r order_refl, THEN conjunct1, rule_format, OF _ _ al]) simp_all
  with r show ?thesis by (simp add: Let_def sid_of_def example_source_def)
qed

end
