(* ===== verification/Policy.thy ===== *)
theory Policy
  imports Enums PyData "HOL-Library.Sublist"
begin

section \<open>Capability profiles and the policy engine\<close>

text \<open>
  \<open>packages/policy/profiles.py\<close>, \<open>tools.py\<close> and \<open>engine.py\<close>: the profile of a session is the ceiling of its access
  profile narrowed by the configuration snapshot; the engine decides every tool call against it.

  Reading the YAML file of a ceiling is the parameter \<open>ceilings\<close>.  Argument validation is done by
  pydantic, a package outside the repository: it is the parameter \<open>validate\<close>, and what the engine
  relies on of it is the locale \<open>args_validator\<close>, interpreted on a reference validator.  The Russian tool
  descriptions are left out.  \<open>posixpath.normpath\<close> and the URL pattern are written out.
\<close>

subsection \<open>Paths\<close>

fun py_split :: "char \<Rightarrow> string \<Rightarrow> string list" where
  "py_split sep [] = [[]]"
| "py_split sep (c # cs) =
     (if c = sep then [] # py_split sep cs
      else case py_split sep cs of [] \<Rightarrow> [[c]] | w # ws \<Rightarrow> (c # w) # ws)"

text \<open>\<open>posixpath.normpath\<close>: the loop over the components, then the leading slashes.\<close>

definition norm_component :: "bool \<Rightarrow> string \<Rightarrow> string list \<Rightarrow> string list" where
  "norm_component initial part new =
     (if part = [] \<or> part = ''.'' then new
      else if part \<noteq> ''..'' \<or> (\<not> initial \<and> new = []) \<or> (new \<noteq> [] \<and> last new = ''..'') then new @ [part]
      else butlast new)"

definition initial_slashes :: "string \<Rightarrow> nat" where
  "initial_slashes path =
     (if prefix ''//'' path \<and> \<not> prefix ''///'' path then 2 else if prefix ''/'' path then 1 else 0)"

definition normpath :: "string \<Rightarrow> string" where
  "normpath path =
     (if path = [] then ''.''
      else let n = initial_slashes path;
               comps = fold (norm_component (0 < n)) (py_split (CHR ''/'') path) [];
               p = replicate n (CHR ''/'') @ join ''/'' comps
           in if p = [] then ''.'' else p)"

definition rstrip_slash :: "string \<Rightarrow> string" where
  "rstrip_slash s = rev (dropWhile (\<lambda>c. c = CHR ''/'') (rev s))"

subsection \<open>Profiles\<close>

datatype network_mode = NM_NONE | NM_RESEARCH_PROXY

primrec network_mode_value :: "network_mode \<Rightarrow> string" where
  "network_mode_value NM_NONE = ''none''"
| "network_mode_value NM_RESEARCH_PROXY = ''research_proxy''"

record capability_profile =
  cp_name :: string
  cp_version :: string
  cp_tools :: "string list"
  cp_writable_paths :: "string list"
  cp_readable_paths :: "string list"
  cp_network :: network_mode
  cp_command_timeout_seconds :: int
  cp_workspace_quota_mb :: int
  cp_secrets :: string
  cp_metadata_endpoints :: string

definition policy_version :: "capability_profile \<Rightarrow> string" where
  "policy_version p = cp_name p @ ''-'' @ cp_version p"

definition tool_allowed :: "capability_profile \<Rightarrow> string \<Rightarrow> bool" where
  "tool_allowed p tool \<longleftrightarrow> tool \<in> set (cp_tools p)"

text \<open>The strings of a list of JSON values, when they all are elements of a list of strings.\<close>

definition text_in :: "string list \<Rightarrow> json \<Rightarrow> bool" where
  "text_in names v = (case v of JStr s \<Rightarrow> s \<in> set names | _ \<Rightarrow> False)"

definition text_value :: "json \<Rightarrow> string" where
  "text_value v = (case v of JStr s \<Rightarrow> s | _ \<Rightarrow> [])"

definition json_get :: "json \<Rightarrow> string \<Rightarrow> json \<Rightarrow> exn + json" where
  "json_get v k dflt = (case v of JObj d \<Rightarrow> Inr (dict_get d k dflt)
     | _ \<Rightarrow> Inl (AttributeError ''object has no attribute get''))"

definition effective_profile ::
  "(rat \<Rightarrow> string) \<Rightarrow> (string \<Rightarrow> exn + capability_profile) \<Rightarrow> json_dict \<Rightarrow> exn + capability_profile" where
  "effective_profile frepr ceilings snapshot_policy =
     (let access = py_str frepr (dict_get snapshot_policy ''access_profile'' (JStr ''sealed'')) in
      case ceilings access of Inl e \<Rightarrow> Inl e | Inr ceil_p \<Rightarrow>
        let raw = dict_get snapshot_policy ''capabilities'' (JObj []);
            caps = (if truthy raw then raw else JObj []) in
        case json_get caps ''tools'' (JArr []) of Inl e \<Rightarrow> Inl e | Inr tools_raw \<Rightarrow>
        case py_frozenset tools_raw of Inl e \<Rightarrow> Inl e | Inr snapshot_tools \<Rightarrow>
        if \<not> list_all (text_in (cp_tools ceil_p)) snapshot_tools then
          Inl (ProfileError (''config snapshot grants tools outside the '' @ repr_str access @ '' ceiling''))
        else
          case json_get caps ''write_paths'' (JArr (map JStr (cp_writable_paths ceil_p))) of Inl e \<Rightarrow> Inl e | Inr paths_raw \<Rightarrow>
          case py_tuple paths_raw of Inl e \<Rightarrow> Inl e | Inr write_paths \<Rightarrow>
          if \<not> list_all (text_in (cp_writable_paths ceil_p)) write_paths then
            Inl (ProfileError ''config snapshot grants write path outside ceiling'')
          else
            Inr (ceil_p\<lparr>cp_tools := remdups (map text_value snapshot_tools),
              cp_writable_paths := filter (\<lambda>p. JStr p \<in> set write_paths) (cp_writable_paths ceil_p)\<rparr>))"

subsection \<open>The tool registry\<close>

record field_spec =
  fs_name :: string
  fs_default :: "string option"
  fs_min_length :: nat
  fs_max_length :: nat

datatype path_mode = PM_read | PM_write

record tool_spec =
  ts_name :: string
  ts_idempotency_class :: idempotency_class
  ts_args_model :: "field_spec list"
  ts_path_args :: "string list"
  ts_path_mode :: path_mode

abbreviation field :: "string \<Rightarrow> nat \<Rightarrow> nat \<Rightarrow> field_spec" where
  "field n lo hi \<equiv> \<lparr>fs_name = n, fs_default = None, fs_min_length = lo, fs_max_length = hi\<rparr>"

abbreviation field_or :: "string \<Rightarrow> string \<Rightarrow> nat \<Rightarrow> field_spec" where
  "field_or n dflt hi \<equiv> \<lparr>fs_name = n, fs_default = Some dflt, fs_min_length = 0, fs_max_length = hi\<rparr>"

definition WorkspaceReadArgs :: "field_spec list" where
  "WorkspaceReadArgs = [field ''path'' 1 1000]"

definition WorkspaceListArgs :: "field_spec list" where
  "WorkspaceListArgs = [field_or ''path'' ''.'' 1000]"

definition WorkspaceWriteArgs :: "field_spec list" where
  "WorkspaceWriteArgs = [field ''path'' 1 1000, field_or ''content'' [] 1000000]"

definition PythonExecuteArgs :: "field_spec list" where
  "PythonExecuteArgs = [field ''code'' 1 100000]"

definition ShellExecuteArgs :: "field_spec list" where
  "ShellExecuteArgs = [field ''command'' 1 10000]"

definition MemorySearchArgs :: "field_spec list" where
  "MemorySearchArgs = [field ''query'' 1 1000]"

definition ResearchFetchArgs :: "field_spec list" where
  "ResearchFetchArgs = [field ''url'' 1 2000]"

definition WebSearchArgs :: "field_spec list" where
  "WebSearchArgs = [field ''query'' 1 500]"

definition QuestionCreateArgs :: "field_spec list" where
  "QuestionCreateArgs = [field ''text'' 1 2000, field_or ''origin'' ''model_proposal'' 50]"

definition MessageReplyArgs :: "field_spec list" where
  "MessageReplyArgs = [field ''message_id'' 1 64, field ''body'' 1 2000]"

definition TOOLS :: "tool_spec list" where
  "TOOLS =
    [\<lparr>ts_name = ''workspace.read'', ts_idempotency_class = IC_PURE, ts_args_model = WorkspaceReadArgs,
      ts_path_args = [''path''], ts_path_mode = PM_read\<rparr>,
     \<lparr>ts_name = ''workspace.list'', ts_idempotency_class = IC_PURE, ts_args_model = WorkspaceListArgs,
      ts_path_args = [''path''], ts_path_mode = PM_read\<rparr>,
     \<lparr>ts_name = ''workspace.write'', ts_idempotency_class = IC_IDEMPOTENT, ts_args_model = WorkspaceWriteArgs,
      ts_path_args = [''path''], ts_path_mode = PM_write\<rparr>,
     \<lparr>ts_name = ''python.execute'', ts_idempotency_class = IC_NON_IDEMPOTENT, ts_args_model = PythonExecuteArgs,
      ts_path_args = [], ts_path_mode = PM_read\<rparr>,
     \<lparr>ts_name = ''shell.execute'', ts_idempotency_class = IC_NON_IDEMPOTENT, ts_args_model = ShellExecuteArgs,
      ts_path_args = [], ts_path_mode = PM_read\<rparr>,
     \<lparr>ts_name = ''memory.search'', ts_idempotency_class = IC_PURE, ts_args_model = MemorySearchArgs,
      ts_path_args = [], ts_path_mode = PM_read\<rparr>,
     \<lparr>ts_name = ''research.fetch'', ts_idempotency_class = IC_NON_IDEMPOTENT, ts_args_model = ResearchFetchArgs,
      ts_path_args = [], ts_path_mode = PM_read\<rparr>,
     \<lparr>ts_name = ''web.search'', ts_idempotency_class = IC_OBSERVATION, ts_args_model = WebSearchArgs,
      ts_path_args = [], ts_path_mode = PM_read\<rparr>,
     \<lparr>ts_name = ''question.create'', ts_idempotency_class = IC_IDEMPOTENT, ts_args_model = QuestionCreateArgs,
      ts_path_args = [], ts_path_mode = PM_read\<rparr>,
     \<lparr>ts_name = ''message.reply'', ts_idempotency_class = IC_IDEMPOTENT, ts_args_model = MessageReplyArgs,
      ts_path_args = [], ts_path_mode = PM_read\<rparr>]"

definition get_tool :: "string \<Rightarrow> tool_spec option" where
  "get_tool n = find (\<lambda>s. ts_name s = n) TOOLS"

definition all_tools :: "tool_spec list" where
  "all_tools = sort_key ts_name TOOLS"

definition model_tools_schema :: "capability_profile \<Rightarrow> tool_spec list" where
  "model_tools_schema p = filter (\<lambda>s. tool_allowed p (ts_name s)) all_tools"

subsection \<open>The checks\<close>

definition py_contains :: "string \<Rightarrow> string \<Rightarrow> bool" where
  "py_contains v ext = list_ex (prefix v) (suffixes ext)"

definition MIN_SIMILARITY_LEN :: nat where
  "MIN_SIMILARITY_LEN = 24"

definition SIMILARITY_WINDOW :: nat where
  "SIMILARITY_WINDOW = 48"

text \<open>The offsets \<open>range(0, max(1, len(v) - 48 + 1), 16)\<close>.\<close>

definition window_offsets :: "string \<Rightarrow> nat list" where
  "window_offsets v =
     (let stop = max 1 (int (length v) - int SIMILARITY_WINDOW + 1); step = SIMILARITY_WINDOW div 3
      in filter (\<lambda>i. int i < stop) (map (\<lambda>k. k * step) [0..<Suc (length v)]))"

definition overlaps_text :: "string \<Rightarrow> string \<Rightarrow> bool" where
  "overlaps_text v ext \<longleftrightarrow> MIN_SIMILARITY_LEN \<le> length ext \<and>
     (py_contains v ext \<or> list_ex (\<lambda>i. py_contains (take SIMILARITY_WINDOW (drop i v)) ext) (window_offsets v))"

definition has_verbatim_overlap :: "string \<Rightarrow> string list \<Rightarrow> bool" where
  "has_verbatim_overlap value external_texts =
     (let v = py_strip value in MIN_SIMILARITY_LEN \<le> length v \<and> list_ex (overlaps_text v) external_texts)"

text \<open>The pattern \<open>https?://[^\s'"<>]+\<close>, ignoring case.\<close>

definition url_body :: "char \<Rightarrow> bool" where
  "url_body c \<longleftrightarrow> \<not> py_space c \<and> c \<notin> {CHR 0x27, CHR 0x22, CHR ''<'', CHR ''>''}"

definition url_at :: "string \<Rightarrow> bool" where
  "url_at t \<longleftrightarrow>
     (prefix ''http://'' (py_lower t) \<and> 7 < length t \<and> url_body (t ! 7)) \<or>
     (prefix ''https://'' (py_lower t) \<and> 8 < length t \<and> url_body (t ! 8))"

definition has_url :: "string \<Rightarrow> bool" where
  "has_url s = list_ex url_at (suffixes s)"

definition workspace_path :: "string \<Rightarrow> string" where
  "workspace_path raw = (if prefix ''/'' raw then raw else ''/workspace/'' @ raw)"

definition path_roots :: "path_mode \<Rightarrow> capability_profile \<Rightarrow> string list" where
  "path_roots mode p = (case mode of PM_write \<Rightarrow> cp_writable_paths p | PM_read \<Rightarrow> cp_readable_paths p)"

definition under_root :: "string \<Rightarrow> string \<Rightarrow> bool" where
  "under_root path r \<longleftrightarrow> path = r \<or> prefix (rstrip_slash r @ ''/'') path"

definition check_path :: "string \<Rightarrow> path_mode \<Rightarrow> capability_profile \<Rightarrow> string list" where
  "check_path raw mode p =
     (if list_ex (under_root (normpath (workspace_path raw))) (path_roots mode p) then []
      else [''path '' @ repr_str raw @ '' outside profile '' @
            (case mode of PM_write \<Rightarrow> ''write'' | PM_read \<Rightarrow> ''read'') @ '' roots''])"

definition json_has_url :: "json \<Rightarrow> bool" where
  "json_has_url v = (case v of JStr s \<Rightarrow> has_url s | _ \<Rightarrow> False)"

definition check_paths_and_network :: "(rat \<Rightarrow> string) \<Rightarrow> tool_spec \<Rightarrow> capability_profile \<Rightarrow> json_dict \<Rightarrow> string list" where
  "check_paths_and_network frepr spec p args =
     concat (map (\<lambda>a. case map_of args a of None \<Rightarrow> []
        | Some v \<Rightarrow> check_path (py_str frepr v) (ts_path_mode spec) p) (ts_path_args spec)) @
     (if cp_network p = NM_NONE then
        (case find (\<lambda>(k, v). json_has_url v) args of None \<Rightarrow> []
         | Some (k, v) \<Rightarrow> [''argument '' @ repr_str k @ '' carries a URL; network is disabled for this profile''])
      else [])"

definition check_similarity :: "json_dict \<Rightarrow> string list \<Rightarrow> bool" where
  "check_similarity args external_texts \<longleftrightarrow> external_texts \<noteq> [] \<and>
     list_ex (\<lambda>(k, v). case v of JStr s \<Rightarrow> has_verbatim_overlap s external_texts | _ \<Rightarrow> False) args"

record policy_evaluation =
  pe_tool :: string
  pe_decision :: policy_decision
  pe_reasons :: "string list"
  pe_arguments_hash :: string
  pe_profile_version :: string
  pe_similarity_signal :: bool

type_synonym validator = "field_spec list \<Rightarrow> json_dict \<Rightarrow> (string \<times> string) list + json_dict"

text \<open>The reasons and the similarity signal that the checks accumulate.\<close>

definition policy_checks ::
  "(rat \<Rightarrow> string) \<Rightarrow> validator \<Rightarrow> capability_profile \<Rightarrow> string \<Rightarrow> json_dict \<Rightarrow> string list \<Rightarrow> string list \<times> bool" where
  "policy_checks frepr validate p tool arguments external_texts =
     (case get_tool tool of
        None \<Rightarrow> ([''unknown tool: '' @ tool], False)
      | Some spec \<Rightarrow>
          if \<not> tool_allowed p tool then
            ([''tool not allowed by profile '' @ [CHR 0x27] @ cp_name p @ [CHR 0x27] @ '': '' @ tool], False)
          else case validate (ts_args_model spec) arguments of
            Inl errors \<Rightarrow> (map (\<lambda>(loc, msg). ''argument '' @ loc @ '': '' @ msg) (take 5 errors), False)
          | Inr args \<Rightarrow> (check_paths_and_network frepr spec p args, check_similarity args external_texts))"

definition policy_evaluate ::
  "(rat \<Rightarrow> string) \<Rightarrow> (string \<Rightarrow> string) \<Rightarrow> validator \<Rightarrow> capability_profile \<Rightarrow> string \<Rightarrow> json_dict \<Rightarrow> string list \<Rightarrow> policy_evaluation" where
  "policy_evaluate frepr sha256 validate p tool arguments external_texts =
     (let (reasons, similarity) = policy_checks frepr validate p tool arguments external_texts in
      \<lparr>pe_tool = tool,
       pe_decision = (if reasons \<noteq> [] then PD_DENY else if similarity then PD_REQUIRE_OPERATOR else PD_ALLOW),
       pe_reasons = (if reasons \<noteq> [] then reasons
         else if similarity then [''argument similarity with external text''] else [[]]),
       pe_arguments_hash = canonical_sha256 frepr sha256 (JObj arguments),
       pe_profile_version = policy_version p,
       pe_similarity_signal = similarity\<rparr>)"

subsection \<open>Facts about paths\<close>

text \<open>
  The specification: the components of a path, and where a walk through components ends that starts
  at the root directory.
\<close>

definition path_comps :: "string \<Rightarrow> string list" where
  "path_comps p = filter (\<lambda>c. c \<noteq> []) (py_split (CHR ''/'') p)"

fun walk_path :: "string list \<Rightarrow> string list \<Rightarrow> string list" where
  "walk_path here [] = here"
| "walk_path here (c # cs) =
     (if c = [] \<or> c = ''.'' then walk_path here cs
      else if c = ''..'' then walk_path (butlast here) cs
      else walk_path (here @ [c]) cs)"

definition resolve_path :: "string \<Rightarrow> string list" where
  "resolve_path raw = walk_path [] (py_split (CHR ''/'') (workspace_path raw))"

definition clean_comp :: "string \<Rightarrow> bool" where
  "clean_comp c \<longleftrightarrow> c \<notin> {[], ''.'', ''..''} \<and> CHR ''/'' \<notin> set c"

lemma py_split_nonempty [simp]: "py_split sep s \<noteq> []"
  by (cases s) (auto split: list.split)

lemma py_split_append: "py_split sep (x @ sep # y) = py_split sep x @ py_split sep y"
  by (induction x) (auto split: list.split)

lemma py_split_no_sep: "w \<in> set (py_split sep s) \<Longrightarrow> sep \<notin> set w"
  by (induction s arbitrary: w) (auto split: if_splits list.splits)

lemma py_split_plain: "sep \<notin> set s \<Longrightarrow> py_split sep s = [s]"
  by (induction s) auto

lemma path_comps_append: "path_comps (x @ ''/'' @ y) = path_comps x @ path_comps y"
  by (simp add: path_comps_def py_split_append)

lemma path_comps_plain: "clean_comp c \<Longrightarrow> path_comps c = [c]"
  by (simp add: path_comps_def py_split_plain clean_comp_def)

lemma path_comps_Nil [simp]: "path_comps [] = []"
  by (simp add: path_comps_def)

lemma path_comps_join: "list_all clean_comp cs \<Longrightarrow> path_comps (join ''/'' cs) = cs"
proof (induction cs rule: induct_list012)
  case (3 x y ys)
  then show ?case using path_comps_append [of x "join ''/'' (y # ys)"] by (simp add: path_comps_plain)
qed (simp_all add: path_comps_plain)

lemma path_comps_slashes: "path_comps (replicate n (CHR ''/'') @ s) = path_comps s"
proof (induction n)
  case (Suc n)
  then show ?case using path_comps_append [of "[]" "replicate n (CHR ''/'') @ s"] by simp
qed simp

lemma rstrip_slash_eq: "\<exists>n. s = rstrip_slash s @ replicate n (CHR ''/'')"
proof -
  have "rev s = takeWhile (\<lambda>c. c = CHR ''/'') (rev s) @ dropWhile (\<lambda>c. c = CHR ''/'') (rev s)" by simp
  then have "s = rstrip_slash s @ rev (takeWhile (\<lambda>c. c = CHR ''/'') (rev s))"
    unfolding rstrip_slash_def by (metis rev_append rev_rev_ident)
  moreover have "\<forall>c\<in>set (rev (takeWhile (\<lambda>c. c = CHR ''/'') (rev s))). c = CHR ''/''"
    by (auto dest: set_takeWhileD)
  ultimately show ?thesis by (metis replicate_length_same)
qed

lemma path_comps_rstrip: "path_comps (rstrip_slash s) = path_comps s"
proof -
  obtain n where n: "s = rstrip_slash s @ replicate n (CHR ''/'')" using rstrip_slash_eq by blast
  show ?thesis
  proof (cases n)
    case (Suc k)
    have "path_comps s = path_comps (rstrip_slash s @ ''/'' @ replicate k (CHR ''/''))"
      by (subst n) (simp add: Suc)
    also have "\<dots> = path_comps (rstrip_slash s)" by (simp only: path_comps_append path_comps_slashes [of k "[]", simplified] append_Nil2)
    finally show ?thesis by simp
  qed (use n in simp)
qed

lemma norm_fold_walk:
  "list_all clean_comp here \<Longrightarrow> \<forall>c\<in>set cs. CHR ''/'' \<notin> set c \<Longrightarrow>
   fold (norm_component True) cs here = walk_path here cs \<and> list_all clean_comp (walk_path here cs)"
proof (induction cs arbitrary: here)
  case (Cons c cs)
  have "\<not> clean_comp ''..''" by (simp add: clean_comp_def)
  then have last: "here = [] \<or> last here \<noteq> ''..''" using Cons.prems(1) last_in_set [of here] unfolding list_all_iff by metis
  have bl: "list_all clean_comp (butlast here)" using Cons.prems(1) unfolding list_all_iff by (blast dest: in_set_butlastD)
  have rest: "\<forall>c\<in>set cs. CHR ''/'' \<notin> set c" "CHR ''/'' \<notin> set c" using Cons.prems(2) by simp_all
  consider "c = [] \<or> c = ''.''" | "c = ''..''" | "clean_comp c" using rest(2) by (auto simp: clean_comp_def)
  then show ?case
  proof cases
    case 1
    then show ?thesis using Cons.IH [OF Cons.prems(1) rest(1)] by (auto simp: norm_component_def)
  next
    case 2
    have "norm_component True ''..'' here = butlast here" using last by (auto simp: norm_component_def)
    then show ?thesis using 2 Cons.IH [OF bl rest(1)] by simp
  next
    case 3
    then have c: "c \<noteq> []" "c \<noteq> ''.''" "c \<noteq> ''..''" by (auto simp: clean_comp_def)
    have "list_all clean_comp (here @ [c])" using 3 Cons.prems(1) by simp
    moreover have "norm_component True c here = here @ [c]" using c by (simp add: norm_component_def)
    ultimately show ?thesis using c Cons.IH [of "here @ [c]"] rest(1) by simp
  qed
qed simp

lemma workspace_path_abs: "prefix ''/'' (workspace_path raw)"
  by (simp add: workspace_path_def)

lemma normpath_resolves:
  "\<exists>n. 0 < n \<and> normpath (workspace_path raw) = replicate n (CHR ''/'') @ join ''/'' (resolve_path raw)"
  "list_all clean_comp (resolve_path raw)"
proof -
  let ?p = "workspace_path raw"
  have abs: "0 < initial_slashes ?p" using workspace_path_abs [of raw] by (auto simp: initial_slashes_def)
  have w: "fold (norm_component True) (py_split (CHR ''/'') ?p) [] = resolve_path raw"
    "list_all clean_comp (resolve_path raw)"
    using norm_fold_walk [of "[]" "py_split (CHR ''/'') ?p"] py_split_no_sep unfolding resolve_path_def by auto
  have "?p \<noteq> []" using workspace_path_abs [of raw] by auto
  then have "normpath ?p = replicate (initial_slashes ?p) (CHR ''/'') @ join ''/'' (resolve_path raw)"
    using abs w(1) by (simp add: normpath_def Let_def)
  with abs show "\<exists>n. 0 < n \<and> normpath ?p = replicate n (CHR ''/'') @ join ''/'' (resolve_path raw)" by blast
  show "list_all clean_comp (resolve_path raw)" by (rule w(2))
qed

lemma normpath_comps: "path_comps (normpath (workspace_path raw)) = resolve_path raw"
proof -
  obtain n where "normpath (workspace_path raw) = replicate n (CHR ''/'') @ join ''/'' (resolve_path raw)"
    using normpath_resolves(1) by blast
  then show ?thesis using path_comps_join [OF normpath_resolves(2)] by (simp add: path_comps_slashes)
qed

lemma under_root_comps:
  assumes "under_root (normpath (workspace_path raw)) r"
  shows "prefix (path_comps r) (resolve_path raw)"
proof (cases "normpath (workspace_path raw) = r")
  case True
  then show ?thesis using normpath_comps [of raw] by simp
next
  case False
  then obtain z where "normpath (workspace_path raw) = rstrip_slash r @ ''/'' @ z"
    using assms by (auto simp: under_root_def prefix_def)
  then have "resolve_path raw = path_comps r @ path_comps z"
    using normpath_comps [of raw] by (simp only: path_comps_append path_comps_rstrip)
  then show ?thesis by simp
qed

text \<open>
  A path the engine accepts stays inside the profile.  The path may use \<open>..\<close>, repeated slashes and be
  relative to the workspace; when \<open>_check_path\<close> raises no objection, the place where a walk along its
  components ends lies below a root of the profile for that mode, with no \<open>..\<close> left in it.
\<close>

theorem accepted_path_stays_inside_the_roots:
  assumes "check_path raw mode p = []"
  shows "\<exists>r\<in>set (path_roots mode p). prefix (path_comps r) (resolve_path raw) \<and> ''..'' \<notin> set (resolve_path raw)"
proof -
  from assms obtain r where "r \<in> set (path_roots mode p)" "under_root (normpath (workspace_path raw)) r"
    by (auto simp: check_path_def list_ex_iff split: if_splits)
  moreover have "''..'' \<notin> set (resolve_path raw)"
    using normpath_resolves(2) [of raw] by (auto simp: list_all_iff clean_comp_def)
  ultimately show ?thesis using under_root_comps by blast
qed

subsection \<open>What the engine relies on of the validation\<close>

lemma registry_path_args:
  assumes "get_tool tool = Some spec"
  shows "distinct (map fs_name (ts_args_model spec))" "set (ts_path_args spec) \<subseteq> set (map fs_name (ts_args_model spec))"
proof -
  have "\<forall>spec\<in>set TOOLS. distinct (map fs_name (ts_args_model spec)) \<and> set (ts_path_args spec) \<subseteq> set (map fs_name (ts_args_model spec))"
    by (simp add: TOOLS_def WorkspaceReadArgs_def WorkspaceListArgs_def WorkspaceWriteArgs_def PythonExecuteArgs_def
      ShellExecuteArgs_def MemorySearchArgs_def ResearchFetchArgs_def WebSearchArgs_def QuestionCreateArgs_def MessageReplyArgs_def)
  moreover have "spec \<in> set TOOLS" using assms unfolding get_tool_def by (metis find_Some_iff nth_mem)
  ultimately show "distinct (map fs_name (ts_args_model spec))" "set (ts_path_args spec) \<subseteq> set (map fs_name (ts_args_model spec))" by blast+
qed

text \<open>
  The contract of a pydantic model with \<open>extra="forbid"\<close> and string fields: a failure names at least one
  error; a success returns exactly the declared fields, each the given text within its bounds or the
  default of an absent field, and no other argument was given.
\<close>

locale args_validator =
  fixes validate :: validator
  assumes errors_named: "validate fs a = Inl errors \<Longrightarrow> errors \<noteq> []"
    and fields_only: "validate fs a = Inr args \<Longrightarrow> map fst args = map fs_name fs"
    and extra_forbidden: "validate fs a = Inr args \<Longrightarrow> set (map fst a) \<subseteq> set (map fs_name fs)"
    and field_value: "validate fs a = Inr args \<Longrightarrow> f \<in> set fs \<Longrightarrow> distinct (map fs_name fs) \<Longrightarrow>
      \<exists>s. map_of args (fs_name f) = Some (JStr s) \<and>
        (map_of a (fs_name f) = Some (JStr s) \<and> fs_min_length f \<le> length s \<and> length s \<le> fs_max_length f
         \<or> map_of a (fs_name f) = None \<and> fs_default f = Some s)"
begin

lemma no_objection:
  assumes "fst (policy_checks frepr validate p tool arguments external_texts) = []"
  obtains spec args where "get_tool tool = Some spec" "tool \<in> set (cp_tools p)" "validate (ts_args_model spec) arguments = Inr args"
    "check_paths_and_network frepr spec p args = []"
    "snd (policy_checks frepr validate p tool arguments external_texts) = check_similarity args external_texts"
proof -
  obtain spec where g: "get_tool tool = Some spec" using assms by (cases "get_tool tool") (auto simp: policy_checks_def)
  have a: "tool_allowed p tool" using assms g by (auto simp: policy_checks_def split: if_splits)
  obtain args where v: "validate (ts_args_model spec) arguments = Inr args"
  proof (cases "validate (ts_args_model spec) arguments")
    case (Inl errors)
    then show ?thesis using errors_named [OF Inl] assms g a by (simp add: policy_checks_def)
  qed
  show ?thesis by (rule that [OF g _ v]) (use assms g a v in \<open>auto simp: policy_checks_def tool_allowed_def\<close>)
qed

lemma path_argument:
  assumes "get_tool tool = Some spec" and "validate (ts_args_model spec) arguments = Inr args"
    and "check_paths_and_network frepr spec p args = []" and "a \<in> set (ts_path_args spec)"
  shows "\<exists>raw. map_of args a = Some (JStr raw) \<and> check_path raw (ts_path_mode spec) p = []"
proof -
  obtain f where f: "f \<in> set (ts_args_model spec)" "fs_name f = a" "distinct (map fs_name (ts_args_model spec))"
    using registry_path_args [OF assms(1)] assms(4) by auto
  from field_value [OF assms(2) f(1,3)] obtain s where s: "map_of args a = Some (JStr s)" using f(2) by auto
  then show ?thesis using assms(3,4) by (auto simp: check_paths_and_network_def py_str_def)
qed

end

text \<open>A validator that implements the contract.\<close>

definition validate_field :: "json_dict \<Rightarrow> field_spec \<Rightarrow> (string \<times> string) + (string \<times> json)" where
  "validate_field a f =
     (case map_of a (fs_name f) of
        None \<Rightarrow> (case fs_default f of Some s \<Rightarrow> Inr (fs_name f, JStr s) | None \<Rightarrow> Inl (fs_name f, ''Field required''))
      | Some (JStr s) \<Rightarrow>
          if length s < fs_min_length f then Inl (fs_name f, ''String should have at least '' @ nat_str (fs_min_length f) @ '' characters'')
          else if fs_max_length f < length s then Inl (fs_name f, ''String should have at most '' @ nat_str (fs_max_length f) @ '' characters'')
          else Inr (fs_name f, JStr s)
      | Some _ \<Rightarrow> Inl (fs_name f, ''Input should be a valid string''))"

definition reference_validate :: validator where
  "reference_validate fs a =
     (let errors = concat (map (\<lambda>f. case validate_field a f of Inl e \<Rightarrow> [e] | Inr _ \<Rightarrow> []) fs) @
          map (\<lambda>(k, v). (k, ''Extra inputs are not permitted'')) (filter (\<lambda>(k, v). k \<notin> set (map fs_name fs)) a)
      in if errors \<noteq> [] then Inl errors
         else Inr (concat (map (\<lambda>f. case validate_field a f of Inl _ \<Rightarrow> [] | Inr kv \<Rightarrow> [kv]) fs)))"

lemma reference_validate_ok:
  assumes "reference_validate fs a = Inr args"
  shows "\<forall>f\<in>set fs. \<exists>v. validate_field a f = Inr v" "set (map fst a) \<subseteq> set (map fs_name fs)"
    "args = map (\<lambda>f. projr (validate_field a f)) fs"
proof -
  have none: "concat (map (\<lambda>f. case validate_field a f of Inl e \<Rightarrow> [e] | Inr _ \<Rightarrow> []) fs) = []"
    "filter (\<lambda>(k, v). k \<notin> set (map fs_name fs)) a = []"
    using assms unfolding reference_validate_def Let_def by (simp_all split: if_split_asm)
  have e: "\<forall>f\<in>set fs. \<exists>v. validate_field a f = Inr v"
  proof
    fix f assume "f \<in> set fs"
    with none(1) have "(case validate_field a f of Inl e \<Rightarrow> [e] | Inr _ \<Rightarrow> []) = []" by simp
    then show "\<exists>v. validate_field a f = Inr v" by (cases "validate_field a f") simp_all
  qed
  have e2: "set (map fst a) \<subseteq> set (map fs_name fs)" using none(2) by (force simp: filter_empty_conv)
  have "concat (map (\<lambda>f. case validate_field a f of Inl _ \<Rightarrow> [] | Inr kv \<Rightarrow> [kv]) gs) = map (\<lambda>f. projr (validate_field a f)) gs"
    if "\<forall>f\<in>set gs. \<exists>v. validate_field a f = Inr v" for gs using that by (induction gs) auto
  with e have "concat (map (\<lambda>f. case validate_field a f of Inl _ \<Rightarrow> [] | Inr kv \<Rightarrow> [kv]) fs) = map (\<lambda>f. projr (validate_field a f)) fs" by blast
  then show "args = map (\<lambda>f. projr (validate_field a f)) fs"
    using assms none unfolding reference_validate_def Let_def by simp
  show "\<forall>f\<in>set fs. \<exists>v. validate_field a f = Inr v" "set (map fst a) \<subseteq> set (map fs_name fs)" by (fact e, fact e2)
qed

lemma validate_field_Inr:
  assumes "validate_field a f = Inr v"
  shows "\<exists>s. v = (fs_name f, JStr s) \<and>
    (map_of a (fs_name f) = Some (JStr s) \<and> fs_min_length f \<le> length s \<and> length s \<le> fs_max_length f
     \<or> map_of a (fs_name f) = None \<and> fs_default f = Some s)"
proof (cases "map_of a (fs_name f)")
  case None
  then show ?thesis using assms by (cases "fs_default f") (simp_all add: validate_field_def)
next
  case (Some j)
  show ?thesis
  proof (cases j)
    case (JStr s)
    then show ?thesis using assms Some
      by (cases "length s < fs_min_length f"; cases "fs_max_length f < length s") (simp_all add: validate_field_def)
  qed (use assms Some in \<open>simp_all add: validate_field_def\<close>)
qed

interpretation pydantic: args_validator reference_validate
proof
  fix fs a errors args
  show "reference_validate fs a = Inl errors \<Longrightarrow> errors \<noteq> []" by (auto simp: reference_validate_def Let_def split: if_splits)
  assume ok: "reference_validate fs a = Inr args"
  note r = reference_validate_ok [OF ok]
  have name: "fst (projr (validate_field a f)) = fs_name f" if "f \<in> set fs" for f
    using r(1) that validate_field_Inr [of a f] by (metis fst_conv sum.sel(2))
  show names: "map fst args = map fs_name fs" using name by (simp add: r(3))
  show "set (map fst a) \<subseteq> set (map fs_name fs)" by (fact r(2))
  fix f assume f: "f \<in> set fs" and d: "distinct (map fs_name fs)"
  obtain v where v: "validate_field a f = Inr v" using r(1) f by blast
  have "v \<in> set args" using v f by (auto simp: r(3) intro!: image_eqI [of _ _ f])
  moreover have "distinct (map fst args)" using d names by simp
  ultimately have "map_of args (fst v) = Some (snd v)" by (simp add: map_of_eq_Some_iff)
  with validate_field_Inr [OF v] show "\<exists>s. map_of args (fs_name f) = Some (JStr s) \<and>
        (map_of a (fs_name f) = Some (JStr s) \<and> fs_min_length f \<le> length s \<and> length s \<le> fs_max_length f
         \<or> map_of a (fs_name f) = None \<and> fs_default f = Some s)" by auto
qed

subsection \<open>Decisions\<close>

lemma decision_cases:
  "pe_decision (policy_evaluate frepr sha validate p tool arguments ext) =
     (if fst (policy_checks frepr validate p tool arguments ext) \<noteq> [] then PD_DENY
      else if snd (policy_checks frepr validate p tool arguments ext) then PD_REQUIRE_OPERATOR else PD_ALLOW)"
  by (simp add: policy_evaluate_def split_beta Let_def)

lemma no_url:
  assumes "check_paths_and_network frepr spec p args = []" and "cp_network p = NM_NONE" and "(k, v) \<in> set args"
  shows "\<not> json_has_url v"
proof -
  have "find (\<lambda>(k, v). json_has_url v) args = None"
    using assms(1,2) by (simp add: check_paths_and_network_def split: option.splits prod.splits)
  then show ?thesis using assms(3) by (auto simp: find_None_iff)
qed

text \<open>
  C26.  The engine lets a tool call through, with or without the operator, only when the profile grants it:
  the tool is registered and in the profile, the arguments satisfy its schema, every path argument
  stays below a root of the profile for the mode of the tool, and without network no argument carries
  a URL.  Similarity with untrusted text never denies and never grants: it turns an allowed call into
  one that needs the operator.
\<close>

theorem only_granted_calls_are_not_denied:
  assumes "args_validator validate"
    and "pe_decision (policy_evaluate frepr sha validate p tool arguments ext) \<noteq> PD_DENY"
  shows "\<exists>spec args. get_tool tool = Some spec \<and> tool \<in> set (cp_tools p) \<and> validate (ts_args_model spec) arguments = Inr args
    \<and> (\<forall>a\<in>set (ts_path_args spec). \<exists>raw r. map_of args a = Some (JStr raw) \<and> r \<in> set (path_roots (ts_path_mode spec) p)
         \<and> prefix (path_comps r) (resolve_path raw))
    \<and> (cp_network p = NM_NONE \<longrightarrow> (\<forall>(k, v)\<in>set args. \<not> json_has_url v))
    \<and> (pe_decision (policy_evaluate frepr sha validate p tool arguments ext) = PD_ALLOW \<longleftrightarrow> \<not> check_similarity args ext)"
proof -
  have "fst (policy_checks frepr validate p tool arguments ext) = []"
    using assms(2) by (auto simp: decision_cases split: if_splits)
  then show ?thesis
  proof (rule args_validator.no_objection [OF assms(1)])
    fix spec args
    assume g: "get_tool tool = Some spec" "tool \<in> set (cp_tools p)" and v: "validate (ts_args_model spec) arguments = Inr args"
      and c: "check_paths_and_network frepr spec p args = []"
      and s: "snd (policy_checks frepr validate p tool arguments ext) = check_similarity args ext"
    have "\<exists>raw r. map_of args a = Some (JStr raw) \<and> r \<in> set (path_roots (ts_path_mode spec) p) \<and> prefix (path_comps r) (resolve_path raw)"
      if pa: "a \<in> set (ts_path_args spec)" for a
    proof -
      obtain raw where raw: "map_of args a = Some (JStr raw)" "check_path raw (ts_path_mode spec) p = []"
        using args_validator.path_argument [OF assms(1) g(1) v c pa] by blast
      then obtain r where "r \<in> set (path_roots (ts_path_mode spec) p)" "under_root (normpath (workspace_path raw)) r"
        by (auto simp: check_path_def list_ex_iff split: if_splits)
      with raw(1) under_root_comps show ?thesis by blast
    qed
    moreover have "pe_decision (policy_evaluate frepr sha validate p tool arguments ext) = PD_ALLOW \<longleftrightarrow> \<not> check_similarity args ext"
      using assms(2) s by (auto simp: decision_cases split: if_splits)
    ultimately show ?thesis using g v no_url [OF c] by blast
  qed
qed

definition sealed_profile :: capability_profile where
  "sealed_profile = \<lparr>cp_name = ''sealed'', cp_version = ''v1'', cp_tools = [''workspace.read'', ''workspace.write''],
     cp_writable_paths = [''/workspace''], cp_readable_paths = [''/base'', ''/workspace''], cp_network = NM_NONE,
     cp_command_timeout_seconds = 60, cp_workspace_quota_mb = 50, cp_secrets = ''deny'', cp_metadata_endpoints = ''deny''\<rparr>"

lemma example_allowed:
  "pe_decision (policy_evaluate (\<lambda>_. []) (\<lambda>s. s) reference_validate sealed_profile ''workspace.read''
     [(''path'', JStr ''a/../b'')] []) = PD_ALLOW"
  by (simp add: decision_cases policy_checks_def get_tool_def TOOLS_def WorkspaceReadArgs_def tool_allowed_def sealed_profile_def
      reference_validate_def validate_field_def check_paths_and_network_def check_path_def py_str_def workspace_path_def
      normpath_def initial_slashes_def norm_component_def under_root_def rstrip_slash_def path_roots_def json_has_url_def has_url_def
      url_at_def py_lower_def lower_char_def check_similarity_def Let_def)

theorem only_granted_calls_are_not_denied_witness:
  "pe_decision (policy_evaluate (\<lambda>_. []) (\<lambda>s. s) reference_validate sealed_profile ''workspace.read''
     [(''path'', JStr ''a/../b'')] []) = PD_ALLOW
   \<and> (\<exists>spec. get_tool ''workspace.read'' = Some spec \<and> ''workspace.read'' \<in> set (cp_tools sealed_profile))"
proof -
  have "pe_decision (policy_evaluate (\<lambda>_. []) (\<lambda>s. s) reference_validate sealed_profile ''workspace.read''
     [(''path'', JStr ''a/../b'')] []) \<noteq> PD_DENY" by (simp add: example_allowed)
  from only_granted_calls_are_not_denied [OF pydantic.args_validator_axioms this] example_allowed show ?thesis by blast
qed

theorem accepted_path_stays_inside_the_roots_witness:
  "check_path ''src/../../workspace//x'' PM_write sealed_profile = [] \<and> resolve_path ''src/../../workspace//x'' = [''workspace'', ''x'']
   \<and> (\<exists>r. r \<in> set (path_roots PM_write sealed_profile) \<and> prefix (path_comps r) (resolve_path ''src/../../workspace//x''))"
proof -
  have "check_path ''src/../../workspace//x'' PM_write sealed_profile = []"
    by (simp add: check_path_def workspace_path_def normpath_def initial_slashes_def norm_component_def under_root_def rstrip_slash_def
        path_roots_def sealed_profile_def Let_def)
  moreover have "resolve_path ''src/../../workspace//x'' = [''workspace'', ''x'']" by (simp add: resolve_path_def workspace_path_def)
  ultimately show ?thesis using accepted_path_stays_inside_the_roots [of "''src/../../workspace//x''" PM_write sealed_profile] by blast
qed

subsection \<open>Narrowing\<close>

lemma text_in_value: "text_in names v \<Longrightarrow> v = JStr (text_value v) \<and> text_value v \<in> set names"
  by (cases v) (simp_all add: text_in_def text_value_def)

lemma effective_profileE:
  assumes "effective_profile frepr ceilings pol = Inr p"
  obtains c ts ws where "ceilings (py_str frepr (dict_get pol ''access_profile'' (JStr ''sealed''))) = Inr c"
    "list_all (text_in (cp_tools c)) ts" "p = c\<lparr>cp_tools := remdups (map text_value ts),
       cp_writable_paths := filter (\<lambda>q. JStr q \<in> set ws) (cp_writable_paths c)\<rparr>"
  using assms unfolding effective_profile_def Let_def by (auto split: sum.splits if_splits)

lemma check_path_mono:
  assumes "check_path raw mode p = []" and "set (path_roots mode p) \<subseteq> set (path_roots mode c)"
  shows "check_path raw mode c = []"
  using assms by (auto simp: check_path_def list_ex_iff split: if_splits)

lemma checks_mono:
  assumes "fst (policy_checks frepr validate p tool arguments ext) = []" and "set (cp_tools p) \<subseteq> set (cp_tools c)"
    and "set (cp_writable_paths p) \<subseteq> set (cp_writable_paths c)" and "cp_readable_paths p = cp_readable_paths c"
    and "cp_network p = cp_network c"
  shows "policy_checks frepr validate c tool arguments ext = policy_checks frepr validate p tool arguments ext"
proof -
  obtain spec where g: "get_tool tool = Some spec" using assms(1) by (cases "get_tool tool") (auto simp: policy_checks_def)
  have a: "tool_allowed p tool" using assms(1) g by (auto simp: policy_checks_def split: if_splits)
  then have c: "tool_allowed c tool" using assms(2) by (auto simp: tool_allowed_def)
  show ?thesis
  proof (cases "validate (ts_args_model spec) arguments")
    case (Inl errors)
    then show ?thesis using g a c by (simp add: policy_checks_def)
  next
    case (Inr args)
    have none: "check_paths_and_network frepr spec p args = []" using assms(1) g a Inr by (simp add: policy_checks_def)
    have roots: "set (path_roots mode p) \<subseteq> set (path_roots mode c)" for mode
      using assms(3,4) by (cases mode) (simp_all add: path_roots_def)
    have "check_paths_and_network frepr spec c args = []"
      using none assms(5) check_path_mono [OF _ roots]
      by (auto simp: check_paths_and_network_def split: option.splits)
    then show ?thesis using g a c Inr none by (simp add: policy_checks_def)
  qed
qed

text \<open>
  A configuration snapshot can only narrow.  When \<open>effective_profile\<close> accepts a snapshot, the tools and the
  writable paths are among those of the ceiling and everything else is the ceiling's, so every call
  the engine does not deny under the narrowed profile gets the same decision under the ceiling.
\<close>

theorem snapshot_only_narrows_the_ceiling:
  assumes "effective_profile frepr ceilings pol = Inr p"
  shows "\<exists>c. ceilings (py_str frepr (dict_get pol ''access_profile'' (JStr ''sealed''))) = Inr c
    \<and> set (cp_tools p) \<subseteq> set (cp_tools c) \<and> set (cp_writable_paths p) \<subseteq> set (cp_writable_paths c)
    \<and> p\<lparr>cp_tools := cp_tools c, cp_writable_paths := cp_writable_paths c\<rparr> = c
    \<and> (\<forall>sha validate tool arguments ext. pe_decision (policy_evaluate frepr sha validate p tool arguments ext) \<noteq> PD_DENY \<longrightarrow>
         pe_decision (policy_evaluate frepr sha validate c tool arguments ext) =
         pe_decision (policy_evaluate frepr sha validate p tool arguments ext))"
  using assms
proof (cases rule: effective_profileE)
  case (1 c ts ws)
  have t: "set (cp_tools p) \<subseteq> set (cp_tools c)" using 1(2,3) text_in_value by (fastforce simp: list_all_iff)
  have w: "set (cp_writable_paths p) \<subseteq> set (cp_writable_paths c)" using 1(3) by auto
  have rest: "cp_readable_paths p = cp_readable_paths c" "cp_network p = cp_network c"
    "p\<lparr>cp_tools := cp_tools c, cp_writable_paths := cp_writable_paths c\<rparr> = c" by (simp_all add: 1(3))
  have "pe_decision (policy_evaluate frepr sha validate c tool arguments ext) =
      pe_decision (policy_evaluate frepr sha validate p tool arguments ext)"
    if "pe_decision (policy_evaluate frepr sha validate p tool arguments ext) \<noteq> PD_DENY" for sha validate tool arguments ext
  proof -
    have "fst (policy_checks frepr validate p tool arguments ext) = []" using that by (auto simp: decision_cases split: if_splits)
    from checks_mono [OF this t w rest(1,2)] show ?thesis by (simp add: decision_cases)
  qed
  with 1(1) t w rest(3) show ?thesis by blast
qed

theorem snapshot_only_narrows_the_ceiling_witness:
  "\<exists>p. effective_profile (\<lambda>_. []) (\<lambda>_. Inr sealed_profile)
      [(''capabilities'', JObj [(''tools'', JArr [JStr ''workspace.read''])])] = Inr p
    \<and> cp_tools p = [''workspace.read''] \<and> set (cp_tools p) \<subseteq> set (cp_tools sealed_profile)"
proof -
  have e: "effective_profile (\<lambda>_. []) (\<lambda>_. Inr sealed_profile) [(''capabilities'', JObj [(''tools'', JArr [JStr ''workspace.read''])])]
      = Inr (sealed_profile\<lparr>cp_tools := [''workspace.read'']\<rparr>)"
    by (simp add: effective_profile_def dict_get_def json_get_def py_frozenset_def hashable_def text_in_def py_tuple_def text_value_def
        sealed_profile_def Let_def)
  from snapshot_only_narrows_the_ceiling [OF e] e show ?thesis by auto
qed

end
