(* ===== verification/Egress.thy ===== *)
theory Egress
  imports Independence UuidText Policy "HOL-Library.Word"
begin

section \<open>The egress guard of the research proxy\<close>

text \<open>
  \<open>apps/research_proxy/ssrf_guard.py\<close>, \<open>modes.py\<close>, \<open>backend.py\<close> and \<open>fetch.py\<close>: which URLs may be fetched and to which
  addresses a connection may be opened.  Addresses are words of 32 and 128 bits; \<open>ipaddress.ip_address\<close> and the
  network tables behind \<open>is_private\<close>, \<open>is_reserved\<close> and the others (Python 3.11.10 and later) are written out.
  \<open>urlsplit\<close>, \<open>urljoin\<close>, the name resolver and the HTTP client are parameters; a fetch is a function of their
  answers that also returns the list of the connections it opened.
\<close>

subsection \<open>Addresses\<close>

text \<open>An IPv6 address may carry the scope written after \<open>%\<close>.\<close>

datatype ip_addr = IPv4 "32 word" | IPv6 "128 word" "string option"

definition is_ascii_digit :: "char \<Rightarrow> bool" where
  "is_ascii_digit c \<longleftrightarrow> CHR ''0'' \<le> c \<and> c \<le> CHR ''9''"

definition digit_value :: "char \<Rightarrow> nat" where
  "digit_value c = of_char c - 48"

definition decimal_value :: "string \<Rightarrow> nat" where
  "decimal_value s = foldl (\<lambda>n c. 10 * n + digit_value c) 0 s"

definition parse_octet :: "string \<Rightarrow> nat option" where
  "parse_octet s =
     (if s = [] \<or> \<not> list_all is_ascii_digit s \<or> 3 < length s \<or> (s \<noteq> ''0'' \<and> hd s = CHR ''0'') \<or> 255 < decimal_value s
      then None else Some (decimal_value s))"

definition v4 :: "nat \<Rightarrow> nat \<Rightarrow> nat \<Rightarrow> nat \<Rightarrow> 32 word" where
  "v4 a b c d = word_of_nat (((a * 256 + b) * 256 + c) * 256 + d)"

definition parse_ipv4 :: "string \<Rightarrow> (32 word) option" where
  "parse_ipv4 s =
     (if CHR ''/'' \<in> set s then None
      else case map parse_octet (py_split (CHR ''.'') s) of
        [Some a, Some b, Some c, Some d] \<Rightarrow> Some (v4 a b c d)
      | _ \<Rightarrow> None)"

definition parse_hextet :: "string \<Rightarrow> nat option" where
  "parse_hextet s =
     (if s = [] \<or> 4 < length s \<or> list_ex (\<lambda>c. hex_value c = None) s then None
      else map_option nat (hex_digits 0 s))"

fun parse_hextets :: "nat \<Rightarrow> string list \<Rightarrow> nat option" where
  "parse_hextets n [] = Some n"
| "parse_hextets n (s # ss) = (case parse_hextet s of None \<Rightarrow> None | Some h \<Rightarrow> parse_hextets (65536 * n + h) ss)"

text \<open>\<open>'%x'\<close>.\<close>

fun hex_str :: "nat \<Rightarrow> string" where
  "hex_str n = (if n < 16 then [digit_char n] else hex_str (n div 16) @ [digit_char (n mod 16)])"

declare hex_str.simps [simp del]

text \<open>The parts between the colons, with an IPv4 suffix turned into two hextets.\<close>

definition ipv6_parts :: "string \<Rightarrow> string list option" where
  "ipv6_parts s =
     (let parts = py_split (CHR '':'') s in
      if s = [] \<or> length parts < 3 then None
      else if CHR ''.'' \<in> set (last parts) then
        (case parse_ipv4 (last parts) of None \<Rightarrow> None
         | Some w \<Rightarrow> Some (butlast parts @ [hex_str (unat w div 65536), hex_str (unat w mod 65536)]))
      else Some parts)"

text \<open>The position of the double colon among the inner parts: \<open>None\<close> when there are two.\<close>

definition skip_index :: "string list \<Rightarrow> nat option option" where
  "skip_index parts =
     (case filter (\<lambda>i. parts ! i = []) [1..<length parts - 1] of
        [] \<Rightarrow> Some None | [i] \<Rightarrow> Some (Some i) | _ \<Rightarrow> None)"

definition ipv6_int :: "string \<Rightarrow> nat option" where
  "ipv6_int s =
     (case ipv6_parts s of None \<Rightarrow> None | Some parts \<Rightarrow>
      if 9 < length parts then None
      else case skip_index parts of None \<Rightarrow> None
      | Some None \<Rightarrow>
          if length parts \<noteq> 8 \<or> hd parts = [] \<or> last parts = [] then None else parse_hextets 0 parts
      | Some (Some i) \<Rightarrow>
          let hi = (if hd parts = [] then i - 1 else i);
              lo0 = length parts - i - 1;
              lo = (if last parts = [] then lo0 - 1 else lo0)
          in if (hd parts = [] \<and> hi \<noteq> 0) \<or> (last parts = [] \<and> lo \<noteq> 0) \<or> 8 - int (hi + lo) < 1 then None
             else case parse_hextets 0 (take hi parts) of None \<Rightarrow> None
               | Some n \<Rightarrow> parse_hextets (n * 65536 ^ (8 - (hi + lo))) (drop (length parts - lo) parts))"

text \<open>\<open>ip_address\<close>: an IPv4 address, else an IPv6 address with an optional scope after \<open>%\<close>.\<close>

definition split_scope :: "string \<Rightarrow> (string \<times> string option) option" where
  "split_scope s =
     (let addr = takeWhile (\<lambda>c. c \<noteq> CHR ''%'') s; rest = dropWhile (\<lambda>c. c \<noteq> CHR ''%'') s
      in if rest = [] then Some (addr, None)
         else if tl rest = [] \<or> CHR ''%'' \<in> set (tl rest) then None else Some (addr, Some (tl rest)))"

definition ip_address :: "string \<Rightarrow> ip_addr option" where
  "ip_address s =
     (case parse_ipv4 s of Some w \<Rightarrow> Some (IPv4 w)
      | None \<Rightarrow>
          if CHR ''/'' \<in> set s then None
          else case split_scope s of None \<Rightarrow> None
          | Some (addr, scope) \<Rightarrow>
              (case ipv6_int addr of None \<Rightarrow> None | Some n \<Rightarrow> Some (IPv6 (word_of_nat n) scope)))"

text \<open>\<open>str(ip)\<close>: four decimal octets, or hextets with the first longest run of zeros written as a double colon.\<close>

definition hextets :: "nat \<Rightarrow> string list" where
  "hextets n = map (\<lambda>k. hex_str (n div 65536 ^ (7 - k) mod 65536)) [0..<8]"

definition zero_run :: "string list \<Rightarrow> nat \<Rightarrow> nat" where
  "zero_run hs i = length (takeWhile (\<lambda>h. h = ''0'') (drop i hs))"

definition best_run :: "string list \<Rightarrow> nat \<times> nat" where
  "best_run hs = foldl (\<lambda>(i, n) j. if n < zero_run hs j then (j, zero_run hs j) else (i, n)) (0, 0) [0..<length hs]"

definition compress_hextets :: "string list \<Rightarrow> string list" where
  "compress_hextets hs =
     (let (i, n) = best_run hs in
      if n \<le> 1 then hs
      else (if i = 0 then [[]] else []) @ take i hs @ [[]] @ drop (i + n) hs @ (if i + n = length hs then [[]] else []))"

fun ip_str :: "ip_addr \<Rightarrow> string" where
  "ip_str (IPv4 w) = join ''.'' (map (\<lambda>k. nat_str (unat w div 256 ^ (3 - k) mod 256)) [0..<4])"
| "ip_str (IPv6 w scope) = join '':'' (compress_hextets (hextets (unat w))) @ (case scope of None \<Rightarrow> [] | Some sc \<Rightarrow> ''%'' @ sc)"

subsection \<open>Classification\<close>

definition in_net :: "'a :: len word \<Rightarrow> nat \<Rightarrow> 'a word \<Rightarrow> bool" where
  "in_net net p w \<longleftrightarrow> drop_bit (LENGTH('a) - p) w = drop_bit (LENGTH('a) - p) net"

definition in_nets :: "('a :: len word \<times> nat) list \<Rightarrow> 'a word \<Rightarrow> bool" where
  "in_nets nets w = list_ex (\<lambda>(net, p). in_net net p w) nets"

definition PRIVATE_V4 :: "(32 word \<times> nat) list" where
  "PRIVATE_V4 = [(v4 0 0 0 0, 8), (v4 10 0 0 0, 8), (v4 127 0 0 0, 8), (v4 169 254 0 0, 16), (v4 172 16 0 0, 12),
     (v4 192 0 0 0, 24), (v4 192 0 0 170, 31), (v4 192 0 2 0, 24), (v4 192 168 0 0, 16), (v4 198 18 0 0, 15),
     (v4 198 51 100 0, 24), (v4 203 0 113 0, 24), (v4 240 0 0 0, 4), (v4 255 255 255 255, 32)]"

definition PRIVATE_V4_EXCEPTIONS :: "(32 word \<times> nat) list" where
  "PRIVATE_V4_EXCEPTIONS = [(v4 192 0 0 9, 32), (v4 192 0 0 10, 32)]"

definition PRIVATE_V6 :: "(128 word \<times> nat) list" where
  "PRIVATE_V6 = [(1, 128), (0, 128), (0xffff00000000, 96), (0x0064ff9b000100000000000000000000, 48),
     (0x01000000000000000000000000000000, 64), (0x20010000000000000000000000000000, 23),
     (0x20010db8000000000000000000000000, 32), (0x20020000000000000000000000000000, 16),
     (0xfc000000000000000000000000000000, 7), (0xfe800000000000000000000000000000, 10)]"

definition PRIVATE_V6_EXCEPTIONS :: "(128 word \<times> nat) list" where
  "PRIVATE_V6_EXCEPTIONS = [(0x20010001000000000000000000000001, 128), (0x20010001000000000000000000000002, 128),
     (0x20010003000000000000000000000000, 32), (0x20010004011200000000000000000000, 48),
     (0x20010020000000000000000000000000, 28), (0x20010030000000000000000000000000, 28)]"

definition RESERVED_V6 :: "(128 word \<times> nat) list" where
  "RESERVED_V6 = [(0, 8), (0x01000000000000000000000000000000, 8), (0x02000000000000000000000000000000, 7),
     (0x04000000000000000000000000000000, 6), (0x08000000000000000000000000000000, 5),
     (0x10000000000000000000000000000000, 4), (0x40000000000000000000000000000000, 3),
     (0x60000000000000000000000000000000, 3), (0x80000000000000000000000000000000, 3),
     (0xa0000000000000000000000000000000, 3), (0xc0000000000000000000000000000000, 3),
     (0xe0000000000000000000000000000000, 4), (0xf0000000000000000000000000000000, 5),
     (0xf8000000000000000000000000000000, 6), (0xfe000000000000000000000000000000, 9)]"

fun is_private :: "ip_addr \<Rightarrow> bool" where
  "is_private (IPv4 w) = (in_nets PRIVATE_V4 w \<and> \<not> in_nets PRIVATE_V4_EXCEPTIONS w)"
| "is_private (IPv6 w scope) = (in_nets PRIVATE_V6 w \<and> \<not> in_nets PRIVATE_V6_EXCEPTIONS w)"

fun is_loopback :: "ip_addr \<Rightarrow> bool" where
  "is_loopback (IPv4 w) = in_net (v4 127 0 0 0) 8 w"
| "is_loopback (IPv6 w scope) = (w = 1)"

fun is_link_local :: "ip_addr \<Rightarrow> bool" where
  "is_link_local (IPv4 w) = in_net (v4 169 254 0 0) 16 w"
| "is_link_local (IPv6 w scope) = in_net 0xfe800000000000000000000000000000 10 w"

fun is_reserved :: "ip_addr \<Rightarrow> bool" where
  "is_reserved (IPv4 w) = in_net (v4 240 0 0 0) 4 w"
| "is_reserved (IPv6 w scope) = in_nets RESERVED_V6 w"

fun is_multicast :: "ip_addr \<Rightarrow> bool" where
  "is_multicast (IPv4 w) = in_net (v4 224 0 0 0) 4 w"
| "is_multicast (IPv6 w scope) = in_net 0xff000000000000000000000000000000 8 w"

fun is_unspecified :: "ip_addr \<Rightarrow> bool" where
  "is_unspecified (IPv4 w) = (w = 0)"
| "is_unspecified (IPv6 w scope) = (w = 0)"

text \<open>\<open>ipv4_mapped\<close>: the low 32 bits of an address in \<open>::ffff:0:0/96\<close>.\<close>

fun unmap :: "ip_addr \<Rightarrow> ip_addr" where
  "unmap (IPv4 w) = IPv4 w"
| "unmap (IPv6 w scope) = (if in_net 0xffff00000000 96 w then IPv4 (ucast w) else IPv6 w scope)"

text \<open>The first reason to block an address.\<close>

definition address_problem :: "ip_addr \<Rightarrow> string option" where
  "address_problem ip =
     (if is_private ip then Some ''blocked private address: ''
      else if is_loopback ip then Some ''blocked loopback address: ''
      else if is_link_local ip then Some ''blocked link-local address (incl. metadata): ''
      else if is_reserved ip then Some ''blocked reserved address: ''
      else if is_multicast ip then Some ''blocked multicast address: ''
      else if is_unspecified ip then Some ''blocked unspecified address: ''
      else case ip of IPv4 w \<Rightarrow> if drop_bit 24 w = 0x7f then Some ''blocked loopback address: '' else None
        | IPv6 _ _ \<Rightarrow> None)"

definition check_address :: "string \<Rightarrow> exn option" where
  "check_address ip_text =
     (case ip_address ip_text of
        None \<Rightarrow> Some (SSRFError (''unparseable address '' @ repr_str ip_text))
      | Some ip \<Rightarrow> (case address_problem (unmap ip) of None \<Rightarrow> None
          | Some problem \<Rightarrow> Some (SSRFError (problem @ ip_str (unmap ip)))))"

subsection \<open>URLs\<close>

text \<open>
  \<open>urlsplit\<close> of the standard library on 8-bit text, with the two user fields that \<open>validate_url\<close> reads.  \<open>partition\<close>
  and \<open>rpartition\<close> give the parts around the first and the last separator and tell whether there is one.
\<close>

record split_url = url_parts +
  url_username :: "string option"
  url_password :: "string option"

definition partition_at :: "char \<Rightarrow> string \<Rightarrow> string \<times> bool \<times> string" where
  "partition_at sep s =
     (let rest = dropWhile (\<lambda>c. c \<noteq> sep) s
      in (takeWhile (\<lambda>c. c \<noteq> sep) s, rest \<noteq> [], tl rest))"

definition rpartition_at :: "char \<Rightarrow> string \<Rightarrow> string \<times> bool \<times> string" where
  "rpartition_at sep s =
     (let (a, found, b) = partition_at sep (rev s)
      in if found then (rev b, True, rev a) else ([], False, s))"

definition ascii_letter :: "char \<Rightarrow> bool" where
  "ascii_letter c \<longleftrightarrow> (CHR ''a'' \<le> c \<and> c \<le> CHR ''z'') \<or> (CHR ''A'' \<le> c \<and> c \<le> CHR ''Z'')"

definition scheme_char :: "char \<Rightarrow> bool" where
  "scheme_char c \<longleftrightarrow> ascii_letter c \<or> is_ascii_digit c \<or> c \<in> set ''+-.''"

definition clean_url :: "string \<Rightarrow> string" where
  "clean_url u = filter (\<lambda>c. c \<notin> {CHR 0x09, CHR 0x0d, CHR 0x0a}) (dropWhile (\<lambda>c. c \<le> CHR '' '') u)"

definition split_scheme :: "string \<Rightarrow> string \<times> string" where
  "split_scheme u =
     (let (head, found, rest) = partition_at (CHR '':'') u
      in if found \<and> head \<noteq> [] \<and> ascii_letter (hd head) \<and> list_all scheme_char head
         then (py_lower head, rest) else ([], u))"

definition split_netloc :: "string \<Rightarrow> string \<times> string" where
  "split_netloc u =
     (if take 2 u = ''//'' then
        (takeWhile (\<lambda>c. c \<notin> set ''/?#'') (drop 2 u), dropWhile (\<lambda>c. c \<notin> set ''/?#'') (drop 2 u))
      else ([], u))"

text \<open>The host and port fields of a network location.\<close>

definition hostinfo :: "string \<Rightarrow> string \<times> string option" where
  "hostinfo netloc =
     (let info = snd (snd (rpartition_at (CHR ''@'') netloc));
          (before, open_br, bracketed) = partition_at (CHR ''['') info;
          (host, port) =
            (if open_br then
               (let (h, _, rest) = partition_at (CHR '']'') bracketed in (h, snd (snd (partition_at (CHR '':'') rest))))
             else (let (h, _, rest) = partition_at (CHR '':'') info in (h, rest)))
      in (host, if port = [] then None else Some port))"

definition port_of :: "string option \<Rightarrow> exn + int option" where
  "port_of port =
     (case port of None \<Rightarrow> Inr None
      | Some p \<Rightarrow>
          if \<not> list_all is_ascii_digit p then Inl (ValueError (''Port could not be cast to integer value as '' @ repr_str p))
          else if 65535 < decimal_value p then Inl (ValueError ''Port out of range 0-65535'')
          else Inr (Some (int (decimal_value p))))"

definition hostname_of :: "string \<Rightarrow> string option" where
  "hostname_of host =
     (if host = [] then None
      else let (name, _, _) = partition_at (CHR ''%'') host in Some (py_lower name @ drop (length name) host))"

text \<open>A bracketed host is an IPv6 address or an IPvFuture literal, with nothing before it and only a port behind.\<close>

definition ip_future :: "string \<Rightarrow> bool" where
  "ip_future host =
     (let (digits, found, rest) = partition_at (CHR ''.'') (tl host)
      in digits \<noteq> [] \<and> list_all (\<lambda>c. hex_value c \<noteq> None) digits \<and> found \<and> rest \<noteq> [] \<and> CHR 0x0a \<notin> set rest)"

definition bracket_problem :: "string \<Rightarrow> string option" where
  "bracket_problem netloc =
     (let opens = CHR ''['' \<in> set netloc; closes = CHR '']'' \<in> set netloc;
          info = snd (snd (rpartition_at (CHR ''@'') netloc));
          (before, open_br, bracketed) = partition_at (CHR ''['') info;
          (host, _, rest) = (if open_br then partition_at (CHR '']'') bracketed else partition_at (CHR '':'') info)
      in if opens \<noteq> closes then Some ''Invalid IPv6 URL''
         else if \<not> opens then None
         else if open_br \<and> (before \<noteq> [] \<or> (rest \<noteq> [] \<and> hd rest \<noteq> CHR '':'')) then Some ''Invalid IPv6 URL''
         else if prefix ''v'' host then (if ip_future host then None else Some ''IPvFuture address is invalid'')
         else case ip_address host of
             None \<Rightarrow> Some (repr_str host @ '' does not appear to be an IPv4 or IPv6 address'')
           | Some (IPv4 _) \<Rightarrow> Some ''An IPv4 address cannot be in brackets''
           | Some (IPv6 _ _) \<Rightarrow> None)"

definition urlsplit :: "string \<Rightarrow> exn + split_url" where
  "urlsplit url =
     (let (scheme, u1) = split_scheme (clean_url url);
          (netloc, u2) = split_netloc u1;
          u3 = fst (partition_at (CHR ''#'') u2);
          (path, _, query) = partition_at (CHR ''?'') u3;
          (userinfo, has_info, _) = rpartition_at (CHR ''@'') netloc;
          (user, has_password, password) = partition_at (CHR '':'') userinfo;
          (host, port) = hostinfo netloc
      in case bracket_problem netloc of Some problem \<Rightarrow> Inl (ValueError problem)
         | None \<Rightarrow> Inr \<lparr>url_scheme = scheme, url_hostname = hostname_of host, url_port = port_of port, url_path = path,
             url_query = query, url_username = (if has_info then Some user else None),
             url_password = (if has_info \<and> has_password then Some password else None)\<rparr>)"

definition HTTP_SCHEMES :: "string list" where
  "HTTP_SCHEMES = [''http'', ''https'']"

definition validate_url :: "string \<Rightarrow> exn + string \<times> int" where
  "validate_url url =
     (if url = [] then Inl (SSRFError ''url must be a non-empty string'')
      else case urlsplit url of Inl e \<Rightarrow> Inl e | Inr parts \<Rightarrow>
        if url_scheme parts \<notin> set HTTP_SCHEMES
        then Inl (SSRFError (''blocked scheme: '' @ repr_str (url_scheme parts) @ '' (only http/https)''))
        else if url_username parts \<noteq> None \<or> url_password parts \<noteq> None
        then Inl (SSRFError ''credentials in the URL are not allowed'')
        else case url_hostname parts of None \<Rightarrow> Inl (SSRFError ''missing host'') | Some host \<Rightarrow>
          if host = [] then Inl (SSRFError ''missing host'')
          else case url_port parts of Inl e \<Rightarrow> Inl e | Inr port0 \<Rightarrow>
            let port = (case port0 of None \<Rightarrow> if url_scheme parts = ''https'' then 443 else 80 | Some n \<Rightarrow> n)
            in if 1 \<le> port \<and> port \<le> 65535 then Inr (host, port)
               else Inl (SSRFError (''blocked port: '' @ int_str port)))"

subsection \<open>The egress policy\<close>

record ssrf_policy =
  sp_max_response_bytes :: int
  sp_max_redirects :: int
  sp_timeout_seconds :: rat
  sp_user_agent :: string
  sp_private_allowlist :: "string list"

fun type_name :: "json \<Rightarrow> string" where
  "type_name JNull = ''NoneType''"
| "type_name (JBool b) = ''bool''"
| "type_name (JInt i) = ''int''"
| "type_name (JFloat q) = ''float''"
| "type_name (JStr s) = ''str''"
| "type_name (JArr xs) = ''list''"
| "type_name (JObj kvs) = ''dict''"

definition nonempty_texts :: "json \<Rightarrow> string list option" where
  "nonempty_texts v =
     (case v of JArr xs \<Rightarrow>
        if list_all (\<lambda>x. case x of JStr s \<Rightarrow> s \<noteq> [] | _ \<Rightarrow> False) xs then Some (map text_value xs) else None
      | _ \<Rightarrow> None)"

definition int_in :: "int \<Rightarrow> int option \<Rightarrow> json \<Rightarrow> int option" where
  "int_in lo hi v = (case v of JInt i \<Rightarrow> if lo \<le> i \<and> (case hi of None \<Rightarrow> True | Some m \<Rightarrow> i \<le> m) then Some i else None | _ \<Rightarrow> None)"

definition number_in :: "rat \<Rightarrow> rat \<Rightarrow> json \<Rightarrow> rat option" where
  "number_in lo hi v =
     (case v of JInt i \<Rightarrow> if lo < of_int i \<and> of_int i \<le> hi then Some (of_int i) else None
      | JFloat q \<Rightarrow> if lo < q \<and> q \<le> hi then Some q else None | _ \<Rightarrow> None)"

definition text_between :: "nat \<Rightarrow> nat \<Rightarrow> json \<Rightarrow> string option" where
  "text_between lo hi v = (case v of JStr s \<Rightarrow> if lo \<le> length s \<and> length s \<le> hi then Some s else None | _ \<Rightarrow> None)"

definition or_raise :: "exn \<Rightarrow> 'a option \<Rightarrow> exn + 'a" where
  "or_raise e v = (case v of None \<Rightarrow> Inl e | Some x \<Rightarrow> Inr x)"

definition ssrf_from_section :: "json \<Rightarrow> exn + ssrf_policy" where
  "ssrf_from_section section =
     (case section of JObj d \<Rightarrow>
        (case or_raise (SSRFError ''max_response_bytes must be an int >= 1'')
                (int_in 1 None (dict_get d ''max_response_bytes'' (JInt 1048576))) of Inl e \<Rightarrow> Inl e | Inr max_bytes \<Rightarrow>
         case or_raise (SSRFError ''max_redirects must be an int in [0, 10]'')
                (int_in 0 (Some 10) (dict_get d ''max_redirects'' (JInt 3))) of Inl e \<Rightarrow> Inl e | Inr max_redirects \<Rightarrow>
         case or_raise (SSRFError ''timeout_seconds must be a number in (0, 120]'')
                (number_in 0 120 (dict_get d ''timeout_seconds'' (JInt 10))) of Inl e \<Rightarrow> Inl e | Inr timeout \<Rightarrow>
         case or_raise (SSRFError ''user_agent must be a string (1..200 chars)'')
                (text_between 1 200 (dict_get d ''user_agent'' (JStr ''noezema-research-proxy/1.0''))) of
           Inl e \<Rightarrow> Inl e | Inr user_agent \<Rightarrow>
         case or_raise (SSRFError ''private_allowlist must be a list of non-empty strings'')
                (nonempty_texts (dict_get d ''private_allowlist'' (JArr []))) of Inl e \<Rightarrow> Inl e | Inr allowlist \<Rightarrow>
           Inr \<lparr>sp_max_response_bytes = max_bytes, sp_max_redirects = max_redirects, sp_timeout_seconds = timeout,
             sp_user_agent = user_agent, sp_private_allowlist = allowlist\<rparr>)
      | _ \<Rightarrow> Inl (SSRFError (''research_proxy section must be a mapping, got '' @ type_name section)))"

definition allows_private :: "ssrf_policy \<Rightarrow> string \<Rightarrow> int \<Rightarrow> bool" where
  "allows_private policy host port =
     (let entries = sp_private_allowlist policy;
          candidates = host # (if list_ex (\<lambda>e. CHR '':'' \<in> set e) entries then [host @ '':'' @ int_str port] else [])
      in list_ex (\<lambda>c. c \<in> set entries) candidates)"

fun check_addresses :: "string list \<Rightarrow> exn option" where
  "check_addresses [] = None"
| "check_addresses (ip # ips) = (case check_address ip of Some e \<Rightarrow> Some e | None \<Rightarrow> check_addresses ips)"

definition check_host :: "string \<Rightarrow> int \<Rightarrow> ssrf_policy \<Rightarrow> string list \<Rightarrow> exn option" where
  "check_host host port policy resolved_ips =
     (if resolved_ips = [] then Some (SSRFError (''hostname '' @ repr_str host @ '' did not resolve to any address''))
      else if allows_private policy host port then None
      else check_addresses resolved_ips)"

subsection \<open>Modes\<close>

datatype research_mode = RM_SEALED | RM_CURATED | RM_OPEN_LAB

primrec research_mode_value :: "research_mode \<Rightarrow> string" where
  "research_mode_value RM_SEALED = ''sealed''"
| "research_mode_value RM_CURATED = ''curated''"
| "research_mode_value RM_OPEN_LAB = ''open_lab''"

definition MODE_PROFILES :: "research_mode \<Rightarrow> string" where
  "MODE_PROFILES mode = (case mode of RM_SEALED \<Rightarrow> ''sealed'' | RM_CURATED \<Rightarrow> ''curated'' | RM_OPEN_LAB \<Rightarrow> ''open_lab'')"

record mode_policy =
  mp_mode :: research_mode
  mp_profile_name :: string
  mp_egress :: bool
  mp_searxng_url :: "string option"
  mp_searxng_host :: "string option"
  mp_allowed_domains :: "string list"
  mp_rate_limit_max :: int
  mp_rate_limit_window_seconds :: int

definition domain_allowed :: "mode_policy \<Rightarrow> string \<Rightarrow> bool" where
  "domain_allowed p host = list_ex (\<lambda>d. host = d \<or> suffix (''.'' @ d) host) (mp_allowed_domains p)"

definition mode_of :: "json \<Rightarrow> research_mode option" where
  "mode_of v = find (\<lambda>m. v = JStr (research_mode_value m)) [RM_SEALED, RM_CURATED, RM_OPEN_LAB]"

definition searxng_of :: "json \<Rightarrow> exn + (string \<times> string) option" where
  "searxng_of v =
     (case v of JNull \<Rightarrow> Inr None
      | JStr url \<Rightarrow> (case validate_url url of Inr (host, port) \<Rightarrow> Inr (Some (url, host))
          | Inl (SSRFError msg) \<Rightarrow> Inl (ModeError (''searxng_url: '' @ msg)) | Inl e \<Rightarrow> Inl e)
      | _ \<Rightarrow> Inl (ModeError ''searxng_url must be a string or null''))"

definition mode_from_section :: "(rat \<Rightarrow> string) \<Rightarrow> json \<Rightarrow> exn + mode_policy" where
  "mode_from_section fstr section =
     (case section of JObj d \<Rightarrow>
        (let mode_raw = dict_get d ''mode'' (JStr ''sealed'') in
         case or_raise (ModeError (''unknown research_proxy mode '' @ py_repr fstr mode_raw)) (mode_of mode_raw) of
           Inl e \<Rightarrow> Inl e | Inr mode \<Rightarrow>
         case or_raise (ModeError ''rate_limit_max must be an integer >= 1'')
                (int_in 1 None (dict_get d ''rate_limit_max'' (JInt 20))) of Inl e \<Rightarrow> Inl e | Inr rate_max \<Rightarrow>
         case or_raise (ModeError ''rate_limit_window_seconds must be an integer >= 1'')
                (int_in 1 None (dict_get d ''rate_limit_window_seconds'' (JInt 3600))) of Inl e \<Rightarrow> Inl e | Inr window \<Rightarrow>
         if 86400 < window then Inl (ModeError ''rate_limit_window_seconds must be <= 86400'') else
         case searxng_of (dict_get d ''searxng_url'' JNull) of Inl e \<Rightarrow> Inl e | Inr searxng \<Rightarrow>
         case or_raise (ModeError ''allowed_domains must be a list of non-empty strings'')
                (nonempty_texts (dict_get d ''allowed_domains'' (JArr []))) of Inl e \<Rightarrow> Inl e | Inr domains \<Rightarrow>
         if mode = RM_CURATED \<and> searxng = None then Inl (ModeError ''curated mode requires searxng_url'')
         else if mode = RM_OPEN_LAB \<and> domains = [] then
           Inl (ModeError ''open_lab mode requires a non-empty allowed_domains list'')
         else Inr \<lparr>mp_mode = mode, mp_profile_name = MODE_PROFILES mode, mp_egress = (mode \<noteq> RM_SEALED),
           mp_searxng_url = (if mode = RM_CURATED then map_option fst searxng else None),
           mp_searxng_host = (if mode = RM_CURATED then map_option snd searxng else None),
           mp_allowed_domains = (if mode = RM_OPEN_LAB then domains else []),
           mp_rate_limit_max = rate_max, mp_rate_limit_window_seconds = window\<rparr>)
      | _ \<Rightarrow> Inl (ModeError ''research_proxy section must be a mapping''))"

subsection \<open>The accepted addresses\<close>

text \<open>
  The addresses the guard lets through, written over the octets of an IPv4 address and the hextets of an IPv6
  address.
\<close>

definition unblocked_v4 :: "nat \<Rightarrow> nat \<Rightarrow> nat \<Rightarrow> nat \<Rightarrow> bool" where
  "unblocked_v4 a b c d \<longleftrightarrow>
     a \<notin> {0, 10, 127} \<and> a < 224 \<and> \<not> (a = 169 \<and> b = 254) \<and> \<not> (a = 172 \<and> 16 \<le> b \<and> b < 32) \<and>
     \<not> (a = 192 \<and> b = 168) \<and> \<not> (a = 192 \<and> b = 0 \<and> c = 2) \<and> \<not> (a = 192 \<and> b = 0 \<and> c = 0 \<and> d \<notin> {9, 10}) \<and>
     \<not> (a = 198 \<and> (b = 18 \<or> b = 19)) \<and> \<not> (a = 198 \<and> b = 51 \<and> c = 100) \<and> \<not> (a = 203 \<and> b = 0 \<and> c = 113)"

definition octet :: "32 word \<Rightarrow> nat \<Rightarrow> nat" where
  "octet w k = unat w div 256 ^ (3 - k) mod 256"

definition hextet :: "128 word \<Rightarrow> nat \<Rightarrow> nat" where
  "hextet w k = unat w div 65536 ^ (7 - k) mod 65536"

definition global_2001 :: "128 word \<Rightarrow> bool" where
  "global_2001 w \<longleftrightarrow>
     hextet w 1 = 3 \<or> (hextet w 1 = 4 \<and> hextet w 2 = 0x112) \<or> (0x20 \<le> hextet w 1 \<and> hextet w 1 < 0x40) \<or>
     unat w mod 2 ^ 112 = 2 ^ 96 + 1 \<or> unat w mod 2 ^ 112 = 2 ^ 96 + 2"

definition unblocked_v6 :: "128 word \<Rightarrow> bool" where
  "unblocked_v6 w \<longleftrightarrow>
     (let h = hextet w 0; s = hextet w 1 in
      (0x2000 \<le> h \<and> h < 0x4000 \<and> h \<noteq> 0x2002 \<and> \<not> (h = 0x2001 \<and> (s = 0xdb8 \<or> (s < 0x200 \<and> \<not> global_2001 w)))) \<or>
      (0xfec0 \<le> h \<and> h < 0xff00))"

lemma in_net_div: "in_net net p w \<longleftrightarrow> unat w div 2 ^ (LENGTH('a) - p) = unat net div 2 ^ (LENGTH('a) - p)"
  for w :: "'a :: len word"
  unfolding in_net_def word_unat_eq_iff unat_drop_bit_eq unfolding drop_bit_eq_div by (rule refl)

lemma octets:
  fixes w :: "32 word"
  defines "N \<equiv> unat w"
  shows "N div 16777216 = octet w 0" "N div 65536 = octet w 0 * 256 + octet w 1"
    "N div 256 = (octet w 0 * 256 + octet w 1) * 256 + octet w 2"
    "N = ((octet w 0 * 256 + octet w 1) * 256 + octet w 2) * 256 + octet w 3"
    "octet w 0 < 256" "octet w 1 < 256" "octet w 2 < 256" "octet w 3 < 256"
proof -
  have "N < 4294967296" unfolding N_def using unsigned_less [of w] by simp
  then have a: "N div 16777216 < 256" by linarith
  have o: "octet w 0 = N div 16777216" "octet w 1 = N div 65536 mod 256" "octet w 2 = N div 256 mod 256"
    "octet w 3 = N mod 256" using a by (simp_all add: octet_def N_def)
  show "N div 16777216 = octet w 0" "octet w 0 < 256" "octet w 1 < 256" "octet w 2 < 256" "octet w 3 < 256"
    using a o by simp_all
  have 2: "N div 65536 div 256 = N div 16777216" "N div 256 div 256 = N div 65536"
    by (simp_all flip: div_mult2_eq)
  show 3: "N div 65536 = octet w 0 * 256 + octet w 1"
    using div_mult_mod_eq [of "N div 65536" 256] by (simp add: o 2 del: One_nat_def)
  show 4: "N div 256 = (octet w 0 * 256 + octet w 1) * 256 + octet w 2"
    using div_mult_mod_eq [of "N div 256" 256] unfolding 2 3 o(3) [symmetric] by simp
  show "N = ((octet w 0 * 256 + octet w 1) * 256 + octet w 2) * 256 + octet w 3"
    using div_mult_mod_eq [of N 256] unfolding 4 o(4) [symmetric] by simp
qed

lemma digits_eq: "b < m \<Longrightarrow> b' < m \<Longrightarrow> a * m + b = a' * m + b' \<longleftrightarrow> a = a' \<and> b = b'" for a :: nat
proof -
  assume "b < m" "b' < m"
  then have "(a * m + b) div m = a" "(a' * m + b') div m = a'" by simp_all
  then show ?thesis by (metis add_left_cancel)
qed

lemma unat_v4: "a < 256 \<Longrightarrow> b < 256 \<Longrightarrow> c < 256 \<Longrightarrow> d < 256 \<Longrightarrow> unat (v4 a b c d) = ((a * 256 + b) * 256 + c) * 256 + d"
  by (simp add: v4_def unsigned_of_nat take_bit_eq_mod del: of_nat_add of_nat_mult)

lemma v4_nets:
  fixes w :: "32 word"
  assumes "a < 256" "b < 256" "c < 256" "d < 256"
  shows "in_net (v4 a 0 0 0) 8 w \<longleftrightarrow> octet w 0 = a"
    "in_net (v4 a b 0 0) 16 w \<longleftrightarrow> octet w 0 = a \<and> octet w 1 = b"
    "in_net (v4 a b c 0) 24 w \<longleftrightarrow> octet w 0 = a \<and> octet w 1 = b \<and> octet w 2 = c"
    "in_net (v4 a b c d) 32 w \<longleftrightarrow> octet w 0 = a \<and> octet w 1 = b \<and> octet w 2 = c \<and> octet w 3 = d"
proof -
  note o = octets [of w]
  show "in_net (v4 a 0 0 0) 8 w \<longleftrightarrow> octet w 0 = a"
    using assms by (simp add: in_net_div unat_v4 o(1))
  have "unat (v4 a b 0 0) div 65536 = a * 256 + b" using assms by (simp add: unat_v4)
  then show "in_net (v4 a b 0 0) 16 w \<longleftrightarrow> octet w 0 = a \<and> octet w 1 = b"
    using digits_eq [OF o(6) assms(2)] by (simp add: in_net_div o(2))
  have "unat (v4 a b c 0) div 256 = (a * 256 + b) * 256 + c" using assms by (simp add: unat_v4)
  then have "in_net (v4 a b c 0) 24 w \<longleftrightarrow> (octet w 0 * 256 + octet w 1) * 256 + octet w 2 = (a * 256 + b) * 256 + c"
    unfolding in_net_div by (simp add: o(3))
  then show "in_net (v4 a b c 0) 24 w \<longleftrightarrow> octet w 0 = a \<and> octet w 1 = b \<and> octet w 2 = c"
    unfolding digits_eq [OF o(7) assms(3)] digits_eq [OF o(6) assms(2)] by simp
  have "in_net (v4 a b c d) 32 w \<longleftrightarrow> unat w = ((a * 256 + b) * 256 + c) * 256 + d"
    unfolding in_net_div by (simp add: unat_v4 assms)
  then show "in_net (v4 a b c d) 32 w \<longleftrightarrow> octet w 0 = a \<and> octet w 1 = b \<and> octet w 2 = c \<and> octet w 3 = d"
    unfolding o(4) digits_eq [OF o(8) assms(4)] digits_eq [OF o(7) assms(3)] digits_eq [OF o(6) assms(2)] by simp
qed

lemmas v4_net_simps = v4_nets(1) [of _ 0 0 0, simplified] v4_nets(2) [of _ _ 0 0, simplified]
  v4_nets(3) [of _ _ _ 0, simplified] v4_nets(4)

lemma v4_wide_nets:
  fixes w :: "32 word"
  shows "in_net (v4 172 16 0 0) 12 w \<longleftrightarrow> octet w 0 = 172 \<and> 16 \<le> octet w 1 \<and> octet w 1 < 32"
    "in_net (v4 198 18 0 0) 15 w \<longleftrightarrow> octet w 0 = 198 \<and> (octet w 1 = 18 \<or> octet w 1 = 19)"
    "in_net (v4 240 0 0 0) 4 w \<longleftrightarrow> 240 \<le> octet w 0"
    "in_net (v4 224 0 0 0) 4 w \<longleftrightarrow> 224 \<le> octet w 0 \<and> octet w 0 < 240"
    "drop_bit 24 w = 0x7f \<longleftrightarrow> octet w 0 = 127"
    "w = 0 \<longleftrightarrow> octet w 0 = 0 \<and> octet w 1 = 0 \<and> octet w 2 = 0 \<and> octet w 3 = 0"
proof -
  note o = octets [of w]
  have "unat w div 1048576 = (octet w 0 * 256 + octet w 1) div 16" "unat w div 131072 = (octet w 0 * 256 + octet w 1) div 2"
    unfolding o(2) [symmetric] by (simp_all flip: div_mult2_eq)
  then have d: "unat w div 1048576 = octet w 0 * 16 + octet w 1 div 16" "unat w div 131072 = octet w 0 * 128 + octet w 1 div 2"
    by linarith+
  have e: "unat w div 268435456 = octet w 0 div 16" unfolding o(1) [symmetric] by (simp flip: div_mult2_eq)
  have "octet w 0 * 16 + octet w 1 div 16 = 172 * 16 + 1 \<longleftrightarrow> octet w 0 = 172 \<and> octet w 1 div 16 = 1"
    using o(6) by (intro digits_eq) auto
  moreover have "octet w 1 div 16 = 1 \<longleftrightarrow> 16 \<le> octet w 1 \<and> octet w 1 < 32" by linarith
  ultimately show "in_net (v4 172 16 0 0) 12 w \<longleftrightarrow> octet w 0 = 172 \<and> 16 \<le> octet w 1 \<and> octet w 1 < 32"
    by (simp add: in_net_div v4_def d)
  have "octet w 0 * 128 + octet w 1 div 2 = 198 * 128 + 9 \<longleftrightarrow> octet w 0 = 198 \<and> octet w 1 div 2 = 9"
    using o(6) by (intro digits_eq) auto
  moreover have "octet w 1 div 2 = 9 \<longleftrightarrow> octet w 1 = 18 \<or> octet w 1 = 19" by linarith
  ultimately show "in_net (v4 198 18 0 0) 15 w \<longleftrightarrow> octet w 0 = 198 \<and> (octet w 1 = 18 \<or> octet w 1 = 19)"
    by (simp add: in_net_div v4_def d)
  have "octet w 0 div 16 = 15 \<longleftrightarrow> 240 \<le> octet w 0" "octet w 0 div 16 = 14 \<longleftrightarrow> 224 \<le> octet w 0 \<and> octet w 0 < 240"
    using o(5) by linarith+
  then show "in_net (v4 240 0 0 0) 4 w \<longleftrightarrow> 240 \<le> octet w 0"
    "in_net (v4 224 0 0 0) 4 w \<longleftrightarrow> 224 \<le> octet w 0 \<and> octet w 0 < 240"
    by (simp_all add: in_net_div v4_def e)
  have "unat (drop_bit 24 w) = octet w 0" unfolding unat_drop_bit_eq by (simp add: drop_bit_eq_div o(1))
  then show "drop_bit 24 w = 0x7f \<longleftrightarrow> octet w 0 = 127" by (simp add: word_unat_eq_iff)
  show "w = 0 \<longleftrightarrow> octet w 0 = 0 \<and> octet w 1 = 0 \<and> octet w 2 = 0 \<and> octet w 3 = 0"
    using o(4) by (simp add: word_unat_eq_iff)
qed

lemma v4_small_nets: "in_net (v4 192 0 0 170) 31 w \<longrightarrow> octet w 0 = 192 \<and> octet w 1 = 0 \<and> octet w 2 = 0 \<and> octet w 3 \<notin> {9, 10}"
proof
  assume "in_net (v4 192 0 0 170) 31 w"
  then have "unat w div 2 = 1610612821" by (simp add: in_net_div v4_def)
  then have "unat w = 3221225642 \<or> unat w = 3221225643" by linarith
  then show "octet w 0 = 192 \<and> octet w 1 = 0 \<and> octet w 2 = 0 \<and> octet w 3 \<notin> {9, 10}"
    by (auto simp: octet_def)
qed

lemma address_problem_None:
  "address_problem ip = None \<longleftrightarrow> \<not> is_private ip \<and> \<not> is_loopback ip \<and> \<not> is_link_local ip \<and> \<not> is_reserved ip \<and>
     \<not> is_multicast ip \<and> \<not> is_unspecified ip \<and> (case ip of IPv4 w \<Rightarrow> drop_bit 24 w \<noteq> 0x7f | IPv6 _ _ \<Rightarrow> True)"
  by (auto simp: address_problem_def split: ip_addr.splits)

lemma v4_problem: "address_problem (IPv4 w) = None \<longleftrightarrow> unblocked_v4 (octet w 0) (octet w 1) (octet w 2) (octet w 3)"
proof -
  define a b c d where o: "a = octet w 0" "b = octet w 1" "c = octet w 2" "d = octet w 3"
  define t where "t = in_net (v4 192 0 0 170) 31 w"
  have t: "t \<Longrightarrow> a = 192 \<and> b = 0 \<and> c = 0 \<and> d \<noteq> 9 \<and> d \<noteq> 10" using v4_small_nets [of w] by (simp add: t_def o)
  have p: "is_private (IPv4 w) \<longleftrightarrow> (a = 0 \<or> a = 10 \<or> a = 127 \<or> (a = 169 \<and> b = 254) \<or> (a = 172 \<and> 16 \<le> b \<and> b < 32) \<or>
      (a = 192 \<and> b = 0 \<and> c = 0) \<or> t \<or> (a = 192 \<and> b = 0 \<and> c = 2) \<or> (a = 192 \<and> b = 168) \<or> (a = 198 \<and> (b = 18 \<or> b = 19)) \<or>
      (a = 198 \<and> b = 51 \<and> c = 100) \<or> (a = 203 \<and> b = 0 \<and> c = 113) \<or> 240 \<le> a \<or> (a = 255 \<and> b = 255 \<and> c = 255 \<and> d = 255)) \<and>
      \<not> ((a = 192 \<and> b = 0 \<and> c = 0 \<and> d = 9) \<or> (a = 192 \<and> b = 0 \<and> c = 0 \<and> d = 10))"
    by (simp add: PRIVATE_V4_def PRIVATE_V4_EXCEPTIONS_def in_nets_def v4_wide_nets v4_net_simps t_def o)
  have l: "is_loopback (IPv4 w) \<longleftrightarrow> a = 127" "is_link_local (IPv4 w) \<longleftrightarrow> a = 169 \<and> b = 254" "is_reserved (IPv4 w) \<longleftrightarrow> 240 \<le> a"
    "is_multicast (IPv4 w) \<longleftrightarrow> 224 \<le> a \<and> a < 240" "is_unspecified (IPv4 w) \<longleftrightarrow> a = 0 \<and> b = 0 \<and> c = 0 \<and> d = 0"
    "drop_bit 24 w = 0x7f \<longleftrightarrow> a = 127"
    by (simp_all add: v4_wide_nets v4_net_simps o)
  have "address_problem (IPv4 w) = None \<longleftrightarrow> \<not> is_private (IPv4 w) \<and> a \<noteq> 127 \<and> \<not> (a = 169 \<and> b = 254) \<and> \<not> 240 \<le> a \<and>
      \<not> (224 \<le> a \<and> a < 240) \<and> \<not> (a = 0 \<and> b = 0 \<and> c = 0 \<and> d = 0) \<and> a \<noteq> 127"
    by (simp only: address_problem_None l ip_addr.case)
  also have "\<dots> \<longleftrightarrow> unblocked_v4 a b c d"
  proof (cases "a < 224")
    case True
    show ?thesis
    proof (cases "a = 192")
      case 192: True
      show ?thesis unfolding p unblocked_v4_def 192 using t by auto
    next
      case False
      then have "\<not> t" using t by blast
      then show ?thesis unfolding p unblocked_v4_def using True False by (simp add: not_le) argo
    qed
  qed (simp add: unblocked_v4_def not_less; presburger)
  finally show ?thesis by (simp add: o)
qed

lemma hextets01:
  fixes w :: "128 word"
  shows "unat w div 2 ^ 112 = hextet w 0" "unat w div 2 ^ 96 = hextet w 0 * 65536 + hextet w 1"
    "unat w div 2 ^ 80 = (hextet w 0 * 65536 + hextet w 1) * 65536 + hextet w 2"
    "hextet w 0 < 65536" "hextet w 1 < 65536" "hextet w 2 < 65536"
proof -
  have "unat w < 2 ^ 128" using unsigned_less [of w] by simp
  then have a: "unat w div 2 ^ 112 < 65536" by (simp add: less_mult_imp_div_less)
  have o: "hextet w 0 = unat w div 2 ^ 112" "hextet w 1 = unat w div 2 ^ 96 mod 65536" "hextet w 2 = unat w div 2 ^ 80 mod 65536"
    using a by (simp_all add: hextet_def)
  show "unat w div 2 ^ 112 = hextet w 0" "hextet w 0 < 65536" "hextet w 1 < 65536" "hextet w 2 < 65536"
    using a o by simp_all
  have 2: "unat w div 2 ^ 96 div 65536 = unat w div 2 ^ 112" "unat w div 2 ^ 80 div 65536 = unat w div 2 ^ 96"
    by (simp_all flip: div_mult2_eq)
  show 3: "unat w div 2 ^ 96 = hextet w 0 * 65536 + hextet w 1"
    using div_mult_mod_eq [of "unat w div 2 ^ 96" 65536] unfolding o 2 by simp
  show "unat w div 2 ^ 80 = (hextet w 0 * 65536 + hextet w 1) * 65536 + hextet w 2"
    using div_mult_mod_eq [of "unat w div 2 ^ 80" 65536] unfolding 2 3 o(3) [symmetric] by simp
qed

text \<open>Networks of at most 16 bits are intervals of the first hextet.\<close>

lemma wide_net:
  fixes w :: "128 word"
  assumes "p \<le> 16" "unat net = q * 2 ^ (128 - p)"
  shows "in_net net p w \<longleftrightarrow> hextet w 0 div 2 ^ (16 - p) = q"
proof -
  have e: "(2 :: nat) ^ (128 - p) = 2 ^ 112 * 2 ^ (16 - p)" unfolding power_add [symmetric] using assms(1) by simp
  show ?thesis unfolding in_net_div assms(2) using hextets01(1) [of w] by (simp add: e div_mult2_eq)
qed

lemma narrow_net: "in_net net p w \<Longrightarrow> 16 \<le> p \<Longrightarrow> p \<le> 128 \<Longrightarrow> hextet w 0 = hextet net 0" for w :: "128 word"
proof -
  assume a: "in_net net p w" "16 \<le> p" "p \<le> 128"
  have e: "(2 :: nat) ^ 112 = 2 ^ (128 - p) * 2 ^ (p - 16)" unfolding power_add [symmetric] using a(2,3) by simp
  show ?thesis using a(1) unfolding hextets01(1) [symmetric] in_net_div e div_mult2_eq by simp
qed

lemma div_eq_interval: "0 < m \<Longrightarrow> n div m = q \<longleftrightarrow> q * m \<le> n \<and> n < q * m + m" for n :: nat
  by (metis div_nat_eqI div_times_less_eq_dividend dividend_less_div_times mult.commute add.commute mult_Suc)

lemma v6_reserved:
  "is_reserved (IPv6 w scope) \<longleftrightarrow>
     hextet w 0 < 0x2000 \<or> (0x4000 \<le> hextet w 0 \<and> hextet w 0 < 0xfc00) \<or> (0xfe00 \<le> hextet w 0 \<and> hextet w 0 < 0xfe80)"
proof -
  define h where "h = hextet w 0"
  have "is_reserved (IPv6 w scope) \<longleftrightarrow> list_ex (\<lambda>(p, h0). h div 2 ^ (16 - p) = h0)
      [(8, 0), (8, 1), (7, 1), (6, 1), (5, 1), (4, 1), (3, 2), (3, 3), (3, 4), (3, 5), (3, 6), (4, 14), (5, 30), (6, 62), (9, 508)]"
    by (simp add: RESERVED_V6_def in_nets_def wide_net [where q = 0] wide_net [where q = 1] wide_net [where q = 2]
        wide_net [where q = 3] wide_net [where q = 4] wide_net [where q = 5] wide_net [where q = 6] wide_net [where q = 14]
        wide_net [where q = 30] wide_net [where q = 62] wide_net [where q = 508] h_def)
  also have "\<dots> \<longleftrightarrow> h < 0x2000 \<or> (0x4000 \<le> h \<and> h < 0xfc00) \<or> (0xfe00 \<le> h \<and> h < 0xfe80)"
    by (simp add: div_eq_interval) presburger
  finally show ?thesis by (simp add: h_def)
qed

lemma v6_narrow:
  fixes w :: "128 word"
  shows "in_net 0x20010db8000000000000000000000000 32 w \<longleftrightarrow> hextet w 0 = 0x2001 \<and> hextet w 1 = 0xdb8"
    "in_net 0x20010003000000000000000000000000 32 w \<longleftrightarrow> hextet w 0 = 0x2001 \<and> hextet w 1 = 3"
    "in_net 0x20010000000000000000000000000000 23 w \<longleftrightarrow> hextet w 0 = 0x2001 \<and> hextet w 1 < 0x200"
    "in_net 0x20010020000000000000000000000000 28 w \<longleftrightarrow> hextet w 0 = 0x2001 \<and> 0x20 \<le> hextet w 1 \<and> hextet w 1 < 0x30"
    "in_net 0x20010030000000000000000000000000 28 w \<longleftrightarrow> hextet w 0 = 0x2001 \<and> 0x30 \<le> hextet w 1 \<and> hextet w 1 < 0x40"
    "in_net 0x20010004011200000000000000000000 48 w \<longleftrightarrow> hextet w 0 = 0x2001 \<and> hextet w 1 = 4 \<and> hextet w 2 = 0x112"
    "in_net 0x20010001000000000000000000000001 128 w \<longleftrightarrow> hextet w 0 = 0x2001 \<and> unat w mod 2 ^ 112 = 2 ^ 96 + 1"
    "in_net 0x20010001000000000000000000000002 128 w \<longleftrightarrow> hextet w 0 = 0x2001 \<and> unat w mod 2 ^ 112 = 2 ^ 96 + 2"
proof -
  note h = hextets01 [of w]
  define x y z where xyz: "x = hextet w 0" "y = hextet w 1" "z = hextet w 2"
  have 23: "unat w div 2 ^ 105 = x * 128 + y div 512" "unat w div 2 ^ 100 = x * 4096 + y div 16"
  proof -
    have "unat w div 2 ^ 105 = (x * 65536 + y) div 512" "unat w div 2 ^ 100 = (x * 65536 + y) div 16"
      unfolding xyz h(2) [symmetric] by (simp_all flip: div_mult2_eq)
    then show "unat w div 2 ^ 105 = x * 128 + y div 512" "unat w div 2 ^ 100 = x * 4096 + y div 16" by linarith+
  qed
  have y: "y < 65536" "z < 65536" "y div 512 < 128" "y div 16 < 4096" using h(5,6) by (simp_all add: xyz)
  have 32: "in_net net 32 w \<longleftrightarrow> x * 65536 + y = unat net div 2 ^ 96" for net :: "128 word"
    using h(2) by (simp add: in_net_div xyz)
  show "in_net 0x20010db8000000000000000000000000 32 w \<longleftrightarrow> hextet w 0 = 0x2001 \<and> hextet w 1 = 0xdb8"
    "in_net 0x20010003000000000000000000000000 32 w \<longleftrightarrow> hextet w 0 = 0x2001 \<and> hextet w 1 = 3"
    using digits_eq [of y 65536 3512 x 8193] digits_eq [of y 65536 3 x 8193] y(1) by (simp_all add: 32 xyz)
  have "in_net 0x20010000000000000000000000000000 23 w \<longleftrightarrow> x * 128 + y div 512 = 0x2001 * 128 + 0"
    using 23(1) by (simp add: in_net_div)
  also have "\<dots> \<longleftrightarrow> x = 0x2001 \<and> y div 512 = 0" by (rule digits_eq) (use y in simp_all)
  finally show "in_net 0x20010000000000000000000000000000 23 w \<longleftrightarrow> hextet w 0 = 0x2001 \<and> hextet w 1 < 0x200"
    by (simp add: xyz div_eq_0_iff)
  have "in_net 0x20010020000000000000000000000000 28 w \<longleftrightarrow> x * 4096 + y div 16 = 0x2001 * 4096 + 2"
    "in_net 0x20010030000000000000000000000000 28 w \<longleftrightarrow> x * 4096 + y div 16 = 0x2001 * 4096 + 3"
    using 23(2) by (simp_all add: in_net_div)
  moreover have "x * 4096 + y div 16 = 0x2001 * 4096 + 2 \<longleftrightarrow> x = 0x2001 \<and> y div 16 = 2"
    "x * 4096 + y div 16 = 0x2001 * 4096 + 3 \<longleftrightarrow> x = 0x2001 \<and> y div 16 = 3"
    by (rule digits_eq; use y in simp)+
  ultimately show "in_net 0x20010020000000000000000000000000 28 w \<longleftrightarrow> hextet w 0 = 0x2001 \<and> 0x20 \<le> hextet w 1 \<and> hextet w 1 < 0x30"
    "in_net 0x20010030000000000000000000000000 28 w \<longleftrightarrow> hextet w 0 = 0x2001 \<and> 0x30 \<le> hextet w 1 \<and> hextet w 1 < 0x40"
    by (simp_all add: xyz div_eq_interval)
  have "in_net 0x20010004011200000000000000000000 48 w \<longleftrightarrow> (x * 65536 + y) * 65536 + z = (0x2001 * 65536 + 4) * 65536 + 0x112"
    using h(3) by (simp add: in_net_div xyz)
  also have "\<dots> \<longleftrightarrow> x * 65536 + y = 0x2001 * 65536 + 4 \<and> z = 0x112" by (rule digits_eq) (use y in simp_all)
  also have "x * 65536 + y = 0x2001 * 65536 + 4 \<longleftrightarrow> x = 0x2001 \<and> y = 4" by (rule digits_eq) (use y in simp_all)
  finally show "in_net 0x20010004011200000000000000000000 48 w \<longleftrightarrow> hextet w 0 = 0x2001 \<and> hextet w 1 = 4 \<and> hextet w 2 = 0x112"
    by (simp add: xyz)
  have n: "unat w = x * 2 ^ 112 + unat w mod 2 ^ 112" using div_mult_mod_eq [of "unat w" "2 ^ 112"] by (simp only: h(1) xyz)
  have "unat w = 0x2001 * 2 ^ 112 + m \<longleftrightarrow> x = 0x2001 \<and> unat w mod 2 ^ 112 = m" if "m < 2 ^ 112" for m
    by (subst n, rule digits_eq) (use that in simp_all)
  from this [of "2 ^ 96 + 1"] this [of "2 ^ 96 + 2"]
  show "in_net 0x20010001000000000000000000000001 128 w \<longleftrightarrow> hextet w 0 = 0x2001 \<and> unat w mod 2 ^ 112 = 2 ^ 96 + 1"
    "in_net 0x20010001000000000000000000000002 128 w \<longleftrightarrow> hextet w 0 = 0x2001 \<and> unat w mod 2 ^ 112 = 2 ^ 96 + 2"
    by (simp_all add: in_net_div flip: xyz)
qed

lemma v6_private_nets:
  assumes "0x2000 \<le> hextet w 0"
  shows "in_nets PRIVATE_V6 w \<longleftrightarrow>
      (hextet w 0 = 0x2001 \<and> (hextet w 1 < 0x200 \<or> hextet w 1 = 0xdb8)) \<or> hextet w 0 = 0x2002 \<or>
      (0xfc00 \<le> hextet w 0 \<and> hextet w 0 < 0xfe00) \<or> (0xfe80 \<le> hextet w 0 \<and> hextet w 0 < 0xfec0)"
proof -
  have n: "\<not> in_net net p w" if "16 \<le> p" "p \<le> 128" "hextet net 0 < 0x2000" for net p
    using narrow_net [of net p w] that assms by auto
  have z: "\<not> in_net 1 128 w" "\<not> in_net 0 128 w" "\<not> in_net 0xffff00000000 96 w" "\<not> in_net 0x0064ff9b000100000000000000000000 48 w"
    "\<not> in_net 0x01000000000000000000000000000000 64 w"
    by (rule n; simp add: hextet_def)+
  have i: "in_net 0x20020000000000000000000000000000 16 w \<longleftrightarrow> hextet w 0 = 0x2002"
    "in_net 0xfc000000000000000000000000000000 7 w \<longleftrightarrow> 0xfc00 \<le> hextet w 0 \<and> hextet w 0 < 0xfe00"
    "in_net 0xfe800000000000000000000000000000 10 w \<longleftrightarrow> 0xfe80 \<le> hextet w 0 \<and> hextet w 0 < 0xfec0"
    by (simp_all add: wide_net [where q = 8194] wide_net [where q = 126] wide_net [where q = 1018] div_eq_interval)
  show ?thesis by (simp add: PRIVATE_V6_def in_nets_def z i v6_narrow) blast
qed

lemma v6_exceptions: "in_nets PRIVATE_V6_EXCEPTIONS w \<longleftrightarrow> hextet w 0 = 0x2001 \<and> global_2001 w"
proof -
  have "0x20 \<le> s \<and> s < 0x40 \<longleftrightarrow> (0x20 \<le> s \<and> s < 0x30) \<or> (0x30 \<le> s \<and> s < 0x40)" for s :: nat by linarith
  moreover have "in_nets PRIVATE_V6_EXCEPTIONS w \<longleftrightarrow>
      in_net 0x20010001000000000000000000000001 128 w \<or> in_net 0x20010001000000000000000000000002 128 w \<or>
      in_net 0x20010003000000000000000000000000 32 w \<or> in_net 0x20010004011200000000000000000000 48 w \<or>
      in_net 0x20010020000000000000000000000000 28 w \<or> in_net 0x20010030000000000000000000000000 28 w"
    by (simp add: PRIVATE_V6_EXCEPTIONS_def in_nets_def)
  ultimately show ?thesis unfolding v6_narrow global_2001_def by blast
qed

lemma not_global_documentation: "hextet w 1 = 0xdb8 \<Longrightarrow> \<not> global_2001 w"
proof -
  have "unat w mod (2 ^ 96 * 65536) div 2 ^ 96 = hextet w 1" unfolding mod_mult2_eq by (simp add: hextet_def)
  then have "unat w mod 2 ^ 112 div 2 ^ 96 = hextet w 1" by simp
  then show "hextet w 1 = 0xdb8 \<Longrightarrow> \<not> global_2001 w" unfolding global_2001_def by auto
qed

lemma v6_others:
  "is_link_local (IPv6 w scope) \<longleftrightarrow> 0xfe80 \<le> hextet w 0 \<and> hextet w 0 < 0xfec0"
  "is_multicast (IPv6 w scope) \<longleftrightarrow> 0xff00 \<le> hextet w 0"
  "0x2000 \<le> hextet w 0 \<Longrightarrow> \<not> is_loopback (IPv6 w scope) \<and> \<not> is_unspecified (IPv6 w scope)"
  using hextets01(4) [of w]
  by (auto simp: wide_net [where q = 255] wide_net [where q = 1018] div_eq_interval hextet_def)

lemma v6_problem: "address_problem (IPv6 w scope) = None \<longleftrightarrow> unblocked_v6 w"
proof -
  define h where "h = hextet w 0"
  have n: "address_problem (IPv6 w scope) = None \<longleftrightarrow> \<not> is_reserved (IPv6 w scope) \<and> \<not> is_private (IPv6 w scope) \<and>
      \<not> (0xfe80 \<le> h \<and> h < 0xfec0) \<and> \<not> 0xff00 \<le> h \<and> \<not> is_loopback (IPv6 w scope) \<and> \<not> is_unspecified (IPv6 w scope)"
    by (simp only: address_problem_None v6_others(1,2) ip_addr.case h_def) blast
  note r = v6_reserved [of w scope, folded h_def]
  have p: "is_private (IPv6 w scope) \<longleftrightarrow> (h = 0x2001 \<and> (hextet w 1 = 0xdb8 \<or> (hextet w 1 < 0x200 \<and> \<not> global_2001 w))) \<or>
      h = 0x2002 \<or> (0xfc00 \<le> h \<and> h < 0xfe00) \<or> (0xfe80 \<le> h \<and> h < 0xfec0)" if "0x2000 \<le> h"
    using that not_global_documentation [of w] by (auto simp: v6_private_nets v6_exceptions h_def)
  show ?thesis
  proof (cases "h < 0x2000")
    case True
    then show ?thesis unfolding n r by (simp add: unblocked_v6_def flip: h_def)
  next
    case False
    define g where "g = (hextet w 1 = 0xdb8 \<or> (hextet w 1 < 0x200 \<and> \<not> global_2001 w))"
    have h: "0x2000 \<le> h" "is_loopback (IPv6 w scope) \<longleftrightarrow> False" "is_unspecified (IPv6 w scope) \<longleftrightarrow> False"
      using False v6_others(3) [of w scope] unfolding h_def [symmetric] by simp_all
    show ?thesis unfolding n r p [OF h(1)] h(2,3) unblocked_v6_def Let_def h_def [symmetric] g_def [symmetric]
      using h(1) by (cases g; simp only: simp_thms; presburger)
  qed
qed

text \<open>The text of an IPv4 address, and of the same address as an IPv4-mapped IPv6 address.\<close>

definition dotted :: "nat \<Rightarrow> nat \<Rightarrow> nat \<Rightarrow> nat \<Rightarrow> string" where
  "dotted a b c d = join ''.'' (map nat_str [a, b, c, d])"

lemma digit_char_decimal: "n < 10 \<Longrightarrow> is_ascii_digit (digit_char n) \<and> digit_value (digit_char n) = n \<and> (digit_char n = CHR ''0'' \<longleftrightarrow> n = 0)"
proof -
  assume "n < 10"
  then have "n \<in> set [0, 1, 2, 3, 4, 5, 6, 7, 8, 9]" by auto
  moreover have "list_all (\<lambda>n. is_ascii_digit (digit_char n) \<and> digit_value (digit_char n) = n \<and> (digit_char n = CHR ''0'' \<longleftrightarrow> n = 0))
      [0, 1, 2, 3, 4, 5, 6, 7, 8, 9]" by code_simp
  ultimately show ?thesis unfolding list_all_iff by blast
qed

lemma nat_str_decimal: "list_all is_ascii_digit (nat_str n) \<and> decimal_value (nat_str n) = n \<and> (hd (nat_str n) = CHR ''0'' \<longrightarrow> n = 0)"
proof (induction n rule: less_induct)
  case (less n)
  show ?case
  proof (cases "n < 10")
    case True
    then show ?thesis using digit_char_decimal by (simp add: nat_str.simps [of n] decimal_value_def)
  next
    case False
    then have "nat_str n = nat_str (n div 10) @ [digit_char (n mod 10)]" by (subst nat_str.simps) simp
    moreover have "n div 10 < n" "n div 10 \<noteq> 0" using False by auto
    ultimately show ?thesis using less.IH [of "n div 10"] digit_char_decimal [of "n mod 10"] nat_str_nonempty [of "n div 10"]
      by (auto simp: decimal_value_def)
  qed
qed

lemma nat_str_short: "n < 10 ^ k \<Longrightarrow> 0 < k \<Longrightarrow> length (nat_str n) \<le> k"
proof (induction k arbitrary: n)
  case (Suc k)
  show ?case
  proof (cases "n < 10")
    case False
    then have "nat_str n = nat_str (n div 10) @ [digit_char (n mod 10)]" by (subst nat_str.simps) simp
    moreover have "n div 10 < 10 ^ k" using Suc.prems by (simp add: less_mult_imp_div_less)
    moreover have "0 < k" using Suc.prems False by (cases k) auto
    ultimately show ?thesis using Suc.IH [of "n div 10"] by simp
  qed (simp add: nat_str.simps)
qed simp

lemma octet_text:
  assumes "n < 256"
  shows "parse_octet (nat_str n) = Some n \<and> list_all is_ascii_digit (nat_str n)"
proof -
  have "nat_str 0 = ''0''" by code_simp
  moreover have "length (nat_str n) \<le> 3" using assms by (intro nat_str_short) auto
  ultimately show ?thesis using nat_str_decimal [of n] nat_str_nonempty [of n] assms by (auto simp: parse_octet_def)
qed

lemma digits_avoid: "list_all is_ascii_digit s \<Longrightarrow> CHR ''.'' \<notin> set s \<and> CHR '':'' \<notin> set s \<and> CHR ''/'' \<notin> set s \<and> CHR ''%'' \<notin> set s"
  by (auto simp: list_all_iff is_ascii_digit_def)

lemma dotted_split:
  assumes "a < 256" "b < 256" "c < 256" "d < 256"
  shows "py_split (CHR ''.'') (dotted a b c d) = map nat_str [a, b, c, d]"
    "CHR ''/'' \<notin> set (dotted a b c d)" "CHR '':'' \<notin> set (dotted a b c d)" "CHR ''%'' \<notin> set (dotted a b c d)"
proof -
  note t = assms [THEN octet_text, THEN conjunct2, THEN digits_avoid]
  show "py_split (CHR ''.'') (dotted a b c d) = map nat_str [a, b, c, d]"
    using t by (simp add: dotted_def py_split_append py_split_plain)
  show "CHR ''/'' \<notin> set (dotted a b c d)" "CHR '':'' \<notin> set (dotted a b c d)" "CHR ''%'' \<notin> set (dotted a b c d)"
    using t by (auto simp: dotted_def)
qed

lemma ip_address_dotted:
  "a < 256 \<Longrightarrow> b < 256 \<Longrightarrow> c < 256 \<Longrightarrow> d < 256 \<Longrightarrow> ip_address (dotted a b c d) = Some (IPv4 (v4 a b c d))"
  using octet_text by (simp add: ip_address_def parse_ipv4_def dotted_split)

lemma octets_v4:
  assumes "a < 256" "b < 256" "c < 256" "d < 256"
  shows "octet (v4 a b c d) 0 = a" "octet (v4 a b c d) 1 = b" "octet (v4 a b c d) 2 = c" "octet (v4 a b c d) 3 = d"
  using v4_nets(4) [OF assms, of "v4 a b c d"] by (simp_all add: in_net_def)

lemma hex_str_nonempty: "hex_str n \<noteq> []"
  by (subst hex_str.simps) simp

lemma hex_str_digits: "hex_digits 0 (hex_str n) = Some (int n) \<and> list_all (\<lambda>c. hex_value c \<noteq> None) (hex_str n)"
proof (induction n rule: less_induct)
  case (less n)
  show ?case
  proof (cases "n < 16")
    case True
    then show ?thesis by (simp add: hex_str.simps [of n] hex_value_digit del: hex_value.simps)
  next
    case False
    then have "hex_str n = hex_str (n div 16) @ [digit_char (n mod 16)]" by (subst hex_str.simps) simp
    moreover have "n div 16 < n" using False by auto
    moreover note less.IH [OF this]
    moreover have "16 * int (n div 16) + int (n mod 16) = int n" using div_mult_mod_eq [of n 16] by linarith
    ultimately show ?thesis using hex_digits_snoc [of "hex_str (n div 16)" 0 "n mod 16"]
      by (auto simp: hex_value_digit list_all_iff simp del: hex_value.simps)
  qed
qed

lemma hextet_text:
  assumes "n < 65536"
  shows "parse_hextet (hex_str n) = Some n"
proof -
  have short: "length (hex_str n) \<le> k" if "n < 16 ^ k" "0 < k" for n k
    using that
  proof (induction k arbitrary: n)
    case (Suc k)
    show ?case
    proof (cases "n < 16")
      case False
      then have "hex_str n = hex_str (n div 16) @ [digit_char (n mod 16)]" by (subst hex_str.simps) simp
      moreover have "n div 16 < 16 ^ k" using Suc.prems by (simp add: less_mult_imp_div_less)
      moreover have "0 < k" using Suc.prems False by (cases k) auto
      ultimately show ?thesis using Suc.IH [of "n div 16"] by simp
    qed (simp add: hex_str.simps)
  qed simp
  have "length (hex_str n) \<le> 4" using assms by (intro short) auto
  then show ?thesis using hex_str_digits [of n] hex_str_nonempty [of n]
    by (auto simp: parse_hextet_def list_ex_iff list_all_iff simp del: hex_value.simps)
qed

definition mapped :: "string \<Rightarrow> string" where
  "mapped s = ''::ffff:'' @ s"

lemma ip_address_mapped:
  assumes "a < 256" "b < 256" "c < 256" "d < 256"
  shows "\<exists>ip. ip_address (mapped (dotted a b c d)) = Some ip \<and> unmap ip = IPv4 (v4 a b c d)"
proof -
  define s N where "s = dotted a b c d" and "N = unat (v4 a b c d)"
  note ds = dotted_split [OF assms, folded s_def]
  have dot: "CHR ''.'' \<in> set s" by (simp add: s_def dotted_def)
  have v4s: "parse_ipv4 s = Some (v4 a b c d)" using octet_text assms by (simp add: parse_ipv4_def ds)
  have "N < 4294967296" using unsigned_less [of "v4 a b c d"] unfolding N_def by simp
  then have N: "N div 65536 < 65536" "N mod 65536 < 65536" by auto
  have "py_split (CHR '':'') (mapped s) = [[], [], ''ffff'', s]"
    using ds(3) by (simp add: mapped_def py_split_append [of _ "''ffff''", simplified] py_split_plain)
  then have parts: "ipv6_parts (mapped s) = Some [[], [], ''ffff'', hex_str (N div 65536), hex_str (N mod 65536)]"
    using dot v4s by (simp add: ipv6_parts_def N_def mapped_def)
  have "skip_index [[], [], ''ffff'', hex_str (N div 65536), hex_str (N mod 65536)] = Some (Some 1)"
    using hex_str_nonempty by (simp add: skip_index_def upt_rec nth_Cons')
  moreover have "parse_hextet ''ffff'' = Some 65535" using hextet_text [of 65535] by (simp add: hex_str.simps digit_char_def)
  ultimately have i: "ipv6_int (mapped s) = Some ((65535 * 65536 + N div 65536) * 65536 + N mod 65536)"
    using parts N hextet_text hex_str_nonempty by (simp add: ipv6_int_def)
  have m: "(65535 * 65536 + N div 65536) * 65536 + N mod 65536 = 65535 * 2 ^ 32 + N" by simp
  define pre where "pre = ''::ffff:'' @ nat_str a"
  have "mapped s = pre @ CHR ''.'' # join ''.'' (map nat_str [b, c, d])" by (simp add: mapped_def s_def dotted_def pre_def)
  moreover have "CHR ''.'' \<notin> set pre" using octet_text [OF assms(1)] digits_avoid by (simp add: pre_def)
  moreover have "parse_octet pre = None" by (simp add: parse_octet_def is_ascii_digit_def pre_def)
  ultimately have "parse_ipv4 (mapped s) = None" by (simp add: parse_ipv4_def py_split_append py_split_plain)
  moreover have "split_scope (mapped s) = Some (mapped s, None)"
    using ds(4) dropWhile_eq_Nil_conv [of "\<lambda>c. c \<noteq> CHR ''%''" s] takeWhile_eq_all_conv [of "\<lambda>c. c \<noteq> CHR ''%''" s]
    by (auto simp: split_scope_def mapped_def Let_def)
  moreover have "CHR ''/'' \<notin> set (mapped s)" using ds(2) by (simp add: mapped_def)
  ultimately have ip: "ip_address (mapped s) = Some (IPv6 (word_of_nat (65535 * 2 ^ 32 + N)) None)"
    by (simp only: ip_address_def i m option.case if_False prod.case)
  have u: "unat (word_of_nat (65535 * 2 ^ 32 + N) :: 128 word) = 65535 * 2 ^ 32 + N"
    using \<open>N < 4294967296\<close> by (simp add: unsigned_of_nat take_bit_eq_mod del: of_nat_add of_nat_mult)
  have "in_net 0xffff00000000 96 (word_of_nat (65535 * 2 ^ 32 + N) :: 128 word)"
    unfolding in_net_div u using \<open>N < 4294967296\<close> by simp
  moreover have "ucast (word_of_nat (65535 * 2 ^ 32 + N) :: 128 word) = v4 a b c d"
    unfolding word_unat_eq_iff unsigned_ucast_eq u take_bit_eq_mod N_def [symmetric]
    using mod_mult_self3 [of 65535 "2 ^ 32" N] \<open>N < 4294967296\<close> by simp
  ultimately show ?thesis unfolding s_def [symmetric] ip by simp
qed

lemma accepted_address:
  assumes "a < 256" "b < 256" "c < 256" "d < 256"
  shows "(check_address (dotted a b c d) = None \<longleftrightarrow> unblocked_v4 a b c d) \<and> (check_address (mapped (dotted a b c d)) = None \<longleftrightarrow> unblocked_v4 a b c d)"
  using ip_address_dotted [OF assms] ip_address_mapped [OF assms] v4_problem [of "v4 a b c d"] octets_v4 [OF assms]
  by (auto simp: check_address_def split: option.splits)

lemma site_local: "ip_address ''fec0::1'' = Some (IPv6 0xfec00000000000000000000000000001 None)"
proof -
  have "parse_hextet ''fec0'' = Some 0xfec0" "parse_hextet ''1'' = Some 1"
    using hextet_text [of "0xfec0"] hextet_text [of 1] by (simp_all add: hex_str.simps digit_char_def)
  then have "ipv6_int ''fec0::1'' = Some 0xfec00000000000000000000000000001"
    by (simp add: ipv6_int_def ipv6_parts_def skip_index_def upt_rec)
  then show ?thesis by (simp add: ip_address_def parse_ipv4_def parse_octet_def is_ascii_digit_def split_scope_def)
qed

lemma refused_unless_none: "check_address t \<noteq> None \<Longrightarrow> \<exists>m. check_address t = Some (SSRFError m)"
  by (auto simp: check_address_def split: option.splits)

lemma same_verdict:
  assumes "a < 256" "b < 256" "c < 256" "d < 256"
  shows "check_address (mapped (dotted a b c d)) = check_address (dotted a b c d)"
proof -
  obtain ip where "ip_address (mapped (dotted a b c d)) = Some ip" "unmap ip = IPv4 (v4 a b c d)"
    using ip_address_mapped [OF assms] by blast
  then show ?thesis using ip_address_dotted [OF assms] by (simp add: check_address_def split: option.split)
qed

lemma unmapped_v6: "hextet w 0 \<noteq> 0 \<Longrightarrow> unmap (IPv6 w sc) = IPv6 w sc"
  using narrow_net [of "0xffff00000000" 96 w] by (auto simp: hextet_def)

text \<open>
  C24. The internal addresses are out of reach in both notations: the current network, the private, loopback,
  link-local (with the metadata service), multicast and reserved IPv4 ranges are refused with an \<open>SSRFError\<close>, written
  as four octets or inside \<open>::ffff:0:0/96\<close>, with the same message; and so is every text that parses to a unique local,
  link-local, multicast or 6to4 IPv6 address.
\<close>

theorem internal_addresses_are_refused:
  assumes "a < 256" "b < 256" "c < 256" "d < 256"
    and "a \<in> {0, 10, 127} \<or> (a = 172 \<and> 16 \<le> b \<and> b < 32) \<or> (a = 192 \<and> b = 168) \<or> (a = 169 \<and> b = 254) \<or> 224 \<le> a"
  shows "(\<exists>m. check_address (dotted a b c d) = Some (SSRFError m) \<and> check_address (mapped (dotted a b c d)) = Some (SSRFError m))
    \<and> (\<forall>text w sc. ip_address text = Some (IPv6 w sc) \<and>
         (0xfc00 \<le> hextet w 0 \<and> hextet w 0 < 0xfec0 \<or> 0xff00 \<le> hextet w 0 \<or> hextet w 0 = 0x2002) \<longrightarrow>
         (\<exists>m. check_address text = Some (SSRFError m)))"
proof
  have "\<not> unblocked_v4 a b c d" using assms(5) unfolding unblocked_v4_def by (elim disjE) simp_all
  then have "check_address (dotted a b c d) \<noteq> None" using accepted_address [OF assms(1-4)] by blast
  then show "\<exists>m. check_address (dotted a b c d) = Some (SSRFError m) \<and> check_address (mapped (dotted a b c d)) = Some (SSRFError m)"
    using refused_unless_none same_verdict [OF assms(1-4)] by metis
  show "\<forall>text w sc. ip_address text = Some (IPv6 w sc) \<and>
         (0xfc00 \<le> hextet w 0 \<and> hextet w 0 < 0xfec0 \<or> 0xff00 \<le> hextet w 0 \<or> hextet w 0 = 0x2002) \<longrightarrow>
         (\<exists>m. check_address text = Some (SSRFError m))"
  proof (intro allI impI)
    fix s w sc
    assume t: "ip_address s = Some (IPv6 w sc) \<and>
         (0xfc00 \<le> hextet w 0 \<and> hextet w 0 < 0xfec0 \<or> 0xff00 \<le> hextet w 0 \<or> hextet w 0 = 0x2002)"
    then have "\<not> unblocked_v6 w" "hextet w 0 \<noteq> 0" by (auto simp: unblocked_v6_def Let_def)
    then have "check_address s \<noteq> None"
      using t unmapped_v6 [of w sc] v6_problem [of w sc] by (auto simp: check_address_def split: option.splits)
    then show "\<exists>m. check_address s = Some (SSRFError m)" by (rule refused_unless_none)
  qed
qed

theorem internal_addresses_are_refused_witness:
  "\<exists>m. check_address (dotted 169 254 169 254) = Some (SSRFError m) \<and> check_address (mapped (dotted 169 254 169 254)) = Some (SSRFError m)"
proof -
  have o: "(169 :: nat) < 256" "(254 :: nat) < 256" "(169 :: nat) < 256" "(254 :: nat) < 256" by simp_all
  show ?thesis by (rule internal_addresses_are_refused [OF o, THEN conjunct1]) simp
qed

text \<open>
  C25. Addresses of the shared address space \<open>100.64.0.0/10\<close> are not public unicast, and neither are the site-local
  addresses \<open>fec0::/10\<close>, yet the guard accepts each of them: the former in both notations, the latter in every text
  that parses to one.
\<close>

theorem shared_address_space_is_accepted:
  assumes "64 \<le> b" "b < 128" "c < 256" "d < 256"
    and "ip_address text = Some (IPv6 w sc)" "0xfec0 \<le> hextet w 0" "hextet w 0 < 0xff00"
  shows "check_address (dotted 100 b c d) = None \<and> check_address (mapped (dotted 100 b c d)) = None \<and>
    check_address text = None"
proof -
  have "unblocked_v6 w" "hextet w 0 \<noteq> 0" using assms(6,7) by (simp_all add: unblocked_v6_def Let_def)
  then have "check_address text = None"
    using assms(5) unmapped_v6 [of w sc] v6_problem [of w sc] by (simp add: check_address_def)
  then show ?thesis using accepted_address [of 100 b c d] assms(1-4) by (simp add: unblocked_v4_def)
qed

theorem shared_address_space_is_accepted_witness:
  "check_address (dotted 100 100 100 200) = None \<and> check_address (mapped (dotted 100 100 100 200)) = None \<and>
    check_address ''fec0::1'' = None"
  by (rule shared_address_space_is_accepted [OF _ _ _ _ site_local]) (simp_all add: hextet_def)

end
