(* ===== verification/ProxyFetch.thy ===== *)
theory ProxyFetch
  imports Egress Store
begin

section \<open>Fetching through the research proxy\<close>

text \<open>
  \<open>apps/research_proxy/backend.py\<close>, \<open>fetch.py\<close>, \<open>search.py\<close> and the network part of \<open>service.py\<close>: the connection path
  with its address check, the redirect loop with its limits, the gate of the mode policy in front of them, and the
  rate limit of the upstream search.

  The network is the record \<open>net\<close>: what the resolver answers, which connection the HTTP client opens for a request,
  how it passes on an exception of its network backend, what the server replies, and the readings of the clock, each
  as a function of the number of the request.  The theorems hold for every such record, so they assume nothing of
  the client but that it connects through its backend.  A fetch also returns the list of the connections it opened.
\<close>

subsection \<open>The connection path\<close>

record connection =
  cn_host :: string
  cn_port :: int
  cn_address :: string

record http_response =
  hr_status_code :: int
  hr_location :: "string option"
  hr_content_type :: "string option"
  hr_chunks :: "string list"
  hr_broken :: "exn option"
  hr_url :: string

record net =
  net_getaddrinfo :: "nat \<Rightarrow> string \<Rightarrow> int \<Rightarrow> string + string list"
  net_connect :: "nat \<Rightarrow> string \<Rightarrow> int \<Rightarrow> exn option"
  net_build :: "string \<Rightarrow> exn option"
  net_target :: "nat \<Rightarrow> string \<Rightarrow> (string \<times> int) option"
  net_raised :: "nat \<Rightarrow> exn \<Rightarrow> exn \<times> exn list"
  net_reply :: "nat \<Rightarrow> string \<Rightarrow> (exn \<times> exn list) + http_response"
  net_urljoin :: "string \<Rightarrow> string \<Rightarrow> exn + string"
  net_clock :: "nat \<Rightarrow> rat"

text \<open>The addresses a connection may go to: the host itself when it is a literal, else the answer of the resolver.\<close>

definition target_ips :: "net \<Rightarrow> nat \<Rightarrow> string \<Rightarrow> int \<Rightarrow> exn + string list" where
  "target_ips net n host port =
     (case ip_address host of Some _ \<Rightarrow> Inr [host]
      | None \<Rightarrow> (case net_getaddrinfo net n host port of
          Inl msg \<Rightarrow> Inl (SSRFError (''hostname '' @ repr_str host @ '' did not resolve: '' @ msg))
        | Inr ips \<Rightarrow> Inr ips))"

definition connect_tcp :: "net \<Rightarrow> ssrf_policy \<Rightarrow> nat \<Rightarrow> string \<Rightarrow> int \<Rightarrow> exn option \<times> connection list" where
  "connect_tcp net policy n host port =
     (case target_ips net n host port of Inl e \<Rightarrow> (Some e, [])
      | Inr ips \<Rightarrow>
          case (if allows_private policy host port then None else check_addresses ips) of Some e \<Rightarrow> (Some e, [])
          | None \<Rightarrow> (case ips of [] \<Rightarrow> (Some (IndexError ''list index out of range''), [])
              | pinned # _ \<Rightarrow> (net_connect net n pinned port, [\<lparr>cn_host = host, cn_port = port, cn_address = pinned\<rparr>])))"

definition connect_unix_socket :: "string \<Rightarrow> exn + unit" where
  "connect_unix_socket socket_path = Inl (SSRFError ''unix sockets are not an egress path'')"

text \<open>One request of the client: it reuses a connection or opens one through the backend.\<close>

definition send :: "net \<Rightarrow> ssrf_policy \<Rightarrow> nat \<Rightarrow> string \<Rightarrow> ((exn \<times> exn list) + http_response) \<times> connection list" where
  "send net policy n url =
     (case net_target net n url of None \<Rightarrow> (net_reply net n url, [])
      | Some (host, port) \<Rightarrow>
          (case connect_tcp net policy n host port of
             (Some e, opened) \<Rightarrow> (Inl (net_raised net n e), opened)
           | (None, opened) \<Rightarrow> (net_reply net n url, opened)))"

subsection \<open>The fetch\<close>

record fetch_result =
  fr_url :: string
  fr_final_url :: string
  fr_content_type :: "string option"
  fr_data :: string
  fr_sha256 :: string
  fr_redirects :: int
  fr_elapsed_ms :: int

definition precheck_ip_literal :: "string \<Rightarrow> exn option" where
  "precheck_ip_literal host = (case ip_address host of None \<Rightarrow> None | Some _ \<Rightarrow> check_address host)"

definition resolve_location :: "net \<Rightarrow> string \<Rightarrow> string \<Rightarrow> exn + string" where
  "resolve_location net current location =
     (case net_urljoin net current location of Inl e \<Rightarrow> Inl e | Inr absolute \<Rightarrow>
      case urlsplit absolute of Inl e \<Rightarrow> Inl e | Inr parts \<Rightarrow>
        if url_scheme parts \<notin> set HTTP_SCHEMES
        then Inl (SSRFError (''redirect to a blocked scheme: '' @ repr_str (url_scheme parts)))
        else Inr absolute)"

fun is_ssrf :: "exn \<Rightarrow> bool" where
  "is_ssrf (SSRFError msg) = True"
| "is_ssrf e = False"

text \<open>The handler around the request: only policy violations and errors of the client are turned into an answer.\<close>

definition send_failure :: "exn \<Rightarrow> exn list \<Rightarrow> exn" where
  "send_failure e chain =
     (case e of
        SSRFError msg \<Rightarrow> (case find is_ssrf chain of Some cause \<Rightarrow> cause | None \<Rightarrow> FetchError (''transport error: '' @ msg))
      | HTTPError msg \<Rightarrow> (case find is_ssrf chain of Some cause \<Rightarrow> cause | None \<Rightarrow> FetchError (''transport error: '' @ msg))
      | TimeoutException msg \<Rightarrow> (case find is_ssrf chain of Some cause \<Rightarrow> cause | None \<Rightarrow> FetchError (''timeout: '' @ msg))
      | _ \<Rightarrow> e)"

fun read_body :: "int \<Rightarrow> int \<Rightarrow> string list \<Rightarrow> exn option \<Rightarrow> exn + string list" where
  "read_body max_bytes seen [] broken = (case broken of None \<Rightarrow> Inr [] | Some e \<Rightarrow> Inl e)"
| "read_body max_bytes seen (chunk # rest) broken =
     (let seen1 = seen + int (length chunk) in
      if max_bytes < seen1 then Inl (FetchError (''response exceeds max_response_bytes ('' @ int_str max_bytes @ '')''))
      else case read_body max_bytes seen1 rest broken of Inl e \<Rightarrow> Inl e | Inr chunks \<Rightarrow> Inr (chunk # chunks))"

definition elapsed_ms :: "rat \<Rightarrow> rat \<Rightarrow> int" where
  "elapsed_ms now start = (let q = fl (fl (now - start) * 1000) in if q < 0 then - \<lfloor>- q\<rfloor> else \<lfloor>q\<rfloor>)"

definition finish_fetch :: "host \<Rightarrow> net \<Rightarrow> ssrf_policy \<Rightarrow> string \<Rightarrow> nat \<Rightarrow> http_response \<Rightarrow> exn + fetch_result" where
  "finish_fetch h net policy url n response =
     (if hr_status_code response \<noteq> 200 then Inl (FetchError (''non-200 status: '' @ int_str (hr_status_code response)))
      else case read_body (sp_max_response_bytes policy) 0 (hr_chunks response) (hr_broken response) of Inl e \<Rightarrow> Inl e
      | Inr chunks \<Rightarrow> Inr \<lparr>fr_url = url, fr_final_url = hr_url response, fr_content_type = hr_content_type response,
          fr_data = concat chunks, fr_sha256 = host_sha256 h (concat chunks), fr_redirects = int n,
          fr_elapsed_ms = elapsed_ms (net_clock net (n + 2)) (net_clock net 0)\<rparr>)"

text \<open>The request with number \<open>n\<close> is sent after \<open>n\<close> redirects.\<close>

function fetch_loop ::
  "host \<Rightarrow> net \<Rightarrow> ssrf_policy \<Rightarrow> string \<Rightarrow> string \<Rightarrow> nat \<Rightarrow> connection list \<Rightarrow> (exn + fetch_result) \<times> connection list" where
  "fetch_loop h net policy url current n opened =
     (case validate_url current of Inl e \<Rightarrow> (Inl e, opened) | Inr (host, port) \<Rightarrow>
      case (if allows_private policy host port then None else precheck_ip_literal host) of Some e \<Rightarrow> (Inl e, opened) | None \<Rightarrow>
      case net_build net current of Some e \<Rightarrow> (Inl e, opened) | None \<Rightarrow>
      if fl (fl (net_clock net 0 + sp_timeout_seconds policy) - net_clock net (n + 1)) \<le> 0
      then (Inl (FetchError ''time budget exhausted''), opened)
      else case send net policy n current of
        (Inl (e, chain), new) \<Rightarrow> (Inl (send_failure e chain), opened @ new)
      | (Inr response, new) \<Rightarrow>
          if 300 \<le> hr_status_code response \<and> hr_status_code response < 400 then
            (case hr_location response of None \<Rightarrow> (Inl (FetchError ''redirect without location''), opened @ new)
             | Some location \<Rightarrow>
                 if location = [] then (Inl (FetchError ''redirect without location''), opened @ new)
                 else if sp_max_redirects policy < int n + 1
                 then (Inl (SSRFError (''too many redirects ('' @ int_str (int n + 1) @ '' > ''
                         @ int_str (sp_max_redirects policy) @ '')'')), opened @ new)
                 else case resolve_location net current location of Inl e \<Rightarrow> (Inl e, opened @ new)
                   | Inr target \<Rightarrow> fetch_loop h net policy url target (Suc n) (opened @ new))
          else (finish_fetch h net policy url n response, opened @ new))"
  by pat_completeness auto

termination
  by (relation "measure (\<lambda>(h, net, policy, url, current, n, opened). nat (sp_max_redirects policy + 1) - n)") auto

declare fetch_loop.simps [simp del]

definition fetch :: "host \<Rightarrow> net \<Rightarrow> ssrf_policy \<Rightarrow> string \<Rightarrow> (exn + fetch_result) \<times> connection list" where
  "fetch h net policy url = fetch_loop h net policy url url 0 []"

subsection \<open>The gate of the service\<close>

definition mode_policy_of :: "host \<Rightarrow> json \<Rightarrow> exn + mode_policy" where
  "mode_policy_of h section =
     (case mode_from_section (host_frepr h) section of Inr p \<Rightarrow> Inr p
      | Inl (ModeError msg) \<Rightarrow> Inl (ConfigError (''invalid research_proxy section: '' @ msg))
      | Inl (SSRFError msg) \<Rightarrow> Inl (ConfigError (''invalid research_proxy section: '' @ msg))
      | Inl e \<Rightarrow> Inl e)"

definition reject :: "string \<Rightarrow> string \<Rightarrow> db \<Rightarrow> db" where
  "reject url reason d =
     record_event AE_RESEARCH_FETCH_REJECTED None (Some [(''url'', JStr url), (''reason'', JStr reason)])
       (Some ''research_proxy'') (Some (''egress refused: '' @ reason)) AV_OPERATOR d"

text \<open>The checks before the fetch: the policy of the section and, in \<open>open_lab\<close>, the closed list of domains.\<close>

definition admit_url :: "mode_policy \<Rightarrow> json \<Rightarrow> string \<Rightarrow> exn + ssrf_policy" where
  "admit_url mp section url =
     (case ssrf_from_section section of Inl e \<Rightarrow> Inl e | Inr policy \<Rightarrow>
      if mp_mode mp = RM_OPEN_LAB then
        (case validate_url url of Inl e \<Rightarrow> Inl e | Inr (host, port) \<Rightarrow>
         if domain_allowed mp host then Inr policy
         else Inl (SSRFError (''open_lab: domain '' @ repr_str host @ '' is not in the allowed list'')))
      else Inr policy)"

text \<open>
  One read runs under \<open>asyncio.timeout(FETCH_TOTAL_BUDGET_SECONDS)\<close>.  Whether and when the 90 seconds run out is an
  argument: in time; expired when \<open>k\<close> connections had been opened, whatever the read was doing; or expired after a
  refusal of the read was recorded, while the client was being closed.  The Russian text of \<open>read_budget_notice\<close>
  is an argument too.
\<close>

datatype read_time = In_budget | Expired nat | Expired_in_cleanup

record read_budget =
  rb_time :: read_time
  rb_notice :: string

definition BUDGET_REASON :: string where
  "BUDGET_REASON = ''read budget exceeded: 90 s''"

text \<open>\<open>_fetch_within_budget\<close> up to the fetched page.\<close>

definition fetch_within_budget ::
  "host \<Rightarrow> net \<Rightarrow> ssrf_policy \<Rightarrow> string \<Rightarrow> db \<Rightarrow> (exn + fetch_result) \<times> db \<times> connection list" where
  "fetch_within_budget h net policy url d =
     (case fetch h net policy url of
        (Inr page, opened) \<Rightarrow> (Inr page, d, opened)
      | (Inl (SSRFError msg), opened) \<Rightarrow> (Inl (ResearchProxyError msg ''rejected''), reject url msg d, opened)
      | (Inl (FetchError msg), opened) \<Rightarrow> (Inl (ResearchProxyError msg ''failed''), reject url msg d, opened)
      | (Inl e, opened) \<Rightarrow> (Inl e, d, opened))"

text \<open>\<open>ResearchProxyService.fetch\<close> up to the fetched page: its answer, the database and the connections it opened.\<close>

definition service_fetch ::
  "host \<Rightarrow> net \<Rightarrow> read_budget \<Rightarrow> json \<Rightarrow> string \<Rightarrow> db \<Rightarrow> (exn + fetch_result) \<times> db \<times> connection list" where
  "service_fetch h net budget section url d =
     (case mode_policy_of h section of Inl e \<Rightarrow> (Inl e, d, []) | Inr mp \<Rightarrow>
      if \<not> mp_egress mp
      then (Inl (ResearchProxyError ''sealed mode: no network egress'' ''rejected''), reject url ''sealed_mode_no_egress'' d, [])
      else case admit_url mp section url of
        Inl (SSRFError msg) \<Rightarrow> (Inl (ResearchProxyError msg ''rejected''), reject url msg d, [])
      | Inl e \<Rightarrow> (Inl e, d, [])
      | Inr policy \<Rightarrow>
          let (res, d1, opened) = fetch_within_budget h net policy url d;
              late = Inl (ResearchProxyError (rb_notice budget) ''failed'')
          in case rb_time budget of
               In_budget \<Rightarrow> (res, d1, opened)
             | Expired k \<Rightarrow> (late, reject url BUDGET_REASON d, take k opened)
             | Expired_in_cleanup \<Rightarrow> (late, reject url BUDGET_REASON d1, opened))"

subsection \<open>Where connections go\<close>

text \<open>
  A connection is guarded when it goes to the first of the addresses of its host, and each of those addresses passed
  the check or the operator listed the endpoint.
\<close>

definition guarded :: "net \<Rightarrow> ssrf_policy \<Rightarrow> connection \<Rightarrow> bool" where
  "guarded net policy c \<longleftrightarrow>
     (\<exists>n ips. target_ips net n (cn_host c) (cn_port c) = Inr (cn_address c # ips) \<and>
        (allows_private policy (cn_host c) (cn_port c) \<or> (\<forall>ip\<in>set (cn_address c # ips). check_address ip = None)))"

lemma check_addresses_None: "check_addresses ips = None \<longleftrightarrow> (\<forall>ip\<in>set ips. check_address ip = None)"
  by (induction ips) (auto split: option.splits)

lemma connect_tcp_guarded:
  assumes "connect_tcp net policy n host port = (r, opened)"
  shows "length opened \<le> 1 \<and> (\<forall>c\<in>set opened. guarded net policy c)"
proof (cases "target_ips net n host port")
  case (Inr ips)
  then show ?thesis using assms
    by (cases ips) (auto simp: connect_tcp_def guarded_def check_addresses_None split: option.splits if_splits, blast+)
qed (use assms in \<open>auto simp: connect_tcp_def\<close>)

lemma send_guarded:
  assumes "send net policy n url = (r, opened)"
  shows "length opened \<le> 1 \<and> (\<forall>c\<in>set opened. guarded net policy c)"
proof (cases "net_target net n url")
  case (Some target)
  obtain host port where "target = (host, port)" by (cases target)
  moreover obtain r' new where "connect_tcp net policy n host port = (r', new)" by fastforce
  ultimately show ?thesis using assms Some connect_tcp_guarded [of net policy n host port r' new]
    by (auto simp: send_def split: option.splits)
qed (use assms in \<open>auto simp: send_def\<close>)

text \<open>One turn of the loop ends the fetch or continues with the target of a redirect.\<close>

lemma fetch_turn:
  assumes "fetch_loop h net policy url current n opened = (res, tr)"
  obtains (stopped) new where "tr = opened @ new" "length new \<le> 1" "\<forall>c\<in>set new. guarded net policy c"
      "(\<exists>e. res = Inl e) \<or> (\<exists>response. res = finish_fetch h net policy url n response)"
    | (redirected) new target where "length new \<le> 1" "\<forall>c\<in>set new. guarded net policy c" "int n + 1 \<le> sp_max_redirects policy"
      "fetch_loop h net policy url target (Suc n) (opened @ new) = (res, tr)"
proof (cases "(\<exists>e. res = Inl e) \<and> tr = opened")
  case True
  then show thesis by (intro stopped [of "[]"]) auto
next
  case False
  obtain reply new where send: "send net policy n current = (reply, new)" by fastforce
  note new = send_guarded [OF send]
  show thesis
  proof (cases reply)
    case (Inl ee)
    then show thesis using assms send new False
      by (intro stopped [of new]) (auto simp: fetch_loop.simps [of h net policy url current] split: sum.splits option.splits if_splits prod.splits)
  next
    case (Inr response)
    show thesis
    proof (cases "\<exists>location target. hr_location response = Some location \<and> 300 \<le> hr_status_code response \<and>
        hr_status_code response < 400 \<and> \<not> sp_max_redirects policy < int n + 1 \<and> resolve_location net current location = Inr target \<and>
        fetch_loop h net policy url target (Suc n) (opened @ new) = (res, tr)")
      case True
      then show thesis using new redirected by auto
    next
      case no: False
      show thesis using assms send new False no Inr
        by (intro stopped [of new]) (auto simp: fetch_loop.simps [of h net policy url current] split: sum.splits option.splits if_splits prod.splits)
    qed
  qed
qed

lemma read_body_bounded:
  "read_body max_bytes seen chunks broken = Inr data \<Longrightarrow> seen \<le> max_bytes \<Longrightarrow> seen + int (length (concat data)) \<le> max_bytes"
proof (induction chunks arbitrary: seen data)
  case (Cons chunk rest)
  then show ?case by (fastforce simp: Let_def split: if_splits sum.splits)
qed (auto split: option.splits)

lemma finish_fetch_bounded:
  assumes "finish_fetch h net policy url n response = Inr page" "0 \<le> sp_max_response_bytes policy"
  shows "int (length (fr_data page)) \<le> sp_max_response_bytes policy \<and> fr_redirects page = int n \<and> fr_url page = url \<and>
    fr_sha256 page = host_sha256 h (fr_data page)"
proof -
  obtain data where "read_body (sp_max_response_bytes policy) 0 (hr_chunks response) (hr_broken response) = Inr data"
    "page = \<lparr>fr_url = url, fr_final_url = hr_url response, fr_content_type = hr_content_type response,
      fr_data = concat data, fr_sha256 = host_sha256 h (concat data), fr_redirects = int n,
      fr_elapsed_ms = elapsed_ms (net_clock net (n + 2)) (net_clock net 0)\<rparr>"
    using assms(1) by (auto simp: finish_fetch_def split: if_splits sum.splits)
  then show ?thesis using read_body_bounded [of "sp_max_response_bytes policy" 0] assms(2) by simp
qed

lemma fetch_loop_guarded:
  assumes "fetch_loop h net policy url current n opened = (res, tr)" "int n \<le> sp_max_redirects policy"
    "0 \<le> sp_max_response_bytes policy" "\<forall>c\<in>set opened. guarded net policy c" "length opened \<le> n"
  shows "(\<forall>c\<in>set tr. guarded net policy c) \<and> int (length tr) \<le> sp_max_redirects policy + 1 \<and>
    (\<forall>page. res = Inr page \<longrightarrow> int (length (fr_data page)) \<le> sp_max_response_bytes policy \<and> 0 \<le> fr_redirects page \<and>
       fr_redirects page \<le> sp_max_redirects policy \<and> fr_url page = url \<and> fr_sha256 page = host_sha256 h (fr_data page))"
  using assms
proof (induction "nat (sp_max_redirects policy) - n" arbitrary: n current opened rule: less_induct)
  case less
  from less.prems(1) show ?case
  proof (cases rule: fetch_turn)
    case (stopped new)
    have "length tr \<le> Suc n" using stopped(1,2) less.prems(5) by simp
    then have "int (length tr) \<le> sp_max_redirects policy + 1" using less.prems(2) by linarith
    moreover have "\<forall>c\<in>set tr. guarded net policy c" using stopped(1,3) less.prems(4) by auto
    ultimately show ?thesis using stopped(4) finish_fetch_bounded less.prems(2,3) by (metis Inl_Inr_False of_nat_0_le_iff)
  next
    case (redirected new target)
    have "nat (sp_max_redirects policy) - Suc n < nat (sp_max_redirects policy) - n" using redirected(3) by linarith
    then show ?thesis using less.hyps [OF _ redirected(4)] redirected(1,2,3) less.prems(3,4,5) by auto
  qed
qed

lemma or_raise_Inr: "or_raise e v = Inr x \<longleftrightarrow> v = Some x"
  by (auto simp: or_raise_def split: option.splits)

lemma int_in_Some: "int_in lo hi v = Some i \<Longrightarrow> lo \<le> i \<and> (case hi of None \<Rightarrow> True | Some m \<Rightarrow> i \<le> m)"
  by (auto simp: int_in_def split: json.splits if_splits)

lemma ssrf_from_section_bounds:
  assumes "ssrf_from_section section = Inr policy"
  shows "1 \<le> sp_max_response_bytes policy \<and> 0 \<le> sp_max_redirects policy \<and> sp_max_redirects policy \<le> 10"
proof -
  obtain d where d: "section = JObj d" using assms by (cases "section") (auto simp: ssrf_from_section_def)
  obtain b r where "int_in 1 None (dict_get d ''max_response_bytes'' (JInt 1048576)) = Some b"
    "int_in 0 (Some 10) (dict_get d ''max_redirects'' (JInt 3)) = Some r"
    "sp_max_response_bytes policy = b" "sp_max_redirects policy = r"
    using assms by (auto simp: d ssrf_from_section_def or_raise_Inr split: sum.splits)
  then show ?thesis using int_in_Some by fastforce
qed

text \<open>
  C22. A fetch under a policy read from the configuration ends, whatever the network does, and stays inside the policy:
  each connection it opened goes to the first of the addresses its host had, all of which passed the address check
  unless the operator listed the endpoint; there are at most eleven connections; and a page it returns is within
  the size limit, followed no more than the permitted redirects and carries the hash of its bytes.
\<close>

theorem fetch_stays_inside_the_policy:
  assumes "ssrf_from_section section = Inr policy" "fetch h net policy url = (res, opened)"
  shows "(\<forall>c\<in>set opened. guarded net policy c) \<and> int (length opened) \<le> sp_max_redirects policy + 1 \<and>
    sp_max_redirects policy \<le> 10 \<and>
    (\<forall>page. res = Inr page \<longrightarrow> int (length (fr_data page)) \<le> sp_max_response_bytes policy \<and> 0 \<le> fr_redirects page \<and>
       fr_redirects page \<le> sp_max_redirects policy \<and> fr_url page = url \<and> fr_sha256 page = host_sha256 h (fr_data page))"
  using fetch_loop_guarded [OF assms(2) [unfolded fetch_def]] ssrf_from_section_bounds [OF assms(1)] by simp

subsection \<open>The gate\<close>

lemma mode_from_section_Inr:
  assumes "mode_from_section f section = Inr mp"
  obtains kvs mode domains where "section = JObj kvs" "mode_of (dict_get kvs ''mode'' (JStr ''sealed'')) = Some mode"
    "nonempty_texts (dict_get kvs ''allowed_domains'' (JArr [])) = Some domains"
    "mp_mode mp = mode" "mp_egress mp \<longleftrightarrow> mode \<noteq> RM_SEALED"
    "mode = RM_CURATED \<longrightarrow> (\<exists>u host port. dict_get kvs ''searxng_url'' JNull = JStr u \<and> validate_url u = Inr (host, port))"
    "mode = RM_OPEN_LAB \<longrightarrow> domains \<noteq> []"
    "mp_allowed_domains mp = (if mode = RM_OPEN_LAB then domains else [])"
    "mp_rate_limit_max mp \<ge> 1" "1 \<le> mp_rate_limit_window_seconds mp"
proof -
  obtain kvs where kvs: "section = JObj kvs" using assms by (cases "section") (auto simp: mode_from_section_def)
  define s where "s = searxng_of (dict_get kvs ''searxng_url'' JNull)"
  obtain mode rate window searxng domains where m: "mode_of (dict_get kvs ''mode'' (JStr ''sealed'')) = Some mode"
    "int_in 1 None (dict_get kvs ''rate_limit_max'' (JInt 20)) = Some rate"
    "int_in 1 None (dict_get kvs ''rate_limit_window_seconds'' (JInt 3600)) = Some window" "s = Inr searxng"
    "nonempty_texts (dict_get kvs ''allowed_domains'' (JArr [])) = Some domains"
    "\<not> (mode = RM_CURATED \<and> searxng = None)" "\<not> (mode = RM_OPEN_LAB \<and> domains = [])"
    "mp = \<lparr>mp_mode = mode, mp_profile_name = MODE_PROFILES mode, mp_egress = (mode \<noteq> RM_SEALED),
           mp_searxng_url = (if mode = RM_CURATED then map_option fst searxng else None),
           mp_searxng_host = (if mode = RM_CURATED then map_option snd searxng else None),
           mp_allowed_domains = (if mode = RM_OPEN_LAB then domains else []),
           mp_rate_limit_max = rate, mp_rate_limit_window_seconds = window\<rparr>"
    using assms unfolding kvs s_def
    by (simp add: mode_from_section_def Let_def or_raise_Inr split: sum.splits if_split_asm)
  have "\<exists>u host port. dict_get kvs ''searxng_url'' JNull = JStr u \<and> validate_url u = Inr (host, port)" if "mode = RM_CURATED"
    using m(4,6) that unfolding s_def searxng_of_def by (auto split: json.splits sum.splits exn.splits prod.splits)
  then show thesis using that [OF kvs m(1,5)] m(7,8) int_in_Some [OF m(2)] int_in_Some [OF m(3)] by simp
qed

lemma mode_policy_of_Inr: "mode_policy_of h section = Inr mp \<longleftrightarrow> mode_from_section (host_frepr h) section = Inr mp"
  by (auto simp: mode_policy_of_def split: sum.splits exn.splits)

lemma fetch_within_budget_opened: "snd (snd (fetch_within_budget h net policy url d)) = snd (fetch h net policy url)"
  by (cases "fetch h net policy url") (simp add: fetch_within_budget_def split: sum.split exn.split)

lemma service_fetch_opened:
  assumes "service_fetch h net budget section url d = (res, d', opened)" "opened \<noteq> []"
  obtains mp policy out tr where "mode_from_section (host_frepr h) section = Inr mp" "mp_egress mp"
    "admit_url mp section url = Inr policy" "fetch h net policy url = (out, tr)" "set opened \<subseteq> set tr"
    "rb_time budget \<noteq> In_budget \<Longrightarrow> res = Inl (ResearchProxyError (rb_notice budget) ''failed'')"
proof -
  obtain mp where mp: "mode_policy_of h section = Inr mp"
    using assms by (cases "mode_policy_of h section") (auto simp: service_fetch_def)
  have egress: "mp_egress mp" using assms by (auto simp: service_fetch_def mp split: if_splits)
  obtain policy where policy: "admit_url mp section url = Inr policy"
    using assms by (cases "admit_url mp section url") (auto simp: service_fetch_def mp egress split: exn.splits)
  obtain out tr where f: "fetch h net policy url = (out, tr)" by fastforce
  obtain r d1 op where w: "fetch_within_budget h net policy url d = (r, d1, op)" by (metis prod_cases3)
  have op: "op = tr" using fetch_within_budget_opened [of h net policy url d] w f by simp
  have "set opened \<subseteq> set tr" "rb_time budget \<noteq> In_budget \<Longrightarrow> res = Inl (ResearchProxyError (rb_notice budget) ''failed'')"
    using assms(1) by (auto simp: service_fetch_def mp egress policy w op Let_def split: read_time.splits dest: in_set_takeD)
  then show thesis using that [of mp policy out tr] mp egress policy f by (simp add: mode_policy_of_Inr)
qed

lemma admit_url_Inr:
  "admit_url mp section url = Inr policy \<Longrightarrow> ssrf_from_section section = Inr policy \<and>
     (mp_mode mp = RM_OPEN_LAB \<longrightarrow> (\<exists>host port. validate_url url = Inr (host, port) \<and> domain_allowed mp host))"
  by (auto simp: admit_url_def split: sum.splits if_splits prod.splits)

text \<open>
  C23. The gate fails closed.  A call that opens a connection runs in the mode \<open>curated\<close> with a valid search URL or in
  \<open>open_lab\<close> with the host of its URL on the closed list, and each of its connections is guarded.  In the mode
  \<open>sealed\<close>, which is the default, a call opens nothing, is rejected and leaves exactly the refusal in the
  audit trail; with an invalid section it raises \<open>ConfigError\<close> and changes nothing.  A call that opened a
  connection and whose budget of 90 seconds ran out fails with the notice of the budget.
\<close>

theorem egress_needs_a_mode:
  assumes "service_fetch h net budget section url d = (res, d', opened)"
  shows "(opened \<noteq> [] \<longrightarrow> (\<exists>kvs policy. section = JObj kvs \<and> ssrf_from_section section = Inr policy \<and>
      (\<forall>c\<in>set opened. guarded net policy c) \<and>
      ((mode_of (dict_get kvs ''mode'' (JStr ''sealed'')) = Some RM_CURATED \<and>
          (\<exists>u host port. dict_get kvs ''searxng_url'' JNull = JStr u \<and> validate_url u = Inr (host, port))) \<or>
       (mode_of (dict_get kvs ''mode'' (JStr ''sealed'')) = Some RM_OPEN_LAB \<and>
          (\<exists>domains host port e. nonempty_texts (dict_get kvs ''allowed_domains'' (JArr [])) = Some domains \<and> e \<in> set domains \<and>
             validate_url url = Inr (host, port) \<and> (host = e \<or> suffix (''.'' @ e) host)))))) \<and>
    (\<forall>mp. mode_from_section (host_frepr h) section = Inr mp \<and> mp_mode mp = RM_SEALED \<longrightarrow>
      res = Inl (ResearchProxyError ''sealed mode: no network egress'' ''rejected'') \<and>
      d' = reject url ''sealed_mode_no_egress'' d \<and> opened = []) \<and>
    (\<forall>msg. mode_from_section (host_frepr h) section = Inl (ModeError msg) \<longrightarrow>
      res = Inl (ConfigError (''invalid research_proxy section: '' @ msg)) \<and> d' = d \<and> opened = []) \<and>
    (opened \<noteq> [] \<and> rb_time budget \<noteq> In_budget \<longrightarrow> res = Inl (ResearchProxyError (rb_notice budget) ''failed''))"
proof (intro conjI impI allI, goal_cases)
  case 1
  then obtain mp policy out tr where f: "mode_from_section (host_frepr h) section = Inr mp" "mp_egress mp"
    "admit_url mp section url = Inr policy" "fetch h net policy url = (out, tr)" "set opened \<subseteq> set tr"
    using service_fetch_opened [OF assms] by metis
  note a = admit_url_Inr [OF f(3)]
  have "\<forall>c\<in>set tr. guarded net policy c" using fetch_loop_guarded [OF f(4) [unfolded fetch_def]]
      ssrf_from_section_bounds [of "section" policy] a by simp
  then have g: "\<forall>c\<in>set opened. guarded net policy c" using f(5) by blast
  from f(1) obtain kvs mode domains where m: "section = JObj kvs" "mode_of (dict_get kvs ''mode'' (JStr ''sealed'')) = Some mode"
    "nonempty_texts (dict_get kvs ''allowed_domains'' (JArr [])) = Some domains" "mp_mode mp = mode" "mp_egress mp \<longleftrightarrow> mode \<noteq> RM_SEALED"
    "mode = RM_CURATED \<longrightarrow> (\<exists>u host port. dict_get kvs ''searxng_url'' JNull = JStr u \<and> validate_url u = Inr (host, port))"
    "mp_allowed_domains mp = (if mode = RM_OPEN_LAB then domains else [])"
    by (rule mode_from_section_Inr)
  show ?case
  proof (cases mode)
    case RM_CURATED
    then show ?thesis using m a g by auto
  next
    case RM_OPEN_LAB
    then obtain host port where "validate_url url = Inr (host, port)" "domain_allowed mp host" using a m(4) by auto
    then show ?thesis using m a g RM_OPEN_LAB by (auto simp: domain_allowed_def list_ex_iff)
  qed (use m(5) f(2) in simp)
next
  case (2 mp)
  then have "\<not> mp_egress mp" by (metis mode_from_section_Inr)
  then show ?case using assms 2 by (simp add: service_fetch_def mode_policy_of_Inr [THEN iffD2])
next
  case (3 mp)
  then have "\<not> mp_egress mp" by (metis mode_from_section_Inr)
  then show ?case using assms 3 by (simp add: service_fetch_def mode_policy_of_Inr [THEN iffD2])
next
  case (4 mp)
  then have "\<not> mp_egress mp" by (metis mode_from_section_Inr)
  then show ?case using assms 4 by (simp add: service_fetch_def mode_policy_of_Inr [THEN iffD2])
next
  case 8
  then show ?case using service_fetch_opened [OF assms] by metis
qed (use assms in \<open>auto simp: service_fetch_def mode_policy_of_def\<close>)

subsection \<open>Redirects and the closed list\<close>

text \<open>
  A server that answers the first request with a redirect to \<open>target\<close> and the second with a page.  Names resolve to
  \<open>ip\<close>, and the client connects to the host of the URL.
\<close>

definition reply :: "int \<Rightarrow> string option \<Rightarrow> string \<Rightarrow> http_response" where
  "reply status location u =
     \<lparr>hr_status_code = status, hr_location = location, hr_content_type = None, hr_chunks = [''page''], hr_broken = None, hr_url = u\<rparr>"

definition redirecting :: "string \<Rightarrow> string \<Rightarrow> net" where
  "redirecting target ip =
     \<lparr>net_getaddrinfo = (\<lambda>n host port. Inr [ip]), net_connect = (\<lambda>n address port. None), net_build = (\<lambda>u. None),
      net_target = (\<lambda>n u. case validate_url u of Inl _ \<Rightarrow> None | Inr hp \<Rightarrow> Some hp), net_raised = (\<lambda>n e. (e, [])),
      net_reply = (\<lambda>n u. Inr (if n = 0 then reply 302 (Some target) u else reply 200 None u)),
      net_urljoin = (\<lambda>current location. Inr location), net_clock = (\<lambda>n. 0)\<rparr>"

lemma redirecting_send:
  assumes "validate_url u = Inr (host, port)" "ip_address host = None" "check_address ip = None"
  shows "send (redirecting target ip) policy n u =
    (Inr (if n = 0 then reply 302 (Some target) u else reply 200 None u), [\<lparr>cn_host = host, cn_port = port, cn_address = ip\<rparr>])"
  using assms by (simp add: send_def connect_tcp_def target_ips_def redirecting_def)

text \<open>
  C34. The closed list of \<open>open_lab\<close> holds for the first URL only.  Whatever host a redirect names, on the list or not,
  the fetch follows it, connects to it and returns its page, as long as the host resolves to an accepted
  address and the read stays within its budget.
\<close>

theorem open_lab_redirect_leaves_the_list:
  assumes "mode_from_section (host_frepr h) section = Inr mp" "mp_mode mp = RM_OPEN_LAB"
    "admit_url mp section url = Inr policy" "1 \<le> sp_max_redirects policy" "1 \<le> sp_timeout_seconds policy" "4 \<le> sp_max_response_bytes policy"
    "validate_url url = Inr (first, port)" "ip_address first = None" "check_address ip = None"
    "validate_url target = Inr (host, port')" "ip_address host = None" "\<not> domain_allowed mp host"
    "rb_time budget = In_budget"
  shows "\<exists>page opened. service_fetch h (redirecting target ip) budget section url d = (Inr page, d, opened) \<and>
    fr_final_url page = target \<and> fr_data page = ''page'' \<and> (\<exists>c\<in>set opened. cn_host c = host \<and> \<not> domain_allowed mp (cn_host c))"
proof -
  let ?net = "redirecting target ip"
  let ?c1 = "\<lparr>cn_host = first, cn_port = port, cn_address = ip\<rparr>" and ?c2 = "\<lparr>cn_host = host, cn_port = port', cn_address = ip\<rparr>"
  have "mp_egress mp" using assms(1,2) by (metis mode_from_section_Inr research_mode.distinct(4))
  have time: "\<not> fl (fl (0 + sp_timeout_seconds policy) - 0) \<le> 0" using fl_mono [OF assms(5)] by simp
  have pre: "precheck_ip_literal first = None" "precheck_ip_literal host = None" by (simp_all add: precheck_ip_literal_def assms)
  have net: "net_build ?net u = None" "net_clock ?net k = 0" "net_urljoin ?net u v = Inr v" for u v k by (simp_all add: redirecting_def)
  have "target \<noteq> []" using assms(10) by (auto simp: validate_url_def)
  moreover have "resolve_location ?net url target = Inr target"
    using assms(10) by (auto simp: resolve_location_def net validate_url_def split: sum.splits if_splits)
  moreover have "\<not> sp_max_redirects policy < 1" using assms(4) by simp
  ultimately have step: "fetch h ?net policy url = fetch_loop h ?net policy url target 1 [?c1]"
    using time unfolding fetch_def
    by (subst fetch_loop.simps) (simp add: assms(7) pre net redirecting_send [OF assms(7,8,9)] reply_def)
  obtain page where page: "finish_fetch h ?net policy url 1 (reply 200 None target) = Inr page" "fr_final_url page = target" "fr_data page = ''page''"
    using assms(6) by (auto simp: finish_fetch_def reply_def)
  have "fetch_loop h ?net policy url target 1 [?c1] = (Inr page, [?c1, ?c2])"
    using time page(1) by (subst fetch_loop.simps) (simp add: assms(10) pre net redirecting_send [OF assms(10,11,9)] reply_def)
  then have "service_fetch h ?net budget section url d = (Inr page, d, [?c1, ?c2])"
    using step assms(1,3,13) \<open>mp_egress mp\<close> by (simp add: service_fetch_def fetch_within_budget_def mode_policy_of_Inr [THEN iffD2])
  then show ?thesis using page(2,3) assms(12) by auto
qed

subsection \<open>An example\<close>

definition in_time :: read_budget where
  "in_time = \<lparr>rb_time = In_budget, rb_notice = []\<rparr>"

definition lab_section :: json where
  "lab_section = JObj [(''mode'', JStr ''open_lab''), (''allowed_domains'', JArr [JStr ''example.org''])]"

definition lab_policy :: ssrf_policy where
  "lab_policy = \<lparr>sp_max_response_bytes = 1048576, sp_max_redirects = 3, sp_timeout_seconds = 10,
     sp_user_agent = ''noezema-research-proxy/1.0'', sp_private_allowlist = []\<rparr>"

definition lab_mode :: mode_policy where
  "lab_mode = \<lparr>mp_mode = RM_OPEN_LAB, mp_profile_name = ''open_lab'', mp_egress = True, mp_searxng_url = None,
     mp_searxng_host = None, mp_allowed_domains = [''example.org''], mp_rate_limit_max = 20, mp_rate_limit_window_seconds = 3600\<rparr>"

definition plain_host :: host where
  "plain_host = \<lparr>host_frepr = (\<lambda>q. ''0.5''), host_sha256 = (\<lambda>s. s)\<rparr>"

lemma lab_urls:
  "validate_url ''http://example.org/'' = Inr (''example.org'', 80)"
  "validate_url ''http://evil.example.net/x'' = Inr (''evil.example.net'', 80)"
  "ip_address ''example.org'' = None" "ip_address ''evil.example.net'' = None"
  by code_simp+

lemma lab_address: "check_address (dotted 93 184 216 34) = None"
  using accepted_address [of 93 184 216 34] by (simp add: unblocked_v4_def)

lemma lab_config:
  "mode_from_section (host_frepr plain_host) lab_section = Inr lab_mode" "ssrf_from_section lab_section = Inr lab_policy"
  "domain_allowed lab_mode ''example.org''" "\<not> domain_allowed lab_mode ''evil.example.net''"
  "admit_url lab_mode lab_section ''http://example.org/'' = Inr lab_policy"
  by code_simp+

theorem open_lab_redirect_leaves_the_list_witness:
  "\<exists>page opened. service_fetch plain_host (redirecting ''http://evil.example.net/x'' (dotted 93 184 216 34)) in_time lab_section
      ''http://example.org/'' empty_db = (Inr page, empty_db, opened) \<and>
    fr_final_url page = ''http://evil.example.net/x'' \<and> fr_data page = ''page'' \<and>
    (\<exists>c\<in>set opened. cn_host c = ''evil.example.net'' \<and> \<not> domain_allowed lab_mode (cn_host c))"
  by (rule open_lab_redirect_leaves_the_list [OF lab_config(1) _ lab_config(5) _ _ _ lab_urls(1,3) lab_address lab_urls(2,4) lab_config(4)])
    (simp_all add: lab_mode_def lab_policy_def in_time_def)

abbreviation lab_net :: net where
  "lab_net \<equiv> redirecting ''http://evil.example.net/x'' (dotted 93 184 216 34)"

theorem fetch_stays_inside_the_policy_witness:
  "list_all (guarded lab_net lab_policy) (snd (fetch plain_host lab_net lab_policy ''http://example.org/'')) \<and>
   length (snd (fetch plain_host lab_net lab_policy ''http://example.org/'')) \<le> 4"
proof -
  have "fetch plain_host lab_net lab_policy ''http://example.org/'' =
      (fst (fetch plain_host lab_net lab_policy ''http://example.org/''), snd (fetch plain_host lab_net lab_policy ''http://example.org/''))"
    by simp
  from fetch_stays_inside_the_policy [OF lab_config(2) this] show ?thesis by (simp add: list_all_iff lab_policy_def)
qed

definition sealed_mode :: mode_policy where
  "sealed_mode = \<lparr>mp_mode = RM_SEALED, mp_profile_name = ''sealed'', mp_egress = False, mp_searxng_url = None,
     mp_searxng_host = None, mp_allowed_domains = [], mp_rate_limit_max = 20, mp_rate_limit_window_seconds = 3600\<rparr>"

theorem egress_needs_a_mode_witness:
  "service_fetch plain_host lab_net in_time (JObj []) ''http://example.org/'' empty_db =
    (Inl (ResearchProxyError ''sealed mode: no network egress'' ''rejected''),
     reject ''http://example.org/'' ''sealed_mode_no_egress'' empty_db, [])"
proof -
  have "mode_from_section (host_frepr plain_host) (JObj []) = Inr sealed_mode" "mp_mode sealed_mode = RM_SEALED" by code_simp+
  then show ?thesis
    using egress_needs_a_mode [of plain_host lab_net in_time "JObj []" "''http://example.org/''" empty_db]
    by (cases "service_fetch plain_host lab_net in_time (JObj []) ''http://example.org/'' empty_db") blast
qed

end
