(* ===== verification/UpstreamSearch.thy ===== *)
theory UpstreamSearch
  imports ProxyFetch
begin

section \<open>The upstream search of the curated mode\<close>

text \<open>
  \<open>apps/research_proxy/search.py\<close> and \<open>ResearchProxyService._search_upstream\<close>: the request to the search engine goes
  through the guarded fetch, its rate is limited by counting the audit events of the last window, and each request
  is journaled.  \<open>json.loads\<close> and the text of the refusal (Russian prose) are parameters.  The call is two
  transactions with the fetch between them; \<open>t\<close> is the time of the second.
\<close>

record upstream_hit =
  uh_url :: string
  uh_title :: string
  uh_content :: string

definition text_or_empty :: "json \<Rightarrow> string" where
  "text_or_empty v = (case v of JStr s \<Rightarrow> s | _ \<Rightarrow> [])"

definition parse_item :: "json \<Rightarrow> upstream_hit option" where
  "parse_item item =
     (case item of JObj kvs \<Rightarrow>
        (case dict_get kvs ''url'' JNull of JStr url \<Rightarrow>
           if prefix ''http://'' url \<or> prefix ''https://'' url
           then Some \<lparr>uh_url = url, uh_title = text_or_empty (dict_get kvs ''title'' JNull),
                  uh_content = text_or_empty (dict_get kvs ''content'' JNull)\<rparr>
           else None
         | _ \<Rightarrow> None)
      | _ \<Rightarrow> None)"

definition parse_searxng :: "json \<Rightarrow> upstream_hit list" where
  "parse_searxng payload =
     (case payload of JObj kvs \<Rightarrow>
        (case dict_get kvs ''results'' JNull of JArr items \<Rightarrow> List.map_filter parse_item items | _ \<Rightarrow> [])
      | _ \<Rightarrow> [])"

text \<open>\<open>quote\<close>: the unreserved characters and the slash stay, every other byte of the UTF-8 text is escaped.\<close>

definition hex_upper :: "nat \<Rightarrow> char" where
  "hex_upper n = (''0123456789ABCDEF'' ! (n mod 16))"

definition escape_byte :: "nat \<Rightarrow> string" where
  "escape_byte n = [CHR ''%'', hex_upper (n div 16), hex_upper n]"

definition quote_char :: "char \<Rightarrow> string" where
  "quote_char c =
     (let n = of_char c :: nat in
      if ascii_letter c \<or> is_ascii_digit c \<or> c \<in> set ''_.-~/'' then [c]
      else if n < 128 then escape_byte n
      else escape_byte (192 + n div 64) @ escape_byte (128 + n mod 64))"

definition quote :: "string \<Rightarrow> string" where
  "quote s = concat (map quote_char s)"

definition upstream_request_url :: "string \<Rightarrow> string \<Rightarrow> string" where
  "upstream_request_url searxng_url query = rstrip_slash searxng_url @ ''/search?format=json&q='' @ quote query"

record upstream_window =
  uw_requests :: int
  uw_oldest :: "instant option"
  uw_now :: instant
  uw_window_seconds :: int

definition in_window :: "int \<Rightarrow> instant \<Rightarrow> audit_event_row \<Rightarrow> bool" where
  "in_window window_seconds now e \<longleftrightarrow>
     ev_type e = AE_RESEARCH_UPSTREAM_REQUEST \<and> now - window_seconds * 1000000 < ev_occurred_at e"

definition upstream_window_state :: "db \<Rightarrow> int \<Rightarrow> upstream_window" where
  "upstream_window_state d window_seconds =
     (let rows = filter (in_window window_seconds (db_now d)) (db_events d)
      in \<lparr>uw_requests = int (length rows), uw_oldest = (if rows = [] then None else Some (Min (ev_occurred_at ` set rows))),
          uw_now = db_now d, uw_window_seconds = window_seconds\<rparr>)"

definition count_upstream_requests :: "db \<Rightarrow> int \<Rightarrow> int" where
  "count_upstream_requests d window_seconds = uw_requests (upstream_window_state d window_seconds)"

definition minutes_until_release :: "upstream_window \<Rightarrow> int option" where
  "minutes_until_release window =
     (case uw_oldest window of None \<Rightarrow> None
      | Some oldest \<Rightarrow>
          let remaining = fl (of_int (oldest + uw_window_seconds window * 1000000 - uw_now window) / 1000000)
          in if remaining \<le> 0 then Some 0 else Some \<lceil>fl (remaining / 60)\<rceil>)"

type_synonym notice = "upstream_window \<Rightarrow> int \<Rightarrow> string"

text \<open>The first transaction: the policy of the section and the limit.\<close>

definition upstream_admit :: "notice \<Rightarrow> mode_policy \<Rightarrow> string \<Rightarrow> json \<Rightarrow> string \<Rightarrow> db \<Rightarrow> (exn + ssrf_policy) \<times> db" where
  "upstream_admit notice mp searxng_url section query d =
     (case ssrf_from_section section of Inl e \<Rightarrow> (Inl e, d) | Inr policy \<Rightarrow>
      let window = upstream_window_state d (mp_rate_limit_window_seconds mp) in
      if mp_rate_limit_max mp \<le> uw_requests window then
        (Inl (ResearchProxyError (notice window (mp_rate_limit_max mp)) ''rate_limited''),
         record_event AE_RESEARCH_FETCH_REJECTED None
           (Some [(''url'', JStr (upstream_request_url searxng_url query)), (''reason'', JStr ''upstream_rate_limit_exceeded''),
              (''mode'', JStr (research_mode_value (mp_mode mp))), (''window_seconds'', JInt (mp_rate_limit_window_seconds mp))])
           (Some ''research_proxy'') (Some ''egress refused: upstream rate limit'') AV_OPERATOR d)
      else (Inr policy, d))"

definition host_json :: "mode_policy \<Rightarrow> json" where
  "host_json mp = (case mp_searxng_host mp of None \<Rightarrow> JNull | Some s \<Rightarrow> JStr s)"

definition log_failed :: "mode_policy \<Rightarrow> string \<Rightarrow> exn \<Rightarrow> db \<Rightarrow> db" where
  "log_failed mp query e d =
     record_event AE_RESEARCH_UPSTREAM_REQUEST None
       (Some [(''upstream_host'', host_json mp), (''query'', JStr query), (''mode'', JStr (research_mode_value (mp_mode mp))),
          (''status'', JStr ''failed''), (''error'', JStr (exn_text e))])
       (Some ''research_proxy'') (Some ''upstream request failed (logged)'') AV_OPERATOR d"

definition log_ok :: "mode_policy \<Rightarrow> string \<Rightarrow> upstream_hit list \<Rightarrow> db \<Rightarrow> db" where
  "log_ok mp query hits d =
     record_event AE_RESEARCH_UPSTREAM_REQUEST None
       (Some [(''upstream_host'', host_json mp), (''query'', JStr query), (''mode'', JStr (research_mode_value (mp_mode mp))),
          (''status'', JStr ''ok''), (''results'', JInt (int (length hits)))])
       (Some ''research_proxy'')
       (Some (''upstream search via '' @ (case mp_searxng_host mp of None \<Rightarrow> ''None'' | Some s \<Rightarrow> s) @ '' (logged)'')) AV_OPERATOR d"

fun is_handled :: "exn \<Rightarrow> bool" where
  "is_handled (SSRFError msg) = True"
| "is_handled (FetchError msg) = True"
| "is_handled (ValueError msg) = True"
| "is_handled e = False"

definition search_upstream ::
  "host \<Rightarrow> net \<Rightarrow> (string \<Rightarrow> exn + json) \<Rightarrow> notice \<Rightarrow> mode_policy \<Rightarrow> json \<Rightarrow> string \<Rightarrow> instant \<Rightarrow> db \<Rightarrow>
   (exn + upstream_hit list) \<times> db \<times> connection list" where
  "search_upstream h net loads notice mp section query t d =
     (case mp_searxng_url mp of None \<Rightarrow> (Inl (AssertionError []), d, []) | Some searxng_url \<Rightarrow>
      case upstream_admit notice mp searxng_url section query d of (Inl e, d1) \<Rightarrow> (Inl e, d1, [])
      | (Inr policy, d1) \<Rightarrow>
          let (out, opened) = fetch h net policy (upstream_request_url searxng_url query);
              result = (case out of Inl e \<Rightarrow> Inl e | Inr page \<Rightarrow> loads (fr_data page));
              d2 = d1\<lparr>db_now := t\<rparr>
          in case result of
               Inl e \<Rightarrow> if is_handled e
                 then (Inl (ResearchProxyError (''upstream request failed: '' @ exn_text e) ''failed''), log_failed mp query e d2, opened)
                 else (Inl e, d2, opened)
             | Inr payload \<Rightarrow> (Inr (parse_searxng payload), log_ok mp query (parse_searxng payload) d2, opened))"

text \<open>\<open>search\<close> asks upstream only in the curated mode with a configured engine.\<close>

definition asks_upstream :: "mode_policy \<Rightarrow> bool" where
  "asks_upstream mp \<longleftrightarrow> mp_mode mp = RM_CURATED \<and> mp_searxng_url mp \<noteq> None \<and> mp_searxng_url mp \<noteq> Some []"

subsection \<open>The rate\<close>

text \<open>
  The answer of the engine to a search is handled when it is a page that parses, or fails with one of the errors the
  search catches.
\<close>

definition answer_handled :: "host \<Rightarrow> net \<Rightarrow> (string \<Rightarrow> exn + json) \<Rightarrow> mode_policy \<Rightarrow> json \<Rightarrow> string \<Rightarrow> bool" where
  "answer_handled h net loads mp section query =
     (case (mp_searxng_url mp, ssrf_from_section section) of
        (Some u, Inr policy) \<Rightarrow>
          (case fst (fetch h net policy (upstream_request_url u query)) of
             Inl e \<Rightarrow> is_handled e
           | Inr page \<Rightarrow> (case loads (fr_data page) of Inl e \<Rightarrow> is_handled e | Inr _ \<Rightarrow> True))
      | _ \<Rightarrow> True)"

text \<open>
  The databases a proxy that searches one request at a time can reach: time passes, searches are answered, and other
  parts of the node record events of other types.  The list holds the times of the searches that opened a connection
  and whose answer was handled; it is kept by the observer, not by the code.
\<close>

inductive searching :: "mode_policy \<Rightarrow> instant list \<Rightarrow> db \<Rightarrow> bool" for mp where
  idle: "db_events d = [] \<Longrightarrow> searching mp [] d"
| tick: "searching mp sent d \<Longrightarrow> db_now d \<le> t \<Longrightarrow> searching mp sent (d\<lparr>db_now := t\<rparr>)"
| search: "searching mp sent d \<Longrightarrow> db_now d \<le> t \<Longrightarrow>
    search_upstream h net loads notice mp section query t d = (r, d', opened) \<Longrightarrow>
    searching mp (if opened \<noteq> [] \<and> answer_handled h net loads mp section query then sent @ [t] else sent) d'"
| other: "searching mp sent d \<Longrightarrow> ty \<noteq> AE_RESEARCH_UPSTREAM_REQUEST \<Longrightarrow>
    searching mp sent (record_event ty sid payload actor summary vis d)"

definition within_rate :: "mode_policy \<Rightarrow> db \<Rightarrow> bool" where
  "within_rate mp d \<longleftrightarrow> (\<forall>e\<in>set (db_events d). ev_occurred_at e \<le> db_now d) \<and>
     count_upstream_requests d (mp_rate_limit_window_seconds mp) \<le> mp_rate_limit_max mp"

lemma count_alt: "count_upstream_requests d w = int (length (filter (in_window w (db_now d)) (db_events d)))"
  by (simp add: count_upstream_requests_def upstream_window_state_def Let_def)

lemma filter_length_mono: "(\<And>x. x \<in> set xs \<Longrightarrow> P x \<Longrightarrow> Q x) \<Longrightarrow> length (filter P xs) \<le> length (filter Q xs)"
  by (induction xs) auto

lemma count_tick: "db_now d \<le> t \<Longrightarrow> count_upstream_requests (d\<lparr>db_now := t\<rparr>) w \<le> count_upstream_requests d w"
  by (auto simp: count_alt in_window_def intro!: filter_length_mono)

lemma count_event:
  "count_upstream_requests (record_event ty sid payload actor summary vis d) w \<le>
     count_upstream_requests d w + (if ty = AE_RESEARCH_UPSTREAM_REQUEST then 1 else 0)"
  by (simp add: count_alt db_events_record_event make_event_def in_window_def)

lemma events_event:
  "\<forall>e\<in>set (db_events d). ev_occurred_at e \<le> db_now d \<Longrightarrow>
   \<forall>e\<in>set (db_events (record_event ty sid payload actor summary vis d)). ev_occurred_at e \<le> db_now d"
  by (simp add: db_events_record_event make_event_def)

text \<open>What a search leaves behind: a refusal, or at most one journal entry under the limit.\<close>

lemma search_upstream_effect:
  assumes "search_upstream h net loads notice mp section query t d = (r, d', opened)"
  obtains (unchanged) "d' = d" "opened = []"
    | (refused) payload summary where "d' = record_event AE_RESEARCH_FETCH_REJECTED None payload (Some ''research_proxy'') summary AV_OPERATOR d" "opened = []"
    | (unlogged) e where "d' = d\<lparr>db_now := t\<rparr>" "r = Inl e" "\<not> is_handled e"
        "\<not> answer_handled h net loads mp section query" "count_upstream_requests d (mp_rate_limit_window_seconds mp) < mp_rate_limit_max mp"
    | (logged) payload summary where "d' = record_event AE_RESEARCH_UPSTREAM_REQUEST None payload (Some ''research_proxy'') summary AV_OPERATOR (d\<lparr>db_now := t\<rparr>)"
        "count_upstream_requests d (mp_rate_limit_window_seconds mp) < mp_rate_limit_max mp"
proof (cases "mp_searxng_url mp")
  case None
  then have "d' = d" "opened = []" using assms by (simp_all add: search_upstream_def)
  then show thesis by (rule unchanged)
next
  case (Some u)
  obtain a d1 where a: "upstream_admit notice mp u section query d = (a, d1)" by fastforce
  show thesis
  proof (cases a)
    case (Inl e)
    then have d': "d' = d1" "opened = []" using assms Some a by (simp_all add: search_upstream_def)
    show thesis
    proof (cases "d1 = d")
      case True
      then show thesis using unchanged d' by blast
    next
      case False
      then show thesis using refused d' a Inl by (auto simp: upstream_admit_def Let_def split: sum.splits if_splits)
    qed
  next
    case (Inr policy)
    then have d1: "d1 = d" "count_upstream_requests d (mp_rate_limit_window_seconds mp) < mp_rate_limit_max mp"
      using a by (auto simp: upstream_admit_def count_upstream_requests_def Let_def split: sum.splits if_splits)
    obtain out new where f: "fetch h net policy (upstream_request_url u query) = (out, new)" by fastforce
    define result where "result = (case out of Inl e \<Rightarrow> Inl e | Inr page \<Rightarrow> loads (fr_data page))"
    show thesis
    proof (cases result)
      case res: (Inl e)
      have pol: "ssrf_from_section section = Inr policy"
        using a Inr by (auto simp: upstream_admit_def Let_def split: sum.splits if_splits)
      have "answer_handled h net loads mp section query = is_handled e"
        using res by (auto simp: answer_handled_def Some pol f result_def split: sum.splits)
      then show thesis using assms d1 unlogged logged res
        by (auto simp: search_upstream_def Some a Inr f Let_def log_failed_def simp flip: result_def split: if_splits)
    next
      case res: (Inr payload)
      then show thesis using assms d1 logged
        by (auto simp: search_upstream_def Some a Inr f Let_def log_ok_def simp flip: result_def)
    qed
  qed
qed

lemma within_rate_tick: "within_rate mp d \<Longrightarrow> db_now d \<le> t \<Longrightarrow> within_rate mp (d\<lparr>db_now := t\<rparr>)"
  using count_tick [of d t "mp_rate_limit_window_seconds mp"] by (fastforce simp: within_rate_def)

lemma within_rate_event:
  "within_rate mp d \<Longrightarrow> ty \<noteq> AE_RESEARCH_UPSTREAM_REQUEST \<Longrightarrow> within_rate mp (record_event ty sid payload actor summary vis d)"
  using count_event [of ty sid payload actor summary vis d "mp_rate_limit_window_seconds mp"] events_event [of d ty sid payload actor summary vis]
  by (simp add: within_rate_def)

lemma within_rate_search:
  assumes "within_rate mp d" "db_now d \<le> t" "search_upstream h net loads notice mp section query t d = (r, d', opened)"
  shows "within_rate mp d'"
  using assms(3)
proof (cases rule: search_upstream_effect)
  case (logged payload summary)
  let ?d = "d\<lparr>db_now := t\<rparr>"
  have "within_rate mp ?d" using within_rate_tick assms by blast
  moreover have "count_upstream_requests ?d (mp_rate_limit_window_seconds mp) < mp_rate_limit_max mp"
    using count_tick [OF assms(2)] logged(2) by (meson order.strict_trans1)
  ultimately show ?thesis unfolding logged(1)
    using count_event [of AE_RESEARCH_UPSTREAM_REQUEST None payload "Some ''research_proxy''" summary AV_OPERATOR ?d "mp_rate_limit_window_seconds mp"]
      events_event [of ?d AE_RESEARCH_UPSTREAM_REQUEST None payload "Some ''research_proxy''" summary AV_OPERATOR]
    by (simp add: within_rate_def)
qed (use assms within_rate_event within_rate_tick in auto)

text \<open>The times of the journaled requests.\<close>

definition journal_times :: "db \<Rightarrow> instant list" where
  "journal_times d = map ev_occurred_at (filter (\<lambda>e. ev_type e = AE_RESEARCH_UPSTREAM_REQUEST) (db_events d))"

lemma journal_times_event:
  "journal_times (record_event ty sid payload actor summary vis d) =
     journal_times d @ (if ty = AE_RESEARCH_UPSTREAM_REQUEST then [db_now d] else [])"
  by (simp add: journal_times_def db_events_record_event make_event_def)

lemma journal_times_count:
  "count_upstream_requests d w = int (length (filter (\<lambda>t. db_now d - w * 1000000 < t) (journal_times d)))"
  unfolding count_alt journal_times_def filter_map length_map filter_filter
  by (rule arg_cong [of _ _ int], rule arg_cong [of _ _ length], rule filter_cong) (auto simp: in_window_def)

lemma subseq_filter_length: "subseq xs ys \<Longrightarrow> length (filter P xs) \<le> length (filter P ys)"
  by (meson list_emb_length subseq_filter)

text \<open>
  C33. While searches run one after the other, every search that contacted the engine and whose answer was handled is
  in the journal with its time, and neither these searches nor the journaled requests of the last window are more than
  the permitted number, whatever the engine answers and however much time passes between them.  An answer that is not
  handled, which the code lets escape, is outside the count.
\<close>

theorem upstream_rate_is_bounded:
  assumes "searching mp sent d" "1 \<le> mp_rate_limit_max mp"
  shows "subseq sent (journal_times d)
    \<and> int (length (filter (\<lambda>t. db_now d - mp_rate_limit_window_seconds mp * 1000000 < t) sent)) \<le> mp_rate_limit_max mp
    \<and> count_upstream_requests d (mp_rate_limit_window_seconds mp) \<le> mp_rate_limit_max mp"
proof -
  have w: "within_rate mp d \<and> subseq sent (journal_times d)" using assms
  proof (induction rule: searching.induct)
    case (idle d)
    then show ?case by (simp add: within_rate_def count_alt journal_times_def)
  next
    case (tick sent d t)
    then show ?case by (simp add: within_rate_tick journal_times_def)
  next
    case (search sent d t h net loads notice "section" query r d' opened)
    then have "within_rate mp d'" using within_rate_search by blast
    moreover have "subseq (if opened \<noteq> [] \<and> answer_handled h net loads mp section query then sent @ [t] else sent) (journal_times d')"
      using search(3)
    proof (cases rule: search_upstream_effect)
      case unchanged
      then show ?thesis using search by simp
    next
      case (refused payload summary)
      then show ?thesis using search by (simp add: journal_times_event)
    next
      case (unlogged e)
      then show ?thesis using search by (simp add: journal_times_def)
    next
      case (logged payload summary)
      have "journal_times d' = journal_times d @ [t]" by (simp add: logged(1) journal_times_event) (simp add: journal_times_def)
      moreover have "subseq sent (journal_times d @ [t])"
        using search(4) assms(2) subseq_order.trans [OF _ subseq_rev_drop_many [of "journal_times d" "journal_times d" "[t]"]] by (auto simp: search)
      ultimately show ?thesis using search by simp
    qed
    ultimately show ?case by blast
  next
    case (other sent d ty sid payload actor summary vis)
    then show ?case by (simp add: within_rate_event journal_times_event)
  qed
  then have "count_upstream_requests d (mp_rate_limit_window_seconds mp) \<le> mp_rate_limit_max mp" by (simp add: within_rate_def)
  then show ?thesis
    using w subseq_filter_length [of sent "journal_times d" "\<lambda>t. db_now d - mp_rate_limit_window_seconds mp * 1000000 < t"]
    by (simp add: journal_times_count)
qed

definition curated_section :: json where
  "curated_section = JObj [(''mode'', JStr ''curated''), (''searxng_url'', JStr ''http://search.example.org'')]"

definition curated_mode :: mode_policy where
  "curated_mode = \<lparr>mp_mode = RM_CURATED, mp_profile_name = ''curated'', mp_egress = True,
     mp_searxng_url = Some ''http://search.example.org'', mp_searxng_host = Some ''search.example.org'', mp_allowed_domains = [],
     mp_rate_limit_max = 20, mp_rate_limit_window_seconds = 3600\<rparr>"

text \<open>A server that answers the first request with a page.\<close>

definition answering :: "string \<Rightarrow> net" where
  "answering ip = (redirecting [] ip)\<lparr>net_reply := (\<lambda>n u. Inr (reply 200 None u))\<rparr>"

lemma answering_fetch:
  assumes "validate_url u = Inr (host, port)" "ip_address host = None" "check_address ip = None"
    and "1 \<le> sp_timeout_seconds policy" "4 \<le> sp_max_response_bytes policy"
  shows "\<exists>page. fetch h (answering ip) policy u = (Inr page, [\<lparr>cn_host = host, cn_port = port, cn_address = ip\<rparr>])"
proof -
  let ?net = "answering ip"
  have net: "net_build ?net v = None" "net_clock ?net k = 0" for v k by (simp_all add: answering_def redirecting_def)
  have send: "send ?net policy 0 u = (Inr (reply 200 None u), [\<lparr>cn_host = host, cn_port = port, cn_address = ip\<rparr>])"
    using assms(1-3) by (simp add: send_def connect_tcp_def target_ips_def answering_def redirecting_def)
  have time: "\<not> fl (fl (0 + sp_timeout_seconds policy) - 0) \<le> 0" using fl_mono [OF assms(4)] by simp
  obtain page where page: "finish_fetch h ?net policy u 0 (reply 200 None u) = Inr page"
    using assms(5) by (auto simp: finish_fetch_def reply_def)
  show ?thesis using time page unfolding fetch_def
    by (subst fetch_loop.simps) (simp add: assms(1,2) net send precheck_ip_literal_def reply_def)
qed

abbreviation one_search :: "(exn + upstream_hit list) \<times> db \<times> connection list" where
  "one_search \<equiv> search_upstream plain_host (answering (dotted 93 184 216 34)) (\<lambda>s. Inr JNull) (\<lambda>w n. []) curated_mode curated_section ''noezema'' 5 empty_db"

lemma curated_facts:
  "ssrf_from_section curated_section = Inr lab_policy"
  "validate_url (upstream_request_url ''http://search.example.org'' ''noezema'') = Inr (''search.example.org'', 80)"
  "ip_address ''search.example.org'' = None"
  by code_simp+

lemma one_search_sent:
  "snd (snd one_search) \<noteq> [] \<and> answer_handled plain_host (answering (dotted 93 184 216 34)) (\<lambda>s. Inr JNull) curated_mode curated_section ''noezema''"
proof -
  obtain page where f: "fetch plain_host (answering (dotted 93 184 216 34)) lab_policy
      (upstream_request_url ''http://search.example.org'' ''noezema'') =
      (Inr page, [\<lparr>cn_host = ''search.example.org'', cn_port = 80, cn_address = dotted 93 184 216 34\<rparr>])"
    using answering_fetch [OF curated_facts(2,3) lab_address, of lab_policy plain_host] by (auto simp: lab_policy_def)
  have m: "mp_searxng_url curated_mode = Some ''http://search.example.org''" "mp_rate_limit_max curated_mode = 20"
    by (simp_all add: curated_mode_def)
  have "upstream_admit (\<lambda>w n. []) curated_mode ''http://search.example.org'' curated_section ''noezema'' empty_db = (Inr lab_policy, empty_db)"
    by (simp add: upstream_admit_def curated_facts m upstream_window_state_def empty_db_def)
  with f show ?thesis by (simp add: search_upstream_def answer_handled_def m curated_facts Let_def)
qed

theorem upstream_rate_is_bounded_witness:
  "journal_times (fst (snd one_search)) \<noteq> [] \<and> count_upstream_requests (fst (snd one_search)) 3600 \<le> 20"
proof -
  have i: "searching curated_mode [] empty_db" by (rule searching.idle) (simp add: empty_db_def)
  have t: "db_now empty_db \<le> 5" by (simp add: empty_db_def)
  have "one_search = (fst one_search, fst (snd one_search), snd (snd one_search))" by simp
  from searching.search [OF i t this] have "searching curated_mode [5] (fst (snd one_search))" using one_search_sent by simp
  from upstream_rate_is_bounded [OF this] show ?thesis by (auto simp: curated_mode_def)
qed

subsection \<open>A broken answer\<close>

text \<open>A server that accepts the request and breaks the connection inside the body.\<close>

definition breaking :: "string \<Rightarrow> string \<Rightarrow> net" where
  "breaking ip msg = (redirecting [] ip)\<lparr>net_reply := (\<lambda>n u. Inr ((reply 200 None u)\<lparr>hr_chunks := [], hr_broken := Some (HTTPError msg)\<rparr>))\<rparr>"

text \<open>
  A request whose answer breaks inside the body leaves no trace: the error of the client passes the fetch and the
  search unhandled, so although the engine was contacted and received the query, no event is recorded, and the
  request does not count against the limit.
\<close>

theorem broken_answer_is_not_journaled:
  assumes "mp_searxng_url mp = Some u" "ssrf_from_section section = Inr policy" "1 \<le> sp_timeout_seconds policy"
    "validate_url (upstream_request_url u query) = Inr (host, port)" "ip_address host = None" "check_address ip = None"
    "count_upstream_requests d (mp_rate_limit_window_seconds mp) < mp_rate_limit_max mp"
  shows "search_upstream h (breaking ip msg) loads notice mp section query t d =
    (Inl (HTTPError msg), d\<lparr>db_now := t\<rparr>, [\<lparr>cn_host = host, cn_port = port, cn_address = ip\<rparr>])"
proof -
  let ?net = "breaking ip msg" and ?u = "upstream_request_url u query"
  have net: "net_build ?net v = None" "net_clock ?net k = 0" for v k by (simp_all add: breaking_def redirecting_def)
  have send: "send ?net policy 0 ?u = (Inr ((reply 200 None ?u)\<lparr>hr_chunks := [], hr_broken := Some (HTTPError msg)\<rparr>),
      [\<lparr>cn_host = host, cn_port = port, cn_address = ip\<rparr>])"
    using assms(4,5,6) by (simp add: send_def connect_tcp_def target_ips_def breaking_def redirecting_def)
  have "\<not> fl (fl (0 + sp_timeout_seconds policy) - 0) \<le> 0" using fl_mono [OF assms(3)] by simp
  then have "fetch h ?net policy ?u = (Inl (HTTPError msg), [\<lparr>cn_host = host, cn_port = port, cn_address = ip\<rparr>])"
    unfolding fetch_def
    by (subst fetch_loop.simps) (simp add: assms(4,5) net send precheck_ip_literal_def reply_def finish_fetch_def)
  then show ?thesis using assms(1,2,7)
    by (simp add: search_upstream_def upstream_admit_def count_upstream_requests_def Let_def)
qed

theorem broken_answer_is_not_journaled_witness:
  "search_upstream plain_host (breaking (dotted 93 184 216 34) ''peer closed'') (\<lambda>s. Inr JNull) (\<lambda>w n. []) curated_mode curated_section
     ''noezema'' 5 empty_db =
   (Inl (HTTPError ''peer closed''), empty_db\<lparr>db_now := 5\<rparr>,
    [\<lparr>cn_host = ''search.example.org'', cn_port = 80, cn_address = dotted 93 184 216 34\<rparr>])"
proof -
  have "validate_url (upstream_request_url ''http://search.example.org'' ''noezema'') = Inr (''search.example.org'', 80)"
    "ip_address ''search.example.org'' = None" "mp_searxng_url curated_mode = Some ''http://search.example.org''"
    "ssrf_from_section curated_section = Inr lab_policy" "1 \<le> sp_timeout_seconds lab_policy"
    by code_simp+
  moreover have "count_upstream_requests empty_db (mp_rate_limit_window_seconds curated_mode) < mp_rate_limit_max curated_mode"
    by (simp add: count_alt empty_db_def curated_mode_def)
  ultimately show ?thesis by (intro broken_answer_is_not_journaled) (simp_all add: lab_address)
qed

end
