(* ===== verification/Scope.thy ===== *)
theory Scope
  imports Store PyData
begin

section \<open>Scopes of claims and evidence\<close>

text \<open>
  \<open>packages/memory/scope.py\<close>: the host-derived scopes, the reference date of a claim and its anchor,
  the coverage predicate of the rules engine, and the two decisions about an evidence row that are
  kept inside its scope (the attribution of a value to a producer and a producer's own publication).

  Three readers are arguments: \<open>date.fromisoformat\<close> and \<open>datetime.fromisoformat\<close>, both as the UTC
  instant they denote, and the readings of a question text (its explicit date, whether it anchors
  the date relatively, and the registrable domains it names).
\<close>

record iso_reader =
  iso_date :: "string \<Rightarrow> instant option"
  iso_datetime :: "string \<Rightarrow> instant option"

record question_reader =
  question_date :: "string \<Rightarrow> instant option"
  question_relative :: "string \<Rightarrow> bool"
  question_domains :: "string \<Rightarrow> string list"

subsection \<open>Keys\<close>

definition SCOPE_SCHEMA_KEY :: string where "SCOPE_SCHEMA_KEY = ''scope_schema''"
definition SCOPE_SCHEMA :: string where "SCOPE_SCHEMA = ''host-scope-v1''"
definition CLAIM_AS_OF_KEY :: string where "CLAIM_AS_OF_KEY = ''as_of''"
definition CLAIM_SOURCE_DOMAINS_KEY :: string where "CLAIM_SOURCE_DOMAINS_KEY = ''source_domains''"
definition EVIDENCE_AS_OF_KEY :: string where "EVIDENCE_AS_OF_KEY = ''as_of''"
definition EVIDENCE_SOURCE_DOMAIN_KEY :: string where "EVIDENCE_SOURCE_DOMAIN_KEY = ''source_domain''"
definition DATE_ANCHOR_KEY :: string where "DATE_ANCHOR_KEY = ''date_anchor''"

lemmas scope_keys =
  SCOPE_SCHEMA_KEY_def SCOPE_SCHEMA_def CLAIM_AS_OF_KEY_def CLAIM_SOURCE_DOMAINS_KEY_def
  EVIDENCE_AS_OF_KEY_def EVIDENCE_SOURCE_DOMAIN_KEY_def DATE_ANCHOR_KEY_def

definition is_host_derived :: "json_dict \<Rightarrow> bool" where
  "is_host_derived scope \<longleftrightarrow> dict_get scope SCOPE_SCHEMA_KEY JNull = JStr SCOPE_SCHEMA"

subsection \<open>The reference date of a claim\<close>

record claim_as_of =
  cao_as_of :: "instant option"
  cao_anchor :: claim_date_anchor

text \<open>
  \<open>session_date\<close> and the date of a question are midnights; a naive \<open>as_of\<close> is read as UTC, so an
  instant stands for it.
\<close>

definition derive_claim_as_of ::
  "question_reader \<Rightarrow> string option \<Rightarrow> instant option \<Rightarrow> instant option \<Rightarrow> claim_as_of" where
  "derive_claim_as_of qr question as_of session_date =
     (let typed = \<lparr>cao_as_of = as_of, cao_anchor = CDA_NONE\<rparr> in
      case question of None \<Rightarrow> typed | Some q \<Rightarrow>
        if q = [] then typed
        else case question_date qr q of
          Some day \<Rightarrow> \<lparr>cao_as_of = Some day, cao_anchor = CDA_EXPLICIT\<rparr>
        | None \<Rightarrow>
            (case session_date of
               Some day \<Rightarrow> if question_relative qr q
                 then \<lparr>cao_as_of = Some day, cao_anchor = CDA_RELATIVE\<rparr> else typed
             | None \<Rightarrow> typed))"

definition anchor_from_scope :: "json_dict \<Rightarrow> claim_date_anchor" where
  "anchor_from_scope scope =
     (case dict_get scope DATE_ANCHOR_KEY JNull of
        JStr s \<Rightarrow>
          if s = claim_date_anchor_value CDA_EXPLICIT then CDA_EXPLICIT
          else if s = claim_date_anchor_value CDA_RELATIVE then CDA_RELATIVE
          else if s = claim_date_anchor_value CDA_NONE then CDA_NONE
          else CDA_RELATIVE
      | _ \<Rightarrow> CDA_RELATIVE)"

text \<open>\<open>date.isoformat()\<close> of the UTC day of an instant.\<close>

definition date_isoformat :: "instant \<Rightarrow> string" where
  "date_isoformat t = (let (y, m, d) = civil_from_days (t div 1000000 div 86400) in
     pad 4 y @ ''-'' @ pad 2 m @ ''-'' @ pad 2 d)"

fun named_domains :: "string list \<Rightarrow> string list \<Rightarrow> string list" where
  "named_domains [] acc = acc"
| "named_domains (d # ds) acc =
     named_domains ds (if d \<noteq> [] \<and> d \<notin> set acc then acc @ [d] else acc)"

definition derive_claim_scope ::
  "question_reader \<Rightarrow> string option \<Rightarrow> instant option \<Rightarrow> instant option \<Rightarrow> json_dict" where
  "derive_claim_scope qr question as_of session_date =
     (let reference = derive_claim_as_of qr question as_of session_date;
          domains = (case question of None \<Rightarrow> []
            | Some q \<Rightarrow> if q = [] then [] else named_domains (question_domains qr q) [])
      in [(SCOPE_SCHEMA_KEY, JStr SCOPE_SCHEMA),
          (CLAIM_AS_OF_KEY, case cao_as_of reference of None \<Rightarrow> JNull | Some t \<Rightarrow> JStr (date_isoformat t)),
          (CLAIM_SOURCE_DOMAINS_KEY, JArr (map JStr domains)),
          (DATE_ANCHOR_KEY, JStr (claim_date_anchor_value (cao_anchor reference)))])"

definition derive_evidence_scope :: "string option \<Rightarrow> instant option \<Rightarrow> json_dict" where
  "derive_evidence_scope source_domain observed_at =
     [(SCOPE_SCHEMA_KEY, JStr SCOPE_SCHEMA),
      (EVIDENCE_AS_OF_KEY, case observed_at of None \<Rightarrow> JNull | Some t \<Rightarrow> JStr (isoformat t)),
      (EVIDENCE_SOURCE_DOMAIN_KEY, case source_domain of None \<Rightarrow> JNull | Some s \<Rightarrow> JStr s)]"

subsection \<open>Decisions kept in an evidence scope\<close>

definition EVIDENCE_VALUE_ATTRIBUTION_KEY :: string where
  "EVIDENCE_VALUE_ATTRIBUTION_KEY = ''value_attribution''"

definition VALUE_ATTRIBUTION_SCHEMA :: string where
  "VALUE_ATTRIBUTION_SCHEMA = ''host-value-attribution-v1''"

definition VALUE_ATTRIBUTION_PAIRING_STRICT :: string where
  "VALUE_ATTRIBUTION_PAIRING_STRICT = ''value_and_primary_in_fragment''"

definition VALUE_ATTRIBUTION_PAIRINGS :: "string list" where
  "VALUE_ATTRIBUTION_PAIRINGS =
     [VALUE_ATTRIBUTION_PAIRING_STRICT, ''publication_window'', ''bibliography_known_producer'',
      ''known_producer_mentioned'', ''statement_names_producer'']"

record value_attribution =
  va_primary_key :: string
  va_primary_name :: string
  va_primary_uri :: string
  va_parent_source_id :: string
  va_method :: string
  va_basis_fragment :: string
  va_pairing :: string

definition value_attribution_as_scope :: "value_attribution \<Rightarrow> json" where
  "value_attribution_as_scope a = JObj
     [(''schema'', JStr VALUE_ATTRIBUTION_SCHEMA), (''primary_key'', JStr (va_primary_key a)),
      (''primary_name'', JStr (va_primary_name a)), (''primary_uri'', JStr (va_primary_uri a)),
      (''parent_source_id'', JStr (va_parent_source_id a)), (''method'', JStr (va_method a)),
      (''basis_fragment'', JStr (va_basis_fragment a)), (''pairing'', JStr (va_pairing a))]"

text \<open>A field of a record: masked, stripped, not empty and within its limit.\<close>

definition clean_field :: "nat \<Rightarrow> string \<Rightarrow> string option" where
  "clean_field limit value =
     (let t = py_strip (mask_nul value) in if t = [] \<or> limit < length t then None else Some t)"

definition clean_basis :: "string \<Rightarrow> string" where
  "clean_basis basis = take 1000 (py_strip (mask_nul basis))"

definition build_value_attribution ::
  "string \<Rightarrow> string \<Rightarrow> string \<Rightarrow> string \<Rightarrow> string \<Rightarrow> string \<Rightarrow> string \<Rightarrow> value_attribution option" where
  "build_value_attribution primary_key primary_name primary_uri parent_source_id meth basis pairing =
     (case clean_field 200 primary_key of None \<Rightarrow> None | Some k \<Rightarrow>
      case clean_field 200 primary_name of None \<Rightarrow> None | Some n \<Rightarrow>
      case clean_field 500 primary_uri of None \<Rightarrow> None | Some u \<Rightarrow>
      case clean_field 200 parent_source_id of None \<Rightarrow> None | Some p \<Rightarrow>
      case clean_field 200 meth of None \<Rightarrow> None | Some m \<Rightarrow>
      case uuid_parse p of Inl e \<Rightarrow> None | Inr _ \<Rightarrow>
        if pairing \<notin> set VALUE_ATTRIBUTION_PAIRINGS then None
        else Some \<lparr>va_primary_key = k, va_primary_name = n, va_primary_uri = u, va_parent_source_id = p,
                   va_method = m, va_basis_fragment = clean_basis basis, va_pairing = pairing\<rparr>)"

text \<open>\<open>str(raw.get(key, ""))\<close>.\<close>

definition text_of :: "host \<Rightarrow> json_dict \<Rightarrow> string \<Rightarrow> string" where
  "text_of h raw key = py_str (host_frepr h) (dict_get raw key (JStr []))"

definition parse_value_attribution :: "host \<Rightarrow> json_dict option \<Rightarrow> value_attribution option" where
  "parse_value_attribution h scope =
     (case scope of None \<Rightarrow> None | Some sc \<Rightarrow>
      case dict_get sc EVIDENCE_VALUE_ATTRIBUTION_KEY JNull of
        JObj raw \<Rightarrow>
          if dict_get raw ''schema'' JNull \<noteq> JStr VALUE_ATTRIBUTION_SCHEMA then None
          else (case dict_get raw ''pairing'' (JStr VALUE_ATTRIBUTION_PAIRING_STRICT) of
             JStr pairing \<Rightarrow>
               build_value_attribution (text_of h raw ''primary_key'') (text_of h raw ''primary_name'')
                 (text_of h raw ''primary_uri'') (text_of h raw ''parent_source_id'')
                 (text_of h raw ''method'') (text_of h raw ''basis_fragment'') pairing
           | _ \<Rightarrow> None)
      | _ \<Rightarrow> None)"

definition EVIDENCE_SELF_PUBLICATION_KEY :: string where
  "EVIDENCE_SELF_PUBLICATION_KEY = ''value_self_publication''"

definition SELF_PUBLICATION_SCHEMA :: string where
  "SELF_PUBLICATION_SCHEMA = ''host-value-self-publication-v1''"

record self_publication =
  sp_primary_key :: string
  sp_primary_name :: string
  sp_primary_uri :: string
  sp_method :: string
  sp_basis_fragment :: string

definition self_publication_as_scope :: "self_publication \<Rightarrow> json" where
  "self_publication_as_scope a = JObj
     [(''schema'', JStr SELF_PUBLICATION_SCHEMA), (''primary_key'', JStr (sp_primary_key a)),
      (''primary_name'', JStr (sp_primary_name a)), (''primary_uri'', JStr (sp_primary_uri a)),
      (''method'', JStr (sp_method a)), (''basis_fragment'', JStr (sp_basis_fragment a))]"

definition build_self_publication ::
  "string \<Rightarrow> string \<Rightarrow> string \<Rightarrow> string \<Rightarrow> string \<Rightarrow> self_publication option" where
  "build_self_publication primary_key primary_name primary_uri meth basis =
     (case clean_field 200 primary_key of None \<Rightarrow> None | Some k \<Rightarrow>
      case clean_field 200 primary_name of None \<Rightarrow> None | Some n \<Rightarrow>
      case clean_field 500 primary_uri of None \<Rightarrow> None | Some u \<Rightarrow>
      case clean_field 200 meth of None \<Rightarrow> None | Some m \<Rightarrow>
        Some \<lparr>sp_primary_key = k, sp_primary_name = n, sp_primary_uri = u, sp_method = m,
              sp_basis_fragment = clean_basis basis\<rparr>)"

definition parse_self_publication :: "host \<Rightarrow> json_dict option \<Rightarrow> self_publication option" where
  "parse_self_publication h scope =
     (case scope of None \<Rightarrow> None | Some sc \<Rightarrow>
      case dict_get sc EVIDENCE_SELF_PUBLICATION_KEY JNull of
        JObj raw \<Rightarrow>
          if dict_get raw ''schema'' JNull \<noteq> JStr SELF_PUBLICATION_SCHEMA then None
          else build_self_publication (text_of h raw ''primary_key'') (text_of h raw ''primary_name'')
                 (text_of h raw ''primary_uri'') (text_of h raw ''method'') (text_of h raw ''basis_fragment'')
      | _ \<Rightarrow> None)"

definition carry_value_attribution :: "host \<Rightarrow> json_dict option \<Rightarrow> json_dict \<Rightarrow> json_dict" where
  "carry_value_attribution h current_scope derived_scope =
     (let attribution = parse_value_attribution h current_scope;
          publication = parse_self_publication h current_scope;
          c1 = (case attribution of None \<Rightarrow> derived_scope
            | Some a \<Rightarrow> dict_set EVIDENCE_VALUE_ATTRIBUTION_KEY (value_attribution_as_scope a) derived_scope)
      in (case publication of None \<Rightarrow> c1
            | Some p \<Rightarrow> dict_set EVIDENCE_SELF_PUBLICATION_KEY (self_publication_as_scope p) c1))"

subsection \<open>Coverage\<close>

definition parse_claim_date :: "iso_reader \<Rightarrow> json \<Rightarrow> instant option" where
  "parse_claim_date ir v = (case v of JStr s \<Rightarrow> if s = [] then None else iso_date ir s | _ \<Rightarrow> None)"

definition parse_evidence_time :: "iso_reader \<Rightarrow> json \<Rightarrow> instant option" where
  "parse_evidence_time ir v = (case v of JStr s \<Rightarrow> if s = [] then None else iso_datetime ir s | _ \<Rightarrow> None)"

definition canonical_covers :: "iso_reader \<Rightarrow> json_dict \<Rightarrow> json_dict \<Rightarrow> exn + bool" where
  "canonical_covers ir evidence_scope claim_scope =
     (let observed_in_time =
        (case parse_claim_date ir (dict_get claim_scope CLAIM_AS_OF_KEY JNull) of
           None \<Rightarrow> True
         | Some claim_day \<Rightarrow>
             (case parse_evidence_time ir (dict_get evidence_scope EVIDENCE_AS_OF_KEY JNull) of
                None \<Rightarrow> False
              | Some evidence_at \<Rightarrow> \<not> evidence_at < claim_day));
          domains = dict_get claim_scope CLAIM_SOURCE_DOMAINS_KEY JNull;
          domain = dict_get evidence_scope EVIDENCE_SOURCE_DOMAIN_KEY JNull
      in if \<not> observed_in_time then Inr False
         else if \<not> truthy domains then Inr True
         else if domain = JNull then Inr False
         else py_in domain domains)"

definition legacy_scope_covers :: "json_dict \<Rightarrow> json_dict \<Rightarrow> bool" where
  "legacy_scope_covers evidence_scope claim_scope =
     list_all (\<lambda>(key, value). case map_of evidence_scope key of
        None \<Rightarrow> False
      | Some v \<Rightarrow> \<not> (value \<noteq> JNull \<and> v \<noteq> JNull \<and> \<not> py_eq v value)) claim_scope"

definition scope_covers :: "iso_reader \<Rightarrow> json_dict \<Rightarrow> json_dict \<Rightarrow> exn + bool" where
  "scope_covers ir evidence_scope claim_scope =
     (if is_host_derived claim_scope then canonical_covers ir evidence_scope claim_scope
      else Inr (legacy_scope_covers evidence_scope claim_scope))"

subsection \<open>Facts about cleaning\<close>

lemma set_py_strip: "set (py_strip s) \<subseteq> set s"
  by (auto simp: py_strip_def dest!: set_dropWhileD)

lemma nul_free_strip: "nul_free s \<Longrightarrow> nul_free (py_strip s)"
  using set_py_strip [of s] by (auto simp: nul_free_def list_all_iff)

lemma mask_strip_mask [simp]: "mask_nul (py_strip (mask_nul s)) = py_strip (mask_nul s)"
  by (intro mask_nul_id nul_free_strip) simp

lemma clean_field_fixed: "clean_field n s = Some t \<Longrightarrow> clean_field n t = Some t"
  by (auto simp: clean_field_def Let_def split: if_splits)

lemma clean_basis_again: "clean_basis (clean_basis s) = py_strip (clean_basis s)"
proof -
  have "nul_free (take 1000 (py_strip (mask_nul s)))"
    using nul_free_strip [OF nul_free_mask_nul, of s] unfolding nul_free_def list_all_iff by (auto dest: in_set_takeD)
  moreover have "length (py_strip (clean_basis s)) \<le> 1000"
    using length_py_strip [of "clean_basis s"] by (simp add: clean_basis_def)
  ultimately show ?thesis by (simp add: clean_basis_def mask_nul_id)
qed

definition trim_attribution :: "value_attribution \<Rightarrow> value_attribution" where
  "trim_attribution a = a\<lparr>va_basis_fragment := py_strip (va_basis_fragment a)\<rparr>"

definition trim_publication :: "self_publication \<Rightarrow> self_publication" where
  "trim_publication a = a\<lparr>sp_basis_fragment := py_strip (sp_basis_fragment a)\<rparr>"

lemma text_of_eq:
  "text_of h raw k = (case map_of raw k of None \<Rightarrow> [] | Some v \<Rightarrow> py_str (host_frepr h) v)"
  by (auto simp: text_of_def dict_get_def py_str_def split: option.splits)

lemma py_str_JStr [simp]: "py_str f (JStr s) = s"
  by (simp add: py_str_def)

lemma rebuild_attribution:
  assumes "build_value_attribution a1 a2 a3 a4 a5 a6 a7 = Some a"
    and "dict_get sc EVIDENCE_VALUE_ATTRIBUTION_KEY JNull = value_attribution_as_scope a"
  shows "parse_value_attribution h (Some sc) = Some (trim_attribution a)"
proof -
  from assms(1) obtain k n u p m where
    f: "clean_field 200 a1 = Some k" "clean_field 200 a2 = Some n" "clean_field 500 a3 = Some u"
      "clean_field 200 a4 = Some p" "clean_field 200 a5 = Some m" "\<exists>i. uuid_parse p = Inr i"
      "a7 \<in> set VALUE_ATTRIBUTION_PAIRINGS"
    and a: "a = \<lparr>va_primary_key = k, va_primary_name = n, va_primary_uri = u, va_parent_source_id = p,
       va_method = m, va_basis_fragment = clean_basis a6, va_pairing = a7\<rparr>"
    by (auto simp: build_value_attribution_def split: option.splits sum.splits if_splits)
  note c = f(1-5) [THEN clean_field_fixed]
  show ?thesis using c f(6,7)
    unfolding parse_value_attribution_def option.case assms(2) value_attribution_as_scope_def json.case
    by (auto simp: text_of_eq dict_get_def build_value_attribution_def trim_attribution_def clean_basis_again a)
qed

lemma rebuild_publication:
  assumes "build_self_publication a1 a2 a3 a4 a5 = Some a"
    and "dict_get sc EVIDENCE_SELF_PUBLICATION_KEY JNull = self_publication_as_scope a"
  shows "parse_self_publication h (Some sc) = Some (trim_publication a)"
proof -
  from assms(1) obtain k n u m where
    f: "clean_field 200 a1 = Some k" "clean_field 200 a2 = Some n" "clean_field 500 a3 = Some u"
      "clean_field 200 a4 = Some m"
    and a: "a = \<lparr>sp_primary_key = k, sp_primary_name = n, sp_primary_uri = u,
       sp_method = m, sp_basis_fragment = clean_basis a5\<rparr>"
    by (auto simp: build_self_publication_def split: option.splits)
  note c = f [THEN clean_field_fixed]
  show ?thesis using c
    unfolding parse_self_publication_def option.case assms(2) self_publication_as_scope_def json.case
    by (auto simp: text_of_eq dict_get_def build_self_publication_def trim_publication_def clean_basis_again a)
qed

lemma parse_attribution_built:
  assumes "parse_value_attribution h sc = Some a"
  shows "\<exists>a1 a2 a3 a4 a5 a6 a7. build_value_attribution a1 a2 a3 a4 a5 a6 a7 = Some a"
  using assms unfolding parse_value_attribution_def by (simp split: option.splits json.splits if_splits) blast

lemma parse_publication_built:
  assumes "parse_self_publication h sc = Some a"
  shows "\<exists>a1 a2 a3 a4 a5. build_self_publication a1 a2 a3 a4 a5 = Some a"
  using assms unfolding parse_self_publication_def by (simp split: option.splits json.splits if_splits) blast

lemmas decision_keys =
  EVIDENCE_VALUE_ATTRIBUTION_KEY_def EVIDENCE_SELF_PUBLICATION_KEY_def

lemma dict_get_dict_set: "dict_get (dict_set k v d) k' x = (if k' = k then v else dict_get d k' x)"
  by (simp add: dict_get_def)

lemma carry_get:
  assumes "k \<noteq> EVIDENCE_VALUE_ATTRIBUTION_KEY" and "k \<noteq> EVIDENCE_SELF_PUBLICATION_KEY"
  shows "dict_get (carry_value_attribution h cur derived) k x = dict_get derived k x"
  using assms by (auto simp: carry_value_attribution_def Let_def dict_get_dict_set split: option.splits)

lemma canonical_covers_cong:
  assumes "dict_get e EVIDENCE_AS_OF_KEY JNull = dict_get e' EVIDENCE_AS_OF_KEY JNull"
    and "dict_get e EVIDENCE_SOURCE_DOMAIN_KEY JNull = dict_get e' EVIDENCE_SOURCE_DOMAIN_KEY JNull"
  shows "canonical_covers ir e c = canonical_covers ir e' c"
  unfolding canonical_covers_def assms by (rule refl)

lemma carry_map_of:
  assumes "k \<noteq> EVIDENCE_VALUE_ATTRIBUTION_KEY" and "k \<noteq> EVIDENCE_SELF_PUBLICATION_KEY"
  shows "map_of (carry_value_attribution h cur derived) k = map_of derived k"
  using assms by (auto simp: carry_value_attribution_def Let_def split: option.splits)

text \<open>
  C30.  Recomputing the scope of an evidence row loses no decision: whatever scope the row had, the
  carried scope reads back the attribution and the publication that the old scope held, with the
  basis fragment stripped once more, which only a fragment that the limit of 1000 characters cut at a
  space can notice.  Every other dimension comes from the fresh provenance, so for a host-derived claim
  scope, and for any other that does not itself name one of the two decisions, the carried scope
  covers exactly when the fresh scope does.
\<close>

theorem carried_decisions_read_back:
  fixes cur :: "json_dict option" and h :: host and src_domain :: "string option" and seen :: "instant option"
  defines "c \<equiv> carry_value_attribution h cur (derive_evidence_scope src_domain seen)"
  shows "parse_value_attribution h (Some c) = map_option trim_attribution (parse_value_attribution h cur)
    \<and> parse_self_publication h (Some c) = map_option trim_publication (parse_self_publication h cur)
    \<and> (k \<notin> {EVIDENCE_VALUE_ATTRIBUTION_KEY, EVIDENCE_SELF_PUBLICATION_KEY} \<longrightarrow>
         dict_get c k x = dict_get (derive_evidence_scope src_domain seen) k x)
    \<and> (is_host_derived claim \<or> fst ` set claim \<inter> {EVIDENCE_VALUE_ATTRIBUTION_KEY, EVIDENCE_SELF_PUBLICATION_KEY} = {} \<longrightarrow>
         scope_covers ir c claim = scope_covers ir (derive_evidence_scope src_domain seen) claim)"
proof (intro conjI impI)
  let ?K = EVIDENCE_VALUE_ATTRIBUTION_KEY and ?P = EVIDENCE_SELF_PUBLICATION_KEY
  have none: "dict_get (derive_evidence_scope src_domain seen) ?K JNull = JNull" "dict_get (derive_evidence_scope src_domain seen) ?P JNull = JNull"
    by (simp_all add: derive_evidence_scope_def dict_get_def scope_keys decision_keys)
  have kp: "?K \<noteq> ?P" by (simp add: decision_keys)
  show "parse_value_attribution h (Some c) = map_option trim_attribution (parse_value_attribution h cur)"
  proof (cases "parse_value_attribution h cur")
    case None
    then have "dict_get c ?K JNull = JNull" using none kp
      by (auto simp: c_def carry_value_attribution_def Let_def dict_get_dict_set split: option.splits)
    with None show ?thesis by (simp add: parse_value_attribution_def)
  next
    case (Some a)
    then have "dict_get c ?K JNull = value_attribution_as_scope a" using kp
      by (auto simp: c_def carry_value_attribution_def Let_def dict_get_dict_set split: option.splits)
    with Some parse_attribution_built [OF Some] show ?thesis using rebuild_attribution by auto
  qed
  show "parse_self_publication h (Some c) = map_option trim_publication (parse_self_publication h cur)"
  proof (cases "parse_self_publication h cur")
    case None
    then have "dict_get c ?P JNull = JNull" using none kp
      by (auto simp: c_def carry_value_attribution_def Let_def dict_get_dict_set split: option.splits)
    with None show ?thesis by (simp add: parse_self_publication_def)
  next
    case (Some a)
    then have "dict_get c ?P JNull = self_publication_as_scope a" using kp
      by (auto simp: c_def carry_value_attribution_def Let_def dict_get_dict_set split: option.splits)
    with Some parse_publication_built [OF Some] show ?thesis using rebuild_publication by auto
  qed
  show "dict_get c k x = dict_get (derive_evidence_scope src_domain seen) k x" if "k \<notin> {?K, ?P}" for k x
    using that by (simp add: c_def carry_get)
  show "scope_covers ir c claim = scope_covers ir (derive_evidence_scope src_domain seen) claim"
    if "is_host_derived claim \<or> fst ` set claim \<inter> {?K, ?P} = {}"
  proof (cases "is_host_derived claim")
    case True
    then show ?thesis unfolding scope_covers_def c_def
      by (simp add: canonical_covers_cong [OF carry_get carry_get] scope_keys decision_keys)
  next
    case False
    then have "map_of c key = map_of (derive_evidence_scope src_domain seen) key" if "(key, v) \<in> set claim" for key v
      using that \<open>is_host_derived claim \<or> fst ` set claim \<inter> {?K, ?P} = {}\<close> unfolding c_def by (intro carry_map_of) force+
    then have "legacy_scope_covers c claim = legacy_scope_covers (derive_evidence_scope src_domain seen) claim"
      unfolding legacy_scope_covers_def list_all_iff by (intro ball_cong) auto
    with False show ?thesis by (simp add: scope_covers_def)
  qed
qed

definition example_attribution :: value_attribution where
  "example_attribution = \<lparr>va_primary_key = ''bank'', va_primary_name = ''Bank'', va_primary_uri = ''https://bank.example/r'',
     va_parent_source_id = ''00000000-0000-0000-0000-000000000007'', va_method = ''citation'',
     va_basis_fragment = ''as the bank reports'', va_pairing = ''publication_window''\<rparr>"

definition example_publication :: self_publication where
  "example_publication = \<lparr>sp_primary_key = ''bank'', sp_primary_name = ''Bank'', sp_primary_uri = ''https://bank.example/r'',
     sp_method = ''own page'', sp_basis_fragment = ''our report''\<rparr>"

definition example_scope :: json_dict where
  "example_scope = [(EVIDENCE_VALUE_ATTRIBUTION_KEY, value_attribution_as_scope example_attribution),
     (EVIDENCE_SELF_PUBLICATION_KEY, self_publication_as_scope example_publication)]"

definition quiet_host :: host where
  "quiet_host = \<lparr>host_frepr = (\<lambda>_. []), host_sha256 = id\<rparr>"

lemma example_decisions:
  "parse_value_attribution quiet_host (Some example_scope) = Some example_attribution"
  "parse_self_publication quiet_host (Some example_scope) = Some example_publication"
  "trim_attribution example_attribution = example_attribution" "trim_publication example_publication = example_publication"
  by code_simp+

theorem carried_decisions_read_back_witness:
  "let fresh = derive_evidence_scope (Some ''a.org'') None;
       c = carry_value_attribution quiet_host (Some example_scope) fresh;
       claim = [(''scope_schema'', JStr ''host-scope-v1''), (''source_domains'', JArr [JStr ''a.org''])];
       ir = \<lparr>iso_date = Map.empty, iso_datetime = Map.empty\<rparr>
   in parse_value_attribution quiet_host (Some c) = Some example_attribution
      \<and> parse_self_publication quiet_host (Some c) = Some example_publication
      \<and> is_host_derived claim \<and> scope_covers ir c claim = scope_covers ir fresh claim"
proof -
  let ?claim = "[(''scope_schema'', JStr ''host-scope-v1''), (''source_domains'', JArr [JStr ''a.org''])]"
  have "is_host_derived ?claim" by (simp add: is_host_derived_def dict_get_def scope_keys)
  then show ?thesis
    using carried_decisions_read_back [of quiet_host "Some example_scope" "Some ''a.org''" None "[]" JNull ?claim
        "\<lparr>iso_date = Map.empty, iso_datetime = Map.empty\<rparr>"]
    by (simp add: example_decisions Let_def)
qed

definition midnight :: "instant \<Rightarrow> instant" where
  "midnight t = t div 86400000000 * 86400000000"

lemma claim_scope_get:
  "dict_get (derive_claim_scope qr question as_of session_date) CLAIM_AS_OF_KEY JNull =
     (case cao_as_of (derive_claim_as_of qr question as_of session_date) of None \<Rightarrow> JNull | Some t \<Rightarrow> JStr (date_isoformat t))"
  "dict_get (derive_claim_scope qr question as_of session_date) CLAIM_SOURCE_DOMAINS_KEY JNull =
     JArr (map JStr (case question of None \<Rightarrow> [] | Some q \<Rightarrow> if q = [] then [] else named_domains (question_domains qr q) []))"
  "dict_get (derive_claim_scope qr question as_of session_date) DATE_ANCHOR_KEY JNull =
     JStr (claim_date_anchor_value (cao_anchor (derive_claim_as_of qr question as_of session_date)))"
  "is_host_derived (derive_claim_scope qr question as_of session_date)"
  by (simp_all add: derive_claim_scope_def dict_get_def is_host_derived_def scope_keys Let_def)

lemma evidence_scope_get:
  "dict_get (derive_evidence_scope sd seen) EVIDENCE_AS_OF_KEY JNull = (case seen of None \<Rightarrow> JNull | Some t \<Rightarrow> JStr (isoformat t))"
  "dict_get (derive_evidence_scope sd seen) EVIDENCE_SOURCE_DOMAIN_KEY JNull = (case sd of None \<Rightarrow> JNull | Some s \<Rightarrow> JStr s)"
  by (simp_all add: derive_evidence_scope_def dict_get_def scope_keys)

lemma iso_texts [simp]: "date_isoformat t \<noteq> []" "isoformat t \<noteq> []"
  by (simp_all add: date_isoformat_def isoformat_def Let_def split: prod.splits)

lemma domain_in: "py_in (JStr s) (JArr (map JStr ds)) = Inr (s \<in> set ds)"
  by (auto simp: py_in_def list_ex_iff)

text \<open>
  A host-derived scope fails closed: evidence covers the claim exactly when it was observed not
  before the claim's reference day (if there is one) and comes from a domain the question names (if
  it names any); evidence without an observation time or without a source never covers such a
  dimension.  The anchor of the reference date is read back from the stored scope, and the date a
  model proposes has no influence when the question carries a date of its own.
\<close>

theorem host_scope_fails_closed:
  fixes question :: "string option" and qr :: question_reader and as_of :: "instant option" and session_date :: "instant option"
  defines "ref \<equiv> derive_claim_as_of qr question as_of session_date"
    and "claim \<equiv> derive_claim_scope qr question as_of session_date"
    and "domains \<equiv> (case question of None \<Rightarrow> [] | Some q \<Rightarrow> if q = [] then [] else named_domains (question_domains qr q) [])"
  assumes day: "\<And>t. cao_as_of ref = Some t \<Longrightarrow> iso_date ir (date_isoformat t) = Some (midnight t)"
    and obs: "\<And>t. seen = Some t \<Longrightarrow> iso_datetime ir (isoformat t) = Some t"
  shows "scope_covers ir (derive_evidence_scope src_domain seen) claim =
      Inr ((\<forall>t. cao_as_of ref = Some t \<longrightarrow> (\<exists>o'. seen = Some o' \<and> midnight t \<le> o'))
        \<and> (domains = [] \<or> (\<exists>d. src_domain = Some d \<and> d \<in> set domains)))
    \<and> anchor_from_scope claim = cao_anchor ref
    \<and> (\<forall>q as_of'. question = Some q \<and> q \<noteq> [] \<and> (question_date qr q \<noteq> None \<or> (question_relative qr q \<and> session_date \<noteq> None))
         \<longrightarrow> derive_claim_as_of qr question as_of' session_date = ref)"
proof (intro conjI allI impI)
  have "canonical_covers ir (derive_evidence_scope src_domain seen) claim =
      Inr ((\<forall>t. cao_as_of ref = Some t \<longrightarrow> (\<exists>o'. seen = Some o' \<and> midnight t \<le> o'))
        \<and> (domains = [] \<or> (\<exists>d. src_domain = Some d \<and> d \<in> set domains)))"
    using day obs
    by (auto simp: canonical_covers_def Let_def claim_def claim_scope_get evidence_scope_get ref_def [symmetric]
        domains_def [symmetric] parse_claim_date_def parse_evidence_time_def domain_in not_less split: option.splits)
  then show "scope_covers ir (derive_evidence_scope src_domain seen) claim =
      Inr ((\<forall>t. cao_as_of ref = Some t \<longrightarrow> (\<exists>o'. seen = Some o' \<and> midnight t \<le> o'))
        \<and> (domains = [] \<or> (\<exists>d. src_domain = Some d \<and> d \<in> set domains)))"
    by (simp add: scope_covers_def claim_def claim_scope_get)
  show "anchor_from_scope claim = cao_anchor ref"
    by (cases "cao_anchor ref") (simp_all add: anchor_from_scope_def claim_def claim_scope_get ref_def)
next
  fix q as_of'
  assume "question = Some q \<and> q \<noteq> [] \<and> (question_date qr q \<noteq> None \<or> (question_relative qr q \<and> session_date \<noteq> None))"
  then show "derive_claim_as_of qr question as_of' session_date = ref"
    by (auto simp: ref_def derive_claim_as_of_def Let_def split: option.splits)
qed

theorem host_scope_fails_closed_witness:
  "let qr = \<lparr>question_date = (\<lambda>_. Some 86400000000), question_relative = (\<lambda>_. False), question_domains = (\<lambda>_. [''a.org''])\<rparr>;
       ir = \<lparr>iso_date = (\<lambda>_. Some 86400000000), iso_datetime = (\<lambda>_. Some 5)\<rparr>
   in scope_covers ir (derive_evidence_scope (Some ''a.org'') (Some 5)) (derive_claim_scope qr (Some ''q'') None None) = Inr False"
proof -
  let ?qr = "\<lparr>question_date = (\<lambda>_. Some 86400000000), question_relative = (\<lambda>_. False), question_domains = (\<lambda>_. [''a.org''])\<rparr>"
  let ?ir = "\<lparr>iso_date = (\<lambda>_. Some 86400000000), iso_datetime = (\<lambda>_. Some 5)\<rparr>"
  have ref: "derive_claim_as_of ?qr (Some ''q'') None None = \<lparr>cao_as_of = Some 86400000000, cao_anchor = CDA_EXPLICIT\<rparr>"
    by (simp add: derive_claim_as_of_def)
  have "scope_covers ?ir (derive_evidence_scope (Some ''a.org'') (Some 5)) (derive_claim_scope ?qr (Some ''q'') None None) = Inr False"
    using host_scope_fails_closed [of ?qr "Some ''q''" None None ?ir "Some 5" "Some ''a.org''"]
    by (simp add: ref midnight_def)
  then show ?thesis by (simp add: Let_def)
qed

end
