(* ===== verification/RulesEngine.thy ===== *)
theory RulesEngine
  imports Scope "HOL-Library.Multiset"
begin

section \<open>The rules engine\<close>

text \<open>
  \<open>packages/memory/rules_engine.py\<close>, the only producer of grade and confidence, and the freshness
  rule of \<open>packages/memory/freshness.py\<close>.
\<close>

subsection \<open>Rules\<close>

definition RULES_ENGINE_VERSION :: string where
  "RULES_ENGINE_VERSION = ''rules-v2''"

definition VOLATILITY_REVERIFY_DAYS :: "(string \<times> int) list" where
  "VOLATILITY_REVERIFY_DAYS = [(''static'', 90), (''configurable'', 30), (''temporal'', 30)]"

primrec GRADE_CONFIDENCE_BASE :: "effective_grade \<Rightarrow> rat" where
  "GRADE_CONFIDENCE_BASE E0 = fl (10 / 100)"
| "GRADE_CONFIDENCE_BASE E1 = fl (30 / 100)"
| "GRADE_CONFIDENCE_BASE E2 = fl (55 / 100)"
| "GRADE_CONFIDENCE_BASE E3 = fl (75 / 100)"
| "GRADE_CONFIDENCE_BASE E4 = fl (95 / 100)"

definition REQUIRED_RELATIONS :: "string list" where
  "REQUIRED_RELATIONS = [''repeatability'', ''reproducibility'', ''independent_replication'']"

definition RELATION_RANK :: "(string \<times> int) list" where
  "RELATION_RANK =
     [(''none'', 0), (''untracked'', 1), (''variation'', 1), (''repeatability'', 2),
      (''reproducibility'', 3), (''independent_replication'', 4)]"

text \<open>\<open>allowed_kinds\<close> is a frozenset that only membership tests read: the list of its elements.\<close>

record claim_type_rule =
  min_grade_for_supported :: effective_grade
  allowed_kinds :: "json list"
  min_support_evidence :: int
  min_independence_groups :: int
  requires_scope :: bool
  requires_as_of :: bool
  volatility :: string
  required_independence :: "string option"

definition rule_from_payload :: "host \<Rightarrow> string \<Rightarrow> json_dict \<Rightarrow> exn + claim_type_rule" where
  "rule_from_payload h claim_type payload =
     (if payload = [] then Inl (ValueError (''no rule for claim_type '' @ repr_str claim_type))
      else
        let required = dict_get payload ''required_independence'' JNull in
        if required \<noteq> JNull \<and> required \<notin> JStr ` set REQUIRED_RELATIONS
        then Inl (ValueError (''claim_type '' @ repr_str claim_type @ '': unknown required_independence ''
               @ py_repr (host_frepr h) required))
        else
          case map_of payload ''min_grade_for_supported'' of
            None \<Rightarrow> Inl (KeyError ''min_grade_for_supported'')
          | Some g \<Rightarrow>
          case (case g of JStr s \<Rightarrow> effective_grade_enum.parse s | _ \<Rightarrow> Inl (ValueError (py_repr (host_frepr h) g))) of
            Inl e \<Rightarrow> Inl e
          | Inr grade \<Rightarrow>
          case py_frozenset (dict_get payload ''allowed_kinds'' (JArr [])) of Inl e \<Rightarrow> Inl e | Inr kinds \<Rightarrow>
          case py_int (dict_get payload ''min_support_evidence'' (JInt 1)) of Inl e \<Rightarrow> Inl e | Inr n \<Rightarrow>
          case py_int (dict_get payload ''min_independence_groups'' (JInt 1)) of Inl e \<Rightarrow> Inl e | Inr k \<Rightarrow>
            Inr \<lparr>min_grade_for_supported = grade, allowed_kinds = kinds, min_support_evidence = n,
                 min_independence_groups = k,
                 requires_scope = truthy (dict_get payload ''requires_scope'' (JBool False)),
                 requires_as_of = truthy (dict_get payload ''requires_as_of'' (JBool False)),
                 volatility = py_str (host_frepr h) (dict_get payload ''volatility'' (JStr ''static'')),
                 required_independence = (case required of JStr s \<Rightarrow> Some s | _ \<Rightarrow> None)\<rparr>)"

definition reverify_days :: "claim_type_rule \<Rightarrow> int" where
  "reverify_days rule = (case map_of VOLATILITY_REVERIFY_DAYS (volatility rule) of None \<Rightarrow> 90 | Some d \<Rightarrow> d)"

subsection \<open>Evaluation\<close>

record evaluated_evidence =
  ee_identity_hash :: string
  ee_kind :: string
  ee_relation :: string
  ee_scope :: json_dict
  ee_independence_group :: string
  ee_env_relation :: string
  ee_resolved :: bool

definition relation_met :: "evaluated_evidence list \<Rightarrow> string \<Rightarrow> exn + bool" where
  "relation_met support required =
     (if required = ''independent_replication''
      then Inr (2 \<le> length (remdups (map ee_independence_group
             (filter (\<lambda>e. ee_env_relation e = ''independent_replication'') support))))
      else case map_of RELATION_RANK required of
        None \<Rightarrow> Inl (KeyError required)
      | Some threshold \<Rightarrow>
          Inr (2 \<le> length (filter (\<lambda>e. threshold \<le> (case map_of RELATION_RANK (ee_env_relation e) of
                  None \<Rightarrow> 0 | Some r \<Rightarrow> r)) support)))"

record assessment_result =
  ar_grade :: effective_grade
  ar_epistemic_status :: epistemic_status
  ar_confidence :: rat
  ar_reverify_after_days :: int
  ar_reasons :: "string list"

definition supports :: "evaluated_evidence list \<Rightarrow> evaluated_evidence list" where
  "supports evs = filter (\<lambda>e. ee_relation e = ''supports'') evs"

definition open_counters :: "evaluated_evidence list \<Rightarrow> evaluated_evidence list" where
  "open_counters evs = filter (\<lambda>e. ee_relation e = ''counters'' \<and> \<not> ee_resolved e) evs"

definition resolved_counters :: "evaluated_evidence list \<Rightarrow> nat" where
  "resolved_counters evs = length (filter (\<lambda>e. ee_relation e = ''counters'' \<and> ee_resolved e) evs)"

text \<open>\<open>sorted({e.independence_group for e in support})\<close>.\<close>

definition groups_of :: "evaluated_evidence list \<Rightarrow> string list" where
  "groups_of support = sort (remdups (map ee_independence_group support))"

definition forbidden_kind :: "claim_type_rule \<Rightarrow> evaluated_evidence list \<Rightarrow> evaluated_evidence option" where
  "forbidden_kind rule support = find (\<lambda>e. JStr (ee_kind e) \<notin> set (allowed_kinds rule)) support"

definition scope_ok :: "iso_reader \<Rightarrow> claim_type_rule \<Rightarrow> json_dict \<Rightarrow> evaluated_evidence list \<Rightarrow> exn + bool" where
  "scope_ok ir rule claim_scope support =
     (if support = [] then Inr (\<not> requires_scope rule \<or> claim_scope = [])
      else if \<not> requires_scope rule then Inr True
      else if claim_scope = [] then Inr False
      else try_all (\<lambda>e. scope_covers ir (ee_scope e) claim_scope) support)"

text \<open>\<open>EffectiveGrade(grade.value[0] + str(grade.level + 1))\<close> below E4.\<close>

primrec next_grade :: "effective_grade \<Rightarrow> effective_grade" where
  "next_grade E0 = E1"
| "next_grade E1 = E2"
| "next_grade E2 = E3"
| "next_grade E3 = E4"
| "next_grade E4 = E4"

definition lifted_grade :: "claim_type_rule \<Rightarrow> nat \<Rightarrow> effective_grade" where
  "lifted_grade rule ngroups =
     (let grade = min_grade_for_supported rule in
      if 2 * min_independence_groups rule \<le> int ngroups \<and> grade_level grade < 4
      then next_grade grade else grade)"

definition confidence_of :: "claim_type_rule \<Rightarrow> effective_grade \<Rightarrow> bool \<Rightarrow> nat \<Rightarrow> rat" where
  "confidence_of rule grade countered ngroups =
     (let c0 = GRADE_CONFIDENCE_BASE grade;
          c1 = (if countered then fl (c0 * fl (6 / 10)) else c0);
          c2 = (if min_independence_groups rule \<noteq> 0
                then fl (c1 * min 1 (fl (of_nat ngroups / of_int (min_independence_groups rule)))) else c1)
      in round_digits 4 (min 1 (max 0 c2)))"

definition evaluate ::
  "iso_reader \<Rightarrow> string \<Rightarrow> claim_type_rule \<Rightarrow> json_dict \<Rightarrow> evaluated_evidence list \<Rightarrow> bool \<Rightarrow>
   exn + assessment_result" where
  "evaluate ir claim_type rule claim_scope evidences has_as_of =
     (let support = supports evidences; counter = open_counters evidences; groups = groups_of support;
          as_of_ok = (\<not> requires_as_of rule \<or> has_as_of); reverify = reverify_days rule in
      case forbidden_kind rule support of
        Some e \<Rightarrow> Inl (RuleValidationError (''support evidence kind '' @ repr_str (ee_kind e)
                   @ '' not allowed for '' @ claim_type))
      | None \<Rightarrow>
      case scope_ok ir rule claim_scope support of Inl e \<Rightarrow> Inl e | Inr sc_ok \<Rightarrow>
      if support = [] \<and> counter = [] then
        Inr \<lparr>ar_grade = E0,
             ar_epistemic_status = (if requires_as_of rule \<and> \<not> has_as_of then ES_DEFERRED else ES_HYPOTHESIS),
             ar_confidence = fl (5 / 100), ar_reverify_after_days = reverify, ar_reasons = [''no_evidence'']\<rparr>
      else if support = [] then
        Inr \<lparr>ar_grade = E0, ar_epistemic_status = ES_REFUTED, ar_confidence = fl (5 / 10),
             ar_reverify_after_days = reverify, ar_reasons = [''counterevidence_only'']\<rparr>
      else case (case required_independence rule of None \<Rightarrow> Inr True | Some r \<Rightarrow> relation_met support r) of
        Inl e \<Rightarrow> Inl e
      | Inr rel_ok \<Rightarrow>
          let enough = min_support_evidence rule \<le> int (length support);
              independent = min_independence_groups rule \<le> int (length groups);
              (grade, status, reasons) =
                (if counter \<noteq> [] then (E1, ES_DISPUTED, [''counterevidence_unresolved''])
                 else if enough \<and> independent \<and> rel_ok \<and> sc_ok \<and> as_of_ok then
                   (lifted_grade rule (length groups), ES_SUPPORTED,
                    ''requirements_met'' # (if resolved_counters evidences \<noteq> 0 then [''counterevidence_resolved''] else []))
                 else (E1, ES_HYPOTHESIS,
                   [if \<not> enough then ''insufficient_evidence''
                    else if \<not> independent then ''insufficient_independence''
                    else if \<not> rel_ok then ''independence_'' @ opt_str (required_independence rule) @ ''_not_met''
                    else if \<not> sc_ok then ''scope_not_covered''
                    else ''as_of_missing'']))
          in Inr \<lparr>ar_grade = grade, ar_epistemic_status = status,
                  ar_confidence = confidence_of rule grade (counter \<noteq> []) (length groups),
                  ar_reverify_after_days = reverify, ar_reasons = reasons\<rparr>)"

subsection \<open>Deadlines and freshness\<close>

definition reverify_after :: "assessment_result \<Rightarrow> claim_date_anchor \<Rightarrow> instant \<Rightarrow> instant option" where
  "reverify_after result anchor now =
     (if anchor \<noteq> CDA_RELATIVE then None
      else Some (now + ar_reverify_after_days result * 86400000000))"

definition freshness_of :: "instant option \<Rightarrow> instant \<Rightarrow> freshness_status" where
  "freshness_of deadline now = (case deadline of
     None \<Rightarrow> FS_EVERGREEN | Some t \<Rightarrow> if now < t then FS_FRESH else FS_DUE)"

subsection \<open>What a rule asks for\<close>

text \<open>
  The requirements of a rule as a predicate on the evidence: enough supporting evidence, enough
  independence groups, the required relation, a covered scope and a reference date.
\<close>

definition requirements_met ::
  "iso_reader \<Rightarrow> claim_type_rule \<Rightarrow> json_dict \<Rightarrow> evaluated_evidence list \<Rightarrow> bool \<Rightarrow> bool" where
  "requirements_met ir rule claim_scope evs has_as_of \<longleftrightarrow>
     min_support_evidence rule \<le> int (length (supports evs))
     \<and> min_independence_groups rule \<le> int (card (ee_independence_group ` set (supports evs)))
     \<and> (\<forall>r. required_independence rule = Some r \<longrightarrow> relation_met (supports evs) r = Inr True)
     \<and> (requires_scope rule \<longrightarrow> claim_scope \<noteq> [] \<and> (\<forall>e\<in>set (supports evs). scope_covers ir (ee_scope e) claim_scope = Inr True))
     \<and> (requires_as_of rule \<longrightarrow> has_as_of)"

definition group_count :: "evaluated_evidence list \<Rightarrow> nat" where
  "group_count evs = card (ee_independence_group ` set (supports evs))"

lemma length_groups_of: "length (groups_of xs) = card (ee_independence_group ` set xs)"
  by (simp add: groups_of_def length_remdups_card_conv)

lemma try_all_True: "try_all f xs = Inr True \<longleftrightarrow> (\<forall>x\<in>set xs. f x = Inr True)"
  by (induction xs) (auto split: sum.splits if_splits)

lemma forbidden_kind_None:
  "forbidden_kind rule xs = None \<longleftrightarrow> (\<forall>e\<in>set xs. JStr (ee_kind e) \<in> set (allowed_kinds rule))"
  by (auto simp: forbidden_kind_def find_None_iff)

lemma scope_ok_True:
  "xs \<noteq> [] \<Longrightarrow> scope_ok ir rule sc xs = Inr True \<longleftrightarrow>
     (requires_scope rule \<longrightarrow> sc \<noteq> [] \<and> (\<forall>e\<in>set xs. scope_covers ir (ee_scope e) sc = Inr True))"
  by (auto simp: scope_ok_def try_all_True)

lemma evaluateE:
  assumes "evaluate ir ct rule sc evs ao = Inr r"
  obtains (unsupported) "supports evs = []" "ar_grade r = E0"
      "ar_epistemic_status r = (if open_counters evs \<noteq> [] then ES_REFUTED
         else if requires_as_of rule \<and> \<not> ao then ES_DEFERRED else ES_HYPOTHESIS)"
      "ar_confidence r = (if open_counters evs \<noteq> [] then fl (5 / 10) else fl (5 / 100))"
    | (disputed) "supports evs \<noteq> []" "open_counters evs \<noteq> []" "ar_grade r = E1"
      "ar_epistemic_status r = ES_DISPUTED"
      "ar_confidence r = confidence_of rule E1 True (group_count evs)"
    | (supported) "supports evs \<noteq> []" "open_counters evs = []" "requirements_met ir rule sc evs ao"
      "ar_grade r = lifted_grade rule (group_count evs)" "ar_epistemic_status r = ES_SUPPORTED"
      "ar_confidence r = confidence_of rule (lifted_grade rule (group_count evs)) False (group_count evs)"
    | (short) "supports evs \<noteq> []" "open_counters evs = []" "\<not> requirements_met ir rule sc evs ao"
      "ar_grade r = E1" "ar_epistemic_status r = ES_HYPOTHESIS"
      "ar_confidence r = confidence_of rule E1 False (group_count evs)"
proof (cases "supports evs = []")
  case True
  have "forbidden_kind rule [] = None" by (simp add: forbidden_kind_def)
  then show thesis using assms True
    by (intro unsupported) (auto simp: evaluate_def Let_def scope_ok_def split: if_splits)
next
  case False
  from assms have kinds: "forbidden_kind rule (supports evs) = None"
    by (auto simp: evaluate_def Let_def split: option.splits)
  from assms kinds obtain so where so: "scope_ok ir rule sc (supports evs) = Inr so"
    by (auto simp: evaluate_def Let_def split: sum.splits)
  from assms kinds so False obtain ro where
    ro: "(case required_independence rule of None \<Rightarrow> Inr True | Some q \<Rightarrow> relation_met (supports evs) q) = Inr ro"
    by (auto simp: evaluate_def Let_def split: sum.splits)
  have met: "requirements_met ir rule sc evs ao \<longleftrightarrow>
      min_support_evidence rule \<le> int (length (supports evs))
      \<and> min_independence_groups rule \<le> int (group_count evs) \<and> ro \<and> so \<and> (requires_as_of rule \<longrightarrow> ao)"
    using scope_ok_True [OF False, of ir rule sc] so ro
    by (auto simp: requirements_met_def group_count_def split: option.splits)
  note r = assms [unfolded evaluate_def Let_def kinds option.case so sum.case ro length_groups_of group_count_def [symmetric]]
  show thesis
  proof (cases "open_counters evs = []")
    case True
    show thesis
    proof (cases "requirements_met ir rule sc evs ao")
      case m: True
      with met r False True show thesis by (intro supported) auto
    next
      case m: False
      with met r False True show thesis by (intro short) (auto split: if_splits)
    qed
  next
    case c: False
    with r False show thesis by (intro disputed) auto
  qed
qed

subsection \<open>Confidence\<close>

lemma confidence_unit: "0 \<le> confidence_of rule g c n \<and> confidence_of rule g c n \<le> 1"
  unfolding confidence_of_def Let_def by (intro round_digits_unit) auto

lemma base_nonneg: "0 \<le> GRADE_CONFIDENCE_BASE g"
  by (cases g) (simp_all add: fl_nonneg)

lemma base_mono: "g \<le> g' \<Longrightarrow> GRADE_CONFIDENCE_BASE g \<le> GRADE_CONFIDENCE_BASE g'"
  by (cases g; cases g') (simp_all add: less_eq_effective_grade_def fl_mono)

lemma lifted_grade_mono: "n \<le> m \<Longrightarrow> lifted_grade rule n \<le> lifted_grade rule m"
  by (cases "min_grade_for_supported rule") (auto simp: lifted_grade_def less_eq_effective_grade_def)

lemma lifted_grade_ge: "min_grade_for_supported rule \<le> lifted_grade rule n"
  by (cases "min_grade_for_supported rule") (auto simp: lifted_grade_def less_eq_effective_grade_def)

lemma base_is_float: "fl (GRADE_CONFIDENCE_BASE g) = GRADE_CONFIDENCE_BASE g"
  by (cases g) (simp_all only: GRADE_CONFIDENCE_BASE.simps fl_idem)

lemma confidence_mono:
  assumes base: "c' \<longrightarrow> c" "g \<le> g'" and n: "n \<le> n'"
  shows "confidence_of rule g c n \<le> confidence_of rule g' c' n'"
proof -
  let ?k = "min_independence_groups rule"
  let ?q = "\<lambda>n. min 1 (fl (of_nat n / of_int ?k)) :: rat"
  let ?b = "\<lambda>g c. if c then fl (GRADE_CONFIDENCE_BASE g * fl (6 / 10)) else GRADE_CONFIDENCE_BASE g"
  have point6: "fl (6 / 10) \<le> 1" by (intro fl_le_1) simp
  have b0: "0 \<le> ?b g c" for g c using base_nonneg [of g] fl_nonneg [of "6 / 10"] by (auto intro!: fl_nonneg)
  have "GRADE_CONFIDENCE_BASE g * fl (6 / 10) \<le> GRADE_CONFIDENCE_BASE g * 1"
    using point6 base_nonneg by (intro mult_left_mono)
  then have damp: "fl (GRADE_CONFIDENCE_BASE g * fl (6 / 10)) \<le> GRADE_CONFIDENCE_BASE g"
    using fl_mono base_is_float by fastforce
  have gg: "GRADE_CONFIDENCE_BASE g \<le> GRADE_CONFIDENCE_BASE g'" using base_mono [OF base(2)] .
  have "fl (GRADE_CONFIDENCE_BASE g * fl (6 / 10)) \<le> fl (GRADE_CONFIDENCE_BASE g' * fl (6 / 10))"
    using gg fl_nonneg [of "6 / 10"] by (intro fl_mono mult_right_mono) auto
  then have b: "?b g c \<le> ?b g' c'" using base(1) gg damp by auto
  consider "?k = 0" | "?k > 0" | "?k < 0" by linarith
  then show ?thesis
  proof cases
    case 1
    then show ?thesis using b by (auto simp: confidence_of_def Let_def intro!: round_digits_mono)
  next
    case 2
    have "fl (of_nat n / of_int ?k) \<le> fl (of_nat n' / of_int ?k)"
      using n 2 by (intro fl_mono divide_right_mono) auto
    then have q: "?q n \<le> ?q n'" by auto
    have "0 \<le> ?q n" using 2 by (auto intro!: fl_nonneg)
    then have "?b g c * ?q n \<le> ?b g' c' * ?q n'" using b b0 q by (intro mult_mono) auto
    then have "fl (?b g c * ?q n) \<le> fl (?b g' c' * ?q n')" by (rule fl_mono)
    with 2 show ?thesis unfolding confidence_of_def Let_def by (intro round_digits_mono) (auto split: if_splits)
  next
    case 3
    have neg: "fl (?b g c * ?q n) \<le> 0" for g c n
    proof -
      have "(of_nat n :: rat) / of_int ?k \<le> 0" using 3 by (simp add: divide_nonneg_neg)
      then have "?q n \<le> 0" using fl_mono [of "of_nat n / of_int ?k" 0] by simp
      then have "?b g c * ?q n \<le> 0" using b0 by (intro mult_nonneg_nonpos)
      then show ?thesis using fl_mono [of _ 0] by fastforce
    qed
    then have z: "max 0 (fl (?b g c * ?q n)) = 0" for g c n by (intro max_absorb1)
    have "confidence_of rule g c n = round_digits 4 (min 1 (max 0 (fl (?b g c * ?q n))))" for g c n
      using 3 by (simp add: confidence_of_def Let_def)
    then have "confidence_of rule g c n = 0" for g c n by (simp only: z) simp
    then show ?thesis by simp
  qed
qed

text \<open>
  C27.  A grade is earned: a claim is supported exactly when it has support, no open counterevidence
  and the rule's requirements are met, among them, for a rule that asks for independent replication,
  two independence groups of replicating support; a supported claim has at least the rule's grade.
  Every other claim stays at E1 or below, without support at E0, open counterevidence makes it disputed
  or refuted, and the confidence is between 0 and 1.
\<close>

theorem grade_is_earned:
  assumes "evaluate ir ct rule sc evs ao = Inr r"
  shows "(ar_epistemic_status r = ES_SUPPORTED \<longleftrightarrow>
        supports evs \<noteq> [] \<and> open_counters evs = [] \<and> requirements_met ir rule sc evs ao)
    \<and> (ar_epistemic_status r = ES_SUPPORTED \<longrightarrow> min_grade_for_supported rule \<le> ar_grade r)
    \<and> (ar_epistemic_status r = ES_SUPPORTED \<and> required_independence rule = Some ''independent_replication'' \<longrightarrow>
        2 \<le> card (ee_independence_group ` {e \<in> set evs. ee_relation e = ''supports'' \<and> ee_env_relation e = ''independent_replication''}))
    \<and> (ar_epistemic_status r \<noteq> ES_SUPPORTED \<longrightarrow> ar_grade r \<le> E1)
    \<and> (supports evs = [] \<longrightarrow> ar_grade r = E0)
    \<and> (ar_epistemic_status r \<in> {ES_DISPUTED, ES_REFUTED} \<longleftrightarrow> open_counters evs \<noteq> [])
    \<and> 0 \<le> ar_confidence r \<and> ar_confidence r \<le> 1"
proof -
  have replicated: "2 \<le> card (ee_independence_group ` {e \<in> set evs. ee_relation e = ''supports'' \<and> ee_env_relation e = ''independent_replication''})"
    if "requirements_met ir rule sc evs ao" "required_independence rule = Some ''independent_replication''"
  proof -
    have "relation_met (supports evs) ''independent_replication'' = Inr True" using that by (simp add: requirements_met_def)
    then show ?thesis
      by (simp add: relation_met_def length_remdups_card_conv supports_def conj_assoc)
  qed
  from assms show ?thesis
  proof (cases rule: evaluateE)
    case unsupported
    have "0 \<le> fl (5 / 10)" "fl (5 / 10) \<le> 1" "0 \<le> fl (5 / 100)" "fl (5 / 100) \<le> 1"
      by (simp_all add: fl_nonneg fl_le_1)
    with unsupported show ?thesis by (auto simp: less_eq_effective_grade_def)
  next
    case supported
    then show ?thesis using replicated confidence_unit lifted_grade_ge by simp
  qed (use confidence_unit in \<open>auto simp: less_eq_effective_grade_def\<close>)
qed

subsection \<open>More evidence\<close>

lemma supports_snoc: "supports (evs @ [e]) = supports evs @ (if ee_relation e = ''supports'' then [e] else [])"
  by (simp add: supports_def)

lemma open_counters_snoc:
  "open_counters (evs @ [e]) =
     open_counters evs @ (if ee_relation e = ''counters'' \<and> \<not> ee_resolved e then [e] else [])"
  by (simp add: open_counters_def)

lemma group_count_mono: "group_count evs \<le> group_count (evs @ [e])"
  unfolding group_count_def by (rule card_mono) (auto simp: supports_snoc)

lemma relation_met_mono:
  assumes "relation_met xs q = Inr True"
  shows "relation_met (xs @ ys) q = Inr True"
proof (cases "q = ''independent_replication''")
  case True
  let ?g = "\<lambda>xs. ee_independence_group ` {e \<in> set xs. ee_env_relation e = ''independent_replication''}"
  have "card (?g xs) \<le> card (?g xs \<union> ?g ys)" by (rule card_mono) auto
  with assms True show ?thesis by (auto simp: relation_met_def length_remdups_card_conv)
next
  case False
  with assms show ?thesis by (cases "map_of RELATION_RANK q") (simp_all add: relation_met_def trans_le_add1)
qed

lemma evaluate_supported:
  assumes "supports evs \<noteq> []" and "open_counters evs = []" and "requirements_met ir rule sc evs ao"
    and "\<And>e. e \<in> set (supports evs) \<Longrightarrow> JStr (ee_kind e) \<in> set (allowed_kinds rule)"
  shows "\<exists>r. evaluate ir ct rule sc evs ao = Inr r \<and> ar_epistemic_status r = ES_SUPPORTED
    \<and> ar_grade r = lifted_grade rule (group_count evs)
    \<and> ar_confidence r = confidence_of rule (lifted_grade rule (group_count evs)) False (group_count evs)"
proof -
  have "forbidden_kind rule (supports evs) = None" using assms(4) by (simp add: forbidden_kind_None)
  moreover have "scope_ok ir rule sc (supports evs) = Inr True"
    using assms(1,3) by (simp add: scope_ok_True requirements_met_def)
  moreover have "(case required_independence rule of None \<Rightarrow> Inr True | Some q \<Rightarrow> relation_met (supports evs) q) = Inr True"
    using assms(3) by (auto simp: requirements_met_def split: option.splits)
  ultimately obtain r where r: "evaluate ir ct rule sc evs ao = Inr r" using assms(1)
    by (cases "evaluate ir ct rule sc evs ao") (auto simp: evaluate_def Let_def split: prod.splits)
  then have "ar_epistemic_status r = ES_SUPPORTED \<and> ar_grade r = lifted_grade rule (group_count evs)
      \<and> ar_confidence r = confidence_of rule (lifted_grade rule (group_count evs)) False (group_count evs)"
    using assms(1-3) by (cases rule: evaluateE) auto
  with r show ?thesis by blast
qed

text \<open>
  C28.  Grade E3 without replication: the architecture and the comment on \<open>required_independence\<close> say that only
  independent replication lifts a grade to E3, yet a rule with grade E2 and no required relation gives E3 to every
  claim with twice the required independence groups, whatever relation its evidence has.
\<close>

theorem grade_lifts_without_replication:
  assumes "min_grade_for_supported rule = E2" and "required_independence rule = None"
    and "supports evs \<noteq> []" and "open_counters evs = []" and "requirements_met ir rule sc evs ao"
    and "\<And>e. e \<in> set (supports evs) \<Longrightarrow> JStr (ee_kind e) \<in> set (allowed_kinds rule)"
    and "2 * min_independence_groups rule \<le> int (card (ee_independence_group ` set (supports evs)))"
    and "\<forall>e\<in>set evs. ee_env_relation e \<noteq> ''independent_replication''"
  shows "\<exists>r. evaluate ir ct rule sc evs ao = Inr r \<and> ar_epistemic_status r = ES_SUPPORTED \<and> ar_grade r = E3"
  using evaluate_supported [OF assms(3-6), where ct = ct] assms(1,7) by (auto simp: lifted_grade_def group_count_def)


lemma evaluate_kinds:
  "evaluate ir ct rule sc evs ao = Inr r \<Longrightarrow> e \<in> set (supports evs) \<Longrightarrow> JStr (ee_kind e) \<in> set (allowed_kinds rule)"
  using forbidden_kind_None [of rule "supports evs"] by (auto simp: evaluate_def Let_def split: option.splits)

text \<open>
  C29.  More support never weakens a supported claim: adding supporting evidence of an allowed kind
  that covers the scope keeps it supported, and neither its grade nor its confidence falls.
\<close>

theorem more_support_never_weakens:
  assumes "evaluate ir ct rule sc evs ao = Inr r" and "ar_epistemic_status r = ES_SUPPORTED"
    and "ee_relation e = ''supports''" and "JStr (ee_kind e) \<in> set (allowed_kinds rule)"
    and "requires_scope rule \<Longrightarrow> scope_covers ir (ee_scope e) sc = Inr True"
  shows "\<exists>r'. evaluate ir ct rule sc (evs @ [e]) ao = Inr r' \<and> ar_epistemic_status r' = ES_SUPPORTED
    \<and> ar_grade r \<le> ar_grade r' \<and> ar_confidence r \<le> ar_confidence r'"
proof -
  from assms(1,2) have s: "supports evs \<noteq> []" "open_counters evs = []" "requirements_met ir rule sc evs ao"
    "ar_grade r = lifted_grade rule (group_count evs)"
    "ar_confidence r = confidence_of rule (lifted_grade rule (group_count evs)) False (group_count evs)"
    by (auto elim!: evaluateE split: if_splits)
  note g = group_count_mono [of evs e]
  have "supports (evs @ [e]) \<noteq> []" "open_counters (evs @ [e]) = []"
    using s(2) assms(3) by (simp_all add: supports_snoc open_counters_snoc)
  moreover have "requirements_met ir rule sc (evs @ [e]) ao"
    using s(3) g assms(3,5) relation_met_mono
    by (auto simp: requirements_met_def supports_snoc group_count_def)
  moreover have "JStr (ee_kind x) \<in> set (allowed_kinds rule)" if "x \<in> set (supports (evs @ [e]))" for x
    using that evaluate_kinds [OF assms(1), of x] assms(3,4) by (auto simp: supports_snoc)
  ultimately obtain r' where "evaluate ir ct rule sc (evs @ [e]) ao = Inr r'" "ar_epistemic_status r' = ES_SUPPORTED"
    "ar_grade r' = lifted_grade rule (group_count (evs @ [e]))"
    "ar_confidence r' = confidence_of rule (lifted_grade rule (group_count (evs @ [e]))) False (group_count (evs @ [e]))"
    using evaluate_supported by blast
  with s lifted_grade_mono [OF g, of rule] confidence_mono [OF _ lifted_grade_mono [OF g] g, of False False rule]
  show ?thesis by auto
qed

text \<open>
  Counterevidence never helps: an open counter makes any claim disputed (refuted without
  support), and under a rule whose supported grade is at least E1 neither the grade nor, with
  support, the confidence rises.
\<close>

theorem counterevidence_never_helps:
  assumes "evaluate ir ct rule sc evs ao = Inr r" and "E1 \<le> min_grade_for_supported rule"
    and "ee_relation e = ''counters''" and "\<not> ee_resolved e"
    and "evaluate ir ct rule sc (evs @ [e]) ao = Inr r'"
  shows "ar_epistemic_status r' = (if supports evs = [] then ES_REFUTED else ES_DISPUTED)
    \<and> ar_grade r' \<le> ar_grade r \<and> (supports evs \<noteq> [] \<longrightarrow> ar_confidence r' \<le> ar_confidence r)"
proof -
  have s: "supports (evs @ [e]) = supports evs" "open_counters (evs @ [e]) \<noteq> []" "group_count (evs @ [e]) = group_count evs"
    using assms(3,4) by (simp_all add: supports_snoc open_counters_snoc group_count_def)
  have l: "E1 \<le> lifted_grade rule n" for n using assms(2) lifted_grade_ge order_trans by blast
  from assms(5) have d: "ar_epistemic_status r' = (if supports evs = [] then ES_REFUTED else ES_DISPUTED)"
    "ar_grade r' = (if supports evs = [] then E0 else E1)"
    "supports evs \<noteq> [] \<Longrightarrow> ar_confidence r' = confidence_of rule E1 True (group_count evs)"
    using s by (auto elim!: evaluateE)
  have c: "confidence_of rule E1 True n \<le> confidence_of rule g c n" if "E1 \<le> g" for g c n
    using that by (intro confidence_mono) auto
  from assms(1) show ?thesis
    by (cases rule: evaluateE) (use d l c in \<open>auto simp: less_eq_effective_grade_def\<close>)
qed

text \<open>
  The order of the evidence does not matter: on scopes whose coverage can be decided, an
  assessment of a reordered evidence set is the same assessment.
\<close>

definition coverage_decided :: "iso_reader \<Rightarrow> json_dict \<Rightarrow> evaluated_evidence list \<Rightarrow> bool" where
  "coverage_decided ir sc evs \<longleftrightarrow> (\<forall>e\<in>set evs. \<exists>b. scope_covers ir (ee_scope e) sc = Inr b)"

lemma try_all_decided:
  assumes "\<forall>x\<in>set xs. \<exists>b. f x = Inr b"
  shows "try_all f xs = Inr (\<forall>x\<in>set xs. f x = Inr True)"
  using assms by (induction xs) auto

lemma scope_ok_decided:
  assumes "coverage_decided ir sc evs" and "set xs \<subseteq> set evs"
  shows "scope_ok ir rule sc xs =
     Inr (if xs = [] then \<not> requires_scope rule \<or> sc = []
          else requires_scope rule \<longrightarrow> sc \<noteq> [] \<and> (\<forall>e\<in>set xs. scope_covers ir (ee_scope e) sc = Inr True))"
  using assms try_all_decided [of xs "\<lambda>e. scope_covers ir (ee_scope e) sc"]
  by (auto simp: scope_ok_def coverage_decided_def)

lemma relation_met_mset: "mset xs = mset ys \<Longrightarrow> relation_met xs q = relation_met ys q"
proof -
  assume "mset xs = mset ys"
  then have f: "mset (filter p xs) = mset (filter p ys)" for p by simp
  have "length (filter p xs) = length (filter p ys)" for p using f [THEN mset_eq_length] .
  moreover have "set (map ee_independence_group (filter p xs)) = set (map ee_independence_group (filter p ys))" for p
    using f [THEN mset_eq_setD] by simp
  ultimately show ?thesis unfolding relation_met_def length_remdups_card_conv
    by (cases "map_of RELATION_RANK q") (simp_all del: set_map set_filter)
qed

theorem assessment_ignores_evidence_order:
  assumes "coverage_decided ir sc evs" and "mset evs = mset evs'"
    and "evaluate ir ct rule sc evs ao = Inr r"
  shows "evaluate ir ct rule sc evs' ao = Inr r"
proof -
  have f: "mset (filter p evs) = mset (filter p evs')" for p using assms(2) by simp
  have m: "mset (supports evs) = mset (supports evs')" "mset (open_counters evs) = mset (open_counters evs')"
    "resolved_counters evs = resolved_counters evs'"
    unfolding supports_def open_counters_def resolved_counters_def by (rule f, rule f, rule mset_eq_length, rule f)
  have st: "set (supports evs) = set (supports evs')" using m(1) by (rule mset_eq_setD)
  have ne: "supports evs = [] \<longleftrightarrow> supports evs' = []" "open_counters evs = [] \<longleftrightarrow> open_counters evs' = []"
    using m by (metis mset_zero_iff)+
  have len: "length (supports evs) = length (supports evs')" using m(1) by (rule mset_eq_length)
  have gr: "length (groups_of (supports evs)) = length (groups_of (supports evs'))" by (simp add: length_groups_of st)
  have fk: "forbidden_kind rule (supports evs) = None" "forbidden_kind rule (supports evs') = None"
    using evaluate_kinds [OF assms(3)] st by (auto simp: forbidden_kind_None)
  have cd: "coverage_decided ir sc evs'" using assms(1) mset_eq_setD [OF assms(2)] by (simp add: coverage_decided_def)
  have so: "scope_ok ir rule sc (supports evs) = scope_ok ir rule sc (supports evs')"
    using scope_ok_decided [OF assms(1), of "supports evs" rule] scope_ok_decided [OF cd, of "supports evs'" rule] st ne
    by (auto simp: supports_def)
  have rel: "relation_met (supports evs) = relation_met (supports evs')" using relation_met_mset [OF m(1)] by blast
  have "evaluate ir ct rule sc evs ao = evaluate ir ct rule sc evs' ao"
    unfolding evaluate_def Let_def fk so rel ne len gr m(3) by (rule refl)
  with assms(3) show ?thesis by simp
qed

text \<open>
  An assessment is refused exactly for forbidden support: when coverage can be decided and the
  required relation is one the configuration accepts, the engine raises \<open>RuleValidationError\<close> if some
  supporting evidence is of a kind the rule does not allow, and otherwise returns an assessment.
\<close>

theorem only_forbidden_support_is_refused:
  assumes "coverage_decided ir sc evs"
    and "\<forall>q. required_independence rule = Some q \<longrightarrow> q \<in> set REQUIRED_RELATIONS"
  shows "((\<exists>r. evaluate ir ct rule sc evs ao = Inr r) \<longleftrightarrow>
      (\<forall>e\<in>set (supports evs). JStr (ee_kind e) \<in> set (allowed_kinds rule)))
    \<and> ((\<exists>m. evaluate ir ct rule sc evs ao = Inl (RuleValidationError m)) \<longleftrightarrow>
      (\<exists>e\<in>set (supports evs). JStr (ee_kind e) \<notin> set (allowed_kinds rule)))"
proof -
  obtain b where so: "scope_ok ir rule sc (supports evs) = Inr b"
    using scope_ok_decided [OF assms(1), of "supports evs" rule] by (auto simp: supports_def)
  obtain b' where ro: "(case required_independence rule of None \<Rightarrow> Inr True | Some q \<Rightarrow> relation_met (supports evs) q) = Inr b'"
    using assms(2) by (cases "required_independence rule")
      (auto simp: relation_met_def REQUIRED_RELATIONS_def RELATION_RANK_def)
  have "\<exists>r. evaluate ir ct rule sc evs ao = Inr r" if fk: "forbidden_kind rule (supports evs) = None"
    unfolding evaluate_def Let_def fk option.case so sum.case ro by (simp split: prod.split)
  moreover have "\<exists>m. evaluate ir ct rule sc evs ao = Inl (RuleValidationError m)" if "forbidden_kind rule (supports evs) \<noteq> None"
    using that by (auto simp: evaluate_def Let_def)
  ultimately have "(\<exists>r. evaluate ir ct rule sc evs ao = Inr r) \<longleftrightarrow> forbidden_kind rule (supports evs) = None"
    "(\<exists>m. evaluate ir ct rule sc evs ao = Inl (RuleValidationError m)) \<longleftrightarrow> forbidden_kind rule (supports evs) \<noteq> None"
    by (metis sum.distinct(1))+
  then show ?thesis unfolding forbidden_kind_None by blast
qed

subsection \<open>Examples\<close>

definition example_rule :: claim_type_rule where
  "example_rule = \<lparr>min_grade_for_supported = E2, allowed_kinds = [JStr ''source_assertion''],
     min_support_evidence = 1, min_independence_groups = 1, requires_scope = False, requires_as_of = False,
     volatility = ''static'', required_independence = None\<rparr>"

definition example_evidence :: "string \<Rightarrow> string \<Rightarrow> evaluated_evidence" where
  "example_evidence rel grp = \<lparr>ee_identity_hash = [], ee_kind = ''source_assertion'', ee_relation = rel, ee_scope = [],
     ee_independence_group = grp, ee_env_relation = ''none'', ee_resolved = False\<rparr>"

definition no_reader :: iso_reader where
  "no_reader = \<lparr>iso_date = Map.empty, iso_datetime = Map.empty\<rparr>"

lemmas example_defs = example_rule_def example_evidence_def supports_def open_counters_def groups_of_def
  forbidden_kind_def scope_ok_def resolved_counters_def lifted_grade_def

lemma example_supported:
  "\<exists>r. evaluate no_reader ''t'' example_rule [] [example_evidence ''supports'' ''a''] False = Inr r
     \<and> ar_epistemic_status r = ES_SUPPORTED"
  by (simp add: evaluate_def example_defs)

theorem grade_lifts_without_replication_witness:
  "\<exists>r. evaluate no_reader ''computed_result'' example_rule []
      [example_evidence ''supports'' ''a'', example_evidence ''supports'' ''b''] False = Inr r
     \<and> ar_epistemic_status r = ES_SUPPORTED \<and> ar_grade r = E3"
  by (rule grade_lifts_without_replication) (auto simp: example_defs requirements_met_def)

theorem grade_is_earned_witness:
  "\<exists>r. evaluate no_reader ''t'' example_rule [] [example_evidence ''supports'' ''a''] False = Inr r
     \<and> requirements_met no_reader example_rule [] [example_evidence ''supports'' ''a''] False \<and> ar_confidence r \<le> 1"
proof -
  obtain r where r: "evaluate no_reader ''t'' example_rule [] [example_evidence ''supports'' ''a''] False = Inr r"
    "ar_epistemic_status r = ES_SUPPORTED" using example_supported by blast
  with grade_is_earned [OF r(1)] show ?thesis by blast
qed

theorem more_support_never_weakens_witness:
  "\<exists>r. evaluate no_reader ''t'' example_rule []
      ([example_evidence ''supports'' ''a''] @ [example_evidence ''supports'' ''b'']) False = Inr r
     \<and> ar_epistemic_status r = ES_SUPPORTED"
proof -
  obtain r where r: "evaluate no_reader ''t'' example_rule [] [example_evidence ''supports'' ''a''] False = Inr r"
    "ar_epistemic_status r = ES_SUPPORTED" using example_supported by blast
  have "ee_relation (example_evidence ''supports'' ''b'') = ''supports''"
    "JStr (ee_kind (example_evidence ''supports'' ''b'')) \<in> set (allowed_kinds example_rule)"
    "requires_scope example_rule \<Longrightarrow> scope_covers no_reader (ee_scope (example_evidence ''supports'' ''b'')) [] = Inr True"
    by (simp_all add: example_defs)
  from more_support_never_weakens [OF r this] show ?thesis by blast
qed

theorem counterevidence_never_helps_witness:
  "\<exists>r. evaluate no_reader ''t'' example_rule []
      ([example_evidence ''supports'' ''a''] @ [example_evidence ''counters'' ''b'']) False = Inr r
     \<and> ar_epistemic_status r = ES_DISPUTED"
proof -
  obtain r where r: "evaluate no_reader ''t'' example_rule [] [example_evidence ''supports'' ''a''] False = Inr r"
    using example_supported by blast
  obtain r' where r': "evaluate no_reader ''t'' example_rule []
      ([example_evidence ''supports'' ''a''] @ [example_evidence ''counters'' ''b'']) False = Inr r'"
    by (simp add: evaluate_def example_defs)
  have "E1 \<le> min_grade_for_supported example_rule" "ee_relation (example_evidence ''counters'' ''b'') = ''counters''"
    "\<not> ee_resolved (example_evidence ''counters'' ''b'')" "supports [example_evidence ''supports'' ''a''] \<noteq> []"
    by (simp_all add: example_defs less_eq_effective_grade_def)
  with counterevidence_never_helps [OF r this(1-3) r'] r' show ?thesis by auto
qed

theorem assessment_ignores_evidence_order_witness:
  "\<exists>r. evaluate no_reader ''t'' example_rule [] [example_evidence ''supports'' ''a'', example_evidence ''counters'' ''b''] False = Inr r
     \<and> evaluate no_reader ''t'' example_rule [] [example_evidence ''counters'' ''b'', example_evidence ''supports'' ''a''] False = Inr r"
proof -
  let ?a = "example_evidence ''supports'' ''a''" and ?b = "example_evidence ''counters'' ''b''"
  obtain r where r: "evaluate no_reader ''t'' example_rule [] [?a, ?b] False = Inr r"
    by (simp add: evaluate_def example_defs)
  have "coverage_decided no_reader [] [?a, ?b]"
    by (simp add: coverage_decided_def scope_covers_def is_host_derived_def dict_get_def)
  moreover have "mset [?a, ?b] = mset [?b, ?a]" by simp
  ultimately show ?thesis using assessment_ignores_evidence_order r by blast
qed

theorem only_forbidden_support_is_refused_witness:
  "\<exists>m. evaluate no_reader ''t'' (example_rule\<lparr>allowed_kinds := []\<rparr>) [] [example_evidence ''supports'' ''a''] False
     = Inl (RuleValidationError m)"
proof -
  let ?rule = "example_rule\<lparr>allowed_kinds := []\<rparr>" and ?a = "example_evidence ''supports'' ''a''"
  have "coverage_decided no_reader [] [?a]"
    by (simp add: coverage_decided_def scope_covers_def is_host_derived_def dict_get_def)
  moreover have "\<forall>q. required_independence ?rule = Some q \<longrightarrow> q \<in> set REQUIRED_RELATIONS" by (simp add: example_rule_def)
  ultimately show ?thesis using only_forbidden_support_is_refused [of no_reader "[]" "[?a]" ?rule "''t''" False]
    by (auto simp: example_defs)
qed

text \<open>
  Only claims about the present expire: a claim has a deadline exactly when its date anchor is
  relative, counted from the moment of verification; it is due exactly from the deadline on and
  stays due, and a claim about a fixed point is evergreen at every moment.
\<close>

theorem only_present_claims_expire:
  "(reverify_after r anchor verified = None \<longleftrightarrow> anchor \<noteq> CDA_RELATIVE)
   \<and> (anchor \<noteq> CDA_RELATIVE \<longrightarrow> freshness_of (reverify_after r anchor verified) now = FS_EVERGREEN)
   \<and> (freshness_of (reverify_after r anchor verified) now = FS_DUE \<longleftrightarrow>
        anchor = CDA_RELATIVE \<and> verified + ar_reverify_after_days r * 86400000000 \<le> now)
   \<and> (freshness_of (reverify_after r anchor verified) now = FS_DUE \<and> now \<le> later \<longrightarrow>
        freshness_of (reverify_after r anchor verified) later = FS_DUE)"
  by (auto simp: reverify_after_def freshness_of_def)

theorem only_present_claims_expire_witness:
  "freshness_of (reverify_after \<lparr>ar_grade = E2, ar_epistemic_status = ES_SUPPORTED, ar_confidence = 0,
      ar_reverify_after_days = 30, ar_reasons = []\<rparr> CDA_NONE 0) 5 = FS_EVERGREEN"
  using only_present_claims_expire [of "\<lparr>ar_grade = E2, ar_epistemic_status = ES_SUPPORTED, ar_confidence = 0,
      ar_reverify_after_days = 30, ar_reasons = []\<rparr>" CDA_NONE 0 5 5] by blast

end
