(* ===== verification/EnvIndependence.thy ===== *)
theory EnvIndependence
  imports RulesEngine
begin

section \<open>Independence of environments\<close>

text \<open>
  \<open>packages/memory/env_independence.py\<close>: the groups of environment manifests, the relation between
  two manifests, the strongest relation of a manifest with the others, and the snapshot of the
  manifests a claim's evidence refers to.
\<close>

record env_manifest =
  em_id :: uuid
  em_protocol_hash :: "string option"
  em_implementation_hash :: "string option"
  em_dataset_lineage :: "string option"
  em_runtime_hash :: "string option"
  em_hardware_hash :: "string option"
  em_toolchain_hash :: "string option"
  em_dependency_hash :: "string option"
  em_seed :: "int option"
  em_data_order_hash :: "string option"

datatype env_relation =
  Rel_none | Rel_untracked | Rel_variation | Rel_repeatability | Rel_reproducibility | Rel_independent_replication

primrec env_relation_value :: "env_relation \<Rightarrow> string" where
  "env_relation_value Rel_none = ''none''"
| "env_relation_value Rel_untracked = ''untracked''"
| "env_relation_value Rel_variation = ''variation''"
| "env_relation_value Rel_repeatability = ''repeatability''"
| "env_relation_value Rel_reproducibility = ''reproducibility''"
| "env_relation_value Rel_independent_replication = ''independent_replication''"

primrec env_relation_rank :: "env_relation \<Rightarrow> nat" where
  "env_relation_rank Rel_none = 0"
| "env_relation_rank Rel_untracked = 1"
| "env_relation_rank Rel_variation = 1"
| "env_relation_rank Rel_repeatability = 2"
| "env_relation_rank Rel_reproducibility = 3"
| "env_relation_rank Rel_independent_replication = 4"

definition ENV_INDEPENDENCE_ALGORITHM_VERSION :: string where
  "ENV_INDEPENDENCE_ALGORITHM_VERSION = ''env-independence-v1''"

definition UNTRACKED_GROUP :: string where
  "UNTRACKED_GROUP = ''envgrp:untracked''"

definition lineage_unknown :: "env_manifest \<Rightarrow> bool" where
  "lineage_unknown v \<longleftrightarrow>
     em_protocol_hash v = None \<and> em_implementation_hash v = None \<and> em_dataset_lineage v = None"

text \<open>\<open>x or ""\<close>.\<close>

definition or_empty :: "string option \<Rightarrow> string" where
  "or_empty x = (case x of None \<Rightarrow> [] | Some s \<Rightarrow> s)"

definition environment_group :: "host \<Rightarrow> env_manifest \<Rightarrow> string" where
  "environment_group h v =
     (if lineage_unknown v then UNTRACKED_GROUP
      else ''envgrp:'' @ take 16 (host_canonical_sha256 h (JObj
             [(''protocol'', JStr (or_empty (em_protocol_hash v))),
              (''implementation'', JStr (or_empty (em_implementation_hash v))),
              (''dataset_lineage'', JStr (or_empty (em_dataset_lineage v)))])))"

definition env_key :: "env_manifest \<Rightarrow> string option \<times> string option \<times> string option \<times> string option \<times> int option \<times> string option" where
  "env_key v = (em_runtime_hash v, em_hardware_hash v, em_toolchain_hash v, em_dependency_hash v,
     em_seed v, em_data_order_hash v)"

definition classify_pair :: "host \<Rightarrow> env_manifest \<Rightarrow> env_manifest \<Rightarrow> env_relation" where
  "classify_pair h a b =
     (if lineage_unknown a then Rel_untracked
      else if lineage_unknown b then Rel_untracked
      else if environment_group h a = environment_group h b
      then (if env_key a = env_key b then Rel_repeatability else Rel_reproducibility)
      else
        let method_independent = (em_protocol_hash a \<noteq> em_protocol_hash b
              \<or> em_implementation_hash a \<noteq> em_implementation_hash b);
            data_dependent = (em_dataset_lineage a \<noteq> None \<and> em_dataset_lineage b \<noteq> None)
        in if method_independent \<and> \<not> (data_dependent \<and> em_dataset_lineage a = em_dataset_lineage b)
           then Rel_independent_replication else Rel_variation)"

fun strongest_of :: "host \<Rightarrow> env_manifest \<Rightarrow> env_manifest list \<Rightarrow> env_relation \<times> string \<Rightarrow> env_relation \<times> string" where
  "strongest_of h v [] best = best"
| "strongest_of h v (other # rest) best =
     (let rel = classify_pair h v other in
      strongest_of h v rest
        (if env_relation_rank (fst best) < env_relation_rank rel
         then (rel, ''pair:'' @ take 12 (digits_width 32 (em_id other)) @ '':'' @ env_relation_value rel) else best))"

definition strongest_pair_relation :: "host \<Rightarrow> env_manifest \<Rightarrow> env_manifest list \<Rightarrow> env_relation \<times> string" where
  "strongest_pair_relation h v others =
     (let best = strongest_of h v (sort_key em_id others) (Rel_none, [])
      in if fst best = Rel_none then (Rel_none, ''single'') else best)"

record env_snapshot_row =
  es_id :: uuid
  es_algorithm_version :: string
  es_rules_hash :: string

record env_member_row =
  mb_snapshot_id :: uuid
  mb_environment_manifest_id :: uuid
  mb_group_id :: string
  mb_relation :: env_relation
  mb_basis :: string

record env_store =
  env_manifests :: "env_manifest list"
  env_snapshots :: "env_snapshot_row list"
  env_members :: "env_member_row list"

definition claim_manifest_ids :: "db \<Rightarrow> uuid \<Rightarrow> uuid list" where
  "claim_manifest_ids d claim_id =
     remdups (List.map_filter evd_environment_manifest_id (filter (\<lambda>e. evd_claim_id e = claim_id) (db_evidence d)))"

definition member_of :: "host \<Rightarrow> uuid \<Rightarrow> env_manifest list \<Rightarrow> env_manifest \<Rightarrow> env_member_row" where
  "member_of h sid views v =
     (let (rel, basis) = strongest_pair_relation h v (filter (\<lambda>o'. em_id o' \<noteq> em_id v) views)
      in \<lparr>mb_snapshot_id = sid, mb_environment_manifest_id = em_id v, mb_group_id = environment_group h v,
          mb_relation = rel, mb_basis = basis\<rparr>)"

definition build_environment_independence_snapshot ::
  "host \<Rightarrow> uuid \<Rightarrow> string \<Rightarrow> db \<Rightarrow> env_store \<Rightarrow>
   (uuid option \<times> (uuid \<times> string \<times> env_relation) list) \<times> db \<times> env_store" where
  "build_environment_independence_snapshot h claim_id rules_hash d st =
     (let ids = claim_manifest_ids d claim_id in
      if ids = [] then ((None, []), d, st)
      else
        let views = filter (\<lambda>m. em_id m \<in> set ids) (env_manifests st);
            (sid, d1) = uuid4 d;
            members = map (member_of h sid views) views
        in ((Some sid, map (\<lambda>mb. (mb_environment_manifest_id mb, mb_group_id mb, mb_relation mb)) members), d1,
            st\<lparr>env_snapshots := env_snapshots st @ [\<lparr>es_id = sid,
                 es_algorithm_version = ENV_INDEPENDENCE_ALGORITHM_VERSION, es_rules_hash = rules_hash\<rparr>],
               env_members := env_members st @ members\<rparr>))"

subsection \<open>Facts\<close>

lemma classify_pair_sym: "classify_pair h a b = classify_pair h b a"
  by (auto simp: classify_pair_def Let_def)

lemma strongest_of_rank:
  "env_relation_rank (fst best) \<le> env_relation_rank (fst (strongest_of h v xs best))
   \<and> (\<forall>x\<in>set xs. env_relation_rank (classify_pair h v x) \<le> env_relation_rank (fst (strongest_of h v xs best)))"
proof (induction xs arbitrary: best)
  case (Cons x xs)
  let ?b = "(classify_pair h v x, ''pair:'' @ take 12 (digits_width 32 (em_id x)) @ '':'' @ env_relation_value (classify_pair h v x))"
  from Cons.IH [of ?b] Cons.IH [of best] show ?case by (auto simp: Let_def)
qed simp

lemma strongest_of_from:
  "fst (strongest_of h v xs best) = fst best \<or> (\<exists>x\<in>set xs. fst (strongest_of h v xs best) = classify_pair h v x)"
proof (induction xs arbitrary: best)
  case (Cons x xs)
  show ?case
  proof (cases "env_relation_rank (fst best) < env_relation_rank (classify_pair h v x)")
    case True
    let ?b = "(classify_pair h v x, ''pair:'' @ take 12 (digits_width 32 (em_id x)) @ '':'' @ env_relation_value (classify_pair h v x))"
    from True have "strongest_of h v (x # xs) best = strongest_of h v xs ?b" by (simp add: Let_def)
    with Cons.IH [of ?b] show ?thesis by (metis fst_conv list.set_intros)
  next
    case False
    then have "strongest_of h v (x # xs) best = strongest_of h v xs best" by (simp add: Let_def)
    with Cons.IH [of best] show ?thesis by (metis list.set_intros(2))
  qed
qed simp

lemma strongest_pair_relation_fst:
  "fst (strongest_pair_relation h v others) = fst (strongest_of h v (sort_key em_id others) (Rel_none, []))"
  by (simp add: strongest_pair_relation_def Let_def)

lemma rank_agrees: "map_of RELATION_RANK (env_relation_value r) = Some (int (env_relation_rank r))"
  by (cases r) (simp_all add: RELATION_RANK_def)

text \<open>
  The relation of a manifest is that of its best pair: its rank is the largest rank of a pair
  with another manifest of the set, it is \<open>none\<close> exactly when the manifest stands alone, and it is
  independent replication exactly when some counterpart replicates it independently.  The relation
  of a pair does not depend on its order, and the rules engine ranks the relations alike.
\<close>

theorem strongest_relation_is_the_best_pair:
  "(\<forall>o'\<in>set others. env_relation_rank (classify_pair h v o') \<le> env_relation_rank (fst (strongest_pair_relation h v others)))
   \<and> (others \<noteq> [] \<longrightarrow> (\<exists>o'\<in>set others. fst (strongest_pair_relation h v others) = classify_pair h v o'))
   \<and> (fst (strongest_pair_relation h v others) = Rel_none \<longleftrightarrow> others = [])
   \<and> (fst (strongest_pair_relation h v others) = Rel_independent_replication \<longleftrightarrow>
        (\<exists>o'\<in>set others. classify_pair h o' v = Rel_independent_replication))
   \<and> map_of RELATION_RANK (env_relation_value (classify_pair h v w)) = Some (int (env_relation_rank (classify_pair h v w)))"
proof -
  let ?r = "fst (strongest_pair_relation h v others)" and ?f = "\<lambda>x. env_relation_rank (classify_pair h v x)"
  have pos: "0 < ?f x" for x by (auto simp: classify_pair_def Let_def)
  have le: "\<forall>o'\<in>set others. ?f o' \<le> env_relation_rank ?r"
    using strongest_of_rank [of "(Rel_none, [])" h v "sort_key em_id others"] by (simp add: strongest_pair_relation_fst)
  have src: "?r = Rel_none \<or> (\<exists>x\<in>set others. ?r = classify_pair h v x)"
    using strongest_of_from [of h v "sort_key em_id others" "(Rel_none, [])"] by (simp add: strongest_pair_relation_fst)
  have none: "?r = Rel_none \<longleftrightarrow> others = []"
  proof
    assume "?r = Rel_none"
    then have "x \<notin> set others" for x using le pos [of x] by (metis env_relation_rank.simps(1) not_less)
    then show "others = []" by (cases others) auto
  qed (use src in auto)
  have "?r = Rel_independent_replication" if "x \<in> set others" "classify_pair h x v = Rel_independent_replication" for x
  proof -
    have "4 \<le> env_relation_rank ?r" using le that classify_pair_sym [of h x v] by force
    then show ?thesis by (cases ?r) auto
  qed
  with le src none classify_pair_sym rank_agrees show ?thesis by (metis env_relation.distinct(9))
qed

lemma environment_group_cong:
  "em_protocol_hash a = em_protocol_hash b \<Longrightarrow> em_implementation_hash a = em_implementation_hash b \<Longrightarrow>
   em_dataset_lineage a = em_dataset_lineage b \<Longrightarrow> environment_group h a = environment_group h b"
  by (simp add: environment_group_def lineage_unknown_def)

text \<open>
  Hardware, seed or data order never create independence: manifests of the same protocol,
  implementation and lineage are in one group and at most reproduce each other, whatever else
  differs; a manifest without any recorded lineage is never a positive relation; an independent
  replication has another group, another protocol or implementation, and no common known lineage.
\<close>

theorem execution_fields_never_create_independence:
  "(em_protocol_hash a = em_protocol_hash b \<and> em_implementation_hash a = em_implementation_hash b
      \<and> em_dataset_lineage a = em_dataset_lineage b \<longrightarrow>
      environment_group h a = environment_group h b
      \<and> classify_pair h a b \<in> {Rel_untracked, Rel_repeatability, Rel_reproducibility})
   \<and> (lineage_unknown a \<or> lineage_unknown b \<longrightarrow> classify_pair h a b = Rel_untracked)
   \<and> (classify_pair h a b = Rel_independent_replication \<longrightarrow>
        environment_group h a \<noteq> environment_group h b
        \<and> (em_protocol_hash a \<noteq> em_protocol_hash b \<or> em_implementation_hash a \<noteq> em_implementation_hash b)
        \<and> (em_dataset_lineage a = None \<or> em_dataset_lineage b = None \<or> em_dataset_lineage a \<noteq> em_dataset_lineage b))"
  using environment_group_cong [of a b h]
  by (intro conjI impI; simp add: classify_pair_def Let_def split: if_splits) (blast | metis not_None_eq)+

theorem execution_fields_never_create_independence_witness:
  "let a = \<lparr>em_id = 1, em_protocol_hash = Some ''p'', em_implementation_hash = Some ''i'', em_dataset_lineage = None,
          em_runtime_hash = None, em_hardware_hash = Some ''gpu1'', em_toolchain_hash = None, em_dependency_hash = None,
          em_seed = Some 1, em_data_order_hash = None\<rparr>;
       h = \<lparr>host_frepr = (\<lambda>_. []), host_sha256 = id\<rparr>
   in classify_pair h a (a\<lparr>em_hardware_hash := Some ''gpu2''\<rparr>) \<in> {Rel_untracked, Rel_repeatability, Rel_reproducibility}"
  unfolding Let_def
  by (rule execution_fields_never_create_independence [THEN conjunct1, THEN mp, THEN conjunct2]) simp

text \<open>
  A partly recorded lineage can create independence: the manifests below share the recorded
  implementation, one lacks the protocol and the other the dataset lineage, and the pair counts as
  an independent replication although nothing that both record differs.
\<close>

definition partly_recorded :: "uuid \<Rightarrow> string option \<Rightarrow> string option \<Rightarrow> env_manifest" where
  "partly_recorded i protocol lineage = \<lparr>em_id = i, em_protocol_hash = protocol, em_implementation_hash = Some ''impl'',
     em_dataset_lineage = lineage, em_runtime_hash = None, em_hardware_hash = None, em_toolchain_hash = None,
     em_dependency_hash = None, em_seed = None, em_data_order_hash = None\<rparr>"

theorem partly_recorded_lineage_counts_as_independent:
  assumes "environment_group h (partly_recorded 1 None (Some ''data'')) \<noteq> environment_group h (partly_recorded 2 (Some ''proto'') None)"
  shows "classify_pair h (partly_recorded 1 None (Some ''data'')) (partly_recorded 2 (Some ''proto'') None)
     = Rel_independent_replication"
  using assms by (simp add: classify_pair_def lineage_unknown_def partly_recorded_def)

theorem partly_recorded_lineage_counts_as_independent_witness:
  "let h = \<lparr>host_frepr = (\<lambda>_. []), host_sha256 = rev\<rparr> in
   classify_pair h (partly_recorded 1 None (Some ''data'')) (partly_recorded 2 (Some ''proto'') None)
     = Rel_independent_replication"
  unfolding Let_def by (rule partly_recorded_lineage_counts_as_independent) code_simp

theorem strongest_relation_is_the_best_pair_witness:
  "let h = \<lparr>host_frepr = (\<lambda>_. []), host_sha256 = rev\<rparr>;
       v = partly_recorded 1 (Some ''p'') None; w = partly_recorded 2 (Some ''p'') None
   in fst (strongest_pair_relation h v [w]) = Rel_repeatability"
proof -
  let ?h = "\<lparr>host_frepr = (\<lambda>_. []), host_sha256 = rev\<rparr>"
  let ?v = "partly_recorded 1 (Some ''p'') None" and ?w = "partly_recorded 2 (Some ''p'') None"
  have "environment_group ?h ?v = environment_group ?h ?w"
    by (rule environment_group_cong) (simp_all add: partly_recorded_def)
  then have "classify_pair ?h ?v ?w = Rel_repeatability"
    by (simp add: classify_pair_def lineage_unknown_def env_key_def) (simp add: partly_recorded_def)
  with strongest_relation_is_the_best_pair [of "[?w]" ?h ?v ?w] show ?thesis by (simp add: Let_def)
qed

end
