(* ===== verification/Reassessment.thy ===== *)
theory Reassessment
  imports Cascade WriterGate EnvIndependence Independence
begin

section \<open>The reassessment worker\<close>

text \<open>
  \<open>packages/memory/reassessment.py\<close>: the worker that drains the queue of reassessment jobs.  A batch is a sequence of
  transactions: an admission that leases due jobs, one transaction per job, one for the failure of a job, and the
  release of the writer gate.  \<open>research\<close> holds the tables the evaluation reads and the snapshots it writes: config
  snapshots, active link revocations, valid counterevidence resolutions, the sources of a claim as
  \<open>load_source_graph_assembly\<close> returns them, and environments.  \<open>clk\<close> is \<open>clock_timestamp()\<close>, \<open>utc\<close> is \<open>datetime.now(UTC)\<close>,
  the random jitters and the Russian prefix of a question text are arguments.
\<close>

subsection \<open>State\<close>

record snapshot_row =
  cs_id :: uuid
  cs_claim_type_rules :: json_dict
  cs_activation_state :: activation_state
  cs_base_snapshot_id :: "uuid option"
  cs_payload_sha256 :: string
  cs_sha256 :: string
  cs_activation_mode :: activation_mode
  cs_activation_manifest_hash :: "string option"
  cs_activation_cohort_revision :: "int option"
  cs_activation_expected_head_count :: "int option"
  cs_activation_verified_head_count :: "int option"
  cs_activation_heads_sha256 :: "string option"
  cs_activation_verified_at :: "instant option"
  cs_post_publish_manifest_hash :: "string option"
  cs_post_publish_cursor :: "int option"
  cs_post_publish_attempts :: "int option"
  cs_post_publish_next_attempt_at :: "instant option"
  cs_post_publish_started_at :: "instant option"
  cs_post_publish_blocked_at :: "instant option"
  cs_post_publish_last_error :: "string option"
  cs_activation_limits :: json_dict
  cs_sections :: json_dict

record source_member_row =
  sm_snapshot_id :: uuid
  sm_source_id :: uuid
  sm_group_id :: string
  sm_basis :: string

record assessment_evidence_row =
  ae_assessment_id :: uuid
  ae_evidence_id :: uuid
  ae_role :: string

record assembly =
  sa_member_ids :: "uuid list"
  sa_inputs :: "source_input list"
  sa_edges :: "source_edge list"
  sa_corrections :: "source_correction list"

record research =
  rs_snapshots :: "snapshot_row list"
  rs_revoked_evidence :: "uuid list"
  rs_resolved_counters :: "uuid list"
  rs_assembly :: "uuid \<Rightarrow> assembly option"
  rs_env :: env_store
  rs_source_snapshots :: "(uuid \<times> independence_result) list"
  rs_source_members :: "source_member_row list"
  rs_assessment_evidence :: "assessment_evidence_row list"

record worker_env =
  we_host :: host
  we_urlsplit :: url_reader
  we_iso :: iso_reader
  we_uuid5 :: "uuid \<Rightarrow> string \<Rightarrow> uuid"
  we_insufficient :: string

type_synonym world = "db \<times> research"

definition ACTOR :: string where "ACTOR = ''system:reassessment''"
definition DEFAULT_LEASE_SECONDS :: int where "DEFAULT_LEASE_SECONDS = 300"
definition DEFAULT_BATCH_SIZE :: nat where "DEFAULT_BATCH_SIZE = 8"
definition BACKOFF_BASE_SECONDS :: int where "BACKOFF_BASE_SECONDS = 30"
definition BACKOFF_CAP_SECONDS :: int where "BACKOFF_CAP_SECONDS = 3600"
definition DEFAULT_GATE_LEASE_SECONDS :: int where "DEFAULT_GATE_LEASE_SECONDS = 600"
definition DEFER_BASE_SECONDS :: int where "DEFER_BASE_SECONDS = 5"

record worker_outcome =
  wo_processed :: nat
  wo_completed :: nat
  wo_retried :: nat
  wo_blocked :: nat
  wo_deferred :: bool

definition backoff :: "int \<Rightarrow> duration \<Rightarrow> duration" where
  "backoff attempts jitter =
     (let e = min (max (attempts - 1) 0) 7
      in seconds (min BACKOFF_CAP_SECONDS (BACKOFF_BASE_SECONDS * 2 ^ nat e)) + jitter)"

text \<open>The effective pointer and the effective activating slot: an expired lease of a draft no longer holds it.\<close>

definition head_slot :: "db \<Rightarrow> research \<Rightarrow> (uuid \<times> uuid option) option" where
  "head_slot d w =
     (case find (\<lambda>h. rch_scope h = ''global'') (db_config_heads d) of None \<Rightarrow> None
      | Some h \<Rightarrow>
          let draft = (case rch_activating_config_snapshot_id h of None \<Rightarrow> False
                 | Some a \<Rightarrow> list_ex (\<lambda>s. cs_id s = a \<and> cs_activation_state s = AST_DRAFT) (rs_snapshots w));
              expired = (case rch_activation_lease_expires_at h of None \<Rightarrow> False | Some t \<Rightarrow> t \<le> db_now d)
          in Some (rch_active_config_snapshot_id h,
               if draft \<and> expired then None else rch_activating_config_snapshot_id h))"

definition get_job :: "db \<Rightarrow> uuid \<Rightarrow> job_row option" where
  "get_job d i = tbl_get job_id i (db_jobs d)"

definition set_job :: "uuid \<Rightarrow> (job_row \<Rightarrow> job_row) \<Rightarrow> db \<Rightarrow> db" where
  "set_job i f d = d\<lparr>db_jobs := tbl_update (\<lambda>j. job_id j = i) f (db_jobs d)\<rparr>"

definition bump_knowledge :: "db \<Rightarrow> exn + db" where
  "bump_knowledge d =
     (case get_revision d ''knowledge'' of
        None \<Rightarrow> Inl (ReassessmentWorkerError ''knowledge revision row missing under lock'')
      | Some r \<Rightarrow> Inr (d\<lparr>db_revisions := tbl_update (\<lambda>r. rev_scope r = ''knowledge'')
          (\<lambda>r. r\<lparr>rev_revision := rev_revision r + 1, rev_updated_at := db_now d\<rparr>) (db_revisions d)\<rparr>))"

text \<open>The scope of the newest assessment of a claim.\<close>

definition newest_first :: "assessment_row \<Rightarrow> instant \<times> int" where
  "newest_first a = (- as_created_at a, - int (as_id a))"

definition latest_assessed_scope :: "db \<Rightarrow> uuid \<Rightarrow> json_dict" where
  "latest_assessed_scope d c =
     (case sort_key newest_first (filter (\<lambda>a. as_claim_id a = c) (db_assessments d)) of
        [] \<Rightarrow> [] | a # _ \<Rightarrow> as_assessed_scope a)"

definition enqueue_insufficient_question :: "worker_env \<Rightarrow> claim_row \<Rightarrow> uuid \<Rightarrow> db \<Rightarrow> uuid \<times> db" where
  "enqueue_insufficient_question env c snap d =
     (let qid = we_uuid5 env QUESTION_UUID5_NAMESPACE
                  (''reassessment-insufficient:'' @ uuid_str snap @ '':'' @ uuid_str (cl_id c)) in
      if list_ex (\<lambda>q. q_id q = qid) (db_questions d) then (qid, d)
      else (qid, d\<lparr>db_questions := db_questions d @
             [\<lparr>q_id = qid, q_text = take 2000 (we_insufficient env @ take 1900 (cl_statement c)), q_origin = QO_INVALID_ASSESSMENT,
               q_origin_config_snapshot_id = Some snap, q_state = QS_CANDIDATE, q_priority = 0, q_parent_id = None,
               q_score_components = None, q_embedding_fingerprint = None, q_created_at = db_now d\<rparr>]\<rparr>))"

definition is_head :: "uuid \<Rightarrow> uuid \<Rightarrow> head_row \<Rightarrow> bool" where
  "is_head c snap r \<longleftrightarrow> hd_claim_id r = c \<and> hd_config_snapshot_id r = snap"

definition set_head_invalid :: "instant \<Rightarrow> uuid \<Rightarrow> uuid \<Rightarrow> db \<Rightarrow> string \<times> db" where
  "set_head_invalid clk c snap d =
     (case find (is_head c snap) (db_heads d) of None \<Rightarrow> (''missing'', d)
      | Some r \<Rightarrow>
          (assessment_state_value (hd_assessment_state r),
           if hd_assessment_state r \<in> {AS_PENDING, AS_INVALID}
           then d\<lparr>db_heads := tbl_update (is_head c snap)
                  (\<lambda>r. r\<lparr>hd_assessment_state := AS_INVALID, hd_updated_at := clk\<rparr>) (db_heads d)\<rparr>
           else d))"

text \<open>The knowledge revision moves exactly when a pending head became invalid.\<close>

definition bump_if_pending :: "string \<Rightarrow> db \<Rightarrow> exn + db" where
  "bump_if_pending prior d = (if prior = ''pending'' then bump_knowledge d else Inr d)"

subsection \<open>The ends of a job\<close>

definition job_blocked :: "instant \<Rightarrow> string \<Rightarrow> string \<Rightarrow> job_row \<Rightarrow> job_row" where
  "job_blocked clk error_class message j =
     j\<lparr>job_status := RJ_BLOCKED, job_error_class := Some error_class, job_last_error := Some (take 2000 message),
       job_blocked_at := Some clk, job_lease_owner := None, job_lease_expires_at := None\<rparr>"

definition block_job :: "instant \<Rightarrow> job_row \<Rightarrow> string \<Rightarrow> string \<Rightarrow> string \<Rightarrow> uuid option \<Rightarrow> db \<Rightarrow> db" where
  "block_job clk j error_class message prior qid d =
     (let d1 = set_job (job_id j) (job_blocked clk error_class message) d;
          d2 = record_event AE_REASSESSMENT_JOB_BLOCKED None
            (Some [(''job_id'', JStr (uuid_str (job_id j))), (''claim_id'', JStr (uuid_str (job_claim_id j))),
               (''target_config_snapshot_id'', JStr (uuid_str (job_target_config_snapshot_id j))),
               (''attempts'', JInt (job_attempts j)), (''error_class'', JStr error_class),
               (''prior_head_state'', JStr prior), (''question_id'', opt_uuid_json qid)])
            (Some ACTOR) (Some (''reassessment job '' @ uuid_str (job_id j) @ '' blocked: '' @ error_class)) AV_OPERATOR d1
      in record_event AE_ALERT_RAISED None
           (Some [(''alert_class'', JStr ''reassessment_job_blocked''), (''job_id'', JStr (uuid_str (job_id j))),
              (''claim_id'', JStr (uuid_str (job_claim_id j))), (''error_class'', JStr error_class)])
           (Some ACTOR) (Some (''alert: reassessment job blocked ('' @ error_class @ '')'')) AV_DIAGNOSTIC d2)"

definition job_completed :: "instant \<Rightarrow> job_row \<Rightarrow> job_row" where
  "job_completed clk j =
     j\<lparr>job_status := RJ_COMPLETED, job_completed_at := Some clk, job_lease_owner := None, job_lease_expires_at := None\<rparr>"

definition job_unleased :: "job_row \<Rightarrow> job_row" where
  "job_unleased j =
     j\<lparr>job_status := RJ_QUEUED, job_lease_owner := None, job_lease_expires_at := None, job_attempts := max 0 (job_attempts j - 1)\<rparr>"

definition job_retried :: "instant \<Rightarrow> duration \<Rightarrow> string \<Rightarrow> string \<Rightarrow> job_row \<Rightarrow> job_row" where
  "job_retried now jitter error_class message j =
     j\<lparr>job_status := RJ_RETRY, job_error_class := Some error_class, job_last_error := Some (take 2000 message),
       job_lease_owner := None, job_lease_expires_at := None,
       job_next_attempt_at := Some (now + backoff (job_attempts j) jitter)\<rparr>"

definition retry_job :: "duration \<Rightarrow> job_row \<Rightarrow> string \<Rightarrow> string \<Rightarrow> db \<Rightarrow> db" where
  "retry_job jitter j error_class message d =
     record_event AE_REASSESSMENT_JOB_RETRY None
       (Some [(''job_id'', JStr (uuid_str (job_id j))), (''claim_id'', JStr (uuid_str (job_claim_id j))),
          (''attempt'', JInt (job_attempts j)), (''max_attempts'', JInt (job_max_attempts j)), (''error_class'', JStr error_class)])
       (Some ACTOR)
       (Some (''reassessment job '' @ uuid_str (job_id j) @ '': retry '' @ int_str (job_attempts j) @ ''/'' @ int_str (job_max_attempts j)))
       AV_OPERATOR (set_job (job_id j) (job_retried (db_now d) jitter error_class message) d)"

subsection \<open>The evaluation\<close>

text \<open>\<open>MemoryService(snapshot)\<close>: the rules of the snapshot.\<close>

definition py_dict :: "json \<Rightarrow> exn + json_dict" where
  "py_dict v = (case v of JObj kvs \<Rightarrow> Inr kvs | JArr [] \<Rightarrow> Inr [] | JStr [] \<Rightarrow> Inr [] | _ \<Rightarrow> Inl (TypeError ''not a mapping''))"

fun rules_table :: "host \<Rightarrow> json_dict \<Rightarrow> exn + (string \<times> claim_type_rule) list" where
  "rules_table h [] = Inr []"
| "rules_table h ((claim_type, payload) # rest) =
     (case py_dict payload of Inl e \<Rightarrow> Inl e | Inr kvs \<Rightarrow>
      case rule_from_payload h claim_type kvs of Inl e \<Rightarrow> Inl e | Inr rule \<Rightarrow>
      case rules_table h rest of Inl e \<Rightarrow> Inl e | Inr rules \<Rightarrow> Inr ((claim_type, rule) # rules))"

definition service_rule :: "(string \<times> claim_type_rule) list \<Rightarrow> string \<Rightarrow> exn + claim_type_rule" where
  "service_rule rules claim_type =
     (case map_of rules claim_type of Some r \<Rightarrow> Inr r
      | None \<Rightarrow> Inl (RuleValidationError (''unknown claim_type '' @ repr_str claim_type)))"

definition rules_hash :: "host \<Rightarrow> json_dict \<Rightarrow> string" where
  "rules_hash h rules = host_canonical_sha256 h (JObj rules)"

definition claim_evidence :: "db \<Rightarrow> research \<Rightarrow> uuid \<Rightarrow> evidence_row list" where
  "claim_evidence d w c =
     sort_key evd_id (filter (\<lambda>e. evd_claim_id e = c \<and> evd_id e \<notin> set (rs_revoked_evidence w)) (db_evidence d))"

definition evidence_text :: "evidence_row \<Rightarrow> string" where
  "evidence_text e = evidence_kind_value (evd_evidence_kind e) @ '':'' @ evidence_relation_value (evd_relation e) @ '':'' @ evd_identity_hash e"

definition evidence_set_hash :: "host \<Rightarrow> evidence_row list \<Rightarrow> string" where
  "evidence_set_hash h evidence = host_canonical_sha256 h (JArr (map JStr (sort (map evidence_text evidence))))"

definition member_group :: "independence_result \<Rightarrow> uuid \<Rightarrow> (uuid \<times> string \<times> string) option" where
  "member_group res s =
     (case map_of (ir_groups res) s of None \<Rightarrow> None | Some g \<Rightarrow>
      case map_of (ir_bases res) s of None \<Rightarrow> None | Some b \<Rightarrow> Some (s, g, b))"

definition build_source_independence_snapshot ::
  "worker_env \<Rightarrow> uuid \<Rightarrow> db \<Rightarrow> research \<Rightarrow> exn + (uuid option \<times> (uuid \<times> string \<times> string) list) \<times> world" where
  "build_source_independence_snapshot env c d w =
     (case rs_assembly w c of None \<Rightarrow> Inr ((None, []), d, w)
      | Some a \<Rightarrow>
          case group_source_graph (we_urlsplit env) (we_host env) (sa_inputs a) (sa_edges a) (sa_corrections a) of
            None \<Rightarrow> Inl (RuntimeError ''no grouping'')
          | Some (Inl e) \<Rightarrow> Inl e
          | Some (Inr res) \<Rightarrow>
              (case those (map (member_group res) (sa_member_ids a)) of None \<Rightarrow> Inl (KeyError ''source id'')
               | Some members \<Rightarrow>
                   let (sid, d1) = uuid4 d
                   in Inr ((Some sid, members), d1,
                        w\<lparr>rs_source_snapshots := rs_source_snapshots w @ [(sid, res)],
                          rs_source_members := rs_source_members w @
                            map (\<lambda>(s, g, b). \<lparr>sm_snapshot_id = sid, sm_source_id = s, sm_group_id = g, sm_basis = b\<rparr>) members\<rparr>)))"

definition evaluated ::
  "(uuid \<times> string \<times> env_relation) list \<Rightarrow> (uuid \<times> string \<times> string) list \<Rightarrow> uuid list \<Rightarrow> evidence_row \<Rightarrow> evaluated_evidence" where
  "evaluated env_map src_map resolved e =
     (let env_entry = (case evd_environment_manifest_id e of None \<Rightarrow> None | Some m \<Rightarrow> map_of env_map m);
          src_entry = (case evd_source_id e of None \<Rightarrow> None | Some s \<Rightarrow> map_of src_map s)
      in \<lparr>ee_identity_hash = evd_identity_hash e, ee_kind = evidence_kind_value (evd_evidence_kind e),
          ee_relation = evidence_relation_value (evd_relation e), ee_scope = evd_scope e,
          ee_independence_group = (case src_entry of Some (g, b) \<Rightarrow> g
            | None \<Rightarrow> (case env_entry of Some (g, r) \<Rightarrow> g | None \<Rightarrow> UNTRACKED_GROUP)),
          ee_env_relation = (case env_entry of Some (g, r) \<Rightarrow> env_relation_value r | None \<Rightarrow> ''none''),
          ee_resolved = (evd_id e \<in> set resolved)\<rparr>)"

record assessed =
  ad_result :: assessment_result
  ad_env_snapshot :: "uuid option"
  ad_src_snapshot :: "uuid option"

definition assess_claim ::
  "worker_env \<Rightarrow> snapshot_row \<Rightarrow> (string \<times> claim_type_rule) list \<Rightarrow> claim_row \<Rightarrow> json_dict \<Rightarrow> evidence_row list \<Rightarrow> db \<Rightarrow> research \<Rightarrow>
   exn + assessed \<times> world" where
  "assess_claim env snap rules c scope evidence d w =
     (let ((env_id, env_map), d1, st) =
            build_environment_independence_snapshot (we_host env) (cl_id c) (rules_hash (we_host env) (cs_claim_type_rules snap)) d (rs_env w);
          w1 = w\<lparr>rs_env := st\<rparr>
      in case build_source_independence_snapshot env (cl_id c) d1 w1 of Inl e \<Rightarrow> Inl e
         | Inr ((src_id, src_map), d2, w2) \<Rightarrow>
             let resolved = filter (\<lambda>i. i \<in> set (map evd_id evidence)) (rs_resolved_counters w2);
                 evs = map (evaluated env_map src_map resolved) evidence;
                 ct = claim_type_value (cl_claim_type c)
             in case service_rule rules ct of Inl e \<Rightarrow> Inl e | Inr rule \<Rightarrow>
                case evaluate (we_iso env) ct rule scope evs (cl_as_of c \<noteq> None) of Inl e \<Rightarrow> Inl e
                | Inr result \<Rightarrow> Inr (\<lparr>ad_result = result, ad_env_snapshot = env_id, ad_src_snapshot = src_id\<rparr>, d2, w2))"

subsection \<open>One job\<close>

datatype job_outcome = JO_completed | JO_blocked | JO_unleased | JO_intent_conflict | JO_gone

definition completed_event :: "job_row \<Rightarrow> json_dict \<Rightarrow> string \<Rightarrow> db \<Rightarrow> db" where
  "completed_event j payload summary d =
     record_event AE_REASSESSMENT_JOB_COMPLETED None (Some payload) (Some ACTOR) (Some summary) AV_OPERATOR d"

text \<open>The claim or the configuration of the job is gone.\<close>

definition missing_rows :: "worker_env \<Rightarrow> instant \<Rightarrow> job_row \<Rightarrow> uuid \<Rightarrow> bool \<Rightarrow> claim_row option \<Rightarrow> world \<Rightarrow> exn + job_outcome \<times> world" where
  "missing_rows env clk j eff has_snapshot claim x =
     (let (d, w) = x;
          message = ''claim='' @ (if claim = None then ''False'' else ''True'') @ '' snapshot='' @ (if has_snapshot then ''True'' else ''False'')
      in case claim of
           None \<Rightarrow> Inr (JO_blocked, block_job clk j ''claim_or_config_missing'' message ''missing'' None d, w)
         | Some c \<Rightarrow>
             let (qid, d1) = enqueue_insufficient_question env c eff d; (prior, d2) = set_head_invalid clk (cl_id c) eff d1
             in case bump_if_pending prior d2 of Inl e \<Rightarrow> Inl e
                | Inr d3 \<Rightarrow> Inr (JO_blocked, block_job clk j ''claim_or_config_missing'' message prior (Some qid) d3, w))"

definition insufficient_data :: "worker_env \<Rightarrow> instant \<Rightarrow> job_row \<Rightarrow> claim_row \<Rightarrow> uuid \<Rightarrow> world \<Rightarrow> exn + job_outcome \<times> world" where
  "insufficient_data env clk j c eff x =
     (let (d, w) = x; (prior, d1) = set_head_invalid clk (cl_id c) eff d
      in case bump_if_pending prior d1 of Inl e \<Rightarrow> Inl e
         | Inr d2 \<Rightarrow>
             let (qid, d3) = enqueue_insufficient_question env c eff d2
             in Inr (JO_completed,
                  completed_event j
                    [(''job_id'', JStr (uuid_str (job_id j))), (''claim_id'', JStr (uuid_str (cl_id c))),
                     (''target_config_snapshot_id'', JStr (uuid_str eff)), (''attempt'', JInt (job_attempts j)),
                     (''outcome'', JStr ''insufficient_data''), (''prior_head_state'', JStr prior), (''question_id'', JStr (uuid_str qid))]
                    (''reassessment '' @ uuid_str (cl_id c) @ '': insufficient data -> invalid'')
                    (set_job (job_id j) (job_completed clk) d3), w))"

definition supersede :: "uuid option \<Rightarrow> db \<Rightarrow> db" where
  "supersede current d =
     (case current of None \<Rightarrow> d
      | Some a \<Rightarrow> d\<lparr>db_assessments := tbl_update (\<lambda>r. as_id r = a \<and> as_valid r)
          (\<lambda>r. r\<lparr>as_valid := False, as_invalidation_reason := Some ''superseded''\<rparr>) (db_assessments d)\<rparr>)"

definition new_assessment ::
  "worker_env \<Rightarrow> uuid \<Rightarrow> snapshot_row \<Rightarrow> claim_row \<Rightarrow> json_dict \<Rightarrow> evidence_row list \<Rightarrow> assessed \<Rightarrow> instant \<Rightarrow> assessment_row" where
  "new_assessment env aid snap c scope evidence a now =
     \<lparr>as_id = aid, as_claim_id = cl_id c, as_effective_grade = ar_grade (ad_result a),
      as_epistemic_status = ar_epistemic_status (ad_result a), as_rules_version = RULES_ENGINE_VERSION,
      as_rules_hash = rules_hash (we_host env) (cs_claim_type_rules snap),
      as_source_independence_snapshot_id = ad_src_snapshot a, as_environment_independence_snapshot_id = ad_env_snapshot a,
      as_evidence_set_hash = evidence_set_hash (we_host env) evidence, as_assessed_scope = scope,
      as_confidence = ar_confidence (ad_result a), as_valid = True, as_invalidation_reason = None,
      as_created_in_session = None, as_created_at = now\<rparr>"

definition evidence_role :: "uuid \<Rightarrow> evidence_row \<Rightarrow> assessment_evidence_row" where
  "evidence_role aid e = \<lparr>ae_assessment_id = aid, ae_evidence_id = evd_id e,
     ae_role = (if evd_relation e = ER_COUNTERS then ''counter'' else ''support'')\<rparr>"

definition promoted_head :: "uuid \<Rightarrow> assessment_result \<Rightarrow> head_row \<Rightarrow> head_row" where
  "promoted_head aid result r =
     r\<lparr>hd_assessment_state := AS_CURRENT, hd_current_assessment_id := Some aid,
       hd_epistemic_status := Some (ar_epistemic_status result), hd_prepared_by := ''reassessment_worker''\<rparr>"

definition refreshed_claim :: "assessment_result \<Rightarrow> json_dict \<Rightarrow> instant \<Rightarrow> claim_row \<Rightarrow> claim_row" where
  "refreshed_claim result scope utc c =
     (let deadline = reverify_after result (anchor_from_scope scope) utc
      in c\<lparr>cl_reverify_after := deadline, cl_freshness_status := freshness_of deadline utc\<rparr>)"

text \<open>A new assessment and the promotion of the head, with the job and the knowledge revision.\<close>

definition promote ::
  "worker_env \<Rightarrow> instant \<Rightarrow> instant \<Rightarrow> job_row \<Rightarrow> snapshot_row \<Rightarrow> claim_row \<Rightarrow> json_dict \<Rightarrow> evidence_row list \<Rightarrow> head_row \<Rightarrow> assessed \<Rightarrow>
   world \<Rightarrow> exn + job_outcome \<times> world" where
  "promote env clk utc j snap c scope evidence h a x =
     (let (d0, w) = x; d1 = supersede (hd_current_assessment_id h) d0; (aid, d2) = uuid4 d1;
          d3 = d2\<lparr>db_assessments := db_assessments d2 @ [new_assessment env aid snap c scope evidence a (db_now d0)],
                 db_heads := tbl_update (is_head (cl_id c) (cs_id snap)) (promoted_head aid (ad_result a)) (db_heads d2),
                 db_claims := tbl_update (\<lambda>r. cl_id r = cl_id c) (refreshed_claim (ad_result a) scope utc) (db_claims d2)\<rparr>;
          d4 = set_job (job_id j) (job_completed clk) d3
      in case bump_knowledge d4 of Inl e \<Rightarrow> Inl e
         | Inr d5 \<Rightarrow>
             Inr (JO_completed,
               completed_event j
                 [(''job_id'', JStr (uuid_str (job_id j))), (''claim_id'', JStr (uuid_str (cl_id c))),
                  (''assessment_id'', JStr (uuid_str aid)), (''target_config_snapshot_id'', JStr (uuid_str (cs_id snap))),
                  (''attempt'', JInt (job_attempts j)), (''grade'', JStr (effective_grade_value (ar_grade (ad_result a)))),
                  (''epistemic_status'', JStr (epistemic_status_value (ar_epistemic_status (ad_result a)))),
                  (''confidence'', JFloat (ar_confidence (ad_result a))), (''reasons'', JArr (map JStr (ar_reasons (ad_result a)))),
                  (''source_independence_snapshot_id'', opt_uuid_json (ad_src_snapshot a))]
                 (''reassessment '' @ uuid_str (cl_id c) @ '': '' @ effective_grade_value (ar_grade (ad_result a)) @ ''/''
                    @ epistemic_status_value (ar_epistemic_status (ad_result a))) d5,
               w\<lparr>rs_assessment_evidence := rs_assessment_evidence w @ map (evidence_role aid) evidence\<rparr>))"

definition evaluate_job ::
  "worker_env \<Rightarrow> instant \<Rightarrow> instant \<Rightarrow> job_row \<Rightarrow> snapshot_row \<Rightarrow> claim_row \<Rightarrow> world \<Rightarrow> exn + job_outcome \<times> world" where
  "evaluate_job env clk utc j snap c x =
     (let (d, w) = x in
      case rules_table (we_host env) (cs_claim_type_rules snap) of Inl e \<Rightarrow> Inl e | Inr rules \<Rightarrow>
      let evidence = claim_evidence d w (cl_id c); scope = latest_assessed_scope d (cl_id c) in
      if evidence = [] then insufficient_data env clk j c (cs_id snap) x
      else case assess_claim env snap rules c scope evidence d w of Inl e \<Rightarrow> Inl e
      | Inr (a, d1, w1) \<Rightarrow>
          case find (is_head (cl_id c) (cs_id snap)) (db_heads d1) of
            None \<Rightarrow> Inr (JO_blocked,
              block_job clk j ''head_missing'' ''no assessment head under the target snapshot'' ''missing'' None d1, w1)
          | Some h \<Rightarrow>
              if hd_assessment_state h = AS_CURRENT then
                Inr (JO_completed,
                  completed_event j
                    [(''job_id'', JStr (uuid_str (job_id j))), (''claim_id'', JStr (uuid_str (cl_id c))),
                     (''attempt'', JInt (job_attempts j)), (''outcome'', JStr ''head_reassessed_externally'')]
                    (''reassessment '' @ uuid_str (cl_id c) @ '': head already current'')
                    (set_job (job_id j) (job_completed clk) d1), w1)
              else promote env clk utc j snap c scope evidence h a (d1, w1))"

definition process_one_job :: "worker_env \<Rightarrow> instant \<Rightarrow> instant \<Rightarrow> uuid \<Rightarrow> world \<Rightarrow> exn + job_outcome \<times> world" where
  "process_one_job env clk utc jid x =
     (let (d, w) = x in
      case get_job d jid of None \<Rightarrow> Inr (JO_gone, x) | Some j \<Rightarrow>
      if job_status j \<noteq> RJ_LEASED then Inr (JO_gone, x)
      else case head_slot d w of None \<Rightarrow> Inl (ReassessmentWorkerError ''runtime config head missing'')
      | Some (eff, activating) \<Rightarrow>
          if activating \<noteq> None \<or> eff \<noteq> job_target_config_snapshot_id j then Inr (JO_unleased, set_job jid job_unleased d, w)
          else if active_session_intent d then Inr (JO_intent_conflict, set_job jid job_unleased d, w)
          else case tbl_get cs_id eff (rs_snapshots w) of
              None \<Rightarrow> missing_rows env clk j eff False (tbl_get cl_id (job_claim_id j) (db_claims d)) x
            | Some snap \<Rightarrow>
                (case tbl_get cl_id (job_claim_id j) (db_claims d) of
                   None \<Rightarrow> missing_rows env clk j eff True None x
                 | Some c \<Rightarrow> evaluate_job env clk utc j snap c x))"

subsection \<open>Failures\<close>

text \<open>The evaluation was rolled back and the row is still leased; these are separate transactions.\<close>

definition block_lost_job ::
  "worker_env \<Rightarrow> instant \<Rightarrow> uuid \<Rightarrow> string \<Rightarrow> string \<Rightarrow> bool \<Rightarrow> db \<Rightarrow> exn + bool \<times> db" where
  "block_lost_job env clk jid error_class message with_question d =
     (case get_job d jid of None \<Rightarrow> Inr (False, d) | Some j \<Rightarrow>
      if job_status j \<noteq> RJ_LEASED then Inr (False, d)
      else let (prior, d1) = set_head_invalid clk (job_claim_id j) (job_target_config_snapshot_id j) d
           in case bump_if_pending prior d1 of Inl e \<Rightarrow> Inl e
              | Inr d2 \<Rightarrow>
                  let (qid, d3) = (case (if with_question then tbl_get cl_id (job_claim_id j) (db_claims d2) else None) of
                          None \<Rightarrow> (None, d2)
                        | Some c \<Rightarrow> (case enqueue_insufficient_question env c (job_target_config_snapshot_id j) d2 of (q, d') \<Rightarrow> (Some q, d')))
                  in Inr (True, block_job clk j error_class message prior qid d3))"

definition retry_lost_job :: "duration \<Rightarrow> uuid \<Rightarrow> string \<Rightarrow> string \<Rightarrow> db \<Rightarrow> bool \<times> db" where
  "retry_lost_job jitter jid error_class message d =
     (case get_job d jid of None \<Rightarrow> (False, d) | Some j \<Rightarrow>
      if job_status j \<noteq> RJ_LEASED then (False, d) else (True, retry_job jitter j error_class message d))"

definition budget_exhausted :: "db \<Rightarrow> uuid \<Rightarrow> bool" where
  "budget_exhausted d jid = (case get_job d jid of None \<Rightarrow> False | Some j \<Rightarrow> job_max_attempts j \<le> job_attempts j)"

text \<open>The handler of a failed job: how many jobs it blocked and retried.\<close>

definition fail_job :: "worker_env \<Rightarrow> instant \<Rightarrow> duration \<Rightarrow> uuid \<Rightarrow> exn \<Rightarrow> db \<Rightarrow> exn + (nat \<times> nat) \<times> db" where
  "fail_job env clk jitter jid e d =
     (case e of
        RuleValidationError msg \<Rightarrow>
          (case block_lost_job env clk jid ''rule_validation'' msg True d of Inl e' \<Rightarrow> Inl e'
           | Inr (b, d') \<Rightarrow> Inr ((of_bool b, 0), d'))
      | _ \<Rightarrow>
          if budget_exhausted d jid then
            (case block_lost_job env clk jid ''retry_budget_exhausted'' (take 1500 (exn_text e)) False d of Inl e' \<Rightarrow> Inl e'
             | Inr (b, d') \<Rightarrow> Inr ((of_bool b, 0), d'))
          else case retry_lost_job jitter jid (exn_name e) (take 1500 (exn_text e)) d of
            (b, d') \<Rightarrow> Inr ((0, of_bool b), d'))"

subsection \<open>The batch\<close>

definition runnable :: "uuid \<Rightarrow> instant \<Rightarrow> job_row \<Rightarrow> bool" where
  "runnable eff now j \<longleftrightarrow>
     job_status j \<in> {RJ_QUEUED, RJ_RETRY} \<and> job_target_config_snapshot_id j = eff \<and>
     (case job_next_attempt_at j of None \<Rightarrow> True | Some t \<Rightarrow> t \<le> now) \<and> job_attempts j < job_max_attempts j"

definition queue_order :: "job_row \<Rightarrow> int \<times> instant \<times> uuid" where
  "queue_order j = (- job_priority j, job_enqueued_at j, job_id j)"

definition due_jobs :: "uuid \<Rightarrow> nat \<Rightarrow> db \<Rightarrow> uuid list" where
  "due_jobs eff n d = map job_id (take n (sort_key queue_order (filter (runnable eff (db_now d)) (db_jobs d))))"

definition defer_runnable :: "uuid \<Rightarrow> nat \<Rightarrow> (uuid \<Rightarrow> duration) \<Rightarrow> db \<Rightarrow> db" where
  "defer_runnable eff n jitter d =
     d\<lparr>db_jobs := tbl_update (\<lambda>j. job_id j \<in> set (due_jobs eff n d))
        (\<lambda>j. j\<lparr>job_next_attempt_at := Some (db_now d + seconds DEFER_BASE_SECONDS + jitter (job_id j))\<rparr>) (db_jobs d)\<rparr>"

definition job_leased :: "instant \<Rightarrow> int \<Rightarrow> job_row \<Rightarrow> job_row" where
  "job_leased now lease_seconds j =
     j\<lparr>job_status := RJ_LEASED, job_lease_owner := Some ACTOR, job_lease_expires_at := Some (now + seconds lease_seconds),
       job_attempts := job_attempts j + 1\<rparr>"

definition lease_jobs :: "uuid list \<Rightarrow> int \<Rightarrow> db \<Rightarrow> db" where
  "lease_jobs ids lease_seconds d =
     d\<lparr>db_jobs := tbl_update (\<lambda>j. job_id j \<in> set ids \<and> job_status j \<in> {RJ_QUEUED, RJ_RETRY}) (job_leased (db_now d) lease_seconds) (db_jobs d)\<rparr>"

abbreviation worker_owner :: gate_owner where
  "worker_owner \<equiv> (OWNER_WORKER, ACTOR)"

text \<open>The admission: \<open>None\<close> when the batch is deferred, else the leased jobs.\<close>

definition admit_batch :: "nat \<Rightarrow> int \<Rightarrow> int \<Rightarrow> (uuid \<Rightarrow> duration) \<Rightarrow> world \<Rightarrow> exn + uuid list option \<times> db" where
  "admit_batch batch_size lease_seconds gate_lease_seconds jitter x =
     (let (d, w) = x; (acquired, d1) = acquire_writer_gate worker_owner GATE_PRIORITY_WORKER gate_lease_seconds d in
      if \<not> acquired then
        (case head_slot d1 w of None \<Rightarrow> Inl (ReassessmentWorkerError ''runtime config head missing'')
         | Some (eff, _) \<Rightarrow> Inr (None, defer_runnable eff batch_size jitter d1))
      else if active_session_intent d1 then Inr (None, release_writer_gate worker_owner d1)
      else case head_slot d1 w of None \<Rightarrow> Inl (ReassessmentWorkerError ''runtime config head missing'')
      | Some (eff, activating) \<Rightarrow>
          if activating \<noteq> None then Inr (None, release_writer_gate worker_owner d1)
          else if due_jobs eff batch_size d1 = [] then Inr (None, release_writer_gate worker_owner d1)
          else Inr (Some (due_jobs eff batch_size d1), lease_jobs (due_jobs eff batch_size d1) lease_seconds d1))"

definition count_outcome :: "job_outcome \<Rightarrow> worker_outcome \<Rightarrow> worker_outcome" where
  "count_outcome o' r =
     (case o' of JO_gone \<Rightarrow> r
      | JO_completed \<Rightarrow> r\<lparr>wo_processed := wo_processed r + 1, wo_completed := wo_completed r + 1\<rparr>
      | JO_blocked \<Rightarrow> r\<lparr>wo_processed := wo_processed r + 1, wo_blocked := wo_blocked r + 1\<rparr>
      | _ \<Rightarrow> r\<lparr>wo_processed := wo_processed r + 1\<rparr>)"

definition run_job ::
  "worker_env \<Rightarrow> instant \<Rightarrow> instant \<Rightarrow> duration \<Rightarrow> uuid \<Rightarrow> worker_outcome \<times> world \<Rightarrow> exn + worker_outcome \<times> world" where
  "run_job env clk utc jitter jid s =
     (let (r, d, w) = s in
      case process_one_job env clk utc jid (d, w) of
        Inr (o', x') \<Rightarrow> Inr (count_outcome o' r, x')
      | Inl e \<Rightarrow>
          (case fail_job env clk jitter jid e d of Inl e' \<Rightarrow> Inl e'
           | Inr ((b, t), d') \<Rightarrow> Inr (r\<lparr>wo_processed := wo_processed r + 1, wo_blocked := wo_blocked r + b,
               wo_retried := wo_retried r + t\<rparr>, d', w)))"

text \<open>The batch without interference: readings of the clocks and jitters per job.\<close>

fun run_jobs ::
  "worker_env \<Rightarrow> (uuid \<Rightarrow> instant \<times> instant \<times> duration) \<Rightarrow> uuid list \<Rightarrow> worker_outcome \<times> world \<Rightarrow> exn + worker_outcome \<times> world" where
  "run_jobs env tm [] s = Inr s"
| "run_jobs env tm (jid # ids) s =
     (case run_job env (fst (tm jid)) (fst (snd (tm jid))) (snd (snd (tm jid))) jid s of Inl e \<Rightarrow> Inl e
      | Inr s' \<Rightarrow> run_jobs env tm ids s')"

definition no_work :: "bool \<Rightarrow> worker_outcome" where
  "no_work deferred = \<lparr>wo_processed = 0, wo_completed = 0, wo_retried = 0, wo_blocked = 0, wo_deferred = deferred\<rparr>"

definition run_reassessment_batch ::
  "worker_env \<Rightarrow> bool \<Rightarrow> (uuid \<Rightarrow> instant \<times> instant \<times> duration) \<Rightarrow> nat \<Rightarrow> int \<Rightarrow> int \<Rightarrow> (uuid \<Rightarrow> duration) \<Rightarrow> world \<Rightarrow>
   exn + worker_outcome \<times> world" where
  "run_reassessment_batch env got tm batch_size lease_seconds gate_lease_seconds jitter x =
     writer_gate got
       (case admit_batch batch_size lease_seconds gate_lease_seconds jitter x of Inl e \<Rightarrow> Inl e
        | Inr (None, d) \<Rightarrow> Inr (no_work True, d, snd x)
        | Inr (Some ids, d) \<Rightarrow>
            (case run_jobs env tm ids (no_work False, d, snd x) of Inl e \<Rightarrow> Inl e
             | Inr (r, d', w') \<Rightarrow> Inr (r, release_writer_gate worker_owner d', w')))"

subsection \<open>Recovery and metrics\<close>

definition lease_expired :: "instant \<Rightarrow> job_row \<Rightarrow> bool" where
  "lease_expired now j \<longleftrightarrow> job_status j = RJ_LEASED \<and> is_before (job_lease_expires_at j) now"

definition recover_job :: "uuid \<Rightarrow> db \<Rightarrow> db" where
  "recover_job jid d =
     (case get_job d jid of None \<Rightarrow> d | Some j \<Rightarrow>
      if job_status j \<noteq> RJ_LEASED then d
      else record_event AE_REASSESSMENT_JOB_RETRY None
        (Some [(''job_id'', JStr (uuid_str (job_id j))), (''claim_id'', JStr (uuid_str (job_claim_id j))),
           (''error_class'', JStr ''lease_expired''), (''note'', JStr ''crash recovery: attempt restored'')])
        (Some ACTOR) (Some (''reassessment job '' @ uuid_str (job_id j) @ '': lease expired, requeued'')) AV_OPERATOR
        (set_job jid job_unleased d))"

definition recover_expired_leases :: "db \<Rightarrow> nat \<times> db" where
  "recover_expired_leases d =
     (let ids = map job_id (filter (lease_expired (db_now d)) (db_jobs d))
      in (length ids, fold recover_job ids d))"

definition runnable_count :: "db \<Rightarrow> nat" where
  "runnable_count d =
     (case find (\<lambda>h. rch_scope h = ''global'') (db_config_heads d) of None \<Rightarrow> 0
      | Some h \<Rightarrow>
          if rch_activating_config_snapshot_id h \<noteq> None then 0
          else length (filter (runnable (rch_active_config_snapshot_id h) (db_now d)) (db_jobs d)))"

subsection \<open>Frames\<close>

lemma set_job_frame [simp]:
  "db_now (set_job i f d) = db_now d" "db_heads (set_job i f d) = db_heads d" "db_claims (set_job i f d) = db_claims d"
  "db_assessments (set_job i f d) = db_assessments d" "db_revisions (set_job i f d) = db_revisions d"
  "db_questions (set_job i f d) = db_questions d" "db_evidence (set_job i f d) = db_evidence d"
  "db_sessions (set_job i f d) = db_sessions d" "db_gates (set_job i f d) = db_gates d"
  "db_config_heads (set_job i f d) = db_config_heads d"
  by (simp_all add: set_job_def)

lemma block_job_frame [simp]:
  "db_heads (block_job clk j ec msg p q d) = db_heads d" "db_claims (block_job clk j ec msg p q d) = db_claims d"
  "db_assessments (block_job clk j ec msg p q d) = db_assessments d" "db_revisions (block_job clk j ec msg p q d) = db_revisions d"
  "db_jobs (block_job clk j ec msg p q d) = tbl_update (\<lambda>r. job_id r = job_id j) (job_blocked clk ec msg) (db_jobs d)"
  by (simp_all add: block_job_def Let_def set_job_def)

lemma retry_job_frame [simp]:
  "db_heads (retry_job jt j ec msg d) = db_heads d" "db_claims (retry_job jt j ec msg d) = db_claims d"
  "db_assessments (retry_job jt j ec msg d) = db_assessments d" "db_revisions (retry_job jt j ec msg d) = db_revisions d"
  "db_jobs (retry_job jt j ec msg d) = tbl_update (\<lambda>r. job_id r = job_id j) (job_retried (db_now d) jt ec msg) (db_jobs d)"
  by (simp_all add: retry_job_def set_job_def)

lemma completed_event_frame [simp]:
  "db_heads (completed_event j p t d) = db_heads d" "db_claims (completed_event j p t d) = db_claims d"
  "db_assessments (completed_event j p t d) = db_assessments d" "db_revisions (completed_event j p t d) = db_revisions d"
  "db_jobs (completed_event j p t d) = db_jobs d"
  by (simp_all add: completed_event_def)

lemma insufficient_question_frame:
  "enqueue_insufficient_question env c snap d = (q, d') \<Longrightarrow>
   db_heads d' = db_heads d \<and> db_claims d' = db_claims d \<and> db_assessments d' = db_assessments d \<and> db_revisions d' = db_revisions d \<and>
   db_jobs d' = db_jobs d"
  by (auto simp: enqueue_insufficient_question_def Let_def split: if_splits)

lemma bump_knowledge_cases:
  assumes "bump_knowledge d = Inr d'"
  obtains r where "get_revision d ''knowledge'' = Some r"
    "d' = d\<lparr>db_revisions := tbl_update (\<lambda>r. rev_scope r = ''knowledge'') (\<lambda>r. r\<lparr>rev_revision := rev_revision r + 1, rev_updated_at := db_now d\<rparr>) (db_revisions d)\<rparr>"
  using assms by (auto simp: bump_knowledge_def split: option.splits)

text \<open>The knowledge revision, and the states of the heads.\<close>

definition knowledge_revision :: "db \<Rightarrow> int option" where
  "knowledge_revision d = map_option rev_revision (get_revision d ''knowledge'')"

definition head_states :: "db \<Rightarrow> (uuid \<times> uuid \<times> assessment_state) list" where
  "head_states d = map (\<lambda>r. (hd_claim_id r, hd_config_snapshot_id r, hd_assessment_state r)) (db_heads d)"

lemma knowledge_revision_cong: "db_revisions d' = db_revisions d \<Longrightarrow> knowledge_revision d' = knowledge_revision d"
  by (simp add: knowledge_revision_def get_revision_def)

lemma states_cong: "db_heads d' = db_heads d \<Longrightarrow> head_states d' = head_states d"
  by (simp add: head_states_def)

lemma bump_revision:
  assumes "bump_knowledge d = Inr d'"
  shows "\<exists>k. knowledge_revision d = Some k \<and> knowledge_revision d' = Some (k + 1)"
proof -
  obtain r where r: "get_revision d ''knowledge'' = Some r" and d': "db_revisions d' = tbl_update (\<lambda>r. rev_scope r = ''knowledge'')
      (\<lambda>r. r\<lparr>rev_revision := rev_revision r + 1, rev_updated_at := db_now d\<rparr>) (db_revisions d)"
    using assms by (rule bump_knowledge_cases) simp
  have "get_revision d' ''knowledge'' = Some (r\<lparr>rev_revision := rev_revision r + 1, rev_updated_at := db_now d\<rparr>)"
    using r unfolding get_revision_def d' by (subst tbl_get_update_id) auto
  then show ?thesis using r by (simp add: knowledge_revision_def)
qed

lemma bump_knowledge_frame:
  "bump_knowledge d = Inr d' \<Longrightarrow> db_heads d' = db_heads d \<and> db_claims d' = db_claims d \<and> db_assessments d' = db_assessments d \<and>
   db_jobs d' = db_jobs d \<and> db_now d' = db_now d"
  by (auto elim!: bump_knowledge_cases)

subsection \<open>What a job may write\<close>

definition unique_heads :: "db \<Rightarrow> bool" where
  "unique_heads d \<longleftrightarrow> distinct (map (\<lambda>r. (hd_claim_id r, hd_config_snapshot_id r)) (db_heads d))"

text \<open>
  The effect of a job on the heads, the knowledge revision and the queue: only the head of its claim may change, and
  only when it is not current; the revision moves by one exactly when the state of a head moved; and no other job is
  touched.
\<close>

definition job_effect :: "uuid \<Rightarrow> uuid \<Rightarrow> uuid \<Rightarrow> db \<Rightarrow> db \<Rightarrow> bool" where
  "job_effect jid c snap d d' \<longleftrightarrow>
     list_all2 (\<lambda>r r'. r' = r \<or> (is_head c snap r \<and> is_head c snap r' \<and> hd_assessment_state r \<noteq> AS_CURRENT)) (db_heads d) (db_heads d') \<and>
     (if head_states d' = head_states d then knowledge_revision d' = knowledge_revision d
      else \<exists>k. knowledge_revision d = Some k \<and> knowledge_revision d' = Some (k + 1)) \<and>
     filter (\<lambda>j. job_id j \<noteq> jid) (db_jobs d') = filter (\<lambda>j. job_id j \<noteq> jid) (db_jobs d)"

lemma unique_head:
  assumes "unique_heads d" "find (is_head c snap) (db_heads d) = Some h" "r \<in> set (db_heads d)" "is_head c snap r"
  shows "r = h"
proof -
  have "h \<in> set (db_heads d)" "is_head c snap h" using assms(2) by (auto simp: find_Some_iff)
  then show ?thesis using assms(1,3,4) unfolding unique_heads_def distinct_map inj_on_def is_head_def by (metis (lifting))
qed

lemma other_jobs: "filter (\<lambda>j. job_id j \<noteq> i) (tbl_update (\<lambda>j. job_id j = i) f t) = filter (\<lambda>j. job_id j \<noteq> i) t"
  if "\<And>j. job_id (f j) = job_id j"
  using that by (induction t) auto

lemma job_steps_id [simp]:
  "job_id (job_blocked clk ec msg j) = job_id j" "job_id (job_completed clk j) = job_id j" "job_id (job_unleased j) = job_id j"
  "job_id (job_retried now jt ec msg j) = job_id j" "job_id (job_leased now ls j) = job_id j"
  by (simp_all add: job_blocked_def job_completed_def job_unleased_def job_retried_def job_leased_def)

lemma set_job_others: "(\<And>j. job_id (f j) = job_id j) \<Longrightarrow>
  filter (\<lambda>j. job_id j \<noteq> i) (db_jobs (set_job i f d)) = filter (\<lambda>j. job_id j \<noteq> i) (db_jobs d)"
  by (simp add: set_job_def other_jobs)

lemma heads_refl: "list_all2 (\<lambda>r r'. r' = r \<or> P r r') t t"
  by (simp add: list_all2_same)

lemma heads_update:
  assumes "\<And>r. r \<in> set t \<Longrightarrow> Q r \<Longrightarrow> P r (f r)"
  shows "list_all2 (\<lambda>r r'. r' = r \<or> P r r') t (tbl_update Q f t)"
  using assms by (induction t) auto

text \<open>A head of the claim that changes its state changes the list of states.\<close>

lemma states_moved:
  assumes "find P t = Some h" "f h \<noteq> g h" "\<And>r. P r \<Longrightarrow> k (u r) = g r" "\<And>r. k r = f r"
  shows "map k (tbl_update P u t) \<noteq> map k t"
  using assms(1)
proof (induction t)
  case (Cons x t)
  then show ?case using assms(2,3,4) by (cases "P x") auto
qed simp

lemma set_head_invalid_effect:
  assumes "set_head_invalid clk c snap d = (prior, d1)" "bump_if_pending prior d1 = Inr d2" "unique_heads d"
  shows "job_effect jid c snap d d2 \<and> db_jobs d2 = db_jobs d \<and> db_claims d2 = db_claims d \<and> db_assessments d2 = db_assessments d"
proof (cases "find (is_head c snap) (db_heads d)")
  case None
  then have "prior = ''missing''" "d2 = d" using assms by (auto simp: set_head_invalid_def bump_if_pending_def)
  then show ?thesis by (simp add: job_effect_def heads_refl)
next
  case (Some h)
  show ?thesis
  proof (cases "hd_assessment_state h")
    case AS_CURRENT
    then have "d2 = d" using assms Some by (auto simp: set_head_invalid_def bump_if_pending_def)
    then show ?thesis by (simp add: job_effect_def heads_refl)
  next
    case AS_INVALID
    let ?u = "\<lambda>r. r\<lparr>hd_assessment_state := AS_INVALID, hd_updated_at := clk\<rparr>"
    have d2: "d2 = d\<lparr>db_heads := tbl_update (is_head c snap) ?u (db_heads d)\<rparr>"
      using AS_INVALID assms Some by (auto simp: set_head_invalid_def bump_if_pending_def)
    have inv: "hd_assessment_state r = AS_INVALID" if "r \<in> set (db_heads d)" "is_head c snap r" for r
      using unique_head [OF assms(3) Some that] AS_INVALID by simp
    have "head_states d2 = head_states d" unfolding head_states_def d2 using inv by (auto simp: tbl_update_def)
    then show ?thesis using inv by (auto simp: job_effect_def d2 knowledge_revision_def get_revision_def is_head_def intro!: heads_update)
  next
    case AS_PENDING
    let ?u = "\<lambda>r. r\<lparr>hd_assessment_state := AS_INVALID, hd_updated_at := clk\<rparr>"
    have d1: "d1 = d\<lparr>db_heads := tbl_update (is_head c snap) ?u (db_heads d)\<rparr>" "prior = ''pending''"
      using AS_PENDING assms(1) Some by (auto simp: set_head_invalid_def)
    then have b: "bump_knowledge d1 = Inr d2" using assms(2) by (simp add: bump_if_pending_def)
    note f = bump_knowledge_frame [OF b] and k = bump_revision [OF b]
    have "head_states d1 \<noteq> head_states d"
      unfolding head_states_def d1 using AS_PENDING
      by (simp, intro states_moved [OF Some, where f = "\<lambda>r. (hd_claim_id r, hd_config_snapshot_id r, hd_assessment_state r)"
          and g = "\<lambda>r. (hd_claim_id r, hd_config_snapshot_id r, AS_INVALID)"]) simp_all
    then have "head_states d2 \<noteq> head_states d" using f by (simp add: head_states_def)
    moreover have "knowledge_revision d1 = knowledge_revision d" by (simp add: d1 knowledge_revision_def get_revision_def)
    moreover have "hd_assessment_state r \<noteq> AS_CURRENT" if "r \<in> set (db_heads d)" "is_head c snap r" for r
      using unique_head [OF assms(3) Some that] AS_PENDING by simp
    ultimately show ?thesis using f k by (auto simp: job_effect_def d1 is_head_def intro!: heads_update)
  qed
qed

lemma job_effect_then:
  assumes "job_effect jid c snap d d1" "db_heads d2 = db_heads d1" "db_revisions d2 = db_revisions d1"
    "filter (\<lambda>j. job_id j \<noteq> jid) (db_jobs d2) = filter (\<lambda>j. job_id j \<noteq> jid) (db_jobs d1)"
  shows "job_effect jid c snap d d2"
  using assms knowledge_revision_cong [OF assms(3)] states_cong [OF assms(2)] by (simp add: job_effect_def)

lemma job_effect_before:
  assumes "job_effect jid c snap d1 d2" "db_heads d1 = db_heads d" "db_revisions d1 = db_revisions d" "db_jobs d1 = db_jobs d"
  shows "job_effect jid c snap d d2"
  using assms knowledge_revision_cong [OF assms(3)] states_cong [OF assms(2)] by (simp add: job_effect_def split: if_splits)

lemma job_effect_refl: "job_effect jid c snap d d"
  by (simp add: job_effect_def heads_refl)

lemma assess_claim_frame:
  assumes "assess_claim env snap rules c scope evidence d w = Inr (a, d1, w1)"
  shows "\<exists>n. d1 = d\<lparr>db_draws := n\<rparr>"
proof -
  obtain ei em d2 st where b: "build_environment_independence_snapshot (we_host env) (cl_id c)
      (rules_hash (we_host env) (cs_claim_type_rules snap)) d (rs_env w) = ((ei, em), d2, st)" by (metis prod.exhaust)
  have "\<exists>n. d2 = d\<lparr>db_draws := n\<rparr>"
    using b by (auto simp: build_environment_independence_snapshot_def uuid4_def Let_def split: if_splits intro: exI [of _ "db_draws d"])
  moreover have "\<exists>n. d3 = d2\<lparr>db_draws := n\<rparr>" if "build_source_independence_snapshot env (cl_id c) d2 v = Inr (m, d3, v')" for v m d3 v'
    using that by (auto simp: build_source_independence_snapshot_def uuid4_def Let_def split: option.splits sum.splits prod.splits
        intro: exI [of _ "db_draws d2"])
  ultimately show ?thesis using assms by (auto simp: assess_claim_def b Let_def split: sum.splits prod.splits)
qed

lemma missing_rows_effect:
  assumes "missing_rows env clk j eff hs claim (d, w) = Inr (o', d', w')" "unique_heads d" "case claim of None \<Rightarrow> True | Some c \<Rightarrow> cl_id c = cid"
  shows "job_effect (job_id j) cid eff d d'"
proof (cases claim)
  case None
  then have "d' = block_job clk j ''claim_or_config_missing'' (''claim=False snapshot='' @ (if hs then ''True'' else ''False'')) ''missing'' None d"
    using assms(1) by (simp add: missing_rows_def)
  then show ?thesis by (auto intro: job_effect_then [OF job_effect_refl] simp: other_jobs)
next
  case (Some c)
  obtain q d1 where q: "enqueue_insufficient_question env c eff d = (q, d1)" by fastforce
  obtain prior d2 where p: "set_head_invalid clk (cl_id c) eff d1 = (prior, d2)" by fastforce
  obtain d3 where b: "bump_if_pending prior d2 = Inr d3" and d': "\<exists>m. d' = block_job clk j ''claim_or_config_missing'' m prior (Some q) d3"
    using assms(1) Some q p by (auto simp: missing_rows_def split: sum.splits)
  have "unique_heads d1" using assms(2) insufficient_question_frame [OF q] by (simp add: unique_heads_def)
  note e = set_head_invalid_effect [OF p b this, of "job_id j"]
  have "job_effect (job_id j) cid eff d d3"
    using e insufficient_question_frame [OF q] assms(3) Some by (auto intro: job_effect_before)
  then show ?thesis using d' by (auto intro: job_effect_then simp: other_jobs)
qed

lemma insufficient_data_effect:
  assumes "insufficient_data env clk j c eff (d, w) = Inr (o', d', w')" "unique_heads d"
  shows "job_effect (job_id j) (cl_id c) eff d d'"
proof -
  obtain prior d1 where p: "set_head_invalid clk (cl_id c) eff d = (prior, d1)" by fastforce
  obtain d2 where b: "bump_if_pending prior d1 = Inr d2" using assms(1) p by (auto simp: insufficient_data_def split: sum.splits)
  obtain q d3 where q: "enqueue_insufficient_question env c eff d2 = (q, d3)" by fastforce
  have d': "\<exists>pl t. d' = completed_event j pl t (set_job (job_id j) (job_completed clk) d3)"
    using assms(1) p b q by (auto simp: insufficient_data_def)
  note e = set_head_invalid_effect [OF p b assms(2), of "job_id j", THEN conjunct1]
  from d' obtain pl t where "d' = completed_event j pl t (set_job (job_id j) (job_completed clk) d3)" by blast
  then show ?thesis using insufficient_question_frame [OF q] by (intro job_effect_then [OF e]) (simp_all add: set_job_def other_jobs)
qed

lemma promote_effect:
  assumes "promote env clk utc j snap c scope evidence h a (d, w) = Inr (o', d', w')" "unique_heads d"
    "find (is_head (cl_id c) (cs_id snap)) (db_heads d) = Some h" "hd_assessment_state h \<noteq> AS_CURRENT"
  shows "job_effect (job_id j) (cl_id c) (cs_id snap) d d'"
proof -
  define aid where "aid = db_uuid4 (supersede (hd_current_assessment_id h) d) (db_draws (supersede (hd_current_assessment_id h) d))"
  define d4 where "d4 = set_job (job_id j) (job_completed clk) ((snd (uuid4 (supersede (hd_current_assessment_id h) d)))\<lparr>
      db_assessments := db_assessments (snd (uuid4 (supersede (hd_current_assessment_id h) d))) @ [new_assessment env aid snap c scope evidence a (db_now d)],
      db_heads := tbl_update (is_head (cl_id c) (cs_id snap)) (promoted_head aid (ad_result a)) (db_heads (snd (uuid4 (supersede (hd_current_assessment_id h) d)))),
      db_claims := tbl_update (\<lambda>r. cl_id r = cl_id c) (refreshed_claim (ad_result a) scope utc) (db_claims (snd (uuid4 (supersede (hd_current_assessment_id h) d))))\<rparr>)"
  obtain d5 pl t where b: "bump_knowledge d4 = Inr d5" and d': "d' = completed_event j pl t d5"
    using assms(1) by (auto simp: promote_def Let_def uuid4_def d4_def aid_def split: sum.splits)
  note f = bump_knowledge_frame [OF b] and k = bump_revision [OF b]
  have s: "db_heads (supersede x d) = db_heads d" "db_jobs (supersede x d) = db_jobs d" "db_revisions (supersede x d) = db_revisions d" for x
    by (simp_all add: supersede_def split: option.splits)
  have h4: "db_heads d4 = tbl_update (is_head (cl_id c) (cs_id snap)) (promoted_head aid (ad_result a)) (db_heads d)"
    "db_revisions d4 = db_revisions d" "db_jobs d4 = tbl_update (\<lambda>r. job_id r = job_id j) (job_completed clk) (db_jobs d)"
    by (simp_all add: d4_def uuid4_def s set_job_def)
  have "head_states d4 \<noteq> head_states d"
    unfolding head_states_def h4 using assms(4)
    by (intro states_moved [OF assms(3), where f = "\<lambda>r. (hd_claim_id r, hd_config_snapshot_id r, hd_assessment_state r)"
        and g = "\<lambda>r. (hd_claim_id r, hd_config_snapshot_id r, AS_CURRENT)"]) (simp_all add: promoted_head_def)
  then have "head_states d5 \<noteq> head_states d" using f by (simp add: head_states_def)
  moreover have "hd_assessment_state r \<noteq> AS_CURRENT" if "r \<in> set (db_heads d)" "is_head (cl_id c) (cs_id snap) r" for r
    using unique_head [OF assms(2,3) that] assms(4) by simp
  ultimately have "job_effect (job_id j) (cl_id c) (cs_id snap) d d5"
    using f k knowledge_revision_cong [OF h4(2)] by (auto simp: job_effect_def h4 other_jobs is_head_def promoted_head_def intro!: heads_update)
  then show ?thesis by (rule job_effect_then) (simp_all add: d')
qed

lemma evaluate_job_effect:
  assumes "evaluate_job env clk utc j snap c (d, w) = Inr (o', d', w')" "unique_heads d"
  shows "job_effect (job_id j) (cl_id c) (cs_id snap) d d'"
proof -
  obtain rules where r: "rules_table (we_host env) (cs_claim_type_rules snap) = Inr rules"
    using assms(1) by (auto simp: evaluate_job_def split: sum.splits)
  define evidence scope where "evidence = claim_evidence d w (cl_id c)" and "scope = latest_assessed_scope d (cl_id c)"
  show ?thesis
  proof (cases "evidence = []")
    case True
    then have "insufficient_data env clk j c (cs_id snap) (d, w) = Inr (o', d', w')"
      using assms(1) r by (simp add: evaluate_job_def evidence_def)
    then show ?thesis using insufficient_data_effect assms(2) by blast
  next
    case False
    then obtain a d1 w1 where a: "assess_claim env snap rules c scope evidence d w = Inr (a, d1, w1)"
      using assms(1) r by (auto simp: evaluate_job_def evidence_def scope_def Let_def split: sum.splits)
    then obtain n where n: "d1 = d\<lparr>db_draws := n\<rparr>" using assess_claim_frame by blast
    have u: "unique_heads d1" using assms(2) by (simp add: n unique_heads_def)
    have e1: "job_effect (job_id j) (cl_id c) (cs_id snap) d d1" by (rule job_effect_then [OF job_effect_refl]) (simp_all add: n)
    show ?thesis
    proof (cases "find (is_head (cl_id c) (cs_id snap)) (db_heads d1)")
      case None
      then have "d' = block_job clk j ''head_missing'' ''no assessment head under the target snapshot'' ''missing'' None d1"
        using assms(1) r a False by (simp add: evaluate_job_def evidence_def [symmetric] scope_def [symmetric])
      then show ?thesis by (auto intro: job_effect_then [OF e1] simp: other_jobs)
    next
      case (Some h)
      show ?thesis
      proof (cases "hd_assessment_state h = AS_CURRENT")
        case True
        then obtain pl t where "d' = completed_event j pl t (set_job (job_id j) (job_completed clk) d1)"
          using assms(1) r a False Some by (auto simp: evaluate_job_def evidence_def [symmetric] scope_def [symmetric])
        then show ?thesis by (intro job_effect_then [OF e1]) (simp_all add: set_job_others)
      next
        case no: False
        then have "promote env clk utc j snap c scope evidence h a (d1, w1) = Inr (o', d', w')"
          using assms(1) r a False Some by (simp add: evaluate_job_def evidence_def [symmetric] scope_def [symmetric])
        from promote_effect [OF this u Some no] show ?thesis by (rule job_effect_before) (simp_all add: n)
      qed
    qed
  qed
qed

lemma process_one_job_effect:
  assumes "process_one_job env clk utc jid (d, w) = Inr (o', d', w')" "get_job d jid = Some j" "unique_heads d"
  shows "job_effect jid (job_claim_id j) (job_target_config_snapshot_id j) d d'"
proof (cases "job_status j = RJ_LEASED")
  case False
  then have "d' = d" using assms by (simp add: process_one_job_def)
  then show ?thesis by (simp add: job_effect_refl)
next
  case True
  have jid: "job_id j = jid" using assms(2) unfolding get_job_def by (auto dest: tbl_get_SomeD)
  obtain eff act where slot: "head_slot d w = Some (eff, act)" using assms True by (auto simp: process_one_job_def split: option.splits)
  show ?thesis
  proof (cases "act \<noteq> None \<or> eff \<noteq> job_target_config_snapshot_id j \<or> active_session_intent d")
    case True
    then have "d' = set_job jid job_unleased d" using assms slot \<open>job_status j = RJ_LEASED\<close> by (auto simp: process_one_job_def split: if_splits)
    then show ?thesis by (auto intro: job_effect_then [OF job_effect_refl] simp: set_job_others)
  next
    case False
    let ?claim = "tbl_get cl_id (job_claim_id j) (db_claims d)"
    have cid: "case ?claim of None \<Rightarrow> True | Some c \<Rightarrow> cl_id c = job_claim_id j" by (auto dest: tbl_get_SomeD split: option.splits)
    show ?thesis
    proof (cases "tbl_get cs_id eff (rs_snapshots w)")
      case None
      then have "missing_rows env clk j eff False ?claim (d, w) = Inr (o', d', w')"
        using assms slot True False by (simp add: process_one_job_def)
      then show ?thesis using missing_rows_effect [OF _ assms(3) cid] False jid by auto
    next
      case (Some snap)
      show ?thesis
      proof (cases ?claim)
        case None
        then have "missing_rows env clk j eff True None (d, w) = Inr (o', d', w')"
          using assms slot True False Some by (simp add: process_one_job_def)
        then show ?thesis using missing_rows_effect [OF _ assms(3), of env clk j eff True None] False jid by auto
      next
        case c: (Some c)
        then have ev: "evaluate_job env clk utc j snap c (d, w) = Inr (o', d', w')"
          using assms slot True False Some by (simp add: process_one_job_def)
        have "cl_id c = job_claim_id j" "cs_id snap = job_target_config_snapshot_id j"
          using cid c Some False by (auto dest: tbl_get_SomeD)
        then show ?thesis using evaluate_job_effect [OF ev assms(3)] jid by simp
      qed
    qed
  qed
qed

lemma block_lost_job_effect:
  assumes "block_lost_job env clk jid ec msg q d = Inr (b, d')" "get_job d jid = Some j" "unique_heads d"
  shows "job_effect jid (job_claim_id j) (job_target_config_snapshot_id j) d d'"
proof (cases "job_status j = RJ_LEASED")
  case False
  then show ?thesis using assms by (simp add: block_lost_job_def job_effect_refl)
next
  case True
  have jid: "job_id j = jid" using assms(2) unfolding get_job_def by (auto dest: tbl_get_SomeD)
  obtain prior d1 where p: "set_head_invalid clk (job_claim_id j) (job_target_config_snapshot_id j) d = (prior, d1)" by fastforce
  obtain d2 where b: "bump_if_pending prior d1 = Inr d2" using assms True p by (auto simp: block_lost_job_def split: sum.splits)
  note e = set_head_invalid_effect [OF p b assms(3), of jid, THEN conjunct1]
  obtain qid d3 where d3: "d' = block_job clk j ec msg prior qid d3"
    "db_heads d3 = db_heads d2 \<and> db_revisions d3 = db_revisions d2 \<and> db_jobs d3 = db_jobs d2"
    using assms(1,2) True p b insufficient_question_frame
    by (auto simp: block_lost_job_def Let_def split: if_splits option.splits prod.splits)
  then show ?thesis using jid by (intro job_effect_then [OF e]) (simp_all add: other_jobs)
qed

lemma fail_jobE:
  assumes "fail_job env clk jitter jid e d = Inr (bt, d')"
  obtains b ec msg q where "block_lost_job env clk jid ec msg q d = Inr (b, d')"
    | b ec msg where "retry_lost_job jitter jid ec msg d = (b, d')"
  using assms by (auto simp: fail_job_def split: exn.splits if_splits sum.splits prod.splits)

lemma retry_lost_job_effect:
  assumes "retry_lost_job jitter jid ec msg d = (b, d')" "get_job d jid = Some j"
  shows "job_effect jid (job_claim_id j) (job_target_config_snapshot_id j) d d'"
proof -
  have jid: "job_id j = jid" using assms(2) unfolding get_job_def by (auto dest: tbl_get_SomeD)
  have "d' = d \<or> d' = retry_job jitter j ec msg d" using assms by (auto simp: retry_lost_job_def split: if_splits)
  then show ?thesis using jid by (auto intro!: job_effect_then [OF job_effect_refl] simp: other_jobs job_effect_refl)
qed

lemma fail_job_effect:
  assumes "fail_job env clk jitter jid e d = Inr (bt, d')" "get_job d jid = Some j" "unique_heads d"
  shows "job_effect jid (job_claim_id j) (job_target_config_snapshot_id j) d d'"
  using assms(1) by (rule fail_jobE) (use block_lost_job_effect retry_lost_job_effect assms(2,3) in blast)+

lemma run_job_effect:
  assumes "run_job env clk utc jitter jid (r, d, w) = Inr (r', d', w')" "get_job d jid = Some j" "unique_heads d"
  shows "job_effect jid (job_claim_id j) (job_target_config_snapshot_id j) d d'"
  using assms process_one_job_effect fail_job_effect
  by (auto simp: run_job_def split: sum.splits prod.splits)

end
