(* ===== verification/Activation.thy ===== *)
theory Activation
  imports Reassessment
begin

section \<open>Online activation of a configuration\<close>

text \<open>
  \<open>packages/memory/activation.py\<close>, with the budget test of \<open>packages/cognition/tokenizer.py\<close>, the reasoning test of
  \<open>packages/llm_gateway/reasoning_compat.py\<close> and the trigger of \<open>migrations/versions/0009_online_activation.py\<close> that
  freezes the heads of a sealed candidate.  Each transaction is a function on the database and the research tables.
  \<open>utc\<close> is the reading of \<open>datetime.now(UTC)\<close>, one per transaction; what other transactions do while the runner sleeps,
  the random jitter and the Russian prefix of a question text are arguments.  Rows are read afresh by each transaction.
\<close>

subsection \<open>Constants and results\<close>

definition SCOPE :: string where "SCOPE = ''global''"
definition ACTIVATION_ACTOR :: string where "ACTIVATION_ACTOR = ''system:activation''"
definition ACTIVE_SESSION_STATES :: "session_state list" where
  "ACTIVE_SESSION_STATES = [SS_SELECTING_QUESTION, SS_PLANNING, SS_EXPLORING, SS_VERIFYING, SS_CONSOLIDATING, SS_REPORTING, SS_COMMITTING]"
definition DEFAULT_PREPARE_BATCH :: nat where "DEFAULT_PREPARE_BATCH = 128"
definition DEFAULT_POST_PUBLISH_BATCH :: nat where "DEFAULT_POST_PUBLISH_BATCH = 64"
definition DEFAULT_MAX_POST_PUBLISH_BATCHES :: nat where "DEFAULT_MAX_POST_PUBLISH_BATCHES = 32"
definition ACTIVATION_GATE_LEASE_SECONDS :: int where "ACTIVATION_GATE_LEASE_SECONDS = 600"
definition DEFAULT_ACTIVATION_LEASE_SECONDS :: int where "DEFAULT_ACTIVATION_LEASE_SECONDS = 3600"
definition DRAIN_LEASE_MARGIN_SECONDS :: int where "DRAIN_LEASE_MARGIN_SECONDS = 600"
definition DEFAULT_MAX_ATTEMPTS :: int where "DEFAULT_MAX_ATTEMPTS = 78"

record activation_env =
  av_host :: host
  av_uuid5 :: "uuid \<Rightarrow> string \<Rightarrow> uuid"
  av_prefix :: string

record activation_result =
  ac_candidate_id :: uuid
  ac_state :: activation_state
  ac_fence :: int
  ac_already_active :: bool
  ac_published :: bool
  ac_resumed :: bool
  ac_cohort_count :: int
  ac_heads_digest :: "string option"
  ac_pending_heads :: nat
  ac_questions_created :: nat

record post_publish_result =
  pp_candidate_id :: uuid
  pp_state :: "activation_state option"
  pp_cursor :: int
  pp_total :: int
  pp_questions_created :: nat
  pp_deferred :: bool
  pp_blocked :: bool
  pp_superseded :: bool

text \<open>The identity of the run: the candidate, the fn it holds and its owner.\<close>

record runner =
  rn_candidate :: uuid
  rn_fence :: int
  rn_owner :: string

abbreviation activation_owner :: "runner \<Rightarrow> gate_owner" where
  "activation_owner r \<equiv> (OWNER_ACTIVATION, rn_owner r)"

subsection \<open>The payload\<close>

definition activation_slot_busy :: "instant \<Rightarrow> activation_state option \<Rightarrow> instant option \<Rightarrow> bool" where
  "activation_slot_busy utc state lease =
     (case state of None \<Rightarrow> True | Some s \<Rightarrow>
      if s \<noteq> AST_DRAFT then True else case lease of None \<Rightarrow> True | Some t \<Rightarrow> utc < t)"

definition PENDING_SECTION :: string where "PENDING_SECTION = ''pending_claims''"

fun int_items :: "json_dict \<Rightarrow> exn + (string \<times> int) list" where
  "int_items [] = Inr []"
| "int_items ((k, v) # kvs) =
     (case py_int v of Inl e \<Rightarrow> Inl e | Inr n \<Rightarrow> case int_items kvs of Inl e \<Rightarrow> Inl e | Inr xs \<Rightarrow> Inr ((k, n) # xs))"

record token_budgets =
  tb_section_limits :: "(string \<times> int) list"
  tb_input_budget :: int

definition budgets_from_snapshot :: "json_dict \<Rightarrow> json_dict \<Rightarrow> exn + token_budgets" where
  "budgets_from_snapshot model budgets =
     (case int_items budgets of Inl e \<Rightarrow> Inl e | Inr limits \<Rightarrow>
      case py_int (dict_get model ''context_window'' (JInt 32768)) of Inl e \<Rightarrow> Inl e | Inr w \<Rightarrow>
      case py_int (dict_get model ''backend_context_limit'' (JInt 32768)) of Inl e \<Rightarrow> Inl e | Inr b \<Rightarrow>
      case py_int (dict_get model ''max_output_tokens'' (JInt 0)) of Inl e \<Rightarrow> Inl e | Inr o' \<Rightarrow>
      case py_int (dict_get model ''safety_margin_tokens'' (JInt 0)) of Inl e \<Rightarrow> Inl e | Inr m \<Rightarrow>
        Inr \<lparr>tb_section_limits = limits, tb_input_budget = min w b - o' - m\<rparr>)"

definition budget_problems :: "token_budgets \<Rightarrow> string list" where
  "budget_problems t =
     (let s = sum_list (map snd (tb_section_limits t))
      in (if s > tb_input_budget t then [''section limits sum '' @ int_str s @ '' > input_budget '' @ int_str (tb_input_budget t)] else [])
         @ map (\<lambda>(n, l). ''section '' @ repr_str n @ '' has a negative limit '' @ int_str l) (filter (\<lambda>(n, l). l < 0) (tb_section_limits t)))"

text \<open>\<open>dict(x or {})\<close>.\<close>

definition dict_or_empty :: "json \<Rightarrow> exn + json_dict" where
  "dict_or_empty v = (if truthy v then py_dict v else Inr [])"

definition validate_payload_budgets :: "json_dict \<Rightarrow> exn option" where
  "validate_payload_budgets payload =
     (case dict_or_empty (dict_get payload ''token_budgets'' JNull) of Inl e \<Rightarrow> Some e | Inr budgets \<Rightarrow>
      case dict_or_empty (dict_get payload ''model'' JNull) of Inl e \<Rightarrow> Some e | Inr model \<Rightarrow>
      case budgets_from_snapshot model (filter (\<lambda>(k, v). k \<noteq> PENDING_SECTION) budgets) of Inl e \<Rightarrow> Some e | Inr t \<Rightarrow>
        if budget_problems t = [] then None
        else Some (ActivationError (''invalid token budgets in payload: '' @ join ''; '' (budget_problems t))))"

definition REASONING_PHASES :: "string list" where
  "REASONING_PHASES = [''exploration'', ''planning'', ''extraction'', ''verification'', ''consolidation'']"

definition REASONING_MODES :: "json list" where
  "REASONING_MODES = [JStr ''on'', JStr ''off'']"

definition quoted :: "string \<Rightarrow> string" where
  "quoted s = CHR 0x27 # s @ [CHR 0x27]"

text \<open>A mode that cannot be hashed makes the membership test raise.\<close>

fun reasoning_problems :: "host \<Rightarrow> json_dict \<Rightarrow> exn + string list" where
  "reasoning_problems h [] = Inr []"
| "reasoning_problems h ((phase, mode) # raw) =
     (if phase \<notin> set REASONING_PHASES then
        map_sum id (Cons (''model.reasoning_by_phase: unknown phase '' @ repr_str phase)) (reasoning_problems h raw)
      else if \<not> hashable mode then Inl (TypeError ''unhashable type'')
      else if mode \<notin> set REASONING_MODES then
        map_sum id (Cons (''model.reasoning_by_phase.'' @ phase @ '' must be '' @ quoted ''on'' @ '' or '' @ quoted ''off'' @ '', got '' @ py_repr (host_frepr h) mode))
          (reasoning_problems h raw)
      else reasoning_problems h raw)"

definition reasoning_payload_problems :: "host \<Rightarrow> json_dict \<Rightarrow> exn + string list" where
  "reasoning_payload_problems h payload =
     (case dict_get payload ''model'' JNull of
        JObj model \<Rightarrow>
          (case dict_get model ''reasoning_by_phase'' JNull of
             JNull \<Rightarrow> Inr []
           | JObj raw \<Rightarrow> reasoning_problems h raw
           | _ \<Rightarrow> Inr [''model.reasoning_by_phase must be an object mapping phase -> '' @ quoted ''on'' @ '' | '' @ quoted ''off''])
      | _ \<Rightarrow> Inr [])"

definition validate_payload_reasoning :: "host \<Rightarrow> json_dict \<Rightarrow> exn option" where
  "validate_payload_reasoning h payload =
     (case reasoning_payload_problems h payload of Inl e \<Rightarrow> Some e | Inr problems \<Rightarrow>
      if problems = [] then None
      else Some (ActivationError (''invalid model.reasoning_by_phase in payload: '' @ join ''; '' problems)))"

subsection \<open>The slot and its tuple\<close>

definition lock_head :: "db \<Rightarrow> exn + config_head_row" where
  "lock_head d = (case tbl_get rch_scope SCOPE (db_config_heads d) of
     None \<Rightarrow> Inl (ActivationError ''global runtime head missing'') | Some h \<Rightarrow> Inr h)"

definition set_slot :: "(config_head_row \<Rightarrow> config_head_row) \<Rightarrow> db \<Rightarrow> db" where
  "set_slot f d = d\<lparr>db_config_heads := tbl_update (\<lambda>h. rch_scope h = SCOPE) f (db_config_heads d)\<rparr>"

definition get_snapshot :: "research \<Rightarrow> uuid \<Rightarrow> snapshot_row option" where
  "get_snapshot w i = tbl_get cs_id i (rs_snapshots w)"

definition set_snapshot :: "uuid \<Rightarrow> (snapshot_row \<Rightarrow> snapshot_row) \<Rightarrow> research \<Rightarrow> research" where
  "set_snapshot i f w = w\<lparr>rs_snapshots := tbl_update (\<lambda>s. cs_id s = i) f (rs_snapshots w)\<rparr>"

definition lease_live :: "instant \<Rightarrow> config_head_row \<Rightarrow> bool" where
  "lease_live utc h \<longleftrightarrow> is_after (rch_activation_lease_expires_at h) utc"

definition tuple_ok :: "instant \<Rightarrow> runner \<Rightarrow> config_head_row \<Rightarrow> bool" where
  "tuple_ok utc r h \<longleftrightarrow>
     rch_activating_config_snapshot_id h = Some (rn_candidate r) \<and> rch_activation_fence h = rn_fence r \<and>
     rch_activation_lease_owner h = Some (rn_owner r) \<and> lease_live utc h"

text \<open>The candidate row under a valid tuple.\<close>

definition check_tuple :: "instant \<Rightarrow> runner \<Rightarrow> db \<Rightarrow> exn + config_head_row" where
  "check_tuple utc r d =
     (case lock_head d of Inl e \<Rightarrow> Inl e | Inr h \<Rightarrow>
      if tuple_ok utc r h then Inr h
      else Inl (ActivationError ''activation tuple mismatch (fence/owner/lease) -- this runner is fenced out''))"

definition candidate_row :: "research \<Rightarrow> uuid \<Rightarrow> exn + snapshot_row" where
  "candidate_row w i = (case get_snapshot w i of None \<Rightarrow> Inl (InvalidRequestError ''Could not refresh instance'') | Some s \<Rightarrow> Inr s)"

definition clear_slot :: "config_head_row \<Rightarrow> config_head_row" where
  "clear_slot h = h\<lparr>rch_activating_config_snapshot_id := None, rch_activation_lease_owner := None, rch_activation_lease_expires_at := None\<rparr>"

definition pending_claim_ids :: "uuid \<Rightarrow> db \<Rightarrow> uuid list" where
  "pending_claim_ids cand d =
     sort (map hd_claim_id (filter (\<lambda>h. hd_config_snapshot_id h = cand \<and> hd_assessment_state h = AS_PENDING) (db_heads d)))"

definition pending_question_id :: "activation_env \<Rightarrow> uuid \<Rightarrow> uuid \<Rightarrow> uuid" where
  "pending_question_id env cand c =
     av_uuid5 env QUESTION_UUID5_NAMESPACE (''activation-pending:'' @ uuid_str cand @ '':'' @ uuid_str c)"

definition question_for_pending_head :: "activation_env \<Rightarrow> uuid \<Rightarrow> uuid \<Rightarrow> db \<Rightarrow> nat \<times> db" where
  "question_for_pending_head env cand c d =
     (let qid = pending_question_id env cand c;
          stmt = (case tbl_get cl_id c (db_claims d) of Some r \<Rightarrow> cl_statement r | None \<Rightarrow> ''claim '' @ uuid_str c)
      in if list_ex (\<lambda>q. q_id q = qid) (db_questions d) then (0, d)
         else (1, d\<lparr>db_questions := db_questions d @
             [\<lparr>q_id = qid, q_text = take 2000 (av_prefix env @ take 1900 stmt), q_origin = QO_PREVIOUS_RESULT,
               q_origin_config_snapshot_id = Some cand, q_state = QS_CANDIDATE, q_priority = 0, q_parent_id = None,
               q_score_components = None, q_embedding_fingerprint = None, q_created_at = db_now d\<rparr>]\<rparr>))"

subsection \<open>The candidate\<close>

definition config_snapshot_sha256 :: "host \<Rightarrow> uuid option \<Rightarrow> string \<Rightarrow> string" where
  "config_snapshot_sha256 h base payload_sha =
     host_canonical_sha256 h (JObj [(''base_snapshot_id'', opt_uuid_json base), (''payload_sha256'', JStr payload_sha)])"

definition is_open_candidate :: "uuid \<Rightarrow> string \<Rightarrow> snapshot_row \<Rightarrow> bool" where
  "is_open_candidate base payload_sha s \<longleftrightarrow>
     cs_base_snapshot_id s = Some base \<and> cs_payload_sha256 s = payload_sha \<and> cs_activation_mode s = AM_ONLINE \<and>
     cs_activation_state s \<notin> {AST_FAILED, AST_ACTIVE, AST_SUPERSEDED}"

definition REQUESTED_SECTIONS :: "string list" where
  "REQUESTED_SECTIONS = [''model'', ''embeddings'', ''prompts'', ''policy'', ''curiosity'', ''token_budgets'', ''session_limits'']"

definition INHERITED_SECTIONS :: "string list" where
  "INHERITED_SECTIONS = [''wake_schedule'', ''reassessment_admission'', ''repair_admission'', ''planning'', ''verification'',
     ''repetition'', ''extraction'', ''research_proxy'']"

definition as_object :: "json \<Rightarrow> json_dict" where
  "as_object v = (case v of JObj kvs \<Rightarrow> kvs | _ \<Rightarrow> [])"

definition new_candidate :: "host \<Rightarrow> uuid \<Rightarrow> snapshot_row \<Rightarrow> json_dict \<Rightarrow> snapshot_row" where
  "new_candidate h i base payload =
     (let sha = host_canonical_sha256 h (JObj payload) in
      \<lparr>cs_id = i, cs_claim_type_rules = as_object (dict_get payload ''claim_type_rules'' JNull), cs_activation_state = AST_DRAFT,
       cs_base_snapshot_id = Some (cs_id base), cs_payload_sha256 = sha, cs_sha256 = config_snapshot_sha256 h (Some (cs_id base)) sha,
       cs_activation_mode = AM_ONLINE, cs_activation_manifest_hash = None, cs_activation_cohort_revision = None,
       cs_activation_expected_head_count = None, cs_activation_verified_head_count = None, cs_activation_heads_sha256 = None,
       cs_activation_verified_at = None, cs_post_publish_manifest_hash = None, cs_post_publish_cursor = None, cs_post_publish_attempts = None,
       cs_post_publish_next_attempt_at = None, cs_post_publish_started_at = None, cs_post_publish_blocked_at = None,
       cs_post_publish_last_error = None, cs_activation_limits = as_object (dict_get payload ''activation_limits'' JNull),
       cs_sections = map (\<lambda>k. (k, dict_get payload k JNull)) REQUESTED_SECTIONS
         @ map (\<lambda>k. (k, dict_get payload k (dict_get (cs_sections base) k JNull))) INHERITED_SECTIONS\<rparr>)"

definition activation_event :: "audit_event_type \<Rightarrow> string \<Rightarrow> json_dict \<Rightarrow> string option \<Rightarrow> db \<Rightarrow> db" where
  "activation_event ty owner payload summary d = record_event ty None (Some payload) (Some owner) summary AV_OPERATOR d"

definition upsert_online_candidate :: "activation_env \<Rightarrow> snapshot_row \<Rightarrow> json_dict \<Rightarrow> world \<Rightarrow> exn + (uuid \<times> bool) \<times> world" where
  "upsert_online_candidate env base payload x =
     (let (d, w) = x; sha = host_canonical_sha256 (av_host env) (JObj payload) in
      if cs_payload_sha256 base = sha then Inr ((cs_id base, cs_activation_state base = AST_ACTIVE), x)
      else case find (is_open_candidate (cs_id base) sha) (rs_snapshots w) of
             Some s \<Rightarrow> Inr ((cs_id s, False), x)
           | None \<Rightarrow>
               let (i, d1) = uuid4 d;
                   w1 = w\<lparr>rs_snapshots := rs_snapshots w @ [new_candidate (av_host env) i base payload]\<rparr>
               in Inr ((i, False),
                    activation_event AE_CONFIG_SNAPSHOT_CREATED ACTIVATION_ACTOR
                      [(''candidate_id'', JStr (uuid_str i)), (''base_snapshot_id'', JStr (uuid_str (cs_id base))),
                       (''payload_sha256'', JStr sha), (''activation_mode'', JStr ''online'')] None d1, w1))"

subsection \<open>The drain\<close>

definition quiesce_counts :: "db \<Rightarrow> (nat \<times> nat \<times> nat \<times> nat) \<times> db" where
  "quiesce_counts d =
     (let active = tbl_count (\<lambda>s. sess_state s \<in> set ACTIVE_SESSION_STATES) (db_sessions d);
          (swept, d1) = sweep_expired_admissions d
      in ((active, count_live_admissions d1, tbl_count (\<lambda>a. att_status a \<in> {CA_PREPARED, CA_RECONCILING}) (db_attempts d1), swept), d1))"

definition base_text :: "snapshot_row \<Rightarrow> json" where
  "base_text s = JStr (case cs_base_snapshot_id s of None \<Rightarrow> ''None'' | Some b \<Rightarrow> uuid_str b)"

definition take_slot :: "uuid \<Rightarrow> int \<Rightarrow> string \<Rightarrow> instant \<Rightarrow> config_head_row \<Rightarrow> config_head_row" where
  "take_slot cand fn owner expires h =
     h\<lparr>rch_activating_config_snapshot_id := Some cand, rch_activation_fence := fn, rch_activation_lease_owner := Some owner,
       rch_activation_lease_expires_at := Some expires\<rparr>"

text \<open>The slot is written with the next fence, for a new intent or a takeover.\<close>

definition write_intent :: "audit_event_type \<Rightarrow> string \<Rightarrow> uuid \<Rightarrow> string \<Rightarrow> instant \<Rightarrow> int \<Rightarrow> snapshot_row \<Rightarrow> config_head_row \<Rightarrow> world \<Rightarrow> int \<times> world" where
  "write_intent ty title cand owner expires drain_wait_seconds c h x =
     (let fn = rch_activation_fence h + 1
      in (fn,
          activation_event ty owner
            [(''candidate_id'', JStr (uuid_str cand)), (''base_snapshot_id'', base_text c), (''fence'', JInt fn), (''scope'', JStr SCOPE),
             (''drain_wait_seconds'', JInt drain_wait_seconds)]
            (Some (''online activation '' @ title @ '' (fence '' @ int_str fn @ ''): '' @ uuid_str cand))
            (set_slot (take_slot cand fn owner expires) (fst x)),
          set_snapshot cand (\<lambda>s. s\<lparr>cs_activation_mode := AM_ONLINE\<rparr>) (snd x)))"

definition publish_activation_drain :: "instant \<Rightarrow> uuid \<Rightarrow> string \<Rightarrow> int \<Rightarrow> int \<Rightarrow> world \<Rightarrow> exn + int \<times> world" where
  "publish_activation_drain utc cand owner lease_seconds drain_wait_seconds x =
     (let (d, w) = x; expires = utc + seconds (max lease_seconds (drain_wait_seconds + DRAIN_LEASE_MARGIN_SECONDS)) in
      case lock_head d of Inl e \<Rightarrow> Inl e | Inr h \<Rightarrow>
      case candidate_row w cand of Inl e \<Rightarrow> Inl e | Inr c \<Rightarrow>
      case rch_activating_config_snapshot_id h of
        None \<Rightarrow> Inr (write_intent AE_ACTIVATION_DRAIN_PUBLISHED ''drain published'' cand owner expires drain_wait_seconds c h x)
      | Some existing \<Rightarrow>
          if existing = cand \<and> rch_activation_lease_owner h = Some owner \<and> lease_live utc h then
            Inr (rch_activation_fence h, set_slot (\<lambda>h. h\<lparr>rch_activation_lease_expires_at := Some expires\<rparr>) d, w)
          else if existing = cand \<and> \<not> lease_live utc h then
            Inr (write_intent AE_ACTIVATION_TAKEOVER ''lease taken over'' cand owner expires drain_wait_seconds c h x)
          else Inl (ActivationError ''activation slot busy (foreign candidate or live foreign lease)''))"

definition cancel_activation_drain :: "instant \<Rightarrow> runner \<Rightarrow> string \<Rightarrow> nat \<times> nat \<times> nat \<Rightarrow> world \<Rightarrow> exn + world" where
  "cancel_activation_drain utc r reason counts x =
     (let (d, w) = x; (active, live, unresolved) = counts in
      case lock_head d of Inl e \<Rightarrow> Inl e | Inr h \<Rightarrow>
      case candidate_row w (rn_candidate r) of Inl e \<Rightarrow> Inl e | Inr c \<Rightarrow>
      if \<not> tuple_ok utc r h then
        Inl (ActivationError ''activation tuple changed during the drain cancel -- the intent was taken over; the new owner's slot is left untouched'')
      else Inr (activation_event AE_ACTIVATION_DRAIN_CANCELLED (rn_owner r)
             [(''candidate_id'', JStr (uuid_str (rn_candidate r))), (''base_snapshot_id'', base_text c), (''fence'', JInt (rn_fence r)),
              (''reason'', JStr reason), (''active_sessions'', JInt (int active)), (''live_admissions'', JInt (int live)),
              (''unresolved_attempts'', JInt (int unresolved))]
             (Some (''activation drain cancelled ('' @ reason @ ''): '' @ uuid_str (rn_candidate r)))
             (set_slot clear_slot d), w))"

text \<open>One poll of the drain wait.\<close>

definition drain_poll :: "instant \<Rightarrow> runner \<Rightarrow> db \<Rightarrow> exn + (nat \<times> nat \<times> nat \<times> nat) \<times> db" where
  "drain_poll utc r d =
     (case lock_head d of Inl e \<Rightarrow> Inl e | Inr h \<Rightarrow>
      if \<not> tuple_ok utc r h then
        Inl (ActivationError ''activation tuple changed during the drain wait -- this runner is fenced out (takeover happened)'')
      else Inr (quiesce_counts d))"

text \<open>
  The wait: polls before the deadline, each followed by what other transactions did during the sleep, and the poll at
  the deadline, which gives up.
\<close>

fun wait_activation_drain :: "runner \<Rightarrow> int \<Rightarrow> (instant \<times> (world \<Rightarrow> world)) list \<Rightarrow> instant \<Rightarrow> nat \<Rightarrow> world \<Rightarrow> (exn + nat) \<times> world" where
  "wait_activation_drain r wait_seconds [] final swept_total (d, w) =
     (case drain_poll final r d of Inl e \<Rightarrow> (Inl e, d, w)
      | Inr ((active, live, unresolved, swept), d1) \<Rightarrow>
          if active = 0 \<and> live = 0 \<and> unresolved = 0 then (Inr (swept_total + swept), d1, w)
          else case cancel_activation_drain final r (''drain_wait_timeout ('' @ int_str wait_seconds @ ''s)'') (active, live, unresolved) (d1, w) of
              Inl e \<Rightarrow> (Inl e, d1, w)
            | Inr x \<Rightarrow> (Inl (ActivationError (''drain timed out after '' @ int_str wait_seconds @ ''s: active sessions present: ''
                @ int_str (int (active + live)))), x))"
| "wait_activation_drain r wait_seconds ((utc, others) # polls) final swept_total (d, w) =
     (case drain_poll utc r d of Inl e \<Rightarrow> (Inl e, d, w)
      | Inr ((active, live, unresolved, swept), d1) \<Rightarrow>
          if active = 0 \<and> live = 0 \<and> unresolved = 0 then (Inr (swept_total + swept), d1, w)
          else wait_activation_drain r wait_seconds polls final (swept_total + swept) (others (d1, w)))"

text \<open>The confirmation under the writer gate: the candidate leaves the state draft.\<close>

definition confirm_quiesced :: "instant \<Rightarrow> runner \<Rightarrow> nat \<Rightarrow> world \<Rightarrow> exn + world" where
  "confirm_quiesced utc r swept x =
     (let (d, w) = x in
      case lock_head d of Inl e \<Rightarrow> Inl e | Inr h \<Rightarrow>
      if \<not> tuple_ok utc r h then Inl (ActivationError ''activation tuple mismatch at the drain confirm -- fenced out'')
      else case candidate_row w (rn_candidate r) of Inl e \<Rightarrow> Inl e | Inr c \<Rightarrow>
        let ((active, live, unresolved, swept_now), d1) = quiesce_counts d in
        if active + live > 0 then Inl (ActivationError (''active sessions present: '' @ int_str (int (active + live))))
        else if unresolved > 0 then Inl (ActivationError (''unresolved commit attempts: '' @ int_str (int unresolved)))
        else Inr (activation_event AE_ACTIVATION_ACQUIRED (rn_owner r)
               [(''candidate_id'', JStr (uuid_str (rn_candidate r))), (''base_snapshot_id'', base_text c), (''fence'', JInt (rn_fence r)),
                (''scope'', JStr SCOPE), (''swept_admissions'', JInt (int (swept + swept_now)))]
               (Some (''online activation quiesced (fence '' @ int_str (rn_fence r) @ ''): '' @ uuid_str (rn_candidate r))) d1,
             set_snapshot (rn_candidate r) (\<lambda>s. if cs_activation_state s = AST_DRAFT then s\<lparr>cs_activation_state := AST_PREPARING_HEADS\<rparr> else s) w))"

definition take_gate :: "runner \<Rightarrow> db \<Rightarrow> bool \<times> db" where
  "take_gate r d = acquire_writer_gate (activation_owner r) GATE_PRIORITY_ACTIVATION ACTIVATION_GATE_LEASE_SECONDS d"

definition drop_gate :: "runner \<Rightarrow> world \<Rightarrow> world" where
  "drop_gate r x = (release_writer_gate (activation_owner r) (fst x), snd x)"

text \<open>The attempts at the gate before the deadline, with what happens between them, and the last one.\<close>

fun confirm_drain :: "instant \<Rightarrow> runner \<Rightarrow> int \<Rightarrow> nat \<Rightarrow> (world \<Rightarrow> world) list \<Rightarrow> world \<Rightarrow> (exn + unit) \<times> world" where
  "confirm_drain utc r gate_wait_seconds swept tries (d, w) =
     (let (got, d1) = take_gate r d in
      if got then
        (case confirm_quiesced utc r swept (d1, w) of Inl e \<Rightarrow> (Inl e, drop_gate r (d1, w)) | Inr x \<Rightarrow> (Inr (), drop_gate r x))
      else case tries of
          [] \<Rightarrow> (case cancel_activation_drain utc r (''gate_wait_timeout ('' @ int_str gate_wait_seconds @ ''s)'') (0, 0, 0) (d1, w) of
                  Inl e \<Rightarrow> (Inl e, d1, w)
                | Inr x \<Rightarrow> (Inl (ActivationError ''could not acquire the writer gate before the deadline''), x))
        | others # rest \<Rightarrow> confirm_drain utc r gate_wait_seconds swept rest (others (d1, w)))"

record drain_plan =
  dp_lease_seconds :: int
  dp_gate_wait_seconds :: int
  dp_drain_wait_seconds :: int
  dp_polls :: "(instant \<times> (world \<Rightarrow> world)) list"
  dp_final :: instant
  dp_confirm :: instant
  dp_tries :: "(world \<Rightarrow> world) list"

definition acquire_activation :: "instant \<Rightarrow> uuid \<Rightarrow> string \<Rightarrow> drain_plan \<Rightarrow> world \<Rightarrow> (exn + int) \<times> world" where
  "acquire_activation utc cand owner plan x =
     (case publish_activation_drain utc cand owner (dp_lease_seconds plan) (dp_drain_wait_seconds plan) x of Inl e \<Rightarrow> (Inl e, x)
      | Inr (fn, x1) \<Rightarrow>
          let r = \<lparr>rn_candidate = cand, rn_fence = fn, rn_owner = owner\<rparr> in
          case candidate_row (snd x1) cand of Inl e \<Rightarrow> (Inl e, x1) | Inr c \<Rightarrow>
          if cs_activation_state c \<noteq> AST_DRAFT then (Inr fn, x1)
          else case wait_activation_drain r (dp_drain_wait_seconds plan) (dp_polls plan) (dp_final plan) 0 x1 of
              (Inl e, x2) \<Rightarrow> (Inl e, x2)
            | (Inr swept, x2) \<Rightarrow>
                (case confirm_drain (dp_confirm plan) r (dp_gate_wait_seconds plan) swept (dp_tries plan) x2 of
                   (Inl e, x3) \<Rightarrow> (Inl e, x3)
                 | (Inr _, x3) \<Rightarrow> (Inr fn, x3)))"

subsection \<open>Cohort, heads and seal\<close>

definition frozen_row :: "int \<Rightarrow> string \<Rightarrow> nat \<Rightarrow> snapshot_row \<Rightarrow> snapshot_row" where
  "frozen_row revision manifest_hash n s = s\<lparr>cs_activation_state := AST_PREPARING_HEADS, cs_activation_cohort_revision := Some revision,
     cs_activation_manifest_hash := Some manifest_hash, cs_activation_expected_head_count := Some (int n)\<rparr>"

definition freeze_cohort_online :: "activation_env \<Rightarrow> instant \<Rightarrow> runner \<Rightarrow> world \<Rightarrow> exn + int \<times> world" where
  "freeze_cohort_online env utc r x =
     (let (d, w) = x in
      case check_tuple utc r d of Inl e \<Rightarrow> Inl e | Inr _ \<Rightarrow>
      case candidate_row w (rn_candidate r) of Inl e \<Rightarrow> Inl e | Inr c \<Rightarrow>
      if cs_activation_cohort_revision c \<noteq> None then
        Inr (case cs_activation_expected_head_count c of None \<Rightarrow> 0 | Some n \<Rightarrow> n, x)
      else case get_revision d ''knowledge'' of None \<Rightarrow> Inl (NoResultFound ''No row was found when one was required'')
      | Some rv \<Rightarrow>
          let ids = sort (map cl_id (db_claims d));
              manifest = JObj [(''cohort_revision'', JInt (rev_revision rv)), (''claim_ids'', JArr (map (JStr \<circ> uuid_str) ids))]
          in Inr (int (length ids), d,
               set_snapshot (rn_candidate r) (frozen_row (rev_revision rv) (host_canonical_sha256 (av_host env) manifest) (length ids)) w))"

definition rule_unchanged :: "host \<Rightarrow> json_dict \<Rightarrow> json_dict \<Rightarrow> string \<Rightarrow> bool" where
  "rule_unchanged h base_rules cand_rules claim_type =
     (let a = dict_get base_rules claim_type JNull; b = dict_get cand_rules claim_type JNull in
      if a = JNull \<or> b = JNull then a = JNull \<and> b = JNull
      else host_canonical_sha256 h a = host_canonical_sha256 h b)"

definition enqueue_activation_job :: "uuid \<Rightarrow> uuid \<Rightarrow> db \<Rightarrow> bool \<times> db" where
  "enqueue_activation_job c snap d =
     (if has_active_job c snap d then (False, d)
      else let (i, d1) = uuid4 d in (True, d1\<lparr>db_jobs := db_jobs d1 @ [queued_job i c snap ''activation'' (db_now d)]\<rparr>))"

text \<open>The trigger: no head of a sealed candidate is inserted or updated.\<close>

definition heads_sealed :: "research \<Rightarrow> uuid \<Rightarrow> bool" where
  "heads_sealed w snap = list_ex (\<lambda>s. cs_id s = snap \<and> cs_activation_mode s \<noteq> AM_BOOTSTRAP \<and>
     cs_activation_state s \<in> {AST_READY, AST_PUBLISHING}) (rs_snapshots w)"

definition shadow_of :: "head_row option \<Rightarrow> bool \<Rightarrow> uuid \<Rightarrow> uuid \<Rightarrow> head_row \<Rightarrow> head_row" where
  "shadow_of base_head carry c cand h =
     h\<lparr>hd_assessment_state := (if carry then AS_CURRENT else AS_PENDING),
       hd_current_assessment_id := (case base_head of Some b \<Rightarrow> if carry then hd_current_assessment_id b else None | None \<Rightarrow> None),
       hd_epistemic_status := (case base_head of Some b \<Rightarrow> if carry then hd_epistemic_status b else None | None \<Rightarrow> None),
       hd_prepared_by := ''rules_activation''\<rparr>"

definition fresh_head :: "uuid \<Rightarrow> uuid \<Rightarrow> instant \<Rightarrow> head_row" where
  "fresh_head c cand now = \<lparr>hd_claim_id = c, hd_config_snapshot_id = cand, hd_assessment_state = AS_PENDING, hd_current_assessment_id = None,
     hd_epistemic_status = None, hd_prepared_by = ''rules_activation'', hd_updated_at = now\<rparr>"

definition carries_over :: "host \<Rightarrow> snapshot_row \<Rightarrow> snapshot_row \<Rightarrow> claim_row \<Rightarrow> head_row option \<Rightarrow> bool" where
  "carries_over h base cand c base_head =
     (case base_head of None \<Rightarrow> False
      | Some b \<Rightarrow> hd_assessment_state b = AS_CURRENT \<and> hd_current_assessment_id b \<noteq> None \<and>
          rule_unchanged h (cs_claim_type_rules base) (cs_claim_type_rules cand) (claim_type_value (cl_claim_type c)))"

definition prepare_head :: "activation_env \<Rightarrow> snapshot_row \<Rightarrow> snapshot_row \<Rightarrow> research \<Rightarrow> claim_row \<Rightarrow> db \<Rightarrow> exn + db" where
  "prepare_head env base cand w c d =
     (let base_head = find (is_head (cl_id c) (cs_id base)) (db_heads d);
          carry = carries_over (av_host env) base cand c base_head;
          put = shadow_of base_head carry (cl_id c) (cs_id cand);
          enqueue = (\<lambda>d. if carry then d else snd (enqueue_activation_job (cl_id c) (cs_id cand) d))
      in case find (is_head (cl_id c) (cs_id cand)) (db_heads d) of
           None \<Rightarrow>
             if heads_sealed w (cs_id cand) then Inl (DBAPIError ''sealed activation heads are immutable'')
             else Inr (enqueue (d\<lparr>db_heads := db_heads d @ [put (fresh_head (cl_id c) (cs_id cand) (db_now d))]\<rparr>))
         | Some h \<Rightarrow>
             if put h = h then Inr (enqueue d)
             else if heads_sealed w (cs_id cand) then Inl (DBAPIError ''sealed activation heads are immutable'')
             else Inr (enqueue (d\<lparr>db_heads := tbl_update (is_head (cl_id c) (cs_id cand)) put (db_heads d)\<rparr>)))"

fun prepare_claims :: "activation_env \<Rightarrow> snapshot_row \<Rightarrow> snapshot_row \<Rightarrow> research \<Rightarrow> claim_row list \<Rightarrow> db \<Rightarrow> exn + db" where
  "prepare_claims env base cand w [] d = Inr d"
| "prepare_claims env base cand w (c # cs) d =
     (case prepare_head env base cand w c d of Inl e \<Rightarrow> Inl e | Inr d' \<Rightarrow> prepare_claims env base cand w cs d')"

text \<open>The transaction of one batch.\<close>

definition prepare_batch :: "activation_env \<Rightarrow> instant \<Rightarrow> runner \<Rightarrow> snapshot_row \<Rightarrow> snapshot_row \<Rightarrow> claim_row list \<Rightarrow> world \<Rightarrow> exn + world" where
  "prepare_batch env utc r base cand batch x =
     (let (d, w) = x in
      case check_tuple utc r d of Inl e \<Rightarrow> Inl e | Inr _ \<Rightarrow>
      case prepare_claims env base cand w batch d of Inl e \<Rightarrow> Inl e | Inr d' \<Rightarrow> Inr (d', w))"

function batches :: "nat \<Rightarrow> 'a list \<Rightarrow> 'a list list" where
  "batches n xs = (if n = 0 \<or> xs = [] then [] else take n xs # batches n (drop n xs))"
  by pat_completeness auto
termination by (relation "measure (length \<circ> snd)") auto

declare batches.simps [simp del]

fun prepare_batches :: "activation_env \<Rightarrow> instant \<Rightarrow> runner \<Rightarrow> snapshot_row \<Rightarrow> snapshot_row \<Rightarrow> claim_row list list \<Rightarrow> nat \<Rightarrow> world \<Rightarrow> (exn + nat) \<times> world" where
  "prepare_batches env utc r base cand [] prepared x = (Inr prepared, x)"
| "prepare_batches env utc r base cand (b # bs) prepared x =
     (case prepare_batch env utc r base cand b x of Inl e \<Rightarrow> (Inl e, x)
      | Inr x' \<Rightarrow> prepare_batches env utc r base cand bs (prepared + length b) x')"

definition prepare_heads_online :: "activation_env \<Rightarrow> instant \<Rightarrow> runner \<Rightarrow> nat \<Rightarrow> world \<Rightarrow> (exn + nat) \<times> world" where
  "prepare_heads_online env utc r batch_size x =
     (let (d, w) = x in
      case candidate_row w (rn_candidate r) of Inl e \<Rightarrow> (Inl e, x) | Inr cand \<Rightarrow>
      case cs_base_snapshot_id cand of None \<Rightarrow> (Inl (ActivationError ''candidate has no base snapshot''), x) | Some b \<Rightarrow>
      case get_snapshot w b of None \<Rightarrow> (Inl (ActivationError ''base snapshot missing''), x) | Some base \<Rightarrow>
        prepare_batches env utc r base cand (batches batch_size (sort_key cl_id (db_claims d))) 0 x)"

definition head_digest_row :: "head_row \<Rightarrow> json" where
  "head_digest_row h = JObj [(''claim_id'', JStr (uuid_str (hd_claim_id h))),
     (''assessment_state'', JStr (assessment_state_value (hd_assessment_state h))),
     (''current_assessment_id'', opt_uuid_json (hd_current_assessment_id h)),
     (''epistemic_status'', opt_json (JStr \<circ> epistemic_status_value) (hd_epistemic_status h)),
     (''prepared_by'', JStr (hd_prepared_by h))]"

definition candidate_heads :: "uuid \<Rightarrow> db \<Rightarrow> head_row list" where
  "candidate_heads cand d = sort_key hd_claim_id (filter (\<lambda>h. hd_config_snapshot_id h = cand) (db_heads d))"

definition int_or_0 :: "int option \<Rightarrow> int" where
  "int_or_0 n = (case n of None \<Rightarrow> 0 | Some i \<Rightarrow> i)"

definition sealed_row :: "string \<Rightarrow> nat \<Rightarrow> instant \<Rightarrow> snapshot_row \<Rightarrow> snapshot_row" where
  "sealed_row digest n utc s = s\<lparr>cs_activation_state := AST_READY, cs_activation_heads_sha256 := Some digest,
     cs_activation_verified_head_count := Some (int n), cs_activation_verified_at := Some utc\<rparr>"

definition verify_and_seal_online :: "activation_env \<Rightarrow> instant \<Rightarrow> runner \<Rightarrow> world \<Rightarrow> exn + string \<times> world" where
  "verify_and_seal_online env utc r x =
     (let (d, w) = x in
      case check_tuple utc r d of Inl e \<Rightarrow> Inl e | Inr _ \<Rightarrow>
      case candidate_row w (rn_candidate r) of Inl e \<Rightarrow> Inl e | Inr c \<Rightarrow>
      if cs_activation_state c = AST_READY then
        (case cs_activation_heads_sha256 c of None \<Rightarrow> Inl (AssertionError []) | Some s \<Rightarrow> Inr (s, x))
      else case get_revision d ''knowledge'' of None \<Rightarrow> Inl (NoResultFound ''No row was found when one was required'')
      | Some rv \<Rightarrow>
          if cs_activation_cohort_revision c \<noteq> None \<and> cs_activation_cohort_revision c \<noteq> Some (rev_revision rv) then
            Inl (ActivationError ''knowledge revision moved since the cohort freeze -- rebuild before sealing'')
          else
            let rows = candidate_heads (cs_id c) d; expected = int_or_0 (cs_activation_expected_head_count c) in
            if int (length rows) \<noteq> expected then
              Inl (ActivationError (''incomplete cohort: '' @ int_str (int (length rows)) @ '' heads != expected '' @ int_str expected))
            else
              let digest = host_canonical_sha256 (av_host env) (JArr (map head_digest_row rows))
              in Inr (digest, d, set_snapshot (rn_candidate r) (sealed_row digest (length rows) utc) w))"

subsection \<open>The flip\<close>

definition pending_limit :: "snapshot_row \<Rightarrow> exn + int" where
  "pending_limit c =
     (let v = dict_get (cs_activation_limits c) ''online_activation_max_pending_questions'' (JInt 100)
      in py_int (if truthy v then v else JInt 100))"

definition start_publishing :: "instant \<Rightarrow> runner \<Rightarrow> world \<Rightarrow> exn + world" where
  "start_publishing utc r x =
     (let (d, w) = x in
      case check_tuple utc r d of Inl e \<Rightarrow> Inl e | Inr _ \<Rightarrow>
      case candidate_row w (rn_candidate r) of Inl e \<Rightarrow> Inl e | Inr c \<Rightarrow>
      if cs_activation_state c = AST_READY then
        (case pending_limit c of Inl e \<Rightarrow> Inl e | Inr limit \<Rightarrow>
         let n = length (pending_claim_ids (cs_id c) d) in
         if int n > limit then
           Inl (ActivationError (''pending question backlog '' @ int_str (int n) @ '' exceeds the limit '' @ int_str limit
             @ '' -- the rules change invalidates too much at once''))
         else Inr (d, set_snapshot (rn_candidate r) (\<lambda>s. s\<lparr>cs_activation_state := AST_PUBLISHING\<rparr>) w))
      else if cs_activation_state c \<noteq> AST_PUBLISHING then
        Inl (ActivationError (''cannot publish from state '' @ repr_str (activation_state_value (cs_activation_state c))))
      else Inr x)"

definition bump_revision_row :: "db \<Rightarrow> db" where
  "bump_revision_row d = d\<lparr>db_revisions := tbl_update (\<lambda>r. rev_scope r = ''knowledge'')
     (\<lambda>r. r\<lparr>rev_revision := rev_revision r + 1, rev_updated_at := db_now d\<rparr>) (db_revisions d)\<rparr>"

definition post_publish_start :: "string \<Rightarrow> instant \<Rightarrow> snapshot_row \<Rightarrow> snapshot_row" where
  "post_publish_start manifest_hash utc s =
     s\<lparr>cs_post_publish_manifest_hash := Some manifest_hash, cs_post_publish_cursor := Some 0, cs_post_publish_attempts := Some 0,
       cs_post_publish_next_attempt_at := Some utc, cs_post_publish_started_at := Some utc, cs_activation_state := AST_POST_PUBLISH\<rparr>"

text \<open>What the flip demands before it writes anything; \<open>None\<close> when it may go ahead.\<close>

definition flip_refusal :: "snapshot_row \<Rightarrow> config_head_row \<Rightarrow> nat \<times> nat \<times> nat \<times> nat \<Rightarrow> int option \<Rightarrow> exn option" where
  "flip_refusal c h counts rv =
     (let (active, live, unresolved, _) = counts in
      if Some (rch_active_config_snapshot_id h) \<noteq> cs_base_snapshot_id c then Some (ActivationError ''active pointer is not the candidate base revision'')
      else if active + live > 0 then
        Some (ActivationError (''active sessions present: '' @ int_str (int (active + live)) @ '' -- the flip is blocked (quiesce re-check at the flip moment)''))
      else if unresolved > 0 then Some (ActivationError (''unresolved commit attempts: '' @ int_str (int unresolved) @ '' -- the flip is blocked''))
      else if (case cs_activation_heads_sha256 c of None \<Rightarrow> True | Some s \<Rightarrow> s = []) \<or> cs_activation_verified_head_count c = None then
        Some (ActivationError ''verification seal missing'')
      else if int_or_0 (cs_activation_verified_head_count c) \<noteq> int_or_0 (cs_activation_expected_head_count c) then
        Some (ActivationError ''seal count mismatch'')
      else case rv of None \<Rightarrow> Some (NoResultFound ''No row was found when one was required'')
      | Some v \<Rightarrow> if v \<noteq> int_or_0 (cs_activation_cohort_revision c) then Some (ActivationError ''knowledge revision moved -- rebuild before the flip'') else None)"

definition flip :: "activation_env \<Rightarrow> instant \<Rightarrow> runner \<Rightarrow> world \<Rightarrow> exn + nat \<times> world" where
  "flip env utc r x =
     (let (d, w) = x in
      case lock_head d of Inl e \<Rightarrow> Inl e | Inr h \<Rightarrow>
      case candidate_row w (rn_candidate r) of Inl e \<Rightarrow> Inl e | Inr c \<Rightarrow>
      if \<not> tuple_ok utc r h then Inl (ActivationError ''activation tuple mismatch at the flip -- fenced out'')
      else if rch_active_config_snapshot_id h = rn_candidate r then
        (if cs_activation_state c = AST_POST_PUBLISH then Inr (length (pending_claim_ids (rn_candidate r) d), x)
         else Inl (ActivationError ''pointer already moved but the candidate is not post_publish''))
      else
        let (counts, d1) = quiesce_counts d in
        case flip_refusal c h counts (map_option rev_revision (get_revision d1 ''knowledge'')) of Some e \<Rightarrow> Inl e
        | None \<Rightarrow>
            let pending = pending_claim_ids (rn_candidate r) d1;
                manifest = host_canonical_sha256 (av_host env) (JObj [(''total'', JInt (int (length pending))),
                  (''question_ids'', JArr (map (JStr \<circ> uuid_str \<circ> pending_question_id env (rn_candidate r)) pending))]);
                w1 = set_snapshot (rn_candidate r) (post_publish_start manifest utc) w;
                w2 = (case cs_base_snapshot_id c of None \<Rightarrow> w1
                      | Some b \<Rightarrow> set_snapshot b (\<lambda>s. if cs_activation_mode s \<noteq> AM_BOOTSTRAP then s\<lparr>cs_activation_state := AST_SUPERSEDED\<rparr> else s) w1)
            in Inr (length pending,
                 activation_event AE_ACTIVATION_PUBLISHED (rn_owner r)
                   [(''candidate_id'', JStr (uuid_str (rn_candidate r))), (''base_snapshot_id'', base_text c), (''fence'', JInt (rn_fence r)),
                    (''heads_sha256'', opt_json JStr (cs_activation_heads_sha256 c)), (''pending_heads'', JInt (int (length pending))),
                    (''manifest_hash'', JStr manifest)]
                   (Some (''online activation published: '' @ uuid_str (rn_candidate r) @ '' (fence '' @ int_str (rn_fence r) @ '')''))
                   (bump_revision_row (set_slot (\<lambda>h. h\<lparr>rch_active_config_snapshot_id := rn_candidate r\<rparr>) d1)), w2))"

definition publish_online :: "activation_env \<Rightarrow> instant \<Rightarrow> runner \<Rightarrow> world \<Rightarrow> (exn + nat) \<times> world" where
  "publish_online env utc r x =
     (case start_publishing utc r x of Inl e \<Rightarrow> (Inl e, x)
      | Inr x1 \<Rightarrow> (case flip env utc r x1 of Inl e \<Rightarrow> (Inl e, x1) | Inr (n, x2) \<Rightarrow> (Inr n, x2)))"

subsection \<open>Terminal cleanup\<close>

datatype terminal_outcome = TO_active | TO_post_publish_blocked | TO_failed

primrec terminal_outcome_value :: "terminal_outcome \<Rightarrow> string" where
  "terminal_outcome_value TO_active = ''active''"
| "terminal_outcome_value TO_post_publish_blocked = ''post_publish_blocked''"
| "terminal_outcome_value TO_failed = ''failed''"

definition blocked_events :: "runner \<Rightarrow> snapshot_row \<Rightarrow> string option \<Rightarrow> db \<Rightarrow> db" where
  "blocked_events r c last_error d =
     record_event AE_ALERT_RAISED None
       (Some [(''alert_class'', JStr ''post_publish_blocked''), (''candidate_id'', JStr (uuid_str (cs_id c))),
          (''cursor'', opt_json JInt (cs_post_publish_cursor c))])
       (Some (rn_owner r)) (Some (''alert: post-publish manifest blocked ('' @ uuid_str (cs_id c) @ '')'')) AV_DIAGNOSTIC
       (activation_event AE_ACTIVATION_POST_PUBLISH_BLOCKED (rn_owner r)
          [(''candidate_id'', JStr (uuid_str (cs_id c))), (''cursor'', opt_json JInt (cs_post_publish_cursor c)),
           (''attempts'', opt_json JInt (cs_post_publish_attempts c)), (''last_error'', opt_json JStr last_error)]
          (Some (''post-publish blocked: '' @ uuid_str (cs_id c))) d)"

definition cleaned_up :: "runner \<Rightarrow> terminal_outcome \<Rightarrow> db \<Rightarrow> db" where
  "cleaned_up r outcome d =
     activation_event AE_ACTIVATION_CLEANED_UP (rn_owner r)
       [(''candidate_id'', JStr (uuid_str (rn_candidate r))), (''outcome'', JStr (terminal_outcome_value outcome)), (''fence'', JInt (rn_fence r))]
       (Some (''activation slot cleaned up ('' @ terminal_outcome_value outcome @ '')'')) (set_slot clear_slot d)"

definition set_last_error :: "string option \<Rightarrow> snapshot_row \<Rightarrow> snapshot_row" where
  "set_last_error e s = (case e of None \<Rightarrow> s | Some m \<Rightarrow> s\<lparr>cs_post_publish_last_error := Some (take 1500 m)\<rparr>)"

definition terminal_row :: "terminal_outcome \<Rightarrow> string option \<Rightarrow> instant \<Rightarrow> snapshot_row \<Rightarrow> snapshot_row" where
  "terminal_row outcome last_error utc s =
     (case outcome of
        TO_active \<Rightarrow> s\<lparr>cs_activation_state := AST_ACTIVE\<rparr>
      | TO_post_publish_blocked \<Rightarrow> set_last_error last_error (s\<lparr>cs_activation_state := AST_POST_PUBLISH_BLOCKED,
          cs_post_publish_blocked_at := Some utc, cs_post_publish_next_attempt_at := Some utc\<rparr>)
      | TO_failed \<Rightarrow> set_last_error last_error (s\<lparr>cs_activation_state := AST_FAILED\<rparr>))"

definition terminal_events :: "runner \<Rightarrow> terminal_outcome \<Rightarrow> string option \<Rightarrow> snapshot_row \<Rightarrow> db \<Rightarrow> db" where
  "terminal_events r outcome last_error c d =
     (case outcome of
        TO_active \<Rightarrow> activation_event AE_ACTIVATION_POST_PUBLISH_COMPLETED (rn_owner r)
          [(''candidate_id'', JStr (uuid_str (cs_id c))), (''cursor'', opt_json JInt (cs_post_publish_cursor c)),
           (''manifest_hash'', opt_json JStr (cs_post_publish_manifest_hash c))]
          (Some (''post-publish manifest completed: '' @ uuid_str (cs_id c))) d
      | TO_post_publish_blocked \<Rightarrow> blocked_events r c last_error d
      | TO_failed \<Rightarrow> d)"

definition terminal_cleanup :: "instant \<Rightarrow> runner \<Rightarrow> terminal_outcome \<Rightarrow> string option \<Rightarrow> world \<Rightarrow> exn + world" where
  "terminal_cleanup utc r outcome last_error x =
     (let (d, w) = x in
      case lock_head d of Inl e \<Rightarrow> Inl e | Inr h \<Rightarrow>
      if rch_activating_config_snapshot_id h \<noteq> None \<and> \<not> tuple_ok utc r h then
        Inl (ActivationError ''cannot clean up: the slot is fenced out (takeover happened)'')
      else case get_snapshot w (rn_candidate r) of None \<Rightarrow> Inl (AssertionError [])
      | Some c \<Rightarrow> Inr (cleaned_up r outcome (terminal_events r outcome last_error c d),
          set_snapshot (rn_candidate r) (terminal_row outcome last_error utc) w))"

subsection \<open>The post-publish manifest\<close>

fun pending_questions :: "activation_env \<Rightarrow> uuid \<Rightarrow> uuid list \<Rightarrow> db \<Rightarrow> nat \<times> db" where
  "pending_questions env cand [] d = (0, d)"
| "pending_questions env cand (c # cs) d =
     (let (n, d1) = question_for_pending_head env cand c d; (m, d2) = pending_questions env cand cs d1 in (n + m, d2))"

definition manifest_batch :: "activation_env \<Rightarrow> string \<Rightarrow> runner \<Rightarrow> nat \<Rightarrow> snapshot_row \<Rightarrow> world \<Rightarrow> nat \<times> world" where
  "manifest_batch env phase r batch_size c x =
     (let (d, w) = x; cursor = nat (int_or_0 (cs_post_publish_cursor c));
          part = take batch_size (drop cursor (pending_claim_ids (cs_id c) d));
          (n, d1) = pending_questions env (cs_id c) part d; next = int (cursor + length part)
      in (n, activation_event AE_ACTIVATION_POST_PUBLISH_BATCH (rn_owner r)
           [(''phase'', JStr phase), (''candidate_id'', JStr (uuid_str (cs_id c))), (''cursor'', JInt next), (''batch'', JInt (int n))] None
           (bump_revision_row d1),
          set_snapshot (cs_id c) (\<lambda>s. s\<lparr>cs_post_publish_cursor := Some next\<rparr>) w))"

datatype batch_outcome =
    BO_done post_publish_result
  | BO_next nat

definition pp_result :: "uuid \<Rightarrow> activation_state option \<Rightarrow> int \<Rightarrow> nat \<Rightarrow> post_publish_result" where
  "pp_result cand state cursor created =
     \<lparr>pp_candidate_id = cand, pp_state = state, pp_cursor = cursor, pp_total = 0, pp_questions_created = created, pp_deferred = False,
      pp_blocked = False, pp_superseded = False\<rparr>"

text \<open>One transaction of the manifest.\<close>

definition post_publish_tx :: "activation_env \<Rightarrow> instant \<Rightarrow> runner \<Rightarrow> nat \<Rightarrow> nat \<Rightarrow> world \<Rightarrow> exn + batch_outcome \<times> world" where
  "post_publish_tx env utc r batch_size created x =
     (let (d, w) = x in
      case lock_head d of Inl e \<Rightarrow> Inl e | Inr h \<Rightarrow>
      case get_snapshot w (rn_candidate r) of None \<Rightarrow> Inl (AssertionError []) | Some c \<Rightarrow>
      let cursor = int_or_0 (cs_post_publish_cursor c); st = cs_activation_state c in
      if st \<in> {AST_ACTIVE, AST_SUPERSEDED} then
        Inr (BO_done ((pp_result (rn_candidate r) (Some st) cursor created)\<lparr>pp_superseded := (st = AST_SUPERSEDED)\<rparr>), x)
      else if st \<noteq> AST_POST_PUBLISH then
        Inl (ActivationError (''post-publish run from unexpected state '' @ repr_str (activation_state_value st)))
      else if \<not> tuple_ok utc r h then
        Inr (BO_done ((pp_result (rn_candidate r) (Some st) cursor created)\<lparr>pp_deferred := True\<rparr>), x)
      else if is_after (cs_post_publish_next_attempt_at c) utc then
        Inr (BO_done ((pp_result (rn_candidate r) (Some st) cursor created)\<lparr>pp_deferred := True\<rparr>), x)
      else if int (length (pending_claim_ids (cs_id c) d)) \<le> cursor then
        (case terminal_cleanup utc r TO_active None x of Inl e \<Rightarrow> Inl e
         | Inr x' \<Rightarrow> Inr (BO_done ((pp_result (rn_candidate r) (Some AST_ACTIVE) cursor created)\<lparr>pp_total := cursor\<rparr>), x'))
      else let (n, x') = manifest_batch env ''publish'' r batch_size c x in Inr (BO_next n, x'))"

definition state_now :: "research \<Rightarrow> uuid \<Rightarrow> activation_state option" where
  "state_now w cand = map_option cs_activation_state (get_snapshot w cand)"

definition cursor_now :: "research \<Rightarrow> uuid \<Rightarrow> int" where
  "cursor_now w cand = (case get_snapshot w cand of None \<Rightarrow> 0 | Some c \<Rightarrow> int_or_0 (cs_post_publish_cursor c))"

primrec post_publish_batches :: "activation_env \<Rightarrow> instant \<Rightarrow> runner \<Rightarrow> nat \<Rightarrow> nat \<Rightarrow> nat \<Rightarrow> world \<Rightarrow> (exn + post_publish_result) \<times> nat \<times> world" where
  "post_publish_batches env utc r batch_size 0 created x =
     (Inr (pp_result (rn_candidate r) (state_now (snd x) (rn_candidate r)) (cursor_now (snd x) (rn_candidate r)) created), created, x)"
| "post_publish_batches env utc r batch_size (Suc k) created x =
     (case post_publish_tx env utc r batch_size created x of Inl e \<Rightarrow> (Inl e, created, x)
      | Inr (BO_done res, x') \<Rightarrow> (Inr res, created, x')
      | Inr (BO_next n, x') \<Rightarrow> post_publish_batches env utc r batch_size k (created + n) x')"

definition max_attempts :: "snapshot_row \<Rightarrow> exn + int" where
  "max_attempts c =
     (let v = dict_get (cs_activation_limits c) ''online_activation_max_attempts'' (JInt DEFAULT_MAX_ATTEMPTS)
      in py_int (if truthy v then v else JInt DEFAULT_MAX_ATTEMPTS))"

text \<open>The handler of a failed run: \<open>True\<close> when the budget is spent and the manifest is blocked.\<close>

definition post_publish_failed :: "instant \<Rightarrow> duration \<Rightarrow> runner \<Rightarrow> exn \<Rightarrow> world \<Rightarrow> exn + bool \<times> world" where
  "post_publish_failed utc jitter r e x =
     (let (d, w) = x; message = take 1500 (exn_name e @ '': '' @ exn_text e) in
      case get_snapshot w (rn_candidate r) of None \<Rightarrow> Inl e | Some c \<Rightarrow>
      case max_attempts c of Inl e' \<Rightarrow> Inl e' | Inr budget \<Rightarrow>
      case tbl_get rch_scope SCOPE (db_config_heads d) of None \<Rightarrow> Inr (False, x) | Some h \<Rightarrow>
      if \<not> tuple_ok utc r h then Inr (False, x)
      else
        let attempts = int_or_0 (cs_post_publish_attempts c) + 1;
            failed = (\<lambda>s. s\<lparr>cs_post_publish_attempts := Some attempts, cs_post_publish_last_error := Some message\<rparr>) in
        if budget \<le> attempts then
          Inr (True, cleaned_up r TO_post_publish_blocked (blocked_events r (failed c) (Some message) d),
            set_snapshot (rn_candidate r) (\<lambda>s. (failed s)\<lparr>cs_activation_state := AST_POST_PUBLISH_BLOCKED, cs_post_publish_blocked_at := Some utc,
              cs_post_publish_next_attempt_at := Some utc\<rparr>) w)
        else Inr (False, d, set_snapshot (rn_candidate r) (\<lambda>s. (failed s)\<lparr>cs_post_publish_next_attempt_at := Some (utc + backoff attempts jitter)\<rparr>) w))"

definition run_post_publish :: "activation_env \<Rightarrow> instant \<Rightarrow> duration \<Rightarrow> runner \<Rightarrow> nat \<Rightarrow> nat \<Rightarrow> world \<Rightarrow> (exn + post_publish_result) \<times> world" where
  "run_post_publish env utc jitter r batch_size max_batches x =
     (let (got, d1) = take_gate r (fst x); x1 = (d1, snd x) in
      if \<not> got then (Inr ((pp_result (rn_candidate r) (state_now (snd x) (rn_candidate r)) 0 0)\<lparr>pp_deferred := True\<rparr>), x1)
      else case post_publish_batches env utc r batch_size max_batches 0 x1 of
          (Inr res, _, x2) \<Rightarrow> (Inr res, drop_gate r x2)
        | (Inl e, created, x2) \<Rightarrow>
            (case post_publish_failed utc jitter r e x2 of Inl e' \<Rightarrow> (Inl e', drop_gate r x2)
             | Inr (blocked, x3) \<Rightarrow>
                 (if blocked then Inr ((pp_result (rn_candidate r) (Some AST_POST_PUBLISH_BLOCKED) (cursor_now (snd x3) (rn_candidate r)) created)\<lparr>pp_blocked := True\<rparr>)
                  else Inl e, drop_gate r x3)))"

subsection \<open>The repair of a blocked manifest\<close>

definition find_repair_backlog :: "world \<Rightarrow> uuid option" where
  "find_repair_backlog x =
     (let (d, w) = x in
      map_option cs_id (find (\<lambda>s. cs_activation_mode s = AM_ONLINE \<and> cs_activation_state s = AST_POST_PUBLISH_BLOCKED \<and>
        map_option rch_active_config_snapshot_id (tbl_get rch_scope SCOPE (db_config_heads d)) = Some (cs_id s)) (rs_snapshots w)))"

definition repair_tx :: "activation_env \<Rightarrow> instant \<Rightarrow> runner \<Rightarrow> nat \<Rightarrow> nat \<Rightarrow> world \<Rightarrow> exn + batch_outcome \<times> world" where
  "repair_tx env utc r batch_size created x =
     (let (d, w) = x in
      case lock_head d of Inl e \<Rightarrow> Inl e | Inr h \<Rightarrow>
      case get_snapshot w (rn_candidate r) of None \<Rightarrow> Inl (ActivationError ''candidate missing'') | Some c \<Rightarrow>
      let cursor = int_or_0 (cs_post_publish_cursor c) in
      if rch_active_config_snapshot_id h \<noteq> rn_candidate r then
        Inr (BO_done ((pp_result (rn_candidate r) (Some AST_SUPERSEDED) cursor created)\<lparr>pp_superseded := True\<rparr>),
          if cs_activation_state c = AST_POST_PUBLISH_BLOCKED then
            (activation_event AE_ACTIVATION_SUPERSEDED (rn_owner r)
               [(''candidate_id'', JStr (uuid_str (cs_id c))), (''cursor'', opt_json JInt (cs_post_publish_cursor c)),
                (''new_active'', JStr (uuid_str (rch_active_config_snapshot_id h)))]
               (Some (''repair backlog closed as superseded: '' @ uuid_str (cs_id c))) d,
             set_snapshot (rn_candidate r) (\<lambda>s. s\<lparr>cs_activation_state := AST_SUPERSEDED\<rparr>) w)
          else x)
      else if rch_activating_config_snapshot_id h \<noteq> None \<or> cs_activation_mode c \<noteq> AM_ONLINE \<or> cs_activation_state c \<noteq> AST_POST_PUBLISH_BLOCKED \<or>
          cs_post_publish_next_attempt_at c = None \<or> is_after (cs_post_publish_next_attempt_at c) utc then
        Inr (BO_done ((pp_result (rn_candidate r) (Some (cs_activation_state c)) cursor created)\<lparr>pp_deferred := True\<rparr>), x)
      else if int (length (pending_claim_ids (cs_id c) d)) \<le> cursor then
        Inr (BO_done ((pp_result (rn_candidate r) (Some AST_ACTIVE) cursor created)\<lparr>pp_total := cursor\<rparr>),
          activation_event AE_ACTIVATION_POST_PUBLISH_COMPLETED (rn_owner r)
            [(''candidate_id'', JStr (uuid_str (cs_id c))), (''cursor'', JInt cursor), (''manifest_hash'', opt_json JStr (cs_post_publish_manifest_hash c))]
            (Some (''post-publish manifest repaired to completion: '' @ uuid_str (cs_id c))) d,
          set_snapshot (rn_candidate r) (\<lambda>s. s\<lparr>cs_activation_state := AST_ACTIVE\<rparr>) w)
      else let (n, x') = manifest_batch env ''repair'' r batch_size c x in Inr (BO_next n, x'))"

primrec repair_batches :: "activation_env \<Rightarrow> instant \<Rightarrow> runner \<Rightarrow> nat \<Rightarrow> nat \<Rightarrow> nat \<Rightarrow> world \<Rightarrow> (exn + post_publish_result) \<times> nat \<times> world" where
  "repair_batches env utc r batch_size 0 created x =
     (Inr (pp_result (rn_candidate r) (state_now (snd x) (rn_candidate r)) (cursor_now (snd x) (rn_candidate r)) created), created, x)"
| "repair_batches env utc r batch_size (Suc k) created x =
     (case repair_tx env utc r batch_size created x of Inl e \<Rightarrow> (Inl e, created, x)
      | Inr (BO_done res, x') \<Rightarrow> (Inr res, created, x')
      | Inr (BO_next n, x') \<Rightarrow> repair_batches env utc r batch_size k (created + n) x')"

text \<open>\<open>isinstance(exc, (LookupError, ValueError))\<close>.\<close>

definition is_permanent :: "exn \<Rightarrow> bool" where
  "is_permanent e \<longleftrightarrow> exn_name e \<in> {''LookupError'', ''KeyError'', ''IndexError'', ''ValueError'', ''QuestionIntakeError'', ''RuleValidationError'',
     ''ResolutionError'', ''ProfileError''}"

definition repair_failed :: "instant \<Rightarrow> duration \<Rightarrow> runner \<Rightarrow> exn \<Rightarrow> world \<Rightarrow> world" where
  "repair_failed utc jitter r e x =
     (let (d, w) = x; message = take 1500 (exn_name e @ '': '' @ exn_text e) in
      case get_snapshot w (rn_candidate r) of None \<Rightarrow> x | Some c \<Rightarrow>
      case tbl_get rch_scope SCOPE (db_config_heads d) of None \<Rightarrow> x | Some h \<Rightarrow>
      if cs_activation_state c = AST_POST_PUBLISH_BLOCKED \<and> rch_active_config_snapshot_id h = rn_candidate r \<and> rch_activating_config_snapshot_id h = None then
        let attempts = int_or_0 (cs_post_publish_attempts c) + 1;
            failed = (\<lambda>s. s\<lparr>cs_post_publish_attempts := Some attempts, cs_post_publish_last_error := Some message\<rparr>) in
        if is_permanent e then
          (record_event AE_ALERT_RAISED None
             (Some [(''alert_class'', JStr ''repair_backlog_permanent_failure''), (''candidate_id'', JStr (uuid_str (cs_id c))), (''error_class'', JStr (exn_name e))])
             (Some (rn_owner r)) (Some (''alert: repair backlog parked ('' @ uuid_str (cs_id c) @ '')'')) AV_DIAGNOSTIC d,
           set_snapshot (rn_candidate r) (\<lambda>s. (failed s)\<lparr>cs_post_publish_next_attempt_at := None\<rparr>) w)
        else (d, set_snapshot (rn_candidate r) (\<lambda>s. (failed s)\<lparr>cs_post_publish_next_attempt_at := Some (utc + backoff attempts jitter)\<rparr>) w)
      else x)"

definition run_activation_repair :: "activation_env \<Rightarrow> instant \<Rightarrow> duration \<Rightarrow> runner \<Rightarrow> nat \<Rightarrow> nat \<Rightarrow> world \<Rightarrow> (exn + post_publish_result) \<times> world" where
  "run_activation_repair env utc jitter r batch_size max_batches x =
     (case get_snapshot (snd x) (rn_candidate r) of None \<Rightarrow> (Inl (ActivationError ''candidate missing''), x) | Some _ \<Rightarrow>
      let (got, d1) = take_gate r (fst x); x1 = (d1, snd x) in
      if \<not> got then (Inr ((pp_result (rn_candidate r) (state_now (snd x) (rn_candidate r)) 0 0)\<lparr>pp_deferred := True\<rparr>), x1)
      else case repair_batches env utc r batch_size max_batches 0 x1 of
          (Inr res, _, x2) \<Rightarrow> (Inr res, drop_gate r x2)
        | (Inl e, created, x2) \<Rightarrow>
            let x3 = repair_failed utc jitter r e x2
            in (if \<not> is_permanent e then Inl e
                else Inr ((pp_result (rn_candidate r) (Some AST_POST_PUBLISH_BLOCKED) (cursor_now (snd x3) (rn_candidate r)) created)\<lparr>pp_deferred := True\<rparr>),
                drop_gate r x3))"

subsection \<open>The driver\<close>

definition TERMINAL_STATES :: "activation_state list" where
  "TERMINAL_STATES = [AST_ACTIVE, AST_SUPERSEDED, AST_FAILED, AST_POST_PUBLISH_BLOCKED]"

text \<open>The fn of the run: the slot it resumes or acquires, and whether it resumed.\<close>

definition run_fence :: "instant \<Rightarrow> uuid \<Rightarrow> string \<Rightarrow> activation_state \<Rightarrow> drain_plan \<Rightarrow> world \<Rightarrow> (exn + int \<times> bool) \<times> world" where
  "run_fence utc cand owner early plan x =
     (case lock_head (fst x) of Inl _ \<Rightarrow> (Inl (AssertionError []), x) | Inr h \<Rightarrow>
      let existing = rch_activating_config_snapshot_id h;
          mine = (existing = Some cand \<and> rch_activation_lease_owner h = Some owner);
          own_live = (mine \<and> lease_live utc h); own_dead = (mine \<and> \<not> lease_live utc h);
          acquire = (case acquire_activation utc cand owner plan x of (Inl e, x') \<Rightarrow> (Inl e, x') | (Inr f, x') \<Rightarrow> (Inr (f, own_live), x'))
      in if own_live \<and> early \<noteq> AST_DRAFT then (Inr (rch_activation_fence h, True), x)
         else if existing = None \<or> own_dead \<or> (own_live \<and> early = AST_DRAFT) then acquire
         else if existing = Some cand then
           (if lease_live utc h then (Inl (ActivationError ''the candidate's activation lease is held by another live owner''), x) else acquire)
         else (Inl (ActivationError ''another candidate is being activated''), x))"

text \<open>The phases after the fence: what is raised here is caught by the driver.\<close>

definition run_phases :: "activation_env \<Rightarrow> instant \<Rightarrow> duration \<Rightarrow> runner \<Rightarrow> bool \<Rightarrow> nat \<Rightarrow> activation_state \<Rightarrow> world \<Rightarrow> (exn + activation_result) \<times> world" where
  "run_phases env utc jitter r resumed prepare_size state x =
     (let sealed = (if state \<in> {AST_PREPARING_HEADS, AST_READY, AST_PUBLISHING} then
            (case freeze_cohort_online env utc r x of Inl e \<Rightarrow> (Inl e, x) | Inr (_, x1) \<Rightarrow>
             case prepare_heads_online env utc r prepare_size x1 of (Inl e, x2) \<Rightarrow> (Inl e, x2) | (Inr _, x2) \<Rightarrow>
             case verify_and_seal_online env utc r x2 of Inl e \<Rightarrow> (Inl e, x2) | Inr (digest, x3) \<Rightarrow> (Inr (Some digest), x3))
          else if state \<noteq> AST_POST_PUBLISH then (Inl (ActivationError (''cannot resume from state '' @ repr_str (activation_state_value state))), x)
          else (Inr None, x))
      in case sealed of (Inl e, x1) \<Rightarrow> (Inl e, x1) | (Inr digest, x1) \<Rightarrow>
      case candidate_row (snd x1) (rn_candidate r) of Inl e \<Rightarrow> (Inl e, x1) | Inr c \<Rightarrow>
      case (if cs_activation_state c = AST_READY then
              (case publish_online env utc r x1 of (Inl e, x2) \<Rightarrow> (Inl e, x2) | (Inr n, x2) \<Rightarrow> (Inr (n, True), x2))
            else if cs_activation_state c \<noteq> AST_POST_PUBLISH then
              (Inl (ActivationError (''publish did not reach post_publish: '' @ repr_str (activation_state_value (cs_activation_state c)))), x1)
            else (Inr (0, False), x1)) of
        (Inl e, x2) \<Rightarrow> (Inl e, x2)
      | (Inr (pending, published), x2) \<Rightarrow>
          case run_post_publish env utc jitter r DEFAULT_POST_PUBLISH_BATCH DEFAULT_MAX_POST_PUBLISH_BATCHES x2 of
            (Inl e, x3) \<Rightarrow> (Inl e, x3)
          | (Inr res, x3) \<Rightarrow>
              let report = (\<lambda>st pub. \<lparr>ac_candidate_id = rn_candidate r, ac_state = st, ac_fence = rn_fence r, ac_already_active = False,
                    ac_published = pub, ac_resumed = resumed, ac_cohort_count = int_or_0 (cs_activation_expected_head_count c),
                    ac_heads_digest = digest, ac_pending_heads = pending, ac_questions_created = pp_questions_created res\<rparr>)
              in (case pp_state res of
                    None \<Rightarrow> Inl (ActivationError ''post-publish run ended in an unknown state'')
                  | Some st \<Rightarrow>
                      if st = AST_POST_PUBLISH \<or> pp_deferred res then Inr (report st published)
                      else if pp_blocked res then Inr (report AST_POST_PUBLISH_BLOCKED True)
                      else if st \<noteq> AST_ACTIVE then
                        Inl (ActivationError (''post-publish run ended in '' @ repr_str (activation_state_value st) @ '' -- resume on the next run''))
                      else Inr (report st True), x3))"

definition is_activation_error :: "exn \<Rightarrow> bool" where
  "is_activation_error e \<longleftrightarrow> exn_name e = ''ActivationError''"

definition fail_run :: "instant \<Rightarrow> runner \<Rightarrow> exn \<Rightarrow> world \<Rightarrow> exn \<times> world" where
  "fail_run utc r e x =
     (if \<not> is_activation_error e then (e, x)
      else case candidate_row (snd x) (rn_candidate r) of Inl e' \<Rightarrow> (e', x) | Inr c \<Rightarrow>
        if cs_activation_state c \<in> set TERMINAL_STATES then (e, x)
        else case terminal_cleanup utc r TO_failed (Some (exn_text e)) x of Inl e' \<Rightarrow> (e', x) | Inr x' \<Rightarrow> (e, x'))"

definition plain_report :: "uuid \<Rightarrow> activation_state \<Rightarrow> activation_result" where
  "plain_report cand st = \<lparr>ac_candidate_id = cand, ac_state = st, ac_fence = 0, ac_already_active = False, ac_published = False, ac_resumed = False,
     ac_cohort_count = 0, ac_heads_digest = None, ac_pending_heads = 0, ac_questions_created = 0\<rparr>"

definition run_online_change ::
  "activation_env \<Rightarrow> instant \<Rightarrow> duration \<Rightarrow> json_dict \<Rightarrow> string \<Rightarrow> nat \<Rightarrow> drain_plan \<Rightarrow> world \<Rightarrow> (exn + activation_result) \<times> world" where
  "run_online_change env utc jitter payload owner prepare_size plan x =
     (case validate_payload_budgets payload of Some e \<Rightarrow> (Inl e, x) | None \<Rightarrow>
      case validate_payload_reasoning (av_host env) payload of Some e \<Rightarrow> (Inl e, x) | None \<Rightarrow>
      case lock_head (fst x) of Inl e \<Rightarrow> (Inl e, x) | Inr h \<Rightarrow>
      case get_snapshot (snd x) (rch_active_config_snapshot_id h) of None \<Rightarrow> (Inl (ActivationError ''effective snapshot missing''), x) | Some base \<Rightarrow>
      case upsert_online_candidate env base payload x of Inl e \<Rightarrow> (Inl e, x)
      | Inr ((cand, already_active), x1) \<Rightarrow>
          if already_active then (Inr ((plain_report cand AST_ACTIVE)\<lparr>ac_already_active := True\<rparr>), x1)
          else case candidate_row (snd x1) cand of Inl e \<Rightarrow> (Inl e, x1) | Inr early \<Rightarrow>
          if cs_activation_state early = AST_POST_PUBLISH_BLOCKED then
            (Inr ((plain_report cand AST_POST_PUBLISH_BLOCKED)\<lparr>ac_published := True\<rparr>), x1)
          else case run_fence utc cand owner (cs_activation_state early) plan x1 of (Inl e, x2) \<Rightarrow> (Inl e, x2)
          | (Inr (fn, resumed), x2) \<Rightarrow>
              (case candidate_row (snd x2) cand of Inl e \<Rightarrow> (Inl e, x2) | Inr c \<Rightarrow>
               let r = \<lparr>rn_candidate = cand, rn_fence = fn, rn_owner = owner\<rparr> in
               case run_phases env utc jitter r resumed prepare_size (cs_activation_state c) x2 of
                 (Inr res, x3) \<Rightarrow> (Inr res, x3)
               | (Inl e, x3) \<Rightarrow> (case fail_run utc r e x3 of (e', x4) \<Rightarrow> (Inl e', x4))))"

end
