(* ===== verification/ActivationSafety.thy ===== *)
theory ActivationSafety
  imports Activation
begin

section \<open>Safety of the online activation\<close>

text \<open>
  Activation runners, sessions, the worker and cascades interleave transaction by transaction.  The invariant speaks
  of five columns: the runtime head, the snapshots, the ids of the claims, the keys of the heads and the knowledge
  revision.  No transaction needs to know what the driver of a runner did before it.
\<close>

subsection \<open>The invariant\<close>

definition head_keys :: "db \<Rightarrow> (uuid \<times> uuid) list" where
  "head_keys d = map (\<lambda>h. (hd_claim_id h, hd_config_snapshot_id h)) (db_heads d)"

definition claim_ids :: "db \<Rightarrow> uuid list" where
  "claim_ids d = map cl_id (db_claims d)"

definition keys_under :: "uuid \<Rightarrow> (uuid \<times> uuid) list \<Rightarrow> nat" where
  "keys_under snap K = length (filter (\<lambda>k. snd k = snap) K)"

text \<open>
  The cohort of a candidate that was frozen at the present revision is as large as the claim table, a verified count is
  covered by heads, and a sealed candidate is online and has exactly the heads it was verified with.
\<close>

definition snap_ok :: "uuid list \<Rightarrow> (uuid \<times> uuid) list \<Rightarrow> int \<Rightarrow> snapshot_row \<Rightarrow> bool" where
  "snap_ok C K v s \<longleftrightarrow>
     int_or_0 (cs_activation_cohort_revision s) \<le> v \<and>
     (int_or_0 (cs_activation_cohort_revision s) = v \<longrightarrow> int_or_0 (cs_activation_expected_head_count s) = int (length C)) \<and>
     (\<forall>n. cs_activation_verified_head_count s = Some n \<longrightarrow> n \<le> int (keys_under (cs_id s) K)) \<and>
     (cs_activation_state s \<in> {AST_READY, AST_PUBLISHING} \<longrightarrow>
        cs_activation_mode s = AM_ONLINE \<and> cs_activation_verified_head_count s = Some (int (keys_under (cs_id s) K)))"

text \<open>What the slot holds is an online candidate, in whatever state.\<close>

definition slot_ok :: "config_head_row \<Rightarrow> snapshot_row list \<Rightarrow> bool" where
  "slot_ok h S \<longleftrightarrow> (\<forall>c. rch_activating_config_snapshot_id h = Some c \<longrightarrow> (\<exists>s\<in>set S. cs_id s = c \<and> cs_activation_mode s = AM_ONLINE))"

text \<open>The revision starts at 0 with no claims.\<close>

definition columns_ok :: "config_head_row list \<Rightarrow> snapshot_row list \<Rightarrow> uuid list \<Rightarrow> (uuid \<times> uuid) list \<Rightarrow> int option \<Rightarrow> bool" where
  "columns_ok H S C K v \<longleftrightarrow> (\<exists>h k. H = [h] \<and> rch_scope h = SCOPE \<and> v = Some k \<and> 0 \<le> k \<and> (k = 0 \<longrightarrow> C = []) \<and> distinct (map cs_id S) \<and> distinct C \<and> distinct K \<and>
     fst ` set K \<subseteq> set C \<and> (\<forall>s\<in>set S. snap_ok C K k s) \<and> slot_ok h S \<and> (\<forall>c\<in>set C. (c, rch_active_config_snapshot_id h) \<in> set K))"

definition activation_ok :: "world \<Rightarrow> bool" where
  "activation_ok x \<longleftrightarrow> columns_ok (db_config_heads (fst x)) (rs_snapshots (snd x)) (claim_ids (fst x)) (head_keys (fst x)) (knowledge_revision (fst x))"

subsection \<open>Columns of the pieces\<close>

lemma activation_event_columns [simp]:
  "db_config_heads (activation_event ty ow p s d) = db_config_heads d" "db_heads (activation_event ty ow p s d) = db_heads d"
  "db_claims (activation_event ty ow p s d) = db_claims d" "db_revisions (activation_event ty ow p s d) = db_revisions d"
  "db_questions (activation_event ty ow p s d) = db_questions d" "db_jobs (activation_event ty ow p s d) = db_jobs d"
  by (simp_all add: activation_event_def)

lemma set_slot_columns [simp]:
  "db_config_heads (set_slot f d) = tbl_update (\<lambda>h. rch_scope h = SCOPE) f (db_config_heads d)" "db_heads (set_slot f d) = db_heads d"
  "db_claims (set_slot f d) = db_claims d" "db_revisions (set_slot f d) = db_revisions d" "db_questions (set_slot f d) = db_questions d"
  "db_now (set_slot f d) = db_now d"
  by (simp_all add: set_slot_def)

lemma set_snapshot_rows [simp]: "rs_snapshots (set_snapshot i f w) = tbl_update (\<lambda>s. cs_id s = i) f (rs_snapshots w)"
  by (simp add: set_snapshot_def)

lemma column_congs:
  "db_heads d' = db_heads d \<Longrightarrow> head_keys d' = head_keys d" "db_claims d' = db_claims d \<Longrightarrow> claim_ids d' = claim_ids d"
  by (simp_all add: head_keys_def claim_ids_def)

lemma bump_revision_columns [simp]:
  "db_config_heads (bump_revision_row d) = db_config_heads d" "db_heads (bump_revision_row d) = db_heads d"
  "db_claims (bump_revision_row d) = db_claims d" "db_questions (bump_revision_row d) = db_questions d"
  by (simp_all add: bump_revision_row_def)

lemma bump_revision_knowledge: "knowledge_revision (bump_revision_row d) = map_option (\<lambda>k. k + 1) (knowledge_revision d)"
  unfolding knowledge_revision_def bump_revision_row_def get_revision_def
  by (simp add: tbl_get_update_id option.map_comp comp_def)

lemma quiesce_columns:
  assumes "quiesce_counts d = (n, d')"
  shows "db_config_heads d' = db_config_heads d" "db_heads d' = db_heads d" "db_claims d' = db_claims d" "db_revisions d' = db_revisions d"
    "db_questions d' = db_questions d"
  using assms by (auto simp: quiesce_counts_def sweep_expired_admissions_def Let_def)

lemma one_head:
  assumes "activation_ok (d, w)"
  obtains h where "db_config_heads d = [h]" "rch_scope h = SCOPE" "lock_head d = Inr h" "slot_ok h (rs_snapshots w)"
  using assms by (auto simp: activation_ok_def columns_ok_def lock_head_def)

text \<open>A change of the slot and of one snapshot row.\<close>

lemma ok_change:
  assumes "activation_ok (d, w)" "db_config_heads d = [h]" "db_config_heads d' = [h']" "rch_scope h' = SCOPE"
    and "rch_active_config_snapshot_id h' = rch_active_config_snapshot_id h"
    and "claim_ids d' = claim_ids d" "head_keys d' = head_keys d" "knowledge_revision d' = knowledge_revision d"
    and "rs_snapshots w' = tbl_update (\<lambda>s. cs_id s = i) f (rs_snapshots w)" "\<And>s. cs_id (f s) = cs_id s"
    and "\<And>s k. s \<in> set (rs_snapshots w) \<Longrightarrow> cs_id s = i \<Longrightarrow> knowledge_revision d = Some k \<Longrightarrow> snap_ok (claim_ids d) (head_keys d) k s \<Longrightarrow>
          snap_ok (claim_ids d) (head_keys d) k (f s)"
    and "slot_ok h (rs_snapshots w) \<Longrightarrow> slot_ok h' (rs_snapshots w')"
  shows "activation_ok (d', w')"
proof -
  have ids: "map cs_id (rs_snapshots w') = map cs_id (rs_snapshots w)"
    using assms(9,10) by (simp add: tbl_update_def comp_def if_distrib cong: if_cong)
  show ?thesis
    using assms(1-8,11,12) ids unfolding activation_ok_def columns_ok_def
    by (auto simp: assms(9) set_tbl_update)
qed

lemma ok_slot:
  assumes "activation_ok (d, w)" "db_config_heads d = [h]" "db_config_heads d' = [h']" "rch_scope h' = SCOPE"
    and "rch_active_config_snapshot_id h' = rch_active_config_snapshot_id h"
    and "db_heads d' = db_heads d" "db_claims d' = db_claims d" "db_revisions d' = db_revisions d"
    and "slot_ok h (rs_snapshots w) \<Longrightarrow> slot_ok h' (rs_snapshots w)"
  shows "activation_ok (d', w)"
  using assms(1-5,9) column_congs(1) [OF assms(6)] column_congs(2) [OF assms(7)] knowledge_revision_cong [OF assms(8)]
  unfolding activation_ok_def columns_ok_def by auto

lemma slot_ok_cleared [simp]: "slot_ok (clear_slot h) S"
  by (simp add: slot_ok_def clear_slot_def)

lemma slot_ok_update:
  assumes "slot_ok h S" "\<And>s. cs_id (f s) = cs_id s" "\<And>s. cs_activation_mode s = AM_ONLINE \<Longrightarrow> cs_activation_mode (f s) = AM_ONLINE"
  shows "slot_ok h (tbl_update (\<lambda>s. cs_id s = i) f S)"
  unfolding slot_ok_def
proof (intro allI impI)
  fix c assume "rch_activating_config_snapshot_id h = Some c"
  then obtain s where s: "s \<in> set S" "cs_id s = c" "cs_activation_mode s = AM_ONLINE" using assms(1) by (auto simp: slot_ok_def)
  show "\<exists>s\<in>set (tbl_update (\<lambda>s. cs_id s = i) f S). cs_id s = c \<and> cs_activation_mode s = AM_ONLINE"
    using s assms(2,3) by (intro bexI [of _ "if cs_id s = i then f s else s"]) (auto simp: set_tbl_update)
qed

subsection \<open>Every transaction keeps the invariant\<close>

lemma candidate_rowD: "candidate_row w i = Inr c \<Longrightarrow> c \<in> set (rs_snapshots w) \<and> cs_id c = i"
  unfolding candidate_row_def get_snapshot_def by (auto split: option.splits dest: tbl_get_SomeD)

lemma take_slot_fields [simp]:
  "rch_scope (take_slot c fn ow t h) = rch_scope h" "rch_active_config_snapshot_id (take_slot c fn ow t h) = rch_active_config_snapshot_id h"
  "rch_activating_config_snapshot_id (take_slot c fn ow t h) = Some c" "rch_activation_fence (take_slot c fn ow t h) = fn"
  by (simp_all add: take_slot_def)

lemma clear_slot_fields [simp]:
  "rch_scope (clear_slot h) = rch_scope h" "rch_active_config_snapshot_id (clear_slot h) = rch_active_config_snapshot_id h"
  "rch_activating_config_snapshot_id (clear_slot h) = None" "rch_activation_fence (clear_slot h) = rch_activation_fence h"
  by (simp_all add: clear_slot_def)

lemma unique_candidate:
  "activation_ok (d, w) \<Longrightarrow> s \<in> set (rs_snapshots w) \<Longrightarrow> c \<in> set (rs_snapshots w) \<Longrightarrow> cs_id s = cs_id c \<Longrightarrow> s = c"
  by (auto simp: activation_ok_def columns_ok_def distinct_map inj_on_def)

lemma write_intent_ok:
  assumes "write_intent ty ttl cand owner t dw c h (d, w) = (fn, d', w')" "activation_ok (d, w)" "db_config_heads d = [h]" "rch_scope h = SCOPE"
    and "c \<in> set (rs_snapshots w)" "cs_id c = cand"
  shows "activation_ok (d', w')"
proof -
  let ?f = "\<lambda>s. s\<lparr>cs_activation_mode := AM_ONLINE\<rparr>"
  have w': "rs_snapshots w' = tbl_update (\<lambda>s. cs_id s = cand) ?f (rs_snapshots w)" using assms(1) by (auto simp: write_intent_def Let_def)
  have d': "db_config_heads d' = [take_slot cand fn owner t h]" "db_heads d' = db_heads d" "db_claims d' = db_claims d" "db_revisions d' = db_revisions d"
    using assms(1,3,4) by (auto simp: write_intent_def Let_def)
  have "slot_ok (take_slot cand fn owner t h) (rs_snapshots w')"
    using assms(5,6) unfolding slot_ok_def w' by (auto simp: set_tbl_update intro!: bexI [of _ "?f c"])
  then show ?thesis
    by (intro ok_change [OF assms(2,3) d'(1) _ _ _ _ _ w'])
      (use assms(4) d' column_congs [of d' d] knowledge_revision_cong [of d' d] in \<open>auto simp: snap_ok_def\<close>)
qed

lemma drain_ok:
  assumes "publish_activation_drain utc cand owner ls dw (d, w) = Inr (fn, d', w')" "activation_ok (d, w)"
  shows "activation_ok (d', w')"
proof -
  obtain h where h: "db_config_heads d = [h]" "rch_scope h = SCOPE" "lock_head d = Inr h" "slot_ok h (rs_snapshots w)"
    using assms(2) by (rule one_head)
  obtain c where c: "candidate_row w cand = Inr c" using assms(1) h(3) by (auto simp: publish_activation_drain_def Let_def split: sum.splits)
  note cw = candidate_rowD [OF c, THEN conjunct1] candidate_rowD [OF c, THEN conjunct2]
  have refresh: "activation_ok (set_slot (\<lambda>h. h\<lparr>rch_activation_lease_expires_at := t\<rparr>) d, w)" for t
    by (rule ok_slot [OF assms(2) h(1), where h' = "h\<lparr>rch_activation_lease_expires_at := t\<rparr>"])
      (use h in \<open>simp_all add: slot_ok_def\<close>)
  show ?thesis
    using assms(1) h(3) c write_intent_ok [OF _ assms(2) h(1,2) cw] refresh
    by (auto simp: publish_activation_drain_def Let_def split: option.splits if_splits)
qed

lemma cancel_ok:
  assumes "cancel_activation_drain utc r reason n (d, w) = Inr (d', w')" "activation_ok (d, w)"
  shows "activation_ok (d', w')"
proof -
  obtain h where h: "db_config_heads d = [h]" "rch_scope h = SCOPE" "lock_head d = Inr h" using assms(2) by (rule one_head)
  obtain a b c where n: "n = (a, b, c)" by (metis prod.exhaust)
  have d': "db_config_heads d' = tbl_update (\<lambda>h. rch_scope h = SCOPE) clear_slot (db_config_heads d)" "w' = w"
    "db_heads d' = db_heads d" "db_claims d' = db_claims d" "db_revisions d' = db_revisions d"
    using assms(1) h(3) by (auto simp: cancel_activation_drain_def n split: sum.splits if_splits)
  show ?thesis unfolding d'(2) by (rule ok_slot [OF assms(2) h(1), where h' = "clear_slot h"]) (simp_all add: d' h)
qed

lemma same_columns_ok:
  assumes "activation_ok (d, w)" "db_config_heads d' = db_config_heads d" "db_heads d' = db_heads d" "db_claims d' = db_claims d"
    "db_revisions d' = db_revisions d"
  shows "activation_ok (d', w)"
  using assms knowledge_revision_cong [OF assms(5)] by (simp add: activation_ok_def column_congs [of d' d])

lemma poll_ok:
  assumes "drain_poll utc r d = Inr (n, d')" "activation_ok (d, w)"
  shows "activation_ok (d', w)"
proof -
  have "quiesce_counts d = (n, d')" using assms(1) by (auto simp: drain_poll_def split: sum.splits if_splits)
  from quiesce_columns [OF this] show ?thesis by (intro same_columns_ok [OF assms(2)])
qed

text \<open>A change of the candidate row alone.\<close>

lemma ok_candidate:
  assumes "activation_ok (d, w)" "db_config_heads d' = db_config_heads d" "db_heads d' = db_heads d" "db_claims d' = db_claims d"
    "db_revisions d' = db_revisions d" "rs_snapshots w' = tbl_update (\<lambda>s. cs_id s = i) f (rs_snapshots w)"
    "\<And>s. cs_id (f s) = cs_id s \<and> cs_activation_mode (f s) = cs_activation_mode s"
    "\<And>s k. s \<in> set (rs_snapshots w) \<Longrightarrow> cs_id s = i \<Longrightarrow> knowledge_revision d = Some k \<Longrightarrow> snap_ok (claim_ids d) (head_keys d) k s \<Longrightarrow>
       snap_ok (claim_ids d) (head_keys d) k (f s)"
  shows "activation_ok (d', w')"
proof -
  obtain h where h: "db_config_heads d = [h]" "rch_scope h = SCOPE" using assms(1) by (rule one_head)
  show ?thesis
    by (rule ok_change [OF assms(1) h(1) _ h(2) refl _ _ _ assms(6)])
      (use assms h in \<open>auto simp: column_congs [of d' d] knowledge_revision_cong [OF assms(5)] intro!: slot_ok_update\<close>)
qed

lemma confirm_ok:
  assumes "confirm_quiesced utc r n (d, w) = Inr (d', w')" "activation_ok (d, w)"
  shows "activation_ok (d', w')"
proof -
  let ?f = "\<lambda>s. if cs_activation_state s = AST_DRAFT then s\<lparr>cs_activation_state := AST_PREPARING_HEADS\<rparr> else s"
  obtain d1 a l u s where q: "quiesce_counts d = ((a, l, u, s), d1)" by (metis prod.exhaust)
  have d': "db_config_heads d' = db_config_heads d1" "db_heads d' = db_heads d1" "db_claims d' = db_claims d1" "db_revisions d' = db_revisions d1"
    "w' = set_snapshot (rn_candidate r) ?f w"
    using assms(1) q by (auto simp: confirm_quiesced_def split: sum.splits if_splits)
  show ?thesis
    by (rule ok_candidate [OF assms(2), where f = ?f and i = "rn_candidate r"])
      (use quiesce_columns [OF q] in \<open>auto simp: d' snap_ok_def\<close>)
qed

lemma freeze_ok:
  assumes "freeze_cohort_online env utc r (d, w) = Inr (n, d', w')" "activation_ok (d, w)"
  shows "activation_ok (d', w')"
proof -
  have "(d' = d \<and> w' = w) \<or> (\<exists>rv m. get_revision d ''knowledge'' = Some rv \<and> d' = d \<and>
      w' = set_snapshot (rn_candidate r) (frozen_row (rev_revision rv) m (length (db_claims d))) w)"
    using assms(1) unfolding freeze_cohort_online_def Let_def
    by (auto simp: sort_key_def [symmetric] split: sum.splits if_splits option.splits)
  then show ?thesis
  proof (elim disjE exE conjE)
    fix rv m assume rv: "get_revision d ''knowledge'' = Some rv" and d': "d' = d"
      and w': "w' = set_snapshot (rn_candidate r) (frozen_row (rev_revision rv) m (length (db_claims d))) w"
    have k: "knowledge_revision d = Some (rev_revision rv)" using rv by (simp add: knowledge_revision_def)
    show ?thesis unfolding d'
      by (rule ok_candidate [OF assms(2) refl refl refl refl, where i = "rn_candidate r" and f = "frozen_row (rev_revision rv) m (length (db_claims d))"])
        (use k in \<open>auto simp: w' snap_ok_def claim_ids_def frozen_row_def int_or_0_def\<close>)
  qed (use assms(2) in simp)
qed

lemma slot_online:
  assumes "activation_ok (d, w)" "check_tuple utc r d = Inr h" "candidate_row w (rn_candidate r) = Inr c"
  shows "cs_activation_mode c = AM_ONLINE"
proof -
  obtain g where g: "lock_head d = Inr g" "slot_ok g (rs_snapshots w)" using assms(1) by (rule one_head)
  have "rch_activating_config_snapshot_id g = Some (rn_candidate r)" using assms(2) g(1) by (auto simp: check_tuple_def tuple_ok_def split: if_splits)
  then show ?thesis using g(2) candidate_rowD [OF assms(3)] unique_candidate [OF assms(1), of _ c] by (auto simp: slot_ok_def)
qed

lemma seal_ok:
  assumes "verify_and_seal_online env utc r (d, w) = Inr (n, d', w')" "activation_ok (d, w)"
  shows "activation_ok (d', w')"
proof -
  obtain h where h: "check_tuple utc r d = Inr h" using assms(1) by (auto simp: verify_and_seal_online_def split: sum.splits)
  obtain c where c: "candidate_row w (rn_candidate r) = Inr c" using assms(1) h by (auto simp: verify_and_seal_online_def split: sum.splits)
  let ?n = "length (candidate_heads (cs_id c) d)"
  have "(d' = d \<and> w' = w) \<or> (\<exists>dg. d' = d \<and> w' = set_snapshot (rn_candidate r) (sealed_row dg ?n utc) w)"
    using assms(1) h c unfolding verify_and_seal_online_def Let_def by (auto split: if_splits option.splits)
  then show ?thesis
  proof (elim disjE exE conjE)
    fix dg assume d': "d' = d" and w': "w' = set_snapshot (rn_candidate r) (sealed_row dg ?n utc) w"
    have single: "s = c" if "s \<in> set (rs_snapshots w)" "cs_id s = rn_candidate r" for s
      using that candidate_rowD [OF c] unique_candidate [OF assms(2)] by auto
    have n: "?n = keys_under (cs_id c) (head_keys d)"
      by (simp add: candidate_heads_def keys_under_def head_keys_def filter_map comp_def)
    show ?thesis unfolding d'
      by (rule ok_candidate [OF assms(2) refl refl refl refl, where i = "rn_candidate r" and f = "sealed_row dg ?n utc"])
        (use single slot_online [OF assms(2) h c] n in \<open>auto simp: w' sealed_row_def snap_ok_def\<close>)
  qed (use assms(2) in simp)
qed

lemma publishing_ok:
  assumes "start_publishing utc r (d, w) = Inr (d', w')" "activation_ok (d, w)"
  shows "activation_ok (d', w')"
proof (cases "d' = d \<and> w' = w")
  case False
  obtain c where c: "candidate_row w (rn_candidate r) = Inr c" "cs_activation_state c = AST_READY" and d': "d' = d"
    and w': "w' = set_snapshot (rn_candidate r) (\<lambda>s. s\<lparr>cs_activation_state := AST_PUBLISHING\<rparr>) w"
    using assms(1) False by (auto simp: start_publishing_def Let_def split: sum.splits if_splits)
  have single: "s = c" if "s \<in> set (rs_snapshots w)" "cs_id s = rn_candidate r" for s
    using that candidate_rowD [OF c(1)] unique_candidate [OF assms(2)] by auto
  show ?thesis unfolding d'
    by (rule ok_candidate [OF assms(2) refl refl refl refl, where i = "rn_candidate r" and f = "\<lambda>s. s\<lparr>cs_activation_state := AST_PUBLISHING\<rparr>"])
      (use single c(2) in \<open>auto simp: w' snap_ok_def\<close>)
qed (use assms in auto)

lemma enqueue_activation_columns [simp]:
  "db_config_heads (snd (enqueue_activation_job c snap d)) = db_config_heads d" "db_heads (snd (enqueue_activation_job c snap d)) = db_heads d"
  "db_claims (snd (enqueue_activation_job c snap d)) = db_claims d" "db_revisions (snd (enqueue_activation_job c snap d)) = db_revisions d"
  "db_questions (snd (enqueue_activation_job c snap d)) = db_questions d"
  by (simp_all add: enqueue_activation_job_def uuid4_def)

lemma shadow_keys [simp]: "hd_claim_id (shadow_of b ca c cand h) = hd_claim_id h" "hd_config_snapshot_id (shadow_of b ca c cand h) = hd_config_snapshot_id h"
  by (simp_all add: shadow_of_def)

text \<open>Preparing heads only appends keys of the candidate, and nothing when it is sealed.\<close>

definition adds_heads :: "snapshot_row \<Rightarrow> research \<Rightarrow> claim_row list \<Rightarrow> db \<Rightarrow> db \<Rightarrow> bool" where
  "adds_heads cand w cs d d' \<longleftrightarrow> db_config_heads d' = db_config_heads d \<and> db_claims d' = db_claims d \<and> db_revisions d' = db_revisions d \<and>
     (\<exists>new. head_keys d' = head_keys d @ map (\<lambda>c. (c, cs_id cand)) new \<and> set new \<subseteq> cl_id ` set cs \<and> distinct new \<and>
        (\<forall>c\<in>set new. (c, cs_id cand) \<notin> set (head_keys d)) \<and> (heads_sealed w (cs_id cand) \<longrightarrow> new = []))"

lemma head_found: "(c, snap) \<in> set (head_keys d) \<longleftrightarrow> find (is_head c snap) (db_heads d) \<noteq> None"
  unfolding find_None_iff head_keys_def is_head_def by auto

lemma prepare_head_adds:
  assumes "prepare_head env base cand w c d = Inr d'"
  shows "adds_heads cand w [c] d d'"
proof (cases "find (is_head (cl_id c) (cs_id cand)) (db_heads d)")
  case None
  then have "head_keys d' = head_keys d @ map (\<lambda>c. (c, cs_id cand)) [cl_id c]" "\<not> heads_sealed w (cs_id cand)"
    "db_config_heads d' = db_config_heads d" "db_claims d' = db_claims d" "db_revisions d' = db_revisions d"
    using assms by (auto simp: prepare_head_def Let_def head_keys_def fresh_head_def split: if_splits)
  then show ?thesis using None head_found [of "cl_id c" "cs_id cand" d] unfolding adds_heads_def by (auto intro!: exI [of _ "[cl_id c]"])
next
  case (Some h)
  have keys: "map (\<lambda>h. (hd_claim_id h, hd_config_snapshot_id h)) (tbl_update p (shadow_of b ca e f) t) = map (\<lambda>h. (hd_claim_id h, hd_config_snapshot_id h)) t" for p b ca e f t
    by (induction t) auto
  have "head_keys d' = head_keys d" "db_config_heads d' = db_config_heads d" "db_claims d' = db_claims d" "db_revisions d' = db_revisions d"
    using assms Some keys by (auto simp: prepare_head_def Let_def head_keys_def split: if_splits)
  then show ?thesis unfolding adds_heads_def by (auto intro!: exI [of _ "[]"])
qed

lemma prepare_claims_adds: "prepare_claims env base cand w cs d = Inr d' \<Longrightarrow> adds_heads cand w cs d d'"
proof (induction cs arbitrary: d)
  case Nil
  then show ?case by (simp add: adds_heads_def)
next
  case (Cons c cs)
  then obtain d1 where d1: "prepare_head env base cand w c d = Inr d1" "prepare_claims env base cand w cs d1 = Inr d'" by (auto split: sum.splits)
  obtain n1 where n1: "head_keys d1 = head_keys d @ map (\<lambda>c. (c, cs_id cand)) n1" "set n1 \<subseteq> {cl_id c}" "distinct n1"
    "\<forall>c\<in>set n1. (c, cs_id cand) \<notin> set (head_keys d)" "heads_sealed w (cs_id cand) \<longrightarrow> n1 = []"
    using prepare_head_adds [OF d1(1)] by (auto simp: adds_heads_def)
  obtain n2 where n2: "head_keys d' = head_keys d1 @ map (\<lambda>c. (c, cs_id cand)) n2" "set n2 \<subseteq> cl_id ` set cs" "distinct n2"
    "\<forall>c\<in>set n2. (c, cs_id cand) \<notin> set (head_keys d1)" "heads_sealed w (cs_id cand) \<longrightarrow> n2 = []"
    using Cons.IH [OF d1(2)] by (auto simp: adds_heads_def)
  have "set n1 \<inter> set n2 = {}" using n1(1) n2(4) by auto
  then have "head_keys d' = head_keys d @ map (\<lambda>c. (c, cs_id cand)) (n1 @ n2) \<and> set (n1 @ n2) \<subseteq> cl_id ` set (c # cs) \<and> distinct (n1 @ n2) \<and>
      (\<forall>c\<in>set (n1 @ n2). (c, cs_id cand) \<notin> set (head_keys d)) \<and> (heads_sealed w (cs_id cand) \<longrightarrow> n1 @ n2 = [])"
    using n1 n2 by auto
  then show ?case using prepare_head_adds [OF d1(1)] Cons.IH [OF d1(2)] unfolding adds_heads_def by (metis (no_types, lifting))
qed

lemma sealed_iff:
  assumes "activation_ok (d, w)" "c \<in> set (rs_snapshots w)"
  shows "heads_sealed w (cs_id c) \<longleftrightarrow> cs_activation_mode c \<noteq> AM_BOOTSTRAP \<and> cs_activation_state c \<in> {AST_READY, AST_PUBLISHING}"
  using assms unique_candidate [OF assms(1) _ assms(2)] by (auto simp: heads_sealed_def list_ex_iff)

lemma keys_under_append: "keys_under s (K @ map (\<lambda>c. (c, t)) new) = keys_under s K + (if s = t then length new else 0)"
  by (simp add: keys_under_def filter_map comp_def)

lemma prepare_ok:
  assumes "prepare_batch env utc r base cand batch (d, w) = Inr (d', w')" "activation_ok (d, w)"
    and "cl_id ` set batch \<subseteq> set (claim_ids d)"
  shows "activation_ok (d', w')"
proof -
  have "prepare_claims env base cand w batch d = Inr d'" and w': "w' = w"
    using assms(1) by (auto simp: prepare_batch_def split: sum.splits)
  from prepare_claims_adds [OF this(1)] obtain new where c: "db_config_heads d' = db_config_heads d" "db_claims d' = db_claims d" "db_revisions d' = db_revisions d"
    and new: "head_keys d' = head_keys d @ map (\<lambda>c. (c, cs_id cand)) new" "set new \<subseteq> cl_id ` set batch" "distinct new"
      "\<forall>c\<in>set new. (c, cs_id cand) \<notin> set (head_keys d)" "heads_sealed w (cs_id cand) \<longrightarrow> new = []"
    by (auto simp: adds_heads_def)
  have sub: "set new \<subseteq> set (claim_ids d)" using new(2) assms(3) by auto
  have snap: "snap_ok (claim_ids d) (head_keys d') k s" if "s \<in> set (rs_snapshots w)" "snap_ok (claim_ids d) (head_keys d) k s" for s k
  proof (cases "cs_activation_state s \<in> {AST_READY, AST_PUBLISHING} \<and> cs_id s = cs_id cand")
    case True
    then have "heads_sealed w (cs_id cand)" using that sealed_iff [OF assms(2) that(1)] by (auto simp: snap_ok_def)
    then show ?thesis using that(2) new(1,5) by simp
  qed (use that in \<open>auto simp: snap_ok_def new(1) keys_under_append\<close>)
  have dist: "distinct (head_keys d')" if "distinct (head_keys d)"
    using that new(3,4) by (auto simp: new(1) distinct_map inj_on_def)
  obtain h k where h: "db_config_heads d = [h]" "rch_scope h = SCOPE" "knowledge_revision d = Some k" "distinct (map cs_id (rs_snapshots w))"
    "distinct (claim_ids d)" "distinct (head_keys d)" "fst ` set (head_keys d) \<subseteq> set (claim_ids d)"
    "\<forall>s\<in>set (rs_snapshots w). snap_ok (claim_ids d) (head_keys d) k s" "slot_ok h (rs_snapshots w)"
    "\<forall>c\<in>set (claim_ids d). (c, rch_active_config_snapshot_id h) \<in> set (head_keys d)" "0 \<le> k" "k = 0 \<longrightarrow> claim_ids d = []"
    using assms(2) unfolding activation_ok_def columns_ok_def by auto
  have "fst ` set (head_keys d') \<subseteq> set (claim_ids d)" "set (head_keys d) \<subseteq> set (head_keys d')" using h(7) sub by (auto simp: new(1))
  then show ?thesis
    using h snap dist c(1) knowledge_revision_cong [OF c(3)] column_congs(2) [OF c(2)]
    unfolding w' activation_ok_def columns_ok_def by auto
qed

text \<open>At least as many distinct keys below a snapshot as there are claims: every claim has its key.\<close>

lemma all_covered:
  assumes "distinct K" "fst ` set K \<subseteq> set C" "distinct C" "length C \<le> keys_under snap K" "c \<in> set C"
  shows "(c, snap) \<in> set K"
proof -
  let ?F = "filter (\<lambda>k. snd k = snap) K"
  have inj: "inj_on fst (set ?F)" by (auto simp: inj_on_def)
  have "card (fst ` set ?F) = length ?F" using card_image [OF inj] distinct_card [of ?F] assms(1) by simp
  then have "card (set C) \<le> card (fst ` set ?F)" using assms(3,4) distinct_card by (metis keys_under_def)
  moreover have "fst ` set ?F \<subseteq> set C" using assms(2) by auto
  ultimately have "fst ` set ?F = set C" by (simp add: card_seteq)
  then show ?thesis using assms(5) by force
qed

lemma keys_under_mono:
  assumes "distinct K" "set K \<subseteq> set K'"
  shows "keys_under i K \<le> keys_under i K'"
proof -
  have "keys_under i K = card (set (filter (\<lambda>k. snd k = i) K))" unfolding keys_under_def using assms(1) by (intro distinct_card [symmetric]) simp
  also have "\<dots> \<le> card (set (filter (\<lambda>k. snd k = i) K'))" using assms(2) by (intro card_mono) auto
  also have "\<dots> \<le> keys_under i K'" unfolding keys_under_def by (rule card_length)
  finally show ?thesis .
qed

definition superseded_row :: "snapshot_row \<Rightarrow> snapshot_row" where
  "superseded_row s = (if cs_activation_mode s \<noteq> AM_BOOTSTRAP then s\<lparr>cs_activation_state := AST_SUPERSEDED\<rparr> else s)"

text \<open>What a flip that moves the pointer found and did.\<close>

lemma flip_done:
  assumes "flip env utc r (d, w) = Inr (n, d', w')" "lock_head d = Inr h" "rch_active_config_snapshot_id h \<noteq> rn_candidate r"
  obtains c a l u sw d1 b k m where "candidate_row w (rn_candidate r) = Inr c" "tuple_ok utc r h" "quiesce_counts d = ((a, l, u, sw), d1)"
    "a = 0" "l = 0" "u = 0" "cs_base_snapshot_id c = Some b" "rch_active_config_snapshot_id h = b"
    "cs_activation_verified_head_count c \<noteq> None" "int_or_0 (cs_activation_verified_head_count c) = int_or_0 (cs_activation_expected_head_count c)"
    "knowledge_revision d = Some k" "k = int_or_0 (cs_activation_cohort_revision c)"
    "db_config_heads d' = tbl_update (\<lambda>h. rch_scope h = SCOPE) (\<lambda>h. h\<lparr>rch_active_config_snapshot_id := rn_candidate r\<rparr>) (db_config_heads d)"
    "db_heads d' = db_heads d" "db_claims d' = db_claims d" "knowledge_revision d' = Some (k + 1)"
    "w' = set_snapshot b superseded_row (set_snapshot (rn_candidate r) (post_publish_start m utc) w)"
proof -
  obtain c where c: "candidate_row w (rn_candidate r) = Inr c" using assms(1,2) by (auto simp: flip_def split: sum.splits)
  have t: "tuple_ok utc r h" using assms c by (auto simp: flip_def split: if_splits)
  obtain a l u sw d1 where q: "quiesce_counts d = ((a, l, u, sw), d1)" by (metis prod.exhaust)
  note qc = quiesce_columns [OF q]
  have kr: "knowledge_revision d1 = knowledge_revision d" using knowledge_revision_cong [OF qc(4)] .
  have none: "flip_refusal c h (a, l, u, sw) (knowledge_revision d) = None"
    using assms c t q kr by (auto simp: flip_def Let_def knowledge_revision_def split: option.splits)
  obtain k where k: "knowledge_revision d = Some k" "k = int_or_0 (cs_activation_cohort_revision c)"
    using none by (auto simp: flip_refusal_def split: if_splits option.splits)
  have z: "a = 0" "l = 0" "u = 0" "cs_activation_verified_head_count c \<noteq> None"
    "int_or_0 (cs_activation_verified_head_count c) = int_or_0 (cs_activation_expected_head_count c)"
    "cs_base_snapshot_id c = Some (rch_active_config_snapshot_id h)"
    using none by (simp_all add: flip_refusal_def split: if_splits)
  have fun_eq: "superseded_row = (\<lambda>s. if cs_activation_mode s \<noteq> AM_BOOTSTRAP then s\<lparr>cs_activation_state := AST_SUPERSEDED\<rparr> else s)"
    by (rule ext) (simp add: superseded_row_def)
  have w': "\<exists>m. w' = set_snapshot (rch_active_config_snapshot_id h) superseded_row (set_snapshot (rn_candidate r) (post_publish_start m utc) w)"
    using assms c t q kr none z(6) unfolding flip_def Let_def fun_eq by (auto simp: knowledge_revision_def simp del: if_not_P split: option.splits)
  have d': "db_config_heads d' = tbl_update (\<lambda>h. rch_scope h = SCOPE) (\<lambda>h. h\<lparr>rch_active_config_snapshot_id := rn_candidate r\<rparr>) (db_config_heads d1)"
    "db_heads d' = db_heads d1" "db_claims d' = db_claims d1" "db_revisions d' = db_revisions (bump_revision_row d1)"
    using assms c t q kr none z(6) by (auto simp: flip_def Let_def knowledge_revision_def bump_revision_row_def split: option.splits)
  have "knowledge_revision d' = Some (k + 1)"
    using knowledge_revision_cong [OF d'(4)] bump_revision_knowledge [of d1] kr k(1) by simp
  then show ?thesis using that [OF c t q z(1-3) z(6) refl z(4,5) k] w' d' qc by auto
qed

lemma snap_ok_later: "snap_ok C K k s \<Longrightarrow> k < k' \<Longrightarrow> snap_ok C K k' s"
  by (auto simp: snap_ok_def)

lemma snap_ok_row:
  "snap_ok C K k s \<Longrightarrow> cs_id s' = cs_id s \<Longrightarrow> cs_activation_cohort_revision s' = cs_activation_cohort_revision s \<Longrightarrow>
   cs_activation_expected_head_count s' = cs_activation_expected_head_count s \<Longrightarrow>
   cs_activation_verified_head_count s' = cs_activation_verified_head_count s \<Longrightarrow> cs_activation_state s' \<notin> {AST_READY, AST_PUBLISHING} \<Longrightarrow> snap_ok C K k s'"
  by (auto simp: snap_ok_def)

lemma activation_okE:
  assumes "activation_ok (d, w)"
  obtains h k where "db_config_heads d = [h]" "rch_scope h = SCOPE" "knowledge_revision d = Some k" "distinct (map cs_id (rs_snapshots w))"
    "distinct (claim_ids d)" "distinct (head_keys d)" "fst ` set (head_keys d) \<subseteq> set (claim_ids d)"
    "\<forall>s\<in>set (rs_snapshots w). snap_ok (claim_ids d) (head_keys d) k s" "slot_ok h (rs_snapshots w)"
    "\<forall>c\<in>set (claim_ids d). (c, rch_active_config_snapshot_id h) \<in> set (head_keys d)" "lock_head d = Inr h" "0 \<le> k" "k = 0 \<longrightarrow> claim_ids d = []"
  using assms unfolding activation_ok_def columns_ok_def by (auto simp: lock_head_def)

lemma activation_okI:
  assumes "db_config_heads d = [h]" "rch_scope h = SCOPE" "knowledge_revision d = Some k" "distinct (map cs_id (rs_snapshots w))"
    "distinct (claim_ids d)" "distinct (head_keys d)" "fst ` set (head_keys d) \<subseteq> set (claim_ids d)"
    "\<And>s. s \<in> set (rs_snapshots w) \<Longrightarrow> snap_ok (claim_ids d) (head_keys d) k s" "slot_ok h (rs_snapshots w)"
    "\<And>c. c \<in> set (claim_ids d) \<Longrightarrow> (c, rch_active_config_snapshot_id h) \<in> set (head_keys d)" "0 \<le> k" "k = 0 \<Longrightarrow> claim_ids d = []"
  shows "activation_ok (d, w)"
  using assms unfolding activation_ok_def columns_ok_def by auto

lemma update_ids: "(\<And>s. cs_id (f s) = cs_id s) \<Longrightarrow> map cs_id (tbl_update p f S) = map cs_id S"
  by (induction S) auto

lemma superseded_fields [simp]:
  "cs_id (superseded_row s) = cs_id s" "cs_activation_mode (superseded_row s) = cs_activation_mode s"
  "cs_activation_cohort_revision (superseded_row s) = cs_activation_cohort_revision s"
  "cs_activation_expected_head_count (superseded_row s) = cs_activation_expected_head_count s"
  "cs_activation_verified_head_count (superseded_row s) = cs_activation_verified_head_count s"
  by (simp_all add: superseded_row_def)

lemma post_publish_start_fields [simp]:
  "cs_id (post_publish_start m utc s) = cs_id s" "cs_activation_mode (post_publish_start m utc s) = cs_activation_mode s"
  "cs_activation_state (post_publish_start m utc s) = AST_POST_PUBLISH"
  "cs_activation_cohort_revision (post_publish_start m utc s) = cs_activation_cohort_revision s"
  "cs_activation_expected_head_count (post_publish_start m utc s) = cs_activation_expected_head_count s"
  "cs_activation_verified_head_count (post_publish_start m utc s) = cs_activation_verified_head_count s"
  by (simp_all add: post_publish_start_def)

lemma slot_ok_other:
  assumes "slot_ok h S" "rch_activating_config_snapshot_id h \<noteq> Some i" "\<And>s. cs_id (f s) = cs_id s"
  shows "slot_ok h (tbl_update (\<lambda>s. cs_id s = i) f S)"
  using assms unfolding slot_ok_def by (fastforce simp: set_tbl_update)

lemma superseded_ok: "snap_ok C K k s \<Longrightarrow> snap_ok C K k (superseded_row s)"
  by (auto simp: snap_ok_def superseded_row_def)

lemma flip_ok:
  assumes "flip env utc r (d, w) = Inr (n, d', w')" "activation_ok (d, w)"
  shows "activation_ok (d', w')"
proof -
  obtain h k where h: "db_config_heads d = [h]" "rch_scope h = SCOPE" "knowledge_revision d = Some k" "distinct (map cs_id (rs_snapshots w))"
    "distinct (claim_ids d)" "distinct (head_keys d)" "fst ` set (head_keys d) \<subseteq> set (claim_ids d)"
    "\<forall>s\<in>set (rs_snapshots w). snap_ok (claim_ids d) (head_keys d) k s" "slot_ok h (rs_snapshots w)" "lock_head d = Inr h" "0 \<le> k"
    using assms(2) by (rule activation_okE)
  show ?thesis
  proof (cases "rch_active_config_snapshot_id h = rn_candidate r")
    case True
    then have "d' = d" "w' = w" using assms(1) h(10) by (auto simp: flip_def split: sum.splits if_splits)
    then show ?thesis using assms(2) by simp
  next
    case False
    obtain c a l u sw d1 b k1 m where c: "candidate_row w (rn_candidate r) = Inr c" "tuple_ok utc r h" "quiesce_counts d = ((a, l, u, sw), d1)"
      "a = 0" "l = 0" "u = 0" "cs_base_snapshot_id c = Some b" "rch_active_config_snapshot_id h = b"
      "cs_activation_verified_head_count c \<noteq> None" "int_or_0 (cs_activation_verified_head_count c) = int_or_0 (cs_activation_expected_head_count c)"
      "knowledge_revision d = Some k1" "k1 = int_or_0 (cs_activation_cohort_revision c)"
      and d': "db_config_heads d' = tbl_update (\<lambda>h. rch_scope h = SCOPE) (\<lambda>h. h\<lparr>rch_active_config_snapshot_id := rn_candidate r\<rparr>) (db_config_heads d)"
      "db_heads d' = db_heads d" "db_claims d' = db_claims d" "knowledge_revision d' = Some (k1 + 1)"
      and w': "w' = set_snapshot b superseded_row (set_snapshot (rn_candidate r) (post_publish_start m utc) w)"
      by (rule flip_done [OF assms(1) h(10) False])
    have k1: "k1 = k" using c(11) h(3) by simp
    note cd = candidate_rowD [OF c(1)]
    have slot: "rch_activating_config_snapshot_id h = Some (rn_candidate r)" using c(2) by (simp add: tuple_ok_def)
    have sc: "snap_ok (claim_ids d) (head_keys d) k c" using h(8) cd by blast
    then have "length (claim_ids d) \<le> keys_under (rn_candidate r) (head_keys d)"
      using c(9,10,12) cd k1 by (auto simp: snap_ok_def int_or_0_def split: option.splits)
    then have covered: "(x, rn_candidate r) \<in> set (head_keys d)" if "x \<in> set (claim_ids d)" for x
      using all_covered [OF h(6,7,5)] that by blast
    have pp: "slot_ok h (tbl_update (\<lambda>s. cs_id s = rn_candidate r) (post_publish_start m utc) (rs_snapshots w))"
      by (rule slot_ok_update [OF h(9)]) simp_all
    have "rch_activating_config_snapshot_id h \<noteq> Some b" using slot c(8) False by simp
    then have sl: "slot_ok h (rs_snapshots w')"
      unfolding w' set_snapshot_rows by (rule slot_ok_other [OF pp]) simp
    show ?thesis
    proof (rule activation_okI [where h = "h\<lparr>rch_active_config_snapshot_id := rn_candidate r\<rparr>" and k = "k + 1"])
      fix s assume "s \<in> set (rs_snapshots w')"
      then have "\<exists>t\<in>set (rs_snapshots w). s \<in> {t, superseded_row t, post_publish_start m utc t, superseded_row (post_publish_start m utc t)}"
        by (auto simp: w' set_tbl_update)
      then obtain t where t: "t \<in> set (rs_snapshots w)" "s \<in> {t, superseded_row t, post_publish_start m utc t, superseded_row (post_publish_start m utc t)}" by blast
      have "snap_ok (claim_ids d) (head_keys d) (k + 1) t" using h(8) t(1) snap_ok_later [of _ _ k t "k + 1"] by simp
      moreover have "snap_ok (claim_ids d) (head_keys d) (k + 1) (post_publish_start m utc t)"
        using snap_ok_row [OF calculation, of "post_publish_start m utc t"] by simp
      ultimately show "snap_ok (claim_ids d') (head_keys d') (k + 1) s"
        using t(2) superseded_ok column_congs(1) [OF d'(2)] column_congs(2) [OF d'(3)] by auto
    qed (use h covered sl d' k1 column_congs(1) [OF d'(2)] column_congs(2) [OF d'(3)] in \<open>auto simp: w' update_ids slot_ok_def\<close>)
  qed
qed

text \<open>A change of the slot, of the candidate row and of the revision at once.\<close>

lemma ok_general:
  assumes "activation_ok (d, w)" "db_heads d' = db_heads d" "db_claims d' = db_claims d"
    "db_config_heads d' = tbl_update (\<lambda>h. rch_scope h = SCOPE) g (db_config_heads d)" "\<And>h. rch_scope (g h) = rch_scope h"
    "\<And>h. rch_active_config_snapshot_id (g h) = rch_active_config_snapshot_id h"
    "knowledge_revision d' = knowledge_revision d \<or> knowledge_revision d' = map_option (\<lambda>k. k + 1) (knowledge_revision d)"
    "rs_snapshots w' = tbl_update (\<lambda>s. cs_id s = i) f (rs_snapshots w)" "\<And>s. cs_id (f s) = cs_id s"
    "\<And>s C K k. snap_ok C K k s \<Longrightarrow> snap_ok C K k (f s)"
    "\<And>h. db_config_heads d = [h] \<Longrightarrow> slot_ok h (rs_snapshots w) \<Longrightarrow> slot_ok (g h) (rs_snapshots w')"
  shows "activation_ok (d', w')"
proof -
  obtain h k where h: "db_config_heads d = [h]" "rch_scope h = SCOPE" "knowledge_revision d = Some k" "distinct (map cs_id (rs_snapshots w))"
    "distinct (claim_ids d)" "distinct (head_keys d)" "fst ` set (head_keys d) \<subseteq> set (claim_ids d)"
    "\<forall>s\<in>set (rs_snapshots w). snap_ok (claim_ids d) (head_keys d) k s" "slot_ok h (rs_snapshots w)"
    "\<forall>c\<in>set (claim_ids d). (c, rch_active_config_snapshot_id h) \<in> set (head_keys d)" "0 \<le> k" "k = 0 \<longrightarrow> claim_ids d = []"
    using assms(1) by (rule activation_okE)
  obtain k' where k': "knowledge_revision d' = Some k'" "k' = k \<or> k' = k + 1" using assms(7) h(3) by auto
  have s: "snap_ok (claim_ids d) (head_keys d) k' (f s)" "snap_ok (claim_ids d) (head_keys d) k' s" if "s \<in> set (rs_snapshots w)" for s
    using k'(2) h(8) that snap_ok_later [of _ _ k s "k + 1"] assms(10) by auto
  have z: "0 \<le> k'" "k' = 0 \<Longrightarrow> claim_ids d = []" using k'(2) h(11,12) by auto
  show ?thesis
    by (rule activation_okI [where h = "g h" and k = k'])
      (use h(1-10) s z k'(1) assms(4,5,6,11) column_congs(1) [OF assms(2)] column_congs(2) [OF assms(3)] in
        \<open>auto simp: assms(8) update_ids assms(9) set_tbl_update\<close>)
qed

end
