(* ===== verification/ActivationRuns.thy ===== *)
theory ActivationRuns
  imports ActivationSafety
begin

section \<open>Runs of the online activation\<close>

text \<open>
  The transactions of any number of activation runners, interleaved with those of sessions, the worker and cascades:
  the invariant, the hands the slot passes through, and the batches of the manifest.
\<close>

subsection \<open>The remaining transactions\<close>

lemma slot_kept: "(\<And>h. g h = h) \<Longrightarrow> tbl_update p g H = H"
  by (rule tbl_update_id)

lemma terminal_row_fields [simp]:
  "cs_id (terminal_row out e utc s) = cs_id s" "cs_activation_cohort_revision (terminal_row out e utc s) = cs_activation_cohort_revision s"
  "cs_activation_expected_head_count (terminal_row out e utc s) = cs_activation_expected_head_count s"
  "cs_activation_verified_head_count (terminal_row out e utc s) = cs_activation_verified_head_count s"
  "cs_activation_state (terminal_row out e utc s) \<in> set TERMINAL_STATES"
  by (auto simp: terminal_row_def set_last_error_def TERMINAL_STATES_def split: terminal_outcome.splits option.splits)

lemma terminal_not_sealed: "st \<in> set TERMINAL_STATES \<Longrightarrow> st \<notin> {AST_READY, AST_PUBLISHING}"
  by (auto simp: TERMINAL_STATES_def)

lemma terminal_row_ok: "snap_ok C K k s \<Longrightarrow> snap_ok C K k (terminal_row out e utc s)"
  by (rule snap_ok_row) (use terminal_not_sealed in auto)

lemma terminal_events_columns [simp]:
  "db_config_heads (terminal_events r out e c d) = db_config_heads d" "db_heads (terminal_events r out e c d) = db_heads d"
  "db_claims (terminal_events r out e c d) = db_claims d" "db_revisions (terminal_events r out e c d) = db_revisions d"
  "db_questions (terminal_events r out e c d) = db_questions d"
  by (simp_all add: terminal_events_def blocked_events_def split: terminal_outcome.splits)

lemma cleaned_up_columns [simp]:
  "db_config_heads (cleaned_up r out d) = tbl_update (\<lambda>h. rch_scope h = SCOPE) clear_slot (db_config_heads d)"
  "db_heads (cleaned_up r out d) = db_heads d" "db_claims (cleaned_up r out d) = db_claims d" "db_revisions (cleaned_up r out d) = db_revisions d"
  "db_questions (cleaned_up r out d) = db_questions d"
  by (simp_all add: cleaned_up_def)

lemma blocked_events_columns [simp]:
  "db_config_heads (blocked_events r c e d) = db_config_heads d" "db_heads (blocked_events r c e d) = db_heads d"
  "db_claims (blocked_events r c e d) = db_claims d" "db_revisions (blocked_events r c e d) = db_revisions d"
  by (simp_all add: blocked_events_def)

lemma cleanup_ok:
  assumes "terminal_cleanup utc r out e (d, w) = Inr (d', w')" "activation_ok (d, w)"
  shows "activation_ok (d', w')"
proof -
  have w': "w' = set_snapshot (rn_candidate r) (terminal_row out e utc) w"
    and d': "db_config_heads d' = tbl_update (\<lambda>h. rch_scope h = SCOPE) clear_slot (db_config_heads d)" "db_heads d' = db_heads d"
      "db_claims d' = db_claims d" "db_revisions d' = db_revisions d"
    using assms(1) by (auto simp: terminal_cleanup_def split: sum.splits if_splits option.splits)
  show ?thesis
    by (rule ok_general [OF assms(2) d'(2,3,1), where i = "rn_candidate r" and f = "terminal_row out e utc"])
      (simp_all add: w' knowledge_revision_cong [OF d'(4)] terminal_row_ok)
qed

lemma pending_questions_columns:
  "pending_questions env cand cs d = (n, d') \<Longrightarrow>
     db_config_heads d' = db_config_heads d \<and> db_heads d' = db_heads d \<and> db_claims d' = db_claims d \<and> db_revisions d' = db_revisions d"
proof (induction cs arbitrary: d n)
  case (Cons c cs)
  then obtain m1 d1 m2 where s: "question_for_pending_head env cand c d = (m1, d1)" "pending_questions env cand cs d1 = (m2, d')"
    by (auto simp: Let_def split: prod.splits)
  show ?case using Cons.IH [OF s(2)] s(1) by (auto simp: question_for_pending_head_def Let_def split: if_splits)
qed simp

text \<open>A batch of the manifest: questions, the next revision and the next cursor.\<close>

lemma manifest_batchE:
  assumes "manifest_batch env ph r n c (d, w) = (m, d', w')"
  obtains d1 where
    "pending_questions env (cs_id c) (take n (drop (nat (int_or_0 (cs_post_publish_cursor c))) (pending_claim_ids (cs_id c) d))) d = (m, d1)"
    "db_config_heads d' = db_config_heads d" "db_heads d' = db_heads d" "db_claims d' = db_claims d" "db_questions d' = db_questions d1"
    "knowledge_revision d' = map_option (\<lambda>k. k + 1) (knowledge_revision d)"
    "w' = set_snapshot (cs_id c) (\<lambda>s. s\<lparr>cs_post_publish_cursor := Some (int (nat (int_or_0 (cs_post_publish_cursor c)) +
       length (take n (drop (nat (int_or_0 (cs_post_publish_cursor c))) (pending_claim_ids (cs_id c) d)))))\<rparr>) w"
proof -
  let ?part = "take n (drop (nat (int_or_0 (cs_post_publish_cursor c))) (pending_claim_ids (cs_id c) d))"
  obtain n1 d1 where p: "pending_questions env (cs_id c) ?part d = (n1, d1)" by fastforce
  have d': "n1 = m" "db_revisions d' = db_revisions (bump_revision_row d1)" "db_config_heads d' = db_config_heads d1" "db_heads d' = db_heads d1"
    "db_claims d' = db_claims d1" "db_questions d' = db_questions d1"
    "w' = set_snapshot (cs_id c) (\<lambda>s. s\<lparr>cs_post_publish_cursor := Some (int (nat (int_or_0 (cs_post_publish_cursor c)) + length ?part))\<rparr>) w"
    using assms p by (auto simp: manifest_batch_def Let_def)
  note pc = pending_questions_columns [OF p]
  have "knowledge_revision d' = map_option (\<lambda>k. k + 1) (knowledge_revision d)"
    using knowledge_revision_cong [OF d'(2)] bump_revision_knowledge [of d1] knowledge_revision_cong [of d1 d] pc by simp
  then show ?thesis using that p d' pc by auto
qed

lemma manifest_ok:
  assumes "manifest_batch env ph r n c (d, w) = (m, d', w')" "activation_ok (d, w)"
  shows "activation_ok (d', w')"
proof -
  let ?part = "take n (drop (nat (int_or_0 (cs_post_publish_cursor c))) (pending_claim_ids (cs_id c) d))"
  let ?f = "\<lambda>s. s\<lparr>cs_post_publish_cursor := Some (int (nat (int_or_0 (cs_post_publish_cursor c)) + length ?part))\<rparr>"
  obtain d1 where d': "db_config_heads d' = db_config_heads d" "db_heads d' = db_heads d" "db_claims d' = db_claims d"
    "knowledge_revision d' = map_option (\<lambda>k. k + 1) (knowledge_revision d)" "w' = set_snapshot (cs_id c) ?f w"
    using assms(1) by (rule manifest_batchE)
  show ?thesis
    by (rule ok_general [OF assms(2) d'(2,3), where i = "cs_id c" and f = ?f and g = "\<lambda>h. h"])
      (auto simp: d' slot_kept snap_ok_def intro: slot_ok_update)
qed

lemma post_publish_ok:
  assumes "post_publish_tx env utc r n m (d, w) = Inr (out, d', w')" "activation_ok (d, w)"
  shows "activation_ok (d', w')"
proof -
  have "(d', w') = (d, w) \<or> terminal_cleanup utc r TO_active None (d, w) = Inr (d', w') \<or>
      (\<exists>c k. manifest_batch env ''publish'' r n c (d, w) = (k, d', w'))"
    using assms(1) by (auto simp: post_publish_tx_def Let_def split: sum.splits option.splits if_splits prod.splits)
  then show ?thesis using assms(2) cleanup_ok [OF _ assms(2)] manifest_ok [OF _ assms(2)] by blast
qed

lemma post_publish_failed_ok:
  assumes "post_publish_failed utc jit r e (d, w) = Inr (b, d', w')" "activation_ok (d, w)"
  shows "activation_ok (d', w')"
proof -
  let ?msg = "Some (take 1500 (exn_name e @ '': '' @ exn_text e))"
  define blk where "blk = (\<lambda>a (s :: snapshot_row). s\<lparr>cs_post_publish_attempts := Some a, cs_post_publish_last_error := ?msg,
    cs_activation_state := AST_POST_PUBLISH_BLOCKED, cs_post_publish_blocked_at := Some utc, cs_post_publish_next_attempt_at := Some utc\<rparr>)"
  define bk where "bk = (\<lambda>a (s :: snapshot_row). s\<lparr>cs_post_publish_attempts := Some a, cs_post_publish_last_error := ?msg,
    cs_post_publish_next_attempt_at := Some (utc + backoff a jit)\<rparr>)"
  have cases: "(d', w') = (d, w) \<or> (\<exists>a c m. d' = cleaned_up r TO_post_publish_blocked (blocked_events r c m d) \<and> w' = set_snapshot (rn_candidate r) (blk a) w) \<or>
      (\<exists>a. d' = d \<and> w' = set_snapshot (rn_candidate r) (bk a) w)"
    using assms(1) unfolding blk_def bk_def by (auto simp: post_publish_failed_def Let_def split: sum.splits option.splits if_splits)
  have 1: "activation_ok (cleaned_up r TO_post_publish_blocked (blocked_events r c m d), set_snapshot (rn_candidate r) (blk a) w)" for a c m
    by (rule ok_general [OF assms(2), where i = "rn_candidate r" and f = "blk a" and g = clear_slot])
      (auto simp: blk_def snap_ok_def knowledge_revision_cong [of "cleaned_up r TO_post_publish_blocked (blocked_events r c m d)" d])
  have 2: "activation_ok (d, set_snapshot (rn_candidate r) (bk a) w)" for a
    by (rule ok_candidate [OF assms(2) refl refl refl refl, where i = "rn_candidate r" and f = "bk a"]) (auto simp: bk_def snap_ok_def)
  show ?thesis using cases 1 2 assms(2) by blast
qed

text \<open>A change of the state of a candidate into one that is not sealed.\<close>

lemma unblock_ok:
  assumes "activation_ok (d, w)" "st \<notin> {AST_READY, AST_PUBLISHING}"
    "db_config_heads d' = db_config_heads d" "db_heads d' = db_heads d" "db_claims d' = db_claims d" "db_revisions d' = db_revisions d"
  shows "activation_ok (d', set_snapshot i (\<lambda>s. s\<lparr>cs_activation_state := st\<rparr>) w)"
  by (rule ok_candidate [OF assms(1) assms(3-6), where i = i and f = "\<lambda>s. s\<lparr>cs_activation_state := st\<rparr>"])
    (use assms(2) in \<open>auto simp: snap_ok_def\<close>)

lemma repair_ok:
  assumes "repair_tx env utc r n m (d, w) = Inr (out, d', w')" "activation_ok (d, w)"
  shows "activation_ok (d', w')"
proof -
  have "(d', w') = (d, w) \<or> (\<exists>c k. manifest_batch env ''repair'' r n c (d, w) = (k, d', w')) \<or>
      (\<exists>st. st \<in> {AST_ACTIVE, AST_SUPERSEDED} \<and>
         db_config_heads d' = db_config_heads d \<and> db_heads d' = db_heads d \<and> db_claims d' = db_claims d \<and> db_revisions d' = db_revisions d \<and>
         w' = set_snapshot (rn_candidate r) (\<lambda>s. s\<lparr>cs_activation_state := st\<rparr>) w)"
    using assms(1) unfolding repair_tx_def Let_def
    by (auto split: sum.splits option.splits if_splits prod.splits)
  then show ?thesis using assms(2) manifest_ok [OF _ assms(2)] unblock_ok [OF assms(2)] by (elim disjE exE conjE) auto
qed

lemma repair_failed_ok:
  assumes "repair_failed utc jit r e (d, w) = (d', w')" "activation_ok (d, w)"
  shows "activation_ok (d', w')"
proof -
  let ?msg = "Some (take 1500 (exn_name e @ '': '' @ exn_text e))"
  define bk where "bk = (\<lambda>a t (s :: snapshot_row). s\<lparr>cs_post_publish_attempts := Some a, cs_post_publish_last_error := ?msg, cs_post_publish_next_attempt_at := t\<rparr>)"
  have cases: "(d', w') = (d, w) \<or> (\<exists>a t. db_config_heads d' = db_config_heads d \<and> db_heads d' = db_heads d \<and> db_claims d' = db_claims d \<and>
      db_revisions d' = db_revisions d \<and> w' = set_snapshot (rn_candidate r) (bk a t) w)"
    using assms(1) unfolding bk_def repair_failed_def Let_def by (auto split: option.splits if_splits)
  have "activation_ok (d', set_snapshot (rn_candidate r) (bk a t) w)"
    if "db_config_heads d' = db_config_heads d" "db_heads d' = db_heads d" "db_claims d' = db_claims d" "db_revisions d' = db_revisions d" for a t
    by (rule ok_candidate [OF assms(2) that, where i = "rn_candidate r" and f = "bk a t"]) (auto simp: bk_def snap_ok_def)
  then show ?thesis using cases assms(2) by blast
qed

lemma new_candidate_fields [simp]:
  "cs_id (new_candidate h i base p) = i" "cs_activation_state (new_candidate h i base p) = AST_DRAFT"
  "cs_activation_cohort_revision (new_candidate h i base p) = None" "cs_activation_expected_head_count (new_candidate h i base p) = None"
  "cs_activation_verified_head_count (new_candidate h i base p) = None" "cs_activation_mode (new_candidate h i base p) = AM_ONLINE"
  by (simp_all add: new_candidate_def Let_def)

lemma upsert_ok:
  assumes "upsert_online_candidate env base payload (d, w) = Inr (res, d', w')" "activation_ok (d, w)"
    and "fst (uuid4 d) \<notin> cs_id ` set (rs_snapshots w)"
  shows "activation_ok (d', w')"
proof -
  obtain i d1 where u: "uuid4 d = (i, d1)" by fastforce
  have d1: "db_config_heads d1 = db_config_heads d" "db_heads d1 = db_heads d" "db_claims d1 = db_claims d" "db_revisions d1 = db_revisions d"
    using u by (auto simp: uuid4_def)
  have cases: "(d', w') = (d, w) \<or> (db_config_heads d' = db_config_heads d \<and> db_heads d' = db_heads d \<and> db_claims d' = db_claims d \<and>
      db_revisions d' = db_revisions d \<and> rs_snapshots w' = rs_snapshots w @ [new_candidate (av_host env) i base payload])"
    using assms(1) u d1 unfolding upsert_online_candidate_def Let_def by (auto split: if_splits option.splits)
  show ?thesis
  proof (rule disjE [OF cases])
    assume new: "db_config_heads d' = db_config_heads d \<and> db_heads d' = db_heads d \<and> db_claims d' = db_claims d \<and>
      db_revisions d' = db_revisions d \<and> rs_snapshots w' = rs_snapshots w @ [new_candidate (av_host env) i base payload]"
    obtain h k where h: "db_config_heads d = [h]" "rch_scope h = SCOPE" "knowledge_revision d = Some k" "distinct (map cs_id (rs_snapshots w))"
      "distinct (claim_ids d)" "distinct (head_keys d)" "fst ` set (head_keys d) \<subseteq> set (claim_ids d)"
      "\<forall>s\<in>set (rs_snapshots w). snap_ok (claim_ids d) (head_keys d) k s" "slot_ok h (rs_snapshots w)"
      "\<forall>c\<in>set (claim_ids d). (c, rch_active_config_snapshot_id h) \<in> set (head_keys d)" "0 \<le> k" "k = 0 \<longrightarrow> claim_ids d = []"
      using assms(2) by (rule activation_okE)
    have n: "snap_ok (claim_ids d) (head_keys d) k (new_candidate (av_host env) i base payload)" using h(11,12) by (auto simp: snap_ok_def int_or_0_def)
    show ?thesis
      by (rule activation_okI [where h = h and k = k])
        (use h n new assms(3) u column_congs [of d' d] knowledge_revision_cong [of d' d] in \<open>auto simp: slot_ok_def\<close>)
  qed (use assms(2) in simp)
qed


subsection \<open>Interleaved runs\<close>

text \<open>
  What sessions, the worker and cascades may do in a transaction of their own: the configuration tables are left alone,
  the revision does not fall and moves with the claim table, the primary key and the foreign key of the heads hold, no
  head is deleted (no statement of the program deletes one), the trigger keeps the heads of a sealed candidate, and a
  claim is added together with a head under the effective snapshot (\<open>assess\<close> writes it, and the carry-over of
  \<open>finalize_commit\<close> when the pointer moved).  Nothing is said of the claims that were there before.
\<close>

definition outside :: "world \<Rightarrow> world \<Rightarrow> bool" where
  "outside x x' \<longleftrightarrow>
     db_config_heads (fst x') = db_config_heads (fst x) \<and> rs_snapshots (snd x') = rs_snapshots (snd x) \<and>
     (\<exists>k k'. knowledge_revision (fst x) = Some k \<and> knowledge_revision (fst x') = Some k' \<and> k \<le> k' \<and>
        (claim_ids (fst x') \<noteq> claim_ids (fst x) \<longrightarrow> k < k')) \<and>
     distinct (claim_ids (fst x')) \<and> distinct (head_keys (fst x')) \<and> fst ` set (head_keys (fst x')) \<subseteq> set (claim_ids (fst x')) \<and>
     set (head_keys (fst x)) \<subseteq> set (head_keys (fst x')) \<and>
     (\<forall>s\<in>set (rs_snapshots (snd x)). heads_sealed (snd x) (cs_id s) \<longrightarrow>
        keys_under (cs_id s) (head_keys (fst x')) = keys_under (cs_id s) (head_keys (fst x))) \<and>
     (\<forall>h\<in>set (db_config_heads (fst x)). \<forall>c\<in>set (claim_ids (fst x')) - set (claim_ids (fst x)).
        (c, rch_active_config_snapshot_id h) \<in> set (head_keys (fst x')))"

lemma outside_ok:
  assumes "outside (d, w) (d', w')" "activation_ok (d, w)"
  shows "activation_ok (d', w')"
proof -
  obtain h k where h: "db_config_heads d = [h]" "rch_scope h = SCOPE" "knowledge_revision d = Some k" "distinct (map cs_id (rs_snapshots w))"
    "distinct (head_keys d)" "\<forall>s\<in>set (rs_snapshots w). snap_ok (claim_ids d) (head_keys d) k s" "slot_ok h (rs_snapshots w)"
    "\<forall>c\<in>set (claim_ids d). (c, rch_active_config_snapshot_id h) \<in> set (head_keys d)" "0 \<le> k" "k = 0 \<longrightarrow> claim_ids d = []"
    using assms(2) by (rule activation_okE)
  obtain k' where k': "knowledge_revision d' = Some k'" "k \<le> k'" "claim_ids d' \<noteq> claim_ids d \<longrightarrow> k < k'"
    using assms(1) h(3) by (auto simp: outside_def)
  have sub: "set (head_keys d) \<subseteq> set (head_keys d')" using assms(1) by (simp add: outside_def)
  note mono = keys_under_mono [OF h(5) sub]
  have snap: "snap_ok (claim_ids d') (head_keys d') k' s" if s: "s \<in> set (rs_snapshots w)" for s
  proof -
    have old: "snap_ok (claim_ids d) (head_keys d) k s" using h(6) s by blast
    have same: "keys_under (cs_id s) (head_keys d') = keys_under (cs_id s) (head_keys d)" if "cs_activation_state s \<in> {AST_READY, AST_PUBLISHING}"
      using assms(1) s that sealed_iff [OF assms(2) s] old by (auto simp: outside_def snap_ok_def)
    have "n \<le> int (keys_under (cs_id s) (head_keys d'))" if "cs_activation_verified_head_count s = Some n" for n
      using old that mono [of "cs_id s"] unfolding snap_ok_def by fastforce
    then show ?thesis using old k'(2,3) same unfolding snap_ok_def by (cases "k = k'") auto
  qed
  have cover: "(c, rch_active_config_snapshot_id h) \<in> set (head_keys d')" if "c \<in> set (claim_ids d')" for c
    using that assms(1) h(1,8) sub by (cases "c \<in> set (claim_ids d)") (auto simp: outside_def)
  have "k' = 0 \<Longrightarrow> claim_ids d' = []" using k'(2,3) h(9,10) by fastforce
  then show ?thesis
    by (intro activation_okI [where h = h and k = k']) (use assms(1) h k'(1,2) snap cover in \<open>auto simp: outside_def\<close>)
qed

text \<open>
  One transaction.  Candidate ids are fresh, and a batch names claims of the table (the foreign key of the heads).  With
  \<open>ordered\<close>, a flip comes where the driver calls it: for a candidate that has a cohort and is marked publishing.
  Without, any transaction may be run by anyone at any time.
\<close>

inductive activation_tx :: "activation_env \<Rightarrow> bool \<Rightarrow> world \<Rightarrow> world \<Rightarrow> bool" for env ordered where
  as_upsert: "upsert_online_candidate env base payload (d, w) = Inr (res, x') \<Longrightarrow> fst (uuid4 d) \<notin> cs_id ` set (rs_snapshots w) \<Longrightarrow>
    activation_tx env ordered (d, w) x'"
| as_drain: "publish_activation_drain utc cand owner ls dw x = Inr (fn, x') \<Longrightarrow> activation_tx env ordered x x'"
| as_poll: "drain_poll utc r d = Inr (n, d') \<Longrightarrow> activation_tx env ordered (d, w) (d', w)"
| as_cancel: "cancel_activation_drain utc r reason n x = Inr x' \<Longrightarrow> activation_tx env ordered x x'"
| as_confirm: "confirm_quiesced utc r n x = Inr x' \<Longrightarrow> activation_tx env ordered x x'"
| as_freeze: "freeze_cohort_online env utc r x = Inr (n, x') \<Longrightarrow> activation_tx env ordered x x'"
| as_prepare: "prepare_batch env utc r base cand batch (d, w) = Inr x' \<Longrightarrow> cl_id ` set batch \<subseteq> set (claim_ids d) \<Longrightarrow>
    activation_tx env ordered (d, w) x'"
| as_seal: "verify_and_seal_online env utc r x = Inr (dg, x') \<Longrightarrow> activation_tx env ordered x x'"
| as_publishing: "start_publishing utc r x = Inr x' \<Longrightarrow> activation_tx env ordered x x'"
| as_flip: "flip env utc r x = Inr (n, x') \<Longrightarrow>
    (\<And>s. ordered \<Longrightarrow> get_snapshot (snd x) (rn_candidate r) = Some s \<Longrightarrow>
       cs_activation_state s = AST_PUBLISHING \<and> cs_activation_cohort_revision s \<noteq> None) \<Longrightarrow> activation_tx env ordered x x'"
| as_manifest: "post_publish_tx env utc r n m x = Inr (out, x') \<Longrightarrow> activation_tx env ordered x x'"
| as_manifest_failed: "post_publish_failed utc jit r e x = Inr (b, x') \<Longrightarrow> activation_tx env ordered x x'"
| as_repair: "repair_tx env utc r n m x = Inr (out, x') \<Longrightarrow> activation_tx env ordered x x'"
| as_repair_failed: "repair_failed utc jit r e x = x' \<Longrightarrow> activation_tx env ordered x x'"
| as_cleanup: "terminal_cleanup utc r out e x = Inr x' \<Longrightarrow> activation_tx env ordered x x'"
| as_gate: "take_gate r d = (got, d') \<Longrightarrow> activation_tx env ordered (d, w) (d', w)"
| as_release: "activation_tx env ordered x (drop_gate r x)"
| as_outside: "outside x x' \<Longrightarrow> activation_tx env ordered x x'"

abbreviation activation_step :: "activation_env \<Rightarrow> world \<Rightarrow> world \<Rightarrow> bool" where
  "activation_step env \<equiv> activation_tx env True"

lemma gate_columns:
  assumes "take_gate r d = (got, d')"
  shows "db_config_heads d' = db_config_heads d" "db_heads d' = db_heads d" "db_claims d' = db_claims d" "db_revisions d' = db_revisions d"
    "db_questions d' = db_questions d"
  using assms by (auto simp: take_gate_def acquire_writer_gate_def Let_def)

lemma drop_gate_columns:
  "db_config_heads (fst (drop_gate r x)) = db_config_heads (fst x)" "db_heads (fst (drop_gate r x)) = db_heads (fst x)"
  "db_claims (fst (drop_gate r x)) = db_claims (fst x)" "db_revisions (fst (drop_gate r x)) = db_revisions (fst x)"
  "db_questions (fst (drop_gate r x)) = db_questions (fst x)" "snd (drop_gate r x) = snd x"
  by (simp_all add: drop_gate_def release_writer_gate_def)

lemma activation_tx_ok: "activation_tx env ordered x x' \<Longrightarrow> activation_ok x \<Longrightarrow> activation_ok x'"
proof (induction rule: activation_tx.induct)
  case (as_upsert base payload d w res x')
  then show ?case using upsert_ok by (metis prod.collapse)
next
  case (as_poll utc r d n d' w)
  then show ?case using poll_ok by blast
next
  case (as_gate r d got d' w)
  then show ?case using same_columns_ok gate_columns by blast
next
  case (as_release x r)
  then show ?case using same_columns_ok [of "fst x" "snd x" "fst (drop_gate r x)"] drop_gate_columns by (metis prod.collapse)
qed (metis prod.collapse drain_ok cancel_ok confirm_ok freeze_ok prepare_ok seal_ok publishing_ok flip_ok post_publish_ok post_publish_failed_ok
  repair_ok repair_failed_ok cleanup_ok outside_ok)+


subsection \<open>The slot changes hands only under a higher fence\<close>

definition slot_move :: "config_head_row \<Rightarrow> config_head_row \<Rightarrow> bool" where
  "slot_move h h' \<longleftrightarrow> rch_activation_fence h < rch_activation_fence h' \<or>
     (rch_activation_fence h' = rch_activation_fence h \<and>
       (rch_activating_config_snapshot_id h' = rch_activating_config_snapshot_id h \<and> rch_activation_lease_owner h' = rch_activation_lease_owner h \<or>
        rch_activating_config_snapshot_id h' = None \<and> rch_activation_lease_owner h' = None))"

lemma slot_move_refl [simp]: "slot_move h h"
  by (simp add: slot_move_def)

lemma slot_move_trans: "slot_move a b \<Longrightarrow> slot_move b c \<Longrightarrow> slot_move a c"
  by (auto simp: slot_move_def)

lemma slot_move_clear [simp]: "slot_move h (clear_slot h)"
  by (simp add: slot_move_def clear_slot_def)

lemma slot_move_fields [simp]: "slot_move h (h\<lparr>rch_active_config_snapshot_id := c\<rparr>)" "slot_move h (h\<lparr>rch_activation_lease_expires_at := t\<rparr>)"
  by (simp_all add: slot_move_def)

lemma slot_move_take [simp]: "rch_activation_fence h < fn \<Longrightarrow> slot_move h (take_slot c fn ow t h)"
  by (simp add: slot_move_def)

text \<open>A move of the slot that leaves the effective snapshot alone.\<close>

definition slot_moves :: "db \<Rightarrow> db \<Rightarrow> bool" where
  "slot_moves d d' \<longleftrightarrow> list_all2 (\<lambda>h h'. slot_move h h' \<and> rch_active_config_snapshot_id h' = rch_active_config_snapshot_id h) (db_config_heads d) (db_config_heads d')"

lemma slot_moves_same: "db_config_heads d' = db_config_heads d \<Longrightarrow> slot_moves d d'"
  by (simp add: slot_moves_def list_all2_same)

lemma slot_moves_update:
  "db_config_heads d' = tbl_update p g (db_config_heads d) \<Longrightarrow> (\<And>h. h \<in> set (db_config_heads d) \<Longrightarrow> slot_move h (g h) \<and> rch_active_config_snapshot_id (g h) = rch_active_config_snapshot_id h) \<Longrightarrow>
     slot_moves d d'"
  by (auto simp: slot_moves_def tbl_update_def list_all2_map2 list_all2_same)

lemma slot_moves_clear: "db_config_heads d' = tbl_update p clear_slot (db_config_heads d) \<Longrightarrow> slot_moves d d'"
  by (erule slot_moves_update) simp

lemma drain_moves:
  assumes "publish_activation_drain utc cand owner ls dw (d, w) = Inr (fn, x')" "activation_ok (d, w)"
  shows "slot_moves d (fst x')"
proof -
  obtain h where h: "db_config_heads d = [h]" "rch_scope h = SCOPE" "lock_head d = Inr h" using assms(2) by (rule one_head)
  have "\<exists>g. db_config_heads (fst x') = tbl_update (\<lambda>h. rch_scope h = SCOPE) g (db_config_heads d) \<and> slot_move h (g h) \<and>
      rch_active_config_snapshot_id (g h) = rch_active_config_snapshot_id h"
    using assms(1) h(3) by (auto simp: publish_activation_drain_def Let_def write_intent_def split: sum.splits option.splits if_splits)
  then show ?thesis using h(1) by (auto intro: slot_moves_update)
qed

lemma cleanup_moves: "terminal_cleanup utc r out e x = Inr x' \<Longrightarrow> slot_moves (fst x) (fst x')"
  by (rule slot_moves_clear [of _ "\<lambda>h. rch_scope h = SCOPE"]) (auto simp: terminal_cleanup_def split: prod.splits sum.splits if_splits option.splits)

lemma flip_moves:
  assumes "flip env utc r (d, w) = Inr (n, x')" "activation_ok (d, w)"
  shows "list_all2 slot_move (db_config_heads d) (db_config_heads (fst x'))"
proof -
  obtain h where h: "db_config_heads d = [h]" "lock_head d = Inr h" using assms(2) by (rule one_head)
  show ?thesis
  proof (cases "rch_active_config_snapshot_id h = rn_candidate r")
    case True
    then have "fst x' = d" using assms(1) h(2) by (auto simp: flip_def split: sum.splits if_splits)
    then show ?thesis by (simp add: list_all2_same)
  next
    case False
    have "db_config_heads (fst x') = tbl_update (\<lambda>h. rch_scope h = SCOPE) (\<lambda>h. h\<lparr>rch_active_config_snapshot_id := rn_candidate r\<rparr>) (db_config_heads d)"
      using flip_done [of env utc r d w n "fst x'" "snd x'" h] assms(1) h(2) False by (metis prod.collapse)
    then show ?thesis by (simp add: tbl_update_def list_all2_map2 list_all2_same)
  qed
qed

lemma post_publish_moves:
  assumes "post_publish_tx env utc r n m x = Inr (out, x')"
  shows "slot_moves (fst x) (fst x')"
proof -
  have "x' = x \<or> terminal_cleanup utc r TO_active None x = Inr x' \<or> (\<exists>c k. manifest_batch env ''publish'' r n c x = (k, x'))"
    using assms by (cases x) (auto simp: post_publish_tx_def Let_def split: sum.splits option.splits if_splits prod.splits)
  moreover have "slot_moves (fst x) (fst x')" if "manifest_batch env ''publish'' r n c x = (k, x')" for c k
  proof -
    obtain d w d' w' where x: "x = (d, w)" "x' = (d', w')" by fastforce
    have "db_config_heads d' = db_config_heads d" using that unfolding x by (rule manifest_batchE)
    then show ?thesis by (simp add: x slot_moves_same)
  qed
  ultimately show ?thesis using cleanup_moves [of utc r TO_active None x x'] slot_moves_same [of "fst x" "fst x"] by blast
qed

lemma repair_heads:
  assumes "repair_tx env utc r n m x = Inr (out, x')"
  shows "db_config_heads (fst x') = db_config_heads (fst x)"
proof -
  obtain d w d' w' where x: "x = (d, w)" "x' = (d', w')" by fastforce
  have "db_config_heads d' = db_config_heads d \<or> (\<exists>c k. manifest_batch env ''repair'' r n c (d, w) = (k, d', w'))"
    using assms unfolding x repair_tx_def Let_def by (auto split: sum.splits option.splits if_splits prod.splits)
  then show ?thesis unfolding x using manifest_batchE by (metis fst_conv)
qed

text \<open>Only a flip changes the effective snapshot.\<close>

definition flips :: "activation_env \<Rightarrow> bool \<Rightarrow> world \<Rightarrow> world \<Rightarrow> bool" where
  "flips env ordered x x' \<longleftrightarrow> (\<exists>utc r n. flip env utc r x = Inr (n, x') \<and>
     (\<forall>s. ordered \<longrightarrow> get_snapshot (snd x) (rn_candidate r) = Some s \<longrightarrow>
        cs_activation_state s = AST_PUBLISHING \<and> cs_activation_cohort_revision s \<noteq> None))"

lemma activation_tx_moves: "activation_tx env ordered x x' \<Longrightarrow> activation_ok x \<Longrightarrow> slot_moves (fst x) (fst x') \<or> flips env ordered x x'"
proof (induction rule: activation_tx.induct)
  case (as_upsert base payload d w res x')
  then show ?case by (intro disjI1 slot_moves_same) (auto simp: upsert_online_candidate_def Let_def uuid4_def split: if_splits option.splits)
next
  case (as_drain utc cand owner ls dw x fn x')
  then show ?case using drain_moves by (metis prod.collapse)
next
  case (as_poll utc r d n d' w)
  then have "quiesce_counts d = (n, d')" by (auto simp: drain_poll_def split: sum.splits if_splits)
  then show ?case by (simp add: slot_moves_same quiesce_columns)
next
  case (as_cancel utc r reason n x x')
  then show ?case
    by (intro disjI1 slot_moves_clear [of _ "\<lambda>h. rch_scope h = SCOPE"]) (auto simp: cancel_activation_drain_def split: prod.splits sum.splits if_splits)
next
  case (as_confirm utc r n x x')
  obtain q d1 where q: "quiesce_counts (fst x) = (q, d1)" by fastforce
  have "db_config_heads (fst x') = db_config_heads d1"
    using as_confirm(1) q by (auto simp: confirm_quiesced_def split: sum.splits if_splits prod.splits)
  then show ?case using quiesce_columns [OF q] by (simp add: slot_moves_same)
next
  case (as_freeze utc r x n x')
  then show ?case by (intro disjI1 slot_moves_same) (auto simp: freeze_cohort_online_def Let_def split: prod.splits sum.splits if_splits option.splits)
next
  case (as_prepare utc r base cand batch d w x')
  then obtain d' where "prepare_claims env base cand w batch d = Inr d'" "fst x' = d'" by (auto simp: prepare_batch_def split: sum.splits)
  then show ?case using prepare_claims_adds [of env base cand w batch d d'] by (simp add: slot_moves_same adds_heads_def)
next
  case (as_seal utc r x dg x')
  then show ?case by (intro disjI1 slot_moves_same) (auto simp: verify_and_seal_online_def Let_def split: prod.splits sum.splits if_splits option.splits)
next
  case (as_publishing utc r x x')
  then show ?case by (intro disjI1 slot_moves_same) (auto simp: start_publishing_def Let_def split: prod.splits sum.splits if_splits option.splits)
next
  case (as_flip utc r x n x')
  then show ?case unfolding flips_def by blast
next
  case (as_manifest utc r n m x out x')
  then show ?case using post_publish_moves by blast
next
  case (as_manifest_failed utc jit r e x b x')
  then have "db_config_heads (fst x') = db_config_heads (fst x) \<or> db_config_heads (fst x') = tbl_update (\<lambda>h. rch_scope h = SCOPE) clear_slot (db_config_heads (fst x))"
    by (auto simp: post_publish_failed_def Let_def split: prod.splits sum.splits if_splits option.splits)
  then show ?case by (auto intro: slot_moves_same slot_moves_clear)
next
  case (as_repair utc r n m x out x')
  then show ?case by (simp add: slot_moves_same repair_heads)
next
  case (as_repair_failed utc jit r e x x')
  then show ?case by (intro disjI1 slot_moves_same) (auto simp: repair_failed_def Let_def split: prod.splits option.splits if_splits)
next
  case (as_cleanup utc r out e x x')
  then show ?case using cleanup_moves by blast
next
  case (as_gate r d got d' w)
  then show ?case by (simp add: slot_moves_same gate_columns)
next
  case (as_release x r)
  then show ?case by (simp add: slot_moves_same drop_gate_columns)
next
  case (as_outside x x')
  then show ?case by (simp add: slot_moves_same outside_def)
qed

text \<open>
  The contract of a system of transactions: an invariant, and a relation that only grows under it.  Both hold along
  every interleaving.
\<close>

locale guarded_steps =
  fixes step :: "'s \<Rightarrow> 's \<Rightarrow> bool" and ok :: "'s \<Rightarrow> bool" and grows :: "'s \<Rightarrow> 's \<Rightarrow> bool"
  assumes step_ok: "step x y \<Longrightarrow> ok x \<Longrightarrow> ok y"
    and step_grows: "step x y \<Longrightarrow> ok x \<Longrightarrow> grows x y"
    and grows_refl: "grows x x"
    and grows_trans: "grows x y \<Longrightarrow> grows y z \<Longrightarrow> grows x z"
begin

lemma run: "step\<^sup>*\<^sup>* x y \<Longrightarrow> ok x \<Longrightarrow> ok y \<and> grows x y"
  by (induction rule: rtranclp_induct) (auto intro: step_ok step_grows grows_refl grows_trans)

lemmas run_ok = run [THEN conjunct1] and run_grows = run [THEN conjunct2]

end

lemma activation_tx_grows:
  assumes "activation_tx env ordered x y" "activation_ok x"
  shows "list_all2 slot_move (db_config_heads (fst x)) (db_config_heads (fst y))"
proof -
  have "flip env utc r x = Inr (n, y) \<Longrightarrow> list_all2 slot_move (db_config_heads (fst x)) (db_config_heads (fst y))" for utc r n
    using flip_moves [of env utc r "fst x" "snd x" n y] assms(2) by simp
  then show ?thesis using activation_tx_moves [OF assms] unfolding slot_moves_def flips_def by (auto elim: list_all2_mono)
qed

interpretation act_run: guarded_steps "activation_tx env ordered" activation_ok "\<lambda>x y. list_all2 slot_move (db_config_heads (fst x)) (db_config_heads (fst y))"
  for env ordered
proof
  show "list_all2 slot_move (db_config_heads (fst x)) (db_config_heads (fst x))" for x :: world by (simp add: list_all2_same)
  show "list_all2 slot_move (db_config_heads (fst x)) (db_config_heads (fst z))"
    if "list_all2 slot_move (db_config_heads (fst x)) (db_config_heads (fst y))" "list_all2 slot_move (db_config_heads (fst y)) (db_config_heads (fst z))"
    for x y z :: world
    using that list_all2_trans [of slot_move slot_move slot_move] slot_move_trans by blast
qed (use activation_tx_ok activation_tx_grows in blast)+

text \<open>
  An update that finds the slot in other hands is refused or changes nothing.  The cleanup refuses while the slot is
  held; with an empty slot it does not look at the runner.
\<close>

definition fenced_out :: "activation_env \<Rightarrow> runner \<Rightarrow> world \<Rightarrow> bool" where
  "fenced_out env r x \<longleftrightarrow>
     (\<forall>utc. isl (drain_poll utc r (fst x)) \<and> isl (freeze_cohort_online env utc r x) \<and> isl (verify_and_seal_online env utc r x) \<and>
        isl (start_publishing utc r x) \<and> isl (flip env utc r x)) \<and>
     (\<forall>utc n. isl (confirm_quiesced utc r n x)) \<and> (\<forall>utc reason n. isl (cancel_activation_drain utc r reason n x)) \<and>
     (\<forall>utc base cand batch. isl (prepare_batch env utc r base cand batch x)) \<and>
     (\<forall>h utc out e. lock_head (fst x) = Inr h \<longrightarrow> rch_activating_config_snapshot_id h \<noteq> None \<longrightarrow> isl (terminal_cleanup utc r out e x)) \<and>
     (\<forall>utc n m. case post_publish_tx env utc r n m x of Inl _ \<Rightarrow> True | Inr (_, x') \<Rightarrow> x' = x) \<and>
     (\<forall>utc jit e. case post_publish_failed utc jit r e x of Inl _ \<Rightarrow> True | Inr (b, x') \<Rightarrow> \<not> b \<and> x' = x)"

lemma no_tuple_fenced_out:
  assumes "lock_head d = Inr h" "\<And>utc. \<not> tuple_ok utc r h"
  shows "fenced_out env r (d, w)"
proof -
  have g: "tbl_get rch_scope SCOPE (db_config_heads d) = Some h" using assms(1) by (auto simp: lock_head_def split: option.splits)
  have t: "check_tuple utc r d = Inl (ActivationError ''activation tuple mismatch (fence/owner/lease) -- this runner is fenced out'')" for utc
    using assms by (simp add: check_tuple_def)
  have "isl (drain_poll utc r d)" "isl (confirm_quiesced utc r n (d, w))" "isl (cancel_activation_drain utc r reason m (d, w))" for utc n reason m
    using assms by (simp_all add: drain_poll_def confirm_quiesced_def cancel_activation_drain_def split: sum.splits prod.splits)
  moreover have "isl (freeze_cohort_online env utc r (d, w))" "isl (verify_and_seal_online env utc r (d, w))" "isl (start_publishing utc r (d, w))"
    "isl (prepare_batch env utc r base cand batch (d, w))" "isl (flip env utc r (d, w))" for utc base cand batch
    using assms t by (simp_all add: freeze_cohort_online_def verify_and_seal_online_def start_publishing_def prepare_batch_def flip_def split: sum.splits)
  moreover have "isl (terminal_cleanup utc r out e (d, w))" if "rch_activating_config_snapshot_id h \<noteq> None" for utc out e
    using assms that by (simp add: terminal_cleanup_def)
  moreover have "case post_publish_tx env utc r n m (d, w) of Inl _ \<Rightarrow> True | Inr (_, x') \<Rightarrow> x' = (d, w)" for utc n m
    using assms by (simp add: post_publish_tx_def Let_def split: option.splits)
  moreover have "case post_publish_failed utc jit r e (d, w) of Inl _ \<Rightarrow> True | Inr (b, x') \<Rightarrow> \<not> b \<and> x' = (d, w)" for utc jit e
    using assms g by (simp add: post_publish_failed_def Let_def split: option.splits sum.splits)
  ultimately show ?thesis unfolding fenced_out_def using assms(1) by simp
qed

subsection \<open>The manifest completes\<close>

definition asked :: "activation_env \<Rightarrow> uuid \<Rightarrow> uuid \<Rightarrow> db \<Rightarrow> bool" where
  "asked env cand c d \<longleftrightarrow> (\<exists>q\<in>set (db_questions d). q_id q = pending_question_id env cand c)"

lemma pending_questions_ask:
  "pending_questions env cand cs d = (n, d') \<Longrightarrow> set (db_questions d) \<subseteq> set (db_questions d') \<and> (\<forall>c\<in>set cs. asked env cand c d')"
proof (induction cs arbitrary: d n)
  case (Cons c cs)
  then obtain m1 d1 m2 where s: "question_for_pending_head env cand c d = (m1, d1)" "pending_questions env cand cs d1 = (m2, d')"
    by (auto simp: Let_def split: prod.splits)
  have "set (db_questions d) \<subseteq> set (db_questions d1)" "asked env cand c d1"
    using s(1) by (auto simp: question_for_pending_head_def asked_def Let_def list_ex_iff split: if_splits)
  then show ?case using Cons.IH [OF s(2)] by (auto simp: asked_def)
qed simp

lemma pending_cong: "db_heads d' = db_heads d \<Longrightarrow> pending_claim_ids cand d' = pending_claim_ids cand d"
  by (simp add: pending_claim_ids_def)

lemma lock_head_cong: "db_config_heads d' = db_config_heads d \<Longrightarrow> lock_head d' = lock_head d"
  by (simp add: lock_head_def)

text \<open>The manifest is due: published, in the hands of the runner, its next attempt not in the future, its cursor in range.\<close>

definition manifest_due :: "instant \<Rightarrow> runner \<Rightarrow> nat \<Rightarrow> world \<Rightarrow> bool" where
  "manifest_due utc r cur x \<longleftrightarrow>
     (\<exists>h c. lock_head (fst x) = Inr h \<and> tuple_ok utc r h \<and> get_snapshot (snd x) (rn_candidate r) = Some c \<and>
        cs_activation_state c = AST_POST_PUBLISH \<and> \<not> is_after (cs_post_publish_next_attempt_at c) utc \<and>
        cs_post_publish_cursor c = Some (int cur))"

text \<open>The end of a completed manifest: the candidate is active, the slot is free, and the questions are there.\<close>

definition manifest_done :: "activation_env \<Rightarrow> runner \<Rightarrow> uuid list \<Rightarrow> world \<Rightarrow> bool" where
  "manifest_done env r cs x \<longleftrightarrow> state_now (snd x) (rn_candidate r) = Some AST_ACTIVE \<and>
     (\<forall>h\<in>set (db_config_heads (fst x)). rch_scope h = SCOPE \<longrightarrow> rch_activating_config_snapshot_id h = None) \<and>
     (\<forall>c\<in>set cs. asked env (rn_candidate r) c (fst x))"

lemma manifest_last:
  assumes "manifest_due utc r cur (d, w)" "length (pending_claim_ids (rn_candidate r) d) \<le> cur"
  shows "\<exists>res x'. post_publish_tx env utc r n m (d, w) = Inr (BO_done res, x') \<and> pp_state res = Some AST_ACTIVE \<and> manifest_done env r [] x' \<and>
    set (db_questions d) \<subseteq> set (db_questions (fst x'))"
proof -
  obtain h c where h: "lock_head d = Inr h" "tuple_ok utc r h" "get_snapshot w (rn_candidate r) = Some c" "cs_activation_state c = AST_POST_PUBLISH"
    "\<not> is_after (cs_post_publish_next_attempt_at c) utc" "cs_post_publish_cursor c = Some (int cur)"
    using assms(1) by (auto simp: manifest_due_def)
  have id: "cs_id c = rn_candidate r" using h(3) by (auto simp: get_snapshot_def dest: tbl_get_SomeD)
  show ?thesis
    using h id assms(2) by (auto simp: post_publish_tx_def Let_def terminal_cleanup_def int_or_0_def pp_result_def manifest_done_def state_now_def
      get_snapshot_def tbl_get_update_id terminal_row_def set_tbl_update)
qed

lemma manifest_more:
  assumes "manifest_due utc r cur (d, w)" "cur < length (pending_claim_ids (rn_candidate r) d)"
  shows "\<exists>k x'. post_publish_tx env utc r n m (d, w) = Inr (BO_next k, x') \<and>
    manifest_due utc r (cur + min n (length (pending_claim_ids (rn_candidate r) d) - cur)) x' \<and> db_heads (fst x') = db_heads d \<and>
    (\<forall>c\<in>set (take n (drop cur (pending_claim_ids (rn_candidate r) d))). asked env (rn_candidate r) c (fst x')) \<and>
    set (db_questions d) \<subseteq> set (db_questions (fst x'))"
proof -
  let ?p = "pending_claim_ids (rn_candidate r) d"
  obtain h c where h: "lock_head d = Inr h" "tuple_ok utc r h" "get_snapshot w (rn_candidate r) = Some c" "cs_activation_state c = AST_POST_PUBLISH"
    "\<not> is_after (cs_post_publish_next_attempt_at c) utc" "cs_post_publish_cursor c = Some (int cur)"
    using assms(1) by (auto simp: manifest_due_def)
  have id: "cs_id c = rn_candidate r" using h(3) by (auto simp: get_snapshot_def dest: tbl_get_SomeD)
  have cur: "nat (int_or_0 (cs_post_publish_cursor c)) = cur" using h(6) by (simp add: int_or_0_def)
  obtain k d' w' where b: "manifest_batch env ''publish'' r n c (d, w) = (k, d', w')" by (metis prod.exhaust)
  obtain d1 where d1: "pending_questions env (rn_candidate r) (take n (drop cur ?p)) d = (k, d1)" "db_config_heads d' = db_config_heads d"
    "db_heads d' = db_heads d" "db_questions d' = db_questions d1"
    and w': "w' = set_snapshot (rn_candidate r) (\<lambda>s. s\<lparr>cs_post_publish_cursor := Some (int (cur + length (take n (drop cur ?p))))\<rparr>) w"
    using b unfolding cur [symmetric] id [symmetric] by (rule manifest_batchE)
  have tx: "post_publish_tx env utc r n m (d, w) = Inr (BO_next k, d', w')"
    using h id assms(2) b by (simp add: post_publish_tx_def int_or_0_def)
  have "get_snapshot w' (rn_candidate r) = Some (c\<lparr>cs_post_publish_cursor := Some (int (cur + length (take n (drop cur ?p))))\<rparr>)"
    using h(3) by (simp add: w' get_snapshot_def tbl_get_update_id)
  then have "manifest_due utc r (cur + min n (length ?p - cur)) (d', w')"
    using h lock_head_cong [OF d1(2)] by (simp add: manifest_due_def min.commute)
  then show ?thesis using tx d1 pending_questions_ask [OF d1(1)] by (auto simp: asked_def)
qed

lemma manifest_batches:
  "manifest_due utc r cur (d, w) \<Longrightarrow> 0 < n \<Longrightarrow> length (pending_claim_ids (rn_candidate r) d) \<le> cur + k * n \<Longrightarrow>
   \<exists>res created x'. post_publish_batches env utc r n (Suc k) m (d, w) = (Inr res, created, x') \<and> pp_state res = Some AST_ACTIVE \<and>
     manifest_done env r (drop cur (pending_claim_ids (rn_candidate r) d)) x' \<and> set (db_questions d) \<subseteq> set (db_questions (fst x'))"
proof (induction k arbitrary: d w cur m)
  case 0
  obtain res x' where "post_publish_tx env utc r n m (d, w) = Inr (BO_done res, x')" "pp_state res = Some AST_ACTIVE" "manifest_done env r [] x'"
    "set (db_questions d) \<subseteq> set (db_questions (fst x'))"
    using manifest_last [OF 0(1)] 0(3) by fastforce
  then show ?case using 0(3) by auto
next
  case (Suc k)
  let ?p = "pending_claim_ids (rn_candidate r) d"
  show ?case
  proof (cases "length ?p \<le> cur")
    case True
    obtain res x' where "post_publish_tx env utc r n m (d, w) = Inr (BO_done res, x')" "pp_state res = Some AST_ACTIVE" "manifest_done env r [] x'"
      "set (db_questions d) \<subseteq> set (db_questions (fst x'))"
      using manifest_last [OF Suc.prems(1) True] by blast
    then show ?thesis using True by auto
  next
    case False
    let ?cur = "cur + min n (length ?p - cur)"
    obtain j d1 w1 where x1: "post_publish_tx env utc r n m (d, w) = Inr (BO_next j, d1, w1)" "manifest_due utc r ?cur (d1, w1)"
      "db_heads d1 = db_heads d" "\<forall>c\<in>set (take n (drop cur ?p)). asked env (rn_candidate r) c d1" "set (db_questions d) \<subseteq> set (db_questions d1)"
      using manifest_more [OF Suc.prems(1), of env n m] False by auto
    note p1 = pending_cong [OF x1(3), of "rn_candidate r"]
    have le: "length (pending_claim_ids (rn_candidate r) d1) \<le> ?cur + k * n" using Suc.prems(3) p1 by (auto simp: min_def)
    obtain res created x' where x': "post_publish_batches env utc r n (Suc k) (m + j) (d1, w1) = (Inr res, created, x')" "pp_state res = Some AST_ACTIVE"
      "manifest_done env r (drop ?cur ?p) x'" "set (db_questions d1) \<subseteq> set (db_questions (fst x'))"
      using Suc.IH [OF x1(2) Suc.prems(2) le] unfolding p1 by blast
    have "set (drop cur ?p) \<subseteq> set (take n (drop cur ?p)) \<union> set (drop ?cur ?p)"
    proof (cases "n \<le> length ?p - cur")
      case True
      have "drop cur ?p = take n (drop cur ?p) @ drop n (drop cur ?p)" by (simp only: append_take_drop_id)
      then have "set (drop cur ?p) = set (take n (drop cur ?p)) \<union> set (drop (n + cur) ?p)" by (metis drop_drop set_append)
      then show ?thesis using True by (simp add: min_def add.commute)
    qed auto
    then have "manifest_done env r (drop cur ?p) x'"
      using x'(3,4) x1(4) unfolding manifest_done_def asked_def by blast
    then show ?thesis using x1(1,5) x'(1,2,4) by auto
  qed
qed

end
