(* ===== verification/ReassessmentQueue.thy ===== *)
theory ReassessmentQueue
  imports Reassessment
begin

section \<open>The queue of reassessment jobs\<close>

text \<open>
  The life of a job row.  \<open>job_move\<close> is the state machine of one row; every operation of the worker, of the cascade and
  of the commit moves the rows of the queue along it or appends a queued row.  The invariant of the queue holds the
  CHECK constraints and the partial unique index of the table, and the bounds of the retry budget.
\<close>

subsection \<open>The machine of one job\<close>

inductive job_move :: "job_row \<Rightarrow> job_row \<Rightarrow> bool" where
  mv_stay: "job_move j j"
| mv_defer: "job_status j \<in> {RJ_QUEUED, RJ_RETRY} \<Longrightarrow> job_move j (j\<lparr>job_next_attempt_at := t\<rparr>)"
| mv_lease: "job_status j \<in> {RJ_QUEUED, RJ_RETRY} \<Longrightarrow> job_attempts j < job_max_attempts j \<Longrightarrow> job_move j (job_leased now s j)"
| mv_unlease: "job_status j = RJ_LEASED \<Longrightarrow> job_move j (job_unleased j)"
| mv_retry: "job_status j = RJ_LEASED \<Longrightarrow> job_attempts j < job_max_attempts j \<Longrightarrow> job_move j (job_retried now jt ec msg j)"
| mv_block: "job_status j = RJ_LEASED \<Longrightarrow> job_move j (job_blocked clk ec msg j)"
| mv_complete: "job_status j = RJ_LEASED \<Longrightarrow> job_move j (job_completed clk j)"

lemmas job_rows = job_leased_def job_unleased_def job_retried_def job_blocked_def job_completed_def

text \<open>
  The CHECK constraints of the table, the budget, and that a waiting row always has an attempt left: no row is
  stranded in the queue.
\<close>

definition job_ok :: "job_row \<Rightarrow> bool" where
  "job_ok j \<longleftrightarrow>
     0 \<le> job_attempts j \<and> job_attempts j \<le> job_max_attempts j \<and>
     (job_status j \<in> {RJ_QUEUED, RJ_RETRY} \<longrightarrow> job_attempts j < job_max_attempts j) \<and>
     (job_status j = RJ_LEASED \<longrightarrow> 1 \<le> job_attempts j) \<and>
     (job_lease_owner j = None \<longleftrightarrow> job_lease_expires_at j = None) \<and>
     (job_lease_owner j \<noteq> None \<longleftrightarrow> job_status j = RJ_LEASED) \<and>
     (job_blocked_at j = None \<longleftrightarrow> job_status j \<noteq> RJ_BLOCKED) \<and>
     (job_completed_at j = None \<longleftrightarrow> job_status j \<noteq> RJ_COMPLETED)"

lemma job_move_ok: "job_move j j' \<Longrightarrow> job_ok j \<Longrightarrow> job_ok j'"
  by (induction rule: job_move.induct) (auto simp: job_ok_def job_rows)

lemma job_move_keys:
  "job_move j j' \<Longrightarrow> job_id j' = job_id j \<and> job_claim_id j' = job_claim_id j \<and>
     job_target_config_snapshot_id j' = job_target_config_snapshot_id j \<and> job_max_attempts j' = job_max_attempts j"
  by (induction rule: job_move.induct) (auto simp: job_rows)

lemma job_move_active: "job_move j j' \<Longrightarrow> job_is_active (job_status j') \<Longrightarrow> job_is_active (job_status j)"
  by (induction rule: job_move.induct) (auto simp: job_rows job_is_active_def)

lemma terminal_stays: "job_move j j' \<Longrightarrow> job_status j \<in> {RJ_BLOCKED, RJ_COMPLETED} \<Longrightarrow> j' = j"
  by (induction rule: job_move.induct) auto

subsection \<open>The table\<close>

definition queue_ok :: "db \<Rightarrow> bool" where
  "queue_ok d \<longleftrightarrow> distinct (map job_id (db_jobs d)) \<and> list_all job_ok (db_jobs d) \<and> one_active_job d"

definition queue_moves :: "db \<Rightarrow> db \<Rightarrow> bool" where
  "queue_moves d d' \<longleftrightarrow> list_all2 job_move (db_jobs d) (db_jobs d')"

lemma moves_refl: "db_jobs d' = db_jobs d \<Longrightarrow> queue_moves d d'"
  by (simp add: queue_moves_def list_all2_refl job_move.mv_stay)

lemma moves_update:
  "db_jobs d' = tbl_update P f (db_jobs d) \<Longrightarrow> (\<And>j. j \<in> set (db_jobs d) \<Longrightarrow> P j \<Longrightarrow> job_move j (f j)) \<Longrightarrow> queue_moves d d'"
  by (auto simp: queue_moves_def tbl_update_def list_all2_map2 list_all2_same intro: job_move.mv_stay)

lemma moves_ids: "list_all2 job_move t t' \<Longrightarrow> map job_id t' = map job_id t"
  by (induction rule: list_all2_induct) (auto dest: job_move_keys)

lemma moves_count:
  "list_all2 job_move t t' \<Longrightarrow>
   tbl_count (\<lambda>j. job_claim_id j = c \<and> job_target_config_snapshot_id j = snap \<and> job_is_active (job_status j)) t'
   \<le> tbl_count (\<lambda>j. job_claim_id j = c \<and> job_target_config_snapshot_id j = snap \<and> job_is_active (job_status j)) t"
  by (induction rule: list_all2_induct) (auto simp: tbl_count_def dest: job_move_keys job_move_active)

lemma moves_all_ok: "list_all2 job_move t t' \<Longrightarrow> list_all job_ok t \<Longrightarrow> list_all job_ok t'"
  by (induction rule: list_all2_induct) (auto dest: job_move_ok)

lemma queue_moves_ok:
  assumes "queue_moves d d'" "queue_ok d"
  shows "queue_ok d'"
proof -
  have m: "list_all2 job_move (db_jobs d) (db_jobs d')" using assms(1) by (simp add: queue_moves_def)
  have "one_active_job d'" using assms(2) moves_count [OF m] unfolding queue_ok_def one_active_job_def by (meson le_trans)
  then show ?thesis using assms(2) moves_ids [OF m] moves_all_ok [OF m] by (simp add: queue_ok_def)
qed

lemma queue_row: "queue_ok d \<Longrightarrow> get_job d jid = Some j \<Longrightarrow> r \<in> set (db_jobs d) \<Longrightarrow> job_id r = jid \<Longrightarrow> r = j"
  unfolding queue_ok_def get_job_def by (auto dest!: tbl_get_SomeD simp: distinct_map inj_on_def)

subsection \<open>Every operation moves rows\<close>

definition job_end :: "job_row \<Rightarrow> (job_row \<Rightarrow> job_row) \<Rightarrow> bool" where
  "job_end j f \<longleftrightarrow> f = job_unleased \<or> (\<exists>clk. f = job_completed clk) \<or> (\<exists>clk ec msg. f = job_blocked clk ec msg) \<or>
     (\<exists>now jt ec msg. f = job_retried now jt ec msg \<and> job_attempts j < job_max_attempts j)"

definition ends_job :: "job_row \<Rightarrow> db \<Rightarrow> db \<Rightarrow> bool" where
  "ends_job j d d' \<longleftrightarrow> db_jobs d' = db_jobs d \<or>
     (job_status j = RJ_LEASED \<and> (\<exists>f. job_end j f \<and> db_jobs d' = tbl_update (\<lambda>r. job_id r = job_id j) f (db_jobs d)))"

lemma ends_jobI:
  "job_status j = RJ_LEASED \<Longrightarrow> db_jobs d' = tbl_update (\<lambda>r. job_id r = job_id j) f (db_jobs d) \<Longrightarrow> job_end j f \<Longrightarrow> ends_job j d d'"
  by (auto simp: ends_job_def)

lemma job_ends:
  "job_end j job_unleased" "job_end j (job_completed clk)" "job_end j (job_blocked clk ec msg)"
  "job_attempts j < job_max_attempts j \<Longrightarrow> job_end j (job_retried now jt ec msg)"
  unfolding job_end_def by blast+

lemma ends_job_moves:
  assumes "ends_job j d d'" "queue_ok d" "get_job d (job_id j) = Some j"
  shows "queue_moves d d'"
proof -
  have "job_move r (f r)" if "job_status j = RJ_LEASED" "job_end j f" "r \<in> set (db_jobs d)" "job_id r = job_id j" for r f
    using that queue_row [OF assms(2,3) that(3,4)] by (auto simp: job_end_def intro: job_move.intros)
  then show ?thesis using assms(1) by (auto simp: ends_job_def intro: moves_refl moves_update)
qed

lemma set_head_invalid_jobs: "set_head_invalid clk c snap d = (p, d1) \<Longrightarrow> db_jobs d1 = db_jobs d"
  by (auto simp: set_head_invalid_def split: option.splits)

lemma bump_if_pending_jobs: "bump_if_pending p d = Inr d' \<Longrightarrow> db_jobs d' = db_jobs d"
  using bump_knowledge_frame by (auto simp: bump_if_pending_def split: if_splits)

lemma supersede_jobs [simp]: "db_jobs (supersede x d) = db_jobs d"
  by (simp add: supersede_def split: option.splits)

lemmas jobs_kept = set_head_invalid_jobs bump_if_pending_jobs insufficient_question_frame bump_knowledge_frame

lemma missing_rows_ends:
  assumes "missing_rows env clk j eff hs claim (d, w) = Inr (o', d', w')" "job_status j = RJ_LEASED"
  shows "ends_job j d d'"
proof -
  have "\<exists>ec msg. db_jobs d' = tbl_update (\<lambda>r. job_id r = job_id j) (job_blocked clk ec msg) (db_jobs d)"
    using assms(1) unfolding missing_rows_def Let_def
    by (auto simp del: append.simps split: option.splits sum.splits prod.splits dest!: jobs_kept) (intro exI, rule refl)+
  then show ?thesis using ends_jobI [OF assms(2)] job_ends(3) by blast
qed

lemma insufficient_data_ends:
  assumes "insufficient_data env clk j c eff (d, w) = Inr (o', d', w')" "job_status j = RJ_LEASED"
  shows "ends_job j d d'"
proof (rule ends_jobI [OF assms(2) _ job_ends(2)])
  show "db_jobs d' = tbl_update (\<lambda>r. job_id r = job_id j) (job_completed clk) (db_jobs d)"
    using assms(1) unfolding insufficient_data_def
    by (auto simp: set_job_def Let_def split: sum.splits prod.splits dest!: jobs_kept)
qed

lemma promote_ends:
  assumes "promote env clk utc j snap c scope evidence h a (d, w) = Inr (o', d', w')" "job_status j = RJ_LEASED"
  shows "ends_job j d d'"
proof (rule ends_jobI [OF assms(2) _ job_ends(2)])
  show "db_jobs d' = tbl_update (\<lambda>r. job_id r = job_id j) (job_completed clk) (db_jobs d)"
    using assms(1) unfolding promote_def
    by (auto simp: set_job_def uuid4_def Let_def split: sum.splits dest!: bump_knowledge_frame)
qed

lemma evaluate_job_ends:
  assumes "evaluate_job env clk utc j snap c (d, w) = Inr (o', d', w')" "job_status j = RJ_LEASED"
  shows "ends_job j d d'"
proof -
  obtain rules where r: "rules_table (we_host env) (cs_claim_type_rules snap) = Inr rules"
    using assms(1) by (auto simp: evaluate_job_def split: sum.splits)
  define evidence scope where "evidence = claim_evidence d w (cl_id c)" and "scope = latest_assessed_scope d (cl_id c)"
  show ?thesis
  proof (cases "evidence = []")
    case True
    then show ?thesis using assms r insufficient_data_ends by (simp add: evaluate_job_def evidence_def)
  next
    case False
    then obtain a d1 w1 where a: "assess_claim env snap rules c scope evidence d w = Inr (a, d1, w1)"
      using assms(1) r by (auto simp: evaluate_job_def evidence_def scope_def Let_def split: sum.splits)
    have j1: "db_jobs d1 = db_jobs d" using assess_claim_frame [OF a] by auto
    have "ends_job j d1 d'"
      using assms r a False promote_ends [of env clk utc j snap c scope evidence _ a d1 w1]
      by (auto simp: evaluate_job_def evidence_def [symmetric] scope_def [symmetric] set_job_def split: option.splits if_splits
          intro: ends_jobI [OF assms(2) _ job_ends(2)] ends_jobI [OF assms(2) _ job_ends(3)])
    then show ?thesis by (simp add: ends_job_def j1)
  qed
qed

lemma process_one_job_ends:
  assumes "process_one_job env clk utc jid (d, w) = Inr (o', d', w')" "get_job d jid = Some j"
  shows "ends_job j d d'"
proof (cases "job_status j = RJ_LEASED")
  case True
  have jid: "job_id j = jid" using assms(2) unfolding get_job_def by (auto dest: tbl_get_SomeD)
  have "ends_job j d (set_job jid job_unleased d)" by (rule ends_jobI [OF True _ job_ends(1)]) (simp add: set_job_def jid)
  then show ?thesis
    using assms True missing_rows_ends evaluate_job_ends by (auto simp: process_one_job_def split: option.splits if_splits)
qed (use assms in \<open>simp add: process_one_job_def ends_job_def\<close>)

lemma block_lost_job_ends:
  assumes "block_lost_job env clk jid ec msg q d = Inr (b, d')" "get_job d jid = Some j"
  shows "ends_job j d d'"
proof (cases "job_status j = RJ_LEASED")
  case True
  have "db_jobs d' = tbl_update (\<lambda>r. job_id r = job_id j) (job_blocked clk ec msg) (db_jobs d)"
    using assms True unfolding block_lost_job_def
    by (auto simp: Let_def split: if_splits option.splits sum.splits prod.splits dest!: jobs_kept)
  then show ?thesis by (rule ends_jobI [OF True _ job_ends(3)])
qed (use assms in \<open>simp add: block_lost_job_def ends_job_def\<close>)

lemma fail_job_ends:
  assumes "fail_job env clk jitter jid e d = Inr (bt, d')" "get_job d jid = Some j"
  shows "ends_job j d d'"
proof -
  have "ends_job j d d'" if "retry_lost_job jitter jid ec msg d = (b, d')" "\<not> budget_exhausted d jid" for ec msg b
  proof (cases "job_status j = RJ_LEASED")
    case True
    have "job_attempts j < job_max_attempts j" using that(2) assms(2) by (simp add: budget_exhausted_def)
    then show ?thesis using that(1) assms(2) True
      by (intro ends_jobI [OF True _ job_ends(4)]) (auto simp: retry_lost_job_def)
  qed (use that assms(2) in \<open>simp add: retry_lost_job_def ends_job_def\<close>)
  then show ?thesis
    using assms(1) block_lost_job_ends [OF _ assms(2)]
    by (auto simp: fail_job_def split: exn.splits if_splits sum.splits prod.splits)
qed

lemma run_job_moves:
  assumes "run_job env clk utc jitter jid (r, d, w) = Inr (r', d', w')" "queue_ok d"
  shows "queue_moves d d'"
proof (cases "get_job d jid")
  case None
  then show ?thesis using assms(1) by (auto simp: run_job_def process_one_job_def intro: moves_refl)
next
  case (Some j)
  then have "job_id j = jid" unfolding get_job_def by (auto dest: tbl_get_SomeD)
  moreover have "ends_job j d d'"
    using assms(1) Some process_one_job_ends fail_job_ends by (auto simp: run_job_def split: sum.splits prod.splits)
  ultimately show ?thesis using ends_job_moves [OF _ assms(2)] Some by simp
qed

lemma due_jobs_runnable: "i \<in> set (due_jobs eff n d) \<Longrightarrow> \<exists>j\<in>set (db_jobs d). job_id j = i \<and> runnable eff (db_now d) j"
  unfolding due_jobs_def by (auto dest!: in_set_takeD)

lemma gate_jobs [simp]:
  "db_jobs (release_writer_gate ow d) = db_jobs d" "db_jobs (snd (acquire_writer_gate ow p n d)) = db_jobs d"
  by (simp_all add: release_writer_gate_def acquire_writer_gate_def Let_def)

lemma defer_moves:
  assumes "queue_ok d"
  shows "queue_moves d (defer_runnable eff n jitter d)"
proof (rule moves_update)
  show "db_jobs (defer_runnable eff n jitter d) = tbl_update (\<lambda>j. job_id j \<in> set (due_jobs eff n d))
      (\<lambda>j. j\<lparr>job_next_attempt_at := Some (db_now d + seconds DEFER_BASE_SECONDS + jitter (job_id j))\<rparr>) (db_jobs d)"
    by (simp add: defer_runnable_def)
  fix j assume j: "j \<in> set (db_jobs d)" "job_id j \<in> set (due_jobs eff n d)"
  then obtain j' where "j' \<in> set (db_jobs d)" "job_id j' = job_id j" "runnable eff (db_now d) j'" using due_jobs_runnable by blast
  then have "runnable eff (db_now d) j" using assms j(1) by (metis distinct_map inj_onD queue_ok_def)
  then show "job_move j (j\<lparr>job_next_attempt_at := Some (db_now d + seconds DEFER_BASE_SECONDS + jitter (job_id j))\<rparr>)"
    by (intro job_move.mv_defer) (simp add: runnable_def)
qed

lemma lease_moves:
  assumes "queue_ok d"
  shows "queue_moves d (lease_jobs ids n d)"
proof (rule moves_update)
  show "db_jobs (lease_jobs ids n d) = tbl_update (\<lambda>j. job_id j \<in> set ids \<and> job_status j \<in> {RJ_QUEUED, RJ_RETRY})
      (job_leased (db_now d) n) (db_jobs d)"
    by (simp add: lease_jobs_def)
  fix j assume "j \<in> set (db_jobs d)" "job_id j \<in> set ids \<and> job_status j \<in> {RJ_QUEUED, RJ_RETRY}"
  then show "job_move j (job_leased (db_now d) n j)"
    using assms by (intro job_move.mv_lease) (auto simp: queue_ok_def list_all_iff job_ok_def)
qed

lemma queue_moves_cong: "queue_moves d1 d' \<Longrightarrow> db_jobs d1 = db_jobs d \<Longrightarrow> db_jobs d'' = db_jobs d' \<Longrightarrow> queue_moves d d''"
  by (simp add: queue_moves_def)

lemma queue_ok_cong: "db_jobs d' = db_jobs d \<Longrightarrow> queue_ok d' = queue_ok d"
  by (simp add: queue_ok_def one_active_job_def)

lemma admit_batch_moves:
  assumes "admit_batch n ls gs jitter (d, w) = Inr (ids, d')" "queue_ok d"
  shows "queue_moves d d'"
proof -
  obtain b d1 where a: "acquire_writer_gate worker_owner GATE_PRIORITY_WORKER gs d = (b, d1)" by fastforce
  have j: "db_jobs d1 = db_jobs d" using gate_jobs(2) [of worker_owner GATE_PRIORITY_WORKER gs d] a by simp
  then have "queue_ok d1" using assms(2) queue_ok_cong by blast
  then have "queue_moves d1 d'"
    using assms(1) a defer_moves lease_moves moves_refl [OF gate_jobs(1)]
    by (auto simp: admit_batch_def Let_def split: if_splits option.splits)
  then show ?thesis using j by (auto intro: queue_moves_cong)
qed

lemma recover_job_moves:
  assumes "queue_ok d"
  shows "queue_moves d (recover_job jid d)"
proof (cases "get_job d jid")
  case None
  then show ?thesis by (simp add: recover_job_def moves_refl)
next
  case (Some j)
  then have jid: "job_id j = jid" unfolding get_job_def by (auto dest: tbl_get_SomeD)
  have "ends_job j d (recover_job jid d)"
  proof (cases "job_status j = RJ_LEASED")
    case True
    then show ?thesis using Some jid by (intro ends_jobI [OF True _ job_ends(1)]) (simp add: recover_job_def set_job_def)
  qed (simp add: recover_job_def Some ends_job_def)
  then show ?thesis using ends_job_moves [OF _ assms] Some jid by simp
qed

lemma recover_ok: "queue_ok d \<Longrightarrow> queue_ok (snd (recover_expired_leases d))"
proof -
  have "queue_ok d \<Longrightarrow> queue_ok (fold recover_job ids d)" for ids
    by (induction ids arbitrary: d) (auto intro: queue_moves_ok [OF recover_job_moves])
  then show "queue_ok d \<Longrightarrow> queue_ok (snd (recover_expired_leases d))" by (simp add: recover_expired_leases_def Let_def)
qed

subsection \<open>The queue over time\<close>

text \<open>
  The transactions that reach the queue: the cascade and the commit enqueue, the worker admits a batch, runs a job and
  recovers expired leases; any other transaction, and the clock, leave the rows alone.  A transaction that raises is
  rolled back, and an insert under a used primary key raises.
\<close>

inductive queue_step :: "world \<Rightarrow> world \<Rightarrow> bool" where
  st_enqueue: "db_uuid4 d (db_draws d) \<notin> job_id ` set (db_jobs d) \<Longrightarrow> queue_step (d, w) (snd (enqueue_job snap reason c d), w)"
| st_carry: "db_uuid4 d (db_draws d) \<notin> job_id ` set (db_jobs d) \<Longrightarrow> queue_step (d, w) (carry_job snap c d, w)"
| st_admit: "admit_batch n ls gs jitter (d, w) = Inr (ids, d') \<Longrightarrow> queue_step (d, w) (d', w)"
| st_run: "run_job env clk utc jt jid (r, d, w) = Inr (r', d', w') \<Longrightarrow> queue_step (d, w) (d', w')"
| st_recover: "queue_step (d, w) (snd (recover_expired_leases d), w)"
| st_other: "db_jobs d' = db_jobs d \<Longrightarrow> queue_step (d, w) (d', w')"

definition job_terminal :: "job_row \<Rightarrow> bool" where
  "job_terminal j \<longleftrightarrow> job_status j \<in> {RJ_BLOCKED, RJ_COMPLETED}"

definition terminal_jobs :: "db \<Rightarrow> job_row set" where
  "terminal_jobs d = {j \<in> set (db_jobs d). job_terminal j}"

lemma rows_terminal: "list_all2 job_move t t' \<Longrightarrow> {j \<in> set t. job_terminal j} \<subseteq> {j \<in> set t'. job_terminal j}"
  by (induction rule: list_all2_induct) (auto simp: job_terminal_def dest: terminal_stays)

lemma moves_terminal: "queue_moves d d' \<Longrightarrow> terminal_jobs d \<subseteq> terminal_jobs d'"
  unfolding queue_moves_def terminal_jobs_def by (rule rows_terminal)

lemma append_queued_ok:
  assumes "queue_ok d" "\<not> has_active_job c snap d" "i \<notin> job_id ` set (db_jobs d)" "db_jobs d' = db_jobs d @ [queued_job i c snap reason now]"
  shows "queue_ok d' \<and> terminal_jobs d \<subseteq> terminal_jobs d'"
proof -
  have "one_active_job d'" using assms(1,4) no_active_job_count [OF assms(2)]
    by (auto simp: queue_ok_def one_active_job_def queued_job_def)
  then show ?thesis using assms(1,3,4) by (auto simp: queue_ok_def job_ok_def queued_job_def terminal_jobs_def job_terminal_def)
qed

lemma enqueue_ok:
  assumes "queue_ok d" "db_uuid4 d (db_draws d) \<notin> job_id ` set (db_jobs d)"
  shows "queue_ok (snd (enqueue_job snap reason c d)) \<and> terminal_jobs d \<subseteq> terminal_jobs (snd (enqueue_job snap reason c d))"
proof (cases "has_active_job c snap d")
  case False
  show ?thesis by (rule append_queued_ok [OF assms(1) False assms(2)]) (simp add: enqueue_job_def uuid4_def False)
qed (use assms(1) in \<open>simp add: enqueue_job_def\<close>)

lemma carry_ok:
  assumes "queue_ok d" "db_uuid4 d (db_draws d) \<notin> job_id ` set (db_jobs d)"
  shows "queue_ok (carry_job snap c d) \<and> terminal_jobs d \<subseteq> terminal_jobs (carry_job snap c d)"
proof (cases "has_active_job c snap d")
  case False
  show ?thesis by (rule append_queued_ok [OF assms(1) False assms(2)]) (simp add: carry_job_def uuid4_def False)
qed (use assms(1) in \<open>simp add: carry_job_def\<close>)

lemma recover_terminal: "queue_ok d \<Longrightarrow> terminal_jobs d \<subseteq> terminal_jobs (snd (recover_expired_leases d))"
proof -
  have "queue_ok d \<Longrightarrow> terminal_jobs d \<subseteq> terminal_jobs (fold recover_job ids d)" for ids
  proof (induction ids arbitrary: d)
    case (Cons i ids)
    note m = recover_job_moves [OF Cons.prems, of i]
    show ?case using Cons.IH [OF queue_moves_ok [OF m Cons.prems]] moves_terminal [OF m] by simp
  qed simp
  then show "queue_ok d \<Longrightarrow> terminal_jobs d \<subseteq> terminal_jobs (snd (recover_expired_leases d))"
    by (simp add: recover_expired_leases_def Let_def)
qed

lemma queue_step_ok: "queue_step x y \<Longrightarrow> queue_ok (fst x) \<Longrightarrow> queue_ok (fst y) \<and> terminal_jobs (fst x) \<subseteq> terminal_jobs (fst y)"
proof (induction rule: queue_step.induct)
  case (st_admit n ls gs jitter d w ids d')
  then have "queue_moves d d'" using admit_batch_moves by simp
  then show ?case using st_admit queue_moves_ok moves_terminal by simp
next
  case (st_run env clk utc jt jid r d w r' d' w')
  then have "queue_moves d d'" using run_job_moves by simp
  then show ?case using st_run queue_moves_ok moves_terminal by simp
next
  case (st_other d' d w w')
  then show ?case using queue_ok_cong [of d' d] by (simp add: terminal_jobs_def)
qed (simp_all add: enqueue_ok carry_ok recover_ok recover_terminal)

text \<open>
  C12.  The queue of reassessment jobs, over every sequence of its transactions: ids stay unique, one claim has at most
  one active job per configuration, every row satisfies the CHECK constraints of the table, exactly leased rows have a
  lease, attempts stay within the budget and a waiting row always has an attempt left; and a blocked or completed row is
  never touched again.
\<close>

theorem reassessment_queue_invariant:
  assumes "queue_step\<^sup>*\<^sup>* x y" "queue_ok (fst x)"
  shows "queue_ok (fst y) \<and> terminal_jobs (fst x) \<subseteq> terminal_jobs (fst y)"
  using assms
proof (induction rule: rtranclp_induct)
  case (step y z)
  then show ?case using queue_step_ok by blast
qed simp

subsection \<open>The retry budget\<close>

text \<open>A round in which the job is leased at \<open>now\<close> and its evaluation raises \<open>e\<close>.\<close>

record failed_round =
  fr_now :: instant
  fr_lease_seconds :: int
  fr_clock :: instant
  fr_jitter :: duration
  fr_exn :: exn

definition failing_round :: "worker_env \<Rightarrow> uuid \<Rightarrow> failed_round \<Rightarrow> db \<Rightarrow> exn + db" where
  "failing_round env jid r d =
     (case fail_job env (fr_clock r) (fr_jitter r) jid (fr_exn r) (lease_jobs [jid] (fr_lease_seconds r) (d\<lparr>db_now := fr_now r\<rparr>)) of
        Inl e \<Rightarrow> Inl e | Inr (_, d') \<Rightarrow> Inr d')"

fun failing_rounds :: "worker_env \<Rightarrow> uuid \<Rightarrow> failed_round list \<Rightarrow> db \<Rightarrow> exn + db" where
  "failing_rounds env jid [] d = Inr d"
| "failing_rounds env jid (r # rs) d =
     (case failing_round env jid r d of Inl e \<Rightarrow> Inl e | Inr d' \<Rightarrow> failing_rounds env jid rs d')"

definition is_rule_error :: "exn \<Rightarrow> bool" where
  "is_rule_error e \<longleftrightarrow> (\<exists>m. e = RuleValidationError m)"

lemma lease_get_job:
  assumes "queue_ok d" "get_job d jid = Some j" "job_status j \<in> {RJ_QUEUED, RJ_RETRY}"
  shows "get_job (lease_jobs [jid] n d) jid = Some (job_leased (db_now d) n j)"
  using assms unfolding get_job_def lease_jobs_def
  by (auto simp: tbl_get_def tbl_update_def find_Some_iff job_rows)

lemma fail_job_other:
  "\<not> is_rule_error e \<Longrightarrow> fail_job env clk jt jid e d =
     (if budget_exhausted d jid then
        (case block_lost_job env clk jid ''retry_budget_exhausted'' (take 1500 (exn_text e)) False d of Inl e' \<Rightarrow> Inl e'
         | Inr (b, d') \<Rightarrow> Inr ((of_bool b, 0), d'))
      else case retry_lost_job jt jid (exn_name e) (take 1500 (exn_text e)) d of (b, d') \<Rightarrow> Inr ((0, of_bool b), d'))"
  by (cases e) (simp_all add: fail_job_def is_rule_error_def)

lemma get_job_set:
  "get_job d jid = Some j \<Longrightarrow> db_jobs d' = tbl_update (\<lambda>r. job_id r = jid) f (db_jobs d) \<Longrightarrow> (\<And>r. job_id (f r) = job_id r) \<Longrightarrow>
   get_job d' jid = Some (f j)"
  unfolding get_job_def by (simp add: tbl_get_update_id)

lemma set_head_invalid_no_pending:
  assumes "set_head_invalid clk c snap d = (prior, d1)" "unique_heads d" "h \<in> set (db_heads d1)" "is_head c snap h"
  shows "hd_assessment_state h \<noteq> AS_PENDING"
proof (cases "find (is_head c snap) (db_heads d)")
  case None
  then have "d1 = d" using assms(1) by (simp add: set_head_invalid_def)
  then show ?thesis using None assms(3,4) unfolding find_None_iff by blast
next
  case (Some r)
  show ?thesis
  proof (cases "hd_assessment_state r \<in> {AS_PENDING, AS_INVALID}")
    case True
    then have d1: "d1 = d\<lparr>db_heads := tbl_update (is_head c snap)
        (\<lambda>r. r\<lparr>hd_assessment_state := AS_INVALID, hd_updated_at := clk\<rparr>) (db_heads d)\<rparr>"
      using assms(1) Some by (auto simp: set_head_invalid_def)
    have "hd_assessment_state h = AS_INVALID \<or> \<not> is_head c snap h" using assms(3) by (auto simp: d1 set_tbl_update)
    then show ?thesis using assms(4) by auto
  next
    case False
    then have "d1 = d" using assms(1) Some by (auto simp: set_head_invalid_def)
    then show ?thesis using unique_head [OF assms(2) Some] assms(3,4) False by blast
  qed
qed

lemma set_head_invalid_revision: "set_head_invalid clk c snap d = (prior, d1) \<Longrightarrow> get_revision d1 s = get_revision d s"
  by (auto simp: set_head_invalid_def get_revision_def split: option.splits if_splits)

lemma bump_if_pending_heads: "bump_if_pending p d = Inr d' \<Longrightarrow> db_heads d' = db_heads d"
  using bump_knowledge_frame by (auto simp: bump_if_pending_def split: if_splits)

lemma block_lost_job_blocks:
  assumes "get_job d jid = Some j" "job_status j = RJ_LEASED" "unique_heads d" "get_revision d ''knowledge'' \<noteq> None"
  obtains d' where "block_lost_job env clk jid ec msg wq d = Inr (True, d')" "get_job d' jid = Some (job_blocked clk ec msg j)"
    "\<And>h. h \<in> set (db_heads d') \<Longrightarrow> is_head (job_claim_id j) (job_target_config_snapshot_id j) h \<Longrightarrow> hd_assessment_state h \<noteq> AS_PENDING"
proof -
  have jid: "job_id j = jid" using assms(1) unfolding get_job_def by (auto dest: tbl_get_SomeD)
  obtain prior d1 where p: "set_head_invalid clk (job_claim_id j) (job_target_config_snapshot_id j) d = (prior, d1)" by fastforce
  have "\<exists>d2. bump_if_pending prior d1 = Inr d2"
    using assms(4) set_head_invalid_revision [OF p] by (auto simp: bump_if_pending_def bump_knowledge_def)
  then obtain d2 where b: "bump_if_pending prior d1 = Inr d2" by blast
  define q where "q = (case (if wq then tbl_get cl_id (job_claim_id j) (db_claims d2) else None) of
      None \<Rightarrow> (None, d2)
    | Some c \<Rightarrow> (case enqueue_insufficient_question env c (job_target_config_snapshot_id j) d2 of (q, d') \<Rightarrow> (Some q, d')))"
  obtain qid d3 where q3: "q = (qid, d3)" by fastforce
  have same: "db_heads d3 = db_heads d2 \<and> db_jobs d3 = db_jobs d2"
    using q3 insufficient_question_frame by (auto simp: q_def split: option.splits prod.splits if_splits)
  let ?d = "block_job clk j ec msg prior qid d3"
  have "block_lost_job env clk jid ec msg wq d = Inr (True, ?d)"
    using assms(1,2) p b q3 unfolding q_def by (simp add: block_lost_job_def)
  moreover have "get_job ?d jid = Some (job_blocked clk ec msg j)"
    using set_head_invalid_jobs [OF p] bump_if_pending_jobs [OF b] jid same
    by (intro get_job_set [OF assms(1)]) (simp, simp add: job_rows)
  moreover have "hd_assessment_state h \<noteq> AS_PENDING"
    if "h \<in> set (db_heads ?d)" "is_head (job_claim_id j) (job_target_config_snapshot_id j) h" for h
    using that set_head_invalid_no_pending [OF p assms(3)] bump_if_pending_heads [OF b] same by simp
  ultimately show ?thesis using that by blast
qed

definition round_ready :: "db \<Rightarrow> bool" where
  "round_ready d \<longleftrightarrow> queue_ok d \<and> unique_heads d \<and> get_revision d ''knowledge'' \<noteq> None"

text \<open>How a round ends that blocks the job.\<close>

definition blocked_after :: "string \<Rightarrow> job_row \<Rightarrow> db \<Rightarrow> job_row \<Rightarrow> bool" where
  "blocked_after ec j d' j' \<longleftrightarrow> job_status j' = RJ_BLOCKED \<and> job_error_class j' = Some ec \<and>
     (\<forall>h\<in>set (db_heads d'). is_head (job_claim_id j) (job_target_config_snapshot_id j) h \<longrightarrow> hd_assessment_state h \<noteq> AS_PENDING)"

lemma failing_round_job:
  assumes "round_ready d" "get_job d jid = Some j" "job_status j \<in> {RJ_QUEUED, RJ_RETRY}"
  shows "if \<not> is_rule_error (fr_exn r) \<and> job_attempts j + 1 < job_max_attempts j
    then \<exists>d' j'. failing_round env jid r d = Inr d' \<and> round_ready d' \<and> get_job d' jid = Some j' \<and> job_status j' = RJ_RETRY \<and>
      job_attempts j' = job_attempts j + 1 \<and> job_max_attempts j' = job_max_attempts j \<and>
      job_claim_id j' = job_claim_id j \<and> job_target_config_snapshot_id j' = job_target_config_snapshot_id j
    else \<exists>d' j'. failing_round env jid r d = Inr d' \<and> get_job d' jid = Some j' \<and> job_attempts j' = job_attempts j + 1 \<and>
      blocked_after (if is_rule_error (fr_exn r) then ''rule_validation'' else ''retry_budget_exhausted'') j d' j'"
proof -
  define d0 where "d0 = d\<lparr>db_now := fr_now r\<rparr>"
  define d1 where "d1 = lease_jobs [jid] (fr_lease_seconds r) d0"
  define j1 where "j1 = job_leased (fr_now r) (fr_lease_seconds r) j"
  have q0: "queue_ok d0" "get_job d0 jid = Some j" "db_now d0 = fr_now r"
    using assms(1,2) queue_ok_cong [of d0 d] by (simp_all add: d0_def round_ready_def get_job_def)
  have j1: "get_job d1 jid = Some j1" using lease_get_job [OF q0(1,2) assms(3)] q0(3) by (simp add: d1_def j1_def)
  have q1: "queue_ok d1" using queue_moves_ok [OF lease_moves] q0(1) by (simp add: d1_def)
  have h1: "unique_heads d1" "get_revision d1 ''knowledge'' \<noteq> None"
    using assms(1) by (simp_all add: round_ready_def d1_def d0_def lease_jobs_def unique_heads_def get_revision_def)
  have st: "job_status j1 = RJ_LEASED" by (simp add: j1_def job_rows)
  have fr: "failing_round env jid r d = (case fail_job env (fr_clock r) (fr_jitter r) jid (fr_exn r) d1 of Inl e \<Rightarrow> Inl e | Inr (_, d') \<Rightarrow> Inr d')"
    by (simp add: failing_round_def d1_def d0_def)
  note blocks = block_lost_job_blocks [OF j1 st h1]
  show ?thesis
  proof (cases "is_rule_error (fr_exn r)")
    case True
    then obtain m where m: "fr_exn r = RuleValidationError m" by (auto simp: is_rule_error_def)
    obtain d' where "block_lost_job env (fr_clock r) jid ''rule_validation'' m True d1 = Inr (True, d')"
      "get_job d' jid = Some (job_blocked (fr_clock r) ''rule_validation'' m j1)"
      "\<And>h. h \<in> set (db_heads d') \<Longrightarrow> is_head (job_claim_id j1) (job_target_config_snapshot_id j1) h \<Longrightarrow> hd_assessment_state h \<noteq> AS_PENDING"
      by (rule blocks [where clk = "fr_clock r" and ec = "''rule_validation''" and msg = m and wq = True]) blast
    then show ?thesis using True by (auto simp: fr m fail_job_def blocked_after_def j1_def job_rows)
  next
    case nr: False
    show ?thesis
    proof (cases "job_attempts j + 1 < job_max_attempts j")
      case True
      then have b: "\<not> budget_exhausted d1 jid" using j1 by (simp add: budget_exhausted_def j1_def job_rows)
      let ?d = "retry_job (fr_jitter r) j1 (exn_name (fr_exn r)) (take 1500 (exn_text (fr_exn r))) d1"
      have f: "fail_job env (fr_clock r) (fr_jitter r) jid (fr_exn r) d1 = Inr ((0, 1), ?d)"
        using b j1 st by (simp add: fail_job_other [OF nr] retry_lost_job_def)
      have jid: "job_id j1 = jid" using j1 unfolding get_job_def by (auto dest: tbl_get_SomeD)
      have g: "get_job ?d jid = Some (job_retried (db_now d1) (fr_jitter r) (exn_name (fr_exn r)) (take 1500 (exn_text (fr_exn r))) j1)"
        using jid by (intro get_job_set [OF j1]) (simp_all only: retry_job_frame, simp add: job_rows)
      have "queue_ok ?d" using queue_moves_ok [OF ends_job_moves [OF fail_job_ends [OF f j1] q1] q1] j1 jid by simp
      then have "round_ready ?d" using h1 by (simp add: round_ready_def unique_heads_def get_revision_def)
      then show ?thesis using nr True f g by (auto simp: fr j1_def job_rows)
    next
      case False
      then have "budget_exhausted d1 jid" using j1 by (simp add: budget_exhausted_def j1_def job_rows)
      moreover obtain d' where "block_lost_job env (fr_clock r) jid ''retry_budget_exhausted'' (take 1500 (exn_text (fr_exn r))) False d1 = Inr (True, d')"
        "get_job d' jid = Some (job_blocked (fr_clock r) ''retry_budget_exhausted'' (take 1500 (exn_text (fr_exn r))) j1)"
        "\<And>h. h \<in> set (db_heads d') \<Longrightarrow> is_head (job_claim_id j1) (job_target_config_snapshot_id j1) h \<Longrightarrow> hd_assessment_state h \<noteq> AS_PENDING"
        by (rule blocks [where clk = "fr_clock r" and ec = "''retry_budget_exhausted''" and wq = False]) blast
      ultimately show ?thesis using nr False by (auto simp: fr fail_job_other [OF nr] blocked_after_def j1_def job_rows)
    qed
  qed
qed

text \<open>
  C13.  The retry budget: take rounds in each of which the evaluation of a waiting job raises, as many as it has
  attempts left or fewer, and in none before the last a rule error.  Every round is counted once, and after them the
  job waits for a retry, unless the last round raised a rule error, which blocks the job at once as
  \<open>rule_validation\<close>, or spent the last attempt, which blocks it as \<open>retry_budget_exhausted\<close>: not earlier and not later.
  When the job is blocked, the head of its claim under its configuration is not left pending.
\<close>

theorem failing_job_is_blocked_after_its_budget:
  assumes "round_ready d" "get_job d jid = Some j" "job_status j \<in> {RJ_QUEUED, RJ_RETRY}"
    and "\<forall>r\<in>set (butlast rs). \<not> is_rule_error (fr_exn r)" "rs \<noteq> []" "int (length rs) \<le> job_max_attempts j - job_attempts j"
  shows "\<exists>d' j'. failing_rounds env jid rs d = Inr d' \<and> get_job d' jid = Some j' \<and> job_attempts j' = job_attempts j + int (length rs) \<and>
     (if is_rule_error (fr_exn (last rs)) then blocked_after ''rule_validation'' j d' j'
      else if int (length rs) = job_max_attempts j - job_attempts j then blocked_after ''retry_budget_exhausted'' j d' j'
      else job_status j' = RJ_RETRY)"
  using assms
proof (induction rs arbitrary: d j)
  case (Cons r rs)
  note rd = failing_round_job [OF Cons.prems(1-3), of r env]
  show ?case
  proof (cases "rs = []")
    case True
    then show ?thesis using rd Cons.prems(6) by (auto split: if_splits)
  next
    case False
    then have "1 \<le> int (length rs)" by (cases rs) simp_all
    then have "job_attempts j + 1 < job_max_attempts j" using Cons.prems(6) by simp
    then obtain d' j' where d': "failing_round env jid r d = Inr d'" "round_ready d'" "get_job d' jid = Some j'" "job_status j' = RJ_RETRY"
      "job_attempts j' = job_attempts j + 1" "job_max_attempts j' = job_max_attempts j"
      "job_claim_id j' = job_claim_id j" "job_target_config_snapshot_id j' = job_target_config_snapshot_id j"
      using rd Cons.prems(4) False by auto
    have l: "int (length rs) \<le> job_max_attempts j' - job_attempts j'" "job_status j' \<in> {RJ_QUEUED, RJ_RETRY}"
      "\<forall>r\<in>set (butlast rs). \<not> is_rule_error (fr_exn r)" using d' Cons.prems(4,6) False by simp_all
    have eq: "int (length rs) = job_max_attempts j' - job_attempts j' \<longleftrightarrow> int (length (r # rs)) = job_max_attempts j - job_attempts j"
      "job_attempts j' + int (length rs) = job_attempts j + int (length (r # rs))" "last (r # rs) = last rs" using d' False by auto
    have b: "blocked_after ec j' = blocked_after ec j" for ec using d'(7,8) by (simp add: blocked_after_def fun_eq_iff)
    have "failing_rounds env jid (r # rs) d = failing_rounds env jid rs d'" using d'(1) by simp
    then show ?thesis using Cons.IH [OF d'(2,3) l(2,3) False l(1)] unfolding eq b by (simp only:)
  qed
qed simp

subsection \<open>Examples\<close>

definition example_job :: job_row where
  "example_job = (queued_job 5 2 1 ''cascade'' 0)\<lparr>job_max_attempts := 2\<rparr>"

definition pending_head :: head_row where
  "pending_head = \<lparr>hd_claim_id = 2, hd_config_snapshot_id = 1, hd_assessment_state = AS_PENDING, hd_current_assessment_id = None,
     hd_epistemic_status = None, hd_prepared_by = ''session'', hd_updated_at = 0\<rparr>"

definition queue_db :: db where
  "queue_db = empty_db\<lparr>db_jobs := [example_job], db_heads := [pending_head]\<rparr>"

definition quiet_env :: worker_env where
  "quiet_env = \<lparr>we_host = \<lparr>host_frepr = (\<lambda>x. []), host_sha256 = (\<lambda>x. x)\<rparr>, we_urlsplit = (\<lambda>s. Inl (ValueError [])), we_iso = no_reader,
     we_uuid5 = (\<lambda>ns s. length s), we_insufficient = []\<rparr>"

definition dead_round :: failed_round where
  "dead_round = \<lparr>fr_now = 10, fr_lease_seconds = 300, fr_clock = 11, fr_jitter = 0, fr_exn = RuntimeError ''x''\<rparr>"

lemma queue_db_ready: "round_ready queue_db" "get_job queue_db 5 = Some example_job"
  by (simp_all add: round_ready_def queue_ok_def one_active_job_def unique_heads_def get_revision_def get_job_def queue_db_def empty_db_def
      example_job_def queued_job_def job_ok_def)

theorem failing_job_is_blocked_after_its_budget_witness:
  "\<exists>d' j'. failing_rounds quiet_env 5 [dead_round, dead_round] queue_db = Inr d' \<and> get_job d' 5 = Some j' \<and> job_status j' = RJ_BLOCKED"
proof -
  have "job_status example_job \<in> {RJ_QUEUED, RJ_RETRY}" "\<forall>r\<in>set (butlast [dead_round, dead_round]). \<not> is_rule_error (fr_exn r)"
    "int (length [dead_round, dead_round]) \<le> job_max_attempts example_job - job_attempts example_job"
    by (simp_all add: example_job_def queued_job_def dead_round_def is_rule_error_def)
  from failing_job_is_blocked_after_its_budget [OF queue_db_ready this(1,2) _ this(3), of quiet_env] show ?thesis
    by (auto simp: example_job_def queued_job_def blocked_after_def is_rule_error_def dead_round_def)
qed

theorem reassessment_queue_invariant_witness:
  "\<exists>w :: research. \<exists>y. queue_step\<^sup>*\<^sup>* (queue_db, w) y \<and> queue_ok (fst y) \<and> db_jobs (fst y) \<noteq> db_jobs queue_db"
proof -
  obtain w :: research where True by blast
  have s: "queue_step (queue_db, w) (snd (enqueue_job 1 ''cascade'' 3 queue_db), w)"
    by (rule queue_step.st_enqueue) (simp add: queue_db_def empty_db_def example_job_def queued_job_def)
  have "queue_ok (fst (queue_db, w))" using queue_db_ready by (simp add: round_ready_def)
  from reassessment_queue_invariant [OF r_into_rtranclp [of queue_step, OF s] this] s
  have "queue_step\<^sup>*\<^sup>* (queue_db, w) (snd (enqueue_job 1 ''cascade'' 3 queue_db), w) \<and> queue_ok (snd (enqueue_job 1 ''cascade'' 3 queue_db))"
    by auto
  moreover have "db_jobs (snd (enqueue_job 1 ''cascade'' 3 queue_db)) \<noteq> db_jobs queue_db"
    by (simp add: enqueue_job_def has_active_job_def uuid4_def queue_db_def example_job_def queued_job_def)
  ultimately show ?thesis by (intro exI [of _ w] exI [of _ "(snd (enqueue_job 1 ''cascade'' 3 queue_db), w)"]) simp
qed

end
