(* ===== verification/ReassessmentResults.thy ===== *)
theory ReassessmentResults
  imports ReassessmentQueue
begin

section \<open>What the reassessment worker writes\<close>

text \<open>The properties of a job and of a batch: what a promoted head carries, what a job may touch, and to whom a batch yields.\<close>

subsection \<open>One job\<close>

text \<open>
  C11.  A job of the reassessment worker, succeeding or failing, changes at most the head of its own claim under its
  own configuration and only when that head is not current, so a newer assessment is never overwritten; the knowledge
  revision moves by one exactly when the state of a head moved and is untouched otherwise; and no other job changes.
\<close>

theorem reassessment_never_overwrites_a_current_head:
  assumes "run_job env clk utc jitter jid (r, d, w) = Inr (r', d', w')" "get_job d jid = Some j" "unique_heads d"
  shows "job_effect jid (job_claim_id j) (job_target_config_snapshot_id j) d d'"
  using assms by (rule run_job_effect)

definition no_current :: "uuid \<Rightarrow> uuid \<Rightarrow> db \<Rightarrow> bool" where
  "no_current c snap d \<longleftrightarrow> (\<forall>h\<in>set (db_heads d). is_head c snap h \<longrightarrow> hd_assessment_state h \<noteq> AS_CURRENT)"

lemma no_current_cong: "db_heads d' = db_heads d \<Longrightarrow> no_current c snap d' = no_current c snap d"
  by (simp add: no_current_def)

lemma set_head_invalid_no_current:
  "set_head_invalid clk c snap d = (p, d1) \<Longrightarrow> no_current c' snap' d \<Longrightarrow> no_current c' snap' d1"
  by (auto simp: set_head_invalid_def no_current_def set_tbl_update is_head_def split: option.splits if_splits)

lemma missing_rows_no_current:
  assumes "missing_rows env clk j eff hs claim (d, w) = Inr (o', d', w')" "no_current c snap d"
  shows "no_current c snap d'"
proof (cases claim)
  case None
  then show ?thesis using assms by (auto simp: missing_rows_def no_current_def)
next
  case (Some cl)
  obtain q d1 where q: "enqueue_insufficient_question env cl eff d = (q, d1)" by fastforce
  obtain prior d2 where p: "set_head_invalid clk (cl_id cl) eff d1 = (prior, d2)" by fastforce
  obtain d3 where b: "bump_if_pending prior d2 = Inr d3" and d': "\<exists>m. d' = block_job clk j ''claim_or_config_missing'' m prior (Some q) d3"
    using assms(1) Some q p by (auto simp: missing_rows_def split: sum.splits)
  have "no_current c snap d2"
    using set_head_invalid_no_current [OF p] assms(2) insufficient_question_frame [OF q] no_current_cong [of d1 d] by blast
  then show ?thesis using d' bump_if_pending_heads [OF b] by (auto simp: no_current_def)
qed

lemma insufficient_data_no_current:
  assumes "insufficient_data env clk j cl eff (d, w) = Inr (o', d', w')" "no_current c snap d"
  shows "no_current c snap d'"
proof -
  obtain prior d1 where p: "set_head_invalid clk (cl_id cl) eff d = (prior, d1)" by fastforce
  obtain d2 where b: "bump_if_pending prior d1 = Inr d2" using assms(1) p by (auto simp: insufficient_data_def split: sum.splits)
  obtain q d3 where q: "enqueue_insufficient_question env cl eff d2 = (q, d3)" by fastforce
  have "db_heads d' = db_heads d3" using assms(1) p b q by (auto simp: insufficient_data_def)
  then have "db_heads d' = db_heads d1" using insufficient_question_frame [OF q] bump_if_pending_heads [OF b] by simp
  then show ?thesis using set_head_invalid_no_current [OF p assms(2)] no_current_cong by blast
qed

text \<open>
  The evidence as the rules see it.  Its independence group is the group of its source in the source graph of the
  claim, else the group of its environment, else the shared group; its relation is the best relation of its environment
  to another environment of the claim; and it is resolved when it is a resolved counter.
\<close>

definition source_group :: "worker_env \<Rightarrow> research \<Rightarrow> uuid \<Rightarrow> evidence_row \<Rightarrow> string option" where
  "source_group env w c e =
     (case rs_assembly w c of None \<Rightarrow> None | Some a \<Rightarrow>
      case evd_source_id e of None \<Rightarrow> None | Some s \<Rightarrow>
      if s \<in> set (sa_member_ids a) then
        (case group_source_graph (we_urlsplit env) (we_host env) (sa_inputs a) (sa_edges a) (sa_corrections a) of
           Some (Inr res) \<Rightarrow> map_of (ir_groups res) s | _ \<Rightarrow> None)
      else None)"

definition claim_environments :: "db \<Rightarrow> env_store \<Rightarrow> uuid \<Rightarrow> env_manifest list" where
  "claim_environments d st c =
     filter (\<lambda>v. \<exists>e\<in>set (db_evidence d). evd_claim_id e = c \<and> evd_environment_manifest_id e = Some (em_id v)) (env_manifests st)"

definition evidence_environment :: "db \<Rightarrow> env_store \<Rightarrow> uuid \<Rightarrow> evidence_row \<Rightarrow> env_manifest option" where
  "evidence_environment d st c e =
     (case evd_environment_manifest_id e of None \<Rightarrow> None | Some m \<Rightarrow> find (\<lambda>v. em_id v = m) (claim_environments d st c))"

definition best_relation :: "host \<Rightarrow> env_manifest \<Rightarrow> env_manifest list \<Rightarrow> env_relation \<Rightarrow> bool" where
  "best_relation h v others r \<longleftrightarrow> (r = Rel_none \<longleftrightarrow> others = [])
     \<and> (others \<noteq> [] \<longrightarrow> r \<in> classify_pair h v ` set others)
     \<and> (\<forall>x\<in>set others. env_relation_rank (classify_pair h v x) \<le> env_relation_rank r)"

definition seen_as :: "worker_env \<Rightarrow> db \<Rightarrow> research \<Rightarrow> uuid \<Rightarrow> evidence_row \<Rightarrow> evaluated_evidence \<Rightarrow> bool" where
  "seen_as env d w c e v \<longleftrightarrow>
     ee_identity_hash v = evd_identity_hash e \<and> ee_kind v = evidence_kind_value (evd_evidence_kind e)
     \<and> ee_relation v = evidence_relation_value (evd_relation e) \<and> ee_scope v = evd_scope e
     \<and> (ee_resolved v \<longleftrightarrow> evd_id e \<in> set (rs_resolved_counters w))
     \<and> ee_independence_group v =
         (case source_group env w c e of Some g \<Rightarrow> g
          | None \<Rightarrow> (case evidence_environment d (rs_env w) c e of Some m \<Rightarrow> environment_group (we_host env) m
              | None \<Rightarrow> UNTRACKED_GROUP))
     \<and> (case evidence_environment d (rs_env w) c e of None \<Rightarrow> ee_env_relation v = ''none''
        | Some m \<Rightarrow> (\<exists>r. ee_env_relation v = env_relation_value r \<and>
            best_relation (we_host env) m (filter (\<lambda>x. em_id x \<noteq> em_id m) (claim_environments d (rs_env w) c)) r))"

lemma map_of_find: "map_of (map (\<lambda>v. (key v, f v)) xs) k = map_option f (find (\<lambda>v. key v = k) xs)"
  by (induction xs) auto

lemma environment_entry:
  assumes "build_environment_independence_snapshot h c rh d st = ((i, m), d1, st1)"
  shows "map_of m k = map_option (\<lambda>v. (environment_group h v,
      fst (strongest_pair_relation h v (filter (\<lambda>x. em_id x \<noteq> em_id v) (claim_environments d st c)))))
      (find (\<lambda>v. em_id v = k) (claim_environments d st c))"
proof -
  have ids: "x \<in> set (claim_manifest_ids d c) \<longleftrightarrow>
      (\<exists>e\<in>set (db_evidence d). evd_claim_id e = c \<and> evd_environment_manifest_id e = Some x)" for x
    by (force simp: claim_manifest_ids_def List.map_filter_def)
  have views: "claim_environments d st c = filter (\<lambda>v. em_id v \<in> set (claim_manifest_ids d c)) (env_manifests st)"
    by (simp add: claim_environments_def ids)
  show ?thesis
  proof (cases "claim_manifest_ids d c = []")
    case True
    then show ?thesis using assms views by (simp add: build_environment_independence_snapshot_def)
  next
    case False
    then obtain sid where "m = map (\<lambda>mb. (mb_environment_manifest_id mb, mb_group_id mb, mb_relation mb))
        (map (member_of h sid (claim_environments d st c)) (claim_environments d st c))"
      using assms views by (auto simp: build_environment_independence_snapshot_def Let_def split: prod.splits)
    then have "m = map (\<lambda>v. (em_id v, environment_group h v,
        fst (strongest_pair_relation h v (filter (\<lambda>x. em_id x \<noteq> em_id v) (claim_environments d st c))))) (claim_environments d st c)"
      by (simp add: member_of_def split: prod.split)
    then show ?thesis by (simp add: map_of_find)
  qed
qed

lemma those_groups:
  assumes "those (map (member_group res) ids) = Some members"
  shows "map_option fst (map_of members s) = (if s \<in> set ids then map_of (ir_groups res) s else None)"
  using assms
proof (induction ids arbitrary: members)
  case (Cons i ids)
  then obtain x rest where x: "member_group res i = Some x" and m: "members = x # rest"
    and rest: "those (map (member_group res) ids) = Some rest" by (auto split: option.splits)
  from x obtain g b where "map_of (ir_groups res) i = Some g" "x = (i, g, b)"
    by (auto simp: member_group_def split: option.splits)
  with Cons.IH [OF rest] m show ?case by auto
qed simp

lemma source_entry:
  assumes "build_source_independence_snapshot env c d w = Inr ((i, m), d1, w1)"
  shows "(case evd_source_id e of None \<Rightarrow> None | Some s \<Rightarrow> map_option fst (map_of m s)) = source_group env w c e"
    and "rs_resolved_counters w1 = rs_resolved_counters w"
proof -
  have "(rs_assembly w c = None \<and> m = [] \<and> w1 = w) \<or>
      (\<exists>a res. rs_assembly w c = Some a \<and>
        group_source_graph (we_urlsplit env) (we_host env) (sa_inputs a) (sa_edges a) (sa_corrections a) = Some (Inr res) \<and>
        those (map (member_group res) (sa_member_ids a)) = Some m)" "rs_resolved_counters w1 = rs_resolved_counters w"
    using assms by (auto simp: build_source_independence_snapshot_def Let_def split: option.splits sum.splits prod.splits)
  then show "(case evd_source_id e of None \<Rightarrow> None | Some s \<Rightarrow> map_option fst (map_of m s)) = source_group env w c e"
    "rs_resolved_counters w1 = rs_resolved_counters w"
    using those_groups by (auto simp: source_group_def split: option.split) (metis option.map_disc_iff those_groups)+
qed

lemma seen_evaluated:
  assumes "build_environment_independence_snapshot (we_host env) c rh d (rs_env w) = ((ei, em), d1, st)"
    and "build_source_independence_snapshot env c d1 (w\<lparr>rs_env := st\<rparr>) = Inr ((si, sm), d2, w2)"
    and "e \<in> set evidence"
  shows "seen_as env d w c e (evaluated em sm (filter (\<lambda>i. i \<in> set (map evd_id evidence)) (rs_resolved_counters w2)) e)"
proof -
  let ?h = "we_host env" and ?V = "claim_environments d (rs_env w) c"
  have src: "(case evd_source_id e of None \<Rightarrow> None | Some s \<Rightarrow> map_option fst (map_of sm s)) = source_group env w c e"
    using source_entry(1) [OF assms(2), of e] by (simp add: source_group_def)
  have res: "rs_resolved_counters w2 = rs_resolved_counters w" using source_entry(2) [OF assms(2)] by simp
  have en: "(case evd_environment_manifest_id e of None \<Rightarrow> None | Some m \<Rightarrow> map_of em m) =
      map_option (\<lambda>v. (environment_group ?h v, fst (strongest_pair_relation ?h v (filter (\<lambda>x. em_id x \<noteq> em_id v) ?V))))
        (evidence_environment d (rs_env w) c e)"
    by (simp add: evidence_environment_def environment_entry [OF assms(1)] split: option.split)
  have best: "best_relation ?h v others (fst (strongest_pair_relation ?h v others))" for v others
    using strongest_relation_is_the_best_pair [of others ?h v] unfolding best_relation_def by blast
  show ?thesis
    using assms(3) src [symmetric] best unfolding seen_as_def evaluated_def Let_def en res
    by (auto split: option.splits)
qed

lemma assess_claim_evaluates:
  assumes "assess_claim env snap rules c scope evidence d w = Inr (a, d1, w1)"
  shows "\<exists>rule evs. service_rule rules (claim_type_value (cl_claim_type c)) = Inr rule \<and>
    list_all2 (seen_as env d w (cl_id c)) evidence evs \<and>
    evaluate (we_iso env) (claim_type_value (cl_claim_type c)) rule scope evs (cl_as_of c \<noteq> None) = Inr (ad_result a)"
proof -
  obtain ei em d1' st where be: "build_environment_independence_snapshot (we_host env) (cl_id c)
      (rules_hash (we_host env) (cs_claim_type_rules snap)) d (rs_env w) = ((ei, em), d1', st)" by (metis prod.exhaust)
  obtain si sm d2 w2 where bs: "build_source_independence_snapshot env (cl_id c) d1' (w\<lparr>rs_env := st\<rparr>) = Inr ((si, sm), d2, w2)"
    using assms by (auto simp: assess_claim_def be split: sum.splits)
  let ?rs = "filter (\<lambda>i. i \<in> set (map evd_id evidence)) (rs_resolved_counters w2)"
  obtain rule where "service_rule rules (claim_type_value (cl_claim_type c)) = Inr rule"
    "evaluate (we_iso env) (claim_type_value (cl_claim_type c)) rule scope (map (evaluated em sm ?rs) evidence) (cl_as_of c \<noteq> None) = Inr (ad_result a)"
    using assms by (auto simp: assess_claim_def be bs Let_def split: sum.splits)
  moreover have "list_all2 (seen_as env d w (cl_id c)) evidence (map (evaluated em sm ?rs) evidence)"
    using seen_evaluated [OF be bs] by (simp add: list_all2_map2 list_all2_same)
  ultimately show ?thesis by blast
qed

text \<open>
  What a promotion leaves: the assessments are the old rows, the head's earlier one no longer valid, and one row more,
  which the head points to.
\<close>

definition carries :: "worker_env \<Rightarrow> snapshot_row \<Rightarrow> claim_row \<Rightarrow> json_dict \<Rightarrow> evidence_row list \<Rightarrow> assessment_result \<Rightarrow> db \<Rightarrow> db \<Rightarrow> head_row \<Rightarrow> bool" where
  "carries env snap c scope evidence result d d' h' \<longleftrightarrow>
     hd_epistemic_status h' = Some (ar_epistemic_status result) \<and>
     (\<exists>h row. find (is_head (cl_id c) (cs_id snap)) (db_heads d) = Some h \<and>
        db_assessments d' = tbl_update (\<lambda>r. hd_current_assessment_id h = Some (as_id r) \<and> as_valid r)
          (\<lambda>r. r\<lparr>as_valid := False, as_invalidation_reason := Some ''superseded''\<rparr>) (db_assessments d) @ [row] \<and>
        hd_current_assessment_id h' = Some (as_id row) \<and> as_claim_id row = cl_id c \<and> as_valid row \<and>
        as_effective_grade row = ar_grade result \<and> as_epistemic_status row = ar_epistemic_status result \<and>
        as_confidence row = ar_confidence result \<and> as_assessed_scope row = scope \<and>
        as_rules_hash row = rules_hash (we_host env) (cs_claim_type_rules snap) \<and>
        as_evidence_set_hash row = evidence_set_hash (we_host env) evidence)"

lemma promote_carries:
  assumes "promote env clk utc j snap c scope evidence h a (d, w) = Inr (o', d', w')" "no_current (cl_id c) (cs_id snap) d"
    and "find (is_head (cl_id c) (cs_id snap)) (db_heads d) = Some h"
    and "h' \<in> set (db_heads d')" "is_head (cl_id c) (cs_id snap) h'" "hd_assessment_state h' = AS_CURRENT"
  shows "carries env snap c scope evidence (ad_result a) d d' h'"
proof -
  define d1 where "d1 = snd (uuid4 (supersede (hd_current_assessment_id h) d))"
  define aid where "aid = fst (uuid4 (supersede (hd_current_assessment_id h) d))"
  define d4 where "d4 = set_job (job_id j) (job_completed clk) (d1\<lparr>
      db_assessments := db_assessments d1 @ [new_assessment env aid snap c scope evidence a (db_now d)],
      db_heads := tbl_update (is_head (cl_id c) (cs_id snap)) (promoted_head aid (ad_result a)) (db_heads d1),
      db_claims := tbl_update (\<lambda>r. cl_id r = cl_id c) (refreshed_claim (ad_result a) scope utc) (db_claims d1)\<rparr>)"
  obtain d5 pl t where b: "bump_knowledge d4 = Inr d5" and d': "d' = completed_event j pl t d5"
    using assms(1) by (auto simp: promote_def Let_def uuid4_def d4_def d1_def aid_def split: sum.splits)
  note f = bump_knowledge_frame [OF b]
  have "db_heads d1 = db_heads d" by (simp add: d1_def uuid4_def supersede_def split: option.splits)
  then have heads: "db_heads d' = tbl_update (is_head (cl_id c) (cs_id snap)) (promoted_head aid (ad_result a)) (db_heads d)"
    using f by (simp add: d' d4_def)
  have "db_assessments d1 = tbl_update (\<lambda>r. hd_current_assessment_id h = Some (as_id r) \<and> as_valid r)
      (\<lambda>r. r\<lparr>as_valid := False, as_invalidation_reason := Some ''superseded''\<rparr>) (db_assessments d)"
    by (cases "hd_current_assessment_id h")
      (simp_all add: d1_def uuid4_def supersede_def tbl_update_none eq_commute [of "as_id _"])
  then have as: "db_assessments d' = tbl_update (\<lambda>r. hd_current_assessment_id h = Some (as_id r) \<and> as_valid r)
      (\<lambda>r. r\<lparr>as_valid := False, as_invalidation_reason := Some ''superseded''\<rparr>) (db_assessments d)
      @ [new_assessment env aid snap c scope evidence a (db_now d)]"
    using f by (simp add: d' d4_def)
  have "hd_current_assessment_id h' = Some aid \<and> hd_epistemic_status h' = Some (ar_epistemic_status (ad_result a))"
    using assms(2,4-6) by (auto simp: heads set_tbl_update promoted_head_def no_current_def is_head_def)
  then show ?thesis using as assms(3) unfolding carries_def by (simp add: new_assessment_def)
qed

text \<open>
  C10.  When a job makes the head of its claim current, the head carries the result of the rules of the target
  configuration, for the type of the claim and the scope of its newest assessment, on exactly the claim's evidence that
  is not revoked, of which there is some, each with the group of its source or environment, the best relation of its
  environment and its resolution as the stores have them; the assessment the head points to is one row appended to the
  assessments, valid, with that grade, status and confidence, the hash of these rules and the hash of that evidence;
  of the other assessments only the head's earlier one changes, to superseded.
\<close>

theorem promoted_head_carries_the_evaluation:
  assumes "process_one_job env clk utc jid (d, w) = Inr (o', d', w')" "get_job d jid = Some j"
    and "no_current (job_claim_id j) (job_target_config_snapshot_id j) d"
    and "h' \<in> set (db_heads d')" "is_head (job_claim_id j) (job_target_config_snapshot_id j) h'" "hd_assessment_state h' = AS_CURRENT"
  shows "\<exists>snap c rules rule evs result. tbl_get cs_id (job_target_config_snapshot_id j) (rs_snapshots w) = Some snap
     \<and> tbl_get cl_id (job_claim_id j) (db_claims d) = Some c
     \<and> rules_table (we_host env) (cs_claim_type_rules snap) = Inr rules
     \<and> service_rule rules (claim_type_value (cl_claim_type c)) = Inr rule
     \<and> claim_evidence d w (cl_id c) \<noteq> []
     \<and> list_all2 (seen_as env d w (cl_id c)) (claim_evidence d w (cl_id c)) evs
     \<and> evaluate (we_iso env) (claim_type_value (cl_claim_type c)) rule (latest_assessed_scope d (cl_id c)) evs (cl_as_of c \<noteq> None) = Inr result
     \<and> carries env snap c (latest_assessed_scope d (cl_id c)) (claim_evidence d w (cl_id c)) result d d' h'"
proof -
  note nc = assms(3)
  have cur: "\<not> no_current (job_claim_id j) (job_target_config_snapshot_id j) d'" using assms(4-6) by (auto simp: no_current_def)
  have same: "db_heads d' \<noteq> db_heads d" using cur nc no_current_cong by blast
  have leased: "job_status j = RJ_LEASED" using assms(1,2) same by (auto simp: process_one_job_def split: if_splits)
  obtain eff act where slot: "head_slot d w = Some (eff, act)" using assms(1,2) leased by (auto simp: process_one_job_def split: option.splits)
  have go: "act = None" "eff = job_target_config_snapshot_id j" "\<not> active_session_intent d"
    using assms(1,2) leased slot same by (auto simp: process_one_job_def split: if_splits)
  obtain snap c where snap: "tbl_get cs_id eff (rs_snapshots w) = Some snap" and c: "tbl_get cl_id (job_claim_id j) (db_claims d) = Some c"
    and ev: "evaluate_job env clk utc j snap c (d, w) = Inr (o', d', w')"
    using assms(1,2) leased slot go cur missing_rows_no_current [OF _ nc] by (auto simp: process_one_job_def split: option.splits)
  have ids: "cs_id snap = job_target_config_snapshot_id j" "cl_id c = job_claim_id j" using snap c go by (auto dest: tbl_get_SomeD)
  define evidence scope where "evidence = claim_evidence d w (cl_id c)" and "scope = latest_assessed_scope d (cl_id c)"
  obtain rules where r: "rules_table (we_host env) (cs_claim_type_rules snap) = Inr rules" using ev by (auto simp: evaluate_job_def split: sum.splits)
  have ne: "evidence \<noteq> []"
    using ev r cur insufficient_data_no_current [OF _ nc] by (auto simp: evaluate_job_def evidence_def)
  obtain a d1 w1 where a: "assess_claim env snap rules c scope evidence d w = Inr (a, d1, w1)"
    using ev r ne by (auto simp: evaluate_job_def evidence_def scope_def Let_def split: sum.splits)
  have h1: "db_heads d1 = db_heads d" using assess_claim_frame [OF a] by auto
  obtain h where p: "promote env clk utc j snap c scope evidence h a (d1, w1) = Inr (o', d', w')"
    and h: "find (is_head (cl_id c) (cs_id snap)) (db_heads d1) = Some h"
    using ev r ne a same h1
    by (auto simp: evaluate_job_def evidence_def [symmetric] scope_def [symmetric] split: option.splits if_splits)
  have "carries env snap c scope evidence (ad_result a) d1 d' h'"
    using promote_carries [OF p _ h] nc no_current_cong [OF h1] assms(4-6) ids by simp
  moreover have "db_assessments d1 = db_assessments d" using assess_claim_frame [OF a] by auto
  ultimately have "carries env snap c scope evidence (ad_result a) d d' h'" using h1 by (simp add: carries_def)
  then show ?thesis using assess_claim_evaluates [OF a] snap c r ne go unfolding evidence_def scope_def by blast
qed

subsection \<open>Revoked evidence and environments\<close>

text \<open>Three experiments of a claim, each in its own environment; the first two share their method.\<close>

definition skip_host :: host where
  "skip_host = \<lparr>host_frepr = (\<lambda>x. []), host_sha256 = drop 18\<rparr>"

definition run_env :: worker_env where
  "run_env = quiet_env\<lparr>we_host := skip_host\<rparr>"

definition manifest_view :: "uuid \<Rightarrow> string \<Rightarrow> string \<Rightarrow> env_manifest" where
  "manifest_view i protocol lineage = \<lparr>em_id = i, em_protocol_hash = Some protocol, em_implementation_hash = Some ''i'', em_dataset_lineage = Some lineage,
     em_runtime_hash = None, em_hardware_hash = None, em_toolchain_hash = None, em_dependency_hash = None, em_seed = None, em_data_order_hash = None\<rparr>"

definition run_evidence :: "uuid \<Rightarrow> uuid \<Rightarrow> evidence_row" where
  "run_evidence i m = \<lparr>evd_id = i, evd_claim_id = 2, evd_relation = ER_SUPPORTS, evd_evidence_kind = EK_EXPERIMENT_RUN, evd_identity_hash = [],
     evd_scope = [], evd_source_id = None, evd_chunk_id = None, evd_observation_artifact_id = None, evd_environment_manifest_id = Some m,
     evd_created_in_session = None, evd_created_at = 0\<rparr>"

definition run_snapshot :: snapshot_row where
  "run_snapshot = \<lparr>cs_id = 1, cs_claim_type_rules = [], cs_activation_state = AST_ACTIVE, cs_base_snapshot_id = None,
     cs_payload_sha256 = [], cs_sha256 = [], cs_activation_mode = AM_BOOTSTRAP, cs_activation_manifest_hash = None,
     cs_activation_cohort_revision = None, cs_activation_expected_head_count = None, cs_activation_verified_head_count = None,
     cs_activation_heads_sha256 = None, cs_activation_verified_at = None, cs_post_publish_manifest_hash = None,
     cs_post_publish_cursor = None, cs_post_publish_attempts = None, cs_post_publish_next_attempt_at = None,
     cs_post_publish_started_at = None, cs_post_publish_blocked_at = None, cs_post_publish_last_error = None,
     cs_activation_limits = [], cs_sections = []\<rparr>"

definition run_research :: "uuid list \<Rightarrow> research" where
  "run_research revoked = \<lparr>rs_snapshots = [run_snapshot], rs_revoked_evidence = revoked, rs_resolved_counters = [], rs_assembly = (\<lambda>c. None),
     rs_env = \<lparr>env_manifests = [manifest_view 21 ''p'' ''d1'', manifest_view 22 ''p'' ''d2'', manifest_view 23 ''q'' ''d3''], env_snapshots = [], env_members = []\<rparr>,
     rs_source_snapshots = [], rs_source_members = [], rs_assessment_evidence = []\<rparr>"

definition run_claim :: claim_row where
  "run_claim = \<lparr>cl_id = 2, cl_statement = ''s'', cl_search_statements = JArr [], cl_claim_type = CT_EMPIRICAL_CONJECTURE, cl_freshness_status = FS_FRESH,
     cl_valid_from = None, cl_valid_to = None, cl_as_of = None, cl_observed_at = None, cl_reverify_after = None, cl_dependency_fingerprint = None,
     cl_topic = None, cl_created_in_session = None, cl_created_at = 0\<rparr>"

definition run_db :: "evidence_row list \<Rightarrow> db" where
  "run_db evidence = queue_db\<lparr>db_claims := [run_claim], db_evidence := evidence,
     db_jobs := [job_leased 0 300 example_job]\<rparr>"

lemma run_env_host: "we_host run_env = skip_host" "we_iso run_env = no_reader" by (simp_all add: run_env_def quiet_env_def)

definition run_rule :: claim_type_rule where
  "run_rule = \<lparr>min_grade_for_supported = E3, allowed_kinds = [JStr ''experiment_run''], min_support_evidence = 2, min_independence_groups = 1,
    requires_scope = False, requires_as_of = False, volatility = ''static'', required_independence = Some ''independent_replication''\<rparr>"

abbreviation "view1 \<equiv> manifest_view 21 ''p'' ''d1''"
abbreviation "view2 \<equiv> manifest_view 22 ''p'' ''d2''"
abbreviation "view3 \<equiv> manifest_view 23 ''q'' ''d3''"

lemma run_groups:
  "environment_group skip_host view1 \<noteq> environment_group skip_host view2"
  "environment_group skip_host view1 \<noteq> environment_group skip_host view3"
  "environment_group skip_host view2 \<noteq> environment_group skip_host view3"
  by code_simp+

lemma run_pairs:
  "classify_pair skip_host view1 view2 = Rel_variation"
  "classify_pair skip_host view1 view3 = Rel_independent_replication"
  "classify_pair skip_host view2 view3 = Rel_independent_replication"
  "classify_pair skip_host view2 view1 = Rel_variation"
  "classify_pair skip_host view3 view1 = Rel_independent_replication"
  "classify_pair skip_host view3 view2 = Rel_independent_replication"
  by (simp_all add: classify_pair_def run_groups run_groups [symmetric] lineage_unknown_def) (simp_all add: manifest_view_def)

lemma run_members:
  "mb_relation (member_of skip_host s [view1, view2, view3] view1) = Rel_independent_replication"
  "mb_relation (member_of skip_host s [view1, view2, view3] view2) = Rel_independent_replication"
  "mb_relation (member_of skip_host s [view1, view2] view1) = Rel_variation"
  "mb_relation (member_of skip_host s [view1, view2] view2) = Rel_variation"
proof -
  have i: "em_id (manifest_view i p l) = i" for i p l by (simp add: manifest_view_def)
  show "mb_relation (member_of skip_host s [view1, view2, view3] view1) = Rel_independent_replication"
  "mb_relation (member_of skip_host s [view1, view2, view3] view2) = Rel_independent_replication"
  "mb_relation (member_of skip_host s [view1, view2] view1) = Rel_variation"
  "mb_relation (member_of skip_host s [view1, view2] view2) = Rel_variation"
  by (simp_all add: member_of_def Let_def i strongest_pair_relation_def run_pairs)
qed

abbreviation "all_runs \<equiv> [run_evidence 11 21, run_evidence 12 22, run_evidence 13 23]"
abbreviation "kept_runs \<equiv> [run_evidence 11 21, run_evidence 12 22]"

lemma run_claim_evidence:
  "claim_evidence (run_db all_runs) (run_research [13]) 2 = kept_runs" "claim_evidence (run_db kept_runs) (run_research []) 2 = kept_runs"
  by (simp_all add: claim_evidence_def run_db_def run_research_def run_evidence_def)

lemma run_evaluate:
  assumes "map_of m 21 = Some (g1, rel)" "map_of m 22 = Some (g2, rel)" "g1 \<noteq> g2"
  shows "\<exists>r. evaluate no_reader t run_rule scope (map (evaluated m [] []) kept_runs) ao = Inr r
    \<and> ar_epistemic_status r = (if rel = Rel_independent_replication then ES_SUPPORTED else ES_HYPOTHESIS)"
  using assms by (cases rel) (simp_all add: evaluate_def run_rule_def run_evidence_def evaluated_def example_defs relation_met_def)

lemma run_assess:
  assumes "build_environment_independence_snapshot skip_host 2 (rules_hash skip_host []) d (rs_env (run_research rv)) = ((i, m), d1, st)"
    "map_of m 21 = Some (g1, rel)" "map_of m 22 = Some (g2, rel)" "g1 \<noteq> g2"
  shows "\<exists>a x. assess_claim run_env run_snapshot [(''empirical_conjecture'', run_rule)] run_claim [] kept_runs d (run_research rv) = Inr (a, x)
    \<and> ar_epistemic_status (ad_result a) = (if rel = Rel_independent_replication then ES_SUPPORTED else ES_HYPOTHESIS)"
proof -
  have c: "cl_id run_claim = 2" "claim_type_value (cl_claim_type run_claim) = ''empirical_conjecture''" by (simp_all add: run_claim_def)
  have "build_source_independence_snapshot run_env 2 d1 (run_research rv\<lparr>rs_env := st\<rparr>) = Inr ((None, []), d1, run_research rv\<lparr>rs_env := st\<rparr>)"
    "rs_resolved_counters (run_research rv\<lparr>rs_env := st\<rparr>) = []"
    by (simp_all add: build_source_independence_snapshot_def run_research_def)
  then show ?thesis
    using run_evaluate [OF assms(2-4), of "''empirical_conjecture''" "[]" "cl_as_of run_claim \<noteq> None"] assms(1)
    by (auto simp: assess_claim_def c run_env_host run_snapshot_def service_rule_def)
qed

lemma run_snapshots:
  "\<exists>i m d1 st. build_environment_independence_snapshot skip_host 2 h (run_db all_runs) (rs_env (run_research rv)) = ((i, m), d1, st) \<and>
     map_of m 21 = Some (environment_group skip_host view1, Rel_independent_replication) \<and>
     map_of m 22 = Some (environment_group skip_host view2, Rel_independent_replication)"
  "\<exists>i m d1 st. build_environment_independence_snapshot skip_host 2 h (run_db kept_runs) (rs_env (run_research rv)) = ((i, m), d1, st) \<and>
     map_of m 21 = Some (environment_group skip_host view1, Rel_variation) \<and>
     map_of m 22 = Some (environment_group skip_host view2, Rel_variation)"
proof -
  have i: "em_id (manifest_view i p l) = i" for i p l by (simp add: manifest_view_def)
  have g: "mb_environment_manifest_id (member_of skip_host s vs v) = em_id v" "mb_group_id (member_of skip_host s vs v) = environment_group skip_host v" for s vs v
    by (simp_all add: member_of_def split: prod.splits)
  have ids: "claim_manifest_ids (run_db all_runs) 2 = [21, 22, 23]" "claim_manifest_ids (run_db kept_runs) 2 = [21, 22]"
    "env_manifests (rs_env (run_research rv)) = [view1, view2, view3]"
    by (simp_all add: claim_manifest_ids_def run_db_def run_evidence_def List.map_filter_def run_research_def)
  show "\<exists>i m d1 st. build_environment_independence_snapshot skip_host 2 h (run_db all_runs) (rs_env (run_research rv)) = ((i, m), d1, st) \<and>
     map_of m 21 = Some (environment_group skip_host view1, Rel_independent_replication) \<and>
     map_of m 22 = Some (environment_group skip_host view2, Rel_independent_replication)"
    "\<exists>i m d1 st. build_environment_independence_snapshot skip_host 2 h (run_db kept_runs) (rs_env (run_research rv)) = ((i, m), d1, st) \<and>
     map_of m 21 = Some (environment_group skip_host view1, Rel_variation) \<and>
     map_of m 22 = Some (environment_group skip_host view2, Rel_variation)"
    by (simp_all add: build_environment_independence_snapshot_def uuid4_def Let_def ids i g run_members)
qed

text \<open>
  Revoked evidence still reaches the independence of environments: the evidence the rules see is the same two
  experiments whether the third is revoked or was never recorded, but the environment of the revoked one makes their
  environments independent replications, and the claim is supported instead of a hypothesis.
\<close>

lemma revoked_evidence_lends_independence:
  "claim_evidence (run_db all_runs) (run_research [13]) 2 = claim_evidence (run_db kept_runs) (run_research []) 2
   \<and> (\<exists>a x. assess_claim run_env run_snapshot [(''empirical_conjecture'', run_rule)] run_claim []
        (claim_evidence (run_db all_runs) (run_research [13]) 2) (run_db all_runs) (run_research [13]) = Inr (a, x)
        \<and> ar_epistemic_status (ad_result a) = ES_SUPPORTED)
   \<and> (\<exists>a x. assess_claim run_env run_snapshot [(''empirical_conjecture'', run_rule)] run_claim []
        (claim_evidence (run_db kept_runs) (run_research []) 2) (run_db kept_runs) (run_research []) = Inr (a, x)
        \<and> ar_epistemic_status (ad_result a) = ES_HYPOTHESIS)"
proof (intro conjI)
  show "claim_evidence (run_db all_runs) (run_research [13]) 2 = claim_evidence (run_db kept_runs) (run_research []) 2"
    unfolding run_claim_evidence by (rule refl)
  show "\<exists>a x. assess_claim run_env run_snapshot [(''empirical_conjecture'', run_rule)] run_claim []
        (claim_evidence (run_db all_runs) (run_research [13]) 2) (run_db all_runs) (run_research [13]) = Inr (a, x)
        \<and> ar_epistemic_status (ad_result a) = ES_SUPPORTED"
    unfolding run_claim_evidence using run_snapshots(1) [of "rules_hash skip_host []" "[13]"] run_assess run_groups(1) by (metis (full_types))
  show "\<exists>a x. assess_claim run_env run_snapshot [(''empirical_conjecture'', run_rule)] run_claim []
        (claim_evidence (run_db kept_runs) (run_research []) 2) (run_db kept_runs) (run_research []) = Inr (a, x)
        \<and> ar_epistemic_status (ad_result a) = ES_HYPOTHESIS"
    unfolding run_claim_evidence using run_snapshots(2) [of "rules_hash skip_host []" "[]"] run_assess run_groups(1)
    by (metis (full_types) env_relation.distinct)
qed

subsection \<open>A job that promotes\<close>

definition plain_snapshot :: snapshot_row where
  "plain_snapshot = run_snapshot\<lparr>cs_claim_type_rules := [(''empirical_conjecture'', JObj
       [(''min_grade_for_supported'', JStr ''E2''), (''allowed_kinds'', JArr [JStr ''experiment_run''])])]\<rparr>"

definition plain_research :: research where
  "plain_research = (run_research [])\<lparr>rs_snapshots := [plain_snapshot]\<rparr>"

definition plain_db :: db where
  "plain_db = run_db [(run_evidence 11 21)\<lparr>evd_environment_manifest_id := None\<rparr>]"

lemma plain_rules: "rules_table skip_host (cs_claim_type_rules plain_snapshot) = Inr [(''empirical_conjecture'',
   \<lparr>min_grade_for_supported = E2, allowed_kinds = [JStr ''experiment_run''], min_support_evidence = 1, min_independence_groups = 1,
    requires_scope = False, requires_as_of = False, volatility = ''static'', required_independence = None\<rparr>)]"
proof -
  have g: "effective_grade_enum.parse ''E2'' = Inr E2" using effective_grade_enum.parse_val [of E2] by simp
  show ?thesis by (simp add: plain_snapshot_def run_snapshot_def py_dict_def rule_from_payload_def dict_get_def Let_def py_frozenset_def py_int_def hashable_def g)
qed

lemma plain_assess:
  "\<exists>a w1. assess_claim run_env plain_snapshot [(''empirical_conjecture'',
   \<lparr>min_grade_for_supported = E2, allowed_kinds = [JStr ''experiment_run''], min_support_evidence = 1, min_independence_groups = 1,
    requires_scope = False, requires_as_of = False, volatility = ''static'', required_independence = None\<rparr>)] run_claim [] 
    (claim_evidence plain_db plain_research 2) plain_db plain_research = Inr (a, plain_db, w1)"
  by (simp add: assess_claim_def build_environment_independence_snapshot_def claim_manifest_ids_def plain_db_def run_db_def run_evidence_def run_claim_def
   List.map_filter_def build_source_independence_snapshot_def plain_research_def run_research_def service_rule_def claim_evidence_def evaluate_def evaluated_def example_defs run_env_host)

lemma plain_job:
  "\<exists>o' d' w' h'. process_one_job run_env 1 1 5 (plain_db, plain_research) = Inr (o', d', w') \<and>
     h' \<in> set (db_heads d') \<and> is_head 2 1 h' \<and> hd_assessment_state h' = AS_CURRENT"
proof -
  have f: "get_job plain_db 5 = Some (job_leased 0 300 example_job)" "head_slot plain_db plain_research = Some (1, None)"
    "\<not> active_session_intent plain_db" "tbl_get cs_id 1 (rs_snapshots plain_research) = Some plain_snapshot"
    "tbl_get cl_id 2 (db_claims plain_db) = Some run_claim" "latest_assessed_scope plain_db 2 = []" "claim_evidence plain_db plain_research 2 \<noteq> []"
    "find (is_head 2 1) (db_heads plain_db) = Some pending_head" "get_revision plain_db ''knowledge'' \<noteq> None"
    by (simp_all add: get_job_def plain_db_def run_db_def queue_db_def empty_db_def head_slot_def plain_research_def active_session_intent_def
        plain_snapshot_def run_snapshot_def run_claim_def latest_assessed_scope_def claim_evidence_def run_research_def run_evidence_def is_head_def pending_head_def
        get_revision_def job_rows example_job_def queued_job_def)
  have j: "job_status (job_leased 0 300 example_job) = RJ_LEASED" "job_claim_id (job_leased 0 300 example_job) = 2"
    "job_target_config_snapshot_id (job_leased 0 300 example_job) = 1" by (simp_all add: job_rows example_job_def queued_job_def)
  have c: "cl_id run_claim = 2" "cs_id plain_snapshot = 1" "hd_assessment_state pending_head \<noteq> AS_CURRENT" "hd_current_assessment_id pending_head = None"
    by (simp_all add: run_claim_def plain_snapshot_def run_snapshot_def pending_head_def)
  obtain a w1 where a: "assess_claim run_env plain_snapshot [(''empirical_conjecture'',
      \<lparr>min_grade_for_supported = E2, allowed_kinds = [JStr ''experiment_run''], min_support_evidence = 1, min_independence_groups = 1,
       requires_scope = False, requires_as_of = False, volatility = ''static'', required_independence = None\<rparr>)] run_claim []
      (claim_evidence plain_db plain_research 2) plain_db plain_research = Inr (a, plain_db, w1)" using plain_assess by blast
  have "\<exists>o' d' w'. promote run_env 1 1 (job_leased 0 300 example_job) plain_snapshot run_claim [] (claim_evidence plain_db plain_research 2) pending_head a
      (plain_db, w1) = Inr (o', d', w') \<and> db_heads d' = tbl_update (is_head 2 1) (promoted_head (db_uuid4 plain_db (db_draws plain_db)) (ad_result a)) (db_heads plain_db)"
    using f(9) by (auto simp: promote_def supersede_def c uuid4_def bump_knowledge_def get_revision_def Let_def)
  then obtain o' d' w' where p: "promote run_env 1 1 (job_leased 0 300 example_job) plain_snapshot run_claim [] (claim_evidence plain_db plain_research 2) pending_head a
      (plain_db, w1) = Inr (o', d', w')" "db_heads d' = tbl_update (is_head 2 1) (promoted_head (db_uuid4 plain_db (db_draws plain_db)) (ad_result a)) (db_heads plain_db)" by blast
  have "process_one_job run_env 1 1 5 (plain_db, plain_research) = Inr (o', d', w')"
    using p(1) by (simp add: process_one_job_def f j evaluate_job_def run_env_host plain_rules c a del: One_nat_def)
  moreover have "promoted_head (db_uuid4 plain_db (db_draws plain_db)) (ad_result a) pending_head \<in> set (db_heads d')"
    "is_head 2 1 (promoted_head (db_uuid4 plain_db (db_draws plain_db)) (ad_result a) pending_head)"
    by (simp_all add: p(2) plain_db_def run_db_def queue_db_def is_head_def promoted_head_def pending_head_def)
  ultimately show ?thesis by (intro exI conjI) (assumption+, simp add: promoted_head_def)
qed

theorem promoted_head_carries_the_evaluation_witness:
  "\<exists>(d' :: db) h' rule evs result row. h' \<in> set (db_heads d') \<and> hd_assessment_state h' = AS_CURRENT \<and>
     evaluate no_reader ''empirical_conjecture'' rule [] evs False = Inr result \<and> row \<in> set (db_assessments d') \<and>
     hd_current_assessment_id h' = Some (as_id row) \<and> as_effective_grade row = ar_grade result"
proof -
  obtain o' d' w' h' where p: "process_one_job run_env 1 1 5 (plain_db, plain_research) = Inr (o', d', w')"
    and h: "h' \<in> set (db_heads d')" "is_head 2 1 h'" "hd_assessment_state h' = AS_CURRENT" using plain_job by blast
  have j: "get_job plain_db 5 = Some (job_leased 0 300 example_job)"
    "job_claim_id (job_leased 0 300 example_job) = 2" "job_target_config_snapshot_id (job_leased 0 300 example_job) = 1"
    by (simp_all add: get_job_def plain_db_def run_db_def job_rows example_job_def queued_job_def)
  have "no_current (job_claim_id (job_leased 0 300 example_job)) (job_target_config_snapshot_id (job_leased 0 300 example_job)) plain_db"
    by (simp add: no_current_def plain_db_def run_db_def queue_db_def pending_head_def)
  from promoted_head_carries_the_evaluation [OF p j(1) this h(1) _ h(3)] h(2) j(2,3)
  obtain snap c rule evs result where c: "tbl_get cl_id 2 (db_claims plain_db) = Some c"
    and e: "evaluate (we_iso run_env) (claim_type_value (cl_claim_type c)) rule (latest_assessed_scope plain_db (cl_id c)) evs (cl_as_of c \<noteq> None) = Inr result"
    and k: "carries run_env snap c (latest_assessed_scope plain_db (cl_id c)) (claim_evidence plain_db plain_research (cl_id c)) result plain_db d' h'"
    by auto
  have "c = run_claim" "latest_assessed_scope plain_db 2 = []"
    using c by (simp_all add: plain_db_def run_db_def run_claim_def latest_assessed_scope_def queue_db_def empty_db_def)
  then have "evaluate no_reader ''empirical_conjecture'' rule [] evs False = Inr result" using e by (simp add: run_claim_def run_env_host)
  moreover obtain old row where "db_assessments d' = old @ [row]" "hd_current_assessment_id h' = Some (as_id row)"
    "as_effective_grade row = ar_grade result"
    using k unfolding carries_def by (elim conjE exE)
  then have "row \<in> set (db_assessments d')" "hd_current_assessment_id h' = Some (as_id row)" "as_effective_grade row = ar_grade result"
    by simp_all
  ultimately show ?thesis using h by blast
qed

theorem reassessment_never_overwrites_a_current_head_witness:
  "\<exists>r d' w'. run_job run_env 1 1 0 5 (no_work False, plain_db, plain_research) = Inr (r, d', w') \<and> job_effect 5 2 1 plain_db d'"
proof -
  obtain o' d' w' h' where p: "process_one_job run_env 1 1 5 (plain_db, plain_research) = Inr (o', d', w')" using plain_job by blast
  have j: "get_job plain_db 5 = Some (job_leased 0 300 example_job)"
    "job_claim_id (job_leased 0 300 example_job) = 2" "job_target_config_snapshot_id (job_leased 0 300 example_job) = 1"
    by (simp_all add: get_job_def plain_db_def run_db_def job_rows example_job_def queued_job_def)
  have r: "run_job run_env 1 1 0 5 (no_work False, plain_db, plain_research) = Inr (count_outcome o' (no_work False), d', w')"
    using p by (simp add: run_job_def)
  have "unique_heads plain_db" by (simp add: unique_heads_def plain_db_def run_db_def queue_db_def)
  from reassessment_never_overwrites_a_current_head [OF r j(1) this] r j(2,3) show ?thesis by auto
qed

subsection \<open>The batch\<close>

definition session_first :: "db \<Rightarrow> research \<Rightarrow> bool" where
  "session_first d w \<longleftrightarrow> active_session_intent d \<or> (\<exists>eff a. head_slot d w = Some (eff, Some a))"

text \<open>The table of the writer gate has one row per scope.\<close>

definition one_gate :: "db \<Rightarrow> bool" where
  "one_gate d \<longleftrightarrow> tbl_count (\<lambda>g. gate_scope g = GATE_SCOPE) (db_gates d) \<le> 1"

definition gate_open :: "gate_owner \<Rightarrow> db \<Rightarrow> bool" where
  "gate_open ow d \<longleftrightarrow> list_ex (\<lambda>g. gate_scope g = GATE_SCOPE \<and> gate_where ow (db_now d) g) (db_gates d)"

lemma only_gate:
  "tbl_count (\<lambda>g. gate_scope g = sc) gs \<le> 1 \<Longrightarrow> g \<in> set gs \<Longrightarrow> g' \<in> set gs \<Longrightarrow> gate_scope g = sc \<Longrightarrow> gate_scope g' = sc \<Longrightarrow> g = g'"
  by (induction gs) (auto split: if_splits simp: tbl_count_0_iff)

lemma count_one_gate:
  "tbl_count (\<lambda>g. gate_scope g = sc) gs \<le> 1 \<Longrightarrow>
   tbl_count (\<lambda>g. gate_scope g = sc \<and> p g) gs = (if list_ex (\<lambda>g. gate_scope g = sc \<and> p g) gs then 1 else 0)"
proof (induction gs)
  case (Cons g gs)
  show ?case
  proof (cases "gate_scope g = sc")
    case True
    then have "tbl_count (\<lambda>g. gate_scope g = sc) gs = 0" using Cons.prems by simp
    then have none: "\<forall>g\<in>set gs. gate_scope g \<noteq> sc" by (simp add: tbl_count_0_iff)
    then have "tbl_count (\<lambda>g. gate_scope g = sc \<and> p g) gs = 0" "\<not> list_ex (\<lambda>g. gate_scope g = sc \<and> p g) gs"
      by (simp_all add: tbl_count_0_iff list_ex_iff)
    then show ?thesis by simp
  qed (use Cons in simp)
qed simp

lemma acquire_open:
  assumes "one_gate d"
  shows "fst (acquire_writer_gate ow p gs d) = gate_open ow d"
    and "\<not> gate_open ow d \<Longrightarrow> snd (acquire_writer_gate ow p gs d) = d"
    and "gate_open ow d \<Longrightarrow> release_writer_gate ow (snd (acquire_writer_gate ow p gs d)) =
      d\<lparr>db_gates := tbl_update (\<lambda>g. gate_scope g = GATE_SCOPE) gate_clear (db_gates d)\<rparr>"
proof -
  note one = assms [unfolded one_gate_def]
  show "fst (acquire_writer_gate ow p gs d) = gate_open ow d"
    using count_one_gate [OF one, of "gate_where ow (db_now d)"] by (simp add: acquire_writer_gate_def gate_open_def Let_def)
  show "snd (acquire_writer_gate ow p gs d) = d" if "\<not> gate_open ow d"
    using that by (simp add: acquire_writer_gate_def gate_open_def list_ex_iff tbl_update_none)
  assume "gate_open ow d"
  then have all: "gate_where ow (db_now d) g" if "g \<in> set (db_gates d)" "gate_scope g = GATE_SCOPE" for g
    using only_gate [OF one] that by (auto simp: gate_open_def list_ex_iff)
  let ?sel = "\<lambda>g. gate_scope g = GATE_SCOPE \<and> gate_where ow (db_now d) g"
  have "tbl_update (\<lambda>g. gate_scope g = GATE_SCOPE \<and> gate_owner_kind g = Some (fst ow) \<and> gate_owner_id g = Some (snd ow)) gate_clear
      (tbl_update ?sel (gate_set ow p (seconds gs) (db_now d)) (db_gates d))
    = tbl_update (\<lambda>g. gate_scope g = GATE_SCOPE) gate_clear (db_gates d)"
    using all by (auto simp: tbl_update_def gate_set_def gate_clear_def)
  then show "release_writer_gate ow (snd (acquire_writer_gate ow p gs d)) =
      d\<lparr>db_gates := tbl_update (\<lambda>g. gate_scope g = GATE_SCOPE) gate_clear (db_gates d)\<rparr>"
    by (simp add: acquire_writer_gate_def release_writer_gate_def Let_def)
qed

lemma due_jobs_are_runnable: "i \<in> set (due_jobs eff n d) \<Longrightarrow> \<exists>j\<in>set (db_jobs d). job_id j = i \<and> runnable eff (db_now d) j"
  by (auto simp: due_jobs_def dest!: in_set_takeD)

text \<open>
  C14.  A session comes first.  While a session declares its commit intent, or an activation holds the slot, a batch
  that has the writer lock and a configuration head always ends deferred, with nothing processed and nothing leased.
  When the writer gate is open to the worker the batch leaves every table as it was, the gate cleared: no job changes.
  When another owner holds the gate, the gate stays with that owner and of the other tables only the time of the next
  attempt of at most \<open>n\<close> jobs that were runnable changes, to five seconds and the jitter from now.  And when the intent or the
  activation appears after a job was leased, the job returns to the queue with the attempt it had been charged, and
  nothing else changes.
\<close>

theorem batch_yields_to_sessions_and_activations:
  assumes "session_first d w" and "one_gate d"
  shows "(got \<and> head_slot d w \<noteq> None \<longrightarrow>
      (\<exists>d'. run_reassessment_batch env got tm n ls gs jitter (d, w) = Inr (no_work True, d', w)))
    \<and> (run_reassessment_batch env got tm n ls gs jitter (d, w) = Inr (r, d', w') \<longrightarrow> r = no_work True \<and> w' = w \<and>
        (if gate_open worker_owner d
         then d' = d\<lparr>db_gates := tbl_update (\<lambda>g. gate_scope g = GATE_SCOPE) gate_clear (db_gates d)\<rparr>
         else \<exists>eff a ids. head_slot d w = Some (eff, a) \<and> length ids \<le> n \<and>
           (\<forall>i\<in>set ids. \<exists>j\<in>set (db_jobs d). job_id j = i \<and> runnable eff (db_now d) j) \<and>
           d' = d\<lparr>db_jobs := tbl_update (\<lambda>j. job_id j \<in> set ids)
             (\<lambda>j. j\<lparr>job_next_attempt_at := Some (db_now d + seconds DEFER_BASE_SECONDS + jitter (job_id j))\<rparr>) (db_jobs d)\<rparr>))
    \<and> (get_job d jid = Some j \<and> j = job_leased now ls q \<and> 0 \<le> job_attempts q \<and> head_slot d w \<noteq> None \<longrightarrow>
      (\<exists>o'. process_one_job env clk utc jid (d, w) = Inr (o', set_job jid job_unleased d, w) \<and> o' \<in> {JO_unleased, JO_intent_conflict}) \<and>
      job_attempts (job_unleased j) = job_attempts q)"
proof -
  note gate = acquire_open [OF assms(2), of worker_owner GATE_PRIORITY_WORKER gs]
  obtain b d1 where a: "acquire_writer_gate worker_owner GATE_PRIORITY_WORKER gs d = (b, d1)" by fastforce
  then obtain gates where d1: "d1 = d\<lparr>db_gates := gates\<rparr>" by (auto simp: acquire_writer_gate_def Let_def)
  have same: "active_session_intent d1 = active_session_intent d" "head_slot d1 w = head_slot d w"
    by (simp_all add: d1 active_session_intent_def head_slot_def Let_def cong: option.case_cong)
  note op = gate [unfolded a fst_conv snd_conv]
  have batch: "run_reassessment_batch env got tm n ls gs jitter (d, w) =
      (if \<not> got then Inl (CascadeError ''could not acquire the knowledge writer gate'')
       else if gate_open worker_owner d then
         (if head_slot d w = None \<and> \<not> active_session_intent d then Inl (ReassessmentWorkerError ''runtime config head missing'')
          else Inr (no_work True, release_writer_gate worker_owner d1, w))
       else case head_slot d w of None \<Rightarrow> Inl (ReassessmentWorkerError ''runtime config head missing'')
         | Some (eff, _) \<Rightarrow> Inr (no_work True, defer_runnable eff n jitter d, w))"
    using assms(1) same op
    by (auto simp: run_reassessment_batch_def writer_gate_def admit_batch_def a session_first_def split: option.split)
  have one: "got \<and> head_slot d w \<noteq> None \<longrightarrow>
      (\<exists>d'. run_reassessment_batch env got tm n ls gs jitter (d, w) = Inr (no_work True, d', w))"
    unfolding batch by auto
  have two: "r = no_work True \<and> w' = w \<and>
      (if gate_open worker_owner d
       then d' = d\<lparr>db_gates := tbl_update (\<lambda>g. gate_scope g = GATE_SCOPE) gate_clear (db_gates d)\<rparr>
       else \<exists>eff a ids. head_slot d w = Some (eff, a) \<and> length ids \<le> n \<and>
         (\<forall>i\<in>set ids. \<exists>j\<in>set (db_jobs d). job_id j = i \<and> runnable eff (db_now d) j) \<and>
         d' = d\<lparr>db_jobs := tbl_update (\<lambda>j. job_id j \<in> set ids)
           (\<lambda>j. j\<lparr>job_next_attempt_at := Some (db_now d + seconds DEFER_BASE_SECONDS + jitter (job_id j))\<rparr>) (db_jobs d)\<rparr>)"
    if r: "run_reassessment_batch env got tm n ls gs jitter (d, w) = Inr (r, d', w')"
  proof (cases "gate_open worker_owner d")
    case True
    then show ?thesis using r op(3) unfolding batch by (simp split: if_splits)
  next
    case False
    then obtain eff a where e: "head_slot d w = Some (eff, a)" "r = no_work True" "w' = w" "d' = defer_runnable eff n jitter d"
      using r unfolding batch by (auto split: if_splits option.splits)
    have "length (due_jobs eff n d) \<le> n" by (simp add: due_jobs_def)
    moreover have "\<forall>i\<in>set (due_jobs eff n d). \<exists>j\<in>set (db_jobs d). job_id j = i \<and> runnable eff (db_now d) j"
      using due_jobs_are_runnable by blast
    ultimately show ?thesis using False e unfolding defer_runnable_def by auto
  qed
  have three: "get_job d jid = Some j \<and> j = job_leased now ls q \<and> 0 \<le> job_attempts q \<and> head_slot d w \<noteq> None \<longrightarrow>
      (\<exists>o'. process_one_job env clk utc jid (d, w) = Inr (o', set_job jid job_unleased d, w) \<and> o' \<in> {JO_unleased, JO_intent_conflict}) \<and>
      job_attempts (job_unleased j) = job_attempts q"
    using assms(1) by (auto simp: session_first_def process_one_job_def job_rows)
  from one two three show ?thesis by blast
qed

text \<open>A batch beside a session that declares its intent.\<close>

definition intent_db :: db where
  "intent_db = plain_db\<lparr>db_sessions := [(new_session 7 1 0)\<lparr>sess_state := SS_COMMITTING, sess_lease_owner := Some ''a'',
     sess_lease_expires_at := Some 60, sess_commit_intent_at := Some 0\<rparr>]\<rparr>"

theorem batch_yields_to_sessions_and_activations_witness:
  "(\<exists>o'. process_one_job run_env 1 1 5 (intent_db, plain_research) = Inr (o', set_job 5 job_unleased intent_db, plain_research))
   \<and> (\<exists>d'. run_reassessment_batch run_env True (\<lambda>_. (1, 1, 0)) 5 300 60 (\<lambda>_. 0) (intent_db, plain_research) = Inr (no_work True, d', plain_research)
        \<and> db_jobs d' = db_jobs intent_db \<and> db_sessions d' = db_sessions intent_db)"
proof -
  have "session_first intent_db plain_research"
    by (simp add: session_first_def intent_db_def active_session_intent_def declares_intent_def new_session_def is_after_def
        plain_db_def run_db_def queue_db_def empty_db_def)
  moreover have "get_job intent_db 5 = Some (job_leased 0 300 example_job)" "0 \<le> job_attempts example_job" "head_slot intent_db plain_research \<noteq> None"
    by (simp_all add: intent_db_def get_job_def plain_db_def run_db_def job_rows example_job_def queued_job_def head_slot_def queue_db_def empty_db_def)
  moreover have "one_gate intent_db" and g: "gate_open worker_owner intent_db"
    by (simp_all add: one_gate_def gate_open_def intent_db_def plain_db_def run_db_def queue_db_def empty_db_def gate_where_def GATE_SCOPE_def)
  ultimately have y: "\<exists>d'. run_reassessment_batch run_env True (\<lambda>_. (1, 1, 0)) 5 300 60 (\<lambda>_. 0) (intent_db, plain_research) =
      Inr (no_work True, d', plain_research)"
    "run_reassessment_batch run_env True (\<lambda>_. (1, 1, 0)) 5 300 60 (\<lambda>_. 0) (intent_db, plain_research) = Inr (r, d', w') \<Longrightarrow>
      db_jobs d' = db_jobs intent_db \<and> db_sessions d' = db_sessions intent_db"
    "\<exists>o'. process_one_job run_env 1 1 5 (intent_db, plain_research) = Inr (o', set_job 5 job_unleased intent_db, plain_research)" for r d' w'
    using batch_yields_to_sessions_and_activations [of intent_db plain_research True run_env "\<lambda>_. (1, 1, 0)" 5 300 60 "\<lambda>_. 0" r d' w'
        5 "job_leased 0 300 example_job" 0 example_job 1 1] by auto
  then show ?thesis by blast
qed

end
