(* ===== verification/ActivationResults.thy ===== *)
theory ActivationResults
  imports ActivationRuns ReassessmentResults UuidText
begin

section \<open>Results on the online activation\<close>

text \<open>
  Three executions in which an activation does not do what it means to, the invariant of interleaved runs, the
  conditions of the flip, the fence, the completion of the manifest, and the concrete worlds on which they are applied.
\<close>

subsection \<open>A finished candidate in the slot\<close>

lemma terminal_cannot_resume:
  "st \<in> set TERMINAL_STATES \<Longrightarrow> run_phases env utc jit r resumed n st x =
     (Inl (ActivationError (''cannot resume from state '' @ repr_str (activation_state_value st))), x)"
  by (auto simp: run_phases_def TERMINAL_STATES_def)

lemma terminal_drain:
  assumes "db_config_heads d = [h]" "rch_scope h = SCOPE" "rch_activating_config_snapshot_id h = None" "get_snapshot w cand = Some c"
    and "cs_activation_state c \<in> set TERMINAL_STATES"
  shows "\<exists>t x1. run_fence utc cand owner early plan (d, w) = (Inr (rch_activation_fence h + 1, False), x1) \<and>
    db_config_heads (fst x1) = [take_slot cand (rch_activation_fence h + 1) owner t h] \<and>
    get_snapshot (snd x1) cand = Some (c\<lparr>cs_activation_mode := AM_ONLINE\<rparr>)"
proof -
  have l: "lock_head d = Inr h" using assms(1,2) by (simp add: lock_head_def)
  have c: "candidate_row w cand = Inr c" using assms(4) by (simp add: candidate_row_def)
  have g: "get_snapshot (set_snapshot cand (\<lambda>s. s\<lparr>cs_activation_mode := AM_ONLINE\<rparr>) w) cand = Some (c\<lparr>cs_activation_mode := AM_ONLINE\<rparr>)"
    using assms(4) by (simp add: get_snapshot_def tbl_get_update_id)
  have nd: "cs_activation_state c \<noteq> AST_DRAFT" using assms(5) by (auto simp: TERMINAL_STATES_def)
  show ?thesis
    using l c g nd assms(1-3) by (auto simp: run_fence_def Let_def acquire_activation_def publish_activation_drain_def write_intent_def candidate_row_def)
qed

text \<open>
  C20. A driver that found its candidate unfinished, and is overtaken by a runner that finishes it and frees the slot,
  publishes the drain all the same: the fence is handed out without a look at the state, the driver then stops
  because a finished candidate cannot be resumed, and leaves the slot as it is.  From then on no other candidate
  gets the slot, at any time, and the slot counts as busy for every session.
\<close>

theorem finished_candidate_keeps_the_slot:
  assumes "db_config_heads d = [h]" "rch_scope h = SCOPE" "rch_activating_config_snapshot_id h = None" "get_snapshot w cand = Some c"
    and "cs_activation_state c \<in> set TERMINAL_STATES"
  shows "\<exists>fn x1. run_fence utc cand owner early plan (d, w) = (Inr (fn, False), x1) \<and>
    (\<exists>e. run_phases env utc jit \<lparr>rn_candidate = cand, rn_fence = fn, rn_owner = owner\<rparr> False n (cs_activation_state c) x1 = (Inl e, x1) \<and>
       fail_run utc \<lparr>rn_candidate = cand, rn_fence = fn, rn_owner = owner\<rparr> e x1 = (e, x1)) \<and>
    (\<forall>t cand' owner' early' plan'. cand' \<noteq> cand \<longrightarrow> run_fence t cand' owner' early' plan' x1 =
       (Inl (ActivationError ''another candidate is being activated''), x1)) \<and>
    (\<forall>t lease. activation_slot_busy t (Some (cs_activation_state c)) lease)"
proof -
  obtain t x1 where x1: "run_fence utc cand owner early plan (d, w) = (Inr (rch_activation_fence h + 1, False), x1)"
    "db_config_heads (fst x1) = [take_slot cand (rch_activation_fence h + 1) owner t h]"
    "get_snapshot (snd x1) cand = Some (c\<lparr>cs_activation_mode := AM_ONLINE\<rparr>)"
    using terminal_drain [OF assms] by blast
  let ?r = "\<lparr>rn_candidate = cand, rn_fence = rch_activation_fence h + 1, rn_owner = owner\<rparr>"
  let ?e = "ActivationError (''cannot resume from state '' @ repr_str (activation_state_value (cs_activation_state c)))"
  have l: "lock_head (fst x1) = Inr (take_slot cand (rch_activation_fence h + 1) owner t h)" using x1(2) assms(2) by (simp add: lock_head_def)
  have "fail_run utc ?r ?e x1 = (?e, x1)"
    using x1(3) assms(5) by (simp add: fail_run_def is_activation_error_def candidate_row_def)
  moreover have "run_fence t' cand' owner' early' plan' x1 = (Inl (ActivationError ''another candidate is being activated''), x1)" if "cand' \<noteq> cand" for t' cand' owner' early' plan'
    using l that by (simp add: run_fence_def Let_def)
  moreover have "activation_slot_busy t' (Some (cs_activation_state c)) lease" for t' lease
    using assms(5) by (auto simp: activation_slot_busy_def TERMINAL_STATES_def)
  ultimately show ?thesis using x1(1) terminal_cannot_resume [OF assms(5), of env utc jit ?r False n x1] by blast
qed

subsection \<open>A sealed activation whose base moved\<close>

text \<open>The head of a claim under the candidate is missing, or differs from what its base head gives now.\<close>

definition out_of_date :: "activation_env \<Rightarrow> snapshot_row \<Rightarrow> snapshot_row \<Rightarrow> head_row list \<Rightarrow> claim_row \<Rightarrow> bool" where
  "out_of_date env base cand hs c =
     (let base_head = find (is_head (cl_id c) (cs_id base)) hs;
          put = shadow_of base_head (carries_over (av_host env) base cand c base_head) (cl_id c) (cs_id cand)
      in case find (is_head (cl_id c) (cs_id cand)) hs of None \<Rightarrow> True | Some h \<Rightarrow> put h \<noteq> h)"

abbreviation sealed_error :: exn where
  "sealed_error \<equiv> DBAPIError ''sealed activation heads are immutable''"

lemma sealed_head:
  assumes "heads_sealed w (cs_id cand)"
  shows "out_of_date env base cand (db_heads d) c \<Longrightarrow> prepare_head env base cand w c d = Inl sealed_error"
    "\<not> out_of_date env base cand (db_heads d) c \<Longrightarrow> \<exists>d'. prepare_head env base cand w c d = Inr d' \<and> db_heads d' = db_heads d \<and>
       db_config_heads d' = db_config_heads d"
  using assms
  by (cases "find (is_head (cl_id c) (cs_id cand)) (db_heads d)";
      cases "carries_over (av_host env) base cand c (find (is_head (cl_id c) (cs_id base)) (db_heads d))";
      simp add: prepare_head_def out_of_date_def Let_def)+

lemma sealed_claims:
  assumes "heads_sealed w (cs_id cand)"
  shows "list_ex (out_of_date env base cand (db_heads d)) cs \<Longrightarrow> prepare_claims env base cand w cs d = Inl sealed_error"
    "\<not> list_ex (out_of_date env base cand (db_heads d)) cs \<Longrightarrow> \<exists>d'. prepare_claims env base cand w cs d = Inr d' \<and> db_heads d' = db_heads d \<and>
       db_config_heads d' = db_config_heads d"
proof (induction cs arbitrary: d)
  case (Cons c cs)
  { case 1
    show ?case
    proof (cases "out_of_date env base cand (db_heads d) c")
      case False
      then obtain d' where d': "prepare_head env base cand w c d = Inr d'" "db_heads d' = db_heads d" using sealed_head(2) [OF assms] by blast
      then show ?thesis using 1 False Cons.IH(1) [of d'] by simp
    qed (simp add: sealed_head(1) [OF assms]) }
  { case 2
    then obtain d' where d': "prepare_head env base cand w c d = Inr d'" "db_heads d' = db_heads d" "db_config_heads d' = db_config_heads d"
      using sealed_head(2) [OF assms] by fastforce
    then show ?case using 2 Cons.IH(2) [of d'] by auto }
qed auto

lemma sealed_batches:
  assumes "heads_sealed w (cs_id cand)" "list_ex (list_ex (out_of_date env base cand (db_heads d))) bs" "lock_head d = Inr h" "tuple_ok utc r h"
  shows "\<exists>d1. prepare_batches env utc r base cand bs k (d, w) = (Inl sealed_error, d1, w) \<and> db_heads d1 = db_heads d \<and> db_config_heads d1 = db_config_heads d"
  using assms
proof (induction bs arbitrary: d k)
  case (Cons b bs)
  have ct: "check_tuple utc r d = Inr h" using Cons.prems by (simp add: check_tuple_def)
  show ?case
  proof (cases "list_ex (out_of_date env base cand (db_heads d)) b")
    case True
    then show ?thesis using sealed_claims(1) [OF assms(1)] ct by (simp add: prepare_batch_def)
  next
    case False
    then obtain d' where d': "prepare_claims env base cand w b d = Inr d'" "db_heads d' = db_heads d" "db_config_heads d' = db_config_heads d"
      using sealed_claims(2) [OF assms(1)] by blast
    then show ?thesis using Cons.IH [of d' "k + length b"] Cons.prems False ct lock_head_cong [OF d'(3)] by (auto simp: prepare_batch_def)
  qed
qed simp

lemma concat_batches: "0 < n \<Longrightarrow> concat (batches n xs) = xs"
  by (induction n xs rule: batches.induct) (subst batches.simps, simp)

text \<open>
  C19. An activation that was interrupted after its seal, and whose base has moved since (a cascade demoted a head it
  carried over), cannot be resumed: before the revision is compared, preparing the heads again runs into the trigger
  that freezes them.  The error of the database is not one the driver cleans up after: the candidate stays sealed, the
  slot stays taken, and as heads, slot and candidate are as they were, every later run ends the same way.
\<close>

theorem resumed_seal_with_moved_base_is_stuck:
  assumes "lock_head d = Inr h" "tuple_ok utc r h" "get_snapshot w (rn_candidate r) = Some cand" "get_snapshot w b = Some base"
    and "cs_base_snapshot_id cand = Some b" "cs_activation_mode cand = AM_ONLINE" "cs_activation_state cand \<in> {AST_READY, AST_PUBLISHING}"
    and "cs_activation_cohort_revision cand \<noteq> None" "c \<in> set (db_claims d)" "out_of_date env base cand (db_heads d) c" "0 < n"
  shows "\<exists>d1. run_phases env utc jit r True n (cs_activation_state cand) (d, w) = (Inl sealed_error, d1, w) \<and>
    fail_run utc r sealed_error (d1, w) = (sealed_error, d1, w) \<and> db_config_heads d1 = db_config_heads d \<and> db_heads d1 = db_heads d"
proof -
  have cw: "cand \<in> set (rs_snapshots w)" using assms(3) by (auto simp: get_snapshot_def dest: tbl_get_SomeD)
  have sealed: "heads_sealed w (cs_id cand)" using cw assms(6,7) by (auto simp: heads_sealed_def list_ex_iff)
  have "c \<in> set (concat (batches n (sort_key cl_id (db_claims d))))" using assms(9,11) by (simp add: concat_batches)
  then have ex: "list_ex (list_ex (out_of_date env base cand (db_heads d))) (batches n (sort_key cl_id (db_claims d)))"
    using assms(10) by (auto simp: list_ex_iff)
  obtain d1 where d1: "prepare_batches env utc r base cand (batches n (sort_key cl_id (db_claims d))) 0 (d, w) = (Inl sealed_error, d1, w)"
    "db_heads d1 = db_heads d" "db_config_heads d1 = db_config_heads d"
    using sealed_batches [OF sealed ex assms(1,2)] by blast
  have "freeze_cohort_online env utc r (d, w) = Inr (case cs_activation_expected_head_count cand of None \<Rightarrow> 0 | Some n \<Rightarrow> n, d, w)"
    using assms(1-3,8) by (auto simp: freeze_cohort_online_def check_tuple_def candidate_row_def)
  moreover have "prepare_heads_online env utc r n (d, w) = (Inl sealed_error, d1, w)"
    using d1(1) assms(3-5) by (simp add: prepare_heads_online_def candidate_row_def)
  ultimately have "run_phases env utc jit r True n (cs_activation_state cand) (d, w) = (Inl sealed_error, d1, w)"
    using assms(7) by (auto simp: run_phases_def)
  then show ?thesis using d1(2,3) by (simp add: fail_run_def is_activation_error_def)
qed


subsection \<open>A repair that skips a claim\<close>

lemma pending_questions_only:
  "pending_questions env cand cs d = (n, d') \<Longrightarrow> asked env cand b d' \<Longrightarrow>
     asked env cand b d \<or> (\<exists>c\<in>set cs. pending_question_id env cand c = pending_question_id env cand b)"
proof (induction cs arbitrary: d n)
  case (Cons c cs)
  then obtain m1 d1 m2 where s: "question_for_pending_head env cand c d = (m1, d1)" "pending_questions env cand cs d1 = (m2, d')"
    by (auto simp: Let_def split: prod.splits)
  have "asked env cand b d1 \<Longrightarrow> asked env cand b d \<or> pending_question_id env cand c = pending_question_id env cand b"
    using s(1) by (auto simp: question_for_pending_head_def asked_def Let_def split: if_splits)
  then show ?case using Cons.IH [OF s(2) Cons.prems(2)] by auto
qed simp

text \<open>A blocked manifest of the effective snapshot that is due for repair.\<close>

definition repair_due :: "instant \<Rightarrow> runner \<Rightarrow> nat \<Rightarrow> world \<Rightarrow> bool" where
  "repair_due utc r cur x \<longleftrightarrow>
     (\<exists>h c. lock_head (fst x) = Inr h \<and> rch_active_config_snapshot_id h = rn_candidate r \<and> rch_activating_config_snapshot_id h = None \<and>
        get_snapshot (snd x) (rn_candidate r) = Some c \<and> cs_activation_mode c = AM_ONLINE \<and> cs_activation_state c = AST_POST_PUBLISH_BLOCKED \<and>
        cs_post_publish_next_attempt_at c \<noteq> None \<and> \<not> is_after (cs_post_publish_next_attempt_at c) utc \<and> cs_post_publish_cursor c = Some (int cur))"

lemma repair_more:
  assumes "repair_due utc r cur (d, w)" "cur < length (pending_claim_ids (rn_candidate r) d)"
  shows "\<exists>k d' w' d1. repair_tx env utc r n m (d, w) = Inr (BO_next k, d', w') \<and>
    pending_questions env (rn_candidate r) (take n (drop cur (pending_claim_ids (rn_candidate r) d))) d = (k, d1) \<and> db_questions d' = db_questions d1 \<and>
    repair_due utc r (cur + min n (length (pending_claim_ids (rn_candidate r) d) - cur)) (d', w')"
proof -
  let ?p = "pending_claim_ids (rn_candidate r) d"
  obtain h c where h: "lock_head d = Inr h" "rch_active_config_snapshot_id h = rn_candidate r" "rch_activating_config_snapshot_id h = None"
    "get_snapshot w (rn_candidate r) = Some c" "cs_activation_mode c = AM_ONLINE" "cs_activation_state c = AST_POST_PUBLISH_BLOCKED"
    "cs_post_publish_next_attempt_at c \<noteq> None" "\<not> is_after (cs_post_publish_next_attempt_at c) utc" "cs_post_publish_cursor c = Some (int cur)"
    using assms(1) by (auto simp: repair_due_def)
  have id: "cs_id c = rn_candidate r" using h(4) by (auto simp: get_snapshot_def dest: tbl_get_SomeD)
  have cur: "nat (int_or_0 (cs_post_publish_cursor c)) = cur" using h(9) by (simp add: int_or_0_def)
  obtain k d' w' where b: "manifest_batch env ''repair'' r n c (d, w) = (k, d', w')" by (metis prod.exhaust)
  obtain d1 where d1: "pending_questions env (rn_candidate r) (take n (drop cur ?p)) d = (k, d1)" "db_config_heads d' = db_config_heads d"
    "db_questions d' = db_questions d1"
    and w': "w' = set_snapshot (rn_candidate r) (\<lambda>s. s\<lparr>cs_post_publish_cursor := Some (int (cur + length (take n (drop cur ?p))))\<rparr>) w"
    using b unfolding cur [symmetric] id [symmetric] by (rule manifest_batchE)
  have tx: "repair_tx env utc r n m (d, w) = Inr (BO_next k, d', w')"
    using h id assms(2) b by (auto simp: repair_tx_def Let_def int_or_0_def)
  have "get_snapshot w' (rn_candidate r) = Some (c\<lparr>cs_post_publish_cursor := Some (int (cur + length (take n (drop cur ?p))))\<rparr>)"
    using h(4) by (simp add: w' get_snapshot_def tbl_get_update_id)
  then have "repair_due utc r (cur + min n (length ?p - cur)) (d', w')"
    using h lock_head_cong [OF d1(2)] by (simp add: repair_due_def min.commute)
  then show ?thesis using tx d1 by blast
qed

lemma repair_last:
  assumes "repair_due utc r cur (d, w)" "length (pending_claim_ids (rn_candidate r) d) \<le> cur"
  shows "\<exists>res x'. repair_tx env utc r n m (d, w) = Inr (BO_done res, x') \<and> pp_state res = Some AST_ACTIVE \<and>
    state_now (snd x') (rn_candidate r) = Some AST_ACTIVE \<and> db_questions (fst x') = db_questions d"
proof -
  obtain h c where h: "lock_head d = Inr h" "rch_active_config_snapshot_id h = rn_candidate r" "rch_activating_config_snapshot_id h = None"
    "get_snapshot w (rn_candidate r) = Some c" "cs_activation_mode c = AM_ONLINE" "cs_activation_state c = AST_POST_PUBLISH_BLOCKED"
    "cs_post_publish_next_attempt_at c \<noteq> None" "\<not> is_after (cs_post_publish_next_attempt_at c) utc" "cs_post_publish_cursor c = Some (int cur)"
    using assms(1) by (auto simp: repair_due_def)
  have id: "cs_id c = rn_candidate r" using h(4) by (auto simp: get_snapshot_def dest: tbl_get_SomeD)
  show ?thesis using h id assms(2)
    by (auto simp: repair_tx_def Let_def int_or_0_def pp_result_def state_now_def get_snapshot_def tbl_get_update_id)
qed

text \<open>
  C21. The cursor of a repair counts positions in a list that is read again by every batch.  The slot is free during a
  repair, so the worker runs, and when it promotes one of the claims already handled, the list shifts: the last pending
  claim falls behind the cursor, the manifest is closed as active, and the question of that claim is never asked.
\<close>

theorem repair_skips_a_pending_claim:
  assumes "repair_due utc r 0 (d, w)" "pending_claim_ids (rn_candidate r) d = as @ [b]" "as \<noteq> []" "\<not> asked env (rn_candidate r) b d"
    and "\<forall>a\<in>set as. pending_question_id env (rn_candidate r) a \<noteq> pending_question_id env (rn_candidate r) b"
  shows "\<exists>k d1 w1. repair_tx env utc r (length as) m (d, w) = Inr (BO_next k, d1, w1) \<and>
    (\<forall>d2 bs. db_config_heads d2 = db_config_heads d1 \<longrightarrow> db_questions d2 = db_questions d1 \<longrightarrow>
       pending_claim_ids (rn_candidate r) d2 = bs @ [b] \<longrightarrow> length bs < length as \<longrightarrow>
       (\<exists>res x'. repair_tx env utc r (length as) (m + k) (d2, w1) = Inr (BO_done res, x') \<and> pp_state res = Some AST_ACTIVE \<and>
          state_now (snd x') (rn_candidate r) = Some AST_ACTIVE \<and> \<not> asked env (rn_candidate r) b (fst x')))"
proof -
  obtain k d1 w1 dq where x1: "repair_tx env utc r (length as) m (d, w) = Inr (BO_next k, d1, w1)" "pending_questions env (rn_candidate r) as d = (k, dq)"
    "db_questions d1 = db_questions dq" "repair_due utc r (length as) (d1, w1)"
    using repair_more [OF assms(1), of env "length as" m] assms(2,3) by auto
  have na: "\<not> asked env (rn_candidate r) b d1" using pending_questions_only [OF x1(2)] assms(4,5) x1(3) by (auto simp: asked_def)
  have "\<exists>res x'. repair_tx env utc r (length as) (m + k) (d2, w1) = Inr (BO_done res, x') \<and> pp_state res = Some AST_ACTIVE \<and>
          state_now (snd x') (rn_candidate r) = Some AST_ACTIVE \<and> \<not> asked env (rn_candidate r) b (fst x')"
    if d2: "db_config_heads d2 = db_config_heads d1" "db_questions d2 = db_questions d1" "pending_claim_ids (rn_candidate r) d2 = bs @ [b]" "length bs < length as" for d2 bs
  proof -
    have "repair_due utc r (length as) (d2, w1)" using x1(4) lock_head_cong [OF d2(1)] by (simp add: repair_due_def)
    from repair_last [OF this, of env "length as" "m + k"] show ?thesis using d2 na by (auto simp: asked_def)
  qed
  then show ?thesis using x1(1) by blast
qed

subsection \<open>The invariant of interleaved runs\<close>

text \<open>
  C16. Whatever sequence of transactions of runners, sessions, the worker and cascades is run, in whatever order and by
  whomever, there is one runtime head, every claim has a head under the effective snapshot, what the slot holds is an
  online candidate, a cohort frozen at the present revision counts every claim, and a sealed candidate is online and has
  exactly the heads it was verified with.
\<close>

theorem activation_runs_keep_the_invariant:
  assumes "activation_ok x" "(activation_tx env False)\<^sup>*\<^sup>* x x'"
  shows "activation_ok x' \<and> (\<exists>h. db_config_heads (fst x') = [h] \<and>
      (\<forall>c\<in>set (db_claims (fst x')). \<exists>r\<in>set (db_heads (fst x')). is_head (cl_id c) (rch_active_config_snapshot_id h) r) \<and>
      (\<forall>i. rch_activating_config_snapshot_id h = Some i \<longrightarrow> (\<exists>s. get_snapshot (snd x') i = Some s \<and> cs_activation_mode s = AM_ONLINE))) \<and>
    (\<forall>s\<in>set (rs_snapshots (snd x')).
       (cs_activation_cohort_revision s \<noteq> None \<longrightarrow> cs_activation_cohort_revision s = knowledge_revision (fst x') \<longrightarrow>
          int_or_0 (cs_activation_expected_head_count s) = int (length (db_claims (fst x')))) \<and>
       (cs_activation_state s \<in> {AST_READY, AST_PUBLISHING} \<longrightarrow> cs_activation_mode s = AM_ONLINE \<and>
          cs_activation_verified_head_count s = Some (int (length (candidate_heads (cs_id s) (fst x'))))))"
proof -
  have ok: "activation_ok x'" using act_run.run_ok [OF assms(2,1)] .
  then have ok': "activation_ok (fst x', snd x')" by simp
  obtain h k where h: "db_config_heads (fst x') = [h]" "distinct (map cs_id (rs_snapshots (snd x')))" "knowledge_revision (fst x') = Some k"
    "\<forall>s\<in>set (rs_snapshots (snd x')). snap_ok (claim_ids (fst x')) (head_keys (fst x')) k s" "slot_ok h (rs_snapshots (snd x'))"
    "\<forall>c\<in>set (claim_ids (fst x')). (c, rch_active_config_snapshot_id h) \<in> set (head_keys (fst x'))"
    using ok' by (rule activation_okE)
  have "\<exists>r\<in>set (db_heads (fst x')). is_head (cl_id c) (rch_active_config_snapshot_id h) r" if "c \<in> set (db_claims (fst x'))" for c
    using h(6) that by (fastforce simp: claim_ids_def head_keys_def is_head_def)
  moreover have "\<exists>s. get_snapshot (snd x') i = Some s \<and> cs_activation_mode s = AM_ONLINE" if "rch_activating_config_snapshot_id h = Some i" for i
    using h(5) that tbl_get_distinct [OF h(2)] by (fastforce simp: slot_ok_def get_snapshot_def)
  moreover have "length (candidate_heads i (fst x')) = keys_under i (head_keys (fst x'))" for i
    by (simp add: candidate_heads_def keys_under_def head_keys_def filter_map comp_def)
  ultimately show ?thesis using ok h(1,3,4) by (auto simp: snap_ok_def claim_ids_def int_or_0_def)
qed


subsection \<open>Flip, fence and manifest\<close>

text \<open>
  C15. The effective configuration changes only at a flip, and then no session is active, no admission is live, no commit
  attempt is unresolved, the candidate was built on the configuration it replaces, its seal was taken at the present
  knowledge revision, and every claim has a head under it; the revision moves, and no head and no claim changes.
\<close>

theorem configuration_changes_only_when_quiesced:
  assumes "activation_step env (d, w) (d', w')" "activation_ok (d, w)" "db_config_heads d = [h]" "db_config_heads d' = [h']"
    and "rch_active_config_snapshot_id h' \<noteq> rch_active_config_snapshot_id h"
  shows "(\<forall>s\<in>set (db_sessions d). sess_state s \<notin> set ACTIVE_SESSION_STATES) \<and> count_live_admissions (snd (sweep_expired_admissions d)) = 0 \<and>
    (\<forall>a\<in>set (db_attempts d). att_status a \<notin> {CA_PREPARED, CA_RECONCILING}) \<and>
    (\<exists>c. get_snapshot w (rch_active_config_snapshot_id h') = Some c \<and> cs_base_snapshot_id c = Some (rch_active_config_snapshot_id h) \<and>
       cs_activation_state c = AST_PUBLISHING \<and> cs_activation_cohort_revision c = knowledge_revision d) \<and>
    (\<forall>c\<in>set (claim_ids d). (c, rch_active_config_snapshot_id h') \<in> set (head_keys d')) \<and>
    knowledge_revision d' = map_option (\<lambda>k. k + 1) (knowledge_revision d) \<and> db_heads d' = db_heads d \<and> db_claims d' = db_claims d"
proof -
  have "\<not> slot_moves d d'" using assms(3-5) by (auto simp: slot_moves_def)
  then obtain utc r n where f: "flip env utc r (d, w) = Inr (n, d', w')"
    "\<forall>s. get_snapshot w (rn_candidate r) = Some s \<longrightarrow> cs_activation_state s = AST_PUBLISHING \<and> cs_activation_cohort_revision s \<noteq> None"
    using activation_tx_moves [OF assms(1,2)] by (auto simp: flips_def)
  have lh: "lock_head d = Inr h" "rch_scope h = SCOPE" using one_head [OF assms(2)] assms(3) by auto
  have ne: "rch_active_config_snapshot_id h \<noteq> rn_candidate r" using f(1) lh assms(3-5) by (auto simp: flip_def split: sum.splits if_splits)
  obtain c a l u sw d1 b k1 m where c: "candidate_row w (rn_candidate r) = Inr c" "quiesce_counts d = ((a, l, u, sw), d1)" "a = 0" "l = 0" "u = 0"
    and t: "tuple_ok utc r h" and c': "cs_base_snapshot_id c = Some b" "rch_active_config_snapshot_id h = b" "knowledge_revision d = Some k1" "k1 = int_or_0 (cs_activation_cohort_revision c)"
    and d': "db_config_heads d' = tbl_update (\<lambda>h. rch_scope h = SCOPE) (\<lambda>h. h\<lparr>rch_active_config_snapshot_id := rn_candidate r\<rparr>) (db_config_heads d)"
      "db_heads d' = db_heads d" "db_claims d' = db_claims d" "knowledge_revision d' = Some (k1 + 1)"
    by (rule flip_done [OF f(1) lh(1) ne])
  have h': "rch_active_config_snapshot_id h' = rn_candidate r" using d'(1) assms(3,4) lh(2) by simp
  have g: "get_snapshot w (rn_candidate r) = Some c" using c(1) by (auto simp: candidate_row_def split: option.splits)
  have "activation_ok (d', w')" by (rule flip_ok [OF f(1) assms(2)])
  then have cover: "\<forall>c\<in>set (claim_ids d). (c, rch_active_config_snapshot_id h') \<in> set (head_keys d')"
    using activation_okE [of d' w'] assms(4) column_congs(2) [OF d'(3)] by (metis list.inject)
  have q: "\<forall>s\<in>set (db_sessions d). sess_state s \<notin> set ACTIVE_SESSION_STATES" "count_live_admissions (snd (sweep_expired_admissions d)) = 0"
    "\<forall>a\<in>set (db_attempts d). att_status a \<notin> {CA_PREPARED, CA_RECONCILING}"
    using c(2-5) by (auto simp: quiesce_counts_def sweep_expired_admissions_def tbl_count_0_iff Let_def split: prod.splits)
  have rev: "cs_activation_cohort_revision c = knowledge_revision d" using c'(3,4) f(2) g by (auto simp: int_or_0_def)
  show ?thesis using q g h' c'(1,2) f(2) rev cover d' c'(3) by auto
qed

text \<open>
  C17. A runner whose slot was taken over under a higher fence, or cleared, is fenced out for good: whatever the other
  runners, the sessions, the worker and the cascades do afterwards, in whatever order, its drain poll, cancel, confirm,
  freeze, head preparation, seal, start of publishing and flip are refused, its manifest batch and the handler of a
  failed batch change nothing, and its cleanup is refused while the slot is held.  Publishing a new drain hands out a
  new fence, and the repair runs without one: neither is a transaction of the lost fence.
\<close>

theorem lost_slot_is_fenced_out_for_good:
  assumes "activation_ok x" "db_config_heads (fst x) = [h]" "rn_fence r \<le> rch_activation_fence h"
    and "rch_activating_config_snapshot_id h \<noteq> Some (rn_candidate r) \<or> rch_activation_lease_owner h \<noteq> Some (rn_owner r) \<or> rch_activation_fence h \<noteq> rn_fence r"
    and "(activation_tx env False)\<^sup>*\<^sup>* x x'"
  shows "fenced_out env r x'"
proof -
  note keep = act_run.run [OF assms(5,1)]
  have "activation_ok (fst x', snd x')" using keep by simp
  then obtain h' where h': "db_config_heads (fst x') = [h']" "lock_head (fst x') = Inr h'" by (rule one_head)
  have "slot_move h h'" using keep assms(2) h'(1) by simp
  then have "\<not> tuple_ok utc r h'" for utc using assms(3,4) by (auto simp: slot_move_def tuple_ok_def)
  then show ?thesis using no_tuple_fenced_out [OF h'(2), of r env "snd x'"] by simp
qed

text \<open>
  C18. The post-publish manifest of an activation completes: when the writer gate is free for the runner and the manifest is
  due, enough batches for the pending heads end the run in the state active, with the slot free and one question for
  every pending head from the cursor on.
\<close>

theorem post_publish_manifest_completes:
  assumes "take_gate r d = (True, d1)" "manifest_due utc r cur (d, w)" "0 < n"
    and "length (pending_claim_ids (rn_candidate r) d) \<le> cur + k * n"
  shows "\<exists>res x'. run_post_publish env utc jit r n (Suc k) (d, w) = (Inr res, x') \<and> pp_state res = Some AST_ACTIVE \<and>
    manifest_done env r (drop cur (pending_claim_ids (rn_candidate r) d)) x'"
proof -
  note g = gate_columns [OF assms(1)]
  have due: "manifest_due utc r cur (d1, w)" using assms(2) lock_head_cong [OF g(1)] by (simp add: manifest_due_def)
  have le: "length (pending_claim_ids (rn_candidate r) d1) \<le> cur + k * n" using assms(4) pending_cong [OF g(2)] by simp
  obtain res created x2 where b: "post_publish_batches env utc r n (Suc k) 0 (d1, w) = (Inr res, created, x2)" "pp_state res = Some AST_ACTIVE"
    "manifest_done env r (drop cur (pending_claim_ids (rn_candidate r) d1)) x2"
    using manifest_batches [OF due assms(3) le] by blast
  have "manifest_done env r (drop cur (pending_claim_ids (rn_candidate r) d)) (drop_gate r x2)"
    using b(3) pending_cong [OF g(2)] by (simp add: manifest_done_def drop_gate_columns asked_def)
  then show ?thesis using assms(1) b(1,2) unfolding run_post_publish_def by (auto simp del: post_publish_batches.simps)
qed

subsection \<open>Concrete worlds\<close>

text \<open>
  Two claims, the bootstrap snapshot 1 and the online candidate 7 built on it, with a head for both claims under both;
  claim 3 has a question id of its own.
\<close>

declare One_nat_def [simp del]

definition act_env :: activation_env where
  "act_env = \<lparr>av_host = skip_host, av_uuid5 = (\<lambda>n s. if s = ''activation-pending:'' @ uuid_str 7 @ '':'' @ uuid_str 3 then 31 else 30), av_prefix = ''re-examine: ''\<rparr>"

definition act_candidate :: "activation_state \<Rightarrow> snapshot_row" where
  "act_candidate st = run_snapshot\<lparr>cs_id := 7, cs_activation_state := st, cs_base_snapshot_id := Some 1, cs_activation_mode := AM_ONLINE,
     cs_activation_cohort_revision := Some 1, cs_activation_expected_head_count := Some 2, cs_activation_verified_head_count := Some 2,
     cs_activation_heads_sha256 := Some ''d'', cs_post_publish_cursor := Some 0, cs_post_publish_next_attempt_at := Some 0\<rparr>"

definition act_research :: "activation_state \<Rightarrow> research" where
  "act_research st = (run_research [])\<lparr>rs_snapshots := [run_snapshot, act_candidate st]\<rparr>"

definition act_slot :: "uuid \<Rightarrow> uuid option \<Rightarrow> config_head_row" where
  "act_slot active cand = \<lparr>rch_scope = SCOPE, rch_active_config_snapshot_id = active, rch_activating_config_snapshot_id = cand, rch_activation_fence = 5,
     rch_activation_lease_owner = Some ''op'', rch_activation_lease_expires_at = Some 100, rch_updated_at = 0\<rparr>"

definition act_heads :: "head_row list" where
  "act_heads = [fresh_head 2 1 0, fresh_head 3 1 0, fresh_head 2 7 0, fresh_head 3 7 0]"

definition act_db :: "uuid \<Rightarrow> uuid option \<Rightarrow> db" where
  "act_db active cand = empty_db\<lparr>db_claims := [run_claim, run_claim\<lparr>cl_id := 3\<rparr>], db_heads := act_heads, db_config_heads := [act_slot active cand],
     db_revisions := [\<lparr>rev_scope = ''knowledge'', rev_revision = 1, rev_updated_at = 0\<rparr>]\<rparr>"

definition act_runner :: runner where
  "act_runner = \<lparr>rn_candidate = 7, rn_fence = 5, rn_owner = ''op''\<rparr>"

lemmas act_defs = act_env_def act_candidate_def act_research_def act_slot_def act_db_def act_runner_def run_snapshot_def

lemma act_fields [simp]:
  "db_config_heads (act_db i j) = [act_slot i j]" "rs_snapshots (act_research st) = [run_snapshot, act_candidate st]"
  "rch_scope (act_slot i j) = SCOPE" "rch_active_config_snapshot_id (act_slot i j) = i" "rch_activating_config_snapshot_id (act_slot i j) = j"
  "rch_activation_fence (act_slot i j) = 5" "lock_head (act_db i j) = Inr (act_slot i j)"
  "get_snapshot (act_research st) 7 = Some (act_candidate st)" "get_snapshot (act_research st) 1 = Some run_snapshot"
  "cs_activation_state (act_candidate st) = st" "cs_activation_mode (act_candidate st) = AM_ONLINE" "cs_id (act_candidate st) = 7"
  "tuple_ok 0 act_runner (act_slot i (Some 7))" "rn_candidate act_runner = 7" "db_heads (act_db i j) = act_heads"
  by (simp_all add: act_defs lock_head_def get_snapshot_def tuple_ok_def lease_live_def is_after_def)

lemma act_pending: "pending_claim_ids 7 (act_db i j) = [2, 3]"
  by (simp add: pending_claim_ids_def act_heads_def fresh_head_def)

lemma act_revision: "knowledge_revision (act_db i j) = Some 1"
  by (simp add: act_db_def knowledge_revision_def get_revision_def)

lemma act_ok: "activation_ok (act_db 1 (Some 7), act_research AST_PUBLISHING)"
proof -
  have c: "claim_ids (act_db 1 (Some 7)) = [2, 3]" "head_keys (act_db 1 (Some 7)) = [(2, 1), (3, 1), (2, 7), (3, 7)]"
    by (simp_all add: claim_ids_def act_db_def run_claim_def head_keys_def act_heads_def fresh_head_def)
  show ?thesis
    by (rule activation_okI [where h = "act_slot 1 (Some 7)" and k = 1])
      (auto simp: act_revision c snap_ok_def keys_under_def slot_ok_def run_snapshot_def act_candidate_def int_or_0_def)
qed

lemma act_flip:
  "\<exists>n d' w'. flip act_env 0 act_runner (act_db 1 (Some 7), act_research AST_PUBLISHING) = Inr (n, d', w') \<and> db_config_heads d' = [act_slot 7 (Some 7)]"
proof -
  let ?rv = "\<lparr>rev_scope = ''knowledge'', rev_revision = 1, rev_updated_at = 0\<rparr>"
  obtain d1 where d1: "quiesce_counts (act_db 1 (Some 7)) = ((0, 0, 0, 0), d1)" "get_revision d1 ''knowledge'' = Some ?rv" "db_config_heads d1 = [act_slot 1 (Some 7)]"
    by (simp add: quiesce_counts_def sweep_expired_admissions_def act_db_def empty_db_def count_live_admissions_def get_revision_def)
  have r: "flip_refusal (act_candidate AST_PUBLISHING) (act_slot 1 (Some 7)) (0, 0, 0, 0) (Some 1) = None"
    by (simp add: flip_refusal_def act_candidate_def act_slot_def int_or_0_def)
  show ?thesis
    using d1 r by (simp add: flip_def candidate_row_def Let_def) (simp add: act_slot_def)
qed

lemma act_flip_step:
  obtains d' w' where "activation_tx act_env ordered (act_db 1 (Some 7), act_research AST_PUBLISHING) (d', w')" "db_config_heads d' = [act_slot 7 (Some 7)]"
proof -
  obtain n d' w' where f: "flip act_env 0 act_runner (act_db 1 (Some 7), act_research AST_PUBLISHING) = Inr (n, d', w')" "db_config_heads d' = [act_slot 7 (Some 7)]"
    using act_flip by blast
  show thesis by (rule that [OF activation_tx.as_flip [OF f(1)] f(2)]) (auto simp: act_candidate_def)
qed

theorem configuration_changes_only_when_quiesced_witness:
  "\<exists>d' w'. activation_step act_env (act_db 1 (Some 7), act_research AST_PUBLISHING) (d', w') \<and> db_config_heads d' = [act_slot 7 (Some 7)] \<and>
     knowledge_revision d' = Some 2"
proof -
  obtain d' w' where s: "activation_step act_env (act_db 1 (Some 7), act_research AST_PUBLISHING) (d', w')" "db_config_heads d' = [act_slot 7 (Some 7)]"
    by (rule act_flip_step)
  show ?thesis using s act_revision configuration_changes_only_when_quiesced [OF s(1) act_ok, of "act_slot 1 (Some 7)" "act_slot 7 (Some 7)"] by auto
qed

theorem activation_runs_keep_the_invariant_witness:
  "\<exists>x'. activation_tx act_env False (act_db 1 (Some 7), act_research AST_PUBLISHING) x' \<and> activation_ok x'"
proof -
  obtain d' w' where s: "activation_tx act_env False (act_db 1 (Some 7), act_research AST_PUBLISHING) (d', w')" by (rule act_flip_step)
  then show ?thesis using activation_runs_keep_the_invariant [OF act_ok r_into_rtranclp, of act_env "(d', w')"] by blast
qed

theorem lost_slot_is_fenced_out_for_good_witness:
  "\<exists>d' w'. activation_tx act_env False (act_db 1 (Some 7), act_research AST_PUBLISHING) (d', w') \<and>
     fenced_out act_env \<lparr>rn_candidate = 7, rn_fence = 4, rn_owner = ''old''\<rparr> (d', w')"
proof -
  obtain d' w' where s: "activation_tx act_env False (act_db 1 (Some 7), act_research AST_PUBLISHING) (d', w')" by (rule act_flip_step)
  then show ?thesis
    using lost_slot_is_fenced_out_for_good [OF act_ok, of "act_slot 1 (Some 7)" "\<lparr>rn_candidate = 7, rn_fence = 4, rn_owner = ''old''\<rparr>" act_env "(d', w')"]
    by auto
qed

lemma act_gate: "\<exists>d1. take_gate act_runner (act_db 7 (Some 7)) = (True, d1)"
  by (simp add: take_gate_def acquire_writer_gate_def act_db_def empty_db_def GATE_SCOPE_def gate_where_def Let_def)

lemma act_due: "manifest_due 0 act_runner 0 (act_db 7 (Some 7), act_research AST_POST_PUBLISH)"
  unfolding manifest_due_def by (intro exI [of _ "act_slot 7 (Some 7)"] exI [of _ "act_candidate AST_POST_PUBLISH"]) (simp, simp add: act_candidate_def is_after_def)

theorem post_publish_manifest_completes_witness:
  "\<exists>res x'. run_post_publish act_env 0 0 act_runner 1 3 (act_db 7 (Some 7), act_research AST_POST_PUBLISH) = (Inr res, x') \<and>
     pp_state res = Some AST_ACTIVE \<and> manifest_done act_env act_runner [2, 3] x'"
proof -
  obtain d1 where "take_gate act_runner (act_db 7 (Some 7)) = (True, d1)" using act_gate by blast
  from post_publish_manifest_completes [OF this act_due, of 1 2 act_env 0] show ?thesis
    by (simp add: act_pending numeral_3_eq_3 numeral_2_eq_2 del: post_publish_batches.simps)
qed

definition act_plan :: drain_plan where
  "act_plan = \<lparr>dp_lease_seconds = 60, dp_gate_wait_seconds = 1, dp_drain_wait_seconds = 1, dp_polls = [], dp_final = 0, dp_confirm = 0, dp_tries = []\<rparr>"

theorem finished_candidate_keeps_the_slot_witness:
  "\<exists>fn x1. run_fence 0 7 ''op'' AST_DRAFT act_plan (act_db 1 None, act_research AST_FAILED) = (Inr (fn, False), x1) \<and>
     run_fence 1000000 8 ''op'' AST_DRAFT act_plan x1 = (Inl (ActivationError ''another candidate is being activated''), x1)"
  using finished_candidate_keeps_the_slot [of "act_db 1 None" "act_slot 1 None" "act_research AST_FAILED" 7 "act_candidate AST_FAILED" 0 "''op''" AST_DRAFT
      act_plan act_env 0 1]
  by (auto simp: TERMINAL_STATES_def)

text \<open>The candidate was sealed with the head of claim 2 carried over as current; the base head has been demoted since.\<close>

definition moved_db :: db where
  "moved_db = (act_db 1 (Some 7))\<lparr>db_heads := [fresh_head 2 1 0, fresh_head 3 1 0,
     (fresh_head 2 7 0)\<lparr>hd_assessment_state := AS_CURRENT, hd_current_assessment_id := Some 9\<rparr>, fresh_head 3 7 0]\<rparr>"

theorem resumed_seal_with_moved_base_is_stuck_witness:
  "\<exists>d1. run_phases act_env 0 0 act_runner True 128 AST_READY (moved_db, act_research AST_READY) = (Inl sealed_error, d1, act_research AST_READY) \<and>
     fail_run 0 act_runner sealed_error (d1, act_research AST_READY) = (sealed_error, d1, act_research AST_READY) \<and>
     db_config_heads d1 = [act_slot 1 (Some 7)]"
proof -
  have l: "lock_head moved_db = Inr (act_slot 1 (Some 7))" by (simp add: moved_db_def lock_head_def)
  have c: "run_claim \<in> set (db_claims moved_db)" by (simp add: moved_db_def act_db_def)
  have o: "out_of_date act_env run_snapshot (act_candidate AST_READY) (db_heads moved_db) run_claim"
    by (simp add: out_of_date_def moved_db_def run_claim_def run_snapshot_def fresh_head_def is_head_def carries_over_def shadow_of_def)
  have h: "db_config_heads moved_db = [act_slot 1 (Some 7)]" by (simp add: moved_db_def)
  have "cs_base_snapshot_id (act_candidate AST_READY) = Some 1" "cs_activation_cohort_revision (act_candidate AST_READY) \<noteq> None"
    by (simp_all add: act_candidate_def)
  then show ?thesis
    using resumed_seal_with_moved_base_is_stuck [OF l, of 0 act_runner "act_research AST_READY" "act_candidate AST_READY" 1 run_snapshot run_claim act_env 128 0]
      c o by (simp add: h) blast
qed

lemma act_questions: "pending_question_id act_env 7 2 \<noteq> pending_question_id act_env 7 3"
  by (simp add: pending_question_id_def act_env_def uuid_str_inj)

theorem repair_skips_a_pending_claim_witness:
  "\<exists>k d1 w1. repair_tx act_env 0 act_runner 1 0 (act_db 7 None, act_research AST_POST_PUBLISH_BLOCKED) = Inr (BO_next k, d1, w1) \<and>
     (\<exists>res x'. repair_tx act_env 0 act_runner 1 k (d1\<lparr>db_heads := [fresh_head 3 7 0]\<rparr>, w1) = Inr (BO_done res, x') \<and> pp_state res = Some AST_ACTIVE \<and>
        \<not> asked act_env 7 3 (fst x'))"
proof -
  have due: "repair_due 0 act_runner 0 (act_db 7 None, act_research AST_POST_PUBLISH_BLOCKED)"
    unfolding repair_due_def by (intro exI [of _ "act_slot 7 None"] exI [of _ "act_candidate AST_POST_PUBLISH_BLOCKED"]) (simp, simp add: act_candidate_def is_after_def)
  have p: "pending_claim_ids (rn_candidate act_runner) (act_db 7 None) = [2] @ [3]" by (simp add: act_pending)
  have n: "\<not> asked act_env (rn_candidate act_runner) 3 (act_db 7 None)" by (simp add: asked_def act_db_def empty_db_def)
  obtain k d1 w1 where x: "repair_tx act_env 0 act_runner (length [2 :: uuid]) 0 (act_db 7 None, act_research AST_POST_PUBLISH_BLOCKED) = Inr (BO_next k, d1, w1)"
    "\<forall>d2 bs. db_config_heads d2 = db_config_heads d1 \<longrightarrow> db_questions d2 = db_questions d1 \<longrightarrow>
       pending_claim_ids (rn_candidate act_runner) d2 = bs @ [3] \<longrightarrow> length bs < length [2 :: uuid] \<longrightarrow>
       (\<exists>res x'. repair_tx act_env 0 act_runner (length [2 :: uuid]) (0 + k) (d2, w1) = Inr (BO_done res, x') \<and> pp_state res = Some AST_ACTIVE \<and>
          state_now (snd x') (rn_candidate act_runner) = Some AST_ACTIVE \<and> \<not> asked act_env (rn_candidate act_runner) 3 (fst x'))"
    using repair_skips_a_pending_claim [OF due p _ n, of 0] act_questions by auto
  have "pending_claim_ids 7 (d1\<lparr>db_heads := [fresh_head 3 7 0]\<rparr>) = [] @ [3]" by (simp add: pending_claim_ids_def fresh_head_def)
  then show ?thesis using x(1) x(2) [rule_format, of "d1\<lparr>db_heads := [fresh_head 3 7 0]\<rparr>" "[]"] by (auto simp: One_nat_def)
qed

end
