(* ===== verification/Spec2Isabelle.thy ===== *)
theory Spec2Isabelle
  imports Reconciler Barrier UpstreamSearch ActivationResults
begin

text \<open>
  \<^bold>\<open>Verification library of the noezema research node.\<close>

  The program is an autonomous research node.  A session takes a question, explores it under a
  lease, records its findings in a staging journal and commits them to a shared knowledge base in
  one fenced transaction; claims in that base carry evidence, a graded assessment by a rules engine
  and dependencies on other claims; when a claim falls, a cascade invalidates what rests on it.  All
  state lives in PostgreSQL; every service is a Python function that runs inside a transaction.

  \<^bold>\<open>How the code is modelled.\<close>  A table is the list of its rows, a row a record with the columns of its
  ORM class, and the database the record \<open>db\<close> (theory Store).  An operation of the code is a function on
  \<open>db\<close>, written out branch by branch; an exception is the \<open>Inl\<close> value of a sum, which is also the rollback of
  its transaction.  Conditional UPDATEs are \<open>tbl_update\<close> with the WHERE clause as the test.  Identifiers are
  the 128-bit value of a UUID as a natural number, instants are integers in microseconds, Python
  integers are \<open>int\<close>, floats are rationals with the rounding of IEEE doubles written out (theory PyData).
  Concurrency is interleaving of transactions: step relations whose steps are whole transactions.

  \<^bold>\<open>Theories\<close>, with the source they model (paths under \<open>src/\<close>):

  \<^item> Prelude: types for Python and SQL values, tables, dictionaries in insertion order.
  \<^item> Enums, AuditTypes: \<open>packages/domain/models/enums.py\<close>, every closed vocabulary with its wire values; the
    locale \<open>str_enum\<close> is interpreted for each.
  \<^item> Sanitization: \<open>packages/domain/sanitization.py\<close>, \<open>canonical.py\<close>.  Masking removes every NUL; canonical bytes do
    not depend on key order.
  \<^item> PyStr, PyData, UuidText: the parts of the Python language and library the services use (strip, str, int,
    truth values, equality, float rounding, \<open>uuid.UUID\<close>), with the facts the components need.
  \<^item> Store: the rows, \<open>AuditService.record\<close> and the event repositories; the audit trail is numbered without
    gaps.
  \<^item> SessionMachine: \<open>apps/orchestrator/state_machine.py\<close> and the transition sequence of
    \<open>apps/orchestrator/orchestrator.py\<close>; sessions end, and success passes the commit boundary.
  \<^item> Locks, Lease, WriterGate: \<open>packages/domain/services/locks.py\<close>, \<open>lease.py\<close>, \<open>packages/memory/writer_gate.py\<close>,
    \<open>session_admission.py\<close>; no deadlock, exclusive leases, one writer.
  \<^item> Staging, Commit, Reconciler: \<open>services/staging.py\<close>, \<open>reserve.py\<close>, \<open>commit.py\<close>, \<open>reconciler.py\<close> and the commit path of the
    orchestrator; what a commit may write and when, and an invariant over every interleaving of
    commits, leases and reconciliations (\<open>commit_step\<close>).
  \<^item> Scope, RulesEngine, EnvIndependence, UnionFind, Independence: \<open>packages/memory/scope.py\<close>, \<open>rules_engine.py\<close>,
    \<open>freshness.py\<close>, \<open>env_independence.py\<close>, \<open>independence.py\<close>; when a claim is supported and how strongly, and which
    sources count as independent.  The union-find refines the connected components (locale
    \<open>partition_store\<close>).
  \<^item> Closure, Cascade, Barrier: \<open>packages/memory/cascade.py\<close>; the closure is the transitive dependents, what a
    cascade does to their heads (locale \<open>skip_step\<close>, the contract of an idempotent batch), and that a large
    cascade, drained in windows behind a barrier, ends with no current dependent.
  \<^item> Reassessment, ReassessmentQueue, ReassessmentResults: \<open>packages/memory/reassessment.py\<close> with the parts of \<open>service.py\<close>,
    \<open>source_graph.py\<close> and \<open>evidence.py\<close> it calls.  The queue follows the machine of one job (\<open>job_move\<close>) over every
    sequence of transactions (\<open>queue_step\<close>); a job never overwrites a current head; a failing job is blocked exactly
    when its budget is spent; a promoted head carries the evaluation.
  \<^item> Activation, ActivationSafety, ActivationRuns, ActivationResults: \<open>packages/memory/activation.py\<close>, the online change of
    the effective configuration, with the payload tests of \<open>cognition/tokenizer.py\<close> and \<open>llm_gateway/reasoning_compat.py\<close> and
    the trigger of migration 0009.  Transactions of any number of runners interleave with sessions, worker and cascades
    (\<open>activation_tx\<close>, locale \<open>guarded_steps\<close>), in any order and run by anyone; what the others may do in a transaction of
    theirs is \<open>outside\<close>, a condition on the rows they add.  \<open>activation_step\<close> is the same relation with the flip where the
    driver calls it.  The invariant (\<open>activation_ok\<close>) covers every claim with a head under the effective snapshot and
    keeps the seal true; the configuration changes only when the node is quiesced, a runner that lost the slot stays
    fenced out of the transactions of its fence, the manifest completes; three executions that get stuck or skip work
    are exhibited.
  \<^item> Policy: \<open>packages/policy/engine.py\<close>, \<open>profiles.py\<close>, \<open>tools.py\<close>; a tool call that is not denied is granted by the
    profile, and paths stay inside its roots (locale \<open>args_validator\<close>, what the engine needs of pydantic).
  \<^item> Egress, ProxyFetch, UpstreamSearch: \<open>apps/research_proxy/ssrf_guard.py\<close>, \<open>modes.py\<close>, \<open>backend.py\<close>, \<open>fetch.py\<close>, \<open>search.py\<close>
    and the network part of \<open>service.py\<close> with its total read budget; which addresses are refused and which internal
    ones are not, where connections go whatever the network answers, and the rate of upstream searches.

  \<^bold>\<open>Parameters.\<close>  SHA-256, the text of a float, \<open>uuid5\<close>, \<open>urlsplit\<close>, \<open>fromisoformat\<close>, the regular expressions of the
  question intake and texts outside the 8-bit character type are arguments of the definitions that use
  them; so are clock readings, lock timeouts, faults of a probe, the free state of an advisory lock and
  the memory callback of the commit (its frame is the hypothesis \<open>memory_keeps\<close>).  The policy engine takes the
  validator of arguments and the YAML ceilings as arguments; the research proxy takes the record \<open>net\<close> of
  resolver, HTTP client, \<open>urljoin\<close> and clock, \<open>json.loads\<close>, and whether the read ended within its budget (\<open>read_budget\<close>).  An activation run takes what other transactions do during its
  waits, the jitter and the Russian prefix of a question.

  \<^bold>\<open>Loops.\<close>  Every loop is a total function with a termination proof, except the root search of the
  union-find, which is a \<open>partial_function (option)\<close> proved to return on every reachable forest.  There is no fuel.

  \<^bold>\<open>Not modelled.\<close>  Foreign keys; isolation below a transaction; the language model, network, file and
  container I/O; the web views and the text heuristics of the curator and the research proxy, which work on
  Unicode prose.  The manifest lists every part with its status.
\<close>

end
